(* ===== verification/Bagel_Prelude.thy ===== *)
theory Bagel_Prelude
  imports Main "HOL-Library.Word" "HOL-Library.Char_ord" "HOL-Library.List_Lexorder"
begin

text \<open>
  The vocabulary every component shares: the error type of \<open>bagel-core\<close>, Rust's \<open>Result\<close>
  and its \<open>?\<close> operator, saturating integer arithmetic, decimal printing and parsing, the
  string operations of the standard library the code calls, ordered association lists for
  \<open>BTreeMap\<close>, addresses, and two generic locales (state machines with an invariant, and
  fallible steps run as a batch).
\<close>

named_theorems result_simps "rewriting of the Result operators"
named_theorems width_simps "the integer widths as numerals"

section \<open>Errors and results\<close>

text \<open>\<open>bagel_core::Error\<close>. Where the code carries the text of a library error, the text is
  whatever that library says and the model keeps a fixed tag instead.\<close>

datatype error =
    Config string
  | ConfigAt nat string
  | ConfigParse string string
  | Io string
  | Pattern string
  | Network string
  | Tls string
  | Proxy string
  | Challenge string
  | Template string
  | Crypto string
  | Other string

type_synonym 'a result = "error + 'a"

fun rbind :: "'e + 'a \<Rightarrow> ('a \<Rightarrow> 'e + 'b) \<Rightarrow> 'e + 'b" where
  "rbind (Inl e) f = Inl e"
| "rbind (Inr x) f = f x"

lemma rbind_Inr_iff [result_simps]: "rbind r f = Inr y \<longleftrightarrow> (\<exists>x. r = Inr x \<and> f x = Inr y)"
  by (cases r) auto

lemma rbind_Inl_iff [result_simps]:
  "rbind r f = Inl e \<longleftrightarrow> r = Inl e \<or> (\<exists>x. r = Inr x \<and> f x = Inl e)"
  by (cases r) auto

lemma rbind_cong [fundef_cong]:
  "\<lbrakk> r = r'; \<And>x. r' = Inr x \<Longrightarrow> f x = g x \<rbrakk> \<Longrightarrow> rbind r f = rbind r' g"
  by (cases r') auto

text \<open>\<open>iter().map(f).collect::<Result<Vec<_>, _>>()\<close>: the first error wins.\<close>

fun collect_results :: "('a \<Rightarrow> 'e + 'b) \<Rightarrow> 'a list \<Rightarrow> 'e + 'b list" where
  "collect_results f [] = Inr []"
| "collect_results f (x # xs) =
     rbind (f x) (\<lambda>y. rbind (collect_results f xs) (\<lambda>ys. Inr (y # ys)))"

lemma collect_results_Inr_iff:
  "collect_results f xs = Inr ys \<longleftrightarrow> list_all2 (\<lambda>x y. f x = Inr y) xs ys"
  by (induction xs arbitrary: ys) (auto simp: result_simps list_all2_Cons1)

lemma collect_results_member:
  "collect_results f xs = Inr ys \<Longrightarrow> x \<in> set xs \<Longrightarrow> \<exists>y \<in> set ys. f x = Inr y"
  by (induction xs arbitrary: ys) (auto simp: result_simps)

lemma list_all2_set1: "list_all2 P xs ys \<Longrightarrow> x \<in> set xs \<Longrightarrow> \<exists>y \<in> set ys. P x y"
  by (induction xs ys rule: list_all2_induct) auto

lemma list_all2_set2: "list_all2 P xs ys \<Longrightarrow> y \<in> set ys \<Longrightarrow> \<exists>x \<in> set xs. P x y"
  by (induction xs ys rule: list_all2_induct) auto

lemma collect_results_map: "(\<And>x. x \<in> set xs \<Longrightarrow> f x = Inr (g x)) \<Longrightarrow> collect_results f xs = Inr (map g xs)"
  by (induction xs) auto

text \<open>\<open>Option::ok_or\<close>, and \<open>Option<Result>::transpose\<close>.\<close>

definition ok_or :: "'e \<Rightarrow> 'a option \<Rightarrow> 'e + 'a" where
  "ok_or e x = (case x of None \<Rightarrow> Inl e | Some y \<Rightarrow> Inr y)"

definition transpose_option :: "('e + 'a) option \<Rightarrow> 'e + 'a option" where
  "transpose_option x = (case x of None \<Rightarrow> Inr None | Some r \<Rightarrow> rbind r (\<lambda>y. Inr (Some y)))"

lemma ok_or_simps [simp]: "ok_or e None = Inl e" "ok_or e (Some x) = Inr x"
  by (simp_all add: ok_or_def)

lemma ok_or_Inr_iff [result_simps]: "ok_or e x = Inr y \<longleftrightarrow> x = Some y"
  by (cases x) auto

lemma transpose_option_simps [simp]:
  "transpose_option None = Inr None"
  "transpose_option (Some r) = rbind r (\<lambda>y. Inr (Some y))"
  by (simp_all add: transpose_option_def)

text \<open>\<open>if cond { return Err(e) }\<close>, and a loop whose body only checks.\<close>

definition fail_if :: "bool \<Rightarrow> 'e \<Rightarrow> 'e + unit" where
  "fail_if b e = (if b then Inl e else Inr ())"

fun check_all :: "('a \<Rightarrow> 'e + unit) \<Rightarrow> 'a list \<Rightarrow> 'e + unit" where
  "check_all f [] = Inr ()"
| "check_all f (x # xs) = rbind (f x) (\<lambda>_. check_all f xs)"

lemma fail_if_Inr_iff [result_simps]: "fail_if b e = Inr u \<longleftrightarrow> \<not> b"
  by (simp add: fail_if_def)

lemma fail_if_Inl_iff [result_simps]: "fail_if b e = Inl e' \<longleftrightarrow> b \<and> e' = e"
  by (auto simp: fail_if_def)

lemma check_all_Inr_iff [result_simps]: "check_all f xs = Inr u \<longleftrightarrow> (\<forall>x \<in> set xs. f x = Inr ())"
  by (induction xs) (auto simp: result_simps)

section \<open>Integer widths and saturation\<close>

text \<open>
  Unsigned integers are \<open>nat\<close>, with the width written out in every operation that can leave
  it. \<open>saturating_sub\<close> is subtraction on \<open>nat\<close>. \<open>i64\<close> values are \<open>int\<close>.
\<close>

type_synonym u64 = nat
type_synonym u32 = nat
type_synonym u16 = nat
type_synonym usize = nat
type_synonym i64 = int
type_synonym byte = "8 word"

definition u16_max :: nat where "u16_max = 65535"
definition u32_max :: nat where "u32_max = 4294967295"
definition u64_max :: nat where "u64_max = 18446744073709551615"
definition i64_max :: nat where "i64_max = 9223372036854775807"

lemmas [width_simps] = u16_max_def u32_max_def u64_max_def i64_max_def

lemma i64_max_le_u64_max [simp]: "i64_max \<le> u64_max"
  by (simp add: width_simps)

definition sat_add64 :: "u64 \<Rightarrow> u64 \<Rightarrow> u64" where
  "sat_add64 a b = min (a + b) u64_max"

definition sat_mul64 :: "u64 \<Rightarrow> u64 \<Rightarrow> u64" where
  "sat_mul64 a b = min (a * b) u64_max"

definition sat_add32 :: "u32 \<Rightarrow> u32 \<Rightarrow> u32" where
  "sat_add32 a b = min (a + b) u32_max"

text \<open>\<open>2_u64.saturating_pow(n)\<close>: every power from the 64th on saturates.\<close>

definition sat_pow2 :: "nat \<Rightarrow> u64" where
  "sat_pow2 n = (if n < 64 then 2 ^ n else u64_max)"

lemma sat_add64_le [simp]: "sat_add64 a b \<le> u64_max"
  by (simp add: sat_add64_def)

lemma sat_mul64_le [simp]: "sat_mul64 a b \<le> u64_max"
  by (simp add: sat_mul64_def)

lemma sat_add64_mono: "a \<le> a' \<Longrightarrow> b \<le> b' \<Longrightarrow> sat_add64 a b \<le> sat_add64 a' b'"
  by (simp add: sat_add64_def)

lemma sat_mul64_mono: "a \<le> a' \<Longrightarrow> b \<le> b' \<Longrightarrow> sat_mul64 a b \<le> sat_mul64 a' b'"
  using mult_le_mono [of a a' b b'] by (simp add: sat_mul64_def)

lemma sat_pow2_is_min: "sat_pow2 n = min (2 ^ n) u64_max"
proof (cases "n < 64")
  case True
  then have "(2::nat) ^ n \<le> 2 ^ 63" by (intro power_increasing) auto
  with True show ?thesis by (simp add: sat_pow2_def width_simps)
next
  case False
  then have "(2::nat) ^ 64 \<le> 2 ^ n" by (intro power_increasing) auto
  with False show ?thesis by (simp add: sat_pow2_def width_simps)
qed

lemma sat_pow2_mono: "m \<le> n \<Longrightarrow> sat_pow2 m \<le> sat_pow2 n"
  by (auto simp: sat_pow2_is_min intro: min.coboundedI1 power_increasing)

lemma sat_pow2_pos: "0 < sat_pow2 n"
  by (simp add: sat_pow2_def width_simps)

section \<open>Strings\<close>

text \<open>\<open>u64::to_string\<close> and \<open>str::parse::<u64>\<close>. The parser takes one leading plus sign, and
  refuses an empty digit string and a value past the width.\<close>

definition digit_char :: "nat \<Rightarrow> char" where
  "digit_char d = char_of (48 + d)"

definition is_digit :: "char \<Rightarrow> bool" where
  "is_digit c \<longleftrightarrow> 48 \<le> (of_char c :: nat) \<and> (of_char c :: nat) \<le> 57"

definition digit_value :: "char \<Rightarrow> nat" where
  "digit_value c = of_char c - 48"

fun show_nat :: "nat \<Rightarrow> string" where
  "show_nat n = (if n < 10 then [digit_char n] else show_nat (n div 10) @ [digit_char (n mod 10)])"

declare show_nat.simps [simp del]

definition digits_value :: "string \<Rightarrow> nat" where
  "digits_value s = foldl (\<lambda>acc c. acc * 10 + digit_value c) 0 s"

definition show_int :: "int \<Rightarrow> string" where
  "show_int i = (if i < 0 then CHR ''-'' # show_nat (nat (- i)) else show_nat (nat i))"

definition parse_unsigned :: "nat \<Rightarrow> string \<Rightarrow> nat option" where
  "parse_unsigned bound s =
     (let ds = (case s of c # rest \<Rightarrow> if c = CHR ''+'' then rest else s | [] \<Rightarrow> [])
      in if ds \<noteq> [] \<and> list_all is_digit ds \<and> digits_value ds \<le> bound
         then Some (digits_value ds) else None)"

lemma digit_char_props:
  assumes "d < 10"
  shows "is_digit (digit_char d)" "digit_value (digit_char d) = d" "digit_char d \<noteq> CHR ''+''"
proof -
  have "(of_char (char_of (48 + d) :: char) :: nat) = 48 + d"
    using assms by simp
  then show "is_digit (digit_char d)" "digit_value (digit_char d) = d"
    using assms by (auto simp: is_digit_def digit_value_def digit_char_def)
  then show "digit_char d \<noteq> CHR ''+''"
    by (auto simp: is_digit_def)
qed

lemma show_nat_digits: "show_nat n \<noteq> [] \<and> list_all is_digit (show_nat n) \<and> hd (show_nat n) \<noteq> CHR ''+''"
proof (induction n rule: show_nat.induct)
  case (1 n)
  show ?case
  proof (cases "n < 10")
    case True
    then show ?thesis by (simp add: show_nat.simps [of n] digit_char_props)
  next
    case False
    with 1 show ?thesis
      by (auto simp: show_nat.simps [of n] digit_char_props hd_append)
  qed
qed

lemma digits_value_show_nat [simp]: "digits_value (show_nat n) = n"
proof (induction n rule: show_nat.induct)
  case (1 n)
  then show ?case
    by (cases "n < 10") (simp_all add: show_nat.simps [of n] digits_value_def digit_char_props)
qed

lemma parse_show_nat: "n \<le> bound \<Longrightarrow> parse_unsigned bound (show_nat n) = Some n"
  using show_nat_digits [of n] digits_value_show_nat [of n]
  by (cases "show_nat n") (auto simp: parse_unsigned_def Let_def simp del: digits_value_show_nat)

lemma parse_unsigned_le: "parse_unsigned bound s = Some n \<Longrightarrow> n \<le> bound"
  by (auto simp: parse_unsigned_def Let_def split: if_splits)

lemma show_nat_inject [simp]: "show_nat m = show_nat n \<longleftrightarrow> m = n"
  by (metis digits_value_show_nat)

text \<open>\<open>str::strip_prefix\<close>, \<open>str::contains(char)\<close>, \<open>str::split(char)\<close>.\<close>

fun strip_prefix :: "'a list \<Rightarrow> 'a list \<Rightarrow> 'a list option" where
  "strip_prefix [] s = Some s"
| "strip_prefix (p # ps) [] = None"
| "strip_prefix (p # ps) (c # cs) = (if p = c then strip_prefix ps cs else None)"

lemma strip_prefix_iff: "strip_prefix p s = Some r \<longleftrightarrow> s = p @ r"
  by (induction p s rule: strip_prefix.induct) auto

lemma strip_prefix_append [simp]: "strip_prefix p (p @ r) = Some r"
  by (simp add: strip_prefix_iff)

fun split_on :: "'a \<Rightarrow> 'a list \<Rightarrow> 'a list list" where
  "split_on d [] = [[]]"
| "split_on d (c # cs) =
     (if c = d then [] # split_on d cs
      else (case split_on d cs of [] \<Rightarrow> [[c]] | w # ws \<Rightarrow> (c # w) # ws))"

lemma split_on_nonempty [simp]: "split_on d s \<noteq> []"
  by (induction s) (auto split: list.splits)

lemma split_on_append: "split_on d (a @ d # b) = split_on d a @ split_on d b"
  by (induction a) (auto split: list.splits)

text \<open>ASCII classes of \<open>u8\<close> and \<open>char\<close>.\<close>

definition is_lower :: "char \<Rightarrow> bool" where
  "is_lower c \<longleftrightarrow> 97 \<le> (of_char c :: nat) \<and> (of_char c :: nat) \<le> 122"

definition is_upper :: "char \<Rightarrow> bool" where
  "is_upper c \<longleftrightarrow> 65 \<le> (of_char c :: nat) \<and> (of_char c :: nat) \<le> 90"

definition is_alphanumeric :: "char \<Rightarrow> bool" where
  "is_alphanumeric c \<longleftrightarrow> is_lower c \<or> is_upper c \<or> is_digit c"

text \<open>\<open>[String]::join\<close>.\<close>

fun join_with :: "string \<Rightarrow> string list \<Rightarrow> string" where
  "join_with sep [] = []"
| "join_with sep [x] = x"
| "join_with sep (x # y # ys) = x @ sep @ join_with sep (y # ys)"

lemma fold_max_member:
  fixes x :: "'a::linorder"
  assumes "x \<in> set xs \<or> x \<le> m"
  shows "x \<le> fold max xs m"
proof -
  have "fold max xs m = Max (set (m # xs))" by (simp only: Max.set_eq_fold)
  with assms show ?thesis by (auto simp: Max_ge_iff)
qed

section \<open>Ordered maps\<close>

text \<open>\<open>BTreeMap\<close> as an association list in strictly ascending key order, so that iteration is
  the list itself. \<open>BTreeSet\<close> is the same with unit values and keeps its elements only.\<close>

type_synonym ('k, 'v) btree = "('k \<times> 'v) list"

definition bt_ok :: "('k::linorder, 'v) btree \<Rightarrow> bool" where
  "bt_ok m \<longleftrightarrow> sorted_wrt (<) (map fst m)"

fun bt_insert :: "'k::linorder \<Rightarrow> 'v \<Rightarrow> ('k, 'v) btree \<Rightarrow> ('k, 'v) btree" where
  "bt_insert k v [] = [(k, v)]"
| "bt_insert k v ((k', v') # m) =
     (if k < k' then (k, v) # (k', v') # m
      else if k = k' then (k, v) # m
      else (k', v') # bt_insert k v m)"

definition bt_remove :: "'k \<Rightarrow> ('k, 'v) btree \<Rightarrow> ('k, 'v) btree" where
  "bt_remove k m = filter (\<lambda>(k', _). k' \<noteq> k) m"

definition bt_retain :: "('k \<Rightarrow> 'v \<Rightarrow> bool) \<Rightarrow> ('k, 'v) btree \<Rightarrow> ('k, 'v) btree" where
  "bt_retain P m = filter (\<lambda>(k, v). P k v) m"

lemma bt_ok_Nil [simp]: "bt_ok []"
  by (simp add: bt_ok_def)

lemma bt_ok_filter [simp]: "bt_ok m \<Longrightarrow> bt_ok (filter P m)"
  by (induction m) (auto simp: bt_ok_def)

lemma bt_ok_distinct: "bt_ok m \<Longrightarrow> distinct (map fst m)"
  by (auto simp: bt_ok_def strict_sorted_iff)

lemma bt_insert_keys: "fst ` set (bt_insert k v m) = insert k (fst ` set m)"
  by (induction k v m rule: bt_insert.induct) auto

lemma bt_insert_ok [simp]: "bt_ok m \<Longrightarrow> bt_ok (bt_insert k v m)"
proof (induction k v m rule: bt_insert.induct)
  case (2 k v k' v' m)
  have "\<forall>x \<in> fst ` set (bt_insert k v m). k' < x" if "\<not> k < k'" "k \<noteq> k'"
    using 2(2) that by (auto simp: bt_insert_keys bt_ok_def)
  with 2 show ?case by (auto simp: bt_ok_def)
qed (simp add: bt_ok_def)

lemma map_of_bt_insert [simp]:
  "bt_ok m \<Longrightarrow> map_of (bt_insert k v m) x = (if x = k then Some v else map_of m x)"
proof (induction k v m rule: bt_insert.induct)
  case (2 k v k' v' m)
  then show ?case by (auto simp: bt_ok_def)
qed simp

lemma bt_insert_length:
  "bt_ok m \<Longrightarrow> length (bt_insert k v m) = (if k \<in> fst ` set m then length m else Suc (length m))"
  by (induction k v m rule: bt_insert.induct) (auto simp: bt_ok_def)

lemma bt_remove_ok [simp]: "bt_ok m \<Longrightarrow> bt_ok (bt_remove k m)"
  by (simp add: bt_remove_def)

lemma bt_retain_ok [simp]: "bt_ok m \<Longrightarrow> bt_ok (bt_retain P m)"
  by (simp add: bt_retain_def)

lemma bt_remove_length_less: "k \<in> fst ` set m \<Longrightarrow> length (bt_remove k m) < length m"
  by (auto simp: bt_remove_def intro!: length_filter_less)

section \<open>Addresses\<close>

text \<open>\<open>std::net::IpAddr\<close>: an IPv4 address is 32 bits, an IPv6 address 128.\<close>

datatype ip_addr = V4 "32 word" | V6 "128 word"

fun is_ipv4 :: "ip_addr \<Rightarrow> bool" where
  "is_ipv4 (V4 _) = True"
| "is_ipv4 (V6 _) = False"

section \<open>State machines with an invariant, and batches of fallible steps\<close>

locale invariant_machine =
  fixes inv :: "'s \<Rightarrow> bool"
    and step :: "'i \<Rightarrow> 's \<Rightarrow> 's"
  assumes step_inv: "inv s \<Longrightarrow> inv (step i s)"
begin

lemma run_inv: "inv s \<Longrightarrow> inv (fold step is s)"
  by (induction "is" arbitrary: s) (auto simp: step_inv)

end

text \<open>Run a fallible step over a list of inputs, the state threaded through, stopping at the
  first error: the body of every transaction that loops over its inputs.\<close>

fun run_batch :: "('i \<Rightarrow> 's \<Rightarrow> 'e + ('o \<times> 's)) \<Rightarrow> 'i list \<Rightarrow> 's \<Rightarrow> 'e + ('o list \<times> 's)" where
  "run_batch step [] s = Inr ([], s)"
| "run_batch step (i # is) s =
     rbind (step i s) (\<lambda>(out, s'). rbind (run_batch step is s') (\<lambda>(outs, s''). Inr (out # outs, s'')))"

lemma run_batch_Cons_Inr:
  "run_batch step (i # is) s = Inr (outs, t) \<longleftrightarrow>
     (\<exists>out s' outs'. step i s = Inr (out, s') \<and> run_batch step is s' = Inr (outs', t) \<and>
        outs = out # outs')"
  by (auto simp: result_simps)

lemma run_batch_length: "run_batch step is s = Inr (outs, t) \<Longrightarrow> length outs = length is"
  by (induction "is" arbitrary: s outs) (auto simp: result_simps)

lemma run_batch_append:
  "run_batch step (is @ js) s =
     rbind (run_batch step is s) (\<lambda>(outs, s').
       rbind (run_batch step js s') (\<lambda>(outs', s''). Inr (outs @ outs', s'')))"
proof (induction "is" arbitrary: s)
  case Nil
  show ?case by (cases "run_batch step js s") auto
next
  case (Cons i "is")
  show ?case
  proof (cases "step i s")
    case (Inl e)
    then show ?thesis by simp
  next
    case (Inr r)
    obtain out s' where r: "r = (out, s')" by fastforce
    show ?thesis
    proof (cases "run_batch step is s'")
      case (Inl e)
      with Inr r Cons show ?thesis by simp
    next
      case ok: (Inr r')
      obtain outs s'' where "r' = (outs, s'')" by fastforce
      with Inr r Cons ok show ?thesis
        by (cases "run_batch step js s''") auto
    qed
  qed
qed

locale fallible_step =
  fixes inv :: "'s \<Rightarrow> bool"
    and step :: "'i \<Rightarrow> 's \<Rightarrow> 'e + ('o \<times> 's)"
  assumes step_keeps: "inv s \<Longrightarrow> step i s = Inr (out, s') \<Longrightarrow> inv s'"
begin

lemma batch_keeps: "inv s \<Longrightarrow> run_batch step is s = Inr (outs, s') \<Longrightarrow> inv s'"
  by (induction "is" arbitrary: s outs) (auto simp: result_simps dest: step_keeps)

end

end
