(* ===== verification/Ip_Network.thy ===== *)
theory Ip_Network
  imports Bagel_Prelude "HOL-Library.Product_Lexorder"
begin

text \<open>
  The \<open>ipnetwork\<close> crate as the code uses it. The crate is not part of the repository, so its
  operations are a record that the definitions take as an argument, and what the code relies
  on is stated as predicates on that record: containment is equality of the leading bits
  (\<open>net_semantics\<close>), a full-length prefix is always constructible (\<open>net_hosts\<close>), and the
  textual form parses back (\<open>net_text\<close>). \<open>cidr\<close> is an implementation that satisfies them,
  used where a concrete network is needed.
\<close>

record 'net ipnet =
  net_ip :: "'net \<Rightarrow> ip_addr"
  net_prefix :: "'net \<Rightarrow> nat"
  net_contains :: "'net \<Rightarrow> ip_addr \<Rightarrow> bool"
  net_is_ipv4 :: "'net \<Rightarrow> bool"
  net_new :: "ip_addr \<Rightarrow> nat \<Rightarrow> 'net option"
  net_show :: "'net \<Rightarrow> string"
  net_parse :: "string \<Rightarrow> 'net option"
  addr_parse :: "string \<Rightarrow> ip_addr option"

fun addr_bits :: "ip_addr \<Rightarrow> nat" where
  "addr_bits (V4 _) = 32"
| "addr_bits (V6 _) = 128"

fun same_prefix :: "nat \<Rightarrow> ip_addr \<Rightarrow> ip_addr \<Rightarrow> bool" where
  "same_prefix p (V4 a) (V4 b) \<longleftrightarrow> drop_bit (32 - p) a = drop_bit (32 - p) b"
| "same_prefix p (V6 a) (V6 b) \<longleftrightarrow> drop_bit (128 - p) a = drop_bit (128 - p) b"
| "same_prefix p _ _ \<longleftrightarrow> False"

definition net_semantics :: "'net ipnet \<Rightarrow> bool" where
  "net_semantics N \<longleftrightarrow>
     (\<forall>n a. net_contains N n a \<longleftrightarrow> same_prefix (net_prefix N n) a (net_ip N n)) \<and>
     (\<forall>n. net_is_ipv4 N n \<longleftrightarrow> is_ipv4 (net_ip N n))"

definition net_hosts :: "'net ipnet \<Rightarrow> bool" where
  "net_hosts N \<longleftrightarrow>
     (\<forall>a. \<exists>n. net_new N a (addr_bits a) = Some n \<and> net_ip N n = a \<and> net_prefix N n = addr_bits a)"

definition net_text :: "'net ipnet \<Rightarrow> bool" where
  "net_text N \<longleftrightarrow> (\<forall>n. net_parse N (net_show N n) = Some n)"

lemma net_show_inject: "net_text N \<Longrightarrow> net_show N m = net_show N n \<longleftrightarrow> m = n"
  by (metis net_text_def option.inject)

section \<open>Prefixes are nested or disjoint\<close>

lemma same_prefix_refl [simp]: "same_prefix p a a"
  by (cases a) auto

lemma same_prefix_sym: "same_prefix p a b \<longleftrightarrow> same_prefix p b a"
  by (cases a; cases b) auto

lemma same_prefix_trans: "same_prefix p a b \<Longrightarrow> same_prefix p b c \<Longrightarrow> same_prefix p a c"
  by (cases a; cases b; cases c) auto

lemma drop_bit_coarser:
  fixes a b :: "'w::len word"
  assumes "drop_bit n a = drop_bit n b" "n \<le> m"
  shows "drop_bit m a = drop_bit m b"
proof -
  have "drop_bit m x = drop_bit (m - n) (drop_bit n x)" for x :: "'w word"
    using assms(2) by (simp add: drop_bit_drop_bit)
  then show ?thesis using assms(1) by metis
qed

lemma same_prefix_shorter: "same_prefix q a b \<Longrightarrow> p \<le> q \<Longrightarrow> same_prefix p a b"
  by (cases a; cases b) (auto elim: drop_bit_coarser)

lemma same_prefix_nested:
  assumes "same_prefix p a x" "same_prefix q a y"
  shows "same_prefix p y x \<or> same_prefix q x y"
proof (cases "p \<le> q")
  case True
  then have "same_prefix p a y" using assms(2) same_prefix_shorter by blast
  then show ?thesis using assms(1) same_prefix_sym same_prefix_trans by blast
next
  case False
  then have "same_prefix q a x" using assms(1) same_prefix_shorter [of p a x q] by simp
  then show ?thesis using assms(2) same_prefix_sym same_prefix_trans by blast
qed

lemma same_prefix_family: "same_prefix p a b \<Longrightarrow> is_ipv4 a = is_ipv4 b"
  by (cases a; cases b) auto

section \<open>Host networks and overlap\<close>

text \<open>\<open>networks_overlap\<close> of firewall.rs and \<open>host_network\<close> of defense.rs.\<close>

definition networks_overlap :: "'net ipnet \<Rightarrow> 'net \<Rightarrow> 'net \<Rightarrow> bool" where
  "networks_overlap N left right =
     (if net_is_ipv4 N left \<noteq> net_is_ipv4 N right then False
      else net_contains N left (net_ip N right) \<or> net_contains N right (net_ip N left))"

definition host_network :: "'net ipnet \<Rightarrow> ip_addr \<Rightarrow> 'net result" where
  "host_network N address =
     ok_or (Network ''invalid prefix'') (net_new N address (if is_ipv4 address then 32 else 128))"

lemma networks_overlap_sym: "networks_overlap N m n = networks_overlap N n m"
  by (auto simp: networks_overlap_def)

text \<open>The overlap test is exact: two networks overlap precisely when some address is in both.\<close>

lemma networks_overlap_iff:
  assumes "net_semantics N"
  shows "networks_overlap N m n \<longleftrightarrow> (\<exists>a. net_contains N m a \<and> net_contains N n a)"
proof
  assume "networks_overlap N m n"
  then show "\<exists>a. net_contains N m a \<and> net_contains N n a"
    using assms unfolding networks_overlap_def net_semantics_def
    by (metis same_prefix_refl)
next
  assume "\<exists>a. net_contains N m a \<and> net_contains N n a"
  then obtain a where a: "same_prefix (net_prefix N m) a (net_ip N m)"
    "same_prefix (net_prefix N n) a (net_ip N n)"
    using assms unfolding net_semantics_def by blast
  then have "is_ipv4 (net_ip N m) = is_ipv4 (net_ip N n)"
    using same_prefix_family by metis
  with same_prefix_nested [OF a] show "networks_overlap N m n"
    using assms unfolding networks_overlap_def net_semantics_def by auto
qed

lemma host_network_contains:
  assumes "net_semantics N" "host_network N a = Inr n" "net_hosts N"
  shows "net_contains N n b \<longleftrightarrow> b = a"
proof -
  have "net_new N a (addr_bits a) = Some n"
    using assms(2) by (cases a) (auto simp: host_network_def result_simps)
  then have "net_ip N n = a" "net_prefix N n = addr_bits a"
    using assms(3) by (auto simp: net_hosts_def dest: spec [of _ a])
  then have "net_contains N n b \<longleftrightarrow> same_prefix (addr_bits a) b a"
    using assms(1) by (simp add: net_semantics_def)
  then show ?thesis by (cases a; cases b) auto
qed

section \<open>A concrete implementation\<close>

instantiation ip_addr :: linorder
begin

fun less_eq_ip_addr :: "ip_addr \<Rightarrow> ip_addr \<Rightarrow> bool" where
  "less_eq_ip_addr (V4 a) (V4 b) \<longleftrightarrow> a \<le> b"
| "less_eq_ip_addr (V4 a) (V6 b) \<longleftrightarrow> True"
| "less_eq_ip_addr (V6 a) (V4 b) \<longleftrightarrow> False"
| "less_eq_ip_addr (V6 a) (V6 b) \<longleftrightarrow> a \<le> b"

definition less_ip_addr :: "ip_addr \<Rightarrow> ip_addr \<Rightarrow> bool" where
  "less_ip_addr a b \<longleftrightarrow> a \<le> b \<and> \<not> b \<le> a"

instance
proof
  fix x y z :: ip_addr
  show "(x < y) = (x \<le> y \<and> \<not> y \<le> x)" by (simp add: less_ip_addr_def)
  show "x \<le> x" by (cases x) auto
  show "x \<le> y \<Longrightarrow> y \<le> z \<Longrightarrow> x \<le> z" by (cases x; cases y; cases z) auto
  show "x \<le> y \<Longrightarrow> y \<le> x \<Longrightarrow> x = y" by (cases x; cases y) auto
  show "x \<le> y \<or> y \<le> x" by (cases x; cases y) auto
qed

end

type_synonym cidr = "ip_addr \<times> nat"

fun cidr_show :: "cidr \<Rightarrow> string" where
  "cidr_show (V4 w, p) = CHR ''4'' # CHR '':'' # show_nat (unat w) @ CHR ''/'' # show_nat p"
| "cidr_show (V6 w, p) = CHR ''6'' # CHR '':'' # show_nat (unat w) @ CHR ''/'' # show_nat p"

definition cidr_parse :: "string \<Rightarrow> cidr option" where
  "cidr_parse s =
     (let ds = takeWhile is_digit (drop 2 s); ps = drop (3 + length ds) s
      in if take 2 s = ''4:'' then Some (V4 (of_nat (digits_value ds)), digits_value ps)
         else if take 2 s = ''6:'' then Some (V6 (of_nat (digits_value ds)), digits_value ps)
         else None)"

definition cidr :: "cidr ipnet" where
  "cidr = \<lparr> net_ip = fst, net_prefix = snd,
     net_contains = (\<lambda>n a. same_prefix (snd n) a (fst n)),
     net_is_ipv4 = (\<lambda>n. is_ipv4 (fst n)),
     net_new = (\<lambda>a p. if p \<le> addr_bits a then Some (a, p) else None),
     net_show = cidr_show, net_parse = cidr_parse,
     addr_parse = (\<lambda>s. map_option fst (cidr_parse s)) \<rparr>"

lemma takeWhile_show_nat: "takeWhile is_digit (show_nat n @ CHR ''/'' # r) = show_nat n"
proof -
  have "takeWhile is_digit (show_nat n @ CHR ''/'' # r) =
      show_nat n @ takeWhile is_digit (CHR ''/'' # r)"
    using show_nat_digits [of n] by (intro takeWhile_append2) (auto simp: list_all_iff)
  then show ?thesis by (simp add: is_digit_def)
qed

lemma cidr_text: "net_text cidr"
proof -
  have "cidr_parse (cidr_show n) = Some n" for n
    by (cases n rule: cidr_show.cases)
      (simp_all add: cidr_parse_def Let_def takeWhile_show_nat numeral_eq_Suc)
  then show ?thesis by (simp add: net_text_def cidr_def)
qed

lemma cidr_semantics: "net_semantics cidr"
  by (simp add: net_semantics_def cidr_def)

lemma cidr_hosts: "net_hosts cidr"
  by (simp add: net_hosts_def cidr_def)

lemma cidr_simps [simp]:
  "net_ip cidr = fst" "net_prefix cidr = snd"
  "net_contains cidr n a = same_prefix (snd n) a (fst n)"
  "net_is_ipv4 cidr n = is_ipv4 (fst n)"
  "net_show cidr = cidr_show" "net_parse cidr = cidr_parse"
  "net_new cidr a p = (if p \<le> addr_bits a then Some (a, p) else None)"
  by (simp_all add: cidr_def)

end
