(* ===== verification/Config_Model.thy ===== *)
theory Config_Model
  imports Ip_Network
begin

text \<open>
  The defense configuration of \<open>bagel-config\<close>: its types (lib.rs) and the validation of a
  resolved configuration (validation.rs). The \<open>regex\<close> crate and the socket-address parser
  are arguments. Validation returns the first failing check, as the source does.
\<close>

section \<open>Configuration types\<close>

record listener =
  listener_name :: string
  listen_addr :: string
  listener_policy :: "string option"
  listener_max_tarpit_conns :: "usize option"
  listener_min_delay_ms :: "u64 option"
  listener_max_delay_ms :: "u64 option"
  listener_max_tarpit_secs :: "u64 option"
  listener_line_length :: "usize option"

definition max_tarpit_conns :: "listener \<Rightarrow> usize \<Rightarrow> usize" where
  "max_tarpit_conns l dflt = (case listener_max_tarpit_conns l of None \<Rightarrow> dflt | Some n \<Rightarrow> n)"

datatype start_position = Beginning | End

datatype source =
    Journal "(string, string) btree list" start_position usize
  | File string start_position u64 usize
  | AddressSet string
  | ListenerSource string
  | Web

record regex_detector =
  rd_prefilter :: "string option"
  rd_patterns :: "string list"
  rd_context_patterns :: "string list"
  rd_max_context_lines :: usize
  rd_context_window_secs :: u64
  rd_ignore_patterns :: "string list"
  rd_address_capture :: string
  rd_timestamp_capture :: "string option"
  rd_timestamp_format :: "string option"

record json_detector =
  jd_equals :: "(string, string) btree"
  jd_address_pointer :: string
  jd_timestamp_pointer :: "string option"
  jd_group_key_pointer :: "string option"
  jd_timestamp_format :: "string option"

datatype detector = Regex regex_detector | Json json_detector

datatype transport_protocol = Tcp | Udp

datatype action =
    Observe
  | Drop transport_protocol "u16 list"
  | DropProtocol transport_protocol
  | DropAll
  | Reject transport_protocol "u16 list"
  | RejectProtocol transport_protocol
  | RejectAll
  | TarpitRedirect transport_protocol "u16 list" string

datatype block_verdict = BlockDrop | BlockReject

datatype block_target = TPorts transport_protocol "u16 list" | TProtocol transport_protocol | TAll

fun block_parts :: "action \<Rightarrow> (block_verdict \<times> block_target) option" where
  "block_parts Observe = None"
| "block_parts (TarpitRedirect _ _ _) = None"
| "block_parts (Drop protocol ports) = Some (BlockDrop, TPorts protocol ports)"
| "block_parts (DropProtocol protocol) = Some (BlockDrop, TProtocol protocol)"
| "block_parts DropAll = Some (BlockDrop, TAll)"
| "block_parts (Reject protocol ports) = Some (BlockReject, TPorts protocol ports)"
| "block_parts (RejectProtocol protocol) = Some (BlockReject, TProtocol protocol)"
| "block_parts RejectAll = Some (BlockReject, TAll)"

fun protocol_show :: "transport_protocol \<Rightarrow> string" where
  "protocol_show Tcp = ''tcp''"
| "protocol_show Udp = ''udp''"

fun verdict_show :: "block_verdict \<Rightarrow> string" where
  "verdict_show BlockDrop = ''drop''"
| "verdict_show BlockReject = ''reject''"

definition format_ports :: "u16 list \<Rightarrow> string" where
  "format_ports ports = join_with '','' (map show_nat ports)"

definition action_show :: "action \<Rightarrow> string" where
  "action_show a =
     (case block_parts a of
        Some (verdict, TPorts protocol ports) \<Rightarrow>
          verdict_show verdict @ '' '' @ protocol_show protocol @ '' '' @ format_ports ports
      | Some (verdict, TProtocol protocol) \<Rightarrow>
          verdict_show verdict @ ''_protocol '' @ protocol_show protocol
      | Some (verdict, TAll) \<Rightarrow> verdict_show verdict @ ''_all''
      | None \<Rightarrow>
          (case a of
             TarpitRedirect protocol ports listener \<Rightarrow>
               ''tarpit_redirect '' @ protocol_show protocol @ '' '' @ format_ports ports @
               '' -> '' @ listener
           | _ \<Rightarrow> ''observe''))"

record ban_schedule =
  duration_secs :: "u64 option"
  factor :: u64
  multipliers :: "u64 list"
  jitter_secs :: u64
  max_duration_secs :: u64
  overall :: bool

definition default_ban_schedule :: ban_schedule where
  "default_ban_schedule =
     \<lparr> duration_secs = Some 600, factor = 4,
       multipliers = [4, 8, 16, 32, 64, 128, 256, 512, 1024, 2048],
       jitter_secs = 720, max_duration_secs = 18000000, overall = True \<rparr>"

record policy =
  policy_source :: string
  policy_detector :: detector
  policy_ignore_networks :: "string list"
  policy_max_attempts :: u32
  policy_findtime_secs :: u64
  policy_ban :: ban_schedule
  policy_action :: action

datatype enforcement_mode = Required | ObserveMode

record enforcement =
  enforcement_mode :: enforcement_mode
  enforcement_table :: string
  enforcement_chain_priority :: int
  reconcile_interval_secs :: u64

record verified_crawler =
  crawler_name :: string
  crawler_ua_pattern :: string
  crawler_networks :: "string list"

record config =
  cfg_listeners :: "listener list"
  cfg_sources :: "(string, source) btree"
  cfg_policies :: "(string, policy) btree"
  cfg_enforcement :: enforcement
  cfg_database_path :: string
  cfg_history_retention_secs :: u64
  cfg_journalctl_path :: string
  cfg_nft_path :: string
  cfg_protected_networks :: "string list"
  cfg_min_delay_ms :: u64
  cfg_max_delay_ms :: u64
  cfg_max_tarpit_secs :: u64
  cfg_tarpit_chunk_min_bytes :: usize
  cfg_tarpit_chunk_max_bytes :: usize
  cfg_max_tarpit_conns :: usize
  cfg_max_tarpit_conns_per_ip :: usize
  cfg_tarpit_write_timeout_secs :: u64
  cfg_max_connections :: usize
  cfg_proxy_protocol :: bool
  cfg_trusted_proxies :: "string list"
  cfg_trap_patterns :: "string list"
  cfg_trap_user_agents :: "string list"
  cfg_whitelist_networks :: "string list"
  cfg_verified_crawlers :: "verified_crawler list"
  cfg_no_block_networks :: "string list"

text \<open>The \<open>regex\<close> crate: compilation, the named groups of a pattern, and a search that
  returns the text of each named group of the first match.\<close>

record 're regex_lib =
  rx_new :: "string \<Rightarrow> 're option"
  rx_names :: "'re \<Rightarrow> string list"
  rx_captures :: "'re \<Rightarrow> string \<Rightarrow> (string \<Rightarrow> string option) option"

definition rx_is_match :: "'re regex_lib \<Rightarrow> 're \<Rightarrow> string \<Rightarrow> bool" where
  "rx_is_match X re text \<longleftrightarrow> rx_captures X re text \<noteq> None"

section \<open>Validation\<close>

definition compile_regex :: "'re regex_lib \<Rightarrow> string \<Rightarrow> string \<Rightarrow> string \<Rightarrow> 're result" where
  "compile_regex X scope field pattern =
     ok_or (Config (scope @ '' has an invalid regex '' @ field @ '' '' @ pattern)) (rx_new X pattern)"

definition validate_dribble :: "string \<Rightarrow> u64 \<Rightarrow> u64 \<Rightarrow> usize \<Rightarrow> usize \<Rightarrow> unit result" where
  "validate_dribble ctx min_delay_ms max_delay_ms chunk_min chunk_max =
     rbind (fail_if (max_delay_ms < min_delay_ms)
              (Config (ctx @ '': min-delay-ms exceeds max-delay-ms''))) (\<lambda>_.
     rbind (fail_if (chunk_min = 0) (Config (ctx @ '': chunk-min must not be zero''))) (\<lambda>_.
     fail_if (chunk_max < chunk_min) (Config (ctx @ '': chunk-min exceeds chunk-max''))))"

definition validate_ports :: "string \<Rightarrow> u16 list \<Rightarrow> unit result" where
  "validate_ports policy ports =
     fail_if (ports = [] \<or> 0 \<in> set ports)
       (Config (''policy '' @ policy @ '' scoped action requires non-zero ports''))"

definition validate_cidrs :: "'net ipnet \<Rightarrow> string \<Rightarrow> string list \<Rightarrow> unit result" where
  "validate_cidrs N field cidrs =
     check_all (\<lambda>cidr.
       rbind (fail_if (CHR ''/'' \<notin> set cidr)
                (Config (field @ '' contains invalid CIDR '' @ cidr))) (\<lambda>_.
       fail_if (net_parse N cidr = None)
         (Config (field @ '' contains invalid CIDR '' @ cidr)))) cidrs"

definition validate_ban_schedule :: "string \<Rightarrow> ban_schedule \<Rightarrow> unit result" where
  "validate_ban_schedule policy ban =
     fail_if (duration_secs ban = Some 0 \<or> factor ban = 0 \<or> 0 \<in> set (multipliers ban) \<or>
              max_duration_secs ban = 0)
       (Config (''policy '' @ policy @ '' ban durations, factor, and multipliers must be non-zero''))"

definition validate_capture_name :: "string \<Rightarrow> string \<Rightarrow> string \<Rightarrow> unit result" where
  "validate_capture_name policy field capture =
     fail_if (capture = [] \<or> \<not> list_all (\<lambda>c. is_alphanumeric c \<or> c = CHR ''_'') capture \<or>
              is_digit (hd capture))
       (Config (''policy '' @ policy @ '' '' @ field @ '' is not a valid capture name''))"

definition validate_timestamp_format :: "string \<Rightarrow> string option \<Rightarrow> unit result" where
  "validate_timestamp_format policy format =
     (case format of
        None \<Rightarrow> Inr ()
      | Some candidate \<Rightarrow>
          fail_if (\<not> (candidate \<in> {''rfc3339'', ''unix''} \<or>
                     (case strip_prefix ''strptime:'' candidate of
                        None \<Rightarrow> False | Some rest \<Rightarrow> rest \<noteq> [])))
            (Config (''policy '' @ policy @
              '' timestamp_format must be rfc3339, unix, or strptime:<format>'')))"

text \<open>A tilde must be followed by 0 or 1, and may not be the last byte.\<close>

definition validate_json_pointer :: "string \<Rightarrow> string \<Rightarrow> string \<Rightarrow> unit result" where
  "validate_json_pointer policy field pointer =
     fail_if (pointer = [] \<or> hd pointer \<noteq> CHR ''/'' \<or>
              list_ex (\<lambda>(a, b). a = CHR ''~'' \<and> b \<notin> {CHR ''0'', CHR ''1''})
                (zip pointer (tl pointer)) \<or>
              last pointer = CHR ''~'')
       (Config (''policy '' @ policy @ '' '' @ field @ '' must be a non-empty JSON pointer''))"

definition validate_regex_patterns ::
  "'re regex_lib \<Rightarrow> string \<Rightarrow> string list \<Rightarrow> string list \<Rightarrow> string \<Rightarrow> string option \<Rightarrow> unit result" where
  "validate_regex_patterns X policy patterns context_patterns address_capture timestamp_capture =
     rbind (check_all (\<lambda>pattern.
       rbind (compile_regex X (''policy '' @ policy) ''pattern'' pattern) (\<lambda>regex.
       rbind (fail_if (address_capture \<notin> set (rx_names X regex))
         (Config (''every policy '' @ policy @
           '' regex pattern must contain the named address capture '' @ address_capture))) (\<lambda>_.
       (case timestamp_capture of
          None \<Rightarrow> Inr ()
        | Some capture \<Rightarrow>
            fail_if (capture \<notin> set (rx_names X regex))
              (Config (''every policy '' @ policy @
                '' regex pattern must contain the named timestamp capture '' @ capture)))))) patterns)
     (\<lambda>_. check_all (\<lambda>pattern.
       rbind (compile_regex X (''policy '' @ policy) ''context pattern'' pattern) (\<lambda>regex.
       fail_if (address_capture \<notin> set (rx_names X regex))
         (Config (''every policy '' @ policy @
           '' context pattern must contain the named address capture '' @ address_capture))))
       context_patterns)"

fun validate_detector :: "'re regex_lib \<Rightarrow> string \<Rightarrow> detector \<Rightarrow> unit result" where
  "validate_detector X policy (Regex d) =
     rbind (fail_if (rd_patterns d = [] \<or> [] \<in> set (rd_patterns d))
       (Config (''policy '' @ policy @ '' regex detector requires non-empty patterns''))) (\<lambda>_.
     rbind (fail_if ([] \<in> set (rd_ignore_patterns d))
       (Config (''policy '' @ policy @ '' ignore patterns must not be empty''))) (\<lambda>_.
     rbind (fail_if ([] \<in> set (rd_context_patterns d) \<or>
                     ((rd_context_patterns d = []) \<noteq> (rd_max_context_lines d = 0)) \<or>
                     64 < rd_max_context_lines d \<or> rd_context_window_secs d = 0)
       (Config (''policy '' @ policy @
         '' context patterns require 1 to 64 context lines and a non-zero window''))) (\<lambda>_.
     rbind (validate_capture_name policy ''address_capture'' (rd_address_capture d)) (\<lambda>_.
     rbind (case rd_timestamp_capture d of None \<Rightarrow> Inr ()
            | Some capture \<Rightarrow> validate_capture_name policy ''timestamp_capture'' capture) (\<lambda>_.
     rbind (validate_regex_patterns X policy (rd_patterns d) (rd_context_patterns d)
              (rd_address_capture d) (rd_timestamp_capture d)) (\<lambda>_.
     rbind (check_all (\<lambda>pattern.
              rbind (compile_regex X (''policy '' @ policy) ''ignore pattern'' pattern)
                (\<lambda>_. Inr ())) (rd_ignore_patterns d)) (\<lambda>_.
     rbind (case rd_prefilter d of None \<Rightarrow> Inr ()
            | Some prefilter \<Rightarrow>
                rbind (compile_regex X (''policy '' @ policy) ''prefilter'' prefilter) (\<lambda>regex.
                fail_if (''content'' \<notin> set (rx_names X regex))
                  (Config (''policy '' @ policy @
                    '' prefilter must contain a named content capture'')))) (\<lambda>_.
     validate_timestamp_format policy (rd_timestamp_format d)))))))))"
| "validate_detector X policy (Json d) =
     rbind (validate_json_pointer policy ''address_pointer'' (jd_address_pointer d)) (\<lambda>_.
     rbind (case jd_timestamp_pointer d of None \<Rightarrow> Inr ()
            | Some pointer \<Rightarrow> validate_json_pointer policy ''timestamp_pointer'' pointer) (\<lambda>_.
     rbind (case jd_group_key_pointer d of None \<Rightarrow> Inr ()
            | Some pointer \<Rightarrow> validate_json_pointer policy ''group_key_pointer'' pointer) (\<lambda>_.
     rbind (check_all (validate_json_pointer policy ''equals key'') (map fst (jd_equals d))) (\<lambda>_.
     validate_timestamp_format policy (jd_timestamp_format d)))))"

text \<open>\<open>socket_port\<close> stands for \<open>str::parse::<SocketAddr>\<close> followed by \<open>port()\<close>.\<close>

fun validate_action ::
  "(string \<Rightarrow> u16 option) \<Rightarrow> string \<Rightarrow> action \<Rightarrow> listener list \<Rightarrow> unit result" where
  "validate_action socket_port policy (Drop protocol ports) listeners = validate_ports policy ports"
| "validate_action socket_port policy (Reject protocol ports) listeners = validate_ports policy ports"
| "validate_action socket_port policy (TarpitRedirect protocol ports listener) listeners =
     rbind (fail_if (protocol \<noteq> Tcp)
       (Config (''policy '' @ policy @ '' tarpit redirect must use TCP''))) (\<lambda>_.
     rbind (validate_ports policy ports) (\<lambda>_.
     rbind (ok_or (Config (''policy '' @ policy @ '' references unknown tarpit listener '' @ listener))
              (find (\<lambda>candidate. listener_name candidate = listener) listeners)) (\<lambda>target.
     rbind (ok_or (Config (''policy '' @ policy @ '' tarpit listener '' @ listener @
                '' has invalid address'')) (socket_port (listen_addr target))) (\<lambda>port.
     fail_if (port = 0)
       (Config (''policy '' @ policy @ '' tarpit listener '' @ listener @ '' uses port zero''))))))"
| "validate_action socket_port policy _ listeners = Inr ()"

definition validate_source ::
  "string set \<Rightarrow> string \<times> source \<Rightarrow> (string, string) btree \<Rightarrow> (string, string) btree result" where
  "validate_source listener_names entry listener_sources =
     (case entry of (name, src) \<Rightarrow>
        rbind (fail_if (name = []) (Config ''source names must not be empty'')) (\<lambda>_.
        case src of
          Journal match_groups _ max_entry_bytes \<Rightarrow>
            rbind (fail_if (max_entry_bytes = 0)
              (Config (''source '' @ name @ '' max_entry_bytes must be non-zero''))) (\<lambda>_.
            rbind (fail_if (list_ex (list_ex (\<lambda>(field, value). field = [] \<or> value = [])) match_groups)
              (Config (''source '' @ name @
                '' journal match fields and values must not be empty''))) (\<lambda>_.
            Inr listener_sources))
        | File path _ poll_interval_ms max_line_bytes \<Rightarrow>
            rbind (fail_if (path = [])
              (Config (''source '' @ name @ '' path must not be empty''))) (\<lambda>_.
            rbind (fail_if (poll_interval_ms = 0 \<or> max_line_bytes = 0)
              (Config (''source '' @ name @
                '' polling interval and line limit must be non-zero''))) (\<lambda>_.
            Inr listener_sources))
        | AddressSet path \<Rightarrow>
            rbind (fail_if (path = [])
              (Config (''source '' @ name @ '' path must not be empty''))) (\<lambda>_.
            Inr listener_sources)
        | ListenerSource listener \<Rightarrow>
            rbind (fail_if (listener \<notin> listener_names)
              (Config (''source '' @ name @ '' references unknown listener '' @ listener))) (\<lambda>_.
            rbind (fail_if (map_of listener_sources listener \<noteq> None)
              (Config (''listener '' @ listener @ '' has more than one source''))) (\<lambda>_.
            Inr (bt_insert listener name listener_sources)))
        | Web \<Rightarrow> Inr listener_sources))"

fun fold_result :: "('a \<Rightarrow> 's \<Rightarrow> 'e + 's) \<Rightarrow> 'a list \<Rightarrow> 's \<Rightarrow> 'e + 's" where
  "fold_result f [] s = Inr s"
| "fold_result f (x # xs) s = rbind (f x s) (fold_result f xs)"

definition validate_sources :: "config \<Rightarrow> (string, string) btree result" where
  "validate_sources config =
     fold_result (validate_source (listener_name ` set (cfg_listeners config)))
       (cfg_sources config) []"

definition validate_policy ::
  "'net ipnet \<Rightarrow> 're regex_lib \<Rightarrow> (string \<Rightarrow> u16 option) \<Rightarrow> config \<Rightarrow> string \<times> policy \<Rightarrow> unit result" where
  "validate_policy N X socket_port config entry =
     (case entry of (name, policy) \<Rightarrow>
        rbind (fail_if (name = []) (Config ''policy names must not be empty'')) (\<lambda>_.
        rbind (fail_if (map_of (cfg_sources config) (policy_source policy) = None)
          (Config (''policy '' @ name @ '' references unknown source '' @ policy_source policy))) (\<lambda>_.
        rbind (fail_if (policy_max_attempts policy = 0 \<or> policy_findtime_secs policy = 0)
          (Config (''policy '' @ name @ '' max_attempts and findtime_secs must be non-zero''))) (\<lambda>_.
        rbind (validate_ban_schedule name (policy_ban policy)) (\<lambda>_.
        rbind (validate_detector X name (policy_detector policy)) (\<lambda>_.
        rbind (validate_cidrs N (''policies.'' @ name @ ''.ignore_networks'')
                 (policy_ignore_networks policy)) (\<lambda>_.
        validate_action socket_port name (policy_action policy) (cfg_listeners config))))))))"

definition validate_listener_policy ::
  "config \<Rightarrow> (string, string) btree \<Rightarrow> listener \<Rightarrow> unit result" where
  "validate_listener_policy config listener_sources l =
     (case listener_policy l of
        None \<Rightarrow> Inr ()
      | Some policy_name \<Rightarrow>
          rbind (ok_or (Config (''listener '' @ listener_name l @ '' references unknown policy '' @
                   policy_name)) (map_of (cfg_policies config) policy_name)) (\<lambda>policy.
          rbind (ok_or (Config (''listener '' @ listener_name l @
                   '' has a policy but no listener source''))
                   (map_of listener_sources (listener_name l))) (\<lambda>expected_source.
          fail_if (policy_source policy \<noteq> expected_source)
            (Config (''listener '' @ listener_name l @ '' policy '' @ policy_name @ '' uses source '' @
              policy_source policy @ '', expected '' @ expected_source)))))"

definition validate_policies ::
  "'net ipnet \<Rightarrow> 're regex_lib \<Rightarrow> (string \<Rightarrow> u16 option) \<Rightarrow> config \<Rightarrow> (string, string) btree \<Rightarrow> unit result" where
  "validate_policies N X socket_port config listener_sources =
     rbind (check_all (validate_policy N X socket_port config) (cfg_policies config)) (\<lambda>_.
     check_all (validate_listener_policy config listener_sources) (cfg_listeners config))"

definition valid_table_name :: "string \<Rightarrow> bool" where
  "valid_table_name name \<longleftrightarrow> name \<noteq> [] \<and> list_all (\<lambda>c. is_alphanumeric c \<or> c = CHR ''_'') name"

definition validate_defense ::
  "'net ipnet \<Rightarrow> 're regex_lib \<Rightarrow> (string \<Rightarrow> u16 option) \<Rightarrow> config \<Rightarrow> unit result" where
  "validate_defense N X socket_port config =
     rbind (fail_if (\<not> valid_table_name (enforcement_table (cfg_enforcement config)))
       (Config ''enforcement.table must be a non-empty nftables identifier'')) (\<lambda>_.
     rbind (fail_if (reconcile_interval_secs (cfg_enforcement config) = 0)
       (Config ''enforcement.reconcile_interval_secs must be non-zero'')) (\<lambda>_.
     rbind (check_all (\<lambda>(name, path). fail_if (path = []) (Config (name @ '' must not be empty'')))
       [(''database_path'', cfg_database_path config),
        (''journalctl_path'', cfg_journalctl_path config),
        (''nft_path'', cfg_nft_path config)]) (\<lambda>_.
     rbind (validate_cidrs N ''protected_networks'' (cfg_protected_networks config)) (\<lambda>_.
     rbind (validate_cidrs N ''trusted_proxies'' (cfg_trusted_proxies config)) (\<lambda>_.
     rbind (validate_cidrs N ''whitelist_networks'' (cfg_whitelist_networks config)) (\<lambda>_.
     rbind (validate_cidrs N ''no_block_networks'' (cfg_no_block_networks config)) (\<lambda>_.
     rbind (check_all (\<lambda>pattern. rbind (compile_regex X ''trap_patterns'' ''pattern'' pattern)
              (\<lambda>_. Inr ())) (cfg_trap_patterns config)) (\<lambda>_.
     rbind (check_all (\<lambda>pattern. rbind (compile_regex X ''trap_user_agents'' ''pattern'' pattern)
              (\<lambda>_. Inr ())) (cfg_trap_user_agents config)) (\<lambda>_.
     rbind (check_all (\<lambda>crawler.
              rbind (fail_if (crawler_ua_pattern crawler = [])
                (Config (''verified_crawlers.'' @ crawler_name crawler @
                  '' ua_pattern must not be empty, it would match every agent''))) (\<lambda>_.
              rbind (compile_regex X (''verified_crawlers.'' @ crawler_name crawler) ''ua_pattern''
                (crawler_ua_pattern crawler)) (\<lambda>_.
              validate_cidrs N (''verified_crawlers.'' @ crawler_name crawler @ ''.networks'')
                (crawler_networks crawler)))) (cfg_verified_crawlers config)) (\<lambda>_.
     rbind (validate_sources config) (\<lambda>listener_sources.
     validate_policies N X socket_port config listener_sources)))))))))))"

text \<open>The listener loop of \<open>validate_config\<close>: names and addresses seen so far and the capacity
  used, the sum saturating as \<open>usize\<close>.\<close>

definition max_tarpit_secs_limit :: u64 where
  "max_tarpit_secs_limit = 24 * 60 * 60"

fun validate_listeners ::
  "config \<Rightarrow> string set \<Rightarrow> string set \<Rightarrow> usize \<Rightarrow> listener list \<Rightarrow> usize result" where
  "validate_listeners config names addrs endpoint_capacity [] = Inr endpoint_capacity"
| "validate_listeners config names addrs endpoint_capacity (l # ls) =
     (let cap = max_tarpit_conns l (cfg_max_tarpit_conns config) in
      rbind (fail_if (listener_name l = [] \<or> listener_name l \<in> names)
        (Config ''listener names must be non-empty and unique'')) (\<lambda>_.
      rbind (fail_if (listen_addr l \<in> addrs) (Config ''listener addresses must be unique'')) (\<lambda>_.
      rbind (fail_if (cap = 0 \<or> cfg_max_connections config < cap)
        (Config (''listener '' @ listener_name l @ '' has an invalid max_tarpit_conns''))) (\<lambda>_.
      rbind (fail_if
        (listener_line_length l = Some 0 \<or>
         (case listener_max_tarpit_secs l of None \<Rightarrow> False
          | Some n \<Rightarrow> \<not> (1 \<le> n \<and> n \<le> max_tarpit_secs_limit)) \<or>
         (case listener_max_delay_ms l of None \<Rightarrow> cfg_max_delay_ms config | Some n \<Rightarrow> n) <
         (case listener_min_delay_ms l of None \<Rightarrow> cfg_min_delay_ms config | Some n \<Rightarrow> n))
        (Config (''invalid SSH listener '' @ listener_name l))) (\<lambda>_.
      validate_listeners config (insert (listener_name l) names) (insert (listen_addr l) addrs)
        (sat_add64 endpoint_capacity cap) ls)))))"

definition validate_config ::
  "'net ipnet \<Rightarrow> 're regex_lib \<Rightarrow> (string \<Rightarrow> u16 option) \<Rightarrow> config \<Rightarrow> unit result" where
  "validate_config N X socket_port config =
     rbind (validate_dribble ''defense: tarpit'' (cfg_min_delay_ms config) (cfg_max_delay_ms config)
              (cfg_tarpit_chunk_min_bytes config) (cfg_tarpit_chunk_max_bytes config)) (\<lambda>_.
     rbind (fail_if (\<not> (1 \<le> cfg_max_tarpit_secs config \<and>
                      cfg_max_tarpit_secs config \<le> max_tarpit_secs_limit))
       (Config ''max_tarpit_secs must be between 1 second and 24 hours'')) (\<lambda>_.
     rbind (fail_if (cfg_history_retention_secs config = 0)
       (Config ''history_retention_secs must be non-zero'')) (\<lambda>_.
     rbind (check_all (\<lambda>(name, value). fail_if (value = 0) (Config (name @ '' must be non-zero'')))
       [(''max_tarpit_conns'', cfg_max_tarpit_conns config),
        (''max_tarpit_conns_per_ip'', cfg_max_tarpit_conns_per_ip config),
        (''max_connections'', cfg_max_connections config)]) (\<lambda>_.
     rbind (fail_if (cfg_tarpit_write_timeout_secs config = 0)
       (Config ''tarpit_write_timeout_secs must be non-zero'')) (\<lambda>_.
     rbind (fail_if (cfg_proxy_protocol config \<and> cfg_trusted_proxies config = [])
       (Config ''proxy_protocol requires at least one trusted_proxies entry'')) (\<lambda>_.
     rbind (validate_listeners config {} {} 0 (cfg_listeners config)) (\<lambda>endpoint_capacity.
     rbind (fail_if (cfg_max_connections config < endpoint_capacity)
       (Config ''sum of listener max_tarpit_conns exceeds max_connections'')) (\<lambda>_.
     validate_defense N X socket_port config))))))))"

section \<open>What a validated configuration guarantees\<close>

lemma validate_listeners_Cons:
  assumes "validate_listeners config names addrs cap (l # ls) = Inr used"
  shows "listener_name l \<notin> names" "listen_addr l \<notin> addrs"
    "validate_listeners config (insert (listener_name l) names) (insert (listen_addr l) addrs)
       (sat_add64 cap (max_tarpit_conns l (cfg_max_tarpit_conns config))) ls = Inr used"
  using assms by (auto simp: result_simps Let_def)

lemma validate_listeners_names:
  "validate_listeners config names addrs cap ls = Inr used \<Longrightarrow>
     distinct (map listener_name ls) \<and> distinct (map listen_addr ls) \<and>
     names \<inter> listener_name ` set ls = {} \<and> addrs \<inter> listen_addr ` set ls = {}"
proof (induction ls arbitrary: names addrs cap)
  case Nil
  then show ?case by simp
next
  case (Cons l ls)
  from Cons.IH [OF validate_listeners_Cons(3) [OF Cons.prems]]
    validate_listeners_Cons(1,2) [OF Cons.prems]
  show ?case by auto
qed

lemma validate_listeners_capacity:
  "validate_listeners config names addrs cap ls = Inr used \<Longrightarrow> cap \<le> u64_max \<Longrightarrow>
     used = min u64_max (cap + (\<Sum>l \<leftarrow> ls. max_tarpit_conns l (cfg_max_tarpit_conns config)))"
proof (induction ls arbitrary: names addrs cap)
  case Nil
  then show ?case by simp
next
  case (Cons l ls)
  from Cons.IH [OF validate_listeners_Cons(3) [OF Cons.prems(1)] sat_add64_le]
  show ?case by (auto simp: sat_add64_def min_def)
qed

lemma validate_config_listeners:
  assumes "validate_config N X socket_port config = Inr u"
  obtains used where "validate_listeners config {} {} 0 (cfg_listeners config) = Inr used"
    "used \<le> cfg_max_connections config"
  using assms by (auto simp: validate_config_def result_simps)

lemma validate_config_policy:
  assumes "validate_config N X socket_port config = Inr u" "(name, policy) \<in> set (cfg_policies config)"
  shows "validate_policy N X socket_port config (name, policy) = Inr ()"
  using assms by (auto simp: validate_config_def validate_defense_def validate_policies_def result_simps)

text \<open>Admission at every endpoint together never exceeds the global connection cap: the
  capacities a validated configuration grants its listeners sum to at most
  \<open>max_connections\<close>. The sum in the code saturates, so the cap must be below the type's
  maximum for the check to mean this.\<close>

lemma validated_listener_capacity:
  assumes "validate_config N X socket_port config = Inr u" "cfg_max_connections config < u64_max"
  shows "(\<Sum>l \<leftarrow> cfg_listeners config. max_tarpit_conns l (cfg_max_tarpit_conns config))
    \<le> cfg_max_connections config"
proof -
  obtain used where total: "validate_listeners config {} {} 0 (cfg_listeners config) = Inr used"
    "used \<le> cfg_max_connections config"
    using assms(1) by (rule validate_config_listeners)
  show ?thesis
    using validate_listeners_capacity [OF total(1)] total(2) assms(2) by (auto simp: min_def split: if_splits)
qed

lemma validated_policy_facts:
  assumes "validate_policy N X socket_port config (name, policy) = Inr ()"
  shows "0 < policy_max_attempts policy" "0 < policy_findtime_secs policy"
    "0 < factor (policy_ban policy)" "0 \<notin> set (multipliers (policy_ban policy))"
    "0 < max_duration_secs (policy_ban policy)" "duration_secs (policy_ban policy) \<noteq> Some 0"
    "validate_action socket_port name (policy_action policy) (cfg_listeners config) = Inr ()"
    "validate_detector X name (policy_detector policy) = Inr ()"
  using assms by (auto simp: validate_policy_def validate_ban_schedule_def result_simps)

end
