(* ===== verification/Store_Model.thy ===== *)
theory Store_Model
  imports Config_Model
begin

text \<open>
  bagel-runtime/src/store.rs: the SQLite store of source checkpoints, events, offenses and
  leases. A table is the list of its rows in rowid order and each SQL statement of the source
  is the list operation it denotes; a constraint violation is the error the statement raises.
  A transaction that is not committed leaves the tables as they were, which is what dropping an
  uncommitted \<open>rusqlite::Transaction\<close> does; the argument \<open>commit\<close> says whether the database
  accepts the commit. The textual encodings (networks, and JSON for actions and checkpoints)
  are arguments with the round trip as hypothesis. The jitter of a ban is an argument too, one
  draw per new lease.
\<close>

section \<open>Rows\<close>

datatype checkpoint =
    JournalCheckpoint string u64
  | FileCheckpoint u64 u64 u64 u64 "byte list"
  | AddressSetCheckpoint u64 u64 u64 u64 u64
  | ListenerCheckpoint u64

record event_row =
  ev_source :: string
  ev_id :: string
  ev_observed_at :: i64

record offense_row =
  of_source :: string
  of_event_id :: string
  of_policy :: string
  of_network :: string
  of_observed_at :: i64
  of_attempt_key :: "string option"
  of_consumed :: bool

record lease_row =
  lr_id :: i64
  lr_network :: string
  lr_policy :: string
  lr_action :: string
  lr_created_at :: i64
  lr_expires_at :: "i64 option"
  lr_escalation_count :: i64
  lr_manual :: bool
  lr_revoked_at :: "i64 option"
  lr_expired_at :: "i64 option"
  lr_apply_state :: string
  lr_apply_error :: "string option"

record checkpoint_row =
  cp_source :: string
  cp_event_id :: string
  cp_data :: string
  cp_updated_at :: i64

record db =
  user_version :: int
  checkpoints :: "checkpoint_row list"
  events :: "event_row list"
  offenses :: "offense_row list"
  leases :: "lease_row list"

section \<open>Inputs, outcomes and encodings\<close>

record 'net lease =
  lease_id :: i64
  lease_network :: 'net
  lease_policy :: string
  lease_action :: action
  lease_created_at :: u64
  lease_expires_at :: "u64 option"
  lease_escalation_count :: u64
  lease_manual :: bool
  lease_apply_state :: string
  lease_last_error :: "string option"

record 'net offense_input =
  oi_policy :: string
  oi_network :: 'net
  oi_max_attempts :: u32
  oi_findtime_secs :: u64
  oi_history_retention_secs :: u64
  oi_ban :: ban_schedule
  oi_action :: action
  oi_observed_at :: "u64 option"
  oi_attempt_key :: "string option"
  oi_group_key :: "string option"

record 'net event_input =
  ei_source :: string
  ei_event_id :: string
  ei_checkpoint :: checkpoint
  ei_observed_at :: u64
  ei_offenses :: "'net offense_input list"

record 'net event_outcome =
  duplicate :: bool
  outcome_leases :: "'net lease list"

datatype apply_outcome = Applied | Observed | Failed string

record 'net store_env =
  se_net :: "'net ipnet"
  action_json :: "action \<Rightarrow> string"
  action_of_json :: "string \<Rightarrow> action option"
  checkpoint_json :: "checkpoint \<Rightarrow> string"
  checkpoint_of_json :: "string \<Rightarrow> checkpoint option"

text \<open>What the code relies on: each encoding parses back to what was encoded.\<close>

definition codec_ok :: "'net store_env \<Rightarrow> bool" where
  "codec_ok E \<longleftrightarrow> net_text (se_net E) \<and>
     (\<forall>a. action_of_json E (action_json E a) = Some a) \<and>
     (\<forall>c. checkpoint_of_json E (checkpoint_json E c) = Some c)"

definition MANUAL_POLICY :: string where "MANUAL_POLICY = ''__manual__''"

definition SCHEMA_VERSION :: int where "SCHEMA_VERSION = 2"

definition sql_time :: "u64 \<Rightarrow> i64 result" where
  "sql_time value =
     (if value \<le> i64_max then Inr (int value)
      else Inl (Config (''timestamp '' @ show_nat value @ '' exceeds SQLite range'')))"

definition rust_time :: "i64 \<Rightarrow> u64 result" where
  "rust_time value =
     (if 0 \<le> value then Inr (nat value)
      else Inl (Config (''negative timestamp in defense database: '' @ show_int value)))"

definition json_error :: error where
  "json_error = Config ''invalid defense database JSON''"

definition db_error :: error where
  "db_error = Io ''sqlite''"

section \<open>Transactions and opening\<close>

definition transaction :: "bool \<Rightarrow> (db \<Rightarrow> ('a \<times> db) result) \<Rightarrow> db \<Rightarrow> 'a result \<times> db" where
  "transaction commit body d =
     (case body d of
        Inl e \<Rightarrow> (Inl e, d)
      | Inr (x, d') \<Rightarrow> if commit then (Inr x, d') else (Inl db_error, d))"

definition create_schema :: db where
  "create_schema =
     \<lparr> user_version = SCHEMA_VERSION, checkpoints = [], events = [], offenses = [], leases = [] \<rparr>"

definition store_open :: "db \<Rightarrow> db result" where
  "store_open d =
     (if user_version d = 0 then Inr create_schema
      else if user_version d = SCHEMA_VERSION then Inr d
      else Inl (Config (''unsupported defense database schema version '' @ show_int (user_version d) @
                        ''; expected '' @ show_int SCHEMA_VERSION)))"

section \<open>Reading sequences and checkpoints\<close>

definition to_lower :: "char \<Rightarrow> char" where
  "to_lower c = (if is_upper c then char_of ((of_char c :: nat) + 32) else c)"

text \<open>SQL's LIKE: a percent sign matches any text, an underscore any character, and letters
  match without regard to ASCII case.\<close>

fun sql_like :: "string \<Rightarrow> string \<Rightarrow> bool" where
  "sql_like [] s \<longleftrightarrow> s = []"
| "sql_like (p # ps) [] \<longleftrightarrow> p = CHR ''%'' \<and> sql_like ps []"
| "sql_like (p # ps) (c # cs) \<longleftrightarrow>
     (if p = CHR ''%'' then sql_like ps (c # cs) \<or> sql_like (p # ps) cs
      else (p = CHR ''_'' \<or> to_lower p = to_lower c) \<and> sql_like ps cs)"

definition listener_prefix :: "string \<Rightarrow> string" where
  "listener_prefix source = ''listener:'' @ source @ '':''"

definition listener_event_id :: "string \<Rightarrow> u64 \<Rightarrow> string" where
  "listener_event_id source sequence = listener_prefix source @ show_nat sequence"

definition id_sequence :: "string \<Rightarrow> string \<Rightarrow> u64 option" where
  "id_sequence source event_id =
     Option.bind (strip_prefix (listener_prefix source) event_id) (parse_unsigned u64_max)"

definition last_listener_sequence :: "string \<Rightarrow> db \<Rightarrow> u64" where
  "last_listener_sequence source d =
     fold (\<lambda>row newest. case id_sequence source (ev_id row) of None \<Rightarrow> newest | Some n \<Rightarrow> max newest n)
       (filter (\<lambda>row. ev_source row = source \<and> sql_like (listener_prefix source @ ''%'') (ev_id row))
          (events d)) 0"

definition store_checkpoint :: "'net store_env \<Rightarrow> string \<Rightarrow> db \<Rightarrow> checkpoint option result" where
  "store_checkpoint E source d =
     transpose_option (map_option (\<lambda>row. ok_or json_error (checkpoint_of_json E (cp_data row)))
       (find (\<lambda>row. cp_source row = source) (checkpoints d)))"

section \<open>Statements\<close>

definition upsert_checkpoint ::
  "'net store_env \<Rightarrow> string \<Rightarrow> string \<Rightarrow> checkpoint \<Rightarrow> u64 \<Rightarrow> db \<Rightarrow> db result" where
  "upsert_checkpoint E source event_id cp observed_at d =
     rbind (sql_time observed_at) (\<lambda>updated_at.
       let row = \<lparr> cp_source = source, cp_event_id = event_id, cp_data = checkpoint_json E cp,
                   cp_updated_at = updated_at \<rparr>
       in Inr (d\<lparr> checkpoints :=
            (if source \<in> cp_source ` set (checkpoints d)
             then map (\<lambda>r. if cp_source r = source then row else r) (checkpoints d)
             else checkpoints d @ [row]) \<rparr>))"

definition lease_live :: "i64 \<Rightarrow> lease_row \<Rightarrow> bool" where
  "lease_live now r \<longleftrightarrow>
     lr_revoked_at r = None \<and> lr_expired_at r = None \<and>
     (case lr_expires_at r of None \<Rightarrow> True | Some e \<Rightarrow> now < e)"

definition has_active_lease :: "'net store_env \<Rightarrow> string \<Rightarrow> 'net \<Rightarrow> u64 \<Rightarrow> db \<Rightarrow> bool result" where
  "has_active_lease E policy network now d =
     rbind (sql_time now) (\<lambda>now'.
       Inr (list_ex (\<lambda>r. lr_policy r = policy \<and> lr_network r = net_show (se_net E) network \<and>
                         lease_live now' r) (leases d)))"

definition escalation_count ::
  "'net store_env \<Rightarrow> string \<Rightarrow> 'net \<Rightarrow> bool \<Rightarrow> u64 \<Rightarrow> db \<Rightarrow> u64 result" where
  "escalation_count E policy network overall_bans history_start d =
     rbind (sql_time history_start) (\<lambda>start.
       rust_time (int (length (filter (\<lambda>r.
           lr_network r = net_show (se_net E) network \<and> (overall_bans \<or> lr_policy r = policy) \<and>
           \<not> lr_manual r \<and> start \<le> lr_created_at r) (leases d)))))"

definition ban_duration :: "ban_schedule \<Rightarrow> u64 \<Rightarrow> u64 \<Rightarrow> u64 option" where
  "ban_duration schedule count draw =
     (case duration_secs schedule of
        None \<Rightarrow> None
      | Some base \<Rightarrow>
          (let duration =
             (if multipliers schedule = []
              then sat_mul64 (sat_mul64 base (factor schedule)) (sat_pow2 (min count u32_max))
              else sat_mul64 (sat_mul64 base (factor schedule))
                     (multipliers schedule ! min count (length (multipliers schedule) - 1)));
             jitter = (if jitter_secs schedule = 0 then 0 else draw mod (jitter_secs schedule + 1))
           in Some (min (sat_add64 duration jitter) (max_duration_secs schedule))))"

record 'net new_lease =
  nl_network :: 'net
  nl_policy :: string
  nl_action :: action
  nl_created_at :: u64
  nl_expires_at :: "u64 option"
  nl_escalation_count :: u64
  nl_manual :: bool

definition next_rowid :: "lease_row list \<Rightarrow> i64" where
  "next_rowid rows = fold max (map lr_id rows) 0 + 1"

definition lease_record ::
  "'net store_env \<Rightarrow> 'net new_lease \<Rightarrow> i64 \<Rightarrow> i64 \<Rightarrow> i64 option \<Rightarrow> i64 \<Rightarrow> lease_row" where
  "lease_record E nl row_id created_at expires_at count =
     \<lparr> lr_id = row_id, lr_network = net_show (se_net E) (nl_network nl),
       lr_policy = nl_policy nl, lr_action = action_json E (nl_action nl),
       lr_created_at = created_at, lr_expires_at = expires_at,
       lr_escalation_count = count, lr_manual = nl_manual nl,
       lr_revoked_at = None, lr_expired_at = None,
       lr_apply_state = ''pending'', lr_apply_error = None \<rparr>"

definition insert_lease :: "'net store_env \<Rightarrow> 'net new_lease \<Rightarrow> db \<Rightarrow> (i64 \<times> db) result" where
  "insert_lease E nl d =
     rbind (sql_time (nl_created_at nl)) (\<lambda>created_at.
     rbind (transpose_option (map_option sql_time (nl_expires_at nl))) (\<lambda>expires_at.
     rbind (sql_time (nl_escalation_count nl)) (\<lambda>count.
       let row_id = next_rowid (leases d)
       in Inr (row_id, d\<lparr> leases := leases d @ [lease_record E nl row_id created_at expires_at count] \<rparr>))))"

definition insert_offense :: "offense_row \<Rightarrow> db \<Rightarrow> db result" where
  "insert_offense row d =
     (if list_ex (\<lambda>r. of_source r = of_source row \<and> of_event_id r = of_event_id row \<and>
                      of_policy r = of_policy row) (offenses d)
      then Inl db_error
      else Inr (d\<lparr> offenses := offenses d @ [row] \<rparr>))"

text \<open>The predicate the three statements over the offense window share.\<close>

definition in_window ::
  "string \<Rightarrow> string \<Rightarrow> i64 \<Rightarrow> i64 \<Rightarrow> string option \<Rightarrow> offense_row \<Rightarrow> bool" where
  "in_window policy network window_start window_end group_key r \<longleftrightarrow>
     of_policy r = policy \<and> of_network r = network \<and> \<not> of_consumed r \<and>
     window_start \<le> of_observed_at r \<and> of_observed_at r \<le> window_end \<and>
     (group_key = None \<or> of_attempt_key r = group_key)"

definition count_grouped_attempts :: "offense_row list \<Rightarrow> nat" where
  "count_grouped_attempts rows = length rows"

definition count_distinct_attempts :: "offense_row list \<Rightarrow> nat" where
  "count_distinct_attempts rows =
     length (remdups (List.map_filter of_attempt_key rows)) + length rows -
     length (List.map_filter of_attempt_key rows)"

definition consume :: "(offense_row \<Rightarrow> bool) \<Rightarrow> db \<Rightarrow> db" where
  "consume P d = d\<lparr> offenses := map (\<lambda>r. if P r then r\<lparr> of_consumed := True \<rparr> else r) (offenses d) \<rparr>"

section \<open>Applying events\<close>

definition window_attempts :: "'net store_env \<Rightarrow> 'net offense_input \<Rightarrow> i64 \<Rightarrow> i64 \<Rightarrow> db \<Rightarrow> nat" where
  "window_attempts E off window_start window_end d =
     (let rows = filter (in_window (oi_policy off) (net_show (se_net E) (oi_network off))
                           window_start window_end (oi_group_key off)) (offenses d)
      in if oi_group_key off \<noteq> None then count_grouped_attempts rows
         else count_distinct_attempts rows)"

definition offense_time :: "'net event_input \<Rightarrow> 'net offense_input \<Rightarrow> u64" where
  "offense_time inp off = (case oi_observed_at off of None \<Rightarrow> ei_observed_at inp | Some t \<Rightarrow> t)"

definition offense_record :: "'net store_env \<Rightarrow> 'net event_input \<Rightarrow> 'net offense_input \<Rightarrow> i64 \<Rightarrow> offense_row" where
  "offense_record E inp off at =
     \<lparr> of_source = ei_source inp, of_event_id = ei_event_id inp, of_policy = oi_policy off,
       of_network = net_show (se_net E) (oi_network off), of_observed_at = at,
       of_attempt_key = (case oi_group_key off of None \<Rightarrow> oi_attempt_key off | Some k \<Rightarrow> Some k),
       of_consumed = False \<rparr>"

text \<open>The threshold is reached: escalate, insert the lease and consume the window.\<close>

definition ban_expiry :: "'net offense_input \<Rightarrow> u64 \<Rightarrow> u64 \<Rightarrow> u64 \<Rightarrow> u64 option" where
  "ban_expiry off observed_at count draw =
     map_option (\<lambda>duration. min (sat_add64 observed_at duration) i64_max)
       (ban_duration (oi_ban off) count draw)"

definition ban_row :: "'net offense_input \<Rightarrow> u64 \<Rightarrow> u64 \<Rightarrow> u64 option \<Rightarrow> 'net new_lease" where
  "ban_row off observed_at count expires_at =
     \<lparr> nl_network = oi_network off, nl_policy = oi_policy off, nl_action = oi_action off,
       nl_created_at = observed_at, nl_expires_at = expires_at,
       nl_escalation_count = count, nl_manual = False \<rparr>"

definition new_lease :: "'net new_lease \<Rightarrow> i64 \<Rightarrow> 'net lease" where
  "new_lease nl row_id =
     \<lparr> lease_id = row_id, lease_network = nl_network nl, lease_policy = nl_policy nl,
       lease_action = nl_action nl, lease_created_at = nl_created_at nl,
       lease_expires_at = nl_expires_at nl, lease_escalation_count = nl_escalation_count nl,
       lease_manual = nl_manual nl, lease_apply_state = ''pending'', lease_last_error = None \<rparr>"

definition grant_lease ::
  "'net store_env \<Rightarrow> (i64 \<Rightarrow> u64) \<Rightarrow> 'net offense_input \<Rightarrow> u64 \<Rightarrow> i64 \<Rightarrow> i64 \<Rightarrow> db \<Rightarrow> ('net lease \<times> db) result" where
  "grant_lease E draw off observed_at window_start at d =
     rbind (escalation_count E (oi_policy off) (oi_network off) (overall (oi_ban off))
              (observed_at - oi_history_retention_secs off) d) (\<lambda>count.
     let nl = ban_row off observed_at count (ban_expiry off observed_at count (draw (next_rowid (leases d))))
     in rbind (insert_lease E nl d) (\<lambda>(row_id, d').
        Inr (new_lease nl row_id,
             consume (in_window (oi_policy off) (net_show (se_net E) (oi_network off)) window_start at
                        (oi_group_key off)) d')))"

definition apply_offense ::
  "'net store_env \<Rightarrow> (i64 \<Rightarrow> u64) \<Rightarrow> 'net event_input \<Rightarrow> 'net offense_input \<Rightarrow> db \<Rightarrow>
     ('net lease option \<times> db) result" where
  "apply_offense E draw inp off d =
     (let observed_at = offense_time inp off in
      rbind (sql_time observed_at) (\<lambda>at.
      rbind (insert_offense (offense_record E inp off at) d) (\<lambda>d1.
      rbind (has_active_lease E (oi_policy off) (oi_network off) observed_at d1) (\<lambda>active.
      if active
      then Inr (None, consume (\<lambda>r. of_source r = ei_source inp \<and> of_event_id r = ei_event_id inp \<and>
                                   of_policy r = oi_policy off) d1)
      else rbind (sql_time (observed_at - oi_findtime_secs off)) (\<lambda>window_start.
        if window_attempts E off window_start at d1 < oi_max_attempts off then Inr (None, d1)
        else rbind (grant_lease E draw off observed_at window_start at d1)
               (\<lambda>(l, d2). Inr (Some l, d2)))))))"

definition insert_event :: "'net event_input \<Rightarrow> i64 \<Rightarrow> db \<Rightarrow> db" where
  "insert_event inp observed_at d =
     d\<lparr> events := events d @
        [\<lparr> ev_source = ei_source inp, ev_id = ei_event_id inp, ev_observed_at = observed_at \<rparr>] \<rparr>"

definition event_known :: "'net event_input \<Rightarrow> db \<Rightarrow> bool" where
  "event_known inp d \<longleftrightarrow>
     list_ex (\<lambda>r. ev_source r = ei_source inp \<and> ev_id r = ei_event_id inp) (events d)"

definition apply_event ::
  "'net store_env \<Rightarrow> (i64 \<Rightarrow> u64) \<Rightarrow> 'net event_input \<Rightarrow> db \<Rightarrow> ('net event_outcome \<times> db) result" where
  "apply_event E draw inp d =
     rbind (sql_time (ei_observed_at inp)) (\<lambda>observed_at.
     if event_known inp d then Inr (\<lparr> duplicate = True, outcome_leases = [] \<rparr>, d)
     else rbind (run_batch (apply_offense E draw inp) (ei_offenses inp) (insert_event inp observed_at d))
       (\<lambda>(granted, d1).
        rbind (upsert_checkpoint E (ei_source inp) (ei_event_id inp) (ei_checkpoint inp)
                 (ei_observed_at inp) d1) (\<lambda>d2.
        Inr (\<lparr> duplicate = False, outcome_leases = List.map_filter (\<lambda>x. x) granted \<rparr>, d2))))"

definition process_input ::
  "'net store_env \<Rightarrow> (i64 \<Rightarrow> u64) \<Rightarrow> 'net event_input \<Rightarrow> db \<Rightarrow> ('net event_outcome \<times> db) result" where
  "process_input E draw inp d =
     (if ei_offenses inp = []
      then rbind (upsert_checkpoint E (ei_source inp) (ei_event_id inp) (ei_checkpoint inp)
                    (ei_observed_at inp) d) (\<lambda>d'.
             Inr (\<lparr> duplicate = False, outcome_leases = [] \<rparr>, d'))
      else apply_event E draw inp d)"

definition process_event ::
  "'net store_env \<Rightarrow> (i64 \<Rightarrow> u64) \<Rightarrow> bool \<Rightarrow> 'net event_input \<Rightarrow> db \<Rightarrow> 'net event_outcome result \<times> db" where
  "process_event E draw commit inp = transaction commit (apply_event E draw inp)"

definition process_events ::
  "'net store_env \<Rightarrow> (i64 \<Rightarrow> u64) \<Rightarrow> bool \<Rightarrow> 'net event_input list \<Rightarrow> db \<Rightarrow>
     'net event_outcome list result \<times> db" where
  "process_events E draw commit inputs = transaction commit (run_batch (process_input E draw) inputs)"

section \<open>Lease maintenance\<close>

definition decode_lease :: "'net store_env \<Rightarrow> lease_row \<Rightarrow> 'net lease result" where
  "decode_lease E r =
     rbind (ok_or (Network (lr_network r)) (net_parse (se_net E) (lr_network r))) (\<lambda>network.
     rbind (ok_or json_error (action_of_json E (lr_action r))) (\<lambda>act.
     rbind (rust_time (lr_created_at r)) (\<lambda>created_at.
     rbind (transpose_option (map_option rust_time (lr_expires_at r))) (\<lambda>expires_at.
     rbind (rust_time (lr_escalation_count r)) (\<lambda>count.
     Inr \<lparr> lease_id = lr_id r, lease_network = network, lease_policy = lr_policy r,
           lease_action = act, lease_created_at = created_at, lease_expires_at = expires_at,
           lease_escalation_count = count, lease_manual = lr_manual r,
           lease_apply_state = lr_apply_state r, lease_last_error = lr_apply_error r \<rparr>)))))"

definition active_leases :: "'net store_env \<Rightarrow> u64 \<Rightarrow> db \<Rightarrow> 'net lease list result" where
  "active_leases E now d =
     rbind (sql_time now) (\<lambda>now'. collect_results (decode_lease E) (filter (lease_live now') (leases d)))"

definition lapsed :: "i64 \<Rightarrow> lease_row \<Rightarrow> bool" where
  "lapsed now r \<longleftrightarrow> lr_revoked_at r = None \<and> lr_expired_at r = None \<and>
     (case lr_expires_at r of None \<Rightarrow> False | Some e \<Rightarrow> e \<le> now)"

definition update_leases :: "(lease_row \<Rightarrow> bool) \<Rightarrow> (lease_row \<Rightarrow> lease_row) \<Rightarrow> db \<Rightarrow> nat \<times> db" where
  "update_leases P f d =
     (length (filter P (leases d)), d\<lparr> leases := map (\<lambda>r. if P r then f r else r) (leases d) \<rparr>)"

definition expire :: "u64 \<Rightarrow> db \<Rightarrow> (nat \<times> db) result" where
  "expire now d =
     rbind (sql_time now) (\<lambda>t. Inr (update_leases (lapsed t) (\<lambda>r. r\<lparr> lr_expired_at := Some t \<rparr>) d))"

definition prune_offenses :: "bool \<Rightarrow> u64 \<Rightarrow> db \<Rightarrow> nat result \<times> db" where
  "prune_offenses commit before =
     transaction commit (\<lambda>d.
       rbind (sql_time before) (\<lambda>t.
         let kept = filter (\<lambda>r. \<not> of_observed_at r < t) (offenses d) in
         Inr (length (offenses d) - length kept,
              d\<lparr> offenses := kept,
                 events := filter (\<lambda>e. list_ex (\<lambda>r. of_source r = ev_source e \<and> of_event_id r = ev_id e) kept)
                   (events d) \<rparr>)))"

definition prune_leases :: "u64 \<Rightarrow> u64 \<Rightarrow> db \<Rightarrow> (nat \<times> db) result" where
  "prune_leases before now d =
     rbind (sql_time before) (\<lambda>b. rbind (sql_time now) (\<lambda>t.
       let gone = (\<lambda>r. lr_created_at r < b \<and>
                      (lr_revoked_at r \<noteq> None \<or> lr_expired_at r \<noteq> None \<or>
                       (case lr_expires_at r of None \<Rightarrow> False | Some e \<Rightarrow> e \<le> t)))
       in Inr (length (filter gone (leases d)), d\<lparr> leases := filter (\<lambda>r. \<not> gone r) (leases d) \<rparr>)))"

definition begin_reconcile :: "u64 \<Rightarrow> db \<Rightarrow> (nat \<times> db) result" where
  "begin_reconcile now d =
     rbind (sql_time now) (\<lambda>t.
       Inr (update_leases (lease_live t)
         (\<lambda>r. r\<lparr> lr_apply_state := ''pending'', lr_apply_error := None \<rparr>) d))"

definition manual_block ::
  "'net store_env \<Rightarrow> bool \<Rightarrow> 'net \<Rightarrow> action \<Rightarrow> u64 \<Rightarrow> u64 option \<Rightarrow> db \<Rightarrow> 'net lease result \<times> db" where
  "manual_block E commit network act now duration =
     transaction commit (\<lambda>d.
       rbind (sql_time now) (\<lambda>t.
       let d1 = snd (update_leases
             (\<lambda>r. lr_manual r \<and> lr_network r = net_show (se_net E) network \<and>
                  lr_revoked_at r = None \<and> lr_expired_at r = None)
             (\<lambda>r. r\<lparr> lr_revoked_at := Some t \<rparr>) d);
           nl = \<lparr> nl_network = network, nl_policy = MANUAL_POLICY, nl_action = act, nl_created_at = now,
                  nl_expires_at = map_option (sat_add64 now) duration, nl_escalation_count = 0,
                  nl_manual = True \<rparr>
       in rbind (insert_lease E nl d1) (\<lambda>(row_id, d2). Inr (new_lease nl row_id, d2))))"

definition manual_unblock :: "'net store_env \<Rightarrow> 'net \<Rightarrow> u64 \<Rightarrow> db \<Rightarrow> (nat \<times> db) result" where
  "manual_unblock E network now d =
     rbind (sql_time now) (\<lambda>t.
       Inr (update_leases (\<lambda>r. lr_network r = net_show (se_net E) network \<and> lease_live t r)
         (\<lambda>r. r\<lparr> lr_revoked_at := Some t \<rparr>) d))"

fun outcome_columns :: "apply_outcome \<Rightarrow> string \<times> string option" where
  "outcome_columns Applied = (''applied'', None)"
| "outcome_columns Observed = (''observed'', None)"
| "outcome_columns (Failed e) = (''failed'', Some e)"

definition mark_apply_result :: "i64 \<times> apply_outcome \<Rightarrow> db \<Rightarrow> (unit \<times> db) result" where
  "mark_apply_result entry d =
     (case entry of (row_id, outcome) \<Rightarrow>
        (let (changed, d') = update_leases (\<lambda>r. lr_id r = row_id)
               (\<lambda>r. r\<lparr> lr_apply_state := fst (outcome_columns outcome),
                       lr_apply_error := snd (outcome_columns outcome) \<rparr>) d
         in if changed = 0 then Inl (Config (''unknown defense lease '' @ show_int row_id)) else Inr ((), d')))"

definition mark_apply_results ::
  "bool \<Rightarrow> (i64 \<times> apply_outcome) list \<Rightarrow> db \<Rightarrow> unit list result \<times> db" where
  "mark_apply_results commit outcomes = transaction commit (run_batch mark_apply_result outcomes)"

end
