(* ===== verification/Detector_Model.thy ===== *)
theory Detector_Model
  imports Config_Model
begin

text \<open>
  bagel-runtime/src/detector.rs: matching one source record. The \<open>regex\<close>, \<open>serde_json\<close> and
  \<open>jiff\<close> crates are arguments. The context cache of a regex detector, which the source keeps
  behind a mutex, is part of the compiled detector and is returned updated. The lemmas bound
  that cache, show that every timestamp a detector reports can be stored, and that a validated
  configuration compiles.
\<close>

section \<open>Libraries\<close>

datatype json_kind = KNull | KBool bool | KNumber "int option" "nat option" | KString string | KArray | KObject

text \<open>\<open>js_float_eq v s\<close> says that \<open>v.as_f64()\<close> is the number \<open>s.parse::<f64>()\<close> yields.\<close>

record 'j json_lib =
  js_parse :: "string \<Rightarrow> 'j option"
  js_pointer :: "'j \<Rightarrow> string \<Rightarrow> 'j option"
  js_kind :: "'j \<Rightarrow> json_kind"
  js_float_eq :: "'j \<Rightarrow> string \<Rightarrow> bool"

text \<open>Seconds of an RFC 3339 timestamp, of a text under a \<open>strptime\<close> format (with the fall back
  to the system time zone), and whether a format is accepted.\<close>

record time_lib =
  rfc3339_second :: "string \<Rightarrow> i64 option"
  strptime_second :: "string \<Rightarrow> string \<Rightarrow> i64 option"
  strptime_accepts :: "string \<Rightarrow> bool"

record ('net, 're, 'j) detector_env =
  dn_net :: "'net ipnet"
  dn_regex :: "'re regex_lib"
  dn_json :: "'j json_lib"
  dn_time :: time_lib

text \<open>The seconds are of type \<open>i64\<close>.\<close>

definition times_storable :: "time_lib \<Rightarrow> bool" where
  "times_storable L \<longleftrightarrow>
     (\<forall>s t. rfc3339_second L s = Some t \<longrightarrow> t \<le> int i64_max) \<and>
     (\<forall>f s t. strptime_second L f s = Some t \<longrightarrow> t \<le> int i64_max)"

section \<open>Compiled detectors\<close>

record 'net detection =
  dt_network :: 'net
  dt_observed_at :: u64
  dt_attempt_key :: "string option"
  dt_group_key :: "string option"

datatype timestamp_format = Rfc3339 | Unix | Strptime string

record context_entry =
  last_seen :: u64
  context_lines :: "string list"

type_synonym context_cache = "(string, context_entry) btree"

record 're compiled_regex =
  cr_prefilter :: "'re option"
  cr_patterns :: "'re list"
  cr_context_patterns :: "'re list"
  cr_max_context_lines :: usize
  cr_context_window_secs :: u64
  cr_context :: context_cache
  cr_ignore :: "'re list"
  cr_address_capture :: string
  cr_timestamp_capture :: "string option"
  cr_timestamp_format :: timestamp_format

record compiled_json =
  cj_equals :: "(string, string) btree"
  cj_address_pointer :: string
  cj_timestamp_pointer :: "string option"
  cj_group_key_pointer :: "string option"
  cj_timestamp_format :: timestamp_format

datatype 're compiled_detector = CRegex "'re compiled_regex" | CJson compiled_json

definition pattern_error :: error where
  "pattern_error = Pattern ''invalid regex''"

definition regex_new :: "'re regex_lib \<Rightarrow> string \<Rightarrow> 're result" where
  "regex_new X pattern = ok_or pattern_error (rx_new X pattern)"

definition parse_timestamp_format :: "time_lib \<Rightarrow> string option \<Rightarrow> timestamp_format result" where
  "parse_timestamp_format L format =
     (let name = (case format of None \<Rightarrow> ''rfc3339'' | Some f \<Rightarrow> f) in
      if name = ''rfc3339'' then Inr Rfc3339
      else if name = ''unix'' then Inr Unix
      else case strip_prefix ''strptime:'' name of
             Some (c # f) \<Rightarrow>
               if strptime_accepts L (c # f) then Inr (Strptime (c # f))
               else Inl (Config ''invalid strptime format'')
           | _ \<Rightarrow> Inl (Config (''unsupported timestamp format '' @ name @
                    ''; expected rfc3339, unix, or strptime:<format>'')))"

fun detector_new :: "('net, 're, 'j) detector_env \<Rightarrow> detector \<Rightarrow> 're compiled_detector result" where
  "detector_new D (Regex d) =
     rbind (transpose_option (map_option (regex_new (dn_regex D)) (rd_prefilter d))) (\<lambda>prefilter.
     rbind (collect_results (regex_new (dn_regex D)) (rd_patterns d)) (\<lambda>patterns.
     rbind (collect_results (regex_new (dn_regex D)) (rd_context_patterns d)) (\<lambda>context_patterns.
     rbind (collect_results (regex_new (dn_regex D)) (rd_ignore_patterns d)) (\<lambda>ignore.
     rbind (parse_timestamp_format (dn_time D) (rd_timestamp_format d)) (\<lambda>format.
     Inr (CRegex \<lparr> cr_prefilter = prefilter, cr_patterns = patterns,
       cr_context_patterns = context_patterns, cr_max_context_lines = rd_max_context_lines d,
       cr_context_window_secs = rd_context_window_secs d, cr_context = [], cr_ignore = ignore,
       cr_address_capture = rd_address_capture d, cr_timestamp_capture = rd_timestamp_capture d,
       cr_timestamp_format = format \<rparr>))))))"
| "detector_new D (Json d) =
     rbind (parse_timestamp_format (dn_time D) (jd_timestamp_format d)) (\<lambda>format.
     Inr (CJson \<lparr> cj_equals = jd_equals d, cj_address_pointer = jd_address_pointer d,
       cj_timestamp_pointer = jd_timestamp_pointer d, cj_group_key_pointer = jd_group_key_pointer d,
       cj_timestamp_format = format \<rparr>))"

section \<open>Reading fields\<close>

definition unsigned_seconds :: "i64 \<Rightarrow> u64 option" where
  "unsigned_seconds t = (if 0 \<le> t then Some (nat t) else None)"

fun parse_timestamp :: "time_lib \<Rightarrow> string \<Rightarrow> timestamp_format \<Rightarrow> u64 option" where
  "parse_timestamp L raw Unix =
     Option.bind (parse_unsigned u64_max raw) (\<lambda>t. if t \<le> i64_max then Some t else None)"
| "parse_timestamp L raw Rfc3339 = Option.bind (rfc3339_second L raw) unsigned_seconds"
| "parse_timestamp L raw (Strptime format) = Option.bind (strptime_second L format raw) unsigned_seconds"

definition detector_parse_network :: "'net ipnet \<Rightarrow> string \<Rightarrow> 'net option" where
  "detector_parse_network N raw =
     (if CHR ''/'' \<in> set raw then net_parse N raw
      else Option.bind (addr_parse N raw) (\<lambda>a. net_new N a (if is_ipv4 a then 32 else 128)))"

definition parse_i64 :: "string \<Rightarrow> i64 option" where
  "parse_i64 s =
     (case s of
        c # rest \<Rightarrow>
          if c = CHR ''-''
          then (if rest = [] \<or> \<not> list_all is_digit rest \<or> i64_max + 1 < digits_value rest then None
                else Some (- int (digits_value rest)))
          else map_option int (parse_unsigned i64_max s)
      | [] \<Rightarrow> None)"

definition parse_bool :: "string \<Rightarrow> bool option" where
  "parse_bool s = (if s = ''true'' then Some True else if s = ''false'' then Some False else None)"

definition json_value_matches :: "'j json_lib \<Rightarrow> 'j \<Rightarrow> string \<Rightarrow> bool" where
  "json_value_matches J actual expected =
     (case js_kind J actual of
        KNull \<Rightarrow> expected = ''null''
      | KBool b \<Rightarrow> parse_bool expected = Some b
      | KNumber i u \<Rightarrow>
          (i \<noteq> None \<and> parse_i64 expected = i) \<or> (u \<noteq> None \<and> parse_unsigned u64_max expected = u) \<or>
          js_float_eq J actual expected
      | KString s \<Rightarrow> s = expected
      | _ \<Rightarrow> False)"

definition js_as_str :: "'j json_lib \<Rightarrow> 'j \<Rightarrow> string option" where
  "js_as_str J v = (case js_kind J v of KString s \<Rightarrow> Some s | _ \<Rightarrow> None)"

section \<open>The context cache\<close>

definition CONTEXT_CACHE_ENTRIES :: usize where
  "CONTEXT_CACHE_ENTRIES = 4096"

text \<open>\<open>Iterator::min_by_key\<close>: the first entry with the least \<open>last_seen\<close>.\<close>

fun oldest :: "context_cache \<Rightarrow> string option" where
  "oldest [] = None"
| "oldest ((k, e) # rest) =
     Some (fst (fold (\<lambda>(k', e') (k, e). if last_seen e' < last_seen e then (k', e') else (k, e)) rest (k, e)))"

function trim_front :: "nat \<Rightarrow> 'a list \<Rightarrow> 'a list" where
  "trim_front n xs = (if n < length xs then trim_front n (tl xs) else xs)"
  by pat_completeness auto
termination by (relation "measure (\<lambda>(n, xs). length xs)") auto

declare trim_front.simps [simp del]

definition make_room :: "u64 \<Rightarrow> string \<Rightarrow> context_cache \<Rightarrow> context_cache" where
  "make_room stale_before key cache =
     (let fresh = bt_retain (\<lambda>_ entry. stale_before \<le> last_seen entry) cache in
      if map_of fresh key = None \<and> CONTEXT_CACHE_ENTRIES \<le> length fresh
      then (case oldest fresh of None \<Rightarrow> fresh | Some k \<Rightarrow> bt_remove k fresh)
      else fresh)"

definition context_lookup :: "u64 \<Rightarrow> string \<Rightarrow> context_cache \<Rightarrow> context_entry" where
  "context_lookup received_at key cache =
     (case map_of cache key of
        None \<Rightarrow> \<lparr> last_seen = received_at, context_lines = [] \<rparr> | Some entry \<Rightarrow> entry)"

definition newline :: string where "newline = [CHR 0x0A]"

definition join_lines :: "string list \<Rightarrow> string" where
  "join_lines ls = fold (\<lambda>line joined. (if joined = [] then joined else joined @ newline) @ line) ls []"

definition joined_context :: "context_entry \<Rightarrow> string \<Rightarrow> string" where
  "joined_context entry content =
     (let joined = join_lines (context_lines entry)
      in (if joined = [] then joined else joined @ newline) @ content)"

definition context_push :: "usize \<Rightarrow> u64 \<Rightarrow> string \<Rightarrow> context_entry \<Rightarrow> context_entry" where
  "context_push max_lines received_at content entry =
     entry\<lparr> last_seen := received_at,
            context_lines := trim_front max_lines (context_lines entry @ [content]) \<rparr>"

section \<open>Detection\<close>

definition detect_pattern ::
  "('net, 're, 'j) detector_env \<Rightarrow> 're compiled_regex \<Rightarrow> u64 \<Rightarrow> string \<Rightarrow> 're \<Rightarrow> 'net detection option" where
  "detect_pattern D r received_at text pattern =
     Option.bind (rx_captures (dn_regex D) pattern text) (\<lambda>captures.
     Option.bind (captures (cr_address_capture r)) (\<lambda>raw.
     Option.bind (detector_parse_network (dn_net D) raw) (\<lambda>network.
     Some \<lparr> dt_network = network,
            dt_observed_at =
              (case Option.bind (Option.bind (cr_timestamp_capture r) captures)
                      (\<lambda>value. parse_timestamp (dn_time D) value (cr_timestamp_format r)) of
                 None \<Rightarrow> received_at | Some t \<Rightarrow> t),
            dt_attempt_key = captures ''attempt_key'',
            dt_group_key = captures ''group_key'' \<rparr>)))"

fun find_map :: "('a \<Rightarrow> 'b option) \<Rightarrow> 'a list \<Rightarrow> 'b option" where
  "find_map f [] = None"
| "find_map f (x # xs) = (case f x of None \<Rightarrow> find_map f xs | Some y \<Rightarrow> Some y)"

definition record_content :: "'re regex_lib \<Rightarrow> 're compiled_regex \<Rightarrow> string \<Rightarrow> string option" where
  "record_content X r record_text =
     (case cr_prefilter r of
        None \<Rightarrow> Some record_text
      | Some regex \<Rightarrow> Option.bind (rx_captures X regex record_text) (\<lambda>captures. captures ''content''))"

definition detect_regex ::
  "('net, 're, 'j) detector_env \<Rightarrow> 're compiled_regex \<Rightarrow> string \<Rightarrow> u64 \<Rightarrow> string option \<Rightarrow>
     'net detection option \<times> 're compiled_regex" where
  "detect_regex D r record_text received_at correlation =
     (if list_ex (\<lambda>regex. rx_is_match (dn_regex D) regex record_text) (cr_ignore r) then (None, r)
      else case record_content (dn_regex D) r record_text of
        None \<Rightarrow> (None, r)
      | Some content \<Rightarrow>
          (let direct = find_map (detect_pattern D r received_at content) (cr_patterns r) in
           if cr_context_patterns r = [] then (direct, r)
           else case correlation of
             None \<Rightarrow> (direct, r)
           | Some key \<Rightarrow>
               (let cache = make_room (received_at - cr_context_window_secs r) key (cr_context r);
                    entry = context_lookup received_at key cache;
                    contextual = find_map (detect_pattern D r received_at (joined_context entry content))
                                   (cr_context_patterns r)
                in (case direct of None \<Rightarrow> contextual | Some d \<Rightarrow> Some d,
                    r\<lparr> cr_context := bt_insert key
                          (context_push (cr_max_context_lines r) received_at content entry) cache \<rparr>))))"

definition detect_json ::
  "('net, 're, 'j) detector_env \<Rightarrow> compiled_json \<Rightarrow> string \<Rightarrow> u64 \<Rightarrow> 'net detection option" where
  "detect_json D d record_text received_at =
     (let J = dn_json D in
      Option.bind (js_parse J record_text) (\<lambda>value.
      if \<not> list_all (\<lambda>(pointer, expected).
             case js_pointer J value pointer of
               None \<Rightarrow> False | Some actual \<Rightarrow> json_value_matches J actual expected) (cj_equals d)
      then None
      else
        Option.bind (Option.bind (js_pointer J value (cj_address_pointer d)) (js_as_str J)) (\<lambda>raw.
        Option.bind (detector_parse_network (dn_net D) raw) (\<lambda>network.
        let observed_at =
              (case Option.bind (Option.bind (Option.bind (cj_timestamp_pointer d) (js_pointer J value)) (js_as_str J))
                      (\<lambda>raw. parse_timestamp (dn_time D) raw (cj_timestamp_format d)) of
                 None \<Rightarrow> received_at | Some t \<Rightarrow> t)
        in case cj_group_key_pointer d of
             None \<Rightarrow> Some \<lparr> dt_network = network, dt_observed_at = observed_at,
                            dt_attempt_key = None, dt_group_key = None \<rparr>
           | Some pointer \<Rightarrow>
               Option.bind (Option.bind (js_pointer J value pointer) (js_as_str J)) (\<lambda>key.
               Some \<lparr> dt_network = network, dt_observed_at = observed_at,
                      dt_attempt_key = None, dt_group_key = Some key \<rparr>)))))"

fun detect ::
  "('net, 're, 'j) detector_env \<Rightarrow> 're compiled_detector \<Rightarrow> string \<Rightarrow> u64 \<Rightarrow> string option \<Rightarrow>
     'net detection option \<times> 're compiled_detector" where
  "detect D (CRegex r) record_text received_at correlation =
     (case detect_regex D r record_text received_at correlation of (found, r') \<Rightarrow> (found, CRegex r'))"
| "detect D (CJson d) record_text received_at correlation =
     (detect_json D d record_text received_at, CJson d)"

section \<open>The cache stays bounded\<close>

lemma trim_front_eq: "trim_front n xs = drop (length xs - n) xs"
proof (induction n xs rule: trim_front.induct)
  case (1 n xs)
  then show ?case
    by (subst trim_front.simps, cases xs) (auto simp: Suc_diff_le not_less)
qed

definition cache_ok :: "usize \<Rightarrow> context_cache \<Rightarrow> bool" where
  "cache_ok max_lines cache \<longleftrightarrow>
     bt_ok cache \<and> length cache \<le> CONTEXT_CACHE_ENTRIES \<and>
     (\<forall>(k, e) \<in> set cache. length (context_lines e) \<le> max_lines)"

fun detector_ok :: "'re compiled_detector \<Rightarrow> bool" where
  "detector_ok (CRegex r) \<longleftrightarrow> cache_ok (cr_max_context_lines r) (cr_context r)"
| "detector_ok (CJson d) \<longleftrightarrow> True"

lemma oldest_in_cache: "oldest cache = Some k \<Longrightarrow> k \<in> fst ` set cache"
proof (cases cache)
  case (Cons x rest)
  let ?f = "\<lambda>(k', e') (k, e). if last_seen e' < last_seen e then (k', e') else (k, e)"
  have "fold ?f ys y \<in> set (y # ys)" for ys :: context_cache and y
  proof (induction ys arbitrary: y)
    case (Cons z ys)
    have "?f z y = z \<or> ?f z y = y" by (cases z; cases y) auto
    with Cons [of "?f z y"] show ?case by auto
  qed simp
  from this [of rest x] show "oldest cache = Some k \<Longrightarrow> k \<in> fst ` set cache"
    using Cons by (cases x) force
qed simp

lemma make_room_subset: "set (make_room t key cache) \<subseteq> set cache"
  by (auto simp: make_room_def bt_retain_def bt_remove_def Let_def split: option.splits)

lemma make_room_ok: "bt_ok cache \<Longrightarrow> bt_ok (make_room t key cache)"
  by (simp add: make_room_def Let_def split: option.split)

text \<open>After making room the key is present or there is a free place for it.\<close>

lemma make_room_length:
  assumes "length cache \<le> CONTEXT_CACHE_ENTRIES"
  shows "key \<in> fst ` set (make_room t key cache) \<and> length (make_room t key cache) \<le> CONTEXT_CACHE_ENTRIES \<or>
    length (make_room t key cache) < CONTEXT_CACHE_ENTRIES"
proof -
  define fresh where "fresh = bt_retain (\<lambda>_ entry. t \<le> last_seen entry) cache"
  have len: "length fresh \<le> CONTEXT_CACHE_ENTRIES"
    using assms unfolding fresh_def bt_retain_def by (meson le_trans length_filter_le)
  show ?thesis
  proof (cases "map_of fresh key = None \<and> CONTEXT_CACHE_ENTRIES \<le> length fresh")
    case True
    then obtain k where k: "oldest fresh = Some k"
      by (cases fresh) (auto simp: CONTEXT_CACHE_ENTRIES_def)
    with True have "make_room t key cache = bt_remove k fresh"
      by (simp add: make_room_def fresh_def [symmetric])
    with bt_remove_length_less [OF oldest_in_cache [OF k]] len show ?thesis by simp
  next
    case False
    then have "make_room t key cache = fresh" by (auto simp: make_room_def fresh_def [symmetric] Let_def)
    with False len show ?thesis by (force simp: map_of_eq_None_iff)
  qed
qed

lemma set_bt_insert: "set (bt_insert k v m) \<subseteq> insert (k, v) (set m)"
  by (induction k v m rule: bt_insert.induct) auto

lemma cache_step_ok:
  assumes "cache_ok max_lines cache"
  shows "cache_ok max_lines (bt_insert key
    (context_push max_lines received_at content entry) (make_room t key cache))"
proof -
  let ?room = "make_room t key cache" and ?entry = "context_push max_lines received_at content entry"
  have room: "bt_ok ?room" using assms by (simp add: cache_ok_def make_room_ok)
  have "length (bt_insert key ?entry ?room) \<le> CONTEXT_CACHE_ENTRIES"
    using make_room_length [of cache key t] assms by (auto simp: cache_ok_def bt_insert_length [OF room])
  moreover have "length (context_lines ?entry) \<le> max_lines"
    by (simp add: context_push_def trim_front_eq)
  ultimately show ?thesis
    using assms room set_bt_insert [of key ?entry ?room] make_room_subset [of t key cache]
    unfolding cache_ok_def by fastforce
qed

lemma detect_ok: "detector_ok c \<Longrightarrow> detector_ok (snd (detect D c text received_at correlation))"
proof (cases c)
  case (CRegex r)
  moreover have "cache_ok (cr_max_context_lines r) (cr_context r) \<Longrightarrow>
      cache_ok (cr_max_context_lines (snd (detect_regex D r text received_at correlation)))
        (cr_context (snd (detect_regex D r text received_at correlation)))"
    using cache_step_ok by (auto simp: detect_regex_def Let_def split: option.splits)
  ultimately show "detector_ok c \<Longrightarrow> ?thesis" by (auto split: prod.split)
qed simp

lemma detector_new_ok: "detector_new D d = Inr c \<Longrightarrow> detector_ok c"
  by (cases d) (auto simp: result_simps cache_ok_def)

text \<open>Records one after the other: text, time of receipt and correlation key.\<close>

definition detector_step ::
  "('net, 're, 'j) detector_env \<Rightarrow> string \<times> u64 \<times> string option \<Rightarrow> 're compiled_detector \<Rightarrow> 're compiled_detector" where
  "detector_step D rec c = (case rec of (text, received_at, correlation) \<Rightarrow> snd (detect D c text received_at correlation))"

interpretation detector_cache: invariant_machine detector_ok "detector_step D" for D
  by unfold_locales (simp add: detector_step_def detect_ok split: prod.split)

text \<open>A detector's memory is bounded whatever it is fed: after any sequence of records the
  context cache of a detector built from the configuration holds at most 4096 correlation keys,
  in order and without repetition, and at most the configured number of lines for each.\<close>

theorem context_cache_bounded:
  assumes "detector_new D d = Inr c"
  shows "detector_ok (fold (detector_step D) recs c)"
  by (rule detector_cache.run_inv) (rule detector_new_ok [OF assms])

section \<open>Timestamps\<close>

lemma parse_timestamp_storable:
  "times_storable L \<Longrightarrow> parse_timestamp L raw format = Some t \<Longrightarrow> t \<le> i64_max"
  by (cases format)
    (auto simp: bind_eq_Some_conv times_storable_def unsigned_seconds_def split: if_splits dest!: spec)

lemma find_map_Some: "find_map f xs = Some y \<Longrightarrow> \<exists>x \<in> set xs. f x = Some y"
  by (induction xs) (auto split: option.splits)

lemma detect_pattern_storable:
  "times_storable (dn_time D) \<Longrightarrow> received_at \<le> i64_max \<Longrightarrow>
     detect_pattern D r received_at text pattern = Some x \<Longrightarrow> dt_observed_at x \<le> i64_max"
  by (auto simp: detect_pattern_def bind_eq_Some_conv split: option.splits)
    (erule (1) parse_timestamp_storable)

lemma detect_json_storable:
  "times_storable (dn_time D) \<Longrightarrow> received_at \<le> i64_max \<Longrightarrow>
     detect_json D d text received_at = Some x \<Longrightarrow> dt_observed_at x \<le> i64_max"
  by (auto simp: detect_json_def Let_def bind_eq_Some_conv split: option.splits if_splits)
    (erule (1) parse_timestamp_storable)+

text \<open>Shared by the defense plane: whatever a detector reports can be stored.\<close>

lemma detect_storable:
  assumes "times_storable (dn_time D)" "received_at \<le> i64_max"
    "detect D c text received_at correlation = (Some x, c')"
  shows "dt_observed_at x \<le> i64_max"
proof (cases c)
  case (CRegex r)
  with assms(3) obtain body pats where "find_map (detect_pattern D r received_at body) pats = Some x"
    by (auto simp: detect_regex_def Let_def split: option.splits if_splits)
  then show ?thesis using assms(1,2) detect_pattern_storable find_map_Some by metis
next
  case (CJson d)
  with assms show ?thesis by (auto intro: detect_json_storable)
qed

section \<open>Validated detectors compile\<close>

lemma collect_new_total:
  "(\<And>p. p \<in> set ps \<Longrightarrow> rx_new X p \<noteq> None) \<Longrightarrow> \<exists>rs. collect_results (regex_new X) ps = Inr rs"
  by (induction ps) (auto simp: regex_new_def ok_or_def split: option.split)

lemma parse_timestamp_format_total:
  assumes "validate_timestamp_format policy format = Inr ()"
    "\<And>f. format = Some (''strptime:'' @ f) \<Longrightarrow> strptime_accepts L f"
  shows "\<exists>t. parse_timestamp_format L format = Inr t"
proof (cases format)
  case (Some name)
  then consider "name = ''rfc3339''" | "name = ''unix''"
    | c f where "strip_prefix ''strptime:'' name = Some (c # f)" "name \<notin> {''rfc3339'', ''unix''}"
    using assms(1) by (auto simp: validate_timestamp_format_def result_simps neq_Nil_conv split: option.splits)
  then show ?thesis
  proof cases
    case (3 c f)
    then have "format = Some (''strptime:'' @ c # f)"
      using Some by (simp only: strip_prefix_iff)
    then have "strptime_accepts L (c # f)"
      by (rule assms(2))
    with 3 Some show ?thesis by (simp add: parse_timestamp_format_def)
  qed (simp_all add: parse_timestamp_format_def Some)
qed (simp add: parse_timestamp_format_def)

text \<open>Validation promises what start-up needs: a detector that passes \<open>validate_detector\<close>
  compiles, provided its \<open>strptime\<close> format, the one part validation does not examine, is
  accepted by the time library.\<close>

theorem validated_detector_compiles:
  assumes "validate_detector (dn_regex D) policy d = Inr ()"
    and "\<And>f. (case d of Regex r \<Rightarrow> rd_timestamp_format r | Json j \<Rightarrow> jd_timestamp_format j) = Some (''strptime:'' @ f) \<Longrightarrow>
      strptime_accepts (dn_time D) f"
  shows "\<exists>c. detector_new D d = Inr c \<and> detector_ok c"
proof -
  have "\<exists>c. detector_new D d = Inr c"
  proof (cases d)
    case (Json j)
    with assms parse_timestamp_format_total [of policy "jd_timestamp_format j" "dn_time D"] show ?thesis
      by (auto simp: result_simps)
  next
    case (Regex r)
    have new: "rx_new (dn_regex D) p \<noteq> None"
      if "p \<in> set (rd_patterns r) \<union> set (rd_context_patterns r) \<union> set (rd_ignore_patterns r) \<union> set_option (rd_prefilter r)" for p
      using assms(1) that unfolding Regex
      by (auto simp: result_simps validate_regex_patterns_def compile_regex_def)
    moreover obtain format where "parse_timestamp_format (dn_time D) (rd_timestamp_format r) = Inr format"
      using assms parse_timestamp_format_total [of policy "rd_timestamp_format r" "dn_time D"]
      unfolding Regex by (auto simp: result_simps)
    moreover obtain ps cs igs where "collect_results (regex_new (dn_regex D)) (rd_patterns r) = Inr ps"
      "collect_results (regex_new (dn_regex D)) (rd_context_patterns r) = Inr cs"
      "collect_results (regex_new (dn_regex D)) (rd_ignore_patterns r) = Inr igs"
      using collect_new_total [of _ "dn_regex D"] new by (metis Un_iff)
    moreover obtain pre where "transpose_option (map_option (regex_new (dn_regex D)) (rd_prefilter r)) = Inr pre"
    proof (cases "rd_prefilter r")
      case (Some p)
      then obtain re where "rx_new (dn_regex D) p = Some re" using new [of p] by auto
      with Some that show ?thesis by (simp add: regex_new_def ok_or_def)
    qed simp
    ultimately show ?thesis by (simp add: Regex)
  qed
  then show ?thesis using detector_new_ok by blast
qed

section \<open>The theorems at work\<close>

text \<open>A regex library whose patterns are literal texts, capturing the whole record as the
  address, and a time library that reads nothing.\<close>

definition ex_regex :: "string regex_lib" where
  "ex_regex = \<lparr> rx_new = Some, rx_names = (\<lambda>_. [''address'']),
     rx_captures = (\<lambda>p text. if p = text then Some (\<lambda>name. if name = ''address'' then Some text else None) else None) \<rparr>"

definition ex_json :: "string json_lib" where
  "ex_json = \<lparr> js_parse = Some, js_pointer = (\<lambda>v _. Some v), js_kind = KString, js_float_eq = (\<lambda>_ _. False) \<rparr>"

definition ex_time :: time_lib where
  "ex_time = \<lparr> rfc3339_second = (\<lambda>_. None), strptime_second = (\<lambda>_ _. None), strptime_accepts = (\<lambda>_. True) \<rparr>"

definition ex_detector_env :: "(cidr, string, string) detector_env" where
  "ex_detector_env = \<lparr> dn_net = cidr, dn_regex = ex_regex, dn_json = ex_json, dn_time = ex_time \<rparr>"

definition ex_detector :: detector where
  "ex_detector = Regex \<lparr> rd_prefilter = None, rd_patterns = [''a''], rd_context_patterns = [''b''],
     rd_max_context_lines = 2, rd_context_window_secs = 60, rd_ignore_patterns = [],
     rd_address_capture = ''address'', rd_timestamp_capture = None, rd_timestamp_format = None \<rparr>"

definition ex_compiled :: "string compiled_detector" where
  "ex_compiled = CRegex \<lparr> cr_prefilter = None, cr_patterns = [''a''], cr_context_patterns = [''b''],
     cr_max_context_lines = 2, cr_context_window_secs = 60, cr_context = [], cr_ignore = [],
     cr_address_capture = ''address'', cr_timestamp_capture = None, cr_timestamp_format = Rfc3339 \<rparr>"

lemma ex_detector_new: "detector_new ex_detector_env ex_detector = Inr ex_compiled"
  by (simp add: ex_detector_def ex_compiled_def ex_detector_env_def ex_regex_def regex_new_def ok_or_def
      parse_timestamp_format_def)

theorem context_cache_bounded_witness:
  "detector_ok (fold (detector_step ex_detector_env) [(''x'', 1, Some ''k''), (''y'', 2, Some ''k'')] ex_compiled)"
  by (rule context_cache_bounded [OF ex_detector_new])

theorem validated_detector_compiles_witness:
  "\<exists>c. detector_new ex_detector_env ex_detector = Inr c \<and> detector_ok c"
  by (rule validated_detector_compiles [where policy = "''p''"])
    (simp_all add: ex_detector_def ex_detector_env_def ex_regex_def validate_capture_name_def is_digit_def
      is_alphanumeric_def is_lower_def is_upper_def validate_regex_patterns_def compile_regex_def ok_or_def
      validate_timestamp_format_def fail_if_def)

end
