(* ===== verification/Firewall_Rules.thy ===== *)
theory Firewall_Rules
  imports Config_Model
begin

text \<open>
  bagel-runtime/src/firewall.rs: scopes, memberships, the normalisation of overlapping
  memberships, the nftables ruleset and the reconcile operation. The \<open>nft\<close> process is an
  argument, a function from the ruleset text to success or an error. The generated ruleset is
  also given a packet semantics (first matching rule of the input chain), and the lemmas relate
  it to the memberships it was generated from.
\<close>

section \<open>Scopes and memberships\<close>

datatype protocol = PTcp | PUdp

fun nft_name :: "protocol \<Rightarrow> string" where
  "nft_name PTcp = ''tcp''"
| "nft_name PUdp = ''udp''"

datatype verdict = VDrop | VReject | VRedirect u16

datatype scope =
  Scope (scope_protocol: "protocol option") (scope_ports: "u16 list") (scope_verdict: verdict)

fun is_redirect :: "verdict \<Rightarrow> bool" where
  "is_redirect (VRedirect _) = True"
| "is_redirect _ = False"

text \<open>The derived \<open>Ord\<close>: fields in declaration order, each compared as its type does.\<close>

fun verdict_key :: "verdict \<Rightarrow> nat \<times> nat" where
  "verdict_key VDrop = (0, 0)"
| "verdict_key VReject = (1, 0)"
| "verdict_key (VRedirect p) = (2, p)"

fun scope_key :: "scope \<Rightarrow> nat \<times> nat list \<times> nat \<times> nat" where
  "scope_key (Scope p ports v) =
     (case p of None \<Rightarrow> 0 | Some PTcp \<Rightarrow> 1 | Some PUdp \<Rightarrow> 2, ports, verdict_key v)"

lemma verdict_key_inject: "verdict_key v = verdict_key w \<longleftrightarrow> v = w"
  by (cases v; cases w) auto

lemma scope_key_inject: "scope_key s = scope_key t \<longleftrightarrow> s = t"
  by (cases s; cases t) (auto simp: verdict_key_inject split: option.splits protocol.splits)

instantiation scope :: linorder
begin

definition less_eq_scope :: "scope \<Rightarrow> scope \<Rightarrow> bool" where
  "less_eq_scope s t \<longleftrightarrow> scope_key s \<le> scope_key t"

definition less_scope :: "scope \<Rightarrow> scope \<Rightarrow> bool" where
  "less_scope s t \<longleftrightarrow> scope_key s < scope_key t"

instance
  by standard (auto simp: less_eq_scope_def less_scope_def scope_key_inject less_le_not_le
    dest: order.trans antisym)

end

fun dedup :: "'a list \<Rightarrow> 'a list" where
  "dedup (x # y # xs) = (if x = y then dedup (y # xs) else x # dedup (y # xs))"
| "dedup xs = xs"

definition all_ports :: "verdict \<Rightarrow> scope" where
  "all_ports v = Scope None [] v"

definition scope_of_protocol :: "protocol \<Rightarrow> verdict \<Rightarrow> scope" where
  "scope_of_protocol p v = Scope (Some p) [] v"

definition scope_new :: "protocol \<Rightarrow> u16 list \<Rightarrow> verdict \<Rightarrow> scope result" where
  "scope_new p ports0 v =
     (let ports = dedup (sort ports0) in
      rbind (fail_if (ports = [])
        (Io ''a protocol-scoped firewall rule requires at least one port'')) (\<lambda>_.
      rbind (fail_if (is_redirect v \<and> p \<noteq> PTcp)
        (Io ''only TCP bans can redirect to a tarpit'')) (\<lambda>_.
      Inr (Scope (Some p) ports v))))"

record 'net membership =
  mem_network :: 'net
  mem_scope :: scope

definition protocols_overlap :: "scope \<Rightarrow> scope \<Rightarrow> bool" where
  "protocols_overlap left right \<longleftrightarrow>
     scope_protocol left = None \<or> scope_protocol right = None \<or>
     scope_protocol left = scope_protocol right"

section \<open>Normalisation\<close>

definition blocks_over :: "'net ipnet \<Rightarrow> 'net membership \<Rightarrow> 'net membership \<Rightarrow> bool" where
  "blocks_over N m candidate \<longleftrightarrow>
     scope_verdict (mem_scope candidate) \<in> {VDrop, VReject} \<and>
     networks_overlap N (mem_network candidate) (mem_network m) \<and>
     protocols_overlap (mem_scope candidate) (mem_scope m)"

text \<open>The loop over the blockers of one redirect, with its early exit.\<close>

fun subtract_blockers :: "u16 list \<Rightarrow> 'net membership list \<Rightarrow> u16 list" where
  "subtract_blockers ports [] = ports"
| "subtract_blockers ports (b # bs) =
     (if scope_protocol (mem_scope b) = None \<or> scope_ports (mem_scope b) = [] then []
      else subtract_blockers (filter (\<lambda>p. p \<notin> set (scope_ports (mem_scope b))) ports) bs)"

definition conflicting_redirect ::
  "'net ipnet \<Rightarrow> 'net membership \<Rightarrow> u16 \<Rightarrow> u16 list \<Rightarrow> 'net membership \<Rightarrow> bool" where
  "conflicting_redirect N m target ports other \<longleftrightarrow>
     (case scope_verdict (mem_scope other) of
        VRedirect other_target \<Rightarrow>
          target \<noteq> other_target \<and>
          networks_overlap N (mem_network other) (mem_network m) \<and>
          protocols_overlap (mem_scope other) (mem_scope m) \<and>
          list_ex (\<lambda>p. p \<in> set (scope_ports (mem_scope other))) ports
      | _ \<Rightarrow> False)"

definition with_ports :: "'net membership \<Rightarrow> u16 list \<Rightarrow> 'net membership" where
  "with_ports m ports =
     m\<lparr> mem_scope := Scope (scope_protocol (mem_scope m)) ports (scope_verdict (mem_scope m)) \<rparr>"

fun normalize_redirects ::
  "'net ipnet \<Rightarrow> 'net membership list \<Rightarrow> 'net membership list \<Rightarrow> 'net membership list result" where
  "normalize_redirects N memberships [] = Inr []"
| "normalize_redirects N memberships (m # later) =
     (case scope_verdict (mem_scope m) of
        VRedirect target \<Rightarrow>
          (let ports = subtract_blockers (scope_ports (mem_scope m))
                         (filter (blocks_over N m) memberships)
           in if ports = [] then normalize_redirects N memberships later
              else rbind (fail_if (list_ex (conflicting_redirect N m target ports) later)
                     (Io (''conflicting tarpit redirects for overlapping network '' @
                        net_show N (mem_network m)))) (\<lambda>_.
                   rbind (normalize_redirects N memberships later)
                     (\<lambda>rest. Inr (with_ports m ports # rest))))
      | _ \<Rightarrow> normalize_redirects N memberships later)"

definition normalize_memberships ::
  "'net ipnet \<Rightarrow> 'net membership list \<Rightarrow> 'net membership list result" where
  "normalize_memberships N memberships =
     rbind (normalize_redirects N memberships memberships) (\<lambda>redirects.
       Inr (filter (\<lambda>m. \<not> is_redirect (scope_verdict (mem_scope m))) memberships @ redirects))"

section \<open>The ruleset\<close>

text \<open>\<open>Families\<close>: the IPv4 and the IPv6 networks of one scope, as ordered sets.\<close>

type_synonym 'net families = "'net list \<times> 'net list"

fun add_network :: "'net::linorder ipnet \<Rightarrow> 'net \<Rightarrow> 'net families \<Rightarrow> 'net families" where
  "add_network N n (v4, v6) =
     (if net_is_ipv4 N n then (insort_insert n v4, v6) else (v4, insort_insert n v6))"

definition add_membership ::
  "'net::linorder ipnet \<Rightarrow> 'net membership \<Rightarrow> (scope, 'net families) btree \<Rightarrow> (scope, 'net families) btree" where
  "add_membership N m grouped =
     bt_insert (mem_scope m)
       (add_network N (mem_network m)
          (case map_of grouped (mem_scope m) of None \<Rightarrow> ([], []) | Some f \<Rightarrow> f)) grouped"

definition group_memberships ::
  "'net::linorder ipnet \<Rightarrow> 'net membership list \<Rightarrow> (scope, 'net families) btree" where
  "group_memberships N memberships = fold (add_membership N) memberships []"

definition nl :: string where "nl = [CHR 0x0A]"

definition validate_name :: "string \<Rightarrow> unit result" where
  "validate_name name =
     fail_if (name = [] \<or> \<not> list_all (\<lambda>c. is_alphanumeric c \<or> c = CHR ''_'') name)
       (Io (''invalid nftables table name '' @ name))"

definition write_set :: "'net ipnet \<Rightarrow> nat \<Rightarrow> string \<Rightarrow> string \<Rightarrow> 'net list \<Rightarrow> string" where
  "write_set N index family kind elements =
     (if elements = []
      then ''  set scope_'' @ show_nat index @ ''_'' @ family @ '' { type '' @ kind @
           ''; flags interval; auto-merge; }'' @ nl
      else ''  set scope_'' @ show_nat index @ ''_'' @ family @ '' { type '' @ kind @
           ''; flags interval; auto-merge; elements = { '' @
           join_with '', '' (map (net_show N) elements) @ '' }; }'' @ nl)"

definition port_predicate :: "scope \<Rightarrow> string" where
  "port_predicate s =
     (case scope_protocol s of
        None \<Rightarrow> []
      | Some p \<Rightarrow>
          if scope_ports s = [] then '' meta l4proto '' @ nft_name p
          else '' '' @ nft_name p @ '' dport { '' @ join_with '', '' (map show_nat (scope_ports s)) @ '' }'')"

definition write_filter_rules :: "nat \<Rightarrow> scope \<Rightarrow> string" where
  "write_filter_rules index s =
     (let rule = (\<lambda>verdict.
            ''    ip saddr @scope_'' @ show_nat index @ ''_v4'' @ port_predicate s @ '' '' @ verdict @ nl @
            ''    ip6 saddr @scope_'' @ show_nat index @ ''_v6'' @ port_predicate s @ '' '' @ verdict @ nl)
      in case scope_verdict s of
           VDrop \<Rightarrow> rule ''drop'' | VReject \<Rightarrow> rule ''reject'' | VRedirect _ \<Rightarrow> [])"

definition write_redirect_rules :: "nat \<Rightarrow> scope \<Rightarrow> string" where
  "write_redirect_rules index s =
     (case scope_verdict s of
        VRedirect port \<Rightarrow>
          ''    ip saddr @scope_'' @ show_nat index @ ''_v4'' @ port_predicate s @
          '' redirect to :'' @ show_nat port @ nl @
          ''    ip6 saddr @scope_'' @ show_nat index @ ''_v6'' @ port_predicate s @
          '' redirect to :'' @ show_nat port @ nl
      | _ \<Rightarrow> [])"

text \<open>The rules of the input chain, in the order they are written: for each of drop and reject,
  the scopes with that verdict in map order, each with its set index.\<close>

definition input_rules :: "(scope, 'net families) btree \<Rightarrow> (nat \<times> scope) list" where
  "input_rules grouped =
     concat (map (\<lambda>v. filter (\<lambda>(index, s). scope_verdict s = v) (enumerate 0 (map fst grouped)))
       [VDrop, VReject])"

definition redirect_rules :: "(scope, 'net families) btree \<Rightarrow> (nat \<times> scope) list" where
  "redirect_rules grouped =
     filter (\<lambda>(index, s). is_redirect (scope_verdict s)) (enumerate 0 (map fst grouped))"

definition render_ruleset ::
  "'net::linorder ipnet \<Rightarrow> string \<Rightarrow> int \<Rightarrow> 'net membership list \<Rightarrow> string result" where
  "render_ruleset N table priority memberships =
     rbind (validate_name table) (\<lambda>_.
     rbind (normalize_memberships N memberships) (\<lambda>normalized.
     let grouped = group_memberships N normalized in
     Inr (''destroy table inet '' @ table @ nl @ ''table inet '' @ table @ '' {'' @ nl @
          concat (map (\<lambda>(index, (v4, v6)). write_set N index ''v4'' ''ipv4_addr'' v4 @
                                          write_set N index ''v6'' ''ipv6_addr'' v6)
                    (enumerate 0 (map snd grouped))) @
          ''  chain input { type filter hook input priority '' @ show_int priority @
          ''; policy accept;'' @ nl @
          ''    fib saddr type local accept'' @ nl @
          concat (map (\<lambda>(index, s). write_filter_rules index s) (input_rules grouped)) @
          ''  }'' @ nl @
          (if list_ex (\<lambda>s. is_redirect (scope_verdict s)) (map fst grouped)
           then ''  chain prerouting { type nat hook prerouting priority dstnat; policy accept;'' @ nl @
                concat (map (\<lambda>(index, s). write_redirect_rules index s) (redirect_rules grouped)) @
                ''  }'' @ nl
           else []) @
          ''}'' @ nl)))"

section \<open>Reconciliation\<close>

record firewall =
  fw_table :: string
  fw_priority :: int
  fw_required :: bool
  fw_ready :: bool

definition firewall_new :: "string \<Rightarrow> int \<Rightarrow> bool \<Rightarrow> firewall" where
  "firewall_new table priority required =
     \<lparr> fw_table = table, fw_priority = priority, fw_required = required, fw_ready = False \<rparr>"

definition firewall_reconcile ::
  "'net::linorder ipnet \<Rightarrow> (string \<Rightarrow> unit result) \<Rightarrow> 'net membership list \<Rightarrow> firewall \<Rightarrow>
     unit result \<times> firewall" where
  "firewall_reconcile N nft memberships fw =
     (if \<not> fw_required fw then (Inr (), fw\<lparr> fw_ready := True \<rparr>)
      else case render_ruleset N (fw_table fw) (fw_priority fw) memberships of
             Inl e \<Rightarrow> (Inl e, fw)
           | Inr ruleset \<Rightarrow>
               (let r = nft ruleset in (r, fw\<lparr> fw_ready := (case r of Inl _ \<Rightarrow> False | Inr _ \<Rightarrow> True) \<rparr>)))"

section \<open>Scope construction\<close>

lemma set_dedup [simp]: "set (dedup xs) = set xs"
  by (induction xs rule: dedup.induct) auto

lemma dedup_sorted: "sorted xs \<Longrightarrow> sorted (dedup xs) \<and> distinct (dedup xs)"
  by (induction xs rule: dedup.induct) (auto simp: less_le)

lemma scope_new_Inr_iff:
  "scope_new p ports v = Inr s \<longleftrightarrow>
     ports \<noteq> [] \<and> (is_redirect v \<longrightarrow> p = PTcp) \<and>
     s = Scope (Some p) (sorted_list_of_set (set ports)) v"
proof -
  have "dedup (sort ports) = sorted_list_of_set (set ports)"
    using dedup_sorted [of "sort ports"]
    by (intro sorted_distinct_set_unique) auto
  moreover have "dedup (sort ports) = [] \<longleftrightarrow> ports = []"
    by (metis set_dedup set_empty set_sort)
  ultimately show ?thesis
    by (auto simp: scope_new_def Let_def result_simps)
qed

text \<open>Scopes the constructors can build: a redirect is TCP with at least one port.\<close>

definition scope_ok :: "scope \<Rightarrow> bool" where
  "scope_ok s \<longleftrightarrow>
     (is_redirect (scope_verdict s) \<longrightarrow> scope_protocol s = Some PTcp \<and> scope_ports s \<noteq> []) \<and>
     (scope_protocol s = None \<longrightarrow> scope_ports s = [])"

lemma scope_new_ok: "scope_new p ports v = Inr s \<Longrightarrow> scope_ok s"
  by (auto simp: scope_new_Inr_iff scope_ok_def)

section \<open>Packets\<close>

text \<open>The packets a scope selects, read off \<open>port_predicate\<close>: no protocol means every packet, a
  protocol with no ports every packet of it, otherwise the destination ports listed.\<close>

record packet =
  pkt_source :: ip_addr
  pkt_protocol :: protocol
  pkt_port :: u16

definition scope_selects :: "scope \<Rightarrow> packet \<Rightarrow> bool" where
  "scope_selects s pkt \<longleftrightarrow>
     (case scope_protocol s of
        None \<Rightarrow> True
      | Some p \<Rightarrow> pkt_protocol pkt = p \<and> (scope_ports s = [] \<or> pkt_port pkt \<in> set (scope_ports s)))"

definition selects :: "'net ipnet \<Rightarrow> 'net membership \<Rightarrow> packet \<Rightarrow> bool" where
  "selects N m pkt \<longleftrightarrow> net_contains N (mem_network m) (pkt_source pkt) \<and> scope_selects (mem_scope m) pkt"

lemma scope_selects_protocols:
  "scope_selects s pkt \<Longrightarrow> scope_selects t pkt \<Longrightarrow> protocols_overlap s t"
  by (auto simp: scope_selects_def protocols_overlap_def split: option.splits)

lemma selects_overlap:
  "net_semantics N \<Longrightarrow> selects N m pkt \<Longrightarrow> selects N m' pkt \<Longrightarrow>
     networks_overlap N (mem_network m) (mem_network m') \<and>
     protocols_overlap (mem_scope m) (mem_scope m')"
  by (auto simp: selects_def networks_overlap_iff intro: scope_selects_protocols)

section \<open>Normalisation\<close>

lemma subtract_blockers_set:
  "set (subtract_blockers ports bs) =
     {p \<in> set ports. \<forall>b \<in> set bs. scope_protocol (mem_scope b) \<noteq> None \<and>
        scope_ports (mem_scope b) \<noteq> [] \<and> p \<notin> set (scope_ports (mem_scope b))}"
  by (induction ports bs rule: subtract_blockers.induct) auto

lemma with_ports_simps [simp]:
  "mem_network (with_ports m ports) = mem_network m"
  "scope_ports (mem_scope (with_ports m ports)) = ports"
  "scope_protocol (mem_scope (with_ports m ports)) = scope_protocol (mem_scope m)"
  "scope_verdict (mem_scope (with_ports m ports)) = scope_verdict (mem_scope m)"
  by (simp_all add: with_ports_def)

text \<open>Every redirect that comes out is one that went in, with the ports no overlapping block
  claims; and each such redirect with a port left comes out.\<close>

definition free_ports :: "'net ipnet \<Rightarrow> 'net membership list \<Rightarrow> 'net membership \<Rightarrow> u16 list" where
  "free_ports N memberships m =
     subtract_blockers (scope_ports (mem_scope m)) (filter (blocks_over N m) memberships)"

lemma normalize_redirects_eq:
  "normalize_redirects N memberships ms = Inr rs \<Longrightarrow>
     rs = map (\<lambda>m. with_ports m (free_ports N memberships m))
            (filter (\<lambda>m. is_redirect (scope_verdict (mem_scope m)) \<and> free_ports N memberships m \<noteq> []) ms)"
  by (induction ms arbitrary: rs)
    (auto simp: result_simps free_ports_def Let_def split: verdict.splits if_splits)

lemma normalize_redirects_no_conflict:
  assumes "normalize_redirects N memberships ms = Inr rs"
    and "i < j" "j < length ms"
    and "scope_verdict (mem_scope (ms ! i)) = VRedirect target"
    and "free_ports N memberships (ms ! i) \<noteq> []"
  shows "\<not> conflicting_redirect N (ms ! i) target (free_ports N memberships (ms ! i)) (ms ! j)"
  using assms
proof (induction ms arbitrary: rs i j)
  case Nil
  then show ?case by simp
next
  case (Cons m ms)
  show ?case
  proof (cases i)
    case 0
    with Cons.prems have "\<not> list_ex (conflicting_redirect N m target (free_ports N memberships m)) ms"
      by (auto simp: result_simps free_ports_def Let_def)
    with 0 Cons.prems show ?thesis
      by (auto simp: list_ex_iff nth_Cons')
  next
    case (Suc k)
    have "\<exists>rs'. normalize_redirects N memberships ms = Inr rs'"
      using Cons.prems(1) by (auto simp: result_simps Let_def split: verdict.splits if_splits)
    moreover obtain l where "j = Suc l" using Suc Cons.prems(2) by (cases j) auto
    ultimately show ?thesis
      using Suc Cons.prems(2-5) Cons.IH [of _ k l] by auto
  qed
qed

lemma normalize_memberships_Inr:
  assumes "normalize_memberships N memberships = Inr out"
  shows "\<exists>rs. normalize_redirects N memberships memberships = Inr rs \<and>
    out = filter (\<lambda>m. \<not> is_redirect (scope_verdict (mem_scope m))) memberships @ rs"
  using assms by (auto simp: normalize_memberships_def result_simps)

lemma normalized_blocks:
  "normalize_memberships N memberships = Inr out \<Longrightarrow>
     filter (\<lambda>m. \<not> is_redirect (scope_verdict (mem_scope m))) out =
     filter (\<lambda>m. \<not> is_redirect (scope_verdict (mem_scope m))) memberships"
  by (auto dest!: normalize_memberships_Inr normalize_redirects_eq simp: filter_empty_conv)

lemma normalized_redirect_origin:
  assumes "normalize_memberships N memberships = Inr out" "r \<in> set out"
    "is_redirect (scope_verdict (mem_scope r))"
  obtains i where "i < length memberships" "r = with_ports (memberships ! i) (free_ports N memberships (memberships ! i))"
    "is_redirect (scope_verdict (mem_scope (memberships ! i)))"
    "free_ports N memberships (memberships ! i) \<noteq> []"
  using assms
  by (fastforce dest!: normalize_memberships_Inr normalize_redirects_eq simp: in_set_conv_nth)

text \<open>Blocks win over redirects. After normalisation no packet is selected both by a
  redirect and by a drop or reject, whatever the overlap between the networks, protocols and
  ports the memberships came with.\<close>

theorem blocks_override_redirects:
  assumes "net_semantics N"
    and "\<forall>m \<in> set memberships. scope_ok (mem_scope m)"
    and "normalize_memberships N memberships = Inr out"
    and "r \<in> set out" "is_redirect (scope_verdict (mem_scope r))"
    and "b \<in> set out" "\<not> is_redirect (scope_verdict (mem_scope b))"
  shows "\<not> (selects N r pkt \<and> selects N b pkt)"
proof
  assume both: "selects N r pkt \<and> selects N b pkt"
  obtain i where i: "i < length memberships"
    "r = with_ports (memberships ! i) (free_ports N memberships (memberships ! i))"
    "is_redirect (scope_verdict (mem_scope (memberships ! i)))"
    "free_ports N memberships (memberships ! i) \<noteq> []"
    using assms(3-5) by (rule normalized_redirect_origin)
  let ?m = "memberships ! i"
  have "scope_ok (mem_scope ?m)" using assms(2) i(1) by simp
  then have port: "pkt_port pkt \<in> set (free_ports N memberships ?m)" "pkt_protocol pkt = PTcp"
    using both i by (auto simp: selects_def scope_selects_def scope_ok_def)
  have "b \<in> set memberships"
    using arg_cong [OF normalized_blocks [OF assms(3)], of set] assms(6,7) by auto
  moreover have "blocks_over N ?m b"
    using selects_overlap [OF assms(1), of b pkt r] both i(2) assms(7)
    by (cases "scope_verdict (mem_scope b)") (auto simp: blocks_over_def protocols_overlap_def)
  ultimately have "b \<in> set (filter (blocks_over N ?m) memberships)" by simp
  with port(1) have "scope_protocol (mem_scope b) \<noteq> None" "scope_ports (mem_scope b) \<noteq> []"
    "pkt_port pkt \<notin> set (scope_ports (mem_scope b))"
    unfolding free_ports_def subtract_blockers_set by auto
  then show False
    using both by (auto simp: selects_def scope_selects_def)
qed

text \<open>Redirects never disagree. When normalisation succeeds, two redirects that select a
  common packet send it to the same listener port; contradicting redirects are refused.\<close>

theorem redirects_agree:
  assumes "net_semantics N"
    and "\<forall>m \<in> set memberships. scope_ok (mem_scope m)"
    and "normalize_memberships N memberships = Inr out"
    and "r \<in> set out" "scope_verdict (mem_scope r) = VRedirect target"
    and "r' \<in> set out" "scope_verdict (mem_scope r') = VRedirect target'"
    and "selects N r pkt" "selects N r' pkt"
  shows "target = target'"
proof (rule ccontr)
  assume "target \<noteq> target'"
  have red: "is_redirect (scope_verdict (mem_scope r))" "is_redirect (scope_verdict (mem_scope r'))"
    using assms by auto
  obtain i where i: "i < length memberships"
    "r = with_ports (memberships ! i) (free_ports N memberships (memberships ! i))"
    "free_ports N memberships (memberships ! i) \<noteq> []"
    using normalized_redirect_origin [OF assms(3,4) red(1)] by metis
  obtain j where j: "j < length memberships"
    "r' = with_ports (memberships ! j) (free_ports N memberships (memberships ! j))"
    "free_ports N memberships (memberships ! j) \<noteq> []"
    using normalized_redirect_origin [OF assms(3,6) red(2)] by metis
  obtain rs where rs: "normalize_redirects N memberships memberships = Inr rs"
    using normalize_memberships_Inr [OF assms(3)] by blast
  have free: "set (free_ports N memberships m) \<subseteq> set (scope_ports (mem_scope m))" for m
    by (auto simp: free_ports_def subtract_blockers_set)
  have port: "pkt_port pkt \<in> set (free_ports N memberships (memberships ! i))"
    "pkt_port pkt \<in> set (free_ports N memberships (memberships ! j))"
    using assms(2,5,7,8,9) i j nth_mem [OF i(1)] nth_mem [OF j(1)]
    by (fastforce simp: selects_def scope_selects_def scope_ok_def)+
  have overlap: "networks_overlap N (mem_network (memberships ! j)) (mem_network (memberships ! i))"
    "protocols_overlap (mem_scope (memberships ! j)) (mem_scope (memberships ! i))"
    using selects_overlap [OF assms(1,9,8)] i(2) j(2) by (auto simp: protocols_overlap_def)
  have "i \<noteq> j" using i(2) j(2) assms(5,7) \<open>target \<noteq> target'\<close> by auto
  then consider "i < j" | "j < i" by linarith
  then show False
  proof cases
    case 1
    from normalize_redirects_no_conflict [OF rs 1 j(1) _ i(3), of target]
    show False
      using assms(5,7) i(2) j(2) \<open>target \<noteq> target'\<close> overlap port free
      by (auto simp: conflicting_redirect_def list_ex_iff)
  next
    case 2
    from normalize_redirects_no_conflict [OF rs 2 i(1) _ j(3), of target']
    show False
      using assms(5,7) i(2) j(2) \<open>target \<noteq> target'\<close> overlap port free
      by (auto simp: conflicting_redirect_def list_ex_iff networks_overlap_sym protocols_overlap_def)
  qed
qed

section \<open>The input chain\<close>

text \<open>What the generated input chain does with a packet: the verdict of the first rule whose
  address set holds the source and whose predicate selects the packet. The set a rule names
  is the IPv4 or the IPv6 set of its index, after the packet's family.\<close>

definition rule_applies ::
  "'net ipnet \<Rightarrow> (scope, 'net families) btree \<Rightarrow> packet \<Rightarrow> nat \<times> scope \<Rightarrow> bool" where
  "rule_applies N grouped pkt rule =
     (case rule of (index, s) \<Rightarrow>
        (let (v4, v6) = snd (grouped ! index)
         in list_ex (\<lambda>n. net_contains N n (pkt_source pkt)) (if is_ipv4 (pkt_source pkt) then v4 else v6))
        \<and> scope_selects s pkt)"

definition input_chain ::
  "'net ipnet \<Rightarrow> (scope, 'net families) btree \<Rightarrow> packet \<Rightarrow> verdict option" where
  "input_chain N grouped pkt =
     map_option (\<lambda>(index, s). scope_verdict s) (find (rule_applies N grouped pkt) (input_rules grouped))"

lemma add_membership_ok: "bt_ok grouped \<Longrightarrow> bt_ok (add_membership N m grouped)"
  by (simp add: add_membership_def)

lemma group_memberships_ok: "bt_ok (group_memberships N ms)"
proof -
  have "bt_ok grouped \<Longrightarrow> bt_ok (fold (add_membership N) ms grouped)" for grouped
    by (induction ms arbitrary: grouped) (auto simp: add_membership_ok)
  then show ?thesis by (simp add: group_memberships_def)
qed

text \<open>A family pair holds exactly the networks of a set, split by family.\<close>

fun families_are :: "'net ipnet \<Rightarrow> 'net set \<Rightarrow> 'net families \<Rightarrow> bool" where
  "families_are N A (v4, v6) \<longleftrightarrow>
     set v4 = {n \<in> A. net_is_ipv4 N n} \<and> set v6 = {n \<in> A. \<not> net_is_ipv4 N n}"

definition networks_of :: "'net membership set \<Rightarrow> scope \<Rightarrow> 'net set" where
  "networks_of M s = mem_network ` {m \<in> M. mem_scope m = s}"

definition families_agree ::
  "'net ipnet \<Rightarrow> 'net membership set \<Rightarrow> (scope, 'net families) btree \<Rightarrow> bool" where
  "families_agree N M grouped \<longleftrightarrow>
     fst ` set grouped = mem_scope ` M \<and>
     (\<forall>s f. map_of grouped s = Some f \<longrightarrow> families_are N (networks_of M s) f)"

lemma add_network_families: "families_are N A f \<Longrightarrow> families_are N (insert n A) (add_network N n f)"
  by (cases f) (auto simp: set_insort_insert)

lemma networks_of_insert:
  "networks_of (insert m M) s =
     (if mem_scope m = s then insert (mem_network m) (networks_of M s) else networks_of M s)"
  by (auto simp: networks_of_def)

lemma add_membership_agrees:
  assumes "bt_ok grouped" "families_agree N M grouped"
  shows "families_agree N (insert m M) (add_membership N m grouped)"
proof -
  let ?s = "mem_scope m"
  have old: "families_are N (networks_of M ?s) (case map_of grouped ?s of None \<Rightarrow> ([], []) | Some f \<Rightarrow> f)"
  proof (cases "map_of grouped ?s")
    case None
    then have "?s \<notin> mem_scope ` M"
      using assms(2) by (auto simp: families_agree_def map_of_eq_None_iff)
    then have "networks_of M ?s = {}" by (auto simp: networks_of_def image_iff)
    with None show ?thesis by simp
  next
    case (Some f)
    with assms(2) show ?thesis by (cases f) (auto simp: families_agree_def)
  qed
  show ?thesis unfolding families_agree_def
  proof (intro conjI allI impI)
    show "fst ` set (add_membership N m grouped) = mem_scope ` insert m M"
      using assms(2) by (simp add: families_agree_def add_membership_def bt_insert_keys)
  next
    fix s f assume f: "map_of (add_membership N m grouped) s = Some f"
    show "families_are N (networks_of (insert m M) s) f"
    proof (cases "s = ?s")
      case True
      with f add_network_families [OF old, of "mem_network m"] assms(1) show ?thesis
        by (simp add: add_membership_def networks_of_insert)
    next
      case False
      with f assms(1) have "map_of grouped s = Some f" by (simp add: add_membership_def)
      with False assms(2) show ?thesis
        unfolding families_agree_def networks_of_insert by (cases f) simp
    qed
  qed
qed

lemma group_memberships_agrees: "families_agree N (set ms) (group_memberships N ms)"
proof -
  have "bt_ok grouped \<Longrightarrow> families_agree N M grouped \<Longrightarrow>
      families_agree N (M \<union> set ms) (fold (add_membership N) ms grouped)" for M grouped
  proof (induction ms arbitrary: M grouped)
    case (Cons m ms)
    from Cons.IH [OF add_membership_ok [OF Cons.prems(1)] add_membership_agrees [OF Cons.prems]]
    show ?case by simp
  qed simp
  from this [of "[]" "{}"] show ?thesis
    by (simp add: group_memberships_def families_agree_def)
qed

lemma rule_applies_iff:
  assumes "net_semantics N" "index < length grouped" "grouped = group_memberships N ms"
    "s = fst (grouped ! index)"
  shows "rule_applies N grouped pkt (index, s) \<longleftrightarrow> (\<exists>m \<in> set ms. mem_scope m = s \<and> selects N m pkt)"
proof -
  obtain v4 v6 where g: "grouped ! index = (s, v4, v6)"
    using assms(4) by (metis prod.collapse)
  have "map_of grouped s = Some (v4, v6)"
    using g assms(2,3) group_memberships_ok bt_ok_distinct by (metis map_of_eq_Some_iff nth_mem)
  then have sets: "set v4 = {n \<in> networks_of (set ms) s. net_is_ipv4 N n}"
    "set v6 = {n \<in> networks_of (set ms) s. \<not> net_is_ipv4 N n}"
    using group_memberships_agrees [of N ms] assms(3) by (auto simp: families_agree_def)
  have "net_is_ipv4 N n = is_ipv4 (pkt_source pkt)" if "net_contains N n (pkt_source pkt)" for n
    using that assms(1) same_prefix_family unfolding net_semantics_def by metis
  with sets g show ?thesis
    by (auto simp: rule_applies_def list_ex_iff networks_of_def selects_def)
qed

lemma find_Some_first: "find P (xs @ ys) = (case find P xs of None \<Rightarrow> find P ys | Some x \<Rightarrow> Some x)"
  by (induction xs) auto

lemma find_verdict:
  assumes "net_semantics N" "grouped = group_memberships N ms"
  shows "map_option (\<lambda>(index, s). scope_verdict s)
      (find (rule_applies N grouped pkt) (filter (\<lambda>(index, s). scope_verdict s = v) (enumerate 0 (map fst grouped))))
    = (if \<exists>m \<in> set ms. scope_verdict (mem_scope m) = v \<and> selects N m pkt then Some v else None)"
    (is "map_option ?f (find ?P ?rules) = _")
proof -
  have rules: "set ?rules = {(i, fst (grouped ! i)) | i. i < length grouped \<and> scope_verdict (fst (grouped ! i)) = v}"
    by (auto simp: in_set_enumerate_eq)
  have ex: "(\<exists>r \<in> set ?rules. ?P r) \<longleftrightarrow> (\<exists>m \<in> set ms. scope_verdict (mem_scope m) = v \<and> selects N m pkt)"
  proof
    assume "\<exists>r \<in> set ?rules. ?P r"
    then obtain i where "i < length grouped" "scope_verdict (fst (grouped ! i)) = v"
      "?P (i, fst (grouped ! i))"
      unfolding rules by auto
    with rule_applies_iff [OF assms(1) _ assms(2) refl, of i pkt]
    show "\<exists>m \<in> set ms. scope_verdict (mem_scope m) = v \<and> selects N m pkt" by (metis (no_types))
  next
    assume "\<exists>m \<in> set ms. scope_verdict (mem_scope m) = v \<and> selects N m pkt"
    then obtain m where m: "m \<in> set ms" "scope_verdict (mem_scope m) = v" "selects N m pkt" by blast
    then have "mem_scope m \<in> fst ` set grouped"
      using group_memberships_agrees [of N ms] assms(2) by (auto simp: families_agree_def)
    then obtain i where i: "i < length grouped" "fst (grouped ! i) = mem_scope m"
      by (metis imageE in_set_conv_nth)
    with m rule_applies_iff [OF assms(1) i(1) assms(2) refl, of pkt] show "\<exists>r \<in> set ?rules. ?P r"
      unfolding rules by fastforce
  qed
  show ?thesis
  proof (cases "find ?P ?rules")
    case None
    with ex show ?thesis by (auto simp: find_None_iff)
  next
    case (Some r)
    then have r: "r \<in> set ?rules" "?P r" by (metis find_Some_iff nth_mem)+
    with ex have "\<exists>m \<in> set ms. scope_verdict (mem_scope m) = v \<and> selects N m pkt" by blast
    moreover have "?f r = v" using r(1) by auto
    ultimately show ?thesis using Some by simp
  qed
qed


section \<open>Witnesses\<close>

text \<open>The example of the unit tests: a drop of TCP port 443 for 192.0.2.0/24 and a redirect of
  TCP ports 80 and 443 for 192.0.2.4/32.\<close>

definition ex_drop :: "cidr membership" where
  "ex_drop = \<lparr> mem_network = (V4 3221225984, 24), mem_scope = Scope (Some PTcp) [443] VDrop \<rparr>"

definition ex_redirect :: "u16 list \<Rightarrow> cidr membership" where
  "ex_redirect ports =
     \<lparr> mem_network = (V4 3221225988, 32), mem_scope = Scope (Some PTcp) ports (VRedirect 2222) \<rparr>"

definition ex_packet :: "u16 \<Rightarrow> packet" where
  "ex_packet port = \<lparr> pkt_source = V4 3221225988, pkt_protocol = PTcp, pkt_port = port \<rparr>"

lemmas ex_defs = ex_drop_def ex_redirect_def ex_packet_def

lemma ex_normalized:
  "normalize_memberships cidr [ex_drop, ex_redirect [80, 443]] = Inr [ex_drop, ex_redirect [80]]"
  by (simp add: ex_defs normalize_memberships_def blocks_over_def networks_overlap_def
      protocols_overlap_def with_ports_def Let_def fail_if_def)

lemma ex_scopes_ok: "\<forall>m \<in> set [ex_drop, ex_redirect [80, 443]]. scope_ok (mem_scope m)"
  by (simp add: ex_defs scope_ok_def)

theorem blocks_override_redirects_witness:
  "selects cidr (ex_redirect [80]) (ex_packet 80) \<and> \<not> selects cidr ex_drop (ex_packet 80)"
proof -
  have "selects cidr (ex_redirect [80]) (ex_packet 80)"
    by (simp add: ex_defs selects_def scope_selects_def)
  with blocks_override_redirects [OF cidr_semantics ex_scopes_ok ex_normalized,
      of "ex_redirect [80]" ex_drop "ex_packet 80"]
  show ?thesis by (simp add: ex_defs)
qed

theorem redirects_agree_witness:
  "scope_verdict (mem_scope (ex_redirect [80])) = VRedirect 2222 \<and> (2222::nat) = 2222"
proof -
  have "selects cidr (ex_redirect [80]) (ex_packet 80)"
    by (simp add: ex_defs selects_def scope_selects_def)
  with redirects_agree [OF cidr_semantics ex_scopes_ok ex_normalized,
      of "ex_redirect [80]" 2222 "ex_redirect [80]" 2222 "ex_packet 80"]
  show ?thesis by (simp add: ex_defs)
qed


end
