(* ===== verification/Defense_Model.thy ===== *)
theory Defense_Model
  imports Store_Model Detector_Model Firewall_Rules
begin

text \<open>
  bagel-runtime/src/defense.rs and defense_maintenance.rs: the defense plane that turns source
  records into leases and keeps the firewall in step with them. \<open>Defense\<close> is a record and each
  method a function on it. What a method asks of the machine (the clock, the addresses of the
  local interfaces, the outcome of running nft, whether the database accepts a commit, the
  jitter of a ban) is a \<open>world\<close>, given to the call. Metrics and log lines are left out.
\<close>

section \<open>State\<close>

record source_record =
  sr_source :: string
  sr_id :: string
  sr_payload :: string
  sr_correlation :: "string option"
  sr_observed_at :: u64
  sr_checkpoint :: checkpoint
  sr_oversized :: bool

record ('net, 're) compiled_policy =
  cpol_policy :: policy
  cpol_detector :: "'re compiled_detector"
  cpol_ignored :: "'net list"

record ('net, 're) defense =
  df_config :: config
  df_firewall :: firewall
  df_store :: db
  df_active :: "'net list"
  df_policies :: "(string, ('net, 're) compiled_policy) btree"
  df_protected :: "'net list"
  df_no_block :: "'net list"
  df_source_ready :: "(string, bool) btree"
  df_sequences :: "(string, u64) btree"
  df_listener_locks :: "string list"
  df_processor_ready :: bool
  df_web_taken :: "string list"

record ('net, 're, 'j) defense_env =
  de_store :: "'net store_env"
  de_detector :: "('net, 're, 'j) detector_env"
  de_socket_port :: "string \<Rightarrow> u16 option"

record world =
  w_now :: u64
  w_local :: "ip_addr list result"
  w_nft :: "string \<Rightarrow> unit result"
  w_commit_events :: bool
  w_commit_marks :: bool
  w_commit_prune :: bool
  w_draw :: "i64 \<Rightarrow> u64"

definition de_net :: "('net, 're, 'j) defense_env \<Rightarrow> 'net ipnet" where
  "de_net V = se_net (de_store V)"

definition RECORD_QUEUE :: usize where "RECORD_QUEUE = 1024"

definition RECORD_BATCH :: usize where "RECORD_BATCH = 256"

section \<open>Active networks\<close>

definition active_contains :: "'net ipnet \<Rightarrow> 'net list \<Rightarrow> ip_addr \<Rightarrow> bool" where
  "active_contains N networks a \<longleftrightarrow> list_ex (\<lambda>n. net_contains N n a) networks"

definition active_insert :: "'net \<Rightarrow> 'net list \<Rightarrow> 'net list" where
  "active_insert n networks = (if n \<in> set networks then networks else networks @ [n])"

section \<open>Networks that are spared\<close>

definition defense_parse_network :: "'net ipnet \<Rightarrow> string \<Rightarrow> 'net result" where
  "defense_parse_network N raw =
     (if CHR ''/'' \<in> set raw then ok_or (Network raw) (net_parse N raw)
      else rbind (ok_or (Network raw) (addr_parse N raw)) (host_network N))"

definition parse_networks :: "'net ipnet \<Rightarrow> string list \<Rightarrow> 'net list result" where
  "parse_networks N raw = collect_results (defense_parse_network N) raw"

definition is_protected ::
  "('net, 're, 'j) defense_env \<Rightarrow> ip_addr list result \<Rightarrow> ('net, 're) defense \<Rightarrow> 'net \<Rightarrow> bool result" where
  "is_protected V locals st network =
     (if list_ex (\<lambda>p. networks_overlap (de_net V) p network) (df_protected st) then Inr True
      else rbind locals (\<lambda>addresses.
           rbind (collect_results (host_network (de_net V)) addresses) (\<lambda>hosts.
           Inr (list_ex (\<lambda>l. networks_overlap (de_net V) l network) hosts))))"

definition is_no_block_network ::
  "('net, 're, 'j) defense_env \<Rightarrow> ('net, 're) defense \<Rightarrow> 'net \<Rightarrow> bool" where
  "is_no_block_network V st network \<longleftrightarrow>
     list_ex (\<lambda>n. networks_overlap (de_net V) n network) (df_no_block st)"

definition enforcement_action ::
  "('net, 're, 'j) defense_env \<Rightarrow> ('net, 're) defense \<Rightarrow> 'net \<Rightarrow> action \<Rightarrow> action" where
  "enforcement_action V st network act =
     (if is_no_block_network V st network \<and> block_parts act \<noteq> None then Observe else act)"

definition is_ignored ::
  "('net, 're, 'j) defense_env \<Rightarrow> ('net, 're) compiled_policy \<Rightarrow> 'net \<Rightarrow> bool" where
  "is_ignored V c network \<longleftrightarrow>
     list_ex (\<lambda>n. networks_overlap (de_net V) n network) (cpol_ignored c)"

definition is_spared_lease ::
  "('net, 're, 'j) defense_env \<Rightarrow> ('net, 're) defense \<Rightarrow> 'net lease \<Rightarrow> bool" where
  "is_spared_lease V st l \<longleftrightarrow>
     is_no_block_network V st (lease_network l) \<and> lease_action l = Observe \<and>
     (case map_of (df_policies st) (lease_policy l) of
        None \<Rightarrow> False | Some c \<Rightarrow> block_parts (policy_action (cpol_policy c)) \<noteq> None)"

section \<open>Opening\<close>

definition in_process :: "source \<Rightarrow> bool" where
  "in_process src \<longleftrightarrow> (case src of ListenerSource _ \<Rightarrow> True | Web \<Rightarrow> True | _ \<Rightarrow> False)"

definition resume_sequence :: "'net store_env \<Rightarrow> db \<Rightarrow> string \<Rightarrow> u64 result" where
  "resume_sequence E d name =
     rbind (store_checkpoint E name d) (\<lambda>cp.
       Inr (case cp of Some (ListenerCheckpoint sequence) \<Rightarrow> sequence | _ \<Rightarrow> 0))"

definition compile_policy ::
  "('net, 're, 'j) defense_env \<Rightarrow> string \<times> policy \<Rightarrow> (string \<times> ('net, 're) compiled_policy) result" where
  "compile_policy V entry =
     (case entry of (name, p) \<Rightarrow>
        rbind (detector_new (de_detector V) (policy_detector p)) (\<lambda>det.
        rbind (parse_networks (de_net V) (policy_ignore_networks p)) (\<lambda>ignored.
        Inr (name, \<lparr> cpol_policy = p, cpol_detector = det, cpol_ignored = ignored \<rparr>))))"

definition defense_open ::
  "('net, 're, 'j) defense_env \<Rightarrow> config \<Rightarrow> db \<Rightarrow> ('net, 're) defense result" where
  "defense_open V config d0 =
     rbind (store_open d0) (\<lambda>d.
     rbind (collect_results (\<lambda>(name, _). rbind (resume_sequence (de_store V) d name) (\<lambda>n. Inr (name, n)))
              (filter (\<lambda>(_, src). in_process src) (cfg_sources config))) (\<lambda>sequences.
     rbind (collect_results (compile_policy V) (cfg_policies config)) (\<lambda>policies.
     rbind (parse_networks (de_net V) (cfg_protected_networks config)) (\<lambda>protected.
     rbind (parse_networks (de_net V) (cfg_no_block_networks config)) (\<lambda>no_block.
     Inr \<lparr> df_config = config,
           df_firewall = firewall_new (enforcement_table (cfg_enforcement config))
             (enforcement_chain_priority (cfg_enforcement config))
             (enforcement_mode (cfg_enforcement config) = Required),
           df_store = d, df_active = [], df_policies = policies,
           df_protected = protected, df_no_block = no_block,
           df_source_ready = map (\<lambda>(name, src). (name, in_process src)) (cfg_sources config),
           df_sequences = sequences, df_listener_locks = map fst sequences,
           df_processor_ready = False, df_web_taken = [] \<rparr>)))))"

text \<open>The sequence a web source starts from, or why it may not be attached.\<close>

definition web_source :: "string \<Rightarrow> ('net, 're) defense \<Rightarrow> u64 result \<times> ('net, 're) defense" where
  "web_source name st =
     (if map_of (cfg_sources (df_config st)) name \<noteq> Some Web
      then (Inl (Config (name @ '' is not a configured web source'')), st)
      else if name \<in> set (df_web_taken st)
      then (Inl (Config (''web source '' @ name @ '' is already attached'')), st)
      else (Inr (max (case map_of (df_sequences st) name of None \<Rightarrow> 0 | Some n \<Rightarrow> n)
                     (last_listener_sequence name (df_store st))),
            st\<lparr> df_web_taken := name # df_web_taken st \<rparr>))"

definition max_findtime_secs :: "('net, 're) defense \<Rightarrow> u64" where
  "max_findtime_secs st = fold max (map (\<lambda>(_, c). policy_findtime_secs (cpol_policy c)) (df_policies st)) 0"

definition is_ready :: "('net, 're) defense \<Rightarrow> bool" where
  "is_ready st \<longleftrightarrow> fw_ready (df_firewall st) \<and> df_processor_ready st \<and> list_all snd (df_source_ready st)"

section \<open>From leases to firewall memberships\<close>

fun protocol_of :: "transport_protocol \<Rightarrow> protocol" where
  "protocol_of Tcp = PTcp"
| "protocol_of Udp = PUdp"

fun verdict_of :: "block_verdict \<Rightarrow> verdict" where
  "verdict_of BlockDrop = VDrop"
| "verdict_of BlockReject = VReject"

fun block_scope :: "block_verdict \<times> block_target \<Rightarrow> scope result" where
  "block_scope (v, TAll) = Inr (all_ports (verdict_of v))"
| "block_scope (v, TProtocol p) = Inr (scope_of_protocol (protocol_of p) (verdict_of v))"
| "block_scope (v, TPorts p ports) = scope_new (protocol_of p) ports (verdict_of v)"

definition redirect_scope ::
  "(string \<Rightarrow> u16 option) \<Rightarrow> config \<Rightarrow> transport_protocol \<Rightarrow> u16 list \<Rightarrow> string \<Rightarrow> scope result" where
  "redirect_scope socket_port config protocol ports listener =
     rbind (ok_or (Config (''unknown redirect listener '' @ listener))
              (find (\<lambda>candidate. listener_name candidate = listener) (cfg_listeners config))) (\<lambda>l.
     rbind (ok_or (Config ''invalid socket address syntax'') (socket_port (listen_addr l))) (\<lambda>port.
     scope_new (protocol_of protocol) ports (VRedirect port)))"

definition membership_of ::
  "(string \<Rightarrow> u16 option) \<Rightarrow> config \<Rightarrow> 'net lease \<Rightarrow> 'net membership option result" where
  "membership_of socket_port config l =
     (case block_parts (lease_action l) of
        Some parts \<Rightarrow>
          rbind (block_scope parts) (\<lambda>s. Inr (Some \<lparr> mem_network = lease_network l, mem_scope = s \<rparr>))
      | None \<Rightarrow>
          (case lease_action l of
             TarpitRedirect protocol ports listener \<Rightarrow>
               rbind (redirect_scope socket_port config protocol ports listener)
                 (\<lambda>s. Inr (Some \<lparr> mem_network = lease_network l, mem_scope = s \<rparr>))
           | _ \<Rightarrow> Inr None))"

section \<open>Reconciliation\<close>

record 'net plan =
  plan_memberships :: "'net membership list"
  plan_protected :: "i64 list"
  plan_spared :: "i64 list"

fun plan_leases ::
  "('net, 're, 'j) defense_env \<Rightarrow> ip_addr list result \<Rightarrow> ('net, 're) defense \<Rightarrow> 'net lease list \<Rightarrow> 'net plan result" where
  "plan_leases V locals st [] = Inr \<lparr> plan_memberships = [], plan_protected = [], plan_spared = [] \<rparr>"
| "plan_leases V locals st (l # ls) =
     rbind (is_protected V locals st (lease_network l)) (\<lambda>prot.
     if prot
     then rbind (plan_leases V locals st ls) (\<lambda>p. Inr (p\<lparr> plan_protected := lease_id l # plan_protected p \<rparr>))
     else if is_no_block_network V st (lease_network l)
     then rbind (plan_leases V locals st ls) (\<lambda>p. Inr (p\<lparr> plan_spared := lease_id l # plan_spared p \<rparr>))
     else rbind (membership_of (de_socket_port V) (df_config st) l) (\<lambda>m.
          rbind (plan_leases V locals st ls) (\<lambda>p.
          Inr (p\<lparr> plan_memberships := (case m of None \<Rightarrow> [] | Some x \<Rightarrow> [x]) @ plan_memberships p \<rparr>))))"

fun io_message :: "error \<Rightarrow> string" where
  "io_message (Io m) = m"
| "io_message _ = ''error''"

definition apply_outcome_of :: "unit result \<Rightarrow> bool \<Rightarrow> 'net plan \<Rightarrow> 'net lease \<Rightarrow> apply_outcome" where
  "apply_outcome_of r required p l =
     (case r of
        Inl e \<Rightarrow> Failed (io_message e)
      | Inr _ \<Rightarrow>
          if \<not> required \<or> lease_action l = Observe \<or> lease_id l \<in> set (plan_protected p) \<or>
             lease_id l \<in> set (plan_spared p)
          then Observed else Applied)"

definition visible_networks :: "'net plan \<Rightarrow> 'net lease list \<Rightarrow> 'net list" where
  "visible_networks p ls =
     map lease_network (filter (\<lambda>l. lease_action l \<noteq> Observe \<and> lease_id l \<notin> set (plan_protected p)) ls)"

definition reconcile ::
  "('net::linorder, 're, 'j) defense_env \<Rightarrow> world \<Rightarrow> ('net, 're) defense \<Rightarrow> unit result \<times> ('net, 're) defense" where
  "reconcile V w st =
     (case begin_reconcile (w_now w) (df_store st) of
        Inl e \<Rightarrow> (Inl e, st)
      | Inr (_, d1) \<Rightarrow>
          (let st1 = st\<lparr> df_store := d1 \<rparr> in
           case rbind (active_leases (de_store V) (w_now w) d1) (\<lambda>ls.
                rbind (plan_leases V (w_local w) st1 ls) (\<lambda>p. Inr (ls, p))) of
             Inl e \<Rightarrow> (Inl e, st1)
           | Inr (ls, p) \<Rightarrow>
               (let (r, fw) = firewall_reconcile (de_net V) (w_nft w) (plan_memberships p) (df_firewall st1);
                    outcomes = map (\<lambda>l. (lease_id l, apply_outcome_of r (fw_required fw) p l)) ls;
                    (marked, d2) = mark_apply_results (w_commit_marks w) outcomes d1
                in (rbind marked (\<lambda>_. r),
                    st1\<lparr> df_active := visible_networks p ls, df_firewall := fw, df_store := d2 \<rparr>))))"

definition defense_expire ::
  "world \<Rightarrow> ('net, 're) defense \<Rightarrow> nat result \<times> ('net, 're) defense" where
  "defense_expire w st =
     (case expire (w_now w) (df_store st) of
        Inl e \<Rightarrow> (Inl e, st)
      | Inr (expired, d1) \<Rightarrow>
          (case prune_offenses (w_commit_prune w) (w_now w - max (max_findtime_secs st) 86400) d1 of
             (Inl e, d2) \<Rightarrow> (Inl e, st\<lparr> df_store := d2 \<rparr>)
           | (Inr _, d2) \<Rightarrow>
               (case prune_leases (w_now w - cfg_history_retention_secs (df_config st)) (w_now w) d2 of
                  Inl e \<Rightarrow> (Inl e, st\<lparr> df_store := d2 \<rparr>)
                | Inr (_, d3) \<Rightarrow> (Inr expired, st\<lparr> df_store := d3 \<rparr>))))"

definition expire_and_reconcile ::
  "('net::linorder, 're, 'j) defense_env \<Rightarrow> world \<Rightarrow> ('net, 're) defense \<Rightarrow> unit result \<times> ('net, 're) defense" where
  "expire_and_reconcile V w st =
     (case defense_expire w st of
        (Inl e, st1) \<Rightarrow> (Inl e, st1)
      | (Inr _, st1) \<Rightarrow> reconcile V w st1)"

definition initialize ::
  "('net::linorder, 're, 'j) defense_env \<Rightarrow> world \<Rightarrow> ('net, 're) defense \<Rightarrow> unit result \<times> ('net, 're) defense" where
  "initialize V w st =
     (case expire_and_reconcile V w st of
        (Inl e, st1) \<Rightarrow> (Inl e, st1)
      | (Inr _, st1) \<Rightarrow> (Inr (), st1\<lparr> df_processor_ready := True \<rparr>))"

section \<open>The administrator's operations\<close>

record ban =
  ban_network :: string
  ban_policy :: string
  ban_action :: string
  ban_created_at :: u64
  ban_expires_at :: "u64 option"
  ban_escalation_count :: u32
  ban_manual :: bool
  ban_blocking :: bool
  ban_apply_state :: string
  ban_last_error :: "string option"

definition ban_of :: "'net ipnet \<Rightarrow> 'net lease \<Rightarrow> ban" where
  "ban_of N l =
     \<lparr> ban_network = net_show N (lease_network l), ban_policy = lease_policy l,
       ban_action = action_show (lease_action l), ban_created_at = lease_created_at l,
       ban_expires_at = lease_expires_at l, ban_escalation_count = min (lease_escalation_count l) u32_max,
       ban_manual = lease_manual l, ban_blocking = (block_parts (lease_action l) \<noteq> None),
       ban_apply_state = lease_apply_state l, ban_last_error = lease_last_error l \<rparr>"

definition bans :: "('net, 're, 'j) defense_env \<Rightarrow> world \<Rightarrow> ('net, 're) defense \<Rightarrow> ban list result" where
  "bans V w st =
     rbind (active_leases (de_store V) (w_now w) (df_store st)) (\<lambda>ls. Inr (map (ban_of (de_net V)) ls))"

definition defense_manual_block ::
  "('net::linorder, 're, 'j) defense_env \<Rightarrow> world \<Rightarrow> string \<Rightarrow> u64 option \<Rightarrow> ('net, 're) defense \<Rightarrow>
     unit result \<times> ('net, 're) defense" where
  "defense_manual_block V w raw duration st =
     (case rbind (fail_if (duration = Some 0) (Config ''manual ban duration must be non-zero'')) (\<lambda>_.
           rbind (defense_parse_network (de_net V) raw) (\<lambda>network.
           rbind (is_protected V (w_local w) st network) (\<lambda>prot.
           rbind (fail_if prot (Config (''refusing to block protected network '' @ net_show (de_net V) network))) (\<lambda>_.
           rbind (fail_if (is_no_block_network V st network)
                    (Config (''refusing to block shared network '' @ net_show (de_net V) network))) (\<lambda>_.
           Inr network))))) of
        Inl e \<Rightarrow> (Inl e, st)
      | Inr network \<Rightarrow>
          (case manual_block (de_store V) (w_commit_events w) network DropAll (w_now w) duration (df_store st) of
             (Inl e, d) \<Rightarrow> (Inl e, st\<lparr> df_store := d \<rparr>)
           | (Inr _, d) \<Rightarrow> reconcile V w (st\<lparr> df_store := d \<rparr>)))"

definition defense_unblock ::
  "('net::linorder, 're, 'j) defense_env \<Rightarrow> world \<Rightarrow> string \<Rightarrow> ('net, 're) defense \<Rightarrow>
     nat result \<times> ('net, 're) defense" where
  "defense_unblock V w raw st =
     (case rbind (defense_parse_network (de_net V) raw) (\<lambda>network.
           manual_unblock (de_store V) network (w_now w) (df_store st)) of
        Inl e \<Rightarrow> (Inl e, st)
      | Inr (changed, d) \<Rightarrow>
          (case reconcile V w (st\<lparr> df_store := d \<rparr>) of
             (Inl e, st1) \<Rightarrow> (Inl e, st1)
           | (Inr _, st1) \<Rightarrow> (Inr changed, st1)))"

section \<open>Processing source records\<close>

definition offense_input_of ::
  "string \<Rightarrow> policy \<Rightarrow> u64 \<Rightarrow> 'net \<Rightarrow> u64 option \<Rightarrow> string option \<Rightarrow> string option \<Rightarrow> 'net offense_input" where
  "offense_input_of name p retention network observed_at attempt_key group_key =
     \<lparr> oi_policy = name, oi_network = network, oi_max_attempts = policy_max_attempts p,
       oi_findtime_secs = policy_findtime_secs p, oi_history_retention_secs = retention,
       oi_ban = policy_ban p, oi_action = policy_action p, oi_observed_at = observed_at,
       oi_attempt_key = attempt_key, oi_group_key = group_key \<rparr>"

definition accepted_offense ::
  "('net, 're, 'j) defense_env \<Rightarrow> ('net, 're) defense \<Rightarrow> string \<Rightarrow> policy \<Rightarrow> 'net detection \<Rightarrow> 'net offense_input" where
  "accepted_offense V st name p x =
     offense_input_of name (p\<lparr> policy_action := enforcement_action V st (dt_network x) (policy_action p) \<rparr>)
       (cfg_history_retention_secs (df_config st)) (dt_network x) (Some (dt_observed_at x))
       (dt_attempt_key x) (dt_group_key x)"

text \<open>One record against every policy that reads its source, in policy order. Detectors keep what
  they saw even when the call fails later.\<close>

fun scan_policies ::
  "('net, 're, 'j) defense_env \<Rightarrow> world \<Rightarrow> ('net, 're) defense \<Rightarrow> source_record \<Rightarrow>
     (string \<times> ('net, 're) compiled_policy) list \<Rightarrow>
     'net offense_input list result \<times> (string \<times> ('net, 're) compiled_policy) list" where
  "scan_policies V w st rec [] = (Inr [], [])"
| "scan_policies V w st rec ((name, c) # rest) =
     (if policy_source (cpol_policy c) \<noteq> sr_source rec
      then (case scan_policies V w st rec rest of (r, rest') \<Rightarrow> (r, (name, c) # rest'))
      else case detect (de_detector V) (cpol_detector c) (sr_payload rec) (sr_observed_at rec) (sr_correlation rec) of
        (None, det) \<Rightarrow>
          (case scan_policies V w st rec rest of (r, rest') \<Rightarrow> (r, (name, c\<lparr> cpol_detector := det \<rparr>) # rest'))
      | (Some x, det) \<Rightarrow>
          (case is_protected V (w_local w) st (dt_network x) of
             Inl e \<Rightarrow> (Inl e, (name, c\<lparr> cpol_detector := det \<rparr>) # rest)
           | Inr prot \<Rightarrow>
               (case scan_policies V w st rec rest of (r, rest') \<Rightarrow>
                 (if prot \<or> is_ignored V c (dt_network x) then r
                  else rbind r (\<lambda>found. Inr (accepted_offense V st name (cpol_policy c) x # found)),
                  (name, c\<lparr> cpol_detector := det \<rparr>) # rest'))))"

text \<open>Whether a record without offenses still advances the stored checkpoint: one in 128 does.\<close>

definition CHECKPOINT_INTERVAL :: u64 where "CHECKPOINT_INTERVAL = 128"

definition bump_sequence :: "string \<Rightarrow> (string, u64) btree \<Rightarrow> u64 \<times> (string, u64) btree" where
  "bump_sequence source sequences =
     (let n = sat_add64 (case map_of sequences source of None \<Rightarrow> 0 | Some n \<Rightarrow> n) 1
      in (n, bt_insert source n sequences))"

definition record_event :: "source_record \<Rightarrow> 'net offense_input list \<Rightarrow> 'net event_input" where
  "record_event rec offs =
     \<lparr> ei_source = sr_source rec, ei_event_id = sr_id rec, ei_checkpoint = sr_checkpoint rec,
       ei_observed_at = sr_observed_at rec, ei_offenses = offs \<rparr>"

fun prepare_records ::
  "('net, 're, 'j) defense_env \<Rightarrow> world \<Rightarrow> source_record list \<Rightarrow> ('net, 're) defense \<Rightarrow>
     'net event_input list result \<times> ('net, 're) defense" where
  "prepare_records V w [] st = (Inr [], st)"
| "prepare_records V w (rec # recs) st =
     (case (if sr_oversized rec then (Inr [], df_policies st) else scan_policies V w st rec (df_policies st)) of
        (Inl e, policies) \<Rightarrow> (Inl e, st\<lparr> df_policies := policies \<rparr>)
      | (Inr owned, policies) \<Rightarrow>
          (let st1 = st\<lparr> df_policies := policies \<rparr> in
           if owned = [] \<and> \<not> sr_oversized rec
           then (case bump_sequence (sr_source rec) (df_sequences st1) of (n, sequences) \<Rightarrow>
                 (let st2 = st1\<lparr> df_sequences := sequences \<rparr> in
                  if n mod CHECKPOINT_INTERVAL \<noteq> 0 then prepare_records V w recs st2
                  else case prepare_records V w recs st2 of
                         (r, st3) \<Rightarrow> (rbind r (\<lambda>evs. Inr (record_event rec owned # evs)), st3)))
           else case prepare_records V w recs st1 of
                  (r, st3) \<Rightarrow> (rbind r (\<lambda>evs. Inr (record_event rec owned # evs)), st3)))"

text \<open>The leases of a batch, entered into the active set unless observed or protected.\<close>

fun announce ::
  "('net, 're, 'j) defense_env \<Rightarrow> world \<Rightarrow> 'net lease list \<Rightarrow> ('net, 're) defense \<Rightarrow>
     unit result \<times> ('net, 're) defense" where
  "announce V w [] st = (Inr (), st)"
| "announce V w (l # ls) st =
     (if lease_action l = Observe then announce V w ls st
      else case is_protected V (w_local w) st (lease_network l) of
             Inl e \<Rightarrow> (Inl e, st)
           | Inr prot \<Rightarrow>
               announce V w ls (if prot then st
                 else st\<lparr> df_active := active_insert (lease_network l) (df_active st) \<rparr>))"

definition process_records ::
  "('net::linorder, 're, 'j) defense_env \<Rightarrow> world \<Rightarrow> source_record list \<Rightarrow> ('net, 're) defense \<Rightarrow>
     unit result \<times> ('net, 're) defense" where
  "process_records V w recs st =
     (case prepare_records V w recs st of
        (Inl e, st1) \<Rightarrow> (Inl e, st1)
      | (Inr pending, st1) \<Rightarrow>
          if pending = [] then (Inr (), st1)
          else (case process_events (de_store V) (w_draw w) (w_commit_events w) pending (df_store st1) of
                  (Inl e, d) \<Rightarrow> (Inl e, st1\<lparr> df_store := d \<rparr>)
                | (Inr outcomes, d) \<Rightarrow>
                    (let created = concat (map outcome_leases outcomes) in
                     case announce V w created (st1\<lparr> df_store := d \<rparr>) of
                       (Inl e, st2) \<Rightarrow> (Inl e, st2)
                     | (Inr _, st2) \<Rightarrow> if created = [] then (Inr (), st2) else reconcile V w st2)))"

section \<open>Listener offenses\<close>

text \<open>The checks that come before anything is written: the compiled policy and the network, or
  nothing to do.\<close>

definition listener_target ::
  "('net, 're, 'j) defense_env \<Rightarrow> world \<Rightarrow> string \<Rightarrow> ip_addr \<Rightarrow> ('net, 're) defense \<Rightarrow>
     (policy \<times> 'net) option result" where
  "listener_target V w policy_name address st =
     rbind (ok_or (Config (''unknown listener policy '' @ policy_name)) (map_of (df_policies st) policy_name)) (\<lambda>c.
     rbind (fail_if (case map_of (cfg_sources (df_config st)) (policy_source (cpol_policy c)) of
                       Some (ListenerSource _) \<Rightarrow> False | _ \<Rightarrow> True)
       (Config (''listener policy '' @ policy_name @ '' reads source '' @ policy_source (cpol_policy c) @
                '' which is not a listener source''))) (\<lambda>_.
     rbind (host_network (de_net V) address) (\<lambda>network.
     rbind (is_protected V (w_local w) st network) (\<lambda>prot.
     if prot \<or> is_ignored V c network then Inr None
     else rbind (fail_if (policy_source (cpol_policy c) \<notin> set (df_listener_locks st))
                   (Config (''listener source '' @ policy_source (cpol_policy c) @ '' has no lock''))) (\<lambda>_.
          Inr (Some (cpol_policy c, network)))))))"

definition listener_event ::
  "('net, 're, 'j) defense_env \<Rightarrow> world \<Rightarrow> ('net, 're) defense \<Rightarrow> string \<Rightarrow> policy \<Rightarrow> 'net \<Rightarrow> u64 \<Rightarrow> 'net event_input" where
  "listener_event V w st policy_name p network sequence =
     \<lparr> ei_source = policy_source p, ei_event_id = listener_event_id (policy_source p) sequence,
       ei_checkpoint = ListenerCheckpoint sequence, ei_observed_at = w_now w,
       ei_offenses = [offense_input_of policy_name
          (p\<lparr> policy_action := enforcement_action V st network (policy_action p) \<rparr>)
          (cfg_history_retention_secs (df_config st)) network (Some (w_now w)) None None] \<rparr>"

text \<open>The retry loop around the store: one commit outcome per attempt. \<open>None\<close> is a loop that is
  still retrying when the outcomes run out.\<close>

fun persist_retry ::
  "'net store_env \<Rightarrow> (i64 \<Rightarrow> u64) \<Rightarrow> 'net event_input \<Rightarrow> bool list \<Rightarrow> db \<Rightarrow> ('net lease list \<times> db) option" where
  "persist_retry E draw inp [] d = None"
| "persist_retry E draw inp (commit # commits) d =
     (case process_event E draw commit inp d of
        (Inr out, d') \<Rightarrow> Some (outcome_leases out, d')
      | (Inl _, d') \<Rightarrow> persist_retry E draw inp commits d')"

fun reconcile_retry ::
  "('net::linorder, 're, 'j) defense_env \<Rightarrow> world list \<Rightarrow> ('net, 're) defense \<Rightarrow> ('net, 're) defense option" where
  "reconcile_retry V [] st = None"
| "reconcile_retry V (w # ws) st =
     (case reconcile V w st of
        (Inr _, st') \<Rightarrow> Some st'
      | (Inl _, st') \<Rightarrow> reconcile_retry V ws (st'\<lparr> df_processor_ready := False \<rparr>))"

definition record_listener ::
  "('net::linorder, 're, 'j) defense_env \<Rightarrow> world \<Rightarrow> bool list \<Rightarrow> world list \<Rightarrow> string \<Rightarrow> ip_addr \<Rightarrow>
     ('net, 're) defense \<Rightarrow> (unit result \<times> ('net, 're) defense) option" where
  "record_listener V w commits ws policy_name address st =
     (case listener_target V w policy_name address st of
        Inl e \<Rightarrow> Some (Inl e, st)
      | Inr None \<Rightarrow> Some (Inr (), st)
      | Inr (Some (p, network)) \<Rightarrow>
          (case bump_sequence (policy_source p) (df_sequences st) of (sequence, sequences) \<Rightarrow>
           (let st1 = st\<lparr> df_sequences := sequences \<rparr> in
            case persist_retry (de_store V) (w_draw w) (listener_event V w st policy_name p network sequence)
                   commits (df_store st) of
              None \<Rightarrow> None
            | Some (created, d) \<Rightarrow>
                (let st2 = st1\<lparr> df_store := d, df_processor_ready := True \<rparr> in
                 if created = [] then Some (Inr (), st2)
                 else case announce V w created st2 of
                        (Inl e, st3) \<Rightarrow> Some (Inl e, st3)
                      | (Inr _, st3) \<Rightarrow>
                          map_option (\<lambda>st4. (Inr (), st4\<lparr> df_processor_ready := True \<rparr>))
                            (reconcile_retry V ws st3)))))"

section \<open>The defense loop\<close>

text \<open>The receiving end of the record channel and the loop around it. \<open>loop_result\<close> is set when
  the loop has returned.\<close>

record ('net, 're) loop =
  loop_defense :: "('net, 're) defense"
  loop_queue :: "source_record list"
  loop_closed :: bool
  loop_result :: "unit result option"

datatype loop_event = Sent source_record | Cancelled | Batch "source_record list" | Tick | Returned

abbreviation set_ready :: "bool \<Rightarrow> ('net, 're) defense \<Rightarrow> ('net, 're) defense" where
  "set_ready b st \<equiv> st\<lparr> df_processor_ready := b \<rparr>"

text \<open>What a finished piece of work makes of the loop: it goes on, or returns the error.\<close>

definition loop_after :: "unit result \<times> ('net, 're) defense \<Rightarrow> bool \<Rightarrow> ('net, 're) loop \<Rightarrow> ('net, 're) loop" where
  "loop_after outcome ready l =
     (case outcome of
        (Inr _, st) \<Rightarrow> l\<lparr> loop_defense := set_ready ready st \<rparr>
      | (Inl e, st) \<Rightarrow> l\<lparr> loop_defense := set_ready False st, loop_result := Some (Inl e) \<rparr>)"

inductive loop_step ::
  "('net::linorder, 're, 'j) defense_env \<Rightarrow> ('net, 're) loop \<Rightarrow> loop_event \<Rightarrow> ('net, 're) loop \<Rightarrow> bool" for V where
  send: "\<not> loop_closed l \<Longrightarrow> length (loop_queue l) < RECORD_QUEUE \<Longrightarrow>
     loop_step V l (Sent rec) (l\<lparr> loop_queue := loop_queue l @ [rec] \<rparr>)"
| cancel: "loop_result l = None \<Longrightarrow> \<not> loop_closed l \<Longrightarrow>
     loop_step V l Cancelled (l\<lparr> loop_closed := True, loop_defense := set_ready False (loop_defense l) \<rparr>)"
| batch: "loop_result l = None \<Longrightarrow> loop_queue l \<noteq> [] \<Longrightarrow> batch = take RECORD_BATCH (loop_queue l) \<Longrightarrow>
     loop_step V l (Batch batch)
       (loop_after (process_records V w batch (loop_defense l)) (\<not> loop_closed l)
          (l\<lparr> loop_queue := drop RECORD_BATCH (loop_queue l) \<rparr>))"
| tick: "loop_result l = None \<Longrightarrow> \<not> loop_closed l \<Longrightarrow>
     loop_step V l Tick (loop_after (expire_and_reconcile V w (loop_defense l)) True l)"
| drained: "loop_result l = None \<Longrightarrow> loop_closed l \<Longrightarrow> loop_queue l = [] \<Longrightarrow>
     loop_step V l Returned (l\<lparr> loop_result := Some (Inr ()) \<rparr>)"

inductive loop_run ::
  "('net::linorder, 're, 'j) defense_env \<Rightarrow> ('net, 're) loop \<Rightarrow> loop_event list \<Rightarrow> ('net, 're) loop \<Rightarrow> bool" for V where
  start: "loop_run V l [] l"
| more: "loop_run V l evs l' \<Longrightarrow> loop_step V l' ev l'' \<Longrightarrow> loop_run V l (evs @ [ev]) l''"

inductive_cases loop_step_cases: "loop_step V l ev l'"

end
