(* ===== verification/Store_Invariant.thy ===== *)
theory Store_Invariant
  imports Store_Model
begin

text \<open>
  The invariant of the store and that every operation keeps it: primary keys are unique, every
  offense belongs to a recorded event, lease ids ascend, every lease row decodes, and the
  automatic bans of one policy on one network never overlap in time. The last section collects
  the operations into one step function and lifts the invariant to every reachable database.
\<close>

section \<open>The invariant\<close>

definition keys_ok :: "db \<Rightarrow> bool" where
  "keys_ok d \<longleftrightarrow>
     distinct (map (\<lambda>r. (ev_source r, ev_id r)) (events d)) \<and>
     distinct (map (\<lambda>r. (of_source r, of_event_id r, of_policy r)) (offenses d)) \<and>
     (\<forall>r \<in> set (offenses d). \<exists>e \<in> set (events d). ev_source e = of_source r \<and> ev_id e = of_event_id r) \<and>
     distinct (map cp_source (checkpoints d))"

definition apply_states :: "string set" where
  "apply_states = {''pending'', ''applied'', ''observed'', ''failed''}"

definition lease_row_ok :: "'net store_env \<Rightarrow> lease_row \<Rightarrow> bool" where
  "lease_row_ok E r \<longleftrightarrow>
     0 \<le> lr_created_at r \<and> (\<forall>e. lr_expires_at r = Some e \<longrightarrow> 0 \<le> e) \<and> 0 \<le> lr_escalation_count r \<and>
     lr_apply_state r \<in> apply_states \<and>
     lr_network r \<in> range (net_show (se_net E)) \<and> lr_action r \<in> range (action_json E)"

definition lease_open :: "lease_row \<Rightarrow> bool" where
  "lease_open r \<longleftrightarrow> lr_revoked_at r = None \<and> lr_expired_at r = None"

text \<open>The earlier of two automatic bans of a policy on a network ended before the later began.\<close>

definition succeeds :: "lease_row \<Rightarrow> lease_row \<Rightarrow> bool" where
  "succeeds r r' \<longleftrightarrow>
     (\<not> lr_manual r \<and> \<not> lr_manual r' \<and> lr_policy r = lr_policy r' \<and> lr_network r = lr_network r' \<and>
      lease_open r \<and> lease_open r' \<longrightarrow> (\<exists>e. lr_expires_at r = Some e \<and> e \<le> lr_created_at r'))"

definition leases_ok :: "'net store_env \<Rightarrow> lease_row list \<Rightarrow> bool" where
  "leases_ok E rows \<longleftrightarrow>
     sorted_wrt (\<lambda>r r'. lr_id r < lr_id r' \<and> succeeds r r') rows \<and> (\<forall>r \<in> set rows. lease_row_ok E r)"

definition db_ok :: "'net store_env \<Rightarrow> db \<Rightarrow> bool" where
  "db_ok E d \<longleftrightarrow> keys_ok d \<and> leases_ok E (leases d)"

lemma db_ok_create_schema: "db_ok E create_schema"
  by (simp add: db_ok_def keys_ok_def leases_ok_def create_schema_def)

section \<open>Lease rows under update, deletion and insertion\<close>

lemma next_rowid_greater:
  assumes "r \<in> set rows"
  shows "lr_id r < next_rowid rows"
  using fold_max_member [of "lr_id r" "map lr_id rows" 0] assms by (simp add: next_rowid_def)

text \<open>An update that changes only the revocation, expiry mark, apply state and error, and never
  reopens a lease.\<close>

definition lease_update :: "(lease_row \<Rightarrow> lease_row) \<Rightarrow> bool" where
  "lease_update f \<longleftrightarrow> (\<forall>r. lr_id (f r) = lr_id r \<and> lr_network (f r) = lr_network r \<and>
     lr_policy (f r) = lr_policy r \<and> lr_action (f r) = lr_action r \<and>
     lr_created_at (f r) = lr_created_at r \<and> lr_expires_at (f r) = lr_expires_at r \<and>
     lr_escalation_count (f r) = lr_escalation_count r \<and> lr_manual (f r) = lr_manual r \<and>
     (lease_open (f r) \<longrightarrow> lease_open r) \<and>
     (lr_apply_state (f r) = lr_apply_state r \<or> lr_apply_state (f r) \<in> apply_states))"

lemma leases_ok_map:
  assumes "leases_ok E rows" "lease_update f"
  shows "leases_ok E (map f rows)"
proof -
  have "succeeds r r' \<Longrightarrow> succeeds (f r) (f r')" for r r'
    using assms(2) by (auto simp: succeeds_def lease_update_def)
  moreover have "lr_id (f r) = lr_id r" for r
    using assms(2) by (simp add: lease_update_def)
  ultimately have "sorted_wrt (\<lambda>r r'. lr_id (f r) < lr_id (f r') \<and> succeeds (f r) (f r')) rows"
    using assms(1) sorted_wrt_mono_rel [of rows "\<lambda>r r'. lr_id r < lr_id r' \<and> succeeds r r'"]
    by (simp add: leases_ok_def)
  moreover have "lease_row_ok E r \<Longrightarrow> lease_row_ok E (f r)" for r
    using assms(2) [unfolded lease_update_def, rule_format, of r] by (auto simp: lease_row_ok_def)
  ultimately show ?thesis
    using assms(1) by (auto simp: leases_ok_def sorted_wrt_map)
qed

lemma leases_ok_filter: "leases_ok E rows \<Longrightarrow> leases_ok E (filter P rows)"
  by (auto simp: leases_ok_def sorted_wrt_filter)

lemma leases_ok_append:
  assumes "leases_ok E rows" "lease_row_ok E row" "lr_id row = next_rowid rows"
    "\<forall>r \<in> set rows. succeeds r row"
  shows "leases_ok E (rows @ [row])"
  using assms next_rowid_greater by (auto simp: leases_ok_def sorted_wrt_append)

lemma update_leases_ok:
  assumes "db_ok E d" "lease_update f"
  shows "db_ok E (snd (update_leases P f d))"
proof -
  have "lease_update (\<lambda>r. if P r then f r else r)"
    using assms(2) by (simp add: lease_update_def)
  with assms(1) show ?thesis
    by (simp add: db_ok_def update_leases_def keys_ok_def leases_ok_map)
qed

lemma lease_update_columns [simp]:
  "lease_update (\<lambda>r. r\<lparr> lr_expired_at := Some t \<rparr>)"
  "lease_update (\<lambda>r. r\<lparr> lr_revoked_at := Some t \<rparr>)"
  "s \<in> apply_states \<Longrightarrow> lease_update (\<lambda>r. r\<lparr> lr_apply_state := s, lr_apply_error := e \<rparr>)"
  by (simp_all add: lease_update_def lease_open_def)

lemma sql_time_Inr_iff [result_simps]: "sql_time v = Inr t \<longleftrightarrow> v \<le> i64_max \<and> t = int v"
  by (auto simp: sql_time_def)

lemma rust_time_Inr_iff [result_simps]: "rust_time v = Inr t \<longleftrightarrow> 0 \<le> v \<and> t = nat v"
  by (auto simp: rust_time_def)

lemma transpose_sql_time:
  "transpose_option (map_option sql_time x) = Inr y \<longleftrightarrow>
     (case x of None \<Rightarrow> y = None | Some v \<Rightarrow> v \<le> i64_max \<and> y = Some (int v))"
  by (cases x) (auto simp: result_simps)

text \<open>When an insertion succeeds and what it adds.\<close>

lemma insert_lease_Inr_iff:
  "insert_lease E nl d = Inr (i, d') \<longleftrightarrow>
     nl_created_at nl \<le> i64_max \<and> pred_option (\<lambda>e. e \<le> i64_max) (nl_expires_at nl) \<and>
     nl_escalation_count nl \<le> i64_max \<and> i = next_rowid (leases d) \<and>
     d' = d\<lparr> leases := leases d @ [lease_record E nl i (int (nl_created_at nl))
       (map_option int (nl_expires_at nl)) (int (nl_escalation_count nl))] \<rparr>"
  by (cases "nl_expires_at nl") (auto simp: insert_lease_def result_simps Let_def)

lemma insert_lease_ok:
  assumes "db_ok E d" "insert_lease E nl d = Inr (i, d')"
    "nl_manual nl \<or> (\<forall>r \<in> set (leases d). \<not> lr_manual r \<and> lr_policy r = nl_policy nl \<and>
       lr_network r = net_show (se_net E) (nl_network nl) \<and> lease_open r \<longrightarrow>
       (\<exists>e. lr_expires_at r = Some e \<and> e \<le> int (nl_created_at nl)))"
  shows "db_ok E d'"
proof -
  let ?row = "lease_record E nl (next_rowid (leases d)) (int (nl_created_at nl))
    (map_option int (nl_expires_at nl)) (int (nl_escalation_count nl))"
  have "lease_row_ok E ?row"
    by (auto simp: lease_row_ok_def lease_record_def apply_states_def)
  moreover have "\<forall>r \<in> set (leases d). succeeds r ?row"
    using assms(3) by (auto simp: succeeds_def lease_record_def)
  moreover have "lr_id ?row = next_rowid (leases d)" by (simp add: lease_record_def)
  ultimately show ?thesis
    using assms(1,2) by (auto simp: db_ok_def keys_ok_def insert_lease_Inr_iff leases_ok_append)
qed

section \<open>Every operation keeps the invariant\<close>

lemma consume_ok: "db_ok E d \<Longrightarrow> db_ok E (consume P d)"
  by (simp add: db_ok_def keys_ok_def consume_def comp_def if_distrib [of of_source]
      if_distrib [of of_event_id] if_distrib [of of_policy] cong: if_cong) auto

lemma upsert_checkpoint_ok:
  assumes "db_ok E d" "upsert_checkpoint E src eid cp t d = Inr d'"
  shows "db_ok E d'"
proof -
  have "map cp_source (map (\<lambda>r. if cp_source r = src then row else r) rows) = map cp_source rows"
    if "cp_source row = src" for row :: checkpoint_row and rows
    using that by auto
  with assms show ?thesis
    by (auto simp: upsert_checkpoint_def result_simps Let_def db_ok_def keys_ok_def
        simp del: map_map)
qed

lemma insert_offense_ok:
  assumes "db_ok E d" "insert_offense row d = Inr d'"
    "\<exists>e \<in> set (events d). ev_source e = of_source row \<and> ev_id e = of_event_id row"
  shows "db_ok E d' \<and> events d' = events d"
proof -
  let ?key = "\<lambda>r. (of_source r, of_event_id r, of_policy r)"
  from assms(2) have d': "d' = d\<lparr> offenses := offenses d @ [row] \<rparr>"
    and fresh: "?key row \<notin> set (map ?key (offenses d))"
    by (auto simp: insert_offense_def list_ex_iff split: if_splits)
  from fresh have "distinct (map ?key (offenses d @ [row]))" if "distinct (map ?key (offenses d))"
    using that by simp
  with d' assms(1,3) show ?thesis
    unfolding db_ok_def keys_ok_def by (simp del: map_append distinct_map)
qed

definition ban_active :: "'net store_env \<Rightarrow> 'net offense_input \<Rightarrow> u64 \<Rightarrow> db \<Rightarrow> bool" where
  "ban_active E off t d \<longleftrightarrow>
     (\<exists>r \<in> set (leases d). lr_policy r = oi_policy off \<and>
        lr_network r = net_show (se_net E) (oi_network off) \<and> lease_live (int t) r)"

lemma has_active_lease_eq:
  "t \<le> i64_max \<Longrightarrow> has_active_lease E (oi_policy off) (oi_network off) t d = Inr (ban_active E off t d)"
  by (auto simp: has_active_lease_def sql_time_def ban_active_def list_ex_iff)

lemma ban_inactive:
  assumes "\<not> ban_active E off t d" "r \<in> set (leases d)"
    "lr_policy r = oi_policy off" "lr_network r = net_show (se_net E) (oi_network off)" "lease_open r"
  shows "\<exists>e. lr_expires_at r = Some e \<and> e \<le> int t"
  using assms by (force simp: ban_active_def lease_live_def lease_open_def split: option.splits)

lemma grant_lease_Inr:
  assumes "grant_lease E draw off observed_at ws at d = Inr (l, d')"
  shows "\<exists>count i d1. insert_lease E (ban_row off observed_at count
        (ban_expiry off observed_at count (draw (next_rowid (leases d))))) d = Inr (i, d1) \<and>
      escalation_count E (oi_policy off) (oi_network off) (overall (oi_ban off))
        (observed_at - oi_history_retention_secs off) d = Inr count \<and>
      l = new_lease (ban_row off observed_at count
        (ban_expiry off observed_at count (draw (next_rowid (leases d))))) i \<and>
      d' = consume (in_window (oi_policy off) (net_show (se_net E) (oi_network off)) ws at (oi_group_key off)) d1"
  using assms by (auto simp: grant_lease_def result_simps Let_def)

lemma grant_lease_ok:
  assumes "db_ok E d" "grant_lease E draw off t ws at d = Inr (l, d')" "\<not> ban_active E off t d"
  shows "db_ok E d' \<and> events d' = events d"
proof -
  obtain nl i d1 P where ins: "insert_lease E nl d = Inr (i, d1)" "d' = consume P d1"
    "nl_policy nl = oi_policy off" "nl_network nl = oi_network off" "nl_created_at nl = t"
    using grant_lease_Inr [OF assms(2)] by (auto simp: ban_row_def)
  have "db_ok E d1"
    using assms(1) ins(1)
    by (rule insert_lease_ok) (use ban_inactive [OF assms(3)] ins in auto)
  moreover have "events d1 = events d" using ins(1) by (auto simp: insert_lease_Inr_iff)
  ultimately show ?thesis
    using ins(2) consume_ok [of E d1 P] by (simp add: consume_def)
qed

text \<open>What applying one offense does, on each of its branches.\<close>

lemma apply_offense_Inr_iff:
  "apply_offense E draw inp off d = Inr (out, d') \<longleftrightarrow>
     offense_time inp off \<le> i64_max \<and>
     (\<exists>d1. insert_offense (offense_record E inp off (int (offense_time inp off))) d = Inr d1 \<and>
       (if ban_active E off (offense_time inp off) d1
        then out = None \<and> d' = consume (\<lambda>r. of_source r = ei_source inp \<and>
               of_event_id r = ei_event_id inp \<and> of_policy r = oi_policy off) d1
        else if window_attempts E off (int (offense_time inp off - oi_findtime_secs off))
                  (int (offense_time inp off)) d1 < oi_max_attempts off
        then out = None \<and> d' = d1
        else \<exists>l. out = Some l \<and> grant_lease E draw off (offense_time inp off)
               (int (offense_time inp off - oi_findtime_secs off)) (int (offense_time inp off)) d1
               = Inr (l, d')))"
proof (cases "offense_time inp off \<le> i64_max")
  case False
  then show ?thesis by (simp add: apply_offense_def sql_time_def)
next
  case True
  then have "sql_time (offense_time inp off - oi_findtime_secs off) = Inr (int (offense_time inp off - oi_findtime_secs off))"
    by (simp add: sql_time_def)
  with True show ?thesis
    by (cases "insert_offense (offense_record E inp off (int (offense_time inp off))) d")
      (auto simp: apply_offense_def Let_def sql_time_def has_active_lease_eq rbind_Inr_iff)
qed

lemma apply_offense_ok:
  assumes "db_ok E d" "apply_offense E draw inp off d = Inr (out, d')"
    "\<exists>e \<in> set (events d). ev_source e = ei_source inp \<and> ev_id e = ei_event_id inp"
  shows "db_ok E d' \<and> events d' = events d"
proof -
  let ?t = "offense_time inp off"
  from assms(2) obtain d1 where d1: "insert_offense (offense_record E inp off (int ?t)) d = Inr d1"
    and rest: "(\<exists>P. d' = consume P d1) \<or> d' = d1 \<or>
      (\<not> ban_active E off ?t d1 \<and> (\<exists>ws l. grant_lease E draw off ?t ws (int ?t) d1 = Inr (l, d')))"
    unfolding apply_offense_Inr_iff by meson
  have ok1: "db_ok E d1 \<and> events d1 = events d"
    using insert_offense_ok [OF assms(1) d1] assms(3) by (simp add: offense_record_def)
  moreover have "events (consume P d1) = events d1" for P by (simp add: consume_def)
  ultimately show ?thesis
    using rest consume_ok grant_lease_ok [of E d1 draw off ?t] by metis
qed

text \<open>The offenses of one event, as a batch: the event row stays in place throughout.\<close>

interpretation offense_batch: fallible_step
  "\<lambda>d. db_ok E d \<and> (\<exists>e \<in> set (events d). ev_source e = ei_source inp \<and> ev_id e = ei_event_id inp)"
  "apply_offense E draw inp" for E draw inp
  by unfold_locales (use apply_offense_ok in metis)

lemma insert_event_ok:
  "db_ok E d \<Longrightarrow> \<not> event_known inp d \<Longrightarrow> db_ok E (insert_event inp t d)"
  by (auto simp: db_ok_def keys_ok_def insert_event_def event_known_def list_ex_iff)

lemma apply_event_ok:
  assumes "db_ok E d" "apply_event E draw inp d = Inr (out, d')"
  shows "db_ok E d'"
proof (cases "event_known inp d")
  case True
  with assms show ?thesis by (auto simp: apply_event_def result_simps)
next
  case False
  with assms(2) obtain t granted d1 where
    batch: "run_batch (apply_offense E draw inp) (ei_offenses inp) (insert_event inp t d) = Inr (granted, d1)"
    and cp: "upsert_checkpoint E (ei_source inp) (ei_event_id inp) (ei_checkpoint inp) (ei_observed_at inp) d1 = Inr d'"
    by (auto simp: apply_event_def result_simps)
  have "db_ok E (insert_event inp t d) \<and>
      (\<exists>e \<in> set (events (insert_event inp t d)). ev_source e = ei_source inp \<and> ev_id e = ei_event_id inp)"
    using insert_event_ok [OF assms(1) False] by (simp add: insert_event_def)
  from offense_batch.batch_keeps [OF this batch] show ?thesis
    using upsert_checkpoint_ok [OF _ cp] by blast
qed

interpretation event_batch: fallible_step "db_ok E" "process_input E draw" for E draw
  by unfold_locales
    (auto simp: process_input_def result_simps split: if_splits intro: upsert_checkpoint_ok apply_event_ok)

lemma transaction_ok:
  "(\<And>x d'. body d = Inr (x, d') \<Longrightarrow> P d') \<Longrightarrow> P d \<Longrightarrow> P (snd (transaction commit body d))"
  by (auto simp: transaction_def split: sum.splits)

lemma db_ok_filter_leases: "db_ok E d \<Longrightarrow> db_ok E (d\<lparr> leases := filter P (leases d) \<rparr>)"
  by (simp add: db_ok_def keys_ok_def leases_ok_filter)

lemma pruned_ok:
  assumes "db_ok E d"
  shows "db_ok E (d\<lparr> offenses := filter P (offenses d),
    events := filter (\<lambda>e. list_ex (\<lambda>r. of_source r = ev_source e \<and> of_event_id r = ev_id e)
      (filter P (offenses d))) (events d) \<rparr>)" (is "db_ok E ?d")
proof -
  have "\<exists>e \<in> set (events ?d). ev_source e = of_source r \<and> ev_id e = of_event_id r"
    if r: "r \<in> set (offenses ?d)" for r
  proof -
    obtain e where "e \<in> set (events d)" "ev_source e = of_source r" "ev_id e = of_event_id r"
      using assms r unfolding db_ok_def keys_ok_def by auto
    moreover from this r have "e \<in> set (events ?d)" by (auto simp: list_ex_iff)
    ultimately show ?thesis by blast
  qed
  with assms show ?thesis
    unfolding db_ok_def keys_ok_def by (simp add: distinct_map_filter)
qed

lemma prune_offenses_ok: "db_ok E d \<Longrightarrow> db_ok E (snd (prune_offenses commit before d))"
  unfolding prune_offenses_def
  by (rule transaction_ok) (auto simp: result_simps Let_def intro: pruned_ok)

lemma manual_block_ok: "db_ok E d \<Longrightarrow> db_ok E (snd (manual_block E commit network act now duration d))"
  unfolding manual_block_def
proof (rule transaction_ok)
  fix x d'
  assume ok: "db_ok E d" and
    body: "rbind (sql_time now) (\<lambda>t.
       let d1 = snd (update_leases
             (\<lambda>r. lr_manual r \<and> lr_network r = net_show (se_net E) network \<and>
                  lr_revoked_at r = None \<and> lr_expired_at r = None)
             (\<lambda>r. r\<lparr> lr_revoked_at := Some t \<rparr>) d);
           nl = \<lparr> nl_network = network, nl_policy = MANUAL_POLICY, nl_action = act, nl_created_at = now,
                  nl_expires_at = map_option (sat_add64 now) duration, nl_escalation_count = 0,
                  nl_manual = True \<rparr>
       in rbind (insert_lease E nl d1) (\<lambda>(row_id, d2). Inr (new_lease nl row_id, d2))) = Inr (x, d')"
  from body obtain nl P f i where "insert_lease E nl (snd (update_leases P f d)) = Inr (i, d')"
    "nl_manual nl" "lease_update f"
    by (auto simp: result_simps Let_def)
  with ok show "db_ok E d'"
    using insert_lease_ok update_leases_ok by blast
qed

interpretation mark_batch: fallible_step "db_ok E" mark_apply_result for E :: "'net store_env"
proof unfold_locales
  fix s :: db and i :: "i64 \<times> apply_outcome" and out :: unit and s'
  assume "db_ok E s" "mark_apply_result i s = Inr (out, s')"
  moreover have "fst (outcome_columns o') \<in> apply_states" for o'
    by (cases o') (auto simp: apply_states_def)
  ultimately show "db_ok E s'"
    using update_leases_ok [of E s "\<lambda>r. r\<lparr> lr_apply_state := fst (outcome_columns (snd i)),
        lr_apply_error := snd (outcome_columns (snd i)) \<rparr>" "\<lambda>r. lr_id r = fst i"]
    by (cases i) (auto simp: mark_apply_result_def split: prod.splits if_splits)
qed

section \<open>The store as a machine\<close>

text \<open>One constructor per operation of \<open>Store\<close> that writes, with the outcome of the commit where
  it runs in a transaction of its own. A failed operation leaves the database as it was.\<close>

datatype 'net store_op =
    OpProcessEvent bool "i64 \<Rightarrow> u64" "'net event_input"
  | OpProcessEvents bool "i64 \<Rightarrow> u64" "'net event_input list"
  | OpExpire u64
  | OpPruneOffenses bool u64
  | OpPruneLeases u64 u64
  | OpBeginReconcile u64
  | OpManualBlock bool 'net action u64 "u64 option"
  | OpManualUnblock 'net u64
  | OpMarkApplyResults bool "(i64 \<times> apply_outcome) list"

definition autocommit :: "(db \<Rightarrow> ('a \<times> db) result) \<Rightarrow> db \<Rightarrow> db" where
  "autocommit f d = (case f d of Inl _ \<Rightarrow> d | Inr (_, d') \<Rightarrow> d')"

fun store_step :: "'net store_env \<Rightarrow> 'net store_op \<Rightarrow> db \<Rightarrow> db" where
  "store_step E (OpProcessEvent commit draw inp) d = snd (process_event E draw commit inp d)"
| "store_step E (OpProcessEvents commit draw inputs) d = snd (process_events E draw commit inputs d)"
| "store_step E (OpExpire now) d = autocommit (expire now) d"
| "store_step E (OpPruneOffenses commit before) d = snd (prune_offenses commit before d)"
| "store_step E (OpPruneLeases before now) d = autocommit (prune_leases before now) d"
| "store_step E (OpBeginReconcile now) d = autocommit (begin_reconcile now) d"
| "store_step E (OpManualBlock commit network act now duration) d =
     snd (manual_block E commit network act now duration d)"
| "store_step E (OpManualUnblock network now) d = autocommit (manual_unblock E network now) d"
| "store_step E (OpMarkApplyResults commit outcomes) d = snd (mark_apply_results commit outcomes d)"

lemma autocommit_ok:
  "(\<And>x d'. f d = Inr (x, d') \<Longrightarrow> P d') \<Longrightarrow> P d \<Longrightarrow> P (autocommit f d)"
  by (auto simp: autocommit_def split: sum.splits)

lemma pending_update: "lease_update (\<lambda>r. r\<lparr> lr_apply_state := ''pending'', lr_apply_error := None \<rparr>)"
  by (simp add: apply_states_def)

lemma autocommit_update_ok:
  assumes "db_ok E d" "\<And>t. lease_update (f t)"
  shows "db_ok E (autocommit (\<lambda>d. rbind (sql_time now) (\<lambda>t. Inr (update_leases (P t) (f t) d))) d)"
proof (cases "sql_time now")
  case (Inl e)
  with assms(1) show ?thesis by (simp add: autocommit_def)
next
  case (Inr t)
  then have "autocommit (\<lambda>d. rbind (sql_time now) (\<lambda>t. Inr (update_leases (P t) (f t) d))) d =
      snd (update_leases (P t) (f t) d)"
    by (simp add: autocommit_def split: prod.split)
  with update_leases_ok [OF assms] show ?thesis by simp
qed

lemma expire_ok: "db_ok E d \<Longrightarrow> db_ok E (autocommit (expire now) d)"
  unfolding expire_def [abs_def] by (rule autocommit_update_ok) simp_all

lemma begin_reconcile_ok: "db_ok E d \<Longrightarrow> db_ok E (autocommit (begin_reconcile now) d)"
  unfolding begin_reconcile_def [abs_def] by (rule autocommit_update_ok) (simp_all add: pending_update)

lemma manual_unblock_ok: "db_ok E d \<Longrightarrow> db_ok E (autocommit (manual_unblock E network now) d)"
  unfolding manual_unblock_def [abs_def] by (rule autocommit_update_ok) simp_all

lemma prune_leases_ok: "db_ok E d \<Longrightarrow> db_ok E (autocommit (prune_leases before now) d)"
  by (rule autocommit_ok) (auto simp: prune_leases_def result_simps Let_def intro: db_ok_filter_leases)

lemma process_event_ok: "db_ok E d \<Longrightarrow> db_ok E (snd (process_event E draw commit inp d))"
  unfolding process_event_def by (rule transaction_ok) (auto intro: apply_event_ok)

lemma process_events_ok: "db_ok E d \<Longrightarrow> db_ok E (snd (process_events E draw commit inputs d))"
  unfolding process_events_def by (rule transaction_ok) (auto dest: event_batch.batch_keeps)

lemma mark_apply_results_ok: "db_ok E d \<Longrightarrow> db_ok E (snd (mark_apply_results commit outcomes d))"
  unfolding mark_apply_results_def by (rule transaction_ok) (auto dest: mark_batch.batch_keeps)

lemmas store_op_ok = process_event_ok process_events_ok expire_ok prune_offenses_ok prune_leases_ok
  begin_reconcile_ok manual_block_ok manual_unblock_ok mark_apply_results_ok

lemma store_step_ok: "db_ok E d \<Longrightarrow> db_ok E (store_step E op d)"
  by (cases op) (simp_all add: store_op_ok)

interpretation store: invariant_machine "db_ok E" "store_step E" for E
  by unfold_locales (rule store_step_ok)

end
