(* ===== verification/Store_Theorems.thy ===== *)
theory Store_Theorems
  imports Store_Invariant "HOL-Library.Countable"
begin

text \<open>
  What the store promises: reachable databases are well formed, bans of one policy on one
  network never overlap, a batch of events is all or nothing and idempotent under replay,
  leases are granted exactly at the threshold, maintenance never changes the active leases,
  manual blocks and unblocks take effect, and listener sequence numbers are never reused.
\<close>

section \<open>A concrete environment for the witnesses\<close>

instance transport_protocol :: countable by countable_datatype
instance action :: countable by countable_datatype
instance checkpoint :: countable by countable_datatype

definition ex_env :: "cidr store_env" where
  "ex_env = \<lparr> se_net = cidr,
     action_json = (\<lambda>a. show_nat (to_nat a)), action_of_json = (\<lambda>s. Some (from_nat (digits_value s))),
     checkpoint_json = (\<lambda>c. show_nat (to_nat c)),
     checkpoint_of_json = (\<lambda>s. Some (from_nat (digits_value s))) \<rparr>"

lemma ex_env_codec: "codec_ok ex_env"
  by (simp add: codec_ok_def ex_env_def cidr_text)

lemma ex_env_net [simp]: "se_net ex_env = cidr"
  by (simp add: ex_env_def)

definition ex_schedule :: ban_schedule where
  "ex_schedule = \<lparr> duration_secs = Some 600, factor = 1, multipliers = [], jitter_secs = 0,
     max_duration_secs = 86400, overall = True \<rparr>"

definition ex_net :: cidr where "ex_net = (V4 3221225985, 32)"

definition ex_offense :: "u32 \<Rightarrow> cidr offense_input" where
  "ex_offense attempts = \<lparr> oi_policy = ''ssh'', oi_network = ex_net, oi_max_attempts = attempts,
     oi_findtime_secs = 600, oi_history_retention_secs = 86400, oi_ban = ex_schedule,
     oi_action = DropAll, oi_observed_at = None, oi_attempt_key = None, oi_group_key = None \<rparr>"

definition ex_event :: "string \<Rightarrow> u64 \<Rightarrow> cidr event_input" where
  "ex_event eid t = \<lparr> ei_source = ''auth'', ei_event_id = eid, ei_checkpoint = ListenerCheckpoint t,
     ei_observed_at = t, ei_offenses = [ex_offense 1] \<rparr>"

lemmas ex_store_defs = ex_offense_def ex_event_def ex_schedule_def

text \<open>One offense at time 1000 against a threshold of one: a lease until 1600.\<close>

definition ex_row :: lease_row where
  "ex_row = \<lparr> lr_id = 1, lr_network = cidr_show ex_net, lr_policy = ''ssh'',
     lr_action = action_json ex_env DropAll, lr_created_at = 1000, lr_expires_at = Some 1600,
     lr_escalation_count = 0, lr_manual = False, lr_revoked_at = None, lr_expired_at = None,
     lr_apply_state = ''pending'', lr_apply_error = None \<rparr>"

definition ex_db :: db where
  "ex_db = store_step ex_env (OpProcessEvent True (\<lambda>_. 0) (ex_event ''e1'' 1000)) create_schema"

definition ex_lease :: "cidr lease" where
  "ex_lease = \<lparr> lease_id = 1, lease_network = ex_net, lease_policy = ''ssh'', lease_action = DropAll,
     lease_created_at = 1000, lease_expires_at = Some 1600, lease_escalation_count = 0,
     lease_manual = False, lease_apply_state = ''pending'', lease_last_error = None \<rparr>"

lemma ex_apply_offense:
  "apply_offense ex_env (\<lambda>_. 0) (ex_event ''e1'' 1000) (ex_offense 1)
     (insert_event (ex_event ''e1'' 1000) 1000 create_schema) =
   Inr (Some ex_lease,
     (insert_event (ex_event ''e1'' 1000) 1000 create_schema)\<lparr>
       offenses := [(offense_record ex_env (ex_event ''e1'' 1000) (ex_offense 1) 1000)\<lparr> of_consumed := True \<rparr>],
       leases := [ex_row] \<rparr>)"
  by (simp add: ex_store_defs apply_offense_def offense_time_def sql_time_def insert_offense_def
      insert_event_def create_schema_def has_active_lease_def window_attempts_def in_window_def
      offense_record_def count_distinct_attempts_def map_filter_simps grant_lease_def
      escalation_count_def rust_time_def ban_expiry_def ban_duration_def ban_row_def
      sat_mul64_def sat_add64_def sat_pow2_def insert_lease_def next_rowid_def lease_record_def
      consume_def new_lease_def ex_row_def ex_lease_def width_simps Let_def)

lemma ex_db_leases: "leases ex_db = [ex_row]" "events ex_db = [\<lparr> ev_source = ''auth'', ev_id = ''e1'', ev_observed_at = 1000 \<rparr>]"
  using ex_apply_offense
  by (simp_all add: ex_db_def process_event_def transaction_def apply_event_def sql_time_def width_simps
      event_known_def create_schema_def upsert_checkpoint_def insert_event_def Let_def
      ex_event_def [of "''e1''" 1000])

section \<open>Reachable databases\<close>

lemma reachable_ok: "db_ok E (fold (store_step E) ops create_schema)"
  by (rule store.run_inv) (rule db_ok_create_schema)

text \<open>C6. Every database the store can reach from a fresh schema, by any sequence of its
  operations with any commit failures among them, is well formed: unique primary keys, every
  offense with its event, ascending lease ids, decodable lease rows in a legal apply state, and
  bans of one policy on one network that follow one another in time.\<close>

theorem reachable_db_ok: "db_ok E (fold (store_step E) ops create_schema)"
  by (rule reachable_ok)

lemma leases_ok_distinct_pair:
  assumes "leases_ok E rows" "r \<in> set rows" "r' \<in> set rows" "r \<noteq> r'"
  shows "succeeds r r' \<or> succeeds r' r"
proof -
  obtain i j where "i < length rows" "r = rows ! i" "j < length rows" "r' = rows ! j"
    using assms(2,3) by (metis in_set_conv_nth)
  moreover have "i < j \<or> j < i" using assms(4) calculation by (metis linorder_neqE_nat)
  ultimately show ?thesis
    using assms(1) unfolding leases_ok_def sorted_wrt_iff_nth_less by blast
qed

text \<open>C1. At most one automatic ban of a policy on a network is in force at any moment, in
  every reachable database: two leases that have begun by time \<open>t\<close> and are live at \<open>t\<close> are the
  same row. A repeat offender is therefore never banned twice over, even when detector
  timestamps arrive out of order.\<close>

theorem one_ban_in_force:
  assumes "d = fold (store_step E) ops create_schema"
    and "r \<in> set (leases d)" "r' \<in> set (leases d)"
    and "\<not> lr_manual r" "\<not> lr_manual r'" "lr_policy r = lr_policy r'" "lr_network r = lr_network r'"
    and "lease_live t r" "lease_live t r'" "lr_created_at r \<le> t" "lr_created_at r' \<le> t"
  shows "r = r'"
proof (rule ccontr)
  assume "r \<noteq> r'"
  have "leases_ok E (leases d)"
    using reachable_ok [of E ops] assms(1) by (simp add: db_ok_def)
  then have "succeeds r r' \<or> succeeds r' r"
    using assms(2,3) \<open>r \<noteq> r'\<close> by (rule leases_ok_distinct_pair)
  with assms(4-11) show False
    by (auto simp: succeeds_def lease_live_def lease_open_def)
qed

lemma lease_row_decodes:
  assumes "codec_ok E" "lease_row_ok E r"
  shows "\<exists>l. decode_lease E r = Inr l"
proof -
  obtain n a where "lr_network r = net_show (se_net E) n" "lr_action r = action_json E a"
    using assms(2) by (auto simp: lease_row_ok_def)
  with assms show ?thesis
    by (cases "lr_expires_at r")
      (auto simp: decode_lease_def codec_ok_def net_text_def lease_row_ok_def rust_time_def)
qed

lemma active_leases_decode:
  assumes "codec_ok E" "now \<le> i64_max" "db_ok E d"
  shows "\<exists>ls. active_leases E now d = Inr ls"
proof -
  have "\<exists>l. decode_lease E r = Inr l" if "r \<in> set (leases d)" for r
    using lease_row_decodes [OF assms(1)] assms(3) that by (simp add: db_ok_def leases_ok_def)
  then obtain g where "\<And>r. r \<in> set (leases d) \<Longrightarrow> decode_lease E r = Inr (g r)" by metis
  then have "collect_results (decode_lease E) (filter (lease_live (int now)) (leases d)) =
      Inr (map g (filter (lease_live (int now)) (leases d)))"
    by (intro collect_results_map) auto
  with assms(2) show ?thesis by (auto simp: active_leases_def sql_time_def)
qed

text \<open>The active leases can always be read back: in a reachable database no stored row
  fails to decode, whatever mixture of operations and failures produced it.\<close>

theorem active_leases_total:
  assumes "codec_ok E" "now \<le> i64_max"
  shows "\<exists>ls. active_leases E now (fold (store_step E) ops create_schema) = Inr ls"
  using active_leases_decode [OF assms reachable_ok] .

section \<open>Batches of events\<close>

definition offense_keys :: "db \<Rightarrow> (string \<times> string \<times> string) set" where
  "offense_keys d = (\<lambda>r. (of_source r, of_event_id r, of_policy r)) ` set (offenses d)"

definition event_keys :: "db \<Rightarrow> (string \<times> string) set" where
  "event_keys d = (\<lambda>r. (ev_source r, ev_id r)) ` set (events d)"

abbreviation event_recorded :: "'net event_input \<Rightarrow> db \<Rightarrow> bool" where
  "event_recorded inp d \<equiv> (ei_source inp, ei_event_id inp) \<in> event_keys d"

abbreviation offense_recorded :: "'net event_input \<Rightarrow> 'net offense_input \<Rightarrow> db \<Rightarrow> bool" where
  "offense_recorded inp off d \<equiv> (ei_source inp, ei_event_id inp, oi_policy off) \<in> offense_keys d"

text \<open>What a step may only add to: recorded offenses and events stay recorded.\<close>

definition extends :: "db \<Rightarrow> db \<Rightarrow> bool" where
  "extends d d' \<longleftrightarrow> offense_keys d \<subseteq> offense_keys d' \<and> event_keys d \<subseteq> event_keys d'"

lemma extends_refl [simp]: "extends d d"
  by (simp add: extends_def)

lemma extends_trans: "extends d d' \<Longrightarrow> extends d' d'' \<Longrightarrow> extends d d''"
  unfolding extends_def by (meson order_trans)

lemma extends_recorded:
  "extends d d' \<Longrightarrow> k \<in> offense_keys d \<Longrightarrow> k \<in> offense_keys d'"
  "extends d d' \<Longrightarrow> k' \<in> event_keys d \<Longrightarrow> k' \<in> event_keys d'"
  by (auto simp: extends_def)

lemma extends_same: "offenses d' = offenses d \<Longrightarrow> events d' = events d \<Longrightarrow> extends d d'"
  by (simp add: extends_def offense_keys_def event_keys_def)

lemma consume_extends [simp]: "extends d (consume P d)"
proof -
  have "map (\<lambda>r. (of_source r, of_event_id r, of_policy r)) (offenses (consume P d)) =
      map (\<lambda>r. (of_source r, of_event_id r, of_policy r)) (offenses d)"
    by (simp add: consume_def)
  then have "offense_keys (consume P d) = offense_keys d"
    by (simp only: offense_keys_def set_map [symmetric])
  moreover have "event_keys (consume P d) = event_keys d"
    by (simp add: event_keys_def consume_def)
  ultimately show ?thesis by (simp add: extends_def)
qed

lemma insert_lease_extends: "insert_lease E nl d = Inr (i, d') \<Longrightarrow> extends d d'"
  by (auto simp: insert_lease_Inr_iff intro: extends_same)

lemma grant_lease_extends:
  assumes "grant_lease E draw off t ws at d = Inr (l, d')"
  shows "extends d d'"
proof -
  obtain nl i d1 P where "insert_lease E nl d = Inr (i, d1)" "d' = consume P d1"
    using grant_lease_Inr [OF assms] by blast
  then show ?thesis using insert_lease_extends extends_trans consume_extends by blast
qed

lemma apply_offense_extends:
  assumes "apply_offense E draw inp off d = Inr (out, d')"
  shows "extends d d' \<and> offense_recorded inp off d'"
proof -
  from assms obtain d1 where d1: "insert_offense (offense_record E inp off (int (offense_time inp off))) d = Inr d1"
    and rest: "(\<exists>P. d' = consume P d1) \<or> d' = d1 \<or> (\<exists>t ws at l. grant_lease E draw off t ws at d1 = Inr (l, d'))"
    unfolding apply_offense_Inr_iff by meson
  have "extends d1 d'" using rest grant_lease_extends by auto
  moreover have "extends d d1" "offense_recorded inp off d1"
    using d1 by (auto simp: insert_offense_def extends_def offense_keys_def event_keys_def offense_record_def split: if_splits)
  ultimately show ?thesis using extends_trans extends_recorded by blast
qed

lemma offenses_batch_extends:
  "run_batch (apply_offense E draw inp) offs d = Inr (outs, d') \<Longrightarrow>
     extends d d' \<and> (\<forall>off \<in> set offs. offense_recorded inp off d')"
proof (induction offs arbitrary: d outs)
  case Nil
  then show ?case by simp
next
  case (Cons off offs)
  then obtain out d1 outs' where "apply_offense E draw inp off d = Inr (out, d1)"
    "run_batch (apply_offense E draw inp) offs d1 = Inr (outs', d')"
    by (auto simp only: run_batch_Cons_Inr)
  with Cons.IH [of d1 outs'] apply_offense_extends [of E draw inp off d out d1] show ?case
    using extends_trans extends_recorded by auto
qed

lemma upsert_checkpoint_extends: "upsert_checkpoint E src eid cp t d = Inr d' \<Longrightarrow> extends d d'"
  by (auto simp: upsert_checkpoint_def result_simps Let_def intro: extends_same)

lemma apply_event_records:
  assumes "apply_event E draw inp d = Inr (out, d')"
  shows "extends d d' \<and> event_recorded inp d' \<and>
    (\<not> duplicate out \<longrightarrow>
       (\<forall>off \<in> set (ei_offenses inp). offense_recorded inp off d'))"
proof (cases "event_known inp d")
  case True
  with assms show ?thesis
    by (auto simp: apply_event_def result_simps event_known_def list_ex_iff event_keys_def intro!: image_eqI)
next
  case False
  with assms obtain t granted d1 where
    batch: "run_batch (apply_offense E draw inp) (ei_offenses inp) (insert_event inp t d) = Inr (granted, d1)"
    and cp: "extends d1 d'"
    by (auto simp: apply_event_def result_simps dest: upsert_checkpoint_extends)
  have "extends d (insert_event inp t d)"
    "event_recorded inp (insert_event inp t d)"
    by (auto simp: extends_def insert_event_def event_keys_def offense_keys_def)
  with offenses_batch_extends [OF batch] cp show ?thesis
    using extends_trans extends_recorded by blast
qed

lemma process_input_records:
  assumes "process_input E draw inp d = Inr (out, d')"
  shows "extends d d' \<and> (ei_offenses inp \<noteq> [] \<longrightarrow> event_recorded inp d') \<and>
    (\<not> duplicate out \<longrightarrow>
       (\<forall>off \<in> set (ei_offenses inp). offense_recorded inp off d'))"
  using assms apply_event_records [of E draw inp d out d'] upsert_checkpoint_extends
  by (auto simp: process_input_def result_simps split: if_splits)

lemma process_batch_records:
  "run_batch (process_input E draw) inputs d = Inr (outs, d') \<Longrightarrow>
     extends d d' \<and>
     (\<forall>(inp, out) \<in> set (zip inputs outs).
        (ei_offenses inp \<noteq> [] \<longrightarrow> event_recorded inp d') \<and>
        (\<not> duplicate out \<longrightarrow> (\<forall>off \<in> set (ei_offenses inp).
           offense_recorded inp off d')))"
proof (induction inputs arbitrary: d outs)
  case Nil
  then show ?case by simp
next
  case (Cons inp inputs)
  then obtain out d1 outs' where "process_input E draw inp d = Inr (out, d1)"
    "run_batch (process_input E draw) inputs d1 = Inr (outs', d')" "outs = out # outs'"
    by (auto simp only: run_batch_Cons_Inr)
  note step = process_input_records [OF this(1)] and rest = Cons.IH [OF this(2)] and outs = this(3)
  have "extends d1 d'" using rest by blast
  then have "(ei_offenses inp \<noteq> [] \<longrightarrow> event_recorded inp d') \<and>
      (\<not> duplicate out \<longrightarrow> (\<forall>off \<in> set (ei_offenses inp). offense_recorded inp off d'))"
    using step extends_recorded by blast
  moreover have "extends d d'" using step \<open>extends d1 d'\<close> extends_trans by blast
  ultimately show ?case using rest outs by simp
qed


text \<open>Replaying an event is harmless. Once an event has been processed, processing it again,
  with any jitter, reports a duplicate, grants no lease and changes nothing, so a source may
  re-deliver after a crash.\<close>

theorem replay_is_duplicate:
  assumes "process_event E draw commit inp d = (Inr out, d')"
  shows "process_event E draw' True inp d' = (Inr \<lparr> duplicate = True, outcome_leases = [] \<rparr>, d')"
proof -
  from assms have ok: "apply_event E draw inp d = Inr (out, d')"
    by (auto simp: process_event_def transaction_def split: sum.splits prod.splits if_splits)
  then have "ei_observed_at inp \<le> i64_max" by (auto simp: apply_event_def result_simps)
  moreover have "event_known inp d'"
    using apply_event_records [OF ok] by (auto simp: event_keys_def event_known_def list_ex_iff)
  ultimately show ?thesis
    by (simp add: process_event_def transaction_def apply_event_def sql_time_def)
qed

section \<open>The threshold\<close>

text \<open>How attempts are meant to be counted: with a group key every row of the group, otherwise
  the distinct attempt keys plus the rows that carry none.\<close>

definition attempts_spec :: "bool \<Rightarrow> offense_row list \<Rightarrow> nat" where
  "attempts_spec grouped rows =
     (if grouped then length rows
      else card {k. Some k \<in> of_attempt_key ` set rows} + length (filter (\<lambda>r. of_attempt_key r = None) rows))"

lemma count_distinct_attempts_spec:
  "count_distinct_attempts rows =
     card {k. Some k \<in> of_attempt_key ` set rows} + length (filter (\<lambda>r. of_attempt_key r = None) rows)"
proof -
  let ?keys = "List.map_filter of_attempt_key rows"
  have "set ?keys = {k. Some k \<in> of_attempt_key ` set rows}"
    by (induction rows) (auto simp: map_filter_simps split: option.splits)
  then have "length (remdups ?keys) = card {k. Some k \<in> of_attempt_key ` set rows}"
    by (simp add: length_remdups_card_conv)
  moreover have "length rows = length ?keys + length (filter (\<lambda>r. of_attempt_key r = None) rows)"
    by (induction rows) (auto simp: map_filter_simps split: option.splits)
  ultimately show ?thesis by (simp add: count_distinct_attempts_def)
qed

lemma window_attempts_spec:
  "window_attempts E off ws we d =
     attempts_spec (oi_group_key off \<noteq> None)
       (filter (in_window (oi_policy off) (net_show (se_net E) (oi_network off)) ws we (oi_group_key off)) (offenses d))"
  by (simp add: window_attempts_def attempts_spec_def count_grouped_attempts_def count_distinct_attempts_spec)

lemma window_attempts_consumed:
  "window_attempts E off ws we (consume (in_window (oi_policy off) (net_show (se_net E) (oi_network off)) ws we (oi_group_key off)) d) = 0"
proof -
  have "\<not> in_window p n ws we g (if in_window p n ws we g r then r\<lparr> of_consumed := True \<rparr> else r)" for p n g r
    by (simp add: in_window_def)
  then have "filter (in_window p n ws we g) (offenses (consume (in_window p n ws we g) d)) = []" for p n g
    by (simp add: consume_def filter_map comp_def)
  then show ?thesis by (simp add: window_attempts_spec attempts_spec_def)
qed

text \<open>The offense is recorded before anything is counted.\<close>

definition recorded :: "'net store_env \<Rightarrow> 'net event_input \<Rightarrow> 'net offense_input \<Rightarrow> db \<Rightarrow> db" where
  "recorded E inp off d =
     d\<lparr> offenses := offenses d @ [offense_record E inp off (int (offense_time inp off))] \<rparr>"

lemma insert_offense_recorded:
  "insert_offense (offense_record E inp off (int (offense_time inp off))) d = Inr d1 \<Longrightarrow> d1 = recorded E inp off d"
  by (auto simp: insert_offense_def recorded_def split: if_splits)

text \<open>C2. A lease is granted exactly at the threshold: an offense that is recorded leads to a
  lease if and only if the policy has no ban in force on the network at the time of the offense
  and the attempts inside the find-time window, the new one included, reach the configured
  maximum. Attempts with the same key count once unless the policy groups by key.\<close>

theorem lease_granted_iff_threshold:
  assumes "apply_offense E draw inp off d = Inr (granted, d')"
  shows "granted \<noteq> None \<longleftrightarrow>
    \<not> ban_active E off (offense_time inp off) d \<and>
    oi_max_attempts off \<le> attempts_spec (oi_group_key off \<noteq> None)
      (filter (in_window (oi_policy off) (net_show (se_net E) (oi_network off))
          (int (offense_time inp off - oi_findtime_secs off)) (int (offense_time inp off)) (oi_group_key off))
        (offenses (recorded E inp off d)))"
proof -
  have "ban_active E off t (recorded E inp off d) = ban_active E off t d" for t
    by (simp add: ban_active_def recorded_def)
  with assms show ?thesis
    by (auto simp: apply_offense_Inr_iff window_attempts_spec dest!: insert_offense_recorded split: if_splits)
qed

lemma grant_lease_effect:
  assumes "codec_ok E" "grant_lease E draw off t ws at d = Inr (l, d')"
  shows "\<exists>row. leases d' = leases d @ [row] \<and> decode_lease E row = Inr l \<and>
     lease_policy l = oi_policy off \<and> lease_network l = oi_network off \<and> lease_action l = oi_action off \<and>
     lease_created_at l = t \<and> window_attempts E off ws at d' = 0"
proof -
  obtain count i d1 where g:
    "insert_lease E (ban_row off t count (ban_expiry off t count (draw (next_rowid (leases d))))) d = Inr (i, d1)"
    "l = new_lease (ban_row off t count (ban_expiry off t count (draw (next_rowid (leases d))))) i"
    "d' = consume (in_window (oi_policy off) (net_show (se_net E) (oi_network off)) ws at (oi_group_key off)) d1"
    using grant_lease_Inr [OF assms(2)] by blast
  let ?x = "ban_expiry off t count (draw (next_rowid (leases d)))"
  let ?row = "lease_record E (ban_row off t count ?x) i (int t) (map_option int ?x) (int count)"
  have "leases d' = leases d @ [?row]"
    using g(1,3) by (simp add: insert_lease_Inr_iff consume_def ban_row_def)
  moreover have "decode_lease E ?row = Inr l"
    using assms(1) g(2) by (cases ?x) (simp_all add: decode_lease_def lease_record_def ban_row_def new_lease_def
        codec_ok_def net_text_def rust_time_def)
  ultimately show ?thesis
    using g by (simp add: window_attempts_consumed new_lease_def ban_row_def)
qed

text \<open>Granting a lease records it and clears the window: one lease row is added, it decodes
  to exactly the lease handed to the caller (policy, network, action and time of the offense),
  and the attempts that led to it are spent, so the same attempts never buy a second lease.\<close>

theorem granted_lease_recorded:
  assumes "codec_ok E" "apply_offense E draw inp off d = Inr (Some l, d')"
  shows "\<exists>row. leases d' = leases d @ [row] \<and> decode_lease E row = Inr l \<and>
     lease_policy l = oi_policy off \<and> lease_network l = oi_network off \<and> lease_action l = oi_action off \<and>
     lease_created_at l = offense_time inp off \<and>
     window_attempts E off (int (offense_time inp off - oi_findtime_secs off)) (int (offense_time inp off)) d' = 0"
proof -
  from assms(2) obtain d1 where
    "insert_offense (offense_record E inp off (int (offense_time inp off))) d = Inr d1"
    "grant_lease E draw off (offense_time inp off) (int (offense_time inp off - oi_findtime_secs off))
       (int (offense_time inp off)) d1 = Inr (l, d')"
    by (auto simp: apply_offense_Inr_iff split: if_splits)
  then show ?thesis
    using grant_lease_effect [OF assms(1)] insert_offense_recorded by (fastforce simp: recorded_def)
qed

section \<open>Ban schedules\<close>

text \<open>Repeat offenders wait longer: with ascending multipliers, or with the doubling that
  applies when there are none, the ban for a larger escalation count is at least as long, and no
  ban exceeds the configured maximum, whatever the count, the factor and the jitter and despite
  the saturating arithmetic.\<close>

theorem ban_duration_escalates:
  assumes "duration_secs s = Some base" "sorted (multipliers s)" "count \<le> count'"
  shows "\<exists>n n'. ban_duration s count draw = Some n \<and> ban_duration s count' draw = Some n' \<and>
    n \<le> n' \<and> n' \<le> max_duration_secs s"
proof -
  have "multipliers s ! min count (length (multipliers s) - 1) \<le>
      multipliers s ! min count' (length (multipliers s) - 1)" if "multipliers s \<noteq> []"
    using assms(2,3) that by (cases "multipliers s") (auto intro!: sorted_nth_mono)
  moreover have "sat_pow2 (min count u32_max) \<le> sat_pow2 (min count' u32_max)"
    using assms(3) by (intro sat_pow2_mono) auto
  ultimately show ?thesis
    using assms(1)
    by (auto simp: ban_duration_def Let_def intro!: min.coboundedI1 sat_add64_mono sat_mul64_mono)
qed

section \<open>Maintenance\<close>

lemma filter_map_unless:
  "(\<And>r. r \<in> set rows \<Longrightarrow> P r \<Longrightarrow> \<not> Q r \<and> \<not> Q (f r)) \<Longrightarrow>
     filter Q (map (\<lambda>r. if P r then f r else r) rows) = filter Q rows"
  by (induction rows) auto

lemma active_leases_cong:
  "filter (lease_live (int now)) (leases d') = filter (lease_live (int now)) (leases d) \<Longrightarrow>
     active_leases E now d' = active_leases E now d"
  by (simp add: active_leases_def sql_time_def)

lemma expire_live:
  "now \<le> later \<Longrightarrow> filter (lease_live (int later)) (leases (autocommit (expire now) d)) =
     filter (lease_live (int later)) (leases d)"
  by (auto simp: autocommit_def expire_def sql_time_def update_leases_def lapsed_def lease_live_def
      intro!: filter_map_unless split: option.splits)

lemma filter_filter_same: "(\<And>r. Q r \<Longrightarrow> P r) \<Longrightarrow> filter Q (filter P xs) = filter Q xs"
  by (induction xs) auto

lemma prune_leases_live:
  "now \<le> later \<Longrightarrow> filter (lease_live (int later)) (leases (autocommit (prune_leases before now) d)) =
     filter (lease_live (int later)) (leases d)"
  unfolding autocommit_def prune_leases_def sql_time_def
  by (auto simp: Let_def lease_live_def simp del: filter_filter intro!: filter_filter_same split: option.splits)

lemma prune_offenses_leases: "leases (snd (prune_offenses commit before d)) = leases d"
  by (auto simp: prune_offenses_def transaction_def sql_time_def Let_def)

text \<open>Maintenance never lifts or invents a ban: expiring leases, pruning old leases and
  pruning old offenses at time \<open>now\<close> leave what \<open>active_leases\<close> returns, at that time and every
  later one, exactly as it was, in content and order, and also when it fails.\<close>

theorem maintenance_keeps_active_leases:
  assumes "now \<le> later" "maintenance \<in> {OpExpire now, OpPruneLeases before now, OpPruneOffenses commit before}"
  shows "active_leases E later (store_step E maintenance d) = active_leases E later d"
proof (rule active_leases_cong)
  show "filter (lease_live (int later)) (leases (store_step E maintenance d)) =
      filter (lease_live (int later)) (leases d)"
    using assms by (auto simp: expire_live prune_leases_live prune_offenses_leases)
qed

lemma prune_offenses_window:
  assumes "int before \<le> window_start"
  shows "window_attempts E off window_start window_end (snd (prune_offenses commit before d)) =
      window_attempts E off window_start window_end d"
proof -
  have "in_window p n window_start window_end g r \<Longrightarrow> int before \<le> of_observed_at r" for p n g r
    using assms by (simp add: in_window_def)
  then have "filter (in_window p n window_start window_end g) (filter (\<lambda>r. int before \<le> of_observed_at r) (offenses d)) =
      filter (in_window p n window_start window_end g) (offenses d)" for p n g
    by (rule filter_filter_same)
  moreover have "offenses (snd (prune_offenses commit before d)) \<in>
      {offenses d, filter (\<lambda>r. int before \<le> of_observed_at r) (offenses d)}"
    by (auto simp: prune_offenses_def transaction_def sql_time_def Let_def not_less)
  ultimately show ?thesis by (auto simp: window_attempts_def simp del: filter_filter)
qed

text \<open>Pruning offenses never lowers a count that still matters: every window that starts at
  or after the cutoff holds the same attempts as before, and an event with an offense at or
  after the cutoff stays on record, so that its replay is still recognised.\<close>

theorem prune_offenses_keeps_windows:
  assumes "int before \<le> window_start"
  shows "window_attempts E off window_start window_end (snd (prune_offenses commit before d)) =
      window_attempts E off window_start window_end d \<and>
    (\<forall>r \<in> set (offenses d). int before \<le> of_observed_at r \<longrightarrow>
       (of_source r, of_event_id r) \<in> event_keys d \<longrightarrow>
       (of_source r, of_event_id r) \<in> event_keys (snd (prune_offenses commit before d)))"
  by (rule conjI, rule prune_offenses_window [OF assms])
    (auto simp: prune_offenses_def transaction_def sql_time_def Let_def event_keys_def list_ex_iff
      not_less intro!: image_eqI)

section \<open>Manual blocks\<close>

text \<open>Unblocking a network takes effect: afterwards no lease on it is live, at that time or
  later, while the leases of every other network are untouched; the count returned is the number
  of leases that were live.\<close>

theorem manual_unblock_effect:
  assumes "manual_unblock E network now d = Inr (n, d')" "now \<le> later"
  shows "n = length (filter (\<lambda>r. lr_network r = net_show (se_net E) network \<and> lease_live (int now) r) (leases d)) \<and>
    filter (\<lambda>r. lr_network r = net_show (se_net E) network \<and> lease_live (int later) r) (leases d') = [] \<and>
    filter (\<lambda>r. lr_network r \<noteq> net_show (se_net E) network) (leases d') =
      filter (\<lambda>r. lr_network r \<noteq> net_show (se_net E) network) (leases d)"
  using assms
  by (auto simp: manual_unblock_def result_simps update_leases_def lease_live_def filter_empty_conv
      intro!: filter_map_unless split: option.splits)

text \<open>A manual block replaces the earlier one: after a successful call exactly one manual
  lease on the network is open, it decodes to the lease returned, with the requested action and
  an expiry the requested time ahead, and automatic bans are untouched.\<close>

theorem manual_block_effect:
  assumes "codec_ok E" "manual_block E commit network act now duration d = (Inr l, d')"
  shows "\<exists>row. filter (\<lambda>r. lr_manual r \<and> lr_network r = net_show (se_net E) network \<and> lease_open r) (leases d') = [row] \<and>
    decode_lease E row = Inr l \<and> lease_network l = network \<and> lease_action l = act \<and>
    lease_expires_at l = map_option (sat_add64 now) duration \<and>
    filter (\<lambda>r. \<not> lr_manual r) (leases d') = filter (\<lambda>r. \<not> lr_manual r) (leases d)"
proof -
  let ?old = "\<lambda>r. lr_manual r \<and> lr_network r = net_show (se_net E) network \<and> lr_revoked_at r = None \<and> lr_expired_at r = None"
  let ?rows = "map (\<lambda>r. if ?old r then r\<lparr> lr_revoked_at := Some (int now) \<rparr> else r) (leases d)"
  obtain row where rows: "leases d' = ?rows @ [row]"
    and row: "lr_manual row" "lr_network row = net_show (se_net E) network" "lease_open row"
      "decode_lease E row = Inr l" "lease_network l = network" "lease_action l = act"
      "lease_expires_at l = map_option (sat_add64 now) duration"
    using assms
    by (cases duration)
      (auto simp: manual_block_def transaction_def result_simps Let_def update_leases_def insert_lease_Inr_iff
        lease_record_def new_lease_def decode_lease_def codec_ok_def net_text_def rust_time_def lease_open_def
        split: sum.splits if_splits)
  have "filter (\<lambda>r. lr_manual r \<and> lr_network r = net_show (se_net E) network \<and> lease_open r) ?rows = []"
    by (auto simp: filter_empty_conv lease_open_def)
  moreover have "filter (\<lambda>r. \<not> lr_manual r) ?rows = filter (\<lambda>r. \<not> lr_manual r) (leases d)"
    by (intro filter_map_unless) auto
  ultimately show ?thesis using rows row by auto
qed

section \<open>Listener sequences\<close>

lemma sql_like_prefix: "sql_like (p @ ''%'') (p @ s)"
proof (induction p)
  case Nil
  have "sql_like ''%'' s" by (induction s) simp_all
  then show ?case by simp
next
  case (Cons c p)
  moreover have "sql_like ps s \<Longrightarrow> sql_like (CHR ''%'' # ps) s" for ps s
    by (cases s) auto
  ultimately show ?case by auto
qed

lemma id_sequence_listener_event_id:
  "n \<le> u64_max \<Longrightarrow> id_sequence source (listener_event_id source n) = Some n"
  by (simp add: id_sequence_def listener_event_id_def parse_show_nat)

lemma fold_max_ge:
  "(x \<in> set xs \<and> f x = Some n) \<or> n \<le> m \<Longrightarrow>
     n \<le> fold (\<lambda>x newest. case f x of None \<Rightarrow> newest | Some k \<Rightarrow> max newest k) xs (m :: nat)"
proof (induction xs arbitrary: m)
  case (Cons y ys)
  let ?m = "case f y of None \<Rightarrow> m | Some k \<Rightarrow> max m k"
  have "(x \<in> set ys \<and> f x = Some n) \<or> n \<le> ?m"
    using Cons.prems by (cases "f y") auto
  from Cons.IH [OF this] show ?case by simp
qed simp

lemma listener_sequence_bound:
  assumes "(source, listener_event_id source n) \<in> event_keys d" "n \<le> u64_max"
  shows "n \<le> last_listener_sequence source d"
proof -
  obtain r where r: "r \<in> set (events d)" "ev_source r = source" "ev_id r = listener_event_id source n"
    using assms(1) by (auto simp: event_keys_def)
  moreover have "sql_like (listener_prefix source @ ''%'') (listener_event_id source n)"
    by (simp add: listener_event_id_def sql_like_prefix)
  ultimately show ?thesis
    unfolding last_listener_sequence_def
    using id_sequence_listener_event_id [OF assms(2)]
    by (intro fold_max_ge [where x = r] disjI1 conjI) simp_all
qed

text \<open>A listener that continues above \<open>last_listener_sequence\<close> never reuses an event id: no
  recorded event of that source carries a larger sequence number, whatever wildcard characters
  the source name puts into the LIKE pattern.\<close>

theorem listener_sequence_fresh:
  assumes "last_listener_sequence source d < n" "n \<le> u64_max"
  shows "(source, listener_event_id source n) \<notin> event_keys d"
  using listener_sequence_bound assms by fastforce

section \<open>The theorems at work\<close>

lemma ex_db_reached: "ex_db = fold (store_step ex_env) [OpProcessEvent True (\<lambda>_. 0) (ex_event ''e1'' 1000)] create_schema"
  by (simp add: ex_db_def)

lemma ex_process_event:
  "process_event ex_env (\<lambda>_. 0) True (ex_event ''e1'' 1000) create_schema =
     (Inr \<lparr> duplicate = False, outcome_leases = [ex_lease] \<rparr>, ex_db)"
  using ex_apply_offense
  by (simp add: ex_db_def process_event_def transaction_def apply_event_def sql_time_def width_simps
      event_known_def create_schema_def upsert_checkpoint_def insert_event_def Let_def
      ex_event_def [of "''e1''" 1000] map_filter_simps)

lemma ex_process_events:
  "process_events ex_env (\<lambda>_. 0) True [ex_event ''e1'' 1000] create_schema =
     (Inr [\<lparr> duplicate = False, outcome_leases = [ex_lease] \<rparr>], ex_db)"
proof -
  have "process_input ex_env (\<lambda>_. 0) (ex_event ''e1'' 1000) create_schema =
      Inr (\<lparr> duplicate = False, outcome_leases = [ex_lease] \<rparr>, ex_db)"
    using ex_process_event
    by (auto simp: process_input_def process_event_def transaction_def ex_event_def split: sum.splits)
  then show ?thesis by (simp add: process_events_def transaction_def)
qed

theorem one_ban_in_force_witness:
  "ex_row \<in> set (leases ex_db) \<and> lease_live 1100 ex_row \<and> ex_row = hd (leases ex_db)"
  using one_ban_in_force [OF ex_db_reached, of ex_row "hd (leases ex_db)" 1100]
  by (simp add: ex_db_leases lease_live_def) (simp add: ex_row_def)

theorem active_leases_total_witness: "\<exists>ls. active_leases ex_env 1100 ex_db = Inr ls"
  unfolding ex_db_reached by (rule active_leases_total [OF ex_env_codec]) (simp add: width_simps)


theorem replay_is_duplicate_witness:
  "process_event ex_env (\<lambda>_. 7) True (ex_event ''e1'' 1000) ex_db =
     (Inr \<lparr> duplicate = True, outcome_leases = [] \<rparr>, ex_db)"
  by (rule replay_is_duplicate [OF ex_process_event])

theorem lease_granted_iff_threshold_witness:
  "\<not> ban_active ex_env (ex_offense 1) 1000 create_schema"
  using lease_granted_iff_threshold [OF ex_apply_offense]
  by (simp add: ban_active_def create_schema_def)

theorem granted_lease_recorded_witness:
  "decode_lease ex_env ex_row = Inr ex_lease \<and> lease_created_at ex_lease = 1000"
  using granted_lease_recorded [OF ex_env_codec ex_apply_offense]
  by (simp add: insert_event_def create_schema_def offense_time_def ex_event_def ex_offense_def)

theorem ban_duration_escalates_witness:
  "\<exists>n n'. ban_duration ex_schedule 1 0 = Some n \<and> ban_duration ex_schedule 3 0 = Some n' \<and> n \<le> n' \<and> n' \<le> 86400"
  using ban_duration_escalates [of ex_schedule 600 1 3 0] by (simp add: ex_schedule_def)

theorem maintenance_keeps_active_leases_witness:
  "active_leases ex_env 1200 (store_step ex_env (OpExpire 1100) ex_db) = active_leases ex_env 1200 ex_db"
  by (rule maintenance_keeps_active_leases [of 1100 1200 "OpExpire 1100" 0 True]) simp_all

theorem prune_offenses_keeps_windows_witness:
  "window_attempts ex_env (ex_offense 1) 900 1000 (snd (prune_offenses True 500 ex_db)) =
     window_attempts ex_env (ex_offense 1) 900 1000 ex_db"
  using prune_offenses_keeps_windows [where before = 500 and window_start = 900 and E = ex_env and
      off = "ex_offense 1" and window_end = 1000 and commit = True and d = ex_db] by simp

definition ex_unblocked :: db where
  "ex_unblocked = snd (update_leases (\<lambda>r. lr_network r = cidr_show ex_net \<and> lease_live 1100 r)
     (\<lambda>r. r\<lparr> lr_revoked_at := Some 1100 \<rparr>) ex_db)"

lemma ex_manual_unblock: "manual_unblock ex_env ex_net 1100 ex_db = Inr (1, ex_unblocked)"
  by (simp add: manual_unblock_def sql_time_def width_simps ex_unblocked_def update_leases_def ex_db_leases
      lease_live_def ex_row_def)

theorem manual_unblock_effect_witness:
  "filter (\<lambda>r. lr_network r = cidr_show ex_net \<and> lease_live 1200 r) (leases ex_unblocked) = []"
  using manual_unblock_effect [OF ex_manual_unblock, of 1200] by simp

definition ex_block :: "cidr lease result \<times> db" where
  "ex_block = manual_block ex_env True ex_net DropAll 2000 (Some 60) ex_db"

lemma ex_manual_block: "\<exists>l. fst ex_block = Inr l"
  by (simp add: ex_block_def manual_block_def transaction_def sql_time_def width_simps Let_def
      insert_lease_def sat_add64_def)

theorem manual_block_effect_witness:
  "\<exists>l row. fst ex_block = Inr l \<and> lease_expires_at l = Some 2060 \<and>
     filter (\<lambda>r. lr_manual r \<and> lr_network r = cidr_show ex_net \<and> lease_open r) (leases (snd ex_block)) = [row]"
proof -
  obtain l where l: "fst ex_block = Inr l" using ex_manual_block by blast
  then have "manual_block ex_env True ex_net DropAll 2000 (Some 60) ex_db = (Inr l, snd ex_block)"
    by (metis ex_block_def prod.collapse)
  from manual_block_effect [OF ex_env_codec this] l show ?thesis
    by (auto simp: sat_add64_def width_simps)
qed

theorem listener_sequence_fresh_witness:
  "(''auth'', listener_event_id ''auth'' 1) \<notin> event_keys ex_db"
proof (rule listener_sequence_fresh)
  show "last_listener_sequence ''auth'' ex_db < 1"
    by (simp add: last_listener_sequence_def ex_db_leases listener_prefix_def to_lower_def)
qed (simp add: width_simps)

end
