(* ===== verification/Lease_Interface.thy ===== *)
theory Lease_Interface
  imports Store_Theorems
begin

text \<open>
  What reconciliation relies on when it talks to the lease table: it starts a pass over the live
  leases, then marks each with the outcome of applying it. The contract is a locale with the
  client's argument inside: marking the live leases cannot fail and leaves exactly the states
  that were asked for. The store implements it.
\<close>

locale lease_table =
  fixes ok :: "'d \<Rightarrow> bool"
    and ids :: "u64 \<Rightarrow> 'd \<Rightarrow> i64 list"
    and state_of :: "'d \<Rightarrow> i64 \<Rightarrow> string option"
    and start :: "u64 \<Rightarrow> 'd \<Rightarrow> 'd"
    and mark :: "i64 \<times> 'o \<Rightarrow> 'd \<Rightarrow> 'e + (unit \<times> 'd)"
    and label :: "'o \<Rightarrow> string"
  assumes start_ok: "ok d \<Longrightarrow> ok (start t d)"
    and start_ids: "ids t (start t d) = ids t d"
    and mark_known: "ok d \<Longrightarrow> i \<in> set (ids t d) \<Longrightarrow>
      \<exists>d'. mark (i, out) d = Inr ((), d') \<and> ok d' \<and> ids t d' = ids t d \<and>
        state_of d' = (state_of d)(i \<mapsto> label out)"
begin

lemma mark_all:
  "ok d \<Longrightarrow> fst ` set outs \<subseteq> set (ids t d) \<Longrightarrow> distinct (map fst outs) \<Longrightarrow>
     \<exists>us d'. run_batch mark outs d = Inr (us, d') \<and> ok d' \<and> ids t d' = ids t d \<and>
       (\<forall>i. state_of d' i = (case map_of outs i of None \<Rightarrow> state_of d i | Some out \<Rightarrow> Some (label out)))"
proof (induction outs arbitrary: d)
  case Nil
  then show ?case by simp
next
  case (Cons entry outs)
  obtain i out where entry: "entry = (i, out)" by fastforce
  obtain d1 where d1: "mark (i, out) d = Inr ((), d1)" "ok d1" "ids t d1 = ids t d"
    "state_of d1 = (state_of d)(i \<mapsto> label out)"
    using mark_known [OF Cons.prems(1)] Cons.prems(2) entry by fastforce
  obtain us d' where d': "run_batch mark outs d1 = Inr (us, d')" "ok d'" "ids t d' = ids t d1"
    "\<forall>i. state_of d' i = (case map_of outs i of None \<Rightarrow> state_of d1 i | Some out \<Rightarrow> Some (label out))"
    using Cons.IH [OF d1(2)] Cons.prems d1(3) by auto
  have "map_of outs i = None"
    using Cons.prems(3) entry by (simp add: map_of_eq_None_iff)
  then have "\<forall>j. state_of d' j = (case map_of (entry # outs) j of None \<Rightarrow> state_of d j | Some out \<Rightarrow> Some (label out))"
    using entry by (simp add: d'(4) d1(4) split: option.split)
  with d1(1,3) d'(1-3) entry show ?case by auto
qed

text \<open>A whole pass: start it, then mark every live lease by some rule. It succeeds, and each
  live lease ends in the state the rule gives it.\<close>

lemma pass_settles:
  assumes "ok d" "distinct (ids t d)"
  shows "\<exists>us d'. run_batch mark (map (\<lambda>i. (i, rule i)) (ids t d)) (start t d) = Inr (us, d') \<and> ok d' \<and>
    ids t d' = ids t d \<and> (\<forall>i \<in> set (ids t d). state_of d' i = Some (label (rule i)))"
proof -
  let ?outs = "map (\<lambda>i. (i, rule i)) (ids t d)"
  have "map_of ?outs i = Some (rule i)" if "i \<in> set (ids t d)" for i
    using that by (simp add: map_of_map_restrict)
  moreover have "fst ` set ?outs \<subseteq> set (ids t (start t d))" "distinct (map fst ?outs)"
    using assms(2) start_ids by (auto simp: comp_def)
  from mark_all [OF start_ok [OF assms(1)] this] obtain us d' where
    "run_batch mark ?outs (start t d) = Inr (us, d')" "ok d'" "ids t d' = ids t (start t d)"
    "\<forall>i. state_of d' i = (case map_of ?outs i of None \<Rightarrow> state_of (start t d) i | Some out \<Rightarrow> Some (label out))"
    by blast
  ultimately show ?thesis using start_ids by simp
qed

end

section \<open>The store implements it\<close>

definition live_ids :: "u64 \<Rightarrow> db \<Rightarrow> i64 list" where
  "live_ids t d = map lr_id (filter (lease_live (int t)) (leases d))"

definition apply_state_of :: "db \<Rightarrow> i64 \<Rightarrow> string option" where
  "apply_state_of d = map_of (map (\<lambda>r. (lr_id r, lr_apply_state r)) (leases d))"

definition started :: "u64 \<Rightarrow> db \<Rightarrow> db" where
  "started t d = snd (update_leases (lease_live (int t))
     (\<lambda>r. r\<lparr> lr_apply_state := ''pending'', lr_apply_error := None \<rparr>) d)"

abbreviation outcome_label :: "apply_outcome \<Rightarrow> string" where
  "outcome_label out \<equiv> fst (outcome_columns out)"

text \<open>A lease row without its apply columns, which is all a pass may change.\<close>

definition bare :: "lease_row \<Rightarrow> lease_row" where
  "bare r = r\<lparr> lr_apply_state := [], lr_apply_error := None \<rparr>"

lemma bare_simps [simp]:
  "lease_live t (bare r) = lease_live t r" "lr_id (bare r) = lr_id r"
  "bare (r\<lparr> lr_apply_state := s, lr_apply_error := e \<rparr>) = bare r"
  "lr_action (bare r) = lr_action r"
  by (simp_all add: bare_def lease_live_def)

lemma update_bare:
  "map bare (leases (snd (update_leases P (\<lambda>r. r\<lparr> lr_apply_state := s, lr_apply_error := e \<rparr>) d))) =
     map bare (leases d)"
  by (simp add: update_leases_def)

lemma started_bare: "map bare (leases (started t d)) = map bare (leases d)"
  unfolding started_def by (rule update_bare)

lemma live_ids_bare: "map bare (leases d') = map bare (leases d) \<Longrightarrow> live_ids t d' = live_ids t d"
proof -
  have "live_ids t x = map lr_id (filter (lease_live (int t)) (map bare (leases x)))" for x
    by (simp add: live_ids_def filter_map comp_def)
  then show "map bare (leases d') = map bare (leases d) \<Longrightarrow> live_ids t d' = live_ids t d" by simp
qed

lemma mark_apply_result_Inr:
  assumes "i \<in> lr_id ` set (leases d)"
  shows "mark_apply_result (i, out) d = Inr ((), snd (update_leases (\<lambda>r. lr_id r = i)
    (\<lambda>r. r\<lparr> lr_apply_state := outcome_label out, lr_apply_error := snd (outcome_columns out) \<rparr>) d))"
  using assms by (auto simp: mark_apply_result_def update_leases_def filter_empty_conv)

lemma update_state_of:
  assumes "i \<in> lr_id ` set (leases d)"
  shows "apply_state_of (snd (update_leases (\<lambda>r. lr_id r = i)
      (\<lambda>r. r\<lparr> lr_apply_state := s, lr_apply_error := e \<rparr>) d)) = (apply_state_of d)(i \<mapsto> s)"
proof -
  have spec: "map_of (map (\<lambda>r. (lr_id r, lr_apply_state r))
          (map (\<lambda>r. if lr_id r = i then r\<lparr> lr_apply_state := s, lr_apply_error := e \<rparr> else r) rows)) j =
      (if j = i \<and> i \<in> lr_id ` set rows then Some s else map_of (map (\<lambda>r. (lr_id r, lr_apply_state r)) rows) j)"
    for rows j by (induction rows) auto
  show ?thesis
    using assms unfolding apply_state_of_def update_leases_def by (intro ext) (simp add: spec del: map_map)
qed

interpretation store_leases: lease_table "db_ok E" live_ids apply_state_of started mark_apply_result outcome_label
  for E :: "'net store_env"
proof unfold_locales
  fix d t
  assume "db_ok E d"
  then show "db_ok E (started t d)"
    unfolding started_def using update_leases_ok pending_update by blast
next
  fix t d
  show "live_ids t (started t d) = live_ids t d"
    by (rule live_ids_bare) (rule started_bare)
next
  fix d i t out
  assume "db_ok E d" "i \<in> set (live_ids t d)"
  then have i: "i \<in> lr_id ` set (leases d)" by (auto simp: live_ids_def)
  let ?d' = "snd (update_leases (\<lambda>r. lr_id r = i)
    (\<lambda>r. r\<lparr> lr_apply_state := outcome_label out, lr_apply_error := snd (outcome_columns out) \<rparr>) d)"
  have "db_ok E ?d'"
    by (rule mark_batch.step_keeps [OF \<open>db_ok E d\<close> mark_apply_result_Inr [OF i, of out]])
  moreover have "live_ids t ?d' = live_ids t d" by (rule live_ids_bare) (rule update_bare)
  ultimately show "\<exists>d'. mark_apply_result (i, out) d = Inr ((), d') \<and> db_ok E d' \<and>
      live_ids t d' = live_ids t d \<and> apply_state_of d' = (apply_state_of d)(i \<mapsto> outcome_label out)"
    using mark_apply_result_Inr [OF i] update_state_of [OF i] by blast
qed

lemma live_ids_distinct: "db_ok E d \<Longrightarrow> distinct (live_ids t d)"
proof -
  assume "db_ok E d"
  then have "sorted_wrt (\<lambda>r r'. lr_id r < lr_id r') (leases d)"
    by (auto simp: db_ok_def leases_ok_def intro: sorted_wrt_mono_rel [rotated])
  then have "sorted_wrt (<) (live_ids t d)"
    by (simp add: live_ids_def sorted_wrt_map sorted_wrt_filter)
  then show ?thesis by (simp add: strict_sorted_iff)
qed

lemma begin_reconcile_started:
  "t \<le> i64_max \<Longrightarrow> begin_reconcile t d = Inr (length (filter (lease_live (int t)) (leases d)), started t d)"
  by (simp add: begin_reconcile_def sql_time_def started_def update_leases_def)

end
