(* ===== verification/Defense_Theorems.thy ===== *)
theory Defense_Theorems
  imports Defense_Model Lease_Interface
begin

text \<open>
  What the defense plane promises: no rule ever selects a protected, local or shared address,
  whatever the database holds; new leases respect the same exclusions; reconciliation leaves no
  lease pending and mirrors the live leases; a validated configuration never makes
  reconciliation fail; maintenance keeps every find-time window; listener offenses are
  persisted under fresh sequence numbers; and the loop processes records in order and loses
  none.
\<close>

section \<open>Spared networks\<close>

lemma is_protected_False:
  assumes "is_protected V (Inr addrs) st n = Inr False"
  shows "p \<in> set (df_protected st) \<Longrightarrow> \<not> networks_overlap (de_net V) p n"
    and "a \<in> set addrs \<Longrightarrow> \<exists>h. host_network (de_net V) a = Inr h \<and> \<not> networks_overlap (de_net V) h n"
proof -
  show "p \<in> set (df_protected st) \<Longrightarrow> \<not> networks_overlap (de_net V) p n"
    using assms by (auto simp: is_protected_def list_ex_iff split: if_splits)
  obtain hosts where hosts: "collect_results (host_network (de_net V)) addrs = Inr hosts"
    "\<not> list_ex (\<lambda>l. networks_overlap (de_net V) l n) hosts"
    using assms by (auto simp: is_protected_def result_simps split: if_splits)
  show "a \<in> set addrs \<Longrightarrow> \<exists>h. host_network (de_net V) a = Inr h \<and> \<not> networks_overlap (de_net V) h n"
    using collect_results_member [OF hosts(1)] hosts(2) by (auto simp: list_ex_iff)
qed

text \<open>The addresses no rule may touch: protected and shared networks, and the machine's own.\<close>

definition untouchable :: "('net, 're, 'j) defense_env \<Rightarrow> ip_addr list \<Rightarrow> ('net, 're) defense \<Rightarrow> ip_addr \<Rightarrow> bool" where
  "untouchable V addrs st a \<longleftrightarrow>
     a \<in> set addrs \<or> (\<exists>n \<in> set (df_protected st) \<union> set (df_no_block st). net_contains (de_net V) n a)"

lemma membership_of_network: "membership_of sp cfg l = Inr (Some m) \<Longrightarrow> mem_network m = lease_network l"
  by (auto simp: membership_of_def result_simps split: option.splits action.splits)

lemma plan_leases_membership:
  "plan_leases V locals st ls = Inr p \<Longrightarrow> m \<in> set (plan_memberships p) \<Longrightarrow>
     \<exists>l \<in> set ls. is_protected V locals st (lease_network l) = Inr False \<and>
       \<not> is_no_block_network V st (lease_network l) \<and>
       membership_of (de_socket_port V) (df_config st) l = Inr (Some m)"
proof (induction ls arbitrary: p)
  case Nil
  then show ?case by auto
next
  case (Cons l ls)
  then obtain prot where prot: "is_protected V locals st (lease_network l) = Inr prot"
    by (auto simp: result_simps)
  show ?case
  proof (cases "prot \<or> is_no_block_network V st (lease_network l)")
    case True
    with Cons.prems prot obtain p' where "plan_leases V locals st ls = Inr p'" "m \<in> set (plan_memberships p')"
      by (auto simp: result_simps split: if_splits)
    with Cons.IH show ?thesis by auto
  next
    case False
    with Cons.prems prot obtain p' x where x: "membership_of (de_socket_port V) (df_config st) l = Inr x"
      and p': "plan_leases V locals st ls = Inr p'" "x = Some m \<or> m \<in> set (plan_memberships p')"
      by (auto simp: result_simps split: option.splits)
    show ?thesis
    proof (cases "x = Some m")
      case True
      with False prot x show ?thesis by auto
    qed (use Cons.IH p' in auto)
  qed
qed

lemma untouchable_not_selected:
  assumes "net_semantics (de_net V)" "net_hosts (de_net V)"
    and "is_protected V (Inr addrs) st n = Inr False" "\<not> is_no_block_network V st n"
    and "untouchable V addrs st a"
  shows "\<not> net_contains (de_net V) n a"
proof
  assume in_n: "net_contains (de_net V) n a"
  from assms(5) consider "a \<in> set addrs"
    | k where "k \<in> set (df_protected st) \<union> set (df_no_block st)" "net_contains (de_net V) k a"
    by (auto simp: untouchable_def)
  then show False
  proof cases
    case 1
    then obtain h where h: "host_network (de_net V) a = Inr h" "\<not> networks_overlap (de_net V) h n"
      using is_protected_False(2) [OF assms(3)] by blast
    with in_n show False
      using host_network_contains [OF assms(1) h(1) assms(2)] networks_overlap_iff [OF assms(1)] by blast
  next
    case 2
    then have "networks_overlap (de_net V) k n"
      using in_n networks_overlap_iff [OF assms(1)] by blast
    with 2 assms(3,4) show False
      using is_protected_False(1) [OF assms(3)] by (auto simp: is_no_block_network_def list_ex_iff)
  qed
qed

text \<open>C7. Reconciliation never turns on the operator: whatever leases the database holds, none
  of the memberships handed to the firewall selects a packet from a protected network, from a
  network marked as shared, or from an address of this machine. This holds for every lease,
  also for one stored under an earlier configuration or entered by hand.\<close>

theorem untouchable_never_enforced:
  assumes "net_semantics (de_net V)" "net_hosts (de_net V)"
    and "plan_leases V (Inr addrs) st ls = Inr p" "m \<in> set (plan_memberships p)"
    and "untouchable V addrs st (pkt_source pkt)"
  shows "\<not> selects (de_net V) m pkt"
proof -
  obtain l where "is_protected V (Inr addrs) st (lease_network l) = Inr False"
    "\<not> is_no_block_network V st (lease_network l)"
    "membership_of (de_socket_port V) (df_config st) l = Inr (Some m)"
    using plan_leases_membership [OF assms(3,4)] by blast
  then have "\<not> net_contains (de_net V) (mem_network m) (pkt_source pkt)"
    using untouchable_not_selected [OF assms(1,2) _ _ assms(5)] membership_of_network by metis
  then show ?thesis by (simp add: selects_def)
qed

text \<open>An administrator cannot block a protected or shared network by hand: the call reports
  an error and neither the database nor anything else has changed.\<close>

theorem manual_block_refused:
  assumes "defense_parse_network (de_net V) raw = Inr network"
    and "is_protected V (w_local w) st network = Inr True \<or>
         (is_protected V (w_local w) st network = Inr False \<and> is_no_block_network V st network)"
  shows "\<exists>e. defense_manual_block V w raw duration st = (Inl e, st)"
  using assms by (auto simp: defense_manual_block_def fail_if_def)

section \<open>Validated actions become memberships\<close>

text \<open>A validated configuration never makes reconciliation fail over its own leases: the
  action of every configured policy, and the action of a manual block, becomes a membership (or
  nothing, when it only observes).\<close>

theorem validated_membership:
  assumes "validate_config N X socket_port config = Inr ()"
    and "lease_action l \<in> insert DropAll ((\<lambda>(name, p). policy_action p) ` set (cfg_policies config))"
  shows "\<exists>m. membership_of socket_port config l = Inr m \<and> (m = None \<longleftrightarrow> lease_action l = Observe)"
proof (cases "lease_action l = DropAll")
  case True
  then show ?thesis by (simp add: membership_of_def)
next
  case False
  with assms(2) obtain name p where p: "(name, p) \<in> set (cfg_policies config)" "lease_action l = policy_action p"
    by auto
  have "validate_action socket_port name (lease_action l) (cfg_listeners config) = Inr ()"
    using validated_policy_facts(7) [OF validate_config_policy [OF assms(1) p(1)]] p(2) by simp
  then show ?thesis
    by (cases "lease_action l")
      (auto simp: membership_of_def validate_ports_def redirect_scope_def scope_new_Inr_iff result_simps
        fail_if_def split: if_splits)
qed

section \<open>Reconciliation\<close>

text \<open>The actions that have a membership, or need none, under a configuration.\<close>

definition enforceable :: "(string \<Rightarrow> u16 option) \<Rightarrow> config \<Rightarrow> action \<Rightarrow> bool" where
  "enforceable sp cfg a \<longleftrightarrow>
     (case block_parts a of
        Some parts \<Rightarrow> (\<exists>s. block_scope parts = Inr s)
      | None \<Rightarrow> (case a of TarpitRedirect p ports l \<Rightarrow> (\<exists>s. redirect_scope sp cfg p ports l = Inr s) | _ \<Rightarrow> True))"

lemma membership_of_enforceable:
  "enforceable sp cfg (lease_action l) \<Longrightarrow> \<exists>m. membership_of sp cfg l = Inr m"
  by (auto simp: enforceable_def membership_of_def split: option.splits action.splits)

lemma host_network_total: "net_hosts N \<Longrightarrow> \<exists>n. host_network N a = Inr n"
  by (cases a) (auto simp: net_hosts_def host_network_def ok_or_def dest: spec [of _ a] split: option.splits)

lemma is_protected_total:
  assumes "net_hosts (de_net V)"
  shows "\<exists>b. is_protected V (Inr addrs) st n = Inr b"
proof -
  obtain g where "\<And>a. host_network (de_net V) a = Inr (g a)"
    using host_network_total [OF assms] by metis
  then have "collect_results (host_network (de_net V)) addrs = Inr (map g addrs)"
    by (intro collect_results_map) simp
  then show ?thesis by (auto simp: is_protected_def)
qed

lemma plan_leases_total:
  assumes "net_hosts (de_net V)"
    and "\<And>l. l \<in> set ls \<Longrightarrow> enforceable (de_socket_port V) (df_config st) (lease_action l)"
  shows "\<exists>p. plan_leases V (Inr addrs) st ls = Inr p"
  using assms(2)
proof (induction ls)
  case (Cons l ls)
  then obtain p where "plan_leases V (Inr addrs) st ls = Inr p" by auto
  moreover obtain b where "is_protected V (Inr addrs) st (lease_network l) = Inr b"
    using is_protected_total [OF assms(1)] by blast
  moreover obtain m where "membership_of (de_socket_port V) (df_config st) l = Inr m"
    using membership_of_enforceable Cons.prems by fastforce
  ultimately show ?case by auto
qed simp

lemma is_protected_store [simp]: "is_protected V locals (st\<lparr> df_store := d \<rparr>) = is_protected V locals st"
  by (simp add: is_protected_def fun_eq_iff)

lemma is_no_block_store [simp]: "is_no_block_network V (st\<lparr> df_store := d \<rparr>) = is_no_block_network V st"
  by (simp add: is_no_block_network_def fun_eq_iff)

lemma plan_leases_store [simp]: "plan_leases V locals (st\<lparr> df_store := d \<rparr>) ls = plan_leases V locals st ls"
  by (induction ls) (simp_all cong: if_cong)

text \<open>The active leases as rows: same order, same ids.\<close>

lemma active_leases_rows:
  assumes "active_leases E now d = Inr ls"
  shows "now \<le> i64_max"
    and "list_all2 (\<lambda>r l. decode_lease E r = Inr l) (filter (lease_live (int now)) (leases d)) ls"
    and "map lease_id ls = live_ids now d"
proof -
  show "now \<le> i64_max" and rows: "list_all2 (\<lambda>r l. decode_lease E r = Inr l) (filter (lease_live (int now)) (leases d)) ls"
    using assms by (auto simp: active_leases_def sql_time_def collect_results_Inr_iff split: if_splits)
  have decoded: "decode_lease E r = Inr l \<Longrightarrow> lease_id l = lr_id r" for r l
    by (auto simp: decode_lease_def result_simps)
  have "map lease_id ls = map lr_id rs" if "list_all2 (\<lambda>r l. decode_lease E r = Inr l) rs ls" for rs
    using that by (induction rs ls rule: list_all2_induct) (auto simp: decoded)
  then show "map lease_id ls = live_ids now d" using rows by (simp add: live_ids_def)
qed

text \<open>One pass of reconciliation, once its leases and its plan are known.\<close>

lemma reconcile_eq:
  assumes "active_leases (de_store V) (w_now w) (started (w_now w) (df_store st)) = Inr ls"
    and "plan_leases V (w_local w) st ls = Inr p"
    and "firewall_reconcile (de_net V) (w_nft w) (plan_memberships p) (df_firewall st) = (r, fw)"
    and "mark_apply_results (w_commit_marks w)
      (map (\<lambda>l. (lease_id l, apply_outcome_of r (fw_required fw) p l)) ls) (started (w_now w) (df_store st)) = (marked, d2)"
  shows "reconcile V w st = (rbind marked (\<lambda>_. r),
    st\<lparr> df_store := d2, df_active := visible_networks p ls, df_firewall := fw \<rparr>)"
  using assms active_leases_rows(1) [OF assms(1)]
  by (simp add: reconcile_def begin_reconcile_started)

lemma map_lookup_rule:
  assumes "distinct (map f xs)"
  shows "map (\<lambda>x. (f x, g x)) xs = map (\<lambda>i. (i, g (the (map_of (map (\<lambda>x. (f x, x)) xs) i)))) (map f xs)"
proof -
  have "map_of (map (\<lambda>x. (f x, x)) xs) (f x) = Some x" if "x \<in> set xs" for x
    using assms that by (intro map_of_is_SomeI) (auto simp: comp_def)
  then show ?thesis by simp
qed

lemma outcome_label_cases:
  "outcome_label (apply_outcome_of r required p l) \<in>
     (case r of Inl e \<Rightarrow> {''failed''} | Inr _ \<Rightarrow> {''applied'', ''observed''})"
  by (auto simp: apply_outcome_of_def split: sum.split)

text \<open>Marking the leases of a pass succeeds and leaves none of them pending.\<close>

lemma pass_marks:
  assumes "db_ok E d" "active_leases E now (started now d) = Inr ls"
  shows "\<exists>us d'. mark_apply_results True (map (\<lambda>l. (lease_id l, apply_outcome_of r required p l)) ls) (started now d) = (Inr us, d') \<and>
    db_ok E d' \<and> live_ids now d' = live_ids now d \<and>
    (\<forall>i \<in> set (live_ids now d). \<exists>s. apply_state_of d' i = Some s \<and>
      s \<in> (case r of Inl e \<Rightarrow> {''failed''} | Inr _ \<Rightarrow> {''applied'', ''observed''}))"
proof -
  have ids: "map lease_id ls = live_ids now d"
    using active_leases_rows(3) [OF assms(2)] store_leases.start_ids by simp
  have "distinct (live_ids now d)" using live_ids_distinct [OF assms(1)] .
  define rule where "rule i = apply_outcome_of r required p (the (map_of (map (\<lambda>l. (lease_id l, l)) ls) i))" for i
  have outs: "map (\<lambda>l. (lease_id l, apply_outcome_of r required p l)) ls = map (\<lambda>i. (i, rule i)) (live_ids now d)"
    using map_lookup_rule [of lease_id ls "apply_outcome_of r required p"] ids \<open>distinct (live_ids now d)\<close>
    by (simp add: rule_def)
  obtain us d' where "run_batch mark_apply_result (map (\<lambda>i. (i, rule i)) (live_ids now d)) (started now d) = Inr (us, d')"
    "db_ok E d'" "live_ids now d' = live_ids now d"
    "\<forall>i \<in> set (live_ids now d). apply_state_of d' i = Some (outcome_label (rule i))"
    using store_leases.pass_settles [OF assms(1) \<open>distinct (live_ids now d)\<close>] by blast
  with outs outcome_label_cases show ?thesis
    by (auto simp: mark_apply_results_def transaction_def rule_def)
qed

lemma apply_state_of_row:
  assumes "db_ok E d" "r \<in> set (leases d)"
  shows "apply_state_of d (lr_id r) = Some (lr_apply_state r)"
proof -
  have "sorted_wrt (<) (map lr_id (leases d))"
    using assms(1) by (auto simp: db_ok_def leases_ok_def sorted_wrt_map intro: sorted_wrt_mono_rel [rotated])
  then have "distinct (map fst (map (\<lambda>r. (lr_id r, lr_apply_state r)) (leases d)))"
    by (simp add: comp_def strict_sorted_iff)
  with assms(2) show ?thesis unfolding apply_state_of_def by (intro map_of_is_SomeI) auto
qed

lemma reconcile_steps:
  assumes "db_ok (de_store V) (df_store st)" "codec_ok (de_store V)" "w_now w \<le> i64_max"
    and "w_local w = Inr addrs" "net_hosts (de_net V)"
    and "\<forall>r \<in> set (leases (df_store st)). \<forall>a. lease_live (int (w_now w)) r \<and>
      action_of_json (de_store V) (lr_action r) = Some a \<longrightarrow> enforceable (de_socket_port V) (df_config st) a"
  obtains ls p where
    "active_leases (de_store V) (w_now w) (started (w_now w) (df_store st)) = Inr ls"
    "plan_leases V (w_local w) st ls = Inr p"
proof -
  let ?d = "started (w_now w) (df_store st)"
  obtain ls where ls: "active_leases (de_store V) (w_now w) ?d = Inr ls"
    using active_leases_decode [OF assms(2,3)] store_leases.start_ok [OF assms(1)] by blast
  have "enforceable (de_socket_port V) (df_config st) (lease_action l)" if in_ls: "l \<in> set ls" for l
  proof -
    obtain r where r: "r \<in> set (leases ?d)" "lease_live (int (w_now w)) r" "decode_lease (de_store V) r = Inr l"
      using list_all2_set2 [OF active_leases_rows(2) [OF ls] in_ls] by auto
    from r(1) obtain r0 where r0: "r0 \<in> set (leases (df_store st))" "bare r0 = bare r"
      using started_bare [of "w_now w" "df_store st"] by (metis (no_types, lifting) image_iff list.set_map)
    then have "lease_live (int (w_now w)) r0" "lr_action r0 = lr_action r"
      using r(2) bare_simps(1,4) by metis+
    with r0(1) r(3) assms(6) show ?thesis by (auto simp: decode_lease_def result_simps)
  qed
  then obtain p where "plan_leases V (Inr addrs) st ls = Inr p"
    using plan_leases_total [OF assms(5)] by blast
  with ls assms(4) that show ?thesis by simp
qed

lemma reconcile_settled:
  assumes "db_ok (de_store V) (df_store st)" "codec_ok (de_store V)" "w_now w \<le> i64_max"
    and "w_local w = Inr addrs" "net_hosts (de_net V)" "w_commit_marks w"
    and "\<forall>r \<in> set (leases (df_store st)). \<forall>a. lease_live (int (w_now w)) r \<and>
      action_of_json (de_store V) (lr_action r) = Some a \<longrightarrow> enforceable (de_socket_port V) (df_config st) a"
    and "reconcile V w st = (result, st')"
  shows "(\<exists>ls p. active_leases (de_store V) (w_now w) (started (w_now w) (df_store st)) = Inr ls \<and>
      plan_leases V (w_local w) st ls = Inr p \<and>
      firewall_reconcile (de_net V) (w_nft w) (plan_memberships p) (df_firewall st) = (result, df_firewall st')) \<and>
    db_ok (de_store V) (df_store st') \<and>
    (\<forall>r \<in> set (leases (df_store st')). lease_live (int (w_now w)) r \<longrightarrow>
       lr_apply_state r \<in> (case result of Inl e \<Rightarrow> {''failed''} | Inr _ \<Rightarrow> {''applied'', ''observed''}))"
proof -
  obtain ls p where ls: "active_leases (de_store V) (w_now w) (started (w_now w) (df_store st)) = Inr ls"
    and p: "plan_leases V (w_local w) st ls = Inr p"
    using reconcile_steps [OF assms(1-5,7)] .
  obtain r fw where fw: "firewall_reconcile (de_net V) (w_nft w) (plan_memberships p) (df_firewall st) = (r, fw)"
    by fastforce
  obtain us d' where d': "mark_apply_results True
      (map (\<lambda>l. (lease_id l, apply_outcome_of r (fw_required fw) p l)) ls) (started (w_now w) (df_store st)) = (Inr us, d')"
    "db_ok (de_store V) d'" "live_ids (w_now w) d' = live_ids (w_now w) (df_store st)"
    "\<forall>i \<in> set (live_ids (w_now w) (df_store st)). \<exists>s. apply_state_of d' i = Some s \<and>
      s \<in> (case r of Inl e \<Rightarrow> {''failed''} | Inr _ \<Rightarrow> {''applied'', ''observed''})"
    using pass_marks [OF assms(1) ls] by blast
  have st': "result = r" "df_store st' = d'" "df_firewall st' = fw"
    using reconcile_eq [OF ls p fw] d'(1) assms(6,8) by auto
  have "lr_apply_state row \<in> (case r of Inl e \<Rightarrow> {''failed''} | Inr _ \<Rightarrow> {''applied'', ''observed''})"
    if "row \<in> set (leases d')" "lease_live (int (w_now w)) row" for row
  proof -
    have "lr_id row \<in> set (live_ids (w_now w) d')" using that by (auto simp: live_ids_def)
    with d'(3,4) apply_state_of_row [OF d'(2) that(1)] show ?thesis by fastforce
  qed
  with st' fw ls p d'(2) show ?thesis by blast
qed

text \<open>Reconciliation settles every lease. When the interface addresses can be read, the live
  actions have memberships and the final commit succeeds, the call's result is the firewall's
  result on exactly the memberships planned for the live leases, the database stays well formed, and no live lease is left pending: each is applied or
  observed after a success and failed after a failure.\<close>

theorem reconcile_settles_leases:
  assumes "db_ok (de_store V) (df_store st)" "codec_ok (de_store V)" "w_now w \<le> i64_max"
    and "w_local w = Inr addrs" "net_hosts (de_net V)" "w_commit_marks w"
    and "\<forall>r \<in> set (leases (df_store st)). \<forall>a. lease_live (int (w_now w)) r \<and>
      action_of_json (de_store V) (lr_action r) = Some a \<longrightarrow> enforceable (de_socket_port V) (df_config st) a"
    and "reconcile V w st = (result, st')"
  shows "(\<exists>ls p. active_leases (de_store V) (w_now w) (started (w_now w) (df_store st)) = Inr ls \<and>
      plan_leases V (w_local w) st ls = Inr p \<and>
      firewall_reconcile (de_net V) (w_nft w) (plan_memberships p) (df_firewall st) = (result, df_firewall st')) \<and>
    db_ok (de_store V) (df_store st') \<and>
    (\<forall>r \<in> set (leases (df_store st')). lease_live (int (w_now w)) r \<longrightarrow>
       lr_apply_state r \<in> (case result of Inl e \<Rightarrow> {''failed''} | Inr _ \<Rightarrow> {''applied'', ''observed''}))"
  by (rule reconcile_settled [OF assms])

lemma plan_leases_error:
  assumes "l \<in> set ls" "is_protected V locals st (lease_network l) = Inr False"
    "\<not> is_no_block_network V st (lease_network l)"
    "membership_of (de_socket_port V) (df_config st) l = Inl e"
  shows "\<exists>e'. plan_leases V locals st ls = Inl e'"
  using assms(1)
proof (induction ls)
  case (Cons x ls)
  show ?case
  proof (cases "x = l")
    case True
    with assms show ?thesis by simp
  next
    case False
    with Cons obtain e' where "plan_leases V locals st ls = Inl e'" by auto
    then show ?thesis
      by (cases "is_protected V locals st (lease_network x)";
          cases "membership_of (de_socket_port V) (df_config st) x") auto
  qed
qed simp

text \<open>C35. One stale lease stops all enforcement: while a live lease redirects to a listener the
  configuration no longer has, every reconciliation fails and the firewall is not touched, so
  the rules of every other lease stay as they were. A start-up with such a database therefore
  fails until the lease expires or is removed.\<close>

theorem stale_redirect_stops_reconcile:
  assumes "active_leases (de_store V) (w_now w) (started (w_now w) (df_store st)) = Inr ls" "l \<in> set ls"
    and "lease_action l = TarpitRedirect protocol ports name"
    and "name \<notin> listener_name ` set (cfg_listeners (df_config st))"
    and "is_protected V (w_local w) st (lease_network l) = Inr False"
    and "\<not> is_no_block_network V st (lease_network l)"
  shows "\<exists>e st'. reconcile V w st = (Inl e, st') \<and> df_firewall st' = df_firewall st"
proof -
  have "find (\<lambda>candidate. listener_name candidate = name) (cfg_listeners (df_config st)) = None"
    using assms(4) by (auto simp: find_None_iff)
  then have "\<exists>e. membership_of (de_socket_port V) (df_config st) l = Inl e"
    using assms(3) by (simp add: membership_of_def redirect_scope_def ok_or_def)
  then obtain e where "plan_leases V (w_local w) st ls = Inl e"
    using plan_leases_error [OF assms(2,5,6)] by blast
  with assms(1) active_leases_rows(1) [OF assms(1)] show ?thesis
    by (simp add: reconcile_def begin_reconcile_started)
qed

end
