(* ===== verification/Defense_Records.thy ===== *)
theory Defense_Records
  imports Defense_Theorems
begin

text \<open>
  From source records to leases: where a new lease can come from, that the maintenance of the
  defense plane keeps every find-time window, that a listener offense is persisted under a
  fresh sequence number, and the loop that feeds records to the store.
\<close>

section \<open>Where leases come from\<close>

definition from_offense :: "'net store_env \<Rightarrow> 'net offense_input \<Rightarrow> lease_row \<Rightarrow> bool" where
  "from_offense E off r \<longleftrightarrow>
     lr_network r = net_show (se_net E) (oi_network off) \<and> lr_policy r = oi_policy off \<and>
     lr_action r = action_json E (oi_action off) \<and> \<not> lr_manual r"

text \<open>Every row of the later table is, up to its apply columns, a row of the earlier one or was
  created for an offense that satisfies \<open>Q\<close>.\<close>

definition sprung :: "'net store_env \<Rightarrow> ('net offense_input \<Rightarrow> bool) \<Rightarrow> db \<Rightarrow> db \<Rightarrow> bool" where
  "sprung E Q d d' \<longleftrightarrow>
     (\<forall>r \<in> set (leases d'). bare r \<in> bare ` set (leases d) \<or> (\<exists>off. Q off \<and> from_offense E off r))"

lemma from_offense_bare: "from_offense E off (bare r) = from_offense E off r"
  by (simp add: from_offense_def bare_def)

lemma sprung_refl: "map bare (leases d') = map bare (leases d) \<Longrightarrow> sprung E Q d d'"
  by (metis image_eqI list.set_map sprung_def)

lemma sprung_trans: "sprung E Q d d' \<Longrightarrow> sprung E Q d' d'' \<Longrightarrow> sprung E Q d d''"
  unfolding sprung_def by (smt (verit) from_offense_bare image_iff)

lemma sprung_mono: "sprung E Q d d' \<Longrightarrow> (\<And>off. Q off \<Longrightarrow> Q' off) \<Longrightarrow> sprung E Q' d d'"
  unfolding sprung_def by blast

lemma sprung_same: "leases d' = leases d \<Longrightarrow> sprung E Q d d'"
  by (rule sprung_refl) simp

lemma grant_lease_sprung:
  assumes "grant_lease E draw off t ws at d = Inr (l, d')"
  shows "sprung E (\<lambda>x. x = off) d d'"
  using grant_lease_Inr [OF assms]
  by (auto simp: sprung_def insert_lease_Inr_iff consume_def from_offense_def lease_record_def ban_row_def)

lemma apply_offense_sprung:
  assumes "apply_offense E draw inp off d = Inr (out, d')"
  shows "sprung E (\<lambda>x. x = off) d d'"
proof -
  from assms obtain d1 where d1: "insert_offense (offense_record E inp off (int (offense_time inp off))) d = Inr d1"
    and rest: "(\<exists>P. d' = consume P d1) \<or> d' = d1 \<or> (\<exists>t ws at l. grant_lease E draw off t ws at d1 = Inr (l, d'))"
    unfolding apply_offense_Inr_iff by meson
  have "sprung E (\<lambda>x. x = off) d d1"
    using d1 by (intro sprung_same) (auto simp: insert_offense_def split: if_splits)
  moreover have "sprung E (\<lambda>x. x = off) d1 d'"
    using rest grant_lease_sprung by (auto intro: sprung_same simp: consume_def)
  ultimately show ?thesis by (rule sprung_trans)
qed

lemma run_batch_sprung:
  assumes "\<And>i s out s'. i \<in> set is \<Longrightarrow> step i s = Inr (out, s') \<Longrightarrow> sprung E Q s s'"
    and "run_batch step is s = Inr (outs, s')"
  shows "sprung E Q s s'"
  using assms
proof (induction "is" arbitrary: s outs)
  case Nil
  then show ?case by (auto intro: sprung_same)
next
  case (Cons i "is")
  then obtain out s1 outs' where s1: "step i s = Inr (out, s1)" "run_batch step is s1 = Inr (outs', s')"
    by (auto simp only: run_batch_Cons_Inr)
  then have "sprung E Q s1 s'" using Cons.IH Cons.prems(1) by (meson list.set_intros(2))
  with Cons.prems(1) s1(1) show ?case using sprung_trans by (meson list.set_intros(1))
qed

lemma upsert_checkpoint_leases: "upsert_checkpoint E src eid cp t d = Inr d' \<Longrightarrow> leases d' = leases d"
  by (auto simp: upsert_checkpoint_def result_simps Let_def)

lemma apply_event_sprung:
  assumes "apply_event E draw inp d = Inr (out, d')"
  shows "sprung E (\<lambda>off. off \<in> set (ei_offenses inp)) d d'"
proof (cases "event_known inp d")
  case True
  with assms show ?thesis by (auto simp: apply_event_def result_simps intro: sprung_same)
next
  case False
  with assms obtain t granted d1 where
    batch: "run_batch (apply_offense E draw inp) (ei_offenses inp) (insert_event inp t d) = Inr (granted, d1)"
    and cp: "leases d' = leases d1"
    by (auto simp: apply_event_def result_simps dest: upsert_checkpoint_leases)
  have "sprung E (\<lambda>off. off \<in> set (ei_offenses inp)) (insert_event inp t d) d1"
    using batch by (rule run_batch_sprung [rotated]) (auto intro: sprung_mono dest: apply_offense_sprung)
  then show ?thesis using cp by (simp add: sprung_def insert_event_def)
qed

lemma process_events_sprung:
  assumes "process_events E draw commit inputs d = (r, d')"
  shows "sprung E (\<lambda>off. \<exists>inp \<in> set inputs. off \<in> set (ei_offenses inp)) d d'"
proof (cases "run_batch (process_input E draw) inputs d")
  case (Inl e)
  with assms show ?thesis by (auto simp: process_events_def transaction_def intro: sprung_same)
next
  case (Inr x)
  obtain outs d1 where x: "x = (outs, d1)" by fastforce
  have step: "sprung E (\<lambda>off. \<exists>inp \<in> set inputs. off \<in> set (ei_offenses inp)) s s'"
    if "inp \<in> set inputs" "process_input E draw inp s = Inr (out, s')" for inp s out s'
    using that apply_event_sprung [of E draw inp s out s']
    by (auto simp: process_input_def result_simps split: if_splits
        intro: sprung_same upsert_checkpoint_leases elim!: sprung_mono)
  have "sprung E (\<lambda>off. \<exists>inp \<in> set inputs. off \<in> set (ei_offenses inp)) d d1"
    using run_batch_sprung [of inputs "process_input E draw"] step Inr x by blast
  with assms Inr x show ?thesis
    by (auto simp: process_events_def transaction_def intro: sprung_same split: if_splits)
qed

section \<open>Which offenses are admitted\<close>

definition admissible :: "('net, 're, 'j) defense_env \<Rightarrow> world \<Rightarrow> ('net, 're) defense \<Rightarrow> 'net offense_input \<Rightarrow> bool" where
  "admissible V w st off \<longleftrightarrow>
     is_protected V (w_local w) st (oi_network off) = Inr False \<and>
     (is_no_block_network V st (oi_network off) \<longrightarrow> block_parts (oi_action off) = None) \<and>
     (\<exists>c. (oi_policy off, c) \<in> set (df_policies st) \<and> \<not> is_ignored V c (oi_network off))"

lemma enforcement_action_no_block:
  "is_no_block_network V st n \<Longrightarrow> block_parts (enforcement_action V st n a) = None"
  by (cases "block_parts a") (auto simp: enforcement_action_def)

lemma accepted_offense_simps [simp]:
  "oi_policy (accepted_offense V st name p x) = name"
  "oi_network (accepted_offense V st name p x) = dt_network x"
  "oi_action (accepted_offense V st name p x) = enforcement_action V st (dt_network x) (policy_action p)"
  by (simp_all add: accepted_offense_def offense_input_of_def)

text \<open>What a scan can change in a state: the detectors only.\<close>

definition policy_core :: "(string \<times> ('net, 're) compiled_policy) list \<Rightarrow> (string \<times> policy \<times> 'net list) list" where
  "policy_core = map (\<lambda>(name, c). (name, cpol_policy c, cpol_ignored c))"

lemma scan_policies_core:
  "scan_policies V w st rec ps = (r, ps') \<Longrightarrow> policy_core ps' = policy_core ps"
  by (induction ps arbitrary: r ps')
    (auto simp: policy_core_def split: if_splits prod.splits option.splits sum.splits)

lemma scan_policies_found:
  assumes "scan_policies V w st rec ((name, c) # ps) = (Inr offs, qs)"
  obtains offs' ps' where "scan_policies V w st rec ps = (Inr offs', ps')"
    "offs = offs' \<or> (\<exists>x. is_protected V (w_local w) st (dt_network x) = Inr False \<and>
       \<not> is_ignored V c (dt_network x) \<and> offs = accepted_offense V st name (cpol_policy c) x # offs')"
proof -
  have "\<exists>offs' ps'. scan_policies V w st rec ps = (Inr offs', ps') \<and>
    (offs = offs' \<or> (\<exists>x. is_protected V (w_local w) st (dt_network x) = Inr False \<and>
       \<not> is_ignored V c (dt_network x) \<and> offs = accepted_offense V st name (cpol_policy c) x # offs'))"
    using assms by (auto simp: result_simps split: if_splits prod.splits option.splits sum.splits)
  then show ?thesis using that by blast
qed

lemma scan_policies_admissible:
  "scan_policies V w st rec ps = (Inr offs, ps') \<Longrightarrow> off \<in> set offs \<Longrightarrow>
     is_protected V (w_local w) st (oi_network off) = Inr False \<and>
     (is_no_block_network V st (oi_network off) \<longrightarrow> block_parts (oi_action off) = None) \<and>
     (\<exists>c. (oi_policy off, c) \<in> set ps \<and> \<not> is_ignored V c (oi_network off))"
proof (induction ps arbitrary: offs ps')
  case Nil
  then show ?case by simp
next
  case (Cons entry ps)
  obtain name c where entry: "entry = (name, c)" by fastforce
  obtain offs' ps'' where rest: "scan_policies V w st rec ps = (Inr offs', ps'')"
    and offs: "offs = offs' \<or> (\<exists>x. is_protected V (w_local w) st (dt_network x) = Inr False \<and>
       \<not> is_ignored V c (dt_network x) \<and> offs = accepted_offense V st name (cpol_policy c) x # offs')"
    using scan_policies_found [OF Cons.prems(1) [unfolded entry]] .
  show ?case
  proof (cases "off \<in> set offs'")
    case True
    with Cons.IH [OF rest] show ?thesis by auto
  next
    case False
    with offs Cons.prems(2) obtain x where "is_protected V (w_local w) st (dt_network x) = Inr False"
      "\<not> is_ignored V c (dt_network x)" "off = accepted_offense V st name (cpol_policy c) x"
      by auto
    then show ?thesis using entry by (auto simp: enforcement_action_no_block)
  qed
qed

text \<open>Two states that agree on what decides admission.\<close>

definition same_rules :: "('net, 're) defense \<Rightarrow> ('net, 're) defense \<Rightarrow> bool" where
  "same_rules st st' \<longleftrightarrow>
     df_protected st' = df_protected st \<and> df_no_block st' = df_no_block st \<and>
     policy_core (df_policies st') = policy_core (df_policies st)"

lemma same_rules_admissible:
  assumes "same_rules st st'" "admissible V w st' off"
  shows "admissible V w st off"
proof -
  have "\<exists>c'. (name, c') \<in> set (df_policies st) \<and> cpol_ignored c' = cpol_ignored c"
    if "(name, c) \<in> set (df_policies st')" for name c
  proof -
    have "(name, cpol_policy c, cpol_ignored c) \<in> set (policy_core (df_policies st'))"
      using that by (force simp: policy_core_def)
    then have "(name, cpol_policy c, cpol_ignored c) \<in> set (policy_core (df_policies st))"
      using assms(1) by (simp add: same_rules_def)
    then show ?thesis by (auto simp: policy_core_def)
  qed
  with assms show ?thesis
    unfolding admissible_def same_rules_def is_protected_def is_no_block_network_def is_ignored_def by metis
qed

lemma prepare_records_Cons:
  assumes "prepare_records V w (rec # recs) st = (r, st')"
  obtains e policies where
    "scan_policies V w st rec (df_policies st) = (Inl e, policies)" "\<not> sr_oversized rec"
    "r = Inl e" "st' = st\<lparr> df_policies := policies \<rparr>"
  | owned policies st2 r' where
    "(if sr_oversized rec then (Inr [], df_policies st) else scan_policies V w st rec (df_policies st)) = (Inr owned, policies)"
    "st2 = st\<lparr> df_policies := policies, df_sequences := df_sequences st2 \<rparr>"
    "prepare_records V w recs st2 = (r', st')"
    "r = r' \<or> r = rbind r' (\<lambda>evs. Inr (record_event rec owned # evs))"
proof (cases "if sr_oversized rec then (Inr [], df_policies st) else scan_policies V w st rec (df_policies st)")
  case (Pair scanned policies)
  show ?thesis
  proof (cases scanned)
    case (Inl e)
    with Pair assms that(1) show ?thesis by (auto split: if_splits)
  next
    case (Inr owned)
    obtain n sq where bump: "bump_sequence (sr_source rec) (df_sequences st) = (n, sq)" by fastforce
    define st2 where "st2 = (if owned = [] \<and> \<not> sr_oversized rec
      then st\<lparr> df_policies := policies, df_sequences := sq \<rparr> else st\<lparr> df_policies := policies \<rparr>)"
    obtain r' st3 where run: "prepare_records V w recs st2 = (r', st3)" by fastforce
    have "st3 = st' \<and> (r = r' \<or> r = rbind r' (\<lambda>evs. Inr (record_event rec owned # evs)))"
      using assms run unfolding prepare_records.simps Pair Inr
      by (auto simp: st2_def bump Let_def split: if_splits)
    moreover have "st2 = st\<lparr> df_policies := policies, df_sequences := df_sequences st2 \<rparr>" by (simp add: st2_def)
    ultimately show ?thesis using that(2) Pair Inr run by blast
  qed
qed

lemma same_rules_policies:
  "policy_core policies = policy_core (df_policies st) \<Longrightarrow>
     same_rules st (st\<lparr> df_policies := policies, df_sequences := sequences \<rparr>)"
  "policy_core policies = policy_core (df_policies st) \<Longrightarrow> same_rules st (st\<lparr> df_policies := policies \<rparr>)"
  by (simp_all add: same_rules_def)

lemma same_rules_trans: "same_rules a b \<Longrightarrow> same_rules b c \<Longrightarrow> same_rules a c"
  by (simp add: same_rules_def)

lemma prepare_records_admissible:
  "prepare_records V w recs st = (r, st') \<Longrightarrow>
     same_rules st st' \<and> df_store st' = df_store st \<and>
     (\<forall>evs. r = Inr evs \<longrightarrow> (\<forall>ev \<in> set evs. \<forall>off \<in> set (ei_offenses ev). admissible V w st off))"
proof (induction recs arbitrary: st r)
  case Nil
  then show ?case by (auto simp: same_rules_def)
next
  case (Cons rec recs)
  from Cons.prems show ?case
  proof (cases rule: prepare_records_Cons)
    case (1 e policies)
    with scan_policies_core [OF 1(1)] show ?thesis by (simp add: same_rules_policies)
  next
    case (2 owned policies st2 r')
    have rules: "same_rules st st2" "df_store st2 = df_store st"
      using 2(1) scan_policies_core [of V w st rec "df_policies st"]
      by (subst 2(2), intro same_rules_policies) (auto split: if_splits, subst 2(2), simp)
    have owned: "admissible V w st off" if "off \<in> set owned" for off
      using 2(1) that scan_policies_admissible [of V w st rec "df_policies st" owned policies off]
      by (auto simp: admissible_def split: if_splits)
    note rest = Cons.IH [OF 2(3)]
    have "admissible V w st off" if "r = Inr evs" "ev \<in> set evs" "off \<in> set (ei_offenses ev)" for evs ev off
    proof -
      obtain evs' where "r' = Inr evs'" "evs = evs' \<or> evs = record_event rec owned # evs'"
        using 2(4) [unfolded \<open>r = Inr evs\<close>] rbind_Inr_iff [of r' "\<lambda>evs. Inr (record_event rec owned # evs)" evs]
        by auto
      then have "off \<in> set owned \<or> admissible V w st2 off"
        using that(2,3) rest by (auto simp: record_event_def)
      then show ?thesis using owned same_rules_admissible [OF rules(1)] by blast
    qed
    with rest rules show ?thesis using same_rules_trans by metis
  qed
qed

lemma announce_store: "announce V w ls st = (r, st') \<Longrightarrow> df_store st' = df_store st"
  by (induction ls arbitrary: st) (auto split: if_splits sum.splits dest: meta_spec)

lemma mark_apply_result_bare:
  "mark_apply_result entry d = Inr (u, d') \<Longrightarrow> map bare (leases d') = map bare (leases d)"
  by (cases entry) (auto simp: mark_apply_result_def update_leases_def split: if_splits)

lemma mark_batch_bare:
  "run_batch mark_apply_result outs d = Inr (us, d') \<Longrightarrow> map bare (leases d') = map bare (leases d)"
proof (induction outs arbitrary: d us)
  case (Cons entry outs)
  then obtain u d1 us' where d1: "mark_apply_result entry d = Inr (u, d1)" "run_batch mark_apply_result outs d1 = Inr (us', d')"
    by (auto simp only: run_batch_Cons_Inr)
  with Cons.IH [OF d1(2)] mark_apply_result_bare [OF d1(1)] show ?case by simp
qed simp

lemma mark_apply_results_bare:
  "mark_apply_results commit outs d = (r, d') \<Longrightarrow> map bare (leases d') = map bare (leases d)"
  using mark_batch_bare [of outs d]
  by (auto simp: mark_apply_results_def transaction_def split: sum.splits prod.splits if_splits)

text \<open>Reconciliation neither adds nor removes a lease.\<close>

lemma reconcile_store:
  assumes "reconcile V w st = (r, st')"
  shows "df_store st' = df_store st \<or> df_store st' = started (w_now w) (df_store st) \<or>
    (\<exists>c outs m. mark_apply_results c outs (started (w_now w) (df_store st)) = (m, df_store st'))"
proof (cases "w_now w \<le> i64_max")
  case False
  with assms show ?thesis by (auto simp: reconcile_def begin_reconcile_def sql_time_def)
next
  case True
  with assms show ?thesis
    by (auto simp: reconcile_def begin_reconcile_started Let_def split: sum.splits prod.splits)
qed

lemma reconcile_bare:
  assumes "reconcile V w st = (r, st')"
  shows "map bare (leases (df_store st')) = map bare (leases (df_store st))"
  using reconcile_store [OF assms] started_bare mark_apply_results_bare by metis

lemma reconcile_ok:
  assumes "reconcile V w st = (r, st')" "db_ok (de_store V) (df_store st)"
  shows "db_ok (de_store V) (df_store st')"
  using reconcile_store [OF assms(1)] store_leases.start_ok [OF assms(2)] mark_apply_results_ok assms(2)
  by (metis snd_conv)

text \<open>The exclusions hold when leases are made, not only when rules are written. Whatever the
  outcome of processing a batch of source records, every lease row in the database afterwards
  was there before (up to its apply columns) or was created for an offense of a configured
  policy on a network that is not protected and not ignored by that policy, and whose action
  does not block if the network is marked as shared.\<close>

theorem new_leases_respect_exclusions:
  assumes "process_records V w recs st = (result, st')"
  shows "\<forall>r \<in> set (leases (df_store st')). bare r \<in> bare ` set (leases (df_store st)) \<or>
    (\<exists>off. admissible V w st off \<and> from_offense (de_store V) off r)"
proof -
  let ?S = "sprung (de_store V) (admissible V w st)"
  obtain r1 st1 where prep: "prepare_records V w recs st = (r1, st1)" by fastforce
  note admitted = prepare_records_admissible [OF prep]
  have "?S (df_store st) (df_store st')"
  proof (cases "\<exists>evs. r1 = Inr evs \<and> evs \<noteq> []")
    case False
    with assms prep have "df_store st' = df_store st1"
      by (auto simp: process_records_def split: sum.splits)
    with admitted show ?thesis by (auto intro: sprung_same)
  next
    case True
    then obtain evs where evs: "r1 = Inr evs" "evs \<noteq> []" by blast
    obtain r2 d where store: "process_events (de_store V) (w_draw w) (w_commit_events w) evs (df_store st1) = (r2, d)"
      by fastforce
    have "?S (df_store st) d"
      using process_events_sprung [OF store] admitted evs(1) by (auto elim!: sprung_mono)
    moreover have "map bare (leases (df_store st')) = map bare (leases d)"
      using assms prep evs store
      by (auto simp: process_records_def Let_def split: sum.splits prod.splits if_splits
          dest!: announce_store reconcile_bare)
    ultimately show ?thesis using sprung_refl sprung_trans by blast
  qed
  then show ?thesis by (simp add: sprung_def)
qed

section \<open>The active set\<close>

lemma plan_leases_protected:
  "plan_leases V locals st ls = Inr p \<Longrightarrow>
     plan_protected p = map lease_id (filter (\<lambda>l. is_protected V locals st (lease_network l) = Inr True) ls) \<and>
     (\<forall>l \<in> set ls. is_protected V locals st (lease_network l) \<in> {Inr True, Inr False})"
proof (induction ls arbitrary: p)
  case (Cons l ls)
  then obtain b where b: "is_protected V locals st (lease_network l) = Inr b"
    by (auto simp: result_simps)
  with Cons.prems obtain p' where "plan_leases V locals st ls = Inr p'"
    "plan_protected p = (if b then lease_id l # plan_protected p' else plan_protected p')"
    by (cases b) (auto simp: result_simps split: if_splits)
  with Cons.IH b show ?case by (cases b) auto
qed auto

lemma visible_networks_iff:
  assumes "plan_leases V locals st ls = Inr p" "distinct (map lease_id ls)"
  shows "n \<in> set (visible_networks p ls) \<longleftrightarrow>
    (\<exists>l \<in> set ls. lease_network l = n \<and> lease_action l \<noteq> Observe \<and> is_protected V locals st n = Inr False)"
proof -
  have "lease_id l \<in> set (plan_protected p) \<longleftrightarrow> is_protected V locals st (lease_network l) = Inr True"
    if "l \<in> set ls" for l
    using plan_leases_protected [OF assms(1)] assms(2) that by (auto simp: distinct_map inj_on_def)
  then show ?thesis
    using plan_leases_protected [OF assms(1)] by (auto simp: visible_networks_def)
qed

lemma decode_bare:
  assumes "bare r = bare r'" "decode_lease E r = Inr l"
  shows "\<exists>l'. decode_lease E r' = Inr l' \<and> lease_network l' = lease_network l \<and> lease_action l' = lease_action l"
  using assms by (cases r; cases r') (auto simp: bare_def decode_lease_def result_simps)

text \<open>A property of rows that does not read the apply columns.\<close>

lemma bare_ex_cong:
  assumes "bare ` A = bare ` B" "\<And>r r'. bare r = bare r' \<Longrightarrow> Q r \<Longrightarrow> Q r'"
  shows "(\<exists>r \<in> A. Q r) \<longleftrightarrow> (\<exists>r \<in> B. Q r)"
proof -
  have "\<exists>r' \<in> Y. bare r' = bare r" if "bare ` X = bare ` Y" "r \<in> X" for X Y r
    using that by (metis imageE imageI)
  then show ?thesis using assms by metis
qed

lemma reconcile_success:
  assumes "reconcile V w st = (Inr u, st')"
  obtains ls p where "active_leases (de_store V) (w_now w) (started (w_now w) (df_store st)) = Inr ls"
    "plan_leases V (w_local w) st ls = Inr p" "df_active st' = visible_networks p ls"
proof -
  have "w_now w \<le> i64_max"
    using assms by (auto simp: reconcile_def begin_reconcile_def sql_time_def split: if_splits)
  with assms show ?thesis
    by (auto simp: reconcile_def begin_reconcile_started Let_def result_simps split: sum.splits prod.splits intro: that)
qed

lemma active_set_rows:
  assumes "reconcile V w st = (Inr u, st')" "db_ok (de_store V) (df_store st)"
  shows "n \<in> set (df_active st') \<longleftrightarrow>
    (\<exists>r \<in> set (leases (df_store st')). lease_live (int (w_now w)) r \<and>
       (\<exists>l. decode_lease (de_store V) r = Inr l \<and> lease_network l = n \<and> lease_action l \<noteq> Observe) \<and>
       is_protected V (w_local w) st n = Inr False)"
proof -
  let ?d = "started (w_now w) (df_store st)"
  obtain ls p where ls: "active_leases (de_store V) (w_now w) ?d = Inr ls"
    and p: "plan_leases V (w_local w) st ls = Inr p" and active: "df_active st' = visible_networks p ls"
    using reconcile_success [OF assms(1)] .
  have "distinct (map lease_id ls)"
    using active_leases_rows(3) [OF ls] live_ids_distinct [OF store_leases.start_ok [OF assms(2)]] by simp
  note visible = visible_networks_iff [OF p this]
  have rows: "(\<exists>l \<in> set ls. lease_network l = n \<and> lease_action l \<noteq> Observe) \<longleftrightarrow>
      (\<exists>r \<in> set (leases ?d). lease_live (int (w_now w)) r \<and>
        (\<exists>l. decode_lease (de_store V) r = Inr l \<and> lease_network l = n \<and> lease_action l \<noteq> Observe))"
    using active_leases_rows(2) [OF ls] by (fastforce dest: list_all2_set2 list_all2_set1)
  have "map bare (leases (df_store st')) = map bare (leases ?d)"
    using reconcile_bare [OF assms(1)] started_bare by metis
  then have "bare ` set (leases (df_store st')) = bare ` set (leases ?d)"
    by (metis list.set_map)
  then have "(\<exists>r \<in> set (leases (df_store st')). lease_live (int (w_now w)) r \<and>
        (\<exists>l. decode_lease (de_store V) r = Inr l \<and> lease_network l = n \<and> lease_action l \<noteq> Observe)) \<longleftrightarrow>
      (\<exists>r \<in> set (leases ?d). lease_live (int (w_now w)) r \<and>
        (\<exists>l. decode_lease (de_store V) r = Inr l \<and> lease_network l = n \<and> lease_action l \<noteq> Observe))"
  proof (rule bare_ex_cong)
    fix r r'
    assume "bare r = bare r'"
    moreover have "lease_live t r \<longleftrightarrow> lease_live t r'" for t
      using calculation bare_simps(1) by metis
    moreover assume "lease_live (int (w_now w)) r \<and>
        (\<exists>l. decode_lease (de_store V) r = Inr l \<and> lease_network l = n \<and> lease_action l \<noteq> Observe)"
    ultimately show "lease_live (int (w_now w)) r' \<and>
        (\<exists>l. decode_lease (de_store V) r' = Inr l \<and> lease_network l = n \<and> lease_action l \<noteq> Observe)"
      using decode_bare by metis
  qed
  with rows visible active show ?thesis by auto
qed

text \<open>C30. After a successful reconciliation the active set, which the listeners and the web plane
  consult, holds exactly the networks of the live leases that do more than observe and are not
  protected.\<close>

theorem active_set_mirrors_leases:
  assumes "reconcile V w st = (Inr u, st')" "db_ok (de_store V) (df_store st)"
  shows "n \<in> set (df_active st') \<longleftrightarrow>
    (\<exists>r \<in> set (leases (df_store st')). lease_live (int (w_now w)) r \<and>
       (\<exists>l. decode_lease (de_store V) r = Inr l \<and> lease_network l = n \<and> lease_action l \<noteq> Observe) \<and>
       is_protected V (w_local w) st n = Inr False)"
  by (rule active_set_rows [OF assms])

lemma bare_network: "lr_network (bare r) = lr_network r"
  by (simp add: bare_def)

lemma manual_unblock_clears:
  assumes "manual_unblock E network now d = Inr (n, d')" "r \<in> set (leases d')"
    "lr_network r = net_show (se_net E) network"
  shows "\<not> lease_live (int now) r"
  using assms by (auto simp: manual_unblock_def result_simps update_leases_def lease_live_def split: if_splits)

text \<open>Unblocking reaches the data plane: when the administrator's call succeeds, the network is
  no longer in the active set and no lease on it is live.\<close>

theorem unblock_effect:
  assumes "codec_ok (de_store V)" "db_ok (de_store V) (df_store st)"
    and "defense_parse_network (de_net V) raw = Inr network"
    and "defense_unblock V w raw st = (Inr n, st')"
  shows "network \<notin> set (df_active st') \<and>
    (\<forall>r \<in> set (leases (df_store st')). lr_network r = net_show (de_net V) network \<longrightarrow> \<not> lease_live (int (w_now w)) r)"
proof -
  let ?E = "de_store V"
  obtain d where d: "manual_unblock ?E network (w_now w) (df_store st) = Inr (n, d)"
    and rec: "reconcile V w (st\<lparr> df_store := d \<rparr>) = (Inr (), st')"
    using assms(3,4) by (auto simp: defense_unblock_def result_simps split: sum.splits prod.splits)
  have "db_ok ?E d"
    using manual_unblock_ok [OF assms(2), of network "w_now w"] d by (simp add: autocommit_def)
  then have ok: "db_ok ?E (df_store (st\<lparr> df_store := d \<rparr>))" by simp
  have "map bare (leases (df_store st')) = map bare (leases d)"
    using reconcile_bare [OF rec] by simp
  then have "bare ` set (leases (df_store st')) = bare ` set (leases d)" by (metis list.set_map)
  then have dead: "\<not> lease_live (int (w_now w)) r"
    if "r \<in> set (leases (df_store st'))" "lr_network r = net_show (de_net V) network" for r
  proof -
    have "bare r \<in> bare ` set (leases d)"
      using \<open>bare ` set (leases (df_store st')) = bare ` set (leases d)\<close> that(1) by blast
    then obtain r0 where r0: "r0 \<in> set (leases d)" "bare r = bare r0" by blast
    then have "lr_network r0 = lr_network r" by (metis bare_network)
    then have "\<not> lease_live (int (w_now w)) r0"
      using manual_unblock_clears [OF d r0(1)] that(2) by (simp add: de_net_def)
    then show ?thesis using r0(2) bare_simps(1) by metis
  qed
  moreover have "lr_network r = net_show (de_net V) (lease_network l)"
    if "decode_lease ?E r = Inr l" "lease_row_ok ?E r" for r l
    using that assms(1) by (auto simp: decode_lease_def result_simps lease_row_ok_def codec_ok_def net_text_def de_net_def)
  moreover have "lease_row_ok ?E r" if "r \<in> set (leases (df_store st'))" for r
    using reconcile_ok [OF rec ok] that by (simp add: db_ok_def leases_ok_def)
  ultimately show ?thesis
    unfolding active_set_rows [OF rec ok, of network] by blast
qed

section \<open>Maintenance\<close>

lemma max_findtime_ge:
  assumes "(name, c) \<in> set (df_policies st)"
  shows "policy_findtime_secs (cpol_policy c) \<le> max_findtime_secs st"
proof -
  have "policy_findtime_secs (cpol_policy c) \<in>
      set (map (\<lambda>(_, c). policy_findtime_secs (cpol_policy c)) (df_policies st))"
    using assms by force
  then show ?thesis unfolding max_findtime_secs_def by (intro fold_max_member) simp
qed

lemma autocommit_offenses:
  "expire now d = Inr (n, d') \<Longrightarrow> offenses d' = offenses d"
  "prune_leases before now d = Inr (n, d') \<Longrightarrow> offenses d' = offenses d"
  by (auto simp: expire_def prune_leases_def result_simps update_leases_def Let_def)

text \<open>Routine maintenance never forgives an attempt that still counts: for every configured
  policy and every offense observed now or later, the attempts in its find-time window are the
  same before and after the expiry pass, whether or not the pass succeeds, because the cutoff
  it prunes at lies before every such window.\<close>

theorem expire_keeps_windows:
  assumes "defense_expire w st = (r, st')" "(name, c) \<in> set (df_policies st)"
    and "oi_findtime_secs off = policy_findtime_secs (cpol_policy c)" "w_now w \<le> t"
  shows "window_attempts E off (int (t - oi_findtime_secs off)) (int t) (df_store st') =
    window_attempts E off (int (t - oi_findtime_secs off)) (int t) (df_store st)"
proof -
  let ?cut = "w_now w - max (max_findtime_secs st) 86400"
  have "?cut \<le> t - max (max_findtime_secs st) 86400"
    using assms(4) by (rule diff_le_mono)
  also have "\<dots> \<le> t - oi_findtime_secs off"
    using max_findtime_ge [OF assms(2)] assms(3) by (intro diff_le_mono2) (simp add: le_max_iff_disj)
  finally have cut: "int ?cut \<le> int (t - oi_findtime_secs off)" by (simp only: of_nat_le_iff)
  have cong: "offenses a = offenses b \<Longrightarrow> window_attempts E off s e a = window_attempts E off s e b" for a b s e
    by (simp add: window_attempts_def)
  show ?thesis
  proof (cases "expire (w_now w) (df_store st)")
    case (Inl e)
    with assms(1) show ?thesis by (simp add: defense_expire_def)
  next
    case (Inr x)
    then obtain n d1 where x: "expire (w_now w) (df_store st) = Inr (n, d1)" by (cases x) simp
    obtain q d2 where d2: "prune_offenses (w_commit_prune w) ?cut d1 = (q, d2)" by fastforce
    have "offenses (df_store st') = offenses d2"
      using assms(1) autocommit_offenses(2) [of _ _ d2]
      unfolding defense_expire_def x sum.case prod.case d2 by (auto split: sum.splits)
    then have "window_attempts E off s e (df_store st') = window_attempts E off s e d2" for s e by (rule cong)
    also have "window_attempts E off (int (t - oi_findtime_secs off)) (int t) d2 =
        window_attempts E off (int (t - oi_findtime_secs off)) (int t) d1"
      using prune_offenses_window [OF cut, of E off "int t" "w_commit_prune w" d1] unfolding d2 snd_conv .
    also have "\<dots> = window_attempts E off (int (t - oi_findtime_secs off)) (int t) (df_store st)"
      by (rule cong) (rule autocommit_offenses(1) [OF x])
    finally show ?thesis .
  qed
qed

section \<open>Listener offenses\<close>

lemma ban_expiry_storable: "ban_expiry off t count draw = Some e \<Longrightarrow> e \<le> i64_max"
  by (auto simp: ban_expiry_def)

lemma grant_lease_total:
  assumes "t \<le> i64_max" "length (leases d) \<le> i64_max"
  shows "\<exists>l d'. grant_lease E draw off t ws at d = Inr (l, d')"
proof -
  obtain count where count: "escalation_count E (oi_policy off) (oi_network off) (overall (oi_ban off))
      (t - oi_history_retention_secs off) d = Inr count" "count \<le> length (leases d)"
  proof -
    have "t - oi_history_retention_secs off \<le> i64_max" using assms(1) by simp
    then have "\<exists>count. escalation_count E (oi_policy off) (oi_network off) (overall (oi_ban off))
        (t - oi_history_retention_secs off) d = Inr count \<and> count \<le> length (leases d)"
      by (simp add: escalation_count_def sql_time_def rust_time_def)
    then show ?thesis using that by blast
  qed
  let ?nl = "ban_row off t count (ban_expiry off t count (draw (next_rowid (leases d))))"
  have "\<exists>i d'. insert_lease E ?nl d = Inr (i, d')"
    unfolding insert_lease_Inr_iff
    using assms count(2) ban_expiry_storable [of off t count "draw (next_rowid (leases d))"]
    by (auto simp: ban_row_def option.pred_set)
  then show ?thesis using count(1) by (auto simp: grant_lease_def Let_def)
qed

lemma apply_offense_total:
  assumes "(ei_source inp, ei_event_id inp, oi_policy off) \<notin> offense_keys d"
    and "offense_time inp off \<le> i64_max" "length (leases d) \<le> i64_max"
  shows "\<exists>out d'. apply_offense E draw inp off d = Inr (out, d')"
proof -
  have d1: "insert_offense (offense_record E inp off (int (offense_time inp off))) d = Inr (recorded E inp off d)"
    using assms(1) by (force simp: insert_offense_def recorded_def offense_keys_def list_ex_iff offense_record_def)
  let ?t = "offense_time inp off"
  have "length (leases (recorded E inp off d)) \<le> i64_max" using assms(3) by (simp add: recorded_def)
  then obtain l d' where "grant_lease E draw off ?t (int (?t - oi_findtime_secs off)) (int ?t) (recorded E inp off d) = Inr (l, d')"
    using grant_lease_total [OF assms(2)] by blast
  then show ?thesis
    unfolding apply_offense_Inr_iff using assms(2) d1
    by (cases "ban_active E off ?t (recorded E inp off d)";
        cases "window_attempts E off (int (?t - oi_findtime_secs off)) (int ?t) (recorded E inp off d) < oi_max_attempts off")
      auto
qed

lemma apply_offense_events: "apply_offense E draw inp off d = Inr (out, d') \<Longrightarrow> events d' = events d"
  unfolding apply_offense_Inr_iff
  by (auto simp: insert_offense_def consume_def insert_lease_Inr_iff split: if_splits dest!: grant_lease_Inr)

text \<open>An event of one offense that is not on record yet.\<close>

lemma process_event_total:
  assumes "keys_ok d" "(ei_source inp, ei_event_id inp) \<notin> event_keys d" "ei_offenses inp = [off]"
    and "ei_observed_at inp \<le> i64_max" "offense_time inp off \<le> i64_max" "length (leases d) \<le> i64_max"
  shows "\<exists>out d'. process_event E draw True inp d = (Inr out, d') \<and> \<not> duplicate out \<and>
    event_keys d' = insert (ei_source inp, ei_event_id inp) (event_keys d)"
proof -
  let ?d = "insert_event inp (int (ei_observed_at inp)) d"
  have unknown: "\<not> event_known inp d"
    using assms(2) by (force simp: event_known_def event_keys_def list_ex_iff)
  have "(ei_source inp, ei_event_id inp, oi_policy off) \<notin> offense_keys ?d"
    using assms(1,2) by (force simp: keys_ok_def offense_keys_def event_keys_def insert_event_def)
  moreover have "length (leases ?d) \<le> i64_max" using assms(6) by (simp add: insert_event_def)
  ultimately obtain out d1 where d1: "apply_offense E draw inp off ?d = Inr (out, d1)"
    using apply_offense_total assms(5) by blast
  obtain d2 where d2: "upsert_checkpoint E (ei_source inp) (ei_event_id inp) (ei_checkpoint inp) (ei_observed_at inp) d1 = Inr d2"
    "events d2 = events d1"
    using assms(4) by (simp add: upsert_checkpoint_def sql_time_def Let_def)
  have "event_keys d2 = insert (ei_source inp, ei_event_id inp) (event_keys d)"
    using d2(2) apply_offense_events [OF d1] by (auto simp: event_keys_def insert_event_def)
  with unknown d1 d2 assms(3,4) show ?thesis
    by (simp add: process_event_def transaction_def apply_event_def sql_time_def)
qed

lemma persist_retry_succeeds:
  assumes "process_event E draw True inp d = (Inr out, d')" "True \<in> set commits"
  shows "persist_retry E draw inp commits d = Some (outcome_leases out, d')"
  using assms(2)
proof (induction commits)
  case (Cons commit commits)
  show ?case
  proof (cases commit)
    case True
    with assms(1) show ?thesis by simp
  next
    case False
    then have "\<exists>e. process_event E draw commit inp d = (Inl e, d)"
      by (auto simp: process_event_def transaction_def split: sum.splits)
    with Cons False show ?thesis by auto
  qed
qed simp

text \<open>The sequence numbers handed out so far cover those on record for a source.\<close>

definition covers :: "string \<Rightarrow> u64 \<Rightarrow> db \<Rightarrow> bool" where
  "covers source n d \<longleftrightarrow> (\<forall>k. (source, listener_event_id source k) \<in> event_keys d \<longrightarrow> k \<le> n)"

lemma listener_event_id_inject [simp]: "listener_event_id s m = listener_event_id s n \<longleftrightarrow> m = n"
  by (simp add: listener_event_id_def)

text \<open>A connection to a listener is never lost to a database hiccup. As long as the counter
  covers the sequence numbers on record, the event gets a fresh id, the retry loop ends at the
  first commit the database accepts, however many it refused before, the offense is then on
  record (it is not taken for a duplicate), and the counter covers the new id.\<close>

theorem listener_offense_persisted:
  assumes "db_ok (de_store V) d" "covers (policy_source p) n d" "n < u64_max"
    and "bump_sequence (policy_source p) sequences = (sequence, sequences')"
    and "map_of sequences (policy_source p) = Some n"
    and "w_now w \<le> i64_max" "length (leases d) \<le> i64_max" "True \<in> set commits"
  shows "\<exists>created d'. persist_retry (de_store V) (w_draw w) (listener_event V w st name p network sequence) commits d =
      Some (created, d') \<and>
    (policy_source p, listener_event_id (policy_source p) sequence, name) \<in> offense_keys d' \<and>
    covers (policy_source p) sequence d'"
proof -
  let ?inp = "listener_event V w st name p network sequence"
  have inp: "ei_source ?inp = policy_source p" "ei_event_id ?inp = listener_event_id (policy_source p) sequence"
    "ei_observed_at ?inp = w_now w" by (simp_all add: listener_event_def)
  obtain off where off: "ei_offenses ?inp = [off]" "oi_policy off = name" "offense_time ?inp off = w_now w"
    by (simp add: listener_event_def offense_input_of_def offense_time_def)
  have seq: "sequence = Suc n"
    using assms(3-5) by (simp add: bump_sequence_def Let_def sat_add64_def)
  have "(policy_source p, listener_event_id (policy_source p) sequence) \<notin> event_keys d"
    using assms(2) seq by (auto simp: covers_def)
  then obtain out d' where ev: "process_event (de_store V) (w_draw w) True ?inp d = (Inr out, d')" "\<not> duplicate out"
    and keys: "event_keys d' = insert (policy_source p, listener_event_id (policy_source p) sequence) (event_keys d)"
    using process_event_total [of d ?inp off "de_store V" "w_draw w"] assms(1,6,7) inp off by (auto simp: db_ok_def)
  have "apply_event (de_store V) (w_draw w) ?inp d = Inr (out, d')"
    using ev(1) by (auto simp: process_event_def transaction_def split: sum.splits)
  from apply_event_records [OF this] ev(2) off inp
  have "(policy_source p, listener_event_id (policy_source p) sequence, name) \<in> offense_keys d'" by simp
  moreover have "covers (policy_source p) sequence d'"
    using assms(2) keys seq by (auto simp: covers_def intro: le_SucI)
  ultimately show ?thesis using persist_retry_succeeds [OF ev(1) assms(8)] by blast
qed

section \<open>The loop\<close>

fun sent :: "loop_event list \<Rightarrow> source_record list" where
  "sent [] = []"
| "sent (Sent rec # evs) = rec # sent evs"
| "sent (_ # evs) = sent evs"

fun batched :: "loop_event list \<Rightarrow> source_record list" where
  "batched [] = []"
| "batched (Batch recs # evs) = recs @ batched evs"
| "batched (_ # evs) = batched evs"

lemma sent_append [simp]: "sent (xs @ ys) = sent xs @ sent ys"
  by (induction xs rule: sent.induct) auto

lemma batched_append [simp]: "batched (xs @ ys) = batched xs @ batched ys"
  by (induction xs rule: batched.induct) auto

lemma loop_after_simps [simp]:
  "loop_queue (loop_after x b l) = loop_queue l"
  "loop_closed (loop_after x b l) = loop_closed l"
  by (simp_all add: loop_after_def split: sum.splits prod.splits)

lemma loop_after_ready: "df_processor_ready (loop_defense (loop_after x b l)) \<Longrightarrow> b"
  by (auto simp: loop_after_def split: sum.splits prod.splits)

text \<open>Records are processed in the order they were sent and none is lost or processed twice:
  at every moment of every run, what was queued at the start followed by what was sent since is
  what has been handed to the store followed by what is still queued, no batch exceeds 256
  records, and the queue never exceeds its capacity.\<close>

theorem loop_fifo:
  assumes "loop_run V l evs l'" "length (loop_queue l) \<le> RECORD_QUEUE"
  shows "loop_queue l @ sent evs = batched evs @ loop_queue l' \<and>
    length (loop_queue l') \<le> RECORD_QUEUE \<and> (\<forall>recs. Batch recs \<in> set evs \<longrightarrow> length recs \<le> RECORD_BATCH)"
  using assms
proof (induction rule: loop_run.induct)
  case (start l)
  then show ?case by simp
next
  case (more l evs l' ev l'')
  from more.hyps(2) more.IH [OF more.prems] show ?case
    by (cases rule: loop_step.cases) auto
qed

lemma loop_run_closed:
  assumes "loop_run V l evs l'" "loop_closed l \<longrightarrow> \<not> df_processor_ready (loop_defense l)"
  shows "loop_closed l' \<longrightarrow> \<not> df_processor_ready (loop_defense l')"
  using assms
proof (induction rule: loop_run.induct)
  case (more l evs l' ev l'')
  from more.hyps(2) more.IH [OF more.prems] show ?case
    by (cases rule: loop_step.cases) (auto dest: loop_after_ready)
qed

lemma loop_step_closed: "loop_step V l ev l' \<Longrightarrow> loop_closed l \<Longrightarrow> loop_closed l'"
  by (erule loop_step.cases) auto

text \<open>Work left once the channel is closed.\<close>

definition loop_fuel :: "('net, 're) loop \<Rightarrow> nat" where
  "loop_fuel l = length (loop_queue l) + (if loop_result l = None then 1 else 0)"

lemma loop_after_result: "loop_result (loop_after x b l) = None \<Longrightarrow> loop_result l = None"
  by (auto simp: loop_after_def split: sum.splits prod.splits)

lemma loop_step_fuel: "loop_step V l ev l' \<Longrightarrow> loop_closed l \<Longrightarrow> loop_fuel l' < loop_fuel l"
  by (erule loop_step.cases) (auto simp: loop_fuel_def RECORD_BATCH_def)

lemma loop_run_fuel:
  assumes "loop_run V l evs l'" "loop_closed l"
  shows "loop_closed l' \<and> length evs + loop_fuel l' \<le> loop_fuel l"
  using assms
proof (induction rule: loop_run.induct)
  case (more l evs l' ev l'')
  with loop_step_fuel [OF more.hyps(2)] loop_step_closed [OF more.hyps(2)] show ?case by auto
qed simp

lemma loop_progress:
  assumes "loop_closed l" "loop_result l = None"
  shows "\<exists>ev l'. loop_step V l ev l'"
proof (cases "loop_queue l = []")
  case True
  with assms show ?thesis by (blast intro: loop_step.drained)
next
  case False
  with assms show ?thesis by (blast intro: loop_step.batch)
qed

text \<open>Shutting down drains the queue and ends. Once the channel is closed the loop never
  reports ready again, it cannot get stuck before it has returned, and every run from there has
  at most as many steps as there are queued records, plus one to return.\<close>

theorem loop_shutdown:
  assumes "loop_run V l evs l'" "loop_closed l" "loop_result l = None" "\<not> df_processor_ready (loop_defense l)"
  shows "length evs \<le> length (loop_queue l) + 1 \<and>
    \<not> df_processor_ready (loop_defense l') \<and>
    (loop_result l' = None \<longrightarrow> (\<exists>ev l''. loop_step V l' ev l''))"
  using loop_run_fuel [OF assms(1,2)] loop_run_closed [OF assms(1)] loop_progress assms(3,4)
  by (auto simp: loop_fuel_def [of l])

end
