(* ===== verification/Defense_Examples.thy ===== *)
theory Defense_Examples
  imports Defense_Records
begin

text \<open>
  A small defense plane (one file source, one policy that drops at the first attempt, the
  address 0.0.0.1 protected, and the database of \<open>ex_db\<close> with its one lease) on which the
  theorems about the defense plane are applied.
\<close>

definition ex_policy :: policy where
  "ex_policy = \<lparr> policy_source = ''auth'', policy_detector = ex_detector, policy_ignore_networks = [],
     policy_max_attempts = 1, policy_findtime_secs = 600, policy_ban = ex_schedule, policy_action = DropAll \<rparr>"

definition ex_config :: config where
  "ex_config = \<lparr> cfg_listeners = [], cfg_sources = [(''auth'', File ''/l'' End 1000 4096)],
     cfg_policies = [(''ssh'', ex_policy)],
     cfg_enforcement = \<lparr> enforcement_mode = ObserveMode, enforcement_table = ''bagel'',
       enforcement_chain_priority = 0, reconcile_interval_secs = 30 \<rparr>,
     cfg_database_path = ''/d'', cfg_history_retention_secs = 86400, cfg_journalctl_path = ''/j'',
     cfg_nft_path = ''/n'', cfg_protected_networks = [], cfg_min_delay_ms = 1, cfg_max_delay_ms = 2,
     cfg_max_tarpit_secs = 60, cfg_tarpit_chunk_min_bytes = 1, cfg_tarpit_chunk_max_bytes = 2,
     cfg_max_tarpit_conns = 10, cfg_max_tarpit_conns_per_ip = 2, cfg_tarpit_write_timeout_secs = 5,
     cfg_max_connections = 100, cfg_proxy_protocol = False, cfg_trusted_proxies = [],
     cfg_trap_patterns = [], cfg_trap_user_agents = [], cfg_whitelist_networks = [],
     cfg_verified_crawlers = [], cfg_no_block_networks = [] \<rparr>"

definition ex_denv :: "(cidr, string, string) defense_env" where
  "ex_denv = \<lparr> de_store = ex_env, de_detector = ex_detector_env, de_socket_port = (\<lambda>_. Some 22) \<rparr>"

lemma ex_denv_simps [simp]: "de_store ex_denv = ex_env" "de_net ex_denv = cidr"
  by (simp_all add: ex_denv_def de_net_def)

definition ex_defense :: "db \<Rightarrow> (cidr, string) defense" where
  "ex_defense d = \<lparr> df_config = ex_config, df_firewall = firewall_new ''bagel'' 0 False, df_store = d,
     df_active = [], df_policies = [(''ssh'', \<lparr> cpol_policy = ex_policy, cpol_detector = ex_compiled, cpol_ignored = [] \<rparr>)],
     df_protected = [(V4 1, 32)], df_no_block = [], df_source_ready = [(''auth'', True)], df_sequences = [(''auth'', 4)],
     df_listener_locks = [], df_processor_ready = False, df_web_taken = [] \<rparr>"

definition ex_world :: world where
  "ex_world = \<lparr> w_now = 1100, w_local = Inr [], w_nft = (\<lambda>_. Inr ()), w_commit_events = True,
     w_commit_marks = True, w_commit_prune = True, w_draw = (\<lambda>_. 0) \<rparr>"

lemma ex_world_simps [simp]: "w_now ex_world = 1100" "w_local ex_world = Inr []" "w_commit_marks ex_world"
  by (simp_all add: ex_world_def)

lemma ex_defense_simps [simp]:
  "df_store (ex_defense d) = d" "df_protected (ex_defense d) = [(V4 1, 32)]" "df_no_block (ex_defense d) = []"
  "df_config (ex_defense d) = ex_config" "df_firewall (ex_defense d) = firewall_new ''bagel'' 0 False"
  "(ex_defense d)\<lparr> df_store := d' \<rparr> = ex_defense d'"
  by (simp_all add: ex_defense_def)

lemma ex_unprotected: "is_protected ex_denv (Inr []) (ex_defense d) ex_net = Inr False"
  by (simp add: is_protected_def networks_overlap_def ex_net_def)

lemma ex_plan:
  "plan_leases ex_denv (Inr []) (ex_defense d) [ex_lease] =
     Inr \<lparr> plan_memberships = [\<lparr> mem_network = ex_net, mem_scope = all_ports VDrop \<rparr>],
           plan_protected = [], plan_spared = [] \<rparr>"
  by (simp add: ex_lease_def ex_unprotected is_no_block_network_def membership_of_def)

theorem untouchable_never_enforced_witness:
  "\<not> selects cidr \<lparr> mem_network = ex_net, mem_scope = all_ports VDrop \<rparr>
       \<lparr> pkt_source = V4 1, pkt_protocol = PTcp, pkt_port = 22 \<rparr>"
  using untouchable_never_enforced [of ex_denv, OF _ _ ex_plan] cidr_semantics cidr_hosts
  by (simp add: untouchable_def)

lemma cidr_parse_show: "cidr_parse (cidr_show n) = Some n"
  using cidr_text unfolding net_text_def cidr_simps by (rule spec)

lemma ex_parse: "defense_parse_network cidr (cidr_show n) = Inr n"
proof -
  have "CHR ''/'' \<in> set (cidr_show n)" by (cases n rule: cidr_show.cases) auto
  then show ?thesis by (simp add: defense_parse_network_def ok_or_def cidr_parse_show)
qed

theorem manual_block_refused_witness:
  "\<exists>e. defense_manual_block ex_denv ex_world (cidr_show (V4 1, 32)) None (ex_defense ex_db) = (Inl e, ex_defense ex_db)"
proof (rule manual_block_refused)
  show "defense_parse_network (de_net ex_denv) (cidr_show (V4 1, 32)) = Inr (V4 1, 32)"
    using ex_parse by (simp only: ex_denv_simps)
qed (simp add: is_protected_def networks_overlap_def)

lemma ex_config_valid: "validate_config cidr ex_regex (\<lambda>_. Some 22) ex_config = Inr ()"
  by (simp add: validate_config_def ex_config_def validate_dribble_def fail_if_def max_tarpit_secs_limit_def
      validate_defense_def valid_table_name_def is_alphanumeric_def is_lower_def is_upper_def is_digit_def
      validate_cidrs_def validate_sources_def validate_source_def validate_policies_def validate_policy_def
      ex_policy_def validate_ban_schedule_def ex_schedule_def ex_detector_def ex_regex_def
      validate_capture_name_def validate_regex_patterns_def compile_regex_def ok_or_def validate_timestamp_format_def)

theorem validated_membership_witness:
  "\<exists>m. membership_of (\<lambda>_. Some 22) ex_config ex_lease = Inr m \<and> (m = None \<longleftrightarrow> lease_action ex_lease = Observe)"
  by (rule validated_membership [OF ex_config_valid]) (simp add: ex_lease_def)

lemma ex_db_ok: "db_ok ex_env ex_db"
  unfolding ex_db_reached by (rule reachable_ok)

lemma ex_enforceable:
  "\<forall>r \<in> set (leases ex_db). \<forall>a. lease_live (int (w_now ex_world)) r \<and>
     action_of_json (de_store ex_denv) (lr_action r) = Some a \<longrightarrow>
     enforceable (de_socket_port ex_denv) (df_config (ex_defense ex_db)) a"
  by (simp add: ex_db_leases ex_row_def ex_env_def enforceable_def)

lemma ex_hosts: "net_hosts (de_net ex_denv)" "codec_ok (de_store ex_denv)"
  by (simp_all add: cidr_hosts ex_env_codec)

theorem reconcile_settles_leases_witness:
  "db_ok ex_env (df_store (snd (reconcile ex_denv ex_world (ex_defense ex_db))))"
  using reconcile_settles_leases [of ex_denv "ex_defense ex_db" ex_world "[]"
      "fst (reconcile ex_denv ex_world (ex_defense ex_db))" "snd (reconcile ex_denv ex_world (ex_defense ex_db))"]
    ex_db_ok ex_hosts ex_enforceable
  by (simp add: width_simps)

definition ex_stale :: "cidr lease" where
  "ex_stale = ex_lease\<lparr> lease_action := TarpitRedirect Tcp [22] ''gone'' \<rparr>"

definition ex_stale_db :: db where
  "ex_stale_db = create_schema\<lparr> leases := [ex_row\<lparr> lr_action := action_json ex_env (TarpitRedirect Tcp [22] ''gone'') \<rparr>] \<rparr>"

lemma ex_stale_active: "active_leases ex_env 1100 (started 1100 ex_stale_db) = Inr [ex_stale]"
  by (simp add: active_leases_def sql_time_def width_simps started_def update_leases_def ex_stale_db_def
      ex_row_def lease_live_def decode_lease_def rust_time_def ex_stale_def ex_lease_def ok_or_def ex_env_def
      cidr_parse_show)

lemma ex_stale_simps:
  "lease_action ex_stale = TarpitRedirect Tcp [22] ''gone''" "lease_network ex_stale = ex_net"
  by (simp_all add: ex_stale_def ex_lease_def)

theorem stale_redirect_stops_reconcile_witness:
  "\<exists>e st'. reconcile ex_denv ex_world (ex_defense ex_stale_db) = (Inl e, st') \<and>
     df_firewall st' = df_firewall (ex_defense ex_stale_db)"
  using stale_redirect_stops_reconcile [of ex_denv ex_world "ex_defense ex_stale_db" "[ex_stale]" ex_stale Tcp "[22]" "''gone''"]
  by (simp add: ex_stale_active ex_stale_simps ex_unprotected is_no_block_network_def ex_config_def)

definition ex_record :: source_record where
  "ex_record = \<lparr> sr_source = ''auth'', sr_id = ''1'', sr_payload = ''x'', sr_correlation = Some ''k'',
     sr_observed_at = 1000, sr_checkpoint = FileCheckpoint 0 0 1 0 [], sr_oversized = False \<rparr>"

theorem new_leases_respect_exclusions_witness:
  "list_all (\<lambda>r. bare r \<in> bare ` set (leases ex_db) \<or>
       (\<exists>off. admissible ex_denv ex_world (ex_defense ex_db) off \<and> from_offense ex_env off r))
     (leases (df_store (snd (process_records ex_denv ex_world [ex_record] (ex_defense ex_db)))))"
  using new_leases_respect_exclusions [of ex_denv ex_world "[ex_record]" "ex_defense ex_db"
      "fst (process_records ex_denv ex_world [ex_record] (ex_defense ex_db))"
      "snd (process_records ex_denv ex_world [ex_record] (ex_defense ex_db))"]
  by (simp add: list_all_iff)

text \<open>The example's firewall only observes, so a reconciliation of its leases succeeds.\<close>

lemma ex_reconcile:
  assumes "db_ok ex_env d" "\<forall>r \<in> set (leases d). \<forall>a. action_of_json ex_env (lr_action r) = Some a \<longrightarrow>
    enforceable (de_socket_port ex_denv) ex_config a"
  obtains st' where "reconcile ex_denv ex_world (ex_defense d) = (Inr (), st')"
proof -
  obtain r st' where rec: "reconcile ex_denv ex_world (ex_defense d) = (r, st')" by fastforce
  then obtain ms where "firewall_reconcile cidr (w_nft ex_world) ms (firewall_new ''bagel'' 0 False) = (r, df_firewall st')"
    using reconcile_settled [of ex_denv "ex_defense d" ex_world "[]" r st'] assms ex_hosts
    by (auto simp: width_simps)
  then have "r = Inr ()" by (simp add: firewall_reconcile_def firewall_new_def)
  with rec that show ?thesis by simp
qed

lemma ex_row_action: "action_of_json ex_env (lr_action ex_row) = Some DropAll"
  by (simp add: ex_row_def ex_env_def)

theorem active_set_mirrors_leases_witness:
  "\<exists>st'. reconcile ex_denv ex_world (ex_defense ex_db) = (Inr (), st') \<and> (V4 1, 32) \<notin> set (df_active st')"
proof -
  obtain st' where rec: "reconcile ex_denv ex_world (ex_defense ex_db) = (Inr (), st')"
    by (rule ex_reconcile [OF ex_db_ok]) (auto simp: ex_db_leases ex_row_action enforceable_def)
  have "is_protected ex_denv (w_local ex_world) (ex_defense ex_db) (V4 1, 32) = Inr True"
    by (simp add: is_protected_def networks_overlap_def)
  with active_set_mirrors_leases [OF rec, of "(V4 1, 32)"] ex_db_ok rec show ?thesis by auto
qed

theorem unblock_effect_witness:
  "\<exists>st'. defense_unblock ex_denv ex_world (cidr_show ex_net) (ex_defense ex_db) = (Inr 1, st') \<and> ex_net \<notin> set (df_active st')"
proof -
  have ok: "db_ok ex_env ex_unblocked"
    using manual_unblock_ok [OF ex_db_ok, of ex_net 1100] ex_manual_unblock by (simp add: autocommit_def)
  obtain st' where rec: "reconcile ex_denv ex_world (ex_defense ex_unblocked) = (Inr (), st')"
    by (rule ex_reconcile [OF ok])
      (auto simp: ex_unblocked_def update_leases_def ex_db_leases ex_row_action enforceable_def split: if_splits)
  have un: "defense_unblock ex_denv ex_world (cidr_show ex_net) (ex_defense ex_db) = (Inr 1, st')"
    using ex_manual_unblock rec ex_parse [of ex_net] by (simp add: defense_unblock_def)
  have "ex_net \<notin> set (df_active st')"
    using unblock_effect [OF _ _ _ un, of ex_net] ex_hosts ex_db_ok ex_parse [of ex_net] by simp
  with un show ?thesis by blast
qed

theorem expire_keeps_windows_witness:
  "window_attempts ex_env (ex_offense 1) 600 1200 (df_store (snd (defense_expire ex_world (ex_defense ex_db)))) =
     window_attempts ex_env (ex_offense 1) 600 1200 ex_db"
  using expire_keeps_windows [of ex_world "ex_defense ex_db" "fst (defense_expire ex_world (ex_defense ex_db))"
      "snd (defense_expire ex_world (ex_defense ex_db))" "''ssh''"
      "\<lparr> cpol_policy = ex_policy, cpol_detector = ex_compiled, cpol_ignored = [] \<rparr>" "ex_offense 1" 1200 ex_env]
  by (simp add: ex_defense_def [of ex_db] ex_offense_def ex_policy_def)

lemma ex_listener_facts [simp]:
  "policy_source ex_policy = ''auth''" "w_draw ex_world = (\<lambda>_. 0)" "covers s 4 create_schema"
  "length (leases create_schema) \<le> i64_max" "4 < u64_max" "1100 \<le> i64_max"
  "bump_sequence ''auth'' [(''auth'', 4)] = (5, [(''auth'', 5)])" "db_ok ex_env create_schema"
  by (simp_all add: ex_policy_def ex_world_def covers_def event_keys_def create_schema_def width_simps
      bump_sequence_def sat_add64_def db_ok_create_schema [unfolded create_schema_def])

theorem listener_offense_persisted_witness:
  "\<exists>created d'. persist_retry ex_env (\<lambda>_. 0)
       (listener_event ex_denv ex_world (ex_defense create_schema) ''ssh'' ex_policy ex_net 5) [False, True] create_schema =
       Some (created, d') \<and> (''auth'', listener_event_id ''auth'' 5, ''ssh'') \<in> offense_keys d'"
  using listener_offense_persisted [of ex_denv create_schema ex_policy 4 "[(''auth'', 4)]" 5 "[(''auth'', 5)]" ex_world
      "[False, True]" "ex_defense create_schema" "''ssh''" ex_net]
    ex_listener_facts by auto

definition ex_loop :: "bool \<Rightarrow> (cidr, string) loop" where
  "ex_loop closed = \<lparr> loop_defense = ex_defense create_schema, loop_queue = [], loop_closed = closed, loop_result = None \<rparr>"

lemma ex_loop_sent: "loop_run ex_denv (ex_loop False) [Sent ex_record] ((ex_loop False)\<lparr> loop_queue := [ex_record] \<rparr>)"
  using loop_run.more [OF loop_run.start loop_step.send [of "ex_loop False" ex_denv ex_record]]
  by (simp add: ex_loop_def RECORD_QUEUE_def)

theorem loop_fifo_witness: "[] @ sent [Sent ex_record] = batched [Sent ex_record] @ [ex_record]"
  using loop_fifo [OF ex_loop_sent] by (simp add: ex_loop_def)

lemma ex_loop_drained: "loop_run ex_denv (ex_loop True) [Returned] ((ex_loop True)\<lparr> loop_result := Some (Inr ()) \<rparr>)"
  using loop_run.more [OF loop_run.start loop_step.drained [of "ex_loop True" ex_denv]]
  by (simp add: ex_loop_def)

theorem loop_shutdown_witness:
  "length [Returned] \<le> length (loop_queue (ex_loop True)) + 1 \<and> \<not> df_processor_ready (loop_defense (ex_loop True))"
  using loop_shutdown [OF ex_loop_drained] by (simp add: ex_loop_def ex_defense_def)

end
