(* ===== verification/Rate_Tracker.thy ===== *)
theory Rate_Tracker
  imports Ip_Network
begin

text \<open>
  bagel-web/src/net/rate.rs and the source-network identity of bagel-web/src/lib.rs: per-key
  event counts over sixty buckets of time, in a ring buffer, sharded and evicted in LRU order.
  The hash that picks a shard is an argument. The ring buffer is shown to be an exact sliding
  window over the ticks recorded (up to the saturation of \<open>u32\<close>), and the number of entries is
  bounded. A \<open>HashMap\<close> is an association list with distinct keys, in no particular order.
\<close>

section \<open>Source networks\<close>

datatype source_network = SN4 "byte list" | SN6 "byte list"

definition octets4 :: "32 word \<Rightarrow> byte list" where
  "octets4 w = map (\<lambda>i. ucast (drop_bit (8 * i) w)) [3, 2, 1, 0]"

definition octets6 :: "128 word \<Rightarrow> byte list" where
  "octets6 w = map (\<lambda>i. ucast (drop_bit (8 * i) w)) [15, 14, 13, 12, 11, 10, 9, 8, 7, 6, 5, 4, 3, 2, 1, 0]"

fun from_ip :: "ip_addr \<Rightarrow> source_network" where
  "from_ip (V4 w) = SN4 ((octets4 w)[3 := 0])"
| "from_ip (V6 w) = SN6 (take 8 (octets6 w) @ replicate 8 0)"

fun network_to_bytes :: "source_network \<Rightarrow> byte list" where
  "network_to_bytes (SN4 oct) = [0x04, 0x18] @ oct"
| "network_to_bytes (SN6 oct) = [0x06, 0x40] @ oct"

section \<open>The tracker\<close>

definition WINDOW :: nat where "WINDOW = 60"
definition SHARD_COUNT :: nat where "SHARD_COUNT = 64"

record rate_snapshot =
  last_1 :: u32
  last_10 :: u32
  last_60 :: u32

type_synonym rate_key = "string \<times> source_network"

record rate_entry =
  buckets :: "u32 list"
  last_tick :: u64
  last_used :: u64

record shard =
  sh_entries :: "(rate_key \<times> rate_entry) list"
  sh_used :: u64

record tracker =
  tr_shards :: "shard list"
  tr_shard_capacity :: usize
  tr_capacity :: usize

definition tracker_new :: "usize \<Rightarrow> tracker" where
  "tracker_new capacity =
     \<lparr> tr_shards = replicate SHARD_COUNT \<lparr> sh_entries = [], sh_used = 0 \<rparr>,
       tr_shard_capacity = max ((capacity + SHARD_COUNT - 1) div SHARD_COUNT) 1,
       tr_capacity = capacity \<rparr>"

definition fresh_entry :: "u64 \<Rightarrow> u64 \<Rightarrow> rate_entry" where
  "fresh_entry tick used = \<lparr> buckets = replicate WINDOW 0, last_tick = tick, last_used = used \<rparr>"

text \<open>The loop that clears the buckets of the ticks that passed unseen.\<close>

definition clear_buckets :: "u64 \<Rightarrow> nat \<Rightarrow> u32 list \<Rightarrow> u32 list" where
  "clear_buckets tick stale bs = fold (\<lambda>offset b. b[(tick - offset) mod WINDOW := 0]) [0..<stale] bs"

definition advance :: "u64 \<Rightarrow> rate_entry \<Rightarrow> rate_entry" where
  "advance tick e =
     (if last_tick e < tick
      then e\<lparr> buckets := clear_buckets tick (min (tick - last_tick e) WINDOW) (buckets e), last_tick := tick \<rparr>
      else e)"

definition count_event :: "u64 \<Rightarrow> rate_entry \<Rightarrow> rate_entry" where
  "count_event tick e =
     e\<lparr> buckets := (buckets e)[tick mod WINDOW := sat_add32 (buckets e ! (tick mod WINDOW)) 1] \<rparr>"

definition bucket_sum :: "u32 list \<Rightarrow> u64 \<Rightarrow> nat \<Rightarrow> nat \<Rightarrow> u32" where
  "bucket_sum bs tick from until =
     fold (\<lambda>x acc. sat_add32 acc x) (map (\<lambda>offset. bs ! ((tick + WINDOW - offset) mod WINDOW)) [from..<until]) 0"

definition record_entry :: "u64 \<Rightarrow> u64 \<Rightarrow> rate_entry \<Rightarrow> rate_entry" where
  "record_entry tick used e = count_event tick (advance tick (e\<lparr> last_used := used \<rparr>))"

definition record_snapshot :: "u64 \<Rightarrow> rate_entry \<Rightarrow> rate_snapshot" where
  "record_snapshot tick e =
     \<lparr> last_1 = buckets e ! (tick mod WINDOW),
       last_10 = bucket_sum (buckets e) tick 0 (min 10 (tick + 1)),
       last_60 = bucket_sum (buckets e) tick 0 (min 60 (tick + 1)) \<rparr>"

definition peek_entry :: "u64 \<Rightarrow> rate_entry \<Rightarrow> rate_snapshot" where
  "peek_entry tick e =
     (let stale = tick - last_tick e in
      \<lparr> last_1 = (if stale = 0 then buckets e ! (tick mod WINDOW) else 0),
        last_10 = bucket_sum (buckets e) tick stale (min 10 (tick + 1)),
        last_60 = bucket_sum (buckets e) tick stale (min 60 (tick + 1)) \<rparr>)"

definition least_used :: "(rate_key \<times> rate_entry) list \<Rightarrow> rate_key option" where
  "least_used entries =
     (case entries of [] \<Rightarrow> None
      | x # xs \<Rightarrow> Some (fst (fold (\<lambda>y x. if last_used (snd y) < last_used (snd x) then y else x) xs x)))"

definition evict :: "u64 \<Rightarrow> (rate_key \<times> rate_entry) list \<Rightarrow> (rate_key \<times> rate_entry) list" where
  "evict tick entries =
     (let kept = filter (\<lambda>(_, e). tick < last_tick e + WINDOW) entries in
      case least_used kept of None \<Rightarrow> kept | Some k \<Rightarrow> filter (\<lambda>(k', _). k' \<noteq> k) kept)"

text \<open>\<open>HashMap::insert\<close>, for any map kept as an association list.\<close>

definition put_entry :: "'k \<Rightarrow> 'v \<Rightarrow> ('k \<times> 'v) list \<Rightarrow> ('k \<times> 'v) list" where
  "put_entry k e entries = (k, e) # filter (\<lambda>(k', _). k' \<noteq> k) entries"

definition shard_record :: "usize \<Rightarrow> rate_key \<Rightarrow> u64 \<Rightarrow> shard \<Rightarrow> rate_snapshot \<times> shard" where
  "shard_record capacity key tick s =
     (let used = sh_used s + 1;
          entries = (if map_of (sh_entries s) key = None \<and> capacity \<le> length (sh_entries s)
                     then evict tick (sh_entries s) else sh_entries s);
          e = record_entry tick used (case map_of entries key of None \<Rightarrow> fresh_entry tick used | Some e \<Rightarrow> e)
      in (record_snapshot tick e, \<lparr> sh_entries = put_entry key e entries, sh_used = used \<rparr>))"

definition record_at :: "(rate_key \<Rightarrow> nat) \<Rightarrow> rate_key \<Rightarrow> u64 \<Rightarrow> tracker \<Rightarrow> rate_snapshot \<times> tracker" where
  "record_at hash key tick t =
     (let i = hash key mod SHARD_COUNT;
          (snapshot, s) = shard_record (tr_shard_capacity t) key tick (tr_shards t ! i)
      in (snapshot, t\<lparr> tr_shards := (tr_shards t)[i := s] \<rparr>))"

definition peek_at :: "(rate_key \<Rightarrow> nat) \<Rightarrow> rate_key \<Rightarrow> u64 \<Rightarrow> tracker \<Rightarrow> rate_snapshot" where
  "peek_at hash key tick t =
     (case map_of (sh_entries (tr_shards t ! (hash key mod SHARD_COUNT))) key of
        None \<Rightarrow> \<lparr> last_1 = 0, last_10 = 0, last_60 = 0 \<rparr>
      | Some e \<Rightarrow> peek_entry tick e)"

definition tracker_len :: "tracker \<Rightarrow> nat" where
  "tracker_len t = sum_list (map (\<lambda>s. length (sh_entries s)) (tr_shards t))"

section \<open>The ring buffer is an exact window\<close>

text \<open>The specification: how many of the recorded ticks lie less than \<open>span\<close> ticks back.\<close>

definition window_count :: "nat list \<Rightarrow> u64 \<Rightarrow> nat \<Rightarrow> u32" where
  "window_count ticks now span = min (length (filter (\<lambda>s. now < s + span) ticks)) u32_max"

definition entry_agrees :: "rate_entry \<Rightarrow> nat list \<Rightarrow> bool" where
  "entry_agrees e ticks \<longleftrightarrow>
     length (buckets e) = WINDOW \<and> (\<forall>s \<in> set ticks. s \<le> last_tick e) \<and>
     (\<forall>s. s \<le> last_tick e \<and> last_tick e < s + WINDOW \<longrightarrow>
        buckets e ! (s mod WINDOW) = min (count_list ticks s) u32_max)"

lemma clear_buckets_length [simp]: "length (clear_buckets tick stale bs) = length bs"
proof -
  have "length (fold (\<lambda>offset b. b[(tick - offset) mod WINDOW := 0]) offs bs) = length bs" for offs
    by (induction offs arbitrary: bs) auto
  then show ?thesis by (simp add: clear_buckets_def)
qed

lemma clear_buckets_nth:
  assumes "i < length bs"
  shows "clear_buckets tick stale bs ! i = (if \<exists>offset < stale. (tick - offset) mod WINDOW = i then 0 else bs ! i)"
proof -
  have "fold (\<lambda>offset b. b[(tick - offset) mod WINDOW := 0]) offs bs ! i =
      (if \<exists>offset \<in> set offs. (tick - offset) mod WINDOW = i then 0 else bs ! i)"
    if "i < length bs" for offs and bs :: "u32 list"
    using that by (induction offs arbitrary: bs) (auto simp: nth_list_update)
  from this [OF assms, of "[0..<stale]"] show ?thesis
    by (auto simp: clear_buckets_def)
qed

lemma mod_window_distinct:
  assumes "s < t" "t < s + WINDOW"
  shows "t mod WINDOW \<noteq> s mod WINDOW"
  using assms mod_eq_dvd_iff_nat [of s t WINDOW] by (auto simp: WINDOW_def dest!: dvd_imp_le)

lemma fresh_agrees: "entry_agrees (fresh_entry tick used) []"
  by (simp add: entry_agrees_def fresh_entry_def WINDOW_def)

lemma advance_agrees:
  assumes "entry_agrees e ticks" "last_tick e \<le> tick"
  shows "entry_agrees (advance tick e) ticks \<and> last_tick (advance tick e) = tick"
proof (cases "last_tick e < tick")
  case False
  with assms show ?thesis by (simp add: advance_def)
next
  case True
  let ?stale = "min (tick - last_tick e) WINDOW"
  have "clear_buckets tick ?stale (buckets e) ! (s mod WINDOW) = min (count_list ticks s) u32_max"
    if s: "s \<le> tick" "tick < s + WINDOW" for s
  proof -
    have len: "s mod WINDOW < length (buckets e)"
      using assms(1) by (simp add: entry_agrees_def WINDOW_def)
    show ?thesis
    proof (cases "last_tick e < s")
      case True
      then have "tick - s < ?stale" "(tick - (tick - s)) mod WINDOW = s mod WINDOW"
        using s by auto
      then have "clear_buckets tick ?stale (buckets e) ! (s mod WINDOW) = 0"
        using clear_buckets_nth [OF len] by metis
      moreover have "s \<notin> set ticks" using assms(1) True by (auto simp: entry_agrees_def)
      ultimately show ?thesis by (simp add: count_list_0_iff)
    next
      case False
      have "(tick - offset) mod WINDOW \<noteq> s mod WINDOW" if "offset < ?stale" for offset
        using that s False by (intro mod_window_distinct) auto
      then have "clear_buckets tick ?stale (buckets e) ! (s mod WINDOW) = buckets e ! (s mod WINDOW)"
        using clear_buckets_nth [OF len] by auto
      with assms(1) False s \<open>last_tick e < tick\<close> show ?thesis by (auto simp: entry_agrees_def)
    qed
  qed
  with True assms show ?thesis by (auto simp: advance_def entry_agrees_def)
qed

lemma count_agrees:
  assumes "entry_agrees e ticks" "last_tick e = tick"
  shows "entry_agrees (count_event tick e) (ticks @ [tick])"
proof -
  have "tick mod WINDOW \<noteq> s mod WINDOW" if "s \<le> tick" "tick < s + WINDOW" "s \<noteq> tick" for s
    using mod_window_distinct [of s tick] that by simp
  moreover have "tick mod WINDOW < length (buckets e)"
    using assms(1) by (simp add: entry_agrees_def WINDOW_def)
  moreover have "buckets e ! (tick mod WINDOW) = min (count_list ticks tick) u32_max"
    using assms by (simp add: entry_agrees_def WINDOW_def)
  ultimately show ?thesis
    using assms by (auto simp: entry_agrees_def count_event_def nth_list_update sat_add32_def)
qed

lemma fold_sat_add32:
  "acc \<le> u32_max \<Longrightarrow> fold (\<lambda>x acc. sat_add32 acc x) xs acc = min (acc + sum_list xs) u32_max"
proof (induction xs arbitrary: acc)
  case (Cons x xs)
  have "min (min (acc + x) u32_max + sum_list xs) u32_max = min (acc + x + sum_list xs) u32_max"
    by (auto simp: min_def)
  with Cons show ?case by (simp add: sat_add32_def add.assoc)
qed simp

lemma min_sum_list: "min (sum_list (map (\<lambda>x. min (f x) m) xs)) m = min (sum_list (map f xs)) (m :: nat)"
  by (induction xs) (auto simp: min_def split: if_splits)

lemma sum_count_list:
  fixes ticks :: "nat list"
  shows "(\<forall>s \<in> set ticks. s + from \<le> now) \<Longrightarrow>
     (\<Sum>offset = from..<min span (now + 1). count_list ticks (now - offset)) = length (filter (\<lambda>s. now < s + span) ticks)"
proof (induction ticks)
  case (Cons t ticks)
  let ?I = "{from..<min span (now + 1)}"
  have t: "t + from \<le> now" using Cons.prems by simp
  have "now - offset = t \<longleftrightarrow> offset = now - t" if "offset \<in> ?I" for offset
  proof -
    have "offset \<le> now" "t \<le> now" using that t by auto
    then show ?thesis by presburger
  qed
  then have "(\<Sum>offset \<in> ?I. if now - offset = t then 1 else 0) = (\<Sum>offset \<in> ?I. if offset = now - t then 1 else (0::nat))"
    by (intro sum.cong refl if_cong)
  also have "\<dots> = (if now - t \<in> ?I then 1 else 0)"
    by (rule sum.delta) simp
  also have "now - t \<in> ?I \<longleftrightarrow> now < t + span" using t by auto
  finally have hit: "(\<Sum>offset \<in> ?I. if now - offset = t then 1 else (0::nat)) = (if now < t + span then 1 else 0)" .
  have "count_list (t # ticks) y = (if y = t then 1 else 0) + count_list ticks y" for y by simp
  then have "(\<Sum>offset \<in> ?I. count_list (t # ticks) (now - offset)) =
      (\<Sum>offset \<in> ?I. if now - offset = t then 1 else 0) + (\<Sum>offset \<in> ?I. count_list ticks (now - offset))"
    by (simp only: sum.distrib)
  with hit Cons show ?case by simp
qed simp

lemma bucket_sum_agrees:
  assumes "entry_agrees e ticks" "last_tick e \<le> now" "span \<le> WINDOW"
  shows "bucket_sum (buckets e) now (now - last_tick e) (min span (now + 1)) = window_count ticks now span"
proof -
  let ?offs = "[now - last_tick e..<min span (now + 1)]"
  have "buckets e ! ((now + WINDOW - offset) mod WINDOW) = min (count_list ticks (now - offset)) u32_max"
    if "offset \<in> set ?offs" for offset
  proof -
    have "(now + WINDOW - offset) mod WINDOW = (now - offset) mod WINDOW"
    proof -
      have "now + WINDOW - offset = (now - offset) + WINDOW" using that by auto
      then show ?thesis by simp
    qed
    moreover have "now - offset \<le> last_tick e" "last_tick e < now - offset + WINDOW"
      using that assms(2,3) by auto
    ultimately show ?thesis using assms(1) by (simp add: entry_agrees_def)
  qed
  then have same: "map (\<lambda>offset. buckets e ! ((now + WINDOW - offset) mod WINDOW)) ?offs =
      map (\<lambda>offset. min (count_list ticks (now - offset)) u32_max) ?offs"
    by (intro map_cong refl)
  have "bucket_sum (buckets e) now (now - last_tick e) (min span (now + 1)) =
      min (sum_list (map (\<lambda>offset. min (count_list ticks (now - offset)) u32_max) ?offs)) u32_max"
    unfolding bucket_sum_def same by (simp add: fold_sat_add32)
  also have "\<dots> = min (\<Sum>offset = now - last_tick e..<min span (now + 1). count_list ticks (now - offset)) u32_max"
    unfolding min_sum_list by (simp add: sum_set_upt_conv_sum_list_nat [symmetric] del: upt_Suc)
  also have "\<dots> = window_count ticks now span"
    using assms(1,2) by (subst sum_count_list) (auto simp: entry_agrees_def window_count_def)
  finally show ?thesis .
qed

text \<open>What one key has seen: its entry is created at the first tick and fed each of them.\<close>

definition entry_after :: "(u64 \<times> u64) list \<Rightarrow> rate_entry \<Rightarrow> rate_entry" where
  "entry_after events e = fold (\<lambda>(tick, used) e. record_entry tick used e) events e"

lemma record_agrees:
  assumes "entry_agrees e ticks" "last_tick e \<le> tick"
  shows "entry_agrees (record_entry tick used e) (ticks @ [tick]) \<and> last_tick (record_entry tick used e) = tick"
proof -
  have "entry_agrees (e\<lparr> last_used := used \<rparr>) ticks" "last_tick (e\<lparr> last_used := used \<rparr>) \<le> tick"
    using assms by (simp_all add: entry_agrees_def)
  from advance_agrees [OF this] show ?thesis
    using count_agrees by (auto simp: record_entry_def) (simp add: count_event_def)
qed

lemma entry_after_agrees:
  assumes "entry_agrees e ticks" "sorted (last_tick e # map fst events)"
  shows "entry_agrees (entry_after events e) (ticks @ map fst events) \<and>
    last_tick (entry_after events e) = last (last_tick e # map fst events)"
  using assms
proof (induction events arbitrary: e ticks)
  case (Cons ev events)
  obtain tick used where ev: "ev = (tick, used)" by fastforce
  let ?e = "record_entry tick used e"
  have e: "entry_agrees ?e (ticks @ [tick])" "last_tick ?e = tick"
    using record_agrees [OF Cons.prems(1)] Cons.prems(2) ev by auto
  have "sorted (last_tick ?e # map fst events)" using Cons.prems(2) ev e(2) by simp
  from Cons.IH [OF e(1) this] show ?case using ev e(2) by (auto simp: entry_after_def)
qed (simp add: entry_after_def)

lemma window_count_1: "\<forall>s \<in> set ticks. s \<le> now \<Longrightarrow> window_count ticks now 1 = min (count_list ticks now) u32_max"
proof -
  assume "\<forall>s \<in> set ticks. s \<le> now"
  then have "length (filter (\<lambda>s. now < s + 1) ticks) = count_list ticks now"
    by (induction ticks) auto
  then show ?thesis by (simp add: window_count_def)
qed

text \<open>C31. The rate counters are exact. For any non-decreasing sequence of ticks recorded for a
  key, the snapshot returned with the last one counts precisely the events less than 1, 10 and
  60 ticks old, that event included, saturating at the largest \<open>u32\<close>; and peeking at any later
  tick counts the same events without recording one. Wrapping around the ring buffer, skipping
  many ticks and the first minute after start-up are all covered.\<close>

theorem rate_window_exact:
  assumes "sorted (map fst events @ [now])" "e = entry_after events (fresh_entry start used)" "start \<le> fst (hd (events @ [(now, 0)]))"
  shows "record_snapshot now (record_entry now used' e) =
      \<lparr> last_1 = window_count (map fst events @ [now]) now 1, last_10 = window_count (map fst events @ [now]) now 10,
        last_60 = window_count (map fst events @ [now]) now 60 \<rparr> \<and>
    peek_entry now e =
      \<lparr> last_1 = window_count (map fst events) now 1, last_10 = window_count (map fst events) now 10,
        last_60 = window_count (map fst events) now 60 \<rparr>"
proof -
  have "sorted (last_tick (fresh_entry start used) # map fst events)"
    using assms(1,3) by (cases events) (auto simp: fresh_entry_def sorted_append)
  from entry_after_agrees [OF fresh_agrees this]
  have e: "entry_agrees e (map fst events)" "last_tick e = last (start # map fst events)"
    using assms(2) by (auto simp: fresh_entry_def)
  have late: "last_tick e \<le> now"
  proof (cases "events = []")
    case True
    with e(2) assms(3) show ?thesis by simp
  next
    case False
    then have "last_tick e \<in> set (map fst events)" using e(2) by (metis last_ConsR last_in_set list.map_disc_iff)
    then show ?thesis using assms(1) by (auto simp: sorted_append)
  qed
  let ?e = "record_entry now used' e"
  have rec: "entry_agrees ?e (map fst events @ [now])" "last_tick ?e = now"
    using record_agrees [OF e(1) late] by auto
  have "buckets ?e ! (now mod WINDOW) = window_count (map fst events @ [now]) now 1"
    using rec by (subst window_count_1) (auto simp: entry_agrees_def WINDOW_def)
  moreover have "(if now - last_tick e = 0 then buckets e ! (now mod WINDOW) else 0) = window_count (map fst events) now 1"
  proof -
    have "window_count (map fst events) now 1 = min (count_list (map fst events) now) u32_max"
      using e(1) late by (intro window_count_1) (auto simp: entry_agrees_def)
    moreover have "now \<notin> set (map fst events)" if "last_tick e < now"
      using e(1) that by (auto simp: entry_agrees_def)
    ultimately show ?thesis using e(1) late by (auto simp: entry_agrees_def WINDOW_def count_list_0_iff)
  qed
  moreover have "bucket_sum (buckets ?e) now 0 (min span (now + 1)) = window_count (map fst events @ [now]) now span"
    "bucket_sum (buckets e) now (now - last_tick e) (min span (now + 1)) = window_count (map fst events) now span"
    if "span \<le> 60" for span
    using bucket_sum_agrees [OF rec(1), of now span] bucket_sum_agrees [OF e(1) late, of span] rec(2) that
    by (simp_all add: WINDOW_def)
  from this [of 10] this [of 60] have
    "bucket_sum (buckets ?e) now 0 (min 10 (now + 1)) = window_count (map fst events @ [now]) now 10"
    "bucket_sum (buckets ?e) now 0 (min 60 (now + 1)) = window_count (map fst events @ [now]) now 60"
    "bucket_sum (buckets e) now (now - last_tick e) (min 10 (now + 1)) = window_count (map fst events) now 10"
    "bucket_sum (buckets e) now (now - last_tick e) (min 60 (now + 1)) = window_count (map fst events) now 60"
    by simp_all
  ultimately show ?thesis
    by (simp only: record_snapshot_def peek_entry_def Let_def simp_thms)
qed

section \<open>Bounded memory\<close>

definition shard_ok :: "usize \<Rightarrow> shard \<Rightarrow> bool" where
  "shard_ok capacity s \<longleftrightarrow> distinct (map fst (sh_entries s)) \<and> length (sh_entries s) \<le> capacity"

lemma least_used_in: "least_used entries = Some k \<Longrightarrow> k \<in> fst ` set entries"
proof (cases entries)
  case (Cons x xs)
  have "fold (\<lambda>y x. if last_used (snd y) < last_used (snd x) then y else x) ys y \<in> set (y # ys)"
    for ys :: "(rate_key \<times> rate_entry) list" and y
  proof (induction ys arbitrary: y)
    case (Cons z ys)
    from Cons [of "if last_used (snd z) < last_used (snd y) then z else y"] show ?case by auto
  qed simp
  from this [of xs x] show "least_used entries = Some k \<Longrightarrow> k \<in> fst ` set entries"
    using Cons by (auto simp: least_used_def)
qed (simp add: least_used_def)

lemma filter_key_less:
  assumes "k \<in> fst ` set entries"
  shows "length (filter (\<lambda>(k', _). k' \<noteq> k) entries) < length entries"
proof -
  obtain e where "(k, e) \<in> set entries" using assms by auto
  then show ?thesis by (intro length_filter_less [of "(k, e)"]) auto
qed

lemma evict_shrinks:
  assumes "capacity \<le> length entries" "0 < capacity" "length entries \<le> capacity"
  shows "length (evict tick entries) < capacity"
proof -
  define kept where "kept = filter (\<lambda>(_, e). tick < last_tick e + WINDOW) entries"
  have kept: "length kept \<le> capacity"
    using assms(3) unfolding kept_def by (meson le_trans length_filter_le)
  show ?thesis
  proof (cases "least_used kept")
    case None
    then have "kept = []" by (cases kept) (simp_all add: least_used_def)
    with None assms(2) show ?thesis by (simp add: evict_def kept_def [symmetric])
  next
    case (Some k)
    then have "length (filter (\<lambda>(k', _). k' \<noteq> k) kept) < length kept"
      by (intro filter_key_less least_used_in)
    with Some kept show ?thesis by (simp add: evict_def kept_def [symmetric])
  qed
qed

lemma evict_distinct: "distinct (map fst entries) \<Longrightarrow> distinct (map fst (evict tick entries))"
  by (simp add: evict_def Let_def distinct_map_filter split: option.split)

lemma put_entry_length:
  "length (put_entry k e entries) \<le> (if k \<in> fst ` set entries then length entries else Suc (length entries))"
proof (cases "k \<in> fst ` set entries")
  case True
  with filter_key_less [OF True] show ?thesis by (simp add: put_entry_def Suc_leI)
next
  case False
  then show ?thesis using length_filter_le [of "\<lambda>(k', _). k' \<noteq> k" entries] by (simp add: put_entry_def)
qed

lemma map_of_put_entry [simp]: "map_of (put_entry k e m) x = (if x = k then Some e else map_of m x)"
  by (induction m) (auto simp: put_entry_def)

lemma put_entry_set: "set (put_entry k e m) = insert (k, e) {(k', e'). (k', e') \<in> set m \<and> k' \<noteq> k}"
  by (auto simp: put_entry_def)

lemma put_entry_distinct: "distinct (map fst entries) \<Longrightarrow> distinct (map fst (put_entry k e entries))"
  by (simp add: put_entry_def distinct_map_filter) auto

lemma shard_record_ok:
  assumes "shard_ok capacity s" "0 < capacity"
  shows "shard_ok capacity (snd (shard_record capacity key tick s))"
proof -
  let ?full = "map_of (sh_entries s) key = None \<and> capacity \<le> length (sh_entries s)"
  define entries where "entries = (if ?full then evict tick (sh_entries s) else sh_entries s)"
  have distinct: "distinct (map fst entries)"
    using assms(1) evict_distinct by (auto simp: entries_def shard_ok_def)
  have room: "length entries \<le> capacity \<and> (key \<notin> fst ` set entries \<longrightarrow> length entries < capacity)"
  proof (cases ?full)
    case True
    then show ?thesis
      using evict_shrinks [of capacity "sh_entries s" tick] assms by (simp add: entries_def shard_ok_def)
  next
    case False
    then show ?thesis using assms(1) by (auto simp: entries_def shard_ok_def map_of_eq_None_iff)
  qed
  have "length (put_entry key e entries) \<le> capacity" for e
    using put_entry_length [of key e entries] room by (auto split: if_splits)
  with distinct put_entry_distinct show ?thesis
    by (simp add: shard_record_def Let_def entries_def [symmetric] shard_ok_def)
qed

definition tracker_ok :: "tracker \<Rightarrow> bool" where
  "tracker_ok t \<longleftrightarrow> length (tr_shards t) = SHARD_COUNT \<and> 0 < tr_shard_capacity t \<and>
     (\<forall>s \<in> set (tr_shards t). shard_ok (tr_shard_capacity t) s)"

lemma tracker_new_ok: "tracker_ok (tracker_new capacity)"
  by (auto simp: tracker_ok_def tracker_new_def shard_ok_def)

lemma record_at_ok: "tracker_ok t \<Longrightarrow> tracker_ok (snd (record_at hash key tick t))"
proof -
  assume ok: "tracker_ok t"
  let ?i = "hash key mod SHARD_COUNT"
  have "?i < length (tr_shards t)" using ok by (simp add: tracker_ok_def SHARD_COUNT_def)
  then have "shard_ok (tr_shard_capacity t) (snd (shard_record (tr_shard_capacity t) key tick (tr_shards t ! ?i)))"
    using ok by (intro shard_record_ok) (auto simp: tracker_ok_def)
  with ok show ?thesis
    by (auto simp: record_at_def tracker_ok_def Let_def split: prod.splits dest!: set_update_subset_insert [THEN subsetD])
qed

text \<open>One request after the other, each a key and the tick it is recorded at.\<close>

definition tracker_step :: "(rate_key \<Rightarrow> nat) \<Rightarrow> rate_key \<times> u64 \<Rightarrow> tracker \<Rightarrow> tracker" where
  "tracker_step hash req t = snd (record_at hash (fst req) (snd req) t)"

interpretation rate: invariant_machine tracker_ok "tracker_step hash" for hash
  by unfold_locales (simp add: tracker_step_def record_at_ok)

lemma record_at_capacity: "tr_shard_capacity (snd (record_at hash key tick t)) = tr_shard_capacity t"
  by (simp add: record_at_def Let_def split: prod.split)

lemma tracker_run_capacity: "tr_shard_capacity (fold (tracker_step hash) reqs t) = tr_shard_capacity t"
  by (induction reqs arbitrary: t) (simp_all add: tracker_step_def record_at_capacity)

text \<open>However many keys a flood of requests carries, the tracker holds no more than its capacity,
  rounded up to a multiple of the shard count.\<close>

lemma tracker_bounded:
  "tracker_len (fold (tracker_step hash) reqs (tracker_new capacity)) \<le>
     SHARD_COUNT * max ((capacity + SHARD_COUNT - 1) div SHARD_COUNT) 1"
proof -
  let ?t = "fold (tracker_step hash) reqs (tracker_new capacity)"
  have ok: "tracker_ok ?t" by (rule rate.run_inv) (rule tracker_new_ok)
  have "sum_list (map (\<lambda>s. length (sh_entries s)) (tr_shards ?t)) \<le> sum_list (map (\<lambda>_. tr_shard_capacity ?t) (tr_shards ?t))"
    using ok by (intro sum_list_mono) (auto simp: tracker_ok_def shard_ok_def)
  also have "\<dots> = SHARD_COUNT * tr_shard_capacity ?t"
    using ok by (simp add: sum_list_triv tracker_ok_def)
  finally show ?thesis by (simp add: tracker_len_def tracker_run_capacity) (simp add: tracker_new_def)
qed

section \<open>The theorems at work\<close>

text \<open>Sixty-one ticks apart the first event is out of the window.\<close>

theorem rate_window_exact_witness:
  "record_snapshot 66 (record_entry 66 3 (entry_after [(5, 1), (60, 2)] (fresh_entry 5 1))) =
     \<lparr> last_1 = 1, last_10 = 2, last_60 = 2 \<rparr>"
  using rate_window_exact [of "[(5, 1), (60, 2)]" 66 "entry_after [(5, 1), (60, 2)] (fresh_entry 5 1)" 5 1 3]
  by (simp add: window_count_def width_simps)

end
