(* ===== verification/Byte_Codec.thy ===== *)
theory Byte_Codec
  imports Bagel_Prelude
begin

text \<open>
  Integers as bytes, strings as bytes, the length-prefixed frames every keyed digest of the web
  plane is computed over (bagel-web/src/maze/keys.rs), and the bounded reader of
  bagel-web/src/wire.rs. The lemmas show that fixed-width integers read back, that framed fields
  cannot be repartitioned, and that the reader never passes the end of its input.
\<close>

section \<open>Integers and strings\<close>

text \<open>\<open>to_be_bytes\<close>, \<open>to_le_bytes\<close> and \<open>from_be_bytes\<close> at \<open>n\<close> bytes.\<close>

fun le_bytes :: "nat \<Rightarrow> nat \<Rightarrow> byte list" where
  "le_bytes 0 v = []"
| "le_bytes (Suc n) v = of_nat (v mod 256) # le_bytes n (v div 256)"

definition be_bytes :: "nat \<Rightarrow> nat \<Rightarrow> byte list" where
  "be_bytes n v = rev (le_bytes n v)"

fun from_le_bytes :: "byte list \<Rightarrow> nat" where
  "from_le_bytes [] = 0"
| "from_le_bytes (b # bs) = unat b + 256 * from_le_bytes bs"

definition from_be_bytes :: "byte list \<Rightarrow> nat" where
  "from_be_bytes bs = from_le_bytes (rev bs)"

text \<open>\<open>str::as_bytes\<close>: the model's strings are the bytes of their UTF-8 form.\<close>

definition as_bytes :: "string \<Rightarrow> byte list" where
  "as_bytes s = map (\<lambda>c. of_nat (of_char c)) s"

lemma le_bytes_length [simp]: "length (le_bytes n v) = n"
  by (induction n arbitrary: v) auto

lemma be_bytes_length [simp]: "length (be_bytes n v) = n"
  by (simp add: be_bytes_def)

lemma from_le_bytes_le_bytes: "from_le_bytes (le_bytes n v) = v mod 256 ^ n"
proof (induction n arbitrary: v)
  case (Suc n)
  have "unat (of_nat (v mod 256) :: byte) = v mod 256"
    by (simp add: unat_of_nat take_bit_eq_mod)
  then show ?case using Suc [of "v div 256"] mod_mult2_eq [of v 256 "256 ^ n"] by simp
qed simp

lemma from_be_bytes_be_bytes [simp]: "from_be_bytes (be_bytes n v) = v mod 256 ^ n"
  by (simp add: from_be_bytes_def be_bytes_def from_le_bytes_le_bytes)

lemma le_bytes_inject: "v < 256 ^ n \<Longrightarrow> w < 256 ^ n \<Longrightarrow> le_bytes n v = le_bytes n w \<longleftrightarrow> v = w"
  by (metis from_le_bytes_le_bytes mod_less)

lemma be_bytes_inject: "v < 256 ^ n \<Longrightarrow> w < 256 ^ n \<Longrightarrow> be_bytes n v = be_bytes n w \<longleftrightarrow> v = w"
  by (simp add: be_bytes_def le_bytes_inject)

lemma from_le_bytes_less: "from_le_bytes bs < 256 ^ length bs"
proof (induction bs)
  case (Cons b bs)
  have "unat b < 256" using unsigned_less [of b] by simp
  with Cons show ?case by simp
qed simp

lemma from_be_bytes_less: "from_be_bytes bs < 256 ^ length bs"
  using from_le_bytes_less [of "rev bs"] by (simp add: from_be_bytes_def)

lemma from_be_bytes_Cons: "from_be_bytes (b # bs) = unat b * 256 ^ length bs + from_be_bytes bs"
proof -
  have "from_le_bytes (xs @ [y]) = from_le_bytes xs + 256 ^ length xs * unat y" for xs y
    by (induction xs) (simp_all add: algebra_simps)
  then show ?thesis by (simp add: from_be_bytes_def)
qed

lemma of_char_byte_inject: "(of_nat (of_char c) :: byte) = of_nat (of_char d) \<longleftrightarrow> c = d"
proof
  assume "(of_nat (of_char c) :: byte) = of_nat (of_char d)"
  then have "unat (of_nat (of_char c) :: byte) = unat (of_nat (of_char d) :: byte)" by simp
  then show "c = d" by (simp add: unat_of_nat take_bit_eq_mod)
qed simp

lemma as_bytes_inject [simp]: "as_bytes s = as_bytes t \<longleftrightarrow> s = t"
  by (auto simp: as_bytes_def inj_def of_char_byte_inject dest: map_injective)

lemma as_bytes_length [simp]: "length (as_bytes s) = length s"
  by (simp add: as_bytes_def)

section \<open>Length-prefixed fields\<close>

text \<open>A field is its length in \<open>w\<close> bytes, then itself. Two messages with the same number of
  fields are equal only if each field is.\<close>

definition prefixed :: "(nat \<Rightarrow> byte list) \<Rightarrow> byte list \<Rightarrow> byte list" where
  "prefixed len value = len (length value) @ value"

lemma prefixed_inject:
  assumes "\<And>m n. length (len m) = length (len n)"
    and "\<And>m n. m < bound \<Longrightarrow> n < bound \<Longrightarrow> len m = len n \<Longrightarrow> m = n"
    and "length v < bound" "length w < bound"
  shows "prefixed len v @ r = prefixed len w @ s \<longleftrightarrow> v = w \<and> r = s"
proof
  assume "prefixed len v @ r = prefixed len w @ s"
  then have "len (length v) = len (length w) \<and> v @ r = w @ s"
    by (simp add: prefixed_def assms(1) [of "length v" "length w"])
  with assms(2-4) show "v = w \<and> r = s" by auto
qed simp

text \<open>\<open>frame\<close> of the maze keys: a four-byte big-endian length. The cast to \<open>u32\<close> wraps, so
  frames are unambiguous for fields shorter than 4 GiB.\<close>

definition frame :: "byte list \<Rightarrow> byte list" where
  "frame value = be_bytes 4 (length value mod 2 ^ 32) @ value"

lemma frame_prefixed: "frame = prefixed (\<lambda>n. be_bytes 4 (n mod 2 ^ 32))"
  by (simp add: fun_eq_iff frame_def prefixed_def)

lemma frame_inject:
  assumes "length v < 2 ^ 32" "length w < 2 ^ 32"
  shows "frame v @ r = frame w @ s \<longleftrightarrow> v = w \<and> r = s"
  unfolding frame_prefixed
  by (rule prefixed_inject [where bound = "2 ^ 32"]) (use assms in \<open>auto simp: be_bytes_inject\<close>)

lemma frame_inject_last: "length v < 2 ^ 32 \<Longrightarrow> length w < 2 ^ 32 \<Longrightarrow> frame v = frame w \<longleftrightarrow> v = w"
  using frame_inject [of v w "[]" "[]"] by simp

section \<open>The bounded reader\<close>

datatype capture_error = Incomplete | Invalid | CaptureLimited | Untrusted

record cursor =
  remaining :: "byte list"

type_synonym 'a reader = "cursor \<Rightarrow> capture_error + ('a \<times> cursor)"

definition cursor_is_empty :: "cursor \<Rightarrow> bool" where
  "cursor_is_empty c \<longleftrightarrow> remaining c = []"

definition cursor_take :: "usize \<Rightarrow> byte list reader" where
  "cursor_take n c =
     (if n \<le> length (remaining c)
      then Inr (take n (remaining c), c\<lparr> remaining := drop n (remaining c) \<rparr>)
      else Inl Invalid)"

definition cursor_byte :: "nat reader" where
  "cursor_byte c = rbind (cursor_take 1 c) (\<lambda>(bs, c). Inr (unat (hd bs), c))"

definition cursor_u16 :: "nat reader" where
  "cursor_u16 c = rbind (cursor_take 2 c) (\<lambda>(bs, c). Inr (from_be_bytes bs, c))"

definition cursor_u24 :: "nat reader" where
  "cursor_u24 c =
     rbind (cursor_take 3 c) (\<lambda>(bs, c).
       Inr (unat (bs ! 0) * 2 ^ 16 + unat (bs ! 1) * 2 ^ 8 + unat (bs ! 2), c))"

definition cursor_u32 :: "nat reader" where
  "cursor_u32 c = rbind (cursor_take 4 c) (\<lambda>(bs, c). Inr (from_be_bytes bs, c))"

definition vector_u8 :: "byte list reader" where
  "vector_u8 c = rbind (cursor_byte c) (\<lambda>(n, c). cursor_take n c)"

definition vector_u16 :: "byte list reader" where
  "vector_u16 c = rbind (cursor_u16 c) (\<lambda>(n, c). cursor_take n c)"

definition cursor_finish :: "cursor \<Rightarrow> capture_error + unit" where
  "cursor_finish c = (if cursor_is_empty c then Inr () else Inl Invalid)"

lemma cursor_take_append [simp]:
  "cursor_take (length v) \<lparr> remaining = v @ r \<rparr> = Inr (v, \<lparr> remaining = r \<rparr>)"
  by (simp add: cursor_take_def)

lemma cursor_take_Inr: "cursor_take n c = Inr (v, c') \<Longrightarrow> remaining c = v @ remaining c' \<and> length v = n"
  by (auto simp: cursor_take_def split: if_splits)

text \<open>What a sender frames, the reader takes back, and leaves the rest.\<close>

lemma vector_u16_reads:
  assumes "length v < 2 ^ 16"
  shows "vector_u16 \<lparr> remaining = prefixed (be_bytes 2) v @ r \<rparr> = Inr (v, \<lparr> remaining = r \<rparr>)"
proof -
  have "cursor_u16 \<lparr> remaining = be_bytes 2 (length v) @ v @ r \<rparr> = Inr (length v, \<lparr> remaining = v @ r \<rparr>)"
    using cursor_take_append [of "be_bytes 2 (length v)" "v @ r"] assms by (simp add: cursor_u16_def)
  then show ?thesis by (simp add: vector_u16_def prefixed_def)
qed

end
