(* ===== verification/Pending_Challenges.thy ===== *)
theory Pending_Challenges
  imports Rate_Tracker Byte_Codec "HOL-Library.Product_Lexorder"
begin

text \<open>
  bagel-web/src/challenge/pending.rs: proof-of-work challenges that were handed out and not yet
  answered. The table is a hash map with an ordered index of expiries; issuing and verification
  are rate limited per host and source network, and verification takes one of eight slots.

  Time is an argument of each operation, and so is the randomness: a list of the draws of the
  system generator, \<open>None\<close> for a failed one. Issuing returns \<open>None\<close> when it has used up all
  draws, that is, when its loop is still running. SHA-256 is an argument. The properties are that
  a challenge is redeemed at most once, only by the binding it was issued to and before its
  expiry, and that until then it can be.
\<close>

section \<open>Bindings\<close>

type_synonym challenge_key = "byte list"

record challenge_binding =
  bind_host :: string
  bind_network :: source_network
  bind_digest :: "byte list"

text \<open>The bytes fed to the digest: each part behind its length as a \<open>usize\<close>, little-endian.\<close>

definition binding_message :: "byte list \<Rightarrow> string \<Rightarrow> string \<Rightarrow> byte list \<Rightarrow> u64 \<Rightarrow> byte list" where
  "binding_message session host challenge user_agent revision =
     concat (map (\<lambda>part. le_bytes 8 (length part) @ part)
       [session, as_bytes host, as_bytes challenge, user_agent, le_bytes 8 revision])"

definition challenge_binding_new ::
  "(byte list \<Rightarrow> byte list) \<Rightarrow> byte list \<Rightarrow> string \<Rightarrow> ip_addr \<Rightarrow> string \<Rightarrow> byte list \<Rightarrow> u64 \<Rightarrow> challenge_binding" where
  "challenge_binding_new sha256 session host client_ip challenge user_agent revision =
     \<lparr> bind_host = host, bind_network = from_ip client_ip,
       bind_digest = sha256 (binding_message session host challenge user_agent revision) \<rparr>"

section \<open>The table\<close>

record pending_challenge =
  pc_binding :: "byte list"
  pc_pass_key :: challenge_key
  pc_level :: u32
  pc_gpu_level :: "u32 option"
  pc_expiry :: nat

record pending_table =
  pt_challenges :: "(challenge_key \<times> pending_challenge) list"
  pt_expiries :: "(nat \<times> challenge_key, unit) btree"

fun expire_loop :: "nat \<Rightarrow> (challenge_key \<times> pending_challenge) list \<Rightarrow> (nat \<times> challenge_key, unit) btree \<Rightarrow> pending_table" where
  "expire_loop now challenges [] = \<lparr> pt_challenges = challenges, pt_expiries = [] \<rparr>"
| "expire_loop now challenges (((expiry, key), u) # rest) =
     (if now < expiry then \<lparr> pt_challenges = challenges, pt_expiries = ((expiry, key), u) # rest \<rparr>
      else expire_loop now (bt_remove key challenges) rest)"

definition table_expire :: "nat \<Rightarrow> pending_table \<Rightarrow> pending_table" where
  "table_expire now t = expire_loop now (pt_challenges t) (pt_expiries t)"

datatype issue_error = Limited | Full | Random

record pending_challenges =
  pend_table :: pending_table
  pend_issuance :: tracker
  pend_verification :: tracker
  pend_slots :: nat

definition CAPACITY :: usize where "CAPACITY = 65536"

text \<open>Five minutes, in nanoseconds.\<close>

definition LIFETIME :: nat where "LIFETIME = 300 * 1000000000"

definition pending_default :: pending_challenges where
  "pending_default =
     \<lparr> pend_table = \<lparr> pt_challenges = [], pt_expiries = [] \<rparr>,
       pend_issuance = tracker_new CAPACITY, pend_verification = tracker_new CAPACITY, pend_slots = 8 \<rparr>"

section \<open>Operations\<close>

text \<open>The loop that draws a key not in use.\<close>

fun draw_key :: "(challenge_key \<times> 'a) list \<Rightarrow> challenge_key option list \<Rightarrow> (issue_error + challenge_key) option" where
  "draw_key challenges [] = None"
| "draw_key challenges (None # draws) = Some (Inl Random)"
| "draw_key challenges (Some key # draws) =
     (if map_of challenges key = None then Some (Inr key) else draw_key challenges draws)"

record issue_args =
  ia_binding :: challenge_binding
  ia_pass_key :: challenge_key
  ia_level :: u32
  ia_gpu_level :: "u32 option"
  ia_duration :: nat

definition pending_of :: "issue_args \<Rightarrow> nat \<Rightarrow> pending_challenge" where
  "pending_of a now =
     \<lparr> pc_binding = bind_digest (ia_binding a), pc_pass_key = ia_pass_key a, pc_level = ia_level a,
       pc_gpu_level = ia_gpu_level a, pc_expiry = now + min (ia_duration a) LIFETIME \<rparr>"

definition table_insert :: "challenge_key \<Rightarrow> pending_challenge \<Rightarrow> pending_table \<Rightarrow> pending_table" where
  "table_insert key p t =
     \<lparr> pt_challenges = (key, p) # bt_remove key (pt_challenges t),
       pt_expiries = bt_insert (pc_expiry p, key) () (pt_expiries t) \<rparr>"

definition table_issue :: "issue_args \<Rightarrow> nat \<Rightarrow> challenge_key option list \<Rightarrow> pending_table \<Rightarrow>
    ((issue_error + challenge_key) \<times> pending_table) option" where
  "table_issue a now draws t =
     (let t = table_expire now t in
      if CAPACITY \<le> length (pt_challenges t) then Some (Inl Full, t)
      else case draw_key (pt_challenges t) draws of
          None \<Rightarrow> None
        | Some (Inl e) \<Rightarrow> Some (Inl e, t)
        | Some (Inr key) \<Rightarrow> Some (Inr key, table_insert key (pending_of a now) t))"

definition issue :: "(rate_key \<Rightarrow> nat) \<Rightarrow> issue_args \<Rightarrow> u64 \<Rightarrow> nat \<Rightarrow> challenge_key option list \<Rightarrow> pending_challenges \<Rightarrow>
    ((issue_error + challenge_key) \<times> pending_challenges) option" where
  "issue hash a tick now draws s =
     (let (rate, issuance) = record_at hash (bind_host (ia_binding a), bind_network (ia_binding a)) tick (pend_issuance s);
          s = s\<lparr> pend_issuance := issuance \<rparr>
      in if 32 < last_1 rate \<or> 120 < last_60 rate then Some (Inl Limited, s)
         else map_option (\<lambda>(r, t). (r, s\<lparr> pend_table := t \<rparr>)) (table_issue a now draws (pend_table s)))"

definition admit_verification :: "(rate_key \<Rightarrow> nat) \<Rightarrow> string \<Rightarrow> ip_addr \<Rightarrow> u64 \<Rightarrow> pending_challenges \<Rightarrow> bool \<times> pending_challenges" where
  "admit_verification hash host client_ip tick s =
     (let (rate, verification) = record_at hash (host, from_ip client_ip) tick (pend_verification s)
      in (last_1 rate \<le> 32 \<and> last_60 rate \<le> 120, s\<lparr> pend_verification := verification \<rparr>))"

text \<open>A permit is taken here and given back when it is dropped.\<close>

definition verification_slot :: "pending_challenges \<Rightarrow> unit option \<times> pending_challenges" where
  "verification_slot s =
     (if 0 < pend_slots s then (Some (), s\<lparr> pend_slots := pend_slots s - 1 \<rparr>) else (None, s))"

definition release_slot :: "pending_challenges \<Rightarrow> pending_challenges" where
  "release_slot s = s\<lparr> pend_slots := pend_slots s + 1 \<rparr>"

definition offered :: "pending_challenge \<Rightarrow> u32 \<Rightarrow> bool" where
  "offered p level \<longleftrightarrow> pc_level p = level \<or> pc_gpu_level p = Some level"

definition table_redeem :: "challenge_key \<Rightarrow> challenge_binding \<Rightarrow> u32 \<Rightarrow> nat \<Rightarrow> pending_table \<Rightarrow>
    challenge_key option \<times> pending_table" where
  "table_redeem key b level now t =
     (let t = table_expire now t in
      case map_of (pt_challenges t) key of
        None \<Rightarrow> (None, t)
      | Some p \<Rightarrow>
          if pc_binding p \<noteq> bind_digest b \<or> \<not> offered p level then (None, t)
          else (Some (pc_pass_key p),
                \<lparr> pt_challenges = bt_remove key (pt_challenges t),
                  pt_expiries = bt_remove (pc_expiry p, key) (pt_expiries t) \<rparr>))"

definition redeem :: "challenge_key \<Rightarrow> challenge_binding \<Rightarrow> u32 \<Rightarrow> nat \<Rightarrow> pending_challenges \<Rightarrow>
    challenge_key option \<times> pending_challenges" where
  "redeem key b level now s =
     (let (r, t) = table_redeem key b level now (pend_table s) in (r, s\<lparr> pend_table := t \<rparr>))"

section \<open>The index and the map agree\<close>

definition index_of :: "(challenge_key \<times> pending_challenge) list \<Rightarrow> (nat \<times> challenge_key) set" where
  "index_of challenges = (\<lambda>(k, p). (pc_expiry p, k)) ` set challenges"

definition table_ok :: "pending_table \<Rightarrow> bool" where
  "table_ok t \<longleftrightarrow>
     distinct (map fst (pt_challenges t)) \<and> bt_ok (pt_expiries t) \<and>
     fst ` set (pt_expiries t) = index_of (pt_challenges t) \<and> length (pt_challenges t) \<le> CAPACITY"

lemma map_of_bt_remove: "map_of (bt_remove k m) x = (if x = k then None else map_of m x)"
  by (induction m) (auto simp: bt_remove_def)

lemma bt_remove_distinct [simp]: "distinct (map fst m) \<Longrightarrow> distinct (map fst (bt_remove k m))"
  by (simp add: bt_remove_def distinct_map_filter)

lemma bt_remove_length_le: "length (bt_remove k m) \<le> length m"
  by (simp add: bt_remove_def)

lemma index_of_bt_remove:
  assumes "distinct (map fst m)" "(k, p) \<in> set m"
  shows "index_of (bt_remove k m) = index_of m - {(pc_expiry p, k)}"
  using assms eq_key_imp_eq_value by (fastforce simp: index_of_def bt_remove_def)

lemma bt_head_least:
  fixes k :: "'k::linorder"
  assumes "bt_ok ((k, v) # m)" "x \<in> fst ` set ((k, v) # m)"
  shows "k \<le> x"
  using assms by (auto simp: bt_ok_def less_imp_le)

text \<open>Expiry drops exactly the challenges whose time has come.\<close>

lemma expire_loop_spec:
  assumes "distinct (map fst challenges)" "bt_ok expiries" "fst ` set expiries = index_of challenges"
  shows "let t = expire_loop now challenges expiries in
    distinct (map fst (pt_challenges t)) \<and> bt_ok (pt_expiries t) \<and>
    fst ` set (pt_expiries t) = index_of (pt_challenges t) \<and>
    pt_challenges t = filter (\<lambda>(k, p). now < pc_expiry p) challenges"
  using assms
proof (induction now challenges expiries rule: expire_loop.induct)
  case (1 now challenges)
  then show ?case by (simp add: index_of_def)
next
  case (2 now challenges expiry key u rest)
  have head: "(expiry, key) \<in> index_of challenges" using "2.prems"(3) by force
  then obtain p where p: "(key, p) \<in> set challenges" "pc_expiry p = expiry" by (auto simp: index_of_def)
  show ?case
  proof (cases "now < expiry")
    case True
    have "now < pc_expiry q" if "(k, q) \<in> set challenges" for k q
    proof -
      have "(pc_expiry q, k) \<in> fst ` set (((expiry, key), u) # rest)"
        unfolding "2.prems"(3) using that by (force simp: index_of_def)
      then have "(expiry, key) \<le> (pc_expiry q, k)" by (rule bt_head_least [OF "2.prems"(2)])
      then have "expiry \<le> pc_expiry q" by auto
      with True show ?thesis by simp
    qed
    then have "filter (\<lambda>(k, p). now < pc_expiry p) challenges = challenges"
      by (auto simp: filter_id_conv)
    with True "2.prems" show ?thesis by (simp add: Let_def)
  next
    case False
    have ok: "distinct (map fst (bt_remove key challenges))" "bt_ok rest"
      using "2.prems"(1,2) by (simp_all add: bt_ok_def)
    have "(expiry, key) \<notin> fst ` set rest" using "2.prems"(2) by (auto simp: bt_ok_def)
    then have "fst ` set rest = index_of (bt_remove key challenges)"
      using "2.prems"(3) index_of_bt_remove [OF "2.prems"(1) p(1)] p(2) by auto
    note IH = "2.IH" [OF False ok this]
    have "\<not> now < pc_expiry q" if "(key, q) \<in> set challenges" for q
      using False p eq_key_imp_eq_value [OF "2.prems"(1) p(1) that] by simp
    then have "filter (\<lambda>(k, p). now < pc_expiry p) (bt_remove key challenges) = filter (\<lambda>(k, p). now < pc_expiry p) challenges"
      unfolding bt_remove_def filter_filter by (intro filter_cong) auto
    with IH False "2.prems"(1) show ?thesis by (simp add: Let_def distinct_map_filter)
  qed
qed

lemma table_expire_challenges:
  "table_ok t \<Longrightarrow> pt_challenges (table_expire now t) = filter (\<lambda>(k, p). now < pc_expiry p) (pt_challenges t)"
  using expire_loop_spec [of "pt_challenges t" "pt_expiries t" now]
  by (simp add: table_ok_def table_expire_def Let_def)

lemma table_expire_ok: "table_ok t \<Longrightarrow> table_ok (table_expire now t)"
  using expire_loop_spec [of "pt_challenges t" "pt_expiries t" now]
    le_trans [OF length_filter_le [of "\<lambda>(k, p). now < pc_expiry p" "pt_challenges t"], of CAPACITY]
  by (simp add: table_ok_def table_expire_def Let_def distinct_map_filter)

lemma table_insert_ok:
  assumes "table_ok t" "map_of (pt_challenges t) key = None" "length (pt_challenges t) < CAPACITY"
  shows "table_ok (table_insert key p t)"
proof -
  have "bt_remove key (pt_challenges t) = pt_challenges t"
    using assms(2) by (force simp: bt_remove_def filter_id_conv map_of_eq_None_iff)
  with assms show ?thesis
    by (auto simp: table_ok_def table_insert_def bt_insert_keys index_of_def map_of_eq_None_iff)
qed

lemma draw_key_fresh: "draw_key challenges draws = Some (Inr key) \<Longrightarrow> map_of challenges key = None"
  by (induction challenges draws rule: draw_key.induct) (auto split: if_splits)

lemma table_issue_ok: "table_ok t \<Longrightarrow> table_issue a now draws t = Some (r, t') \<Longrightarrow> table_ok t'"
  using table_expire_ok [of t now] draw_key_fresh [of "pt_challenges (table_expire now t)" draws]
  by (auto simp: table_issue_def Let_def split: if_splits option.splits sum.splits intro!: table_insert_ok)

lemma table_redeem_ok:
  assumes "table_ok t"
  shows "table_ok (snd (table_redeem key b level now t))"
proof -
  let ?t = "table_expire now t"
  have ok: "table_ok ?t" using assms by (rule table_expire_ok)
  have "table_ok \<lparr> pt_challenges = bt_remove key (pt_challenges ?t), pt_expiries = bt_remove (pc_expiry p, key) (pt_expiries ?t) \<rparr>"
    if "map_of (pt_challenges ?t) key = Some p" for p
  proof -
    have "fst ` set (bt_remove (pc_expiry p, key) (pt_expiries ?t)) = fst ` set (pt_expiries ?t) - {(pc_expiry p, key)}"
      by (force simp: bt_remove_def)
    with ok index_of_bt_remove [of "pt_challenges ?t" key p] map_of_SomeD [OF that] bt_remove_length_le [of key "pt_challenges ?t"]
    show ?thesis by (auto simp: table_ok_def)
  qed
  with ok show ?thesis by (simp add: table_redeem_def Let_def split: option.split)
qed

text \<open>What each operation does to the map.\<close>

definition live :: "nat \<Rightarrow> (challenge_key \<times> pending_challenge) list \<Rightarrow> (challenge_key \<times> pending_challenge) list" where
  "live now = filter (\<lambda>(k, p). now < pc_expiry p)"

lemma live_iff [simp]: "(k, p) \<in> set (live now m) \<longleftrightarrow> (k, p) \<in> set m \<and> now < pc_expiry p"
  by (simp add: live_def)

lemma table_issue_Inr:
  assumes "table_ok t" "table_issue a now draws t = Some (Inr key, t')"
  shows "set (pt_challenges t') = insert (key, pending_of a now) (set (live now (pt_challenges t)))"
    and "key \<notin> fst ` set (live now (pt_challenges t))"
proof -
  let ?m = "live now (pt_challenges t)"
  have m: "pt_challenges (table_expire now t) = ?m"
    using table_expire_challenges [OF assms(1)] by (simp add: live_def)
  from assms(2) have drawn: "draw_key ?m draws = Some (Inr key)"
    and t': "t' = table_insert key (pending_of a now) (table_expire now t)"
    by (auto simp: table_issue_def Let_def m split: if_splits option.splits sum.splits)
  from draw_key_fresh [OF drawn] show fresh: "key \<notin> fst ` set ?m" by (simp add: map_of_eq_None_iff)
  then have "bt_remove key ?m = ?m" by (force simp: bt_remove_def filter_id_conv)
  with t' m show "set (pt_challenges t') = insert (key, pending_of a now) (set ?m)"
    by (simp add: table_insert_def)
qed

lemma table_issue_Inl:
  assumes "table_ok t" "table_issue a now draws t = Some (Inl e, t')"
  shows "pt_challenges t' = live now (pt_challenges t)"
  using assms table_expire_challenges [OF assms(1)]
  by (auto simp: table_issue_def Let_def live_def split: if_splits option.splits sum.splits)

lemma table_redeem_Some:
  assumes "table_ok t" "table_redeem key b level now t = (Some pass, t')"
  shows "set (pt_challenges t') = {(k, p). (k, p) \<in> set (live now (pt_challenges t)) \<and> k \<noteq> key}"
    and "\<exists>p. (key, p) \<in> set (live now (pt_challenges t)) \<and> pc_binding p = bind_digest b \<and> offered p level \<and> pc_pass_key p = pass"
proof -
  let ?m = "live now (pt_challenges t)"
  have m: "pt_challenges (table_expire now t) = ?m"
    using table_expire_challenges [OF assms(1)] by (simp add: live_def)
  from assms(2) obtain p where p: "map_of ?m key = Some p" "pc_binding p = bind_digest b" "offered p level"
    "pc_pass_key p = pass" "pt_challenges t' = bt_remove key ?m"
    by (auto simp: table_redeem_def Let_def m split: option.splits if_splits)
  from p(5) show "set (pt_challenges t') = {(k, p). (k, p) \<in> set ?m \<and> k \<noteq> key}"
    by (auto simp: bt_remove_def)
  from map_of_SomeD [OF p(1)] p(2-4)
  show "\<exists>p. (key, p) \<in> set ?m \<and> pc_binding p = bind_digest b \<and> offered p level \<and> pc_pass_key p = pass"
    by blast
qed

lemma table_redeem_None:
  assumes "table_ok t" "table_redeem key b level now t = (None, t')"
  shows "pt_challenges t' = live now (pt_challenges t)"
  using assms(2) table_expire_challenges [OF assms(1)]
  by (auto simp: table_redeem_def Let_def live_def split: option.splits if_splits)

lemma table_redeem_succeeds:
  assumes "table_ok t" "(key, p) \<in> set (pt_challenges t)" "now < pc_expiry p" "pc_binding p = bind_digest b" "offered p level"
  shows "fst (table_redeem key b level now t) = Some (pc_pass_key p)"
proof -
  have "table_ok (table_expire now t)" using assms(1) by (rule table_expire_ok)
  then have "map_of (pt_challenges (table_expire now t)) key = Some p"
    using assms(2,3) table_expire_challenges [OF assms(1)] by (simp add: table_ok_def)
  with assms(4,5) show ?thesis by (simp add: table_redeem_def Let_def)
qed

section \<open>Histories\<close>

text \<open>
  The operations in the order their table lock is taken. No order is assumed of the clock
  readings: \<open>issue\<close> reads the clock before it takes the lock.
\<close>

datatype pending_event =
    Issued nat challenge_key pending_challenge
  | Redeemed nat challenge_key "byte list" u32 challenge_key
  | Refused nat
  | Verified bool
  | SlotTaken
  | SlotReleased

fun event_time :: "pending_event \<Rightarrow> nat" where
  "event_time (Issued now k p) = now"
| "event_time (Redeemed now k d l pass) = now"
| "event_time (Refused now) = now"
| "event_time _ = 0"

fun redeems :: "challenge_key \<Rightarrow> pending_event \<Rightarrow> bool" where
  "redeems key (Redeemed now k d l pass) \<longleftrightarrow> k = key"
| "redeems key _ \<longleftrightarrow> False"

fun issues :: "challenge_key \<Rightarrow> pending_event \<Rightarrow> bool" where
  "issues key (Issued now k p) \<longleftrightarrow> k = key"
| "issues key _ \<longleftrightarrow> False"

inductive pending_step :: "(rate_key \<Rightarrow> nat) \<Rightarrow> pending_challenges \<Rightarrow> pending_event \<Rightarrow> pending_challenges \<Rightarrow> bool" for hash where
  step_issue: "issue hash a tick now draws s = Some (Inr key, s') \<Longrightarrow> pending_step hash s (Issued now key (pending_of a now)) s'"
| step_refuse: "issue hash a tick now draws s = Some (Inl e, s') \<Longrightarrow> pending_step hash s (Refused now) s'"
| step_redeem: "redeem key b level now s = (Some pass, s') \<Longrightarrow> pending_step hash s (Redeemed now key (bind_digest b) level pass) s'"
| step_reject: "redeem key b level now s = (None, s') \<Longrightarrow> pending_step hash s (Refused now) s'"
| step_verify: "admit_verification hash host ip tick s = (ok, s') \<Longrightarrow> pending_step hash s (Verified ok) s'"
| step_slot: "verification_slot s = (Some (), s') \<Longrightarrow> pending_step hash s SlotTaken s'"
| step_release: "pend_slots s < 8 \<Longrightarrow> pending_step hash s SlotReleased (release_slot s)"

inductive pending_trace :: "(rate_key \<Rightarrow> nat) \<Rightarrow> pending_event list \<Rightarrow> pending_challenges \<Rightarrow> bool" for hash where
  trace_start: "pending_trace hash [] pending_default"
| trace_step: "pending_trace hash h s \<Longrightarrow> pending_step hash s e s' \<Longrightarrow> pending_trace hash (h @ [e]) s'"

text \<open>The effect of a step on the table, in terms of its event alone.\<close>

definition pending_map :: "pending_challenges \<Rightarrow> (challenge_key \<times> pending_challenge) set" where
  "pending_map s = set (pt_challenges (pend_table s))"

lemma issue_table:
  assumes "issue hash a tick now draws s = Some (r, s')"
  shows "table_issue a now draws (pend_table s) = Some (r, pend_table s') \<or> pend_table s' = pend_table s \<and> r = Inl Limited"
  using assms by (auto simp: issue_def Let_def split: prod.splits if_splits)

lemma redeem_table:
  "redeem key b level now s = (r, s') \<Longrightarrow> table_redeem key b level now (pend_table s) = (r, pend_table s')"
  by (auto simp: redeem_def split: prod.splits)

lemma admit_table: "admit_verification hash host ip tick s = (ok, s') \<Longrightarrow> pend_table s' = pend_table s"
  by (auto simp: admit_verification_def Let_def split: prod.splits)

lemma slot_table: "verification_slot s = (r, s') \<Longrightarrow> pend_table s' = pend_table s"
  by (auto simp: verification_slot_def split: if_splits)

lemma step_table_ok:
  assumes "pending_step hash s e s'" "table_ok (pend_table s)"
  shows "table_ok (pend_table s')"
  using assms
proof cases
  case (step_issue a tick now draws key)
  then show ?thesis using issue_table table_issue_ok assms(2) by fastforce
next
  case (step_refuse a tick now draws e)
  then show ?thesis using issue_table table_issue_ok assms(2) by fastforce
next
  case (step_redeem key b level now pass)
  then show ?thesis using redeem_table table_redeem_ok [OF assms(2), of key b level now] by force
next
  case (step_reject key b level now)
  then show ?thesis using redeem_table table_redeem_ok [OF assms(2), of key b level now] by force
qed (use assms(2) in \<open>auto simp: admit_table slot_table release_slot_def\<close>)

definition alive :: "nat \<Rightarrow> (challenge_key \<times> pending_challenge) set \<Rightarrow> (challenge_key \<times> pending_challenge) set" where
  "alive now m = {(k, p). (k, p) \<in> m \<and> now < pc_expiry p}"

lemma set_live: "set (live now m) = alive now (set m)"
  by (auto simp: live_def alive_def)

lemma alive_iff [simp]: "(k, p) \<in> alive now m \<longleftrightarrow> (k, p) \<in> m \<and> now < pc_expiry p"
  by (simp add: alive_def)

fun effect :: "pending_event \<Rightarrow> (challenge_key \<times> pending_challenge) set \<Rightarrow> (challenge_key \<times> pending_challenge) set \<Rightarrow> bool" where
  "effect (Issued now k p) m m' \<longleftrightarrow> m' = insert (k, p) (alive now m) \<and> k \<notin> fst ` alive now m"
| "effect (Redeemed now k d l pass) m m' \<longleftrightarrow>
     m' = {(k', p). (k', p) \<in> alive now m \<and> k' \<noteq> k} \<and>
     (\<exists>p. (k, p) \<in> alive now m \<and> pc_binding p = d \<and> offered p l \<and> pc_pass_key p = pass)"
| "effect (Refused now) m m' \<longleftrightarrow> m' = alive now m \<or> m' = m"
| "effect _ m m' \<longleftrightarrow> m' = m"

lemma step_effect:
  assumes "pending_step hash s e s'" and ok: "table_ok (pend_table s)"
  shows "effect e (pending_map s) (pending_map s')"
  using assms(1)
proof cases
  case (step_issue a tick now draws key)
  then have "table_issue a now draws (pend_table s) = Some (Inr key, pend_table s')"
    using issue_table by fastforce
  from table_issue_Inr [OF ok this] step_issue(1) show ?thesis by (simp add: pending_map_def set_live)
next
  case (step_refuse a tick now draws err)
  from issue_table [OF step_refuse(2)] table_issue_Inl [OF ok, of a now draws err "pend_table s'"] step_refuse(1)
  show ?thesis by (auto simp: pending_map_def set_live)
next
  case (step_redeem key b level now pass)
  from table_redeem_Some [OF ok redeem_table [OF step_redeem(2)]] step_redeem(1)
  show ?thesis by (simp add: pending_map_def set_live)
next
  case (step_reject key b level now)
  from table_redeem_None [OF ok redeem_table [OF step_reject(2)]] step_reject(1)
  show ?thesis by (simp add: pending_map_def set_live)
qed (auto simp: pending_map_def admit_table slot_table release_slot_def)

text \<open>The table is what the history says: each entry was issued, and nothing touched its key since.\<close>

definition issued_last :: "pending_event list \<Rightarrow> challenge_key \<Rightarrow> pending_challenge \<Rightarrow> bool" where
  "issued_last h k p \<longleftrightarrow>
     (\<exists>pre now post. h = pre @ Issued now k p # post \<and> list_all (\<lambda>e. \<not> redeems k e \<and> \<not> issues k e) post)"

lemma issued_last_snoc: "issued_last h k p \<Longrightarrow> \<not> redeems k e \<Longrightarrow> \<not> issues k e \<Longrightarrow> issued_last (h @ [e]) k p"
  by (fastforce simp: issued_last_def)

lemma issued_last_new: "issued_last (h @ [Issued now k p]) k p"
  by (force simp: issued_last_def)

lemma effect_shrinks:
  assumes "effect e m m'" "(k, p) \<in> m'" "\<not> (\<exists>now. e = Issued now k p)"
  shows "(k, p) \<in> m \<and> \<not> redeems k e \<and> \<not> issues k e"
proof (cases e)
  case (Issued now k' p')
  then have "(k, p) \<in> alive now m" "k' \<notin> fst ` alive now m" using assms by auto
  moreover from this have "k' \<noteq> k" by (metis fst_conv image_eqI)
  ultimately show ?thesis using Issued by simp
qed (use assms in auto)

lemma effect_keeps:
  assumes "effect e m m'" "(k, p) \<in> m" "event_time e < pc_expiry p" "\<not> redeems k e"
  shows "(k, p) \<in> m'"
  using assms by (cases e) auto

lemma trace_table:
  assumes "pending_trace hash h s"
  shows "table_ok (pend_table s) \<and> (\<forall>(k, p) \<in> pending_map s. issued_last h k p)"
  using assms
proof induction
  case trace_start
  then show ?case by (simp add: pending_default_def table_ok_def pending_map_def index_of_def)
next
  case (trace_step h s e s')
  then have ok: "table_ok (pend_table s)" and old: "\<And>k p. (k, p) \<in> pending_map s \<Longrightarrow> issued_last h k p" by auto
  have "issued_last (h @ [e]) k p" if "(k, p) \<in> pending_map s'" for k p
  proof (cases "\<exists>now. e = Issued now k p")
    case True
    then show ?thesis using issued_last_new by blast
  next
    case False
    from effect_shrinks [OF step_effect [OF trace_step.hyps(2) ok] that False] old
    show ?thesis by (simp add: issued_last_snoc)
  qed
  with step_table_ok [OF trace_step.hyps(2) ok] show ?case by blast
qed

inductive_cases step_IssuedE: "pending_step hash s (Issued now k p) s'"

lemma trace_lifetime: "pending_trace hash h s \<Longrightarrow> Issued now k p \<in> set h \<Longrightarrow> pc_expiry p \<le> now + LIFETIME"
  by (induction rule: pending_trace.induct) (auto simp: pending_of_def elim!: step_IssuedE)

lemma trace_split:
  assumes "pending_trace hash (h @ [e]) s"
  obtains s0 where "pending_trace hash h s0" "pending_step hash s0 e s"
  using assms by (cases rule: pending_trace.cases) auto

lemma trace_keeps:
  assumes "pending_trace hash (pre @ Issued now k p # post) s"
    and "list_all (\<lambda>e. \<not> redeems k e \<and> event_time e < pc_expiry p) post"
  shows "(k, p) \<in> pending_map s"
  using assms
proof (induction post arbitrary: s rule: rev_induct)
  case Nil
  then obtain s0 where s0: "pending_trace hash pre s0" "pending_step hash s0 (Issued now k p) s"
    using trace_split by blast
  then show ?case using step_effect trace_table by fastforce
next
  case (snoc e post)
  then obtain s0 where s0: "pending_trace hash (pre @ Issued now k p # post) s0" "pending_step hash s0 e s"
    using trace_split [of hash "pre @ Issued now k p # post" e s] by auto
  moreover have "(k, p) \<in> pending_map s0" using snoc s0(1) by simp
  ultimately show ?case
    using effect_keeps [OF step_effect [OF s0(2)]] trace_table [OF s0(1)] snoc.prems(2) by simp
qed

text \<open>C8. A challenge is redeemed at most once, by its holder and in time. In any history of the
  table, whatever the clock readings and draws, a successful redemption of a key is preceded by
  the issue of that key with the same binding digest, at one of the levels offered and with the
  pass returned; the redemption comes before the expiry, which is at most five minutes after the
  issue; and between the two the key was neither redeemed nor issued again.\<close>

theorem redeemed_once:
  assumes "pending_trace hash (h @ [Redeemed now key digest level pass]) s"
  shows "\<exists>pre issued p post. h = pre @ Issued issued key p # post \<and>
    list_all (\<lambda>e. \<not> redeems key e \<and> \<not> issues key e) post \<and>
    pc_binding p = digest \<and> offered p level \<and> pc_pass_key p = pass \<and>
    now < pc_expiry p \<and> pc_expiry p \<le> issued + LIFETIME"
proof -
  obtain s0 where s0: "pending_trace hash h s0" "pending_step hash s0 (Redeemed now key digest level pass) s"
    using assms by (rule trace_split)
  have table: "table_ok (pend_table s0)" "\<forall>(k, p) \<in> pending_map s0. issued_last h k p"
    using trace_table [OF s0(1)] by auto
  from step_effect [OF s0(2) table(1)] obtain p where p: "(key, p) \<in> pending_map s0" "now < pc_expiry p"
    "pc_binding p = digest" "offered p level" "pc_pass_key p = pass" by auto
  with table(2) obtain pre issued post where h: "h = pre @ Issued issued key p # post"
    "list_all (\<lambda>e. \<not> redeems key e \<and> \<not> issues key e) post" by (auto simp: issued_last_def)
  moreover have "pc_expiry p \<le> issued + LIFETIME" using trace_lifetime [OF s0(1), of issued key p] h(1) by simp
  ultimately show ?thesis using p by blast
qed

text \<open>An unexpired challenge can be redeemed. After any history in which a key was issued,
  was not redeemed since, and every later operation read a time before its expiry, redeeming it
  at such a time with the binding it was issued to and a level it offers returns its pass.\<close>

theorem live_challenge_redeems:
  assumes "pending_trace hash (pre @ Issued issued key p # post) s"
    and "list_all (\<lambda>e. \<not> redeems key e \<and> event_time e < pc_expiry p) post"
    and "now < pc_expiry p" "pc_binding p = bind_digest b" "offered p level"
  shows "fst (redeem key b level now s) = Some (pc_pass_key p)"
proof -
  have "(key, p) \<in> set (pt_challenges (pend_table s))"
    using trace_keeps [OF assms(1,2)] by (simp add: pending_map_def)
  moreover have "table_ok (pend_table s)" using trace_table [OF assms(1)] by simp
  ultimately have "fst (table_redeem key b level now (pend_table s)) = Some (pc_pass_key p)"
    using assms(3-5) by (intro table_redeem_succeeds)
  then show ?thesis by (simp add: redeem_def split_def)
qed

text \<open>Termination of the loop that draws keys: it ends as soon as the generator fails or draws a
  key that is not pending, and there always is one.\<close>

lemma draw_key_ends:
  assumes "\<exists>d \<in> set draws. d = None \<or> (\<exists>key. d = Some key \<and> map_of challenges key = None)"
  shows "\<exists>r. draw_key challenges draws = Some r"
  using assms by (induction challenges draws rule: draw_key.induct) auto

text \<open>The digest input cannot be repartitioned.\<close>

lemma usize_field_inject:
  assumes "length v < 2 ^ 64" "length w < 2 ^ 64"
  shows "prefixed (le_bytes 8) v @ r = prefixed (le_bytes 8) w @ s \<longleftrightarrow> v = w \<and> r = s"
  by (rule prefixed_inject [where bound = "2 ^ 64"]) (use assms in \<open>auto simp: le_bytes_inject\<close>)

lemma binding_message_fields:
  "binding_message session host challenge agent revision =
     prefixed (le_bytes 8) session @ prefixed (le_bytes 8) (as_bytes host) @ prefixed (le_bytes 8) (as_bytes challenge) @
     prefixed (le_bytes 8) agent @ prefixed (le_bytes 8) (le_bytes 8 revision) @ []"
  by (simp add: binding_message_def prefixed_def)

lemma binding_message_parts:
  assumes "binding_message session host challenge agent revision = binding_message session' host' challenge' agent' revision'"
    and "list_all (\<lambda>part. length part < 2 ^ 64)
      [session, session', as_bytes host, as_bytes host', as_bytes challenge, as_bytes challenge', agent, agent']"
    and "revision \<le> u64_max" "revision' \<le> u64_max"
  shows "session = session' \<and> host = host' \<and> challenge = challenge' \<and> agent = agent' \<and> revision = revision'"
proof -
  have len: "length session < 2 ^ 64" "length session' < 2 ^ 64" "length (as_bytes host) < 2 ^ 64" "length (as_bytes host') < 2 ^ 64"
    "length (as_bytes challenge) < 2 ^ 64" "length (as_bytes challenge') < 2 ^ 64" "length agent < 2 ^ 64" "length agent' < 2 ^ 64"
    "length (le_bytes 8 revision) < 2 ^ 64" "length (le_bytes 8 revision') < 2 ^ 64"
    using assms(2) by simp_all
  have "le_bytes 8 revision = le_bytes 8 revision' \<longleftrightarrow> revision = revision'"
    using assms(3,4) by (intro le_bytes_inject) (simp_all add: width_simps)
  with assms(1) show ?thesis
    by (simp only: binding_message_fields usize_field_inject [OF len(1,2)] usize_field_inject [OF len(3,4)]
        usize_field_inject [OF len(5,6)] usize_field_inject [OF len(7,8)] usize_field_inject [OF len(9,10)] as_bytes_inject)
qed

text \<open>The message a binding digests determines everything it binds: two requests with the same
  digest input have the same session, host, challenge name, user agent and policy revision, as
  every part is preceded by its length. So a challenge cannot be redeemed by moving bytes from
  one part to the next.\<close>

theorem binding_message_injective:
  assumes "binding_message session host challenge agent revision = binding_message session' host' challenge' agent' revision'"
    and "list_all (\<lambda>part. length part < 2 ^ 64)
      [session, session', as_bytes host, as_bytes host', as_bytes challenge, as_bytes challenge', agent, agent']"
    and "revision \<le> u64_max" "revision' \<le> u64_max"
  shows "session = session' \<and> host = host' \<and> challenge = challenge' \<and> agent = agent' \<and> revision = revision'"
  by (rule binding_message_parts [OF assms])

section \<open>The theorems at work\<close>

definition example_args :: issue_args where
  "example_args =
     \<lparr> ia_binding = \<lparr> bind_host = ''h'', bind_network = SN4 [1, 2, 3, 0], bind_digest = [7] \<rparr>,
       ia_pass_key = [9], ia_level = 4, ia_gpu_level = Some 6, ia_duration = 50 \<rparr>"

lemma example_issue:
  "\<exists>s. issue (\<lambda>_. 0) example_args 0 10 [Some [5]] pending_default = Some (Inr [5], s) \<and>
     pend_table s = \<lparr> pt_challenges = [([5], pending_of example_args 10)], pt_expiries = [((60, [5]), ())] \<rparr>"
  by (simp add: issue_def pending_default_def record_at_def tracker_new_def SHARD_COUNT_def example_args_def
      shard_record_def Let_def record_snapshot_def record_entry_def fresh_entry_def WINDOW_def advance_def
      count_event_def sat_add32_def bucket_sum_def width_simps table_issue_def table_expire_def CAPACITY_def
      table_insert_def bt_remove_def pending_of_def LIFETIME_def)

lemma example_redeem:
  assumes "pend_table s = \<lparr> pt_challenges = [([5], pending_of example_args 10)], pt_expiries = [((60, [5]), ())] \<rparr>"
  shows "fst (redeem [5] (ia_binding example_args) 6 20 s) = Some [9]"
  using assms
  by (simp add: redeem_def table_redeem_def table_expire_def Let_def example_args_def pending_of_def LIFETIME_def offered_def)

theorem redeemed_once_witness:
  "\<exists>h pre issued p post s. pending_trace (\<lambda>_. 0) (h @ [Redeemed 20 [5] [7] 6 [9]]) s \<and>
     h = pre @ Issued issued [5] p # post \<and> 20 < pc_expiry p"
proof -
  obtain s where s: "issue (\<lambda>_. 0) example_args 0 10 [Some [5]] pending_default = Some (Inr [5], s)"
    "pend_table s = \<lparr> pt_challenges = [([5], pending_of example_args 10)], pt_expiries = [((60, [5]), ())] \<rparr>"
    using example_issue by blast
  obtain s' where "redeem [5] (ia_binding example_args) 6 20 s = (Some [9], s')"
    using example_redeem [OF s(2)] by (metis prod.collapse)
  then have "pending_trace (\<lambda>_. 0) (([] @ [Issued 10 [5] (pending_of example_args 10)]) @ [Redeemed 20 [5] (bind_digest (ia_binding example_args)) 6 [9]]) s'"
    using s(1) by (intro trace_step [OF trace_step [OF trace_start step_issue] step_redeem])
  then have "pending_trace (\<lambda>_. 0) ([Issued 10 [5] (pending_of example_args 10)] @ [Redeemed 20 [5] [7] 6 [9]]) s'"
    by (simp add: example_args_def)
  from this redeemed_once [OF this] show ?thesis by blast
qed

theorem live_challenge_redeems_witness:
  "\<exists>s. pending_trace (\<lambda>_. 0) [Issued 10 [5] (pending_of example_args 10)] s \<and>
     fst (redeem [5] (ia_binding example_args) 6 20 s) = Some [9]"
proof -
  obtain s where s: "issue (\<lambda>_. 0) example_args 0 10 [Some [5]] pending_default = Some (Inr [5], s)"
    using example_issue by blast
  have tr: "pending_trace (\<lambda>_. 0) ([] @ Issued 10 [5] (pending_of example_args 10) # []) s"
    using trace_step [OF trace_start step_issue [OF s]] by simp
  have "20 < pc_expiry (pending_of example_args 10)" "pc_binding (pending_of example_args 10) = bind_digest (ia_binding example_args)"
    "offered (pending_of example_args 10) 6" "pc_pass_key (pending_of example_args 10) = [9]"
    by (simp_all add: pending_of_def example_args_def offered_def LIFETIME_def)
  with live_challenge_redeems [OF tr, of 20 "ia_binding example_args" 6] tr show ?thesis by auto
qed

text \<open>Moving a byte from the host to the challenge name changes the message.\<close>

theorem binding_message_injective_witness:
  "binding_message [1] ''ab'' ''c'' [2] 3 \<noteq> binding_message [1] ''a'' ''bc'' [2] 3"
  using binding_message_injective [of "[1]" "''ab''" "''c''" "[2]" 3 "[1]" "''a''" "''bc''" "[2]" 3]
  by (auto simp: width_simps)

end
