(* ===== verification/Pow_Solver.thy ===== *)
theory Pow_Solver
  imports Byte_Codec
begin

text \<open>
  The proof of work, both ends: the hand-written SHA-256, the key block, the scratchpad walk, the
  codec and the exported entry points of bagel-solver (the module a browser runs), and the
  check of bagel-web/src/challenge/pow.rs on the server. The properties: the unrolled one-block
  hashing is SHA-256 as FIPS 180-4 defines it, a nonce the module reports is one the server
  accepts, and what either side packs the other unpacks. Words are 32 bits wide, addition wraps.
\<close>

unbundle bit_operations_syntax

section \<open>SHA-256\<close>

type_synonym w32 = "32 word"

definition sha_K :: "w32 list" where
  "sha_K = concat
    [[0x428a2f98, 0x71374491, 0xb5c0fbcf, 0xe9b5dba5], [0x3956c25b, 0x59f111f1, 0x923f82a4, 0xab1c5ed5],
     [0xd807aa98, 0x12835b01, 0x243185be, 0x550c7dc3], [0x72be5d74, 0x80deb1fe, 0x9bdc06a7, 0xc19bf174],
     [0xe49b69c1, 0xefbe4786, 0x0fc19dc6, 0x240ca1cc], [0x2de92c6f, 0x4a7484aa, 0x5cb0a9dc, 0x76f988da],
     [0x983e5152, 0xa831c66d, 0xb00327c8, 0xbf597fc7], [0xc6e00bf3, 0xd5a79147, 0x06ca6351, 0x14292967],
     [0x27b70a85, 0x2e1b2138, 0x4d2c6dfc, 0x53380d13], [0x650a7354, 0x766a0abb, 0x81c2c92e, 0x92722c85],
     [0xa2bfe8a1, 0xa81a664b, 0xc24b8b70, 0xc76c51a3], [0xd192e819, 0xd6990624, 0xf40e3585, 0x106aa070],
     [0x19a4c116, 0x1e376c08, 0x2748774c, 0x34b0bcb5], [0x391c0cb3, 0x4ed8aa4a, 0x5b9cca4f, 0x682e6ff3],
     [0x748f82ee, 0x78a5636f, 0x84c87814, 0x8cc70208], [0x90befffa, 0xa4506ceb, 0xbef9a3f7, 0xc67178f2]]"

definition sha_H0 :: "w32 list" where
  "sha_H0 = [0x6a09e667, 0xbb67ae85, 0x3c6ef372, 0xa54ff53a, 0x510e527f, 0x9b05688c, 0x1f83d9ab, 0x5be0cd19]"

definition word_of_be :: "byte list \<Rightarrow> w32" where
  "word_of_be bs = of_nat (from_be_bytes bs)"

text \<open>The array of 64 words: sixteen from the block, the rest filled in by the loop.\<close>

definition schedule_step :: "nat \<Rightarrow> w32 list \<Rightarrow> w32 list" where
  "schedule_step i w =
     (let s0 = word_rotr 7 (w ! (i - 15)) XOR word_rotr 18 (w ! (i - 15)) XOR drop_bit 3 (w ! (i - 15));
          s1 = word_rotr 17 (w ! (i - 2)) XOR word_rotr 19 (w ! (i - 2)) XOR drop_bit 10 (w ! (i - 2))
      in w[i := w ! (i - 16) + s0 + w ! (i - 7) + s1])"

definition schedule :: "byte list \<Rightarrow> w32 list" where
  "schedule block =
     fold schedule_step [16..<64] (map (\<lambda>i. word_of_be (take 4 (drop (4 * i) block))) [0..<16] @ replicate 48 0)"

definition sha_round :: "w32 list \<Rightarrow> nat \<Rightarrow> w32 list \<Rightarrow> w32 list" where
  "sha_round w i v =
     (let a = v ! 0; b = v ! 1; c = v ! 2; d = v ! 3; e = v ! 4; f = v ! 5; g = v ! 6; h = v ! 7;
          s1 = word_rotr 6 e XOR word_rotr 11 e XOR word_rotr 25 e;
          ch = (e AND f) XOR (NOT e AND g);
          t1 = h + s1 + ch + sha_K ! i + w ! i;
          s0 = word_rotr 2 a XOR word_rotr 13 a XOR word_rotr 22 a;
          maj = (a AND b) XOR (a AND c) XOR (b AND c);
          t2 = s0 + maj
      in [t1 + t2, a, b, c, d + t1, e, f, g])"

definition compress :: "w32 list \<Rightarrow> byte list \<Rightarrow> w32 list" where
  "compress state block = map2 (+) state (fold (sha_round (schedule block)) [0..<64] state)"

definition state_to_bytes :: "w32 list \<Rightarrow> byte list" where
  "state_to_bytes state = concat (map (\<lambda>w. be_bytes 4 (unat w)) state)"

text \<open>Writing bytes over a buffer from an offset on, as zipping the slots does.\<close>

definition overwrite :: "nat \<Rightarrow> 'a list \<Rightarrow> 'a list \<Rightarrow> 'a list" where
  "overwrite n bs xs = take n xs @ take (length xs - n) bs @ drop (n + length bs) xs"

definition hash_pair :: "byte list \<Rightarrow> byte list \<Rightarrow> byte list" where
  "hash_pair left right =
     (let block = overwrite 0 (left @ right) (replicate 64 0);
          state = compress sha_H0 block;
          tail = overwrite 62 (be_bytes 2 (64 * 8)) ((replicate 64 0)[0 := 0x80])
      in state_to_bytes (compress state tail))"

text \<open>\<open>u8::leading_zeros\<close>, and the check of a digest.\<close>

definition byte_leading_zeros :: "byte \<Rightarrow> nat" where
  "byte_leading_zeros b = length (takeWhile (\<lambda>i. \<not> bit b i) [7, 6, 5, 4, 3, 2, 1, 0])"

fun zero_bits_loop :: "byte list \<Rightarrow> u32 \<Rightarrow> bool" where
  "zero_bits_loop [] bits \<longleftrightarrow> bits = 0"
| "zero_bits_loop (b # bs) bits \<longleftrightarrow>
     (if bits = 0 then True
      else if byte_leading_zeros b < min bits 8 then False
      else zero_bits_loop bs (bits - 8))"

definition leading_zero_bits :: "byte list \<Rightarrow> u32 \<Rightarrow> bool" where
  "leading_zero_bits digest bits = zero_bits_loop digest bits"

type_synonym key_block = "byte list"

definition key_block_new :: "byte list \<Rightarrow> key_block" where
  "key_block_new key =
     (let block = overwrite 0 key (replicate 64 0);
          block = block[40 := 0x80]
      in overwrite 62 (be_bytes 2 (40 * 8)) block)"

definition key_block_digest :: "u64 \<Rightarrow> key_block \<Rightarrow> byte list \<times> key_block" where
  "key_block_digest nonce kb =
     (let block = overwrite 32 (be_bytes 8 nonce) kb in (state_to_bytes (compress sha_H0 block), block))"

definition key_block_satisfies :: "u64 \<Rightarrow> u32 \<Rightarrow> key_block \<Rightarrow> bool \<times> key_block" where
  "key_block_satisfies nonce bits kb =
     (let (digest, kb) = key_block_digest nonce kb in (leading_zero_bits digest bits, kb))"

section \<open>The scratchpad walk\<close>

definition MIN_BLOCKS_LOG2 :: nat where "MIN_BLOCKS_LOG2 = 11"
definition MAX_BLOCKS_LOG2 :: nat where "MAX_BLOCKS_LOG2 = 15"

definition fill_step :: "byte list \<Rightarrow> nat \<Rightarrow> byte list list \<Rightarrow> byte list list" where
  "fill_step seed index pad = pad[index := hash_pair (pad ! (index - 1)) seed]"

definition walk_step :: "nat \<Rightarrow> nat \<Rightarrow> byte list \<times> byte list list \<Rightarrow> byte list \<times> byte list list" where
  "walk_step blocks _ st =
     (let (acc, pad) = st;
          pick = from_le_bytes (take 4 acc) mod blocks;
          acc = hash_pair acc (pad ! pick)
      in (acc, pad[pick := acc]))"

text \<open>The mask \<open>& (blocks - 1)\<close> is the remainder, as \<open>blocks\<close> is a power of two.\<close>

definition scratch_satisfies :: "byte list list \<Rightarrow> key_block \<Rightarrow> u64 \<Rightarrow> nat \<Rightarrow> u32 \<Rightarrow> bool \<times> key_block \<times> byte list list" where
  "scratch_satisfies pad kb nonce blocks_log2 bits =
     (let blocks = 2 ^ blocks_log2 in
      if length pad < blocks then (False, kb, pad)
      else
        let (seed, kb) = key_block_digest nonce kb;
            filled = fold (fill_step seed) [1..<blocks] ((take blocks pad)[0 := seed]);
            (acc, walked) = fold (walk_step blocks) [0..<blocks] (seed, filled)
        in (leading_zero_bits acc bits, kb, walked @ drop blocks pad))"

section \<open>The codec\<close>

definition IV_LEN :: nat where "IV_LEN = 4"
definition KEY_LEN :: nat where "KEY_LEN = 32"
definition HANDOFF_LEN :: nat where "HANDOFF_LEN = IV_LEN + KEY_LEN + 4"
definition SOLUTION_LEN :: nat where "SOLUTION_LEN = IV_LEN + KEY_LEN + 17"

datatype pow_kind = Sha256 | Scratch

fun kind_tag :: "pow_kind \<Rightarrow> byte" where
  "kind_tag Sha256 = 0"
| "kind_tag Scratch = 1"

definition kind_from_tag :: "byte \<Rightarrow> pow_kind option" where
  "kind_from_tag tag = (if tag = 0 then Some Sha256 else if tag = 1 then Some Scratch else None)"

record handoff =
  ho_key :: "byte list"
  ho_kind :: pow_kind
  ho_difficulty :: byte
  ho_blocks_log2 :: byte
  ho_gpu_difficulty :: byte

record solution =
  so_key :: "byte list"
  so_nonce :: u64
  so_difficulty :: byte
  so_probe :: u64

definition xorshift :: "w32 \<Rightarrow> w32" where
  "xorshift s =
     (let s = s XOR push_bit 13 s;
          s = s XOR drop_bit 17 s
      in s XOR push_bit 5 s)"

fun keystream_loop :: "w32 \<Rightarrow> byte list \<Rightarrow> byte list" where
  "keystream_loop s [] = []"
| "keystream_loop s (b # bs) = (let s = xorshift s in (b XOR ucast (drop_bit 24 s)) # keystream_loop s bs)"

definition keystream :: "byte list \<Rightarrow> byte list \<Rightarrow> byte list" where
  "keystream iv data = keystream_loop (of_nat (from_le_bytes iv) OR 1) data"

definition pack_handoff :: "byte list \<Rightarrow> handoff \<Rightarrow> byte list" where
  "pack_handoff iv h =
     iv @ keystream iv (ho_key h @ [kind_tag (ho_kind h), ho_difficulty h, ho_blocks_log2 h, ho_gpu_difficulty h])"

definition unpack_handoff :: "byte list \<Rightarrow> handoff option" where
  "unpack_handoff blob =
     (if length blob \<noteq> HANDOFF_LEN then None
      else
        let body = keystream (take IV_LEN blob) (drop IV_LEN blob) in
        case kind_from_tag (body ! KEY_LEN) of
          None \<Rightarrow> None
        | Some kind \<Rightarrow> Some \<lparr> ho_key = take KEY_LEN body, ho_kind = kind, ho_difficulty = body ! (KEY_LEN + 1),
            ho_blocks_log2 = body ! (KEY_LEN + 2), ho_gpu_difficulty = body ! (KEY_LEN + 3) \<rparr>)"

definition pack_solution :: "byte list \<Rightarrow> solution \<Rightarrow> byte list" where
  "pack_solution iv s =
     iv @ keystream iv (so_key s @ be_bytes 8 (so_nonce s) @ [so_difficulty s] @ be_bytes 8 (so_probe s))"

definition unpack_solution :: "byte list \<Rightarrow> solution option" where
  "unpack_solution blob =
     (if length blob \<noteq> SOLUTION_LEN then None
      else
        let body = keystream (take IV_LEN blob) (drop IV_LEN blob);
            rest = drop KEY_LEN body
        in Some \<lparr> so_key = take KEY_LEN body, so_nonce = from_be_bytes (take 8 rest), so_difficulty = rest ! 8,
             so_probe = from_be_bytes (take 8 (drop 9 rest)) \<rparr>)"

section \<open>The module\<close>

definition BUF_LEN :: nat where "BUF_LEN = 64"

record solver_state =
  sv_buf :: "byte list"
  sv_handoff :: handoff
  sv_pad :: "byte list list"

definition solver_init :: solver_state where
  "solver_init =
     \<lparr> sv_buf = replicate BUF_LEN 0,
       sv_handoff = \<lparr> ho_key = replicate KEY_LEN 0, ho_kind = Sha256, ho_difficulty = 0, ho_blocks_log2 = 0, ho_gpu_difficulty = 0 \<rparr>,
       sv_pad = replicate (2 ^ MAX_BLOCKS_LOG2) (replicate 32 0) \<rparr>"

definition solver_unpack :: "u32 \<Rightarrow> solver_state \<Rightarrow> int \<times> solver_state" where
  "solver_unpack len st =
     (if length (sv_buf st) < len then (-1, st)
      else case unpack_handoff (take len (sv_buf st)) of
          None \<Rightarrow> (-1, st)
        | Some h \<Rightarrow>
            if ho_kind h = Scratch \<and> MAX_BLOCKS_LOG2 < unat (ho_blocks_log2 h) then (-1, st)
            else (int (unat (ho_difficulty h) + 256 * unat (ho_gpu_difficulty h)), st\<lparr> sv_handoff := h \<rparr>))"

definition solver_key :: "solver_state \<Rightarrow> u32 \<times> solver_state" where
  "solver_key st = (KEY_LEN, st\<lparr> sv_buf := overwrite 0 (ho_key (sv_handoff st)) (sv_buf st) \<rparr>)"

fun find_sha256 :: "u32 \<Rightarrow> nat list \<Rightarrow> key_block \<Rightarrow> nat option" where
  "find_sha256 bits [] kb = None"
| "find_sha256 bits (n # ns) kb =
     (let (ok, kb) = key_block_satisfies n bits kb in if ok then Some n else find_sha256 bits ns kb)"

fun find_scratch :: "nat \<Rightarrow> u32 \<Rightarrow> nat list \<Rightarrow> key_block \<Rightarrow> byte list list \<Rightarrow> nat option \<times> byte list list" where
  "find_scratch blocks_log2 bits [] kb pad = (None, pad)"
| "find_scratch blocks_log2 bits (n # ns) kb pad =
     (let (ok, kb, pad) = scratch_satisfies pad kb n blocks_log2 bits
      in if ok then (Some n, pad) else find_scratch blocks_log2 bits ns kb pad)"

text \<open>A nonce past the largest \<open>i64\<close> is reported as not found.\<close>

definition nonce_result :: "nat option \<Rightarrow> int" where
  "nonce_result found = (case found of None \<Rightarrow> -1 | Some n \<Rightarrow> if n \<le> i64_max then int n else -1)"

definition solver_solve :: "u64 \<Rightarrow> u32 \<Rightarrow> solver_state \<Rightarrow> int \<times> solver_state" where
  "solver_solve start count st =
     (let h = sv_handoff st;
          kb = key_block_new (ho_key h);
          bits = unat (ho_difficulty h);
          nonces = [start..<sat_add64 start count]
      in case ho_kind h of
           Sha256 \<Rightarrow> (nonce_result (find_sha256 bits nonces kb), st)
         | Scratch \<Rightarrow>
             let (found, pad) = find_scratch (unat (ho_blocks_log2 h)) bits nonces kb (sv_pad st)
             in (nonce_result found, st\<lparr> sv_pad := pad \<rparr>))"

definition solver_seal :: "u64 \<Rightarrow> u32 \<Rightarrow> u32 \<Rightarrow> u32 \<Rightarrow> u32 \<Rightarrow> solver_state \<Rightarrow> u32 \<times> solver_state" where
  "solver_seal nonce iv probe_hi probe_lo level st =
     (let s = \<lparr> so_key = ho_key (sv_handoff st), so_nonce = nonce, so_difficulty = of_nat (min level 32),
                so_probe = probe_hi * 2 ^ 32 + probe_lo \<rparr>
      in (SOLUTION_LEN, st\<lparr> sv_buf := overwrite 0 (pack_solution (le_bytes 4 iv) s) (sv_buf st) \<rparr>))"

section \<open>The server's side\<close>

record pow_challenge =
  pw_kind :: pow_kind
  pw_difficulty :: u32
  pw_blocks_log2 :: nat
  pw_gpu_difficulty :: "u32 option"
  pw_gpu_required :: bool

definition difficulty_range :: "pow_challenge \<Rightarrow> nat \<times> nat" where
  "difficulty_range pow = (1, 32)"

definition in_difficulty_range :: "pow_challenge \<Rightarrow> u32 \<Rightarrow> bool" where
  "in_difficulty_range pow d \<longleftrightarrow> fst (difficulty_range pow) \<le> d \<and> d \<le> snd (difficulty_range pow)"

definition gpu_level :: "pow_challenge \<Rightarrow> u32 \<Rightarrow> u32 option" where
  "gpu_level pow level = (case pw_gpu_difficulty pow of None \<Rightarrow> None | Some gpu \<Rightarrow> if level < gpu then Some gpu else None)"

definition reached_gpu :: "pow_challenge \<Rightarrow> u32 \<Rightarrow> bool" where
  "reached_gpu pow level = (case pw_gpu_difficulty pow of None \<Rightarrow> False | Some gpu \<Rightarrow> gpu \<le> level)"

text \<open>The handoff the page carries. A level past a byte panics; \<open>None\<close> is the panic.\<close>

definition widget_handoff :: "pow_challenge \<Rightarrow> byte list \<Rightarrow> u32 option \<Rightarrow> handoff option" where
  "widget_handoff pow key override =
     (let level = (case override of None \<Rightarrow> pw_difficulty pow | Some d \<Rightarrow> d);
          gpu = (if pw_gpu_required pow then level else (case gpu_level pow level of None \<Rightarrow> 0 | Some g \<Rightarrow> g))
      in if level < 256 \<and> gpu < 256
         then Some \<lparr> ho_key = key, ho_kind = pw_kind pow, ho_difficulty = of_nat level,
                ho_blocks_log2 = of_nat (pw_blocks_log2 pow), ho_gpu_difficulty = of_nat gpu \<rparr>
         else None)"

text \<open>The server hashes with its own library, an argument here.\<close>

definition pow_verify :: "(byte list \<Rightarrow> byte list) \<Rightarrow> pow_challenge \<Rightarrow> byte list \<Rightarrow> u64 \<Rightarrow> u32 \<Rightarrow> bool" where
  "pow_verify sha256 pow key nonce difficulty =
     (case pw_kind pow of
        Sha256 \<Rightarrow> leading_zero_bits (sha256 (key @ be_bytes 8 nonce)) difficulty
      | Scratch \<Rightarrow>
          fst (scratch_satisfies (replicate (2 ^ pw_blocks_log2 pow) (replicate 32 0)) (key_block_new key) nonce
                 (pw_blocks_log2 pow) difficulty))"

section \<open>SHA-256 by the standard\<close>

text \<open>FIPS 180-4: the message schedule by its recurrence, the rounds with the named functions, and
  any message padded to whole blocks.\<close>

definition fips_Ch :: "w32 \<Rightarrow> w32 \<Rightarrow> w32 \<Rightarrow> w32" where "fips_Ch x y z = (x AND y) XOR (NOT x AND z)"
definition fips_Maj :: "w32 \<Rightarrow> w32 \<Rightarrow> w32 \<Rightarrow> w32" where "fips_Maj x y z = (x AND y) XOR (x AND z) XOR (y AND z)"
definition fips_S0 :: "w32 \<Rightarrow> w32" where "fips_S0 x = word_rotr 2 x XOR word_rotr 13 x XOR word_rotr 22 x"
definition fips_S1 :: "w32 \<Rightarrow> w32" where "fips_S1 x = word_rotr 6 x XOR word_rotr 11 x XOR word_rotr 25 x"
definition fips_s0 :: "w32 \<Rightarrow> w32" where "fips_s0 x = word_rotr 7 x XOR word_rotr 18 x XOR drop_bit 3 x"
definition fips_s1 :: "w32 \<Rightarrow> w32" where "fips_s1 x = word_rotr 17 x XOR word_rotr 19 x XOR drop_bit 10 x"

fun fips_W :: "(nat \<Rightarrow> w32) \<Rightarrow> nat \<Rightarrow> w32" where
  "fips_W M t = (if t < 16 then M t else fips_s1 (fips_W M (t - 2)) + fips_W M (t - 7) + fips_s0 (fips_W M (t - 15)) + fips_W M (t - 16))"

declare fips_W.simps [simp del]

type_synonym octet8 = "w32 \<times> w32 \<times> w32 \<times> w32 \<times> w32 \<times> w32 \<times> w32 \<times> w32"

fun fips_round :: "w32 \<Rightarrow> w32 \<Rightarrow> octet8 \<Rightarrow> octet8" where
  "fips_round k w (a, b, c, d, e, f, g, h) =
     (let t1 = h + fips_S1 e + fips_Ch e f g + k + w; t2 = fips_S0 a + fips_Maj a b c
      in (t1 + t2, a, b, c, d + t1, e, f, g))"

fun fips_add :: "octet8 \<Rightarrow> octet8 \<Rightarrow> octet8" where
  "fips_add (a, b, c, d, e, f, g, h) (a', b', c', d', e', f', g', h') =
     (a + a', b + b', c + c', d + d', e + e', f + f', g + g', h + h')"

definition fips_block :: "octet8 \<Rightarrow> (nat \<Rightarrow> w32) \<Rightarrow> octet8" where
  "fips_block H M = fips_add H (fold (\<lambda>t. fips_round (sha_K ! t) (fips_W M t)) [0..<64] H)"

definition fips_pad :: "byte list \<Rightarrow> byte list" where
  "fips_pad m = m @ [0x80] @ replicate ((119 - length m mod 64) mod 64) 0 @ be_bytes 8 (8 * length m)"

definition fips_word :: "byte list \<Rightarrow> nat \<Rightarrow> nat \<Rightarrow> w32" where
  "fips_word m i t = of_nat (from_be_bytes (take 4 (drop (64 * i + 4 * t) m)))"

definition fips_H0 :: octet8 where
  "fips_H0 = (0x6a09e667, 0xbb67ae85, 0x3c6ef372, 0xa54ff53a, 0x510e527f, 0x9b05688c, 0x1f83d9ab, 0x5be0cd19)"

fun fips_digest :: "octet8 \<Rightarrow> byte list" where
  "fips_digest (a, b, c, d, e, f, g, h) = concat (map (\<lambda>w. be_bytes 4 (unat w)) [a, b, c, d, e, f, g, h])"

definition fips_sha256 :: "byte list \<Rightarrow> byte list" where
  "fips_sha256 m =
     (let p = fips_pad m in fips_digest (fold (\<lambda>i H. fips_block H (fips_word p i)) [0..<length p div 64] fips_H0))"

section \<open>The code computes SHA-256\<close>

fun list8 :: "octet8 \<Rightarrow> w32 list" where
  "list8 (a, b, c, d, e, f, g, h) = [a, b, c, d, e, f, g, h]"

lemma fips_W_cong: "(\<And>t. t < 16 \<Longrightarrow> M t = M' t) \<Longrightarrow> fips_W M t = fips_W M' t"
proof (induction M t rule: fips_W.induct)
  case (1 M t)
  show ?case
  proof (cases "t < 16")
    case True
    with "1.prems" show ?thesis by (simp add: fips_W.simps [of M t] fips_W.simps [of M' t])
  next
    case False
    with 1 show ?thesis by (simp add: fips_W.simps [of M t] fips_W.simps [of M' t])
  qed
qed

lemma schedule_prefix:
  assumes "n \<le> 48" and M: "M = (\<lambda>i. word_of_be (take 4 (drop (4 * i) block)))"
  shows "fold schedule_step [16..<16 + n] (map M [0..<16] @ replicate 48 0) = map (fips_W M) [0..<16 + n] @ replicate (48 - n) 0"
  using assms(1)
proof (induction n)
  case 0
  have "map M [0..<16] = map (fips_W M) [0..<16]" by (rule map_cong) (auto simp: fips_W.simps [of M])
  then show ?case by simp
next
  case (Suc n)
  let ?w = "map (fips_W M) [0..<16 + n] @ replicate (48 - n) 0"
  have "48 - n = Suc (48 - Suc n)" using Suc.prems by simp
  then have rep: "replicate (48 - n) (0::w32) = 0 # replicate (48 - Suc n) 0" by simp
  have W: "fips_W M (16 + n) = fips_s1 (fips_W M (14 + n)) + fips_W M (9 + n) + fips_s0 (fips_W M (1 + n)) + fips_W M n"
    by (subst fips_W.simps) simp
  have idx: "16 + n - 15 = 1 + n" "16 + n - 2 = 14 + n" "16 + n - 16 = n" "16 + n - 7 = 9 + n" by simp_all
  have nths: "?w ! (1 + n) = fips_W M (1 + n)" "?w ! (14 + n) = fips_W M (14 + n)" "?w ! n = fips_W M n" "?w ! (9 + n) = fips_W M (9 + n)"
    by (simp_all add: nth_append)
  have "schedule_step (16 + n) ?w = ?w[16 + n := fips_W M (16 + n)]"
    unfolding schedule_step_def Let_def idx nths W fips_s0_def fips_s1_def by (simp only: ac_simps)
  also have "\<dots> = map (fips_W M) [0..<16 + Suc n] @ replicate (48 - Suc n) 0"
    unfolding rep add_Suc_right upt_Suc by (simp add: list_update_append)
  finally have step: "schedule_step (16 + n) ?w = map (fips_W M) [0..<16 + Suc n] @ replicate (48 - Suc n) 0" .
  have "[16..<16 + Suc n] = [16..<16 + n] @ [16 + n]" by (simp flip: upt_Suc_append)
  with step Suc show ?case by (simp add: fold_append)
qed

lemma schedule_fips: "schedule block = map (fips_W (\<lambda>i. word_of_be (take 4 (drop (4 * i) block)))) [0..<64]"
  using schedule_prefix [of 48 _ block] by (simp add: schedule_def)

lemma sha_round_fips: "sha_round w i (list8 s) = list8 (fips_round (sha_K ! i) (w ! i) s)"
  by (cases s rule: list8.cases) (simp add: sha_round_def Let_def fips_S0_def fips_S1_def fips_Ch_def fips_Maj_def)

lemma sha_rounds_fips: "fold (sha_round w) ts (list8 s) = list8 (fold (\<lambda>t. fips_round (sha_K ! t) (w ! t)) ts s)"
  by (induction ts arbitrary: s) (simp_all add: sha_round_fips)

lemma compress_fips:
  "compress (list8 H) (take 64 (drop (64 * i) p)) = list8 (fips_block H (fips_word p i))"
proof -
  define block where "block = take 64 (drop (64 * i) p)"
  let ?M = "\<lambda>t. word_of_be (take 4 (drop (4 * t) block))"
  have "?M t = fips_word p i t" if "t < 16" for t
  proof -
    have "min (64 - 4 * t) 4 = 4" using that by simp
    then show ?thesis
      by (simp add: word_of_be_def fips_word_def block_def drop_take add.commute)
  qed
  then have W: "fips_W ?M t = fips_W (fips_word p i) t" for t by (rule fips_W_cong)
  have "fold (\<lambda>t. fips_round (sha_K ! t) (schedule block ! t)) [0..<64] H =
      fold (\<lambda>t. fips_round (sha_K ! t) (fips_W (fips_word p i) t)) [0..<64] H"
    by (rule fold_cong) (auto simp: schedule_fips W)
  moreover have "map2 (+) (list8 s) (list8 s') = list8 (fips_add s s')" for s s'
    by (cases s rule: list8.cases; cases s' rule: list8.cases) simp
  ultimately show ?thesis
    by (simp add: compress_def sha_rounds_fips fips_block_def block_def)
qed

lemma sha_H0_list8: "sha_H0 = list8 fips_H0"
  by (simp add: sha_H0_def fips_H0_def)

lemma state_to_bytes_fips: "state_to_bytes (list8 H) = fips_digest H"
  by (cases H rule: list8.cases) (simp add: state_to_bytes_def)

text \<open>One block for a message of forty bytes, two for one of sixty-four.\<close>

definition key_tail :: "byte list" where
  "key_tail = 0x80 # replicate 21 0 @ [1, 0x40]"

lemma be_bytes_lengths:
  "be_bytes 8 320 = replicate 6 0 @ [1, 0x40]" "be_bytes 2 320 = [1, 0x40]"
  "be_bytes 8 512 = replicate 6 0 @ [2, 0]" "be_bytes 2 512 = [2, 0]"
  by (code_simp+)

lemma fips_pad_40: "length m = 40 \<Longrightarrow> fips_pad m = m @ key_tail"
  by (simp add: fips_pad_def be_bytes_lengths key_tail_def replicate_add [symmetric] flip: append_assoc)

definition key_block_ok :: "byte list \<Rightarrow> key_block \<Rightarrow> bool" where
  "key_block_ok key kb \<longleftrightarrow> (\<exists>mid. length mid = 8 \<and> kb = key @ mid @ key_tail)"

lemma key_tail_length [simp]: "length key_tail = 24"
  by (simp add: key_tail_def)

lemma key_block_new_ok: "length key = 32 \<Longrightarrow> key_block_ok key (key_block_new key)"
proof -
  assume len: "length key = 32"
  have "overwrite 0 key (replicate 64 0) = key @ replicate 32 0"
    using len by (simp add: overwrite_def)
  moreover have "(key @ replicate 32 0)[40 := 0x80] = key @ (replicate 32 0)[8 := 0x80]"
    using len by (simp add: list_update_append)
  moreover have "overwrite 62 [1, 0x40] (key @ (replicate 32 0)[8 := 0x80]) = key @ (take 30 ((replicate 32 0)[8 := 0x80]) @ [1, 0x40])"
    using len by (simp add: overwrite_def)
  moreover have "take 30 ((replicate 32 0)[8 := 0x80]) @ [1, 0x40] = replicate 8 0 @ key_tail"
    unfolding key_tail_def by code_simp
  ultimately have "key_block_new key = key @ replicate 8 0 @ key_tail"
    by (simp add: key_block_new_def be_bytes_lengths Let_def)
  then show ?thesis by (auto simp: key_block_ok_def)
qed

lemma key_block_digest_fips:
  assumes "key_block_ok key kb" "length key = 32"
  shows "fst (key_block_digest nonce kb) = fips_sha256 (key @ be_bytes 8 nonce)"
    and "key_block_ok key (snd (key_block_digest nonce kb))"
proof -
  let ?m = "key @ be_bytes 8 nonce"
  have block: "overwrite 32 (be_bytes 8 nonce) kb = ?m @ key_tail"
    using assms by (auto simp: key_block_ok_def overwrite_def)
  have pad: "fips_pad ?m = ?m @ key_tail" using assms(2) by (intro fips_pad_40) simp
  have "compress sha_H0 (?m @ key_tail) = list8 (fips_block fips_H0 (fips_word (?m @ key_tail) 0))"
    using compress_fips [of fips_H0 0 "?m @ key_tail"] assms(2) by (simp add: sha_H0_list8)
  then show "fst (key_block_digest nonce kb) = fips_sha256 ?m"
    using assms(2) by (simp add: key_block_digest_def block fips_sha256_def pad state_to_bytes_fips Let_def)
  show "key_block_ok key (snd (key_block_digest nonce kb))"
    by (auto simp: key_block_digest_def block key_block_ok_def Let_def)
qed

lemma hash_pair_fips:
  assumes "length left = 32" "length right = 32"
  shows "hash_pair left right = fips_sha256 (left @ right)"
proof -
  let ?m = "left @ right"
  define tail where "tail = 0x80 # replicate 61 0 @ [2, 0 :: byte]"
  have block: "overwrite 0 ?m (replicate 64 0) = ?m" using assms by (simp add: overwrite_def)
  have "overwrite 62 [2, 0] ((replicate 64 0)[0 := 0x80]) = tail"
    unfolding tail_def by code_simp
  moreover have pad: "fips_pad ?m = ?m @ tail"
    using assms by (simp add: fips_pad_def be_bytes_lengths tail_def replicate_add [symmetric] flip: append_assoc)
  moreover have "compress (list8 H) ?m = list8 (fips_block H (fips_word (?m @ tail) 0))"
    "compress (list8 H) tail = list8 (fips_block H (fips_word (?m @ tail) 1))" for H
    using compress_fips [of H 0 "?m @ tail"] compress_fips [of H 1 "?m @ tail"] assms
    by (simp_all add: tail_def)
  moreover have "length (?m @ tail) div 64 = 2" using assms by (simp add: tail_def)
  moreover have "[0..<2] = [0, 1::nat]" by (simp add: upt_rec)
  ultimately show ?thesis
    by (simp add: hash_pair_def block be_bytes_lengths sha_H0_list8 state_to_bytes_fips fips_sha256_def pad Let_def)
qed

text \<open>C36. The module's hashing is SHA-256. The block that is built once per key and rewritten for each
  nonce, compressed once, gives the FIPS 180-4 digest of the key followed by the nonce, however
  many nonces were tried before; and the two-block routine gives the digest of its two inputs.\<close>

theorem solver_sha256_correct:
  assumes "length key = 32" "length left = 32" "length right = 32"
  shows "fst (key_block_digest nonce (fold (\<lambda>n kb. snd (key_block_digest n kb)) tried (key_block_new key))) =
      fips_sha256 (key @ be_bytes 8 nonce) \<and>
    hash_pair left right = fips_sha256 (left @ right)"
proof -
  have "key_block_ok key (fold (\<lambda>n kb. snd (key_block_digest n kb)) tried kb)" if "key_block_ok key kb" for kb
    using that by (induction tried arbitrary: kb) (simp_all add: key_block_digest_fips(2) assms(1))
  from this [OF key_block_new_ok [OF assms(1)]] show ?thesis
    using key_block_digest_fips(1) assms hash_pair_fips by blast
qed

section \<open>The scratchpad does not depend on what it held\<close>

lemma fill_length [simp]: "length (fold (fill_step seed) is pad) = length pad"
  by (induction "is" arbitrary: pad) (simp_all add: fill_step_def)

lemma fill_agrees:
  assumes "length pad = length pad'" "pad ! 0 = pad' ! 0" "k \<le> length pad" "j < k"
  shows "fold (fill_step seed) [1..<k] pad ! j = fold (fill_step seed) [1..<k] pad' ! j"
  using assms(3,4)
proof (induction k arbitrary: j)
  case (Suc k)
  show ?case
  proof (cases "k = 0")
    case True
    with Suc assms show ?thesis by simp
  next
    case False
    then have upt: "[1..<Suc k] = [1..<k] @ [k]" by simp
    have IH: "fold (fill_step seed) [1..<k] pad ! i = fold (fill_step seed) [1..<k] pad' ! i" if "i < k" for i
      using Suc that by simp
    have "k < length pad" "k < length pad'" using Suc.prems assms(1) by auto
    with IH [of j] IH [of "k - 1"] False Suc.prems(2) show ?thesis
      unfolding upt by (cases "j = k") (simp_all add: fill_step_def [of seed k])
  qed
qed simp

lemma walk_length: "length (snd (fold (walk_step blocks) is st)) = length (snd st)"
  by (induction "is" arbitrary: st) (simp_all add: walk_step_def Let_def split: prod.split)

lemma scratch_fresh:
  assumes "2 ^ b \<le> length pad" "key_block_ok key kb" "length key = 32"
  shows "fst (scratch_satisfies pad kb n b bits) = fst (scratch_satisfies (replicate (2 ^ b) (replicate 32 0)) (key_block_new key) n b bits)"
    and "key_block_ok key (fst (snd (scratch_satisfies pad kb n b bits)))"
    and "length (snd (snd (scratch_satisfies pad kb n b bits))) = length pad"
proof -
  let ?B = "2 ^ b :: nat"
  define seed where "seed = fst (key_block_digest n kb)"
  have seed: "fst (key_block_digest n (key_block_new key)) = seed"
    using key_block_digest_fips(1) [OF assms(2,3)] key_block_digest_fips(1) [OF key_block_new_ok [OF assms(3)] assms(3)]
    by (simp add: seed_def)
  let ?p = "(take ?B pad)[0 := seed]"
  let ?q = "(replicate ?B (replicate 32 0 :: byte list))[0 := seed]"
  have same: "fold (fill_step seed) [1..<?B] ?p = fold (fill_step seed) [1..<?B] ?q"
  proof (rule nth_equalityI)
    fix i
    assume "i < length (fold (fill_step seed) [1..<?B] ?p)"
    then show "fold (fill_step seed) [1..<?B] ?p ! i = fold (fill_step seed) [1..<?B] ?q ! i"
      using assms(1) by (intro fill_agrees) simp_all
  qed (use assms(1) in simp)
  show "fst (scratch_satisfies pad kb n b bits) = fst (scratch_satisfies (replicate ?B (replicate 32 0)) (key_block_new key) n b bits)"
    using assms(1) seed same by (simp add: scratch_satisfies_def Let_def split_def seed_def [symmetric])
  show "key_block_ok key (fst (snd (scratch_satisfies pad kb n b bits)))"
    using assms(1) key_block_digest_fips(2) [OF assms(2,3)] by (simp add: scratch_satisfies_def Let_def split_def)
  show "length (snd (snd (scratch_satisfies pad kb n b bits))) = length pad"
    using assms(1) by (simp add: scratch_satisfies_def Let_def split_def walk_length)
qed

section \<open>What the module finds, the server accepts\<close>

lemma find_sha256_is_find:
  assumes "key_block_ok key kb" "length key = 32"
  shows "find_sha256 bits ns kb = List.find (\<lambda>n. leading_zero_bits (fips_sha256 (key @ be_bytes 8 n)) bits) ns"
  using assms(1)
proof (induction ns arbitrary: kb)
  case (Cons n ns)
  note digest = key_block_digest_fips [OF Cons.prems assms(2), of n]
  from Cons.IH [OF digest(2)] digest(1) show ?case
    by (simp add: key_block_satisfies_def split_def)
qed simp

lemma find_scratch_is_find:
  assumes "key_block_ok key kb" "length key = 32" "2 ^ b \<le> length pad"
  shows "fst (find_scratch b bits ns kb pad) =
      List.find (\<lambda>n. fst (scratch_satisfies (replicate (2 ^ b) (replicate 32 0)) (key_block_new key) n b bits)) ns"
  using assms(1,3)
proof (induction ns arbitrary: kb pad)
  case (Cons n ns)
  note fresh = scratch_fresh [OF Cons.prems(2,1) assms(2), of n bits]
  have "2 ^ b \<le> length (snd (snd (scratch_satisfies pad kb n b bits)))" using fresh(3) Cons.prems(2) by simp
  from Cons.IH [OF fresh(2) this] fresh(1) show ?case
    by (simp add: split_def Let_def)
qed simp

lemma solver_solve_is_find:
  assumes "length (ho_key (sv_handoff st)) = 32" "2 ^ unat (ho_blocks_log2 (sv_handoff st)) \<le> length (sv_pad st)"
    and "\<And>m. length m = 40 \<Longrightarrow> sha256 m = fips_sha256 m"
    and "pw_kind pow = ho_kind (sv_handoff st)" "pw_blocks_log2 pow = unat (ho_blocks_log2 (sv_handoff st))"
  shows "fst (solver_solve start count st) =
    nonce_result (List.find (\<lambda>n. pow_verify sha256 pow (ho_key (sv_handoff st)) n (unat (ho_difficulty (sv_handoff st))))
      [start..<sat_add64 start count])"
proof (cases "ho_kind (sv_handoff st)")
  case Sha256
  with assms show ?thesis
    by (simp add: solver_solve_def Let_def find_sha256_is_find [OF key_block_new_ok] pow_verify_def)
next
  case Scratch
  with assms find_scratch_is_find [OF key_block_new_ok, of "ho_key (sv_handoff st)"] show ?thesis
    by (simp add: solver_solve_def Let_def pow_verify_def split_def)
qed

text \<open>Round trips of the codec: the key stream is its own inverse.\<close>

lemma keystream_loop_length [simp]: "length (keystream_loop s data) = length data"
  by (induction s data rule: keystream_loop.induct) (simp_all add: Let_def)

lemma keystream_loop_inverse: "keystream_loop s (keystream_loop s data) = data"
proof (induction s data rule: keystream_loop.induct)
  case (2 s b bs)
  then show ?case by (simp add: Let_def xor.assoc)
qed simp

lemma keystream_length [simp]: "length (keystream iv data) = length data"
  by (simp add: keystream_def)

lemma keystream_inverse [simp]: "keystream iv (keystream iv data) = data"
  by (simp add: keystream_def keystream_loop_inverse)

lemma kind_roundtrip [simp]: "kind_from_tag (kind_tag k) = Some k"
  by (cases k) (simp_all add: kind_from_tag_def)

lemmas codec_lengths = IV_LEN_def KEY_LEN_def HANDOFF_LEN_def SOLUTION_LEN_def

lemma unpack_pack_handoff:
  "length iv = 4 \<Longrightarrow> length (ho_key h) = 32 \<Longrightarrow> unpack_handoff (pack_handoff iv h) = Some h"
  by (simp add: unpack_handoff_def pack_handoff_def codec_lengths Let_def nth_append)

lemma unpack_pack_solution:
  assumes "length iv = 4" "length (so_key s) = 32" "so_nonce s \<le> u64_max" "so_probe s \<le> u64_max"
  shows "unpack_solution (pack_solution iv s) = Some s"
proof -
  have "so_nonce s mod 256 ^ 8 = so_nonce s" "so_probe s mod 256 ^ 8 = so_probe s"
    using assms(3,4) by (simp_all add: width_simps)
  with assms(1,2) show ?thesis
    by (simp add: unpack_solution_def pack_solution_def codec_lengths Let_def nth_append)
qed

text \<open>Packing and unpacking are inverse. The handoff a page carries and the solution a client
  posts both read back field by field, for every initialisation vector; and a blob of any other
  length is refused.\<close>

theorem codec_roundtrip:
  assumes "length iv = 4" "length (ho_key h) = 32" "length (so_key s) = 32" "so_nonce s \<le> u64_max" "so_probe s \<le> u64_max"
    and "length blob \<noteq> HANDOFF_LEN" "length blob \<noteq> SOLUTION_LEN"
  shows "unpack_handoff (pack_handoff iv h) = Some h \<and> unpack_solution (pack_solution iv s) = Some s \<and>
    unpack_handoff blob = None \<and> unpack_solution blob = None"
  using unpack_pack_handoff [OF assms(1,2)] unpack_pack_solution [OF assms(1,3-5)] assms(6,7)
  by (simp add: unpack_handoff_def unpack_solution_def)

lemma overwrite_take: "length bs \<le> length xs \<Longrightarrow> take (length bs) (overwrite 0 bs xs) = bs"
  by (simp add: overwrite_def)

lemma solver_unpack_loads:
  assumes "length iv = 4" "length (ho_key h) = 32" "unat (ho_blocks_log2 h) \<le> MAX_BLOCKS_LOG2"
    and "take HANDOFF_LEN (sv_buf st) = pack_handoff iv h"
  shows "snd (solver_unpack HANDOFF_LEN st) = st\<lparr> sv_handoff := h \<rparr>"
proof -
  have "length (pack_handoff iv h) = HANDOFF_LEN" using assms(1,2) by (simp add: pack_handoff_def codec_lengths)
  then have "\<not> length (sv_buf st) < HANDOFF_LEN" using assms(4) by (metis length_take less_le min.cobounded1 min_def)
  with assms unpack_pack_handoff [OF assms(1,2)] show ?thesis by (simp add: solver_unpack_def)
qed

lemma widget_handoff_Some:
  assumes "widget_handoff pow key override = Some h" "pw_blocks_log2 pow \<le> MAX_BLOCKS_LOG2"
  shows "ho_key h = key" "ho_kind h = pw_kind pow" "unat (ho_blocks_log2 h) = pw_blocks_log2 pow"
    "unat (ho_difficulty h) = (case override of None \<Rightarrow> pw_difficulty pow | Some d \<Rightarrow> d)"
  using assms by (auto simp: widget_handoff_def Let_def unat_of_nat take_bit_eq_mod MAX_BLOCKS_LOG2_def split: if_splits)

lemma nonce_result_nonneg: "nonce_result r = i \<Longrightarrow> 0 \<le> i \<Longrightarrow> r = Some (nat i) \<and> nat i \<le> i64_max"
  by (auto simp: nonce_result_def split: option.splits if_splits)

lemma solver_solve_keeps: "sv_handoff (snd (solver_solve start count st)) = sv_handoff st \<and> sv_buf (snd (solver_solve start count st)) = sv_buf st"
  by (simp add: solver_solve_def Let_def split: pow_kind.split prod.split)

text \<open>C9. A solved challenge verifies, end to end. Let the server put a handoff for a challenge into
  the page, the module load it, search any range of nonces and report a nonce, and seal it at the
  difficulty it was given. Then the sealed blob unpacks on the server to that key and nonce, and
  the server's own check accepts them at that difficulty. The server's hash library is assumed to
  be SHA-256 on forty bytes; the scratchpad may hold anything from earlier attempts.\<close>

theorem solved_challenge_verifies:
  assumes "\<And>m. length m = 40 \<Longrightarrow> sha256 m = fips_sha256 m"
    and "length key = 32" "widget_handoff pow key override = Some h" "pw_blocks_log2 pow \<le> MAX_BLOCKS_LOG2"
    and "length iv = 4" "take HANDOFF_LEN (sv_buf st) = pack_handoff iv h" "length (sv_buf st) = BUF_LEN"
    and "length (sv_pad st) = 2 ^ MAX_BLOCKS_LOG2"
    and "solver_solve start count (snd (solver_unpack HANDOFF_LEN st)) = (n, st2)" "0 \<le> n"
    and "level = unat (ho_difficulty h)" "level \<le> 32" "probe_hi < 2 ^ 32" "probe_lo < 2 ^ 32"
    and "solver_seal (nat n) siv probe_hi probe_lo level st2 = (len, st3)"
  shows "\<exists>s. unpack_solution (take len (sv_buf st3)) = Some s \<and> so_key s = key \<and> so_nonce s = nat n \<and>
    unat (so_difficulty s) = level \<and> pow_verify sha256 pow (so_key s) (so_nonce s) (unat (so_difficulty s))"
proof -
  note h = widget_handoff_Some [OF assms(3,4)]
  define st1 where "st1 = snd (solver_unpack HANDOFF_LEN st)"
  have st1: "st1 = st\<lparr> sv_handoff := h \<rparr>"
    unfolding st1_def using assms h by (intro solver_unpack_loads) auto
  have pad: "(2::nat) ^ unat (ho_blocks_log2 h) \<le> 2 ^ MAX_BLOCKS_LOG2"
    using h(3) assms(4) by (intro power_increasing) auto
  have "fst (solver_solve start count st1) =
      nonce_result (List.find (\<lambda>n. pow_verify sha256 pow key n level) [start..<sat_add64 start count])"
  proof -
    have hd: "sv_handoff st1 = h" "sv_pad st1 = sv_pad st" by (simp_all add: st1)
    show ?thesis
      unfolding assms(11) h(1) [symmetric]
      by (rule solver_solve_is_find [of st1 sha256 pow start count, unfolded hd])
        (use assms(1,2,8) h pad in \<open>simp_all only:\<close>)
  qed
  then have "nonce_result (List.find (\<lambda>n. pow_verify sha256 pow key n level) [start..<sat_add64 start count]) = n"
    using assms(9) by (simp add: st1_def)
  from nonce_result_nonneg [OF this assms(10)]
  have found: "List.find (\<lambda>n. pow_verify sha256 pow key n level) [start..<sat_add64 start count] = Some (nat n)"
    and small: "nat n \<le> u64_max" using i64_max_le_u64_max le_trans by blast+
  then have ok: "pow_verify sha256 pow key (nat n) level" by (auto simp: find_Some_iff)
  have kept: "sv_handoff st2 = h" "sv_buf st2 = sv_buf st"
    using solver_solve_keeps [of start count st1] assms(9) by (simp_all add: st1_def [symmetric]) (simp_all add: st1)
  define s where "s = \<lparr> so_key = key, so_nonce = nat n, so_difficulty = of_nat level, so_probe = probe_hi * 2 ^ 32 + probe_lo \<rparr>"
  have lvl: "unat (of_nat level :: byte) = level" using assms(12) by (simp add: unat_of_nat take_bit_eq_mod)
  have blob: "length (pack_solution (le_bytes 4 siv) s) = SOLUTION_LEN"
    using assms(2) by (simp add: pack_solution_def s_def codec_lengths)
  have "len = SOLUTION_LEN" "sv_buf st3 = overwrite 0 (pack_solution (le_bytes 4 siv) s) (sv_buf st)"
    using assms(12,15) kept h(1) by (auto simp: solver_seal_def s_def min_def)
  then have "take len (sv_buf st3) = pack_solution (le_bytes 4 siv) s"
    using overwrite_take [of "pack_solution (le_bytes 4 siv) s" "sv_buf st"] blob assms(7)
    by (simp add: codec_lengths BUF_LEN_def)
  moreover have "probe_hi * 2 ^ 32 + probe_lo \<le> u64_max"
    using assms(13,14) by (simp add: width_simps)
  then have "unpack_solution (pack_solution (le_bytes 4 siv) s) = Some s"
    using assms(2) small unpack_pack_solution [of "le_bytes 4 siv" s] by (simp add: s_def)
  ultimately have "unpack_solution (take len (sv_buf st3)) = Some s" by simp
  moreover have "so_key s = key \<and> so_nonce s = nat n \<and> unat (so_difficulty s) = level" using lvl by (simp add: s_def)
  ultimately show ?thesis using ok by auto
qed

section \<open>The difficulty is a number of bits\<close>

lemma takeWhile_desc:
  "length (takeWhile (\<lambda>i. \<not> P i) (rev [0..<n])) \<ge> k \<longleftrightarrow> (\<forall>i. n \<le> i + k \<and> i < n \<longrightarrow> \<not> P i)" if "k \<le> n" for P :: "nat \<Rightarrow> bool"
  using that
proof (induction n arbitrary: k)
  case (Suc n)
  show ?case
  proof (cases k)
    case 0
    then show ?thesis by auto
  next
    case (Suc k')
    with Suc.IH [of k'] Suc.prems show ?thesis by (auto simp: less_Suc_eq intro!: exI [of _ n])
  qed
qed simp

lemma byte_leading_zeros_ge:
  assumes "k \<le> 8"
  shows "k \<le> byte_leading_zeros b \<longleftrightarrow> unat b < 2 ^ (8 - k)"
proof -
  have "[7, 6, 5, 4, 3, 2, 1, 0 :: nat] = rev [0..<8]" by (simp add: upt_rec)
  then have "k \<le> byte_leading_zeros b \<longleftrightarrow> (\<forall>i. 8 \<le> i + k \<and> i < 8 \<longrightarrow> \<not> bit b i)"
    unfolding byte_leading_zeros_def using takeWhile_desc [OF assms, of "bit b"] by simp
  also have "\<dots> \<longleftrightarrow> take_bit (8 - k) b = b"
  proof
    assume "\<forall>i. 8 \<le> i + k \<and> i < 8 \<longrightarrow> \<not> bit b i"
    then show "take_bit (8 - k) b = b"
      by (intro bit_word_eqI) (simp add: bit_take_bit_iff, metis le_diff_conv not_le)
  next
    assume "take_bit (8 - k) b = b"
    then show "\<forall>i. 8 \<le> i + k \<and> i < 8 \<longrightarrow> \<not> bit b i"
      by (metis bit_take_bit_iff le_diff_conv not_le)
  qed
  also have "\<dots> \<longleftrightarrow> unat b < 2 ^ (8 - k)"
    by (metis take_bit_nat_eq_self_iff unsigned_take_bit_eq word_unat_eq_iff)
  finally show ?thesis .
qed

lemma zero_bits_loop_iff: "zero_bits_loop bs n \<longleftrightarrow> n \<le> 8 * length bs \<and> from_be_bytes bs < 2 ^ (8 * length bs - n)"
proof (induction bs n rule: zero_bits_loop.induct)
  case (1 n)
  then show ?case by (simp add: from_be_bytes_def)
next
  case (2 b bs n)
  let ?L = "256 ^ length bs :: nat"
  have L: "?L = 2 ^ (8 * length bs)" by (simp add: power_mult)
  have bs: "from_be_bytes bs < ?L" by (rule from_be_bytes_less)
  have b: "unat b < 256" using unsigned_less [of b] by simp
  consider "n = 0" | "0 < n" "n \<le> 8" | "8 < n" by linarith
  then show ?case
  proof cases
    case 1
    have "from_be_bytes (b # bs) < 256 ^ length (b # bs)" by (rule from_be_bytes_less)
    then show ?thesis using 1 by (simp add: power_add power_mult)
  next
    case small: 2
    have "zero_bits_loop (b # bs) n \<longleftrightarrow> unat b < 2 ^ (8 - n)"
    proof -
      have "zero_bits_loop bs 0" by (cases bs) simp_all
      then show ?thesis using small byte_leading_zeros_ge [of n b] by (auto simp: not_less min_def)
    qed
    also have "\<dots> \<longleftrightarrow> unat b * ?L + from_be_bytes bs < 2 ^ (8 - n) * ?L"
    proof
      assume "unat b < 2 ^ (8 - n)"
      then have "(unat b + 1) * ?L \<le> 2 ^ (8 - n) * ?L" by (intro mult_le_mono1) simp
      with bs show "unat b * ?L + from_be_bytes bs < 2 ^ (8 - n) * ?L" by (simp add: algebra_simps)
    next
      assume "unat b * ?L + from_be_bytes bs < 2 ^ (8 - n) * ?L"
      then have "unat b * ?L < 2 ^ (8 - n) * ?L" by linarith
      then show "unat b < 2 ^ (8 - n)" by simp
    qed
    also have "2 ^ (8 - n) * ?L = 2 ^ (8 * length (b # bs) - n)"
      using small by (simp add: L power_add [symmetric])
    finally show ?thesis using small by (simp add: from_be_bytes_Cons)
  next
    case 3
    have "zero_bits_loop (b # bs) n \<longleftrightarrow> b = 0 \<and> zero_bits_loop bs (n - 8)"
      using 3 byte_leading_zeros_ge [of 8 b] by (auto simp: not_less min_def unat_eq_0)
    also have "\<dots> \<longleftrightarrow> b = 0 \<and> n - 8 \<le> 8 * length bs \<and> from_be_bytes bs < 2 ^ (8 * length bs - (n - 8))"
      using 2 3 byte_leading_zeros_ge [of 8 b] by (auto simp: not_less min_def unat_eq_0)
    also have "\<dots> \<longleftrightarrow> n \<le> 8 * length (b # bs) \<and> from_be_bytes (b # bs) < 2 ^ (8 * length (b # bs) - n)"
    proof -
      have small: "2 ^ (8 * length bs - (n - 8)) \<le> ?L" unfolding L by (intro power_increasing) auto
      have "b = 0" if "unat b * ?L + from_be_bytes bs < 2 ^ (8 * length bs - (n - 8))"
      proof (rule ccontr)
        assume "b \<noteq> 0"
        then have "1 * ?L \<le> unat b * ?L" by (intro mult_le_mono1) (simp add: unat_gt_0 Suc_le_eq)
        with that small show False by linarith
      qed
      moreover have "8 * length (b # bs) - n = 8 * length bs - (n - 8)" using 3 by simp
      ultimately show ?thesis using 3 by (auto simp: from_be_bytes_Cons)
    qed
    finally show ?thesis .
  qed
qed
text \<open>The difficulty is the number of leading zero bits: read as a big-endian number of 256 bits,
  a digest meets a difficulty of \<open>bits\<close> exactly when it is below two to the \<open>256 - bits\<close>. (Two
  comments in the sources call it a number of nibbles.)\<close>

theorem difficulty_counts_bits:
  assumes "length digest = 32" "bits \<le> 256"
  shows "leading_zero_bits digest bits \<longleftrightarrow> from_be_bytes digest < 2 ^ (256 - bits)"
  using assms by (simp add: leading_zero_bits_def zero_bits_loop_iff)

section \<open>The theorems at work\<close>

theorem difficulty_counts_bits_witness:
  "leading_zero_bits (replicate 2 0 @ 0x0F # replicate 29 0xFF) 20 \<longleftrightarrow>
     from_be_bytes (replicate 2 0 @ 0x0F # replicate 29 0xFF) < 2 ^ (256 - 20)"
  by (rule difficulty_counts_bits) simp_all

theorem solver_sha256_correct_witness:
  "fst (key_block_digest 5 (fold (\<lambda>n kb. snd (key_block_digest n kb)) [3, 4] (key_block_new (replicate 32 7)))) =
     fips_sha256 (replicate 32 7 @ be_bytes 8 5) \<and>
   hash_pair (replicate 32 1) (replicate 32 2) = fips_sha256 (replicate 32 1 @ replicate 32 2)"
  by (rule solver_sha256_correct) simp_all

definition example_handoff :: handoff where
  "example_handoff = \<lparr> ho_key = replicate 32 7, ho_kind = Scratch, ho_difficulty = 9, ho_blocks_log2 = 11, ho_gpu_difficulty = 0 \<rparr>"

definition example_solution :: solution where
  "example_solution = \<lparr> so_key = replicate 32 7, so_nonce = 1234, so_difficulty = 9, so_probe = 77 \<rparr>"

theorem codec_roundtrip_witness:
  "unpack_handoff (pack_handoff [1, 2, 3, 4] example_handoff) = Some example_handoff \<and>
   unpack_solution (pack_solution [1, 2, 3, 4] example_solution) = Some example_solution \<and>
   unpack_handoff [0] = None \<and> unpack_solution [0] = None"
  by (rule codec_roundtrip) (simp_all add: example_handoff_def example_solution_def width_simps codec_lengths)

definition example_pow :: pow_challenge where
  "example_pow = \<lparr> pw_kind = Sha256, pw_difficulty = 16, pw_blocks_log2 = 0, pw_gpu_difficulty = Some 24, pw_gpu_required = False \<rparr>"

definition example_page :: handoff where
  "example_page = \<lparr> ho_key = replicate 32 7, ho_kind = Sha256, ho_difficulty = 0, ho_blocks_log2 = 0, ho_gpu_difficulty = 24 \<rparr>"

definition example_module :: solver_state where
  "example_module = solver_init\<lparr> sv_buf := pack_handoff [1, 2, 3, 4] example_page @ replicate 24 0 \<rparr>"

lemma example_page_length: "length (pack_handoff [1, 2, 3, 4] example_page) = HANDOFF_LEN"
  by (simp add: pack_handoff_def example_page_def codec_lengths)

lemma example_take: "take HANDOFF_LEN (sv_buf example_module) = pack_handoff [1, 2, 3, 4] example_page"
  using example_page_length by (simp add: example_module_def)

lemma example_solve: "fst (solver_solve 40 10 (snd (solver_unpack HANDOFF_LEN example_module))) = 40"
proof -
  have "snd (solver_unpack HANDOFF_LEN example_module) = example_module\<lparr> sv_handoff := example_page \<rparr>"
    using example_take by (intro solver_unpack_loads) (simp_all add: example_page_def MAX_BLOCKS_LOG2_def)
  moreover have "zero_bits_loop d 0" for d by (cases d) simp_all
  moreover have "[40..<50] = 40 # [41..<50 :: nat]" by (simp add: upt_rec)
  ultimately show ?thesis
    by (simp add: solver_solve_def example_page_def sat_add64_def width_simps key_block_satisfies_def Let_def split_def
        leading_zero_bits_def nonce_result_def)
qed

theorem solved_challenge_verifies_witness:
  "\<exists>s. unpack_solution (take SOLUTION_LEN (sv_buf (snd (solver_seal 40 9 1 2 0
        (snd (solver_solve 40 10 (snd (solver_unpack HANDOFF_LEN example_module)))))))) = Some s \<and>
     so_nonce s = 40 \<and> pow_verify fips_sha256 example_pow (so_key s) (so_nonce s) 0"
proof -
  let ?run = "solver_solve 40 10 (snd (solver_unpack HANDOFF_LEN example_module))"
  have "\<exists>s. unpack_solution (take SOLUTION_LEN (sv_buf (snd (solver_seal (nat 40) 9 1 2 0 (snd ?run))))) = Some s \<and>
      so_key s = replicate 32 7 \<and> so_nonce s = nat 40 \<and> unat (so_difficulty s) = 0 \<and>
      pow_verify fips_sha256 example_pow (so_key s) (so_nonce s) (unat (so_difficulty s))"
  proof (rule solved_challenge_verifies)
    show "widget_handoff example_pow (replicate 32 7) (Some 0) = Some example_page"
      by (simp add: widget_handoff_def example_pow_def example_page_def gpu_level_def)
    show "?run = (40, snd ?run)" using example_solve by (metis prod.collapse)
    show "take HANDOFF_LEN (sv_buf example_module) = pack_handoff [1, 2, 3, 4] example_page" by (rule example_take)
    show "length (sv_buf example_module) = BUF_LEN"
      using example_page_length by (simp add: example_module_def codec_lengths BUF_LEN_def)
    show "length (sv_pad example_module) = 2 ^ MAX_BLOCKS_LOG2" by (simp add: example_module_def solver_init_def)
    show "solver_seal (nat 40) 9 1 2 0 (snd ?run) = (SOLUTION_LEN, snd (solver_seal (nat 40) 9 1 2 0 (snd ?run)))"
      by (simp add: solver_seal_def)
  qed (simp_all add: example_pow_def example_page_def)
  then show ?thesis by auto
qed

end
