(* ===== verification/Net_Tables.thy ===== *)
theory Net_Tables
  imports Rate_Tracker
begin

text \<open>
  The tables the web plane keeps about its visitors: the expiring map of
  bagel-web/src/net/decay_map.rs, the per-session visit records of bagel-web/src/visit.rs kept in
  it, and the fingerprint census of bagel-web/src/net/census.rs. The expiring map is an interface
  (a locale) with the visit tracker as its client; the census is shown to keep its counts
  consistent under every cap, so that a ratio never exceeds a thousand permille. Time is an
  argument in nanoseconds; a lock poisoned by a panic elsewhere is not modelled.
\<close>

section \<open>The expiring map\<close>

definition MAX_ENTRIES :: usize where "MAX_ENTRIES = 65536"

record ('k, 'v) decay_map =
  dm_entries :: "('k \<times> ('v \<times> nat)) list"
  dm_ttl :: nat

definition decay_new :: "nat \<Rightarrow> ('k, 'v) decay_map" where
  "decay_new ttl = \<lparr> dm_entries = [], dm_ttl = ttl \<rparr>"

definition decay_get :: "'k \<Rightarrow> nat \<Rightarrow> ('k, 'v) decay_map \<Rightarrow> 'v option" where
  "decay_get key now m =
     (case map_of (dm_entries m) key of
        None \<Rightarrow> None
      | Some (v, inserted) \<Rightarrow> if dm_ttl m < now - inserted then None else Some v)"

definition decay_retain :: "nat \<Rightarrow> ('k, 'v) decay_map \<Rightarrow> ('k \<times> ('v \<times> nat)) list" where
  "decay_retain now m = filter (\<lambda>(_, (_, inserted)). now - inserted \<le> dm_ttl m) (dm_entries m)"

definition decay_insert :: "'k \<Rightarrow> 'v \<Rightarrow> nat \<Rightarrow> nat \<Rightarrow> ('k, 'v) decay_map \<Rightarrow> ('k, 'v) decay_map" where
  "decay_insert key v inserted now m =
     (let kept = decay_retain now m in
      if length kept < MAX_ENTRIES \<or> map_of kept key \<noteq> None
      then m\<lparr> dm_entries := put_entry key (v, inserted) kept \<rparr>
      else m\<lparr> dm_entries := kept \<rparr>)"

definition decay_set :: "'k \<Rightarrow> 'v \<Rightarrow> nat \<Rightarrow> ('k, 'v) decay_map \<Rightarrow> ('k, 'v) decay_map" where
  "decay_set key v now m = decay_insert key v now now m"

text \<open>With a shorter life the entry is back-dated; a longer one than the map's panics, and so does
  a back-dating past the clock's origin. \<open>None\<close> is the panic.\<close>

definition decay_set_with_ttl :: "'k \<Rightarrow> 'v \<Rightarrow> nat \<Rightarrow> nat \<Rightarrow> ('k, 'v) decay_map \<Rightarrow> ('k, 'v) decay_map option" where
  "decay_set_with_ttl key v ttl now m =
     (if dm_ttl m < ttl \<or> now < dm_ttl m - ttl then None
      else Some (decay_insert key v (now - (dm_ttl m - ttl)) now m))"

definition decay_len :: "('k, 'v) decay_map \<Rightarrow> nat" where
  "decay_len m = length (dm_entries m)"

definition decay_ok :: "('k, 'v) decay_map \<Rightarrow> bool" where
  "decay_ok m \<longleftrightarrow> distinct (map fst (dm_entries m)) \<and> length (dm_entries m) \<le> MAX_ENTRIES"

lemma decay_new_ok: "decay_ok (decay_new ttl)"
  by (simp add: decay_ok_def decay_new_def)

lemma map_of_decay_retain:
  assumes "distinct (map fst (dm_entries m))"
  shows "map_of (decay_retain now m) k =
    (case map_of (dm_entries m) k of None \<Rightarrow> None | Some (v, inserted) \<Rightarrow> if now - inserted \<le> dm_ttl m then Some (v, inserted) else None)"
proof (cases "map_of (dm_entries m) k")
  case None
  then have "k \<notin> fst ` set (decay_retain now m)" by (auto simp: decay_retain_def map_of_eq_None_iff)
  then have "map_of (decay_retain now m) k = None" by (simp add: map_of_eq_None_iff)
  with None show ?thesis by simp
next
  case (Some x)
  obtain v inserted where x: "x = (v, inserted)" by fastforce
  have entry: "(k, v, inserted) \<in> set (dm_entries m)" using map_of_SomeD [OF Some] x by simp
  have distinct: "distinct (map fst (decay_retain now m))" using assms by (simp add: decay_retain_def distinct_map_filter)
  show ?thesis
  proof (cases "now - inserted \<le> dm_ttl m")
    case True
    then have "(k, v, inserted) \<in> set (decay_retain now m)" using entry by (simp add: decay_retain_def)
    then have "map_of (decay_retain now m) k = Some (v, inserted)" using distinct by simp
    with Some x True show ?thesis by simp
  next
    case False
    then have "k \<notin> fst ` set (decay_retain now m)"
      using eq_key_imp_eq_value [OF assms entry] by (auto simp: decay_retain_def)
    then have "map_of (decay_retain now m) k = None" by (simp add: map_of_eq_None_iff)
    with Some x False show ?thesis by simp
  qed
qed

lemma decay_retain_length: "length (decay_retain now m) \<le> length (dm_entries m)"
  by (simp add: decay_retain_def)

lemma decay_insert_ok: "decay_ok m \<Longrightarrow> decay_ok (decay_insert key v inserted now m)"
proof -
  assume ok: "decay_ok m"
  let ?kept = "decay_retain now m"
  have kept: "distinct (map fst ?kept)" "length ?kept \<le> MAX_ENTRIES"
    using ok le_trans [OF decay_retain_length [of now m], of MAX_ENTRIES]
    by (simp_all add: decay_ok_def) (simp add: decay_retain_def distinct_map_filter)
  have "length (put_entry key (v, inserted) ?kept) \<le> MAX_ENTRIES"
    if "length ?kept < MAX_ENTRIES \<or> map_of ?kept key \<noteq> None"
    using put_entry_length [of key "(v, inserted)" ?kept] that kept(2) by (auto simp: map_of_eq_None_iff split: if_splits)
  with kept show ?thesis
    by (simp add: decay_insert_def Let_def decay_ok_def put_entry_distinct)
qed

text \<open>What a client of the map relies on: it reads what it wrote for as long as the map's
  lifetime, and nobody else's writes change that.\<close>

locale expiring_map =
  fixes inv :: "'m \<Rightarrow> bool"
    and get :: "'k \<Rightarrow> nat \<Rightarrow> 'm \<Rightarrow> 'v option"
    and set :: "'k \<Rightarrow> 'v \<Rightarrow> nat \<Rightarrow> 'm \<Rightarrow> 'm"
    and room :: "'k \<Rightarrow> nat \<Rightarrow> 'm \<Rightarrow> bool"
    and life :: nat
  assumes set_inv: "inv m \<Longrightarrow> inv (set k v now m)"
    and get_set_same: "inv m \<Longrightarrow> room k now m \<Longrightarrow> now \<le> later \<Longrightarrow> later \<le> now + life \<Longrightarrow> get k later (set k v now m) = Some v"
    and get_set_expired: "inv m \<Longrightarrow> room k now m \<Longrightarrow> now + life < later \<Longrightarrow> get k later (set k v now m) = None"
    and get_set_other: "inv m \<Longrightarrow> k' \<noteq> k \<Longrightarrow> now \<le> later \<Longrightarrow> get k' later (set k v now m) = get k' later m"
begin

text \<open>Read, change, write back: the pattern of every counter kept in the map.\<close>

definition update :: "('v option \<Rightarrow> 'v) \<Rightarrow> 'k \<Rightarrow> nat \<Rightarrow> 'm \<Rightarrow> 'm" where
  "update f k now m = set k (f (get k now m)) now m"

lemma update_same:
  "inv m \<Longrightarrow> room k now m \<Longrightarrow> now \<le> later \<Longrightarrow> later \<le> now + life \<Longrightarrow> get k later (update f k now m) = Some (f (get k now m))"
  by (simp add: update_def get_set_same)

lemma update_other: "inv m \<Longrightarrow> k' \<noteq> k \<Longrightarrow> now \<le> later \<Longrightarrow> get k' later (update f k now m) = get k' later m"
  by (simp add: update_def get_set_other)

lemma update_inv: "inv m \<Longrightarrow> inv (update f k now m)"
  by (simp add: update_def set_inv)

end

definition decay_room :: "'k \<Rightarrow> nat \<Rightarrow> ('k, 'v) decay_map \<Rightarrow> bool" where
  "decay_room k now m \<longleftrightarrow> length (decay_retain now m) < MAX_ENTRIES \<or> map_of (decay_retain now m) k \<noteq> None"

definition decay_life_ok :: "nat \<Rightarrow> ('k, 'v) decay_map \<Rightarrow> bool" where
  "decay_life_ok life m \<longleftrightarrow> decay_ok m \<and> dm_ttl m = life"

lemma decay_insert_ttl [simp]: "dm_ttl (decay_insert k v inserted now m) = dm_ttl m"
  by (simp add: decay_insert_def Let_def)

lemma decay_set_entries:
  assumes "decay_ok m"
  shows "map_of (dm_entries (decay_set k v now m)) k' =
    (if k' = k \<and> decay_room k now m then Some (v, now) else map_of (decay_retain now m) k')"
  by (auto simp: decay_set_def decay_insert_def Let_def decay_room_def)

interpretation decay: expiring_map "decay_life_ok life" decay_get decay_set decay_room life for life
proof
  fix m :: "('k, 'v) decay_map" and k k' v now later
  assume m: "decay_life_ok life m"
  then have ok: "decay_ok m" and ttl: "dm_ttl m = life" by (simp_all add: decay_life_ok_def)
  show "decay_life_ok life (decay_set k v now m)"
    using decay_insert_ok [OF ok] ttl by (simp add: decay_life_ok_def decay_set_def)
  have ttl': "dm_ttl (decay_set k v now m) = life" using ttl by (simp add: decay_set_def)
  { assume "decay_room k now m" "now \<le> later" "later \<le> now + life"
    then show "decay_get k later (decay_set k v now m) = Some v"
      using ttl' by (simp add: decay_get_def decay_set_entries [OF ok]) }
  { assume "decay_room k now m" "now + life < later"
    then show "decay_get k later (decay_set k v now m) = None"
      using ttl' by (simp add: decay_get_def decay_set_entries [OF ok]) }
  { assume "k' \<noteq> k" "now \<le> later"
    then show "decay_get k' later (decay_set k v now m) = decay_get k' later m"
      using ttl ttl' ok
      by (auto simp: decay_get_def decay_set_entries [OF ok] map_of_decay_retain decay_ok_def split: option.splits) }
qed

section \<open>Visits\<close>

record visit_snapshot =
  v_documents :: u32
  v_pages :: u32
  v_assets :: u32
  v_rendered :: bool
  v_greedy :: bool

definition visit_default :: visit_snapshot where
  "visit_default = \<lparr> v_documents = 0, v_pages = 0, v_assets = 0, v_rendered = False, v_greedy = False \<rparr>"

text \<open>One hour.\<close>

definition VISIT_WINDOW :: nat where "VISIT_WINDOW = 3600 * 1000000000"

type_synonym visit_tracker = "(byte list, visit_snapshot) decay_map"

definition visit_tracker_new :: visit_tracker where
  "visit_tracker_new = decay_new VISIT_WINDOW"

datatype beacon_kind = Positive | Negative

definition count_visit :: "bool \<Rightarrow> visit_snapshot \<Rightarrow> visit_snapshot" where
  "count_visit document r =
     (if document then r\<lparr> v_documents := sat_add32 (v_documents r) 1, v_pages := sat_add32 (v_pages r) 1 \<rparr>
      else r\<lparr> v_assets := sat_add32 (v_assets r) 1 \<rparr>)"

definition count_beacon :: "beacon_kind \<Rightarrow> visit_snapshot \<Rightarrow> visit_snapshot" where
  "count_beacon kind r =
     (case kind of Positive \<Rightarrow> r\<lparr> v_rendered := True, v_documents := 0 \<rparr> | Negative \<Rightarrow> r\<lparr> v_greedy := True \<rparr>)"

definition or_default :: "visit_snapshot option \<Rightarrow> visit_snapshot" where
  "or_default r = (case r of None \<Rightarrow> visit_default | Some r \<Rightarrow> r)"

definition visit_record :: "byte list \<Rightarrow> bool \<Rightarrow> nat \<Rightarrow> visit_tracker \<Rightarrow> visit_snapshot \<times> visit_tracker" where
  "visit_record session document now t =
     (let r = count_visit document (or_default (decay_get session now t)) in (r, decay_set session r now t))"

definition record_beacon :: "byte list \<Rightarrow> beacon_kind \<Rightarrow> nat \<Rightarrow> visit_tracker \<Rightarrow> visit_tracker" where
  "record_beacon session kind now t =
     decay_set session (count_beacon kind (or_default (decay_get session now t))) now t"

text \<open>Both are updates of the interface, so a session reads back its own counts.\<close>

lemma visit_record_update:
  "visit_record session document now t =
     (count_visit document (or_default (decay_get session now t)),
      decay.update (\<lambda>r. count_visit document (or_default r)) session now t)"
  by (simp add: visit_record_def decay.update_def Let_def)

lemma visit_record_reads:
  assumes "decay_life_ok VISIT_WINDOW t" "decay_room session now t" "now \<le> later" "later \<le> now + VISIT_WINDOW"
  shows "decay_get session later (snd (visit_record session document now t)) = Some (fst (visit_record session document now t))"
  using decay.update_same [OF assms] by (simp add: visit_record_update)

section \<open>The fingerprint census\<close>

text \<open>Four hours.\<close>

definition GENERATION :: nat where "GENERATION = 4 * 3600 * 1000000000"
definition CLAIM_CAP :: usize where "CLAIM_CAP = 4096"
definition NETWORK_CAP :: usize where "NETWORK_CAP = 4096"
definition PAIR_CAP :: usize where "PAIR_CAP = 64"

record census_snapshot =
  claim_networks :: u32
  pair_networks :: u32

definition pair_permille :: "census_snapshot \<Rightarrow> u32" where
  "pair_permille s =
     (if claim_networks s = 0 then 0
      else min (pair_networks s * 1000 div claim_networks s) u32_max)"

record claim_entry =
  ce_networks :: "source_network list"
  ce_pairs :: "(string \<times> source_network list) list"

definition claim_entry_default :: claim_entry where
  "claim_entry_default = \<lparr> ce_networks = [], ce_pairs = [] \<rparr>"

definition pair_len :: "claim_entry \<Rightarrow> string \<Rightarrow> nat" where
  "pair_len e fingerprint = (case map_of (ce_pairs e) fingerprint of None \<Rightarrow> 0 | Some p \<Rightarrow> length p)"

record generations =
  g_rotated :: nat
  g_current :: "(string \<times> claim_entry) list"
  g_previous :: "(string \<times> claim_entry) list"

definition census_default :: "nat \<Rightarrow> generations" where
  "census_default now = \<lparr> g_rotated = now, g_current = [], g_previous = [] \<rparr>"

definition rotate_generations :: "nat \<Rightarrow> generations \<Rightarrow> generations" where
  "rotate_generations now g =
     (let elapsed = now - g_rotated g in
      if GENERATION * 2 \<le> elapsed then \<lparr> g_rotated = now, g_current = [], g_previous = [] \<rparr>
      else if GENERATION \<le> elapsed then \<lparr> g_rotated = now, g_current = [], g_previous = g_current g \<rparr>
      else g)"

text \<open>The insertion into a set that is full at the cap.\<close>

definition capped_insert :: "source_network \<Rightarrow> source_network list \<Rightarrow> source_network list" where
  "capped_insert network s = (if length s < NETWORK_CAP then List.insert network s else s)"

definition note_network :: "source_network \<Rightarrow> claim_entry \<Rightarrow> claim_entry" where
  "note_network network e = e\<lparr> ce_networks := capped_insert network (ce_networks e) \<rparr>"

definition note_pair :: "string \<Rightarrow> source_network \<Rightarrow> claim_entry \<Rightarrow> claim_entry" where
  "note_pair fingerprint network e =
     e\<lparr> ce_pairs := put_entry fingerprint
          (capped_insert network (case map_of (ce_pairs e) fingerprint of None \<Rightarrow> [] | Some p \<Rightarrow> p)) (ce_pairs e) \<rparr>"

definition observe :: "string \<Rightarrow> string \<Rightarrow> source_network \<Rightarrow> nat \<Rightarrow> generations \<Rightarrow> census_snapshot option \<times> generations" where
  "observe claim fingerprint network now g =
     (let g = rotate_generations now g in
      if map_of (g_current g) claim = None \<and> CLAIM_CAP \<le> length (g_current g) then (None, g)
      else
        let entry = note_network network (case map_of (g_current g) claim of None \<Rightarrow> claim_entry_default | Some e \<Rightarrow> e) in
        if map_of (ce_pairs entry) fingerprint = None \<and> PAIR_CAP \<le> length (ce_pairs entry)
        then (None, g\<lparr> g_current := put_entry claim entry (g_current g) \<rparr>)
        else
          let entry = note_pair fingerprint network entry;
              older = map_of (g_previous g) claim
          in (Some \<lparr> claim_networks = min (length (ce_networks entry) + (case older of None \<Rightarrow> 0 | Some old \<Rightarrow> length (ce_networks old))) u32_max,
                     pair_networks = min (pair_len entry fingerprint + (case older of None \<Rightarrow> 0 | Some old \<Rightarrow> pair_len old fingerprint)) u32_max \<rparr>,
              g\<lparr> g_current := put_entry claim entry (g_current g) \<rparr>))"

text \<open>Until the networks of a claim are full, every pair's networks are among them; once they are
  full, no pair has more.\<close>

definition entry_ok :: "claim_entry \<Rightarrow> bool" where
  "entry_ok e \<longleftrightarrow>
     distinct (ce_networks e) \<and> length (ce_networks e) \<le> NETWORK_CAP \<and> length (ce_pairs e) \<le> PAIR_CAP \<and>
     (\<forall>(f, p) \<in> set (ce_pairs e). distinct p \<and> length p \<le> NETWORK_CAP \<and>
        (length (ce_networks e) < NETWORK_CAP \<longrightarrow> set p \<subseteq> set (ce_networks e)))"

definition generation_ok :: "(string \<times> claim_entry) list \<Rightarrow> bool" where
  "generation_ok m \<longleftrightarrow> length m \<le> CLAIM_CAP \<and> (\<forall>(c, e) \<in> set m. entry_ok e)"

definition census_ok :: "generations \<Rightarrow> bool" where
  "census_ok g \<longleftrightarrow> generation_ok (g_current g) \<and> generation_ok (g_previous g)"

lemma capped_insert_distinct [simp]: "distinct s \<Longrightarrow> distinct (capped_insert n s)"
  by (simp add: capped_insert_def)

lemma capped_insert_length [simp]: "length s \<le> NETWORK_CAP \<Longrightarrow> length (capped_insert n s) \<le> NETWORK_CAP"
  by (simp add: capped_insert_def List.insert_def)

lemma capped_insert_mono: "set s \<subseteq> set (capped_insert n s)"
  by (auto simp: capped_insert_def)

lemma capped_insert_in: "length (capped_insert n s) < NETWORK_CAP \<Longrightarrow> n \<in> set (capped_insert n s)"
  by (auto simp: capped_insert_def)

lemma capped_insert_grows: "length s \<le> length (capped_insert n s)"
  by (simp add: capped_insert_def List.insert_def)

lemma capped_insert_subset: "set (capped_insert n s) \<subseteq> insert n (set s)"
  by (auto simp: capped_insert_def)

lemma note_network_ok: "entry_ok e \<Longrightarrow> entry_ok (note_network n e)"
proof -
  assume ok: "entry_ok e"
  have "set p \<subseteq> set (capped_insert n (ce_networks e))"
    if "(f, p) \<in> set (ce_pairs e)" "length (capped_insert n (ce_networks e)) < NETWORK_CAP" for f p
  proof -
    have "length (ce_networks e) < NETWORK_CAP" using that(2) capped_insert_grows [of "ce_networks e" n] by simp
    then have "set p \<subseteq> set (ce_networks e)" using ok that(1) by (auto simp: entry_ok_def)
    then show ?thesis using capped_insert_mono by blast
  qed
  with ok show ?thesis by (auto simp: entry_ok_def note_network_def)
qed

lemma note_network_in: "length (ce_networks (note_network n e)) < NETWORK_CAP \<Longrightarrow> n \<in> set (ce_networks (note_network n e))"
  by (simp add: note_network_def capped_insert_in)

lemma note_pair_ok:
  assumes ok: "entry_ok e" and seen: "length (ce_networks e) < NETWORK_CAP \<Longrightarrow> n \<in> set (ce_networks e)"
    and room: "map_of (ce_pairs e) f \<noteq> None \<or> length (ce_pairs e) < PAIR_CAP"
  shows "entry_ok (note_pair f n e)"
proof -
  let ?old = "case map_of (ce_pairs e) f of None \<Rightarrow> [] | Some p \<Rightarrow> p"
  have old: "distinct ?old \<and> length ?old \<le> NETWORK_CAP \<and> (length (ce_networks e) < NETWORK_CAP \<longrightarrow> set ?old \<subseteq> set (ce_networks e))"
  proof (cases "map_of (ce_pairs e) f")
    case (Some p)
    from map_of_SomeD [OF this] ok Some show ?thesis by (auto simp: entry_ok_def)
  qed simp
  then have new: "distinct (capped_insert n ?old) \<and> length (capped_insert n ?old) \<le> NETWORK_CAP \<and>
      (length (ce_networks e) < NETWORK_CAP \<longrightarrow> set (capped_insert n ?old) \<subseteq> set (ce_networks e))"
    using seen capped_insert_subset [of n ?old] by auto
  have "length (ce_pairs (note_pair f n e)) \<le> PAIR_CAP"
    using put_entry_length [of f "capped_insert n ?old" "ce_pairs e"] room ok
    by (auto simp: note_pair_def entry_ok_def map_of_eq_None_iff split: if_splits)
  with ok new show ?thesis by (auto simp: entry_ok_def note_pair_def put_entry_set)
qed

lemma pair_len_le: "entry_ok e \<Longrightarrow> pair_len e f \<le> length (ce_networks e)"
proof (cases "map_of (ce_pairs e) f")
  case (Some p)
  assume ok: "entry_ok e"
  have p: "distinct p" "length p \<le> NETWORK_CAP" "length (ce_networks e) < NETWORK_CAP \<Longrightarrow> set p \<subseteq> set (ce_networks e)"
    using map_of_SomeD [OF Some] ok by (auto simp: entry_ok_def)
  show ?thesis
  proof (cases "length (ce_networks e) < NETWORK_CAP")
    case True
    then have "card (set p) \<le> card (set (ce_networks e))" using p(3) by (intro card_mono) auto
    with p(1) ok Some show ?thesis by (simp add: distinct_card entry_ok_def pair_len_def)
  next
    case False
    with p(2) Some show ?thesis by (simp add: pair_len_def)
  qed
qed (simp add: pair_len_def)

lemma generation_put_ok:
  assumes "generation_ok m" "entry_ok e" "map_of m c \<noteq> None \<or> length m < CLAIM_CAP"
  shows "generation_ok (put_entry c e m)"
  using assms put_entry_length [of c e m]
  by (auto simp: generation_ok_def put_entry_set map_of_eq_None_iff split: if_splits)

lemma rotate_ok: "census_ok g \<Longrightarrow> census_ok (rotate_generations now g)"
  by (simp add: census_ok_def rotate_generations_def Let_def generation_ok_def)

lemma observe_ok:
  assumes "census_ok g" "observe c f n now g = (r, g')"
  shows "census_ok g' \<and> (\<forall>s. r = Some s \<longrightarrow> pair_networks s \<le> claim_networks s)"
proof -
  define g0 where "g0 = rotate_generations now g"
  have ok: "census_ok g0" using assms(1) by (simp add: g0_def rotate_ok)
  define e0 where "e0 = (case map_of (g_current g0) c of None \<Rightarrow> claim_entry_default | Some e \<Rightarrow> e)"
  have "entry_ok e0"
  proof (cases "map_of (g_current g0) c")
    case None
    then show ?thesis by (simp add: e0_def claim_entry_default_def entry_ok_def)
  next
    case (Some e)
    from map_of_SomeD [OF this] ok Some show ?thesis by (auto simp: e0_def census_ok_def generation_ok_def)
  qed
  then have e1: "entry_ok (note_network n e0)" by (rule note_network_ok)
  let ?e = "note_network n e0"
  show ?thesis
  proof (cases "map_of (g_current g0) c = None \<and> CLAIM_CAP \<le> length (g_current g0)")
    case True
    with assms(2) ok show ?thesis by (simp add: observe_def Let_def g0_def [symmetric])
  next
    case room: False
    then have put: "census_ok (g0\<lparr> g_current := put_entry c e (g_current g0) \<rparr>)" if "entry_ok e" for e
      using ok that generation_put_ok [of "g_current g0" e c] by (auto simp: census_ok_def)
    show ?thesis
    proof (cases "map_of (ce_pairs ?e) f = None \<and> PAIR_CAP \<le> length (ce_pairs ?e)")
      case True
      with assms(2) room put [OF e1] show ?thesis by (auto simp: observe_def Let_def g0_def [symmetric] e0_def [symmetric])
    next
      case False
      then have e2: "entry_ok (note_pair f n ?e)" by (intro note_pair_ok e1 note_network_in) auto
      have older: "pair_len old f \<le> length (ce_networks old)" if "map_of (g_previous g0) c = Some old" for old
        using map_of_SomeD [OF that] ok by (intro pair_len_le) (auto simp: census_ok_def generation_ok_def)
      have "pair_len (note_pair f n ?e) f + (case map_of (g_previous g0) c of None \<Rightarrow> 0 | Some old \<Rightarrow> pair_len old f)
          \<le> length (ce_networks (note_pair f n ?e)) + (case map_of (g_previous g0) c of None \<Rightarrow> 0 | Some old \<Rightarrow> length (ce_networks old))"
        using pair_len_le [OF e2, of f] older by (auto split: option.split intro: add_mono)
      then have "pair_networks s \<le> claim_networks s" if "r = Some s" for s
        using assms(2) room False that
        by (auto simp: observe_def Let_def g0_def [symmetric] e0_def [symmetric] simp del: min_le_iff_disj intro: min.mono)
      moreover have "census_ok g'"
        using assms(2) room False put [OF e2] by (auto simp: observe_def Let_def g0_def [symmetric] e0_def [symmetric])
      ultimately show ?thesis by simp
    qed
  qed
qed

definition census_step :: "string \<times> string \<times> source_network \<times> nat \<Rightarrow> generations \<Rightarrow> generations" where
  "census_step obs g = (case obs of (c, f, n, now) \<Rightarrow> snd (observe c f n now g))"

interpretation census: invariant_machine census_ok census_step
proof
  fix g obs
  assume "census_ok g"
  then show "census_ok (census_step obs g)"
    by (cases obs) (metis (no_types, lifting) census_step_def observe_ok old.prod.case prod.collapse)
qed

text \<open>The census never vouches beyond its evidence. After any sequence of observations, at any
  times, a snapshot never counts more networks behind the pair of claim and fingerprint than
  behind the claim, so that the permille figure policies compare against is at most a thousand;
  and the tables stay within their caps of claims, pairs and networks, although a network past
  the claim's cap may still be counted for a pair.\<close>

theorem census_bounded:
  "let (r, g) = observe c f n now (fold census_step history (census_default start)) in
     (case r of None \<Rightarrow> True | Some s \<Rightarrow> pair_networks s \<le> claim_networks s \<and> pair_permille s \<le> 1000) \<and>
     length (g_current g) \<le> CLAIM_CAP \<and>
     list_all (\<lambda>(_, e). length (ce_networks e) \<le> NETWORK_CAP \<and> length (ce_pairs e) \<le> PAIR_CAP) (g_current g)"
proof -
  have start: "census_ok (census_default start)" by (simp add: census_ok_def census_default_def generation_ok_def)
  obtain r g where run: "observe c f n now (fold census_step history (census_default start)) = (r, g)" by fastforce
  from observe_ok [OF census.run_inv [OF start] run] have ok: "census_ok g"
    and le: "\<And>s. r = Some s \<Longrightarrow> pair_networks s \<le> claim_networks s" by auto
  have "pair_permille s \<le> 1000" if "pair_networks s \<le> claim_networks s" for s
  proof -
    have "pair_networks s * 1000 div claim_networks s \<le> claim_networks s * 1000 div claim_networks s"
      using that by (intro div_le_mono) simp
    then show ?thesis by (auto simp: pair_permille_def min_def)
  qed
  with run ok le show ?thesis
    by (auto simp: census_ok_def generation_ok_def entry_ok_def list_all_iff split: option.split)
qed

end
