(* ===== verification/Web_Text.thy ===== *)
theory Web_Text
  imports Byte_Codec
begin

text \<open>
  The text the web plane reads and writes: hex (bagel-web/src/lib.rs), percent encoding, query
  strings and redirects (bagel-web/src/challenge/url.rs, bagel-web/src/routes.rs), form values and
  repository keys of the rules, and browser claims (bagel-web/src/claim.rs). Strings are the bytes
  of their UTF-8 form; \<open>String::from_utf8_lossy\<close> is modelled with its replacement rule. The
  properties: encoding and decoding are inverse, and a redirect the server follows stays on it.
\<close>

section \<open>The string operations of the standard library\<close>

definition code_of :: "char \<Rightarrow> nat" where
  "code_of c = of_char c"

definition str_contains :: "string \<Rightarrow> string \<Rightarrow> bool" where
  "str_contains needle s \<longleftrightarrow> list_ex (\<lambda>n. take (length needle) (drop n s) = needle) [0..<length s + 1 - length needle] \<or> needle = []"

definition starts_with :: "string \<Rightarrow> string \<Rightarrow> bool" where
  "starts_with p s \<longleftrightarrow> strip_prefix p s \<noteq> None"

definition strip_suffix :: "string \<Rightarrow> string \<Rightarrow> string option" where
  "strip_suffix suffix s = map_option rev (strip_prefix (rev suffix) (rev s))"

text \<open>\<open>str::find\<close> of a string, as the text behind the first match.\<close>

fun after_first :: "string \<Rightarrow> string \<Rightarrow> string option" where
  "after_first needle [] = (if needle = [] then Some [] else None)"
| "after_first needle (c # cs) =
     (case strip_prefix needle (c # cs) of Some rest \<Rightarrow> Some rest | None \<Rightarrow> after_first needle cs)"

text \<open>\<open>str::split_once\<close> at a character.\<close>

fun split_once :: "char \<Rightarrow> string \<Rightarrow> (string \<times> string) option" where
  "split_once d [] = None"
| "split_once d (c # cs) = (if c = d then Some ([], cs) else map_option (\<lambda>(a, b). (c # a, b)) (split_once d cs))"

definition is_whitespace :: "char \<Rightarrow> bool" where
  "is_whitespace c \<longleftrightarrow> code_of c \<in> {9, 10, 11, 12, 13, 32}"

definition trim :: "string \<Rightarrow> string" where
  "trim s = rev (dropWhile is_whitespace (rev (dropWhile is_whitespace s)))"

text \<open>\<open>str::to_lowercase\<close> and \<open>eq_ignore_ascii_case\<close> on ASCII text.\<close>

definition lower_char :: "char \<Rightarrow> char" where
  "lower_char c = (if is_upper c then char_of (code_of c + 32) else c)"

definition to_lowercase :: "string \<Rightarrow> string" where
  "to_lowercase s = map lower_char s"

definition eq_ignore_case :: "string \<Rightarrow> string \<Rightarrow> bool" where
  "eq_ignore_case s t \<longleftrightarrow> to_lowercase s = to_lowercase t"

lemma split_once_Some: "split_once d s = Some (a, b) \<longleftrightarrow> s = a @ d # b \<and> d \<notin> set a"
proof (induction s arbitrary: a)
  case (Cons c cs)
  show ?case
  proof (cases "c = d")
    case False
    have "split_once d (c # cs) = Some (a, b) \<longleftrightarrow> (\<exists>a'. a = c # a' \<and> split_once d cs = Some (a', b))"
      using False by auto
    with Cons False show ?thesis by (cases a) auto
  qed (cases a; auto)
qed simp

lemma strip_suffix_iff: "strip_suffix x s = Some r \<longleftrightarrow> s = r @ x"
proof
  assume "strip_suffix x s = Some r"
  then have "rev s = rev x @ rev r" by (auto simp: strip_suffix_def strip_prefix_iff)
  then have "rev (rev s) = rev (rev x @ rev r)" by (rule arg_cong)
  then show "s = r @ x" by simp
qed (simp add: strip_suffix_def)

lemma code_of_less [simp]: "code_of c < 256"
  by (simp add: code_of_def)

lemma char_of_code [simp]: "char_of (code_of c) = c"
  by (simp add: code_of_def)

lemma code_of_char [simp]: "n < 256 \<Longrightarrow> code_of (char_of n) = n"
  by (simp add: code_of_def)

section \<open>Lossy UTF-8\<close>

text \<open>The chunks of \<open>from_utf8_lossy\<close>: how many bytes the next character takes, or, when there is
  none, how many bytes the replacement character stands for.\<close>

definition byte_at :: "string \<Rightarrow> nat \<Rightarrow> nat" where
  "byte_at s i = (if i < length s then code_of (s ! i) else 0)"

definition continuation :: "nat \<Rightarrow> bool" where
  "continuation b \<longleftrightarrow> 0x80 \<le> b \<and> b \<le> 0xBF"

definition second_ok :: "nat \<Rightarrow> nat \<Rightarrow> bool" where
  "second_ok b n \<longleftrightarrow>
     (if b = 0xE0 then 0xA0 \<le> n \<and> n \<le> 0xBF
      else if b = 0xED then 0x80 \<le> n \<and> n \<le> 0x9F
      else if b = 0xF0 then 0x90 \<le> n \<and> n \<le> 0xBF
      else if b = 0xF4 then 0x80 \<le> n \<and> n \<le> 0x8F
      else continuation n)"

definition utf8_step :: "string \<Rightarrow> bool \<times> nat" where
  "utf8_step s =
     (let b = byte_at s 0 in
      if b < 0x80 then (True, 1)
      else if 0xC2 \<le> b \<and> b \<le> 0xDF then (if continuation (byte_at s 1) then (True, 2) else (False, 1))
      else if 0xE0 \<le> b \<and> b \<le> 0xEF then
        (if \<not> second_ok b (byte_at s 1) then (False, 1)
         else if \<not> continuation (byte_at s 2) then (False, 2) else (True, 3))
      else if 0xF0 \<le> b \<and> b \<le> 0xF4 then
        (if \<not> second_ok b (byte_at s 1) then (False, 1)
         else if \<not> continuation (byte_at s 2) then (False, 2)
         else if \<not> continuation (byte_at s 3) then (False, 3) else (True, 4))
      else (False, 1))"

lemma utf8_step_pos: "0 < snd (utf8_step s)"
  by (simp add: utf8_step_def Let_def)

definition replacement :: string where
  "replacement = map char_of [0xEF, 0xBF, 0xBD :: nat]"

function utf8_lossy :: "string \<Rightarrow> string" where
  "utf8_lossy s =
     (if s = [] then []
      else let (ok, n) = utf8_step s in (if ok then take n s else replacement) @ utf8_lossy (drop n s))"
  by pat_completeness auto
termination
proof (relation "measure length")
  show "(drop y s, s) \<in> measure length" if "s \<noteq> []" "xa = utf8_step s" "(x, y) = xa" for s xa x y
    using that utf8_step_pos [of s] by (cases s) (auto simp: prod_eq_iff)
qed simp

section \<open>Hex\<close>

definition hex_digit :: "nat \<Rightarrow> char" where
  "hex_digit n = ''0123456789abcdef'' ! n"

definition HEX_CHARS :: string where
  "HEX_CHARS = ''0123456789ABCDEF''"

definition hex_encode :: "byte list \<Rightarrow> string" where
  "hex_encode bytes = concat (map (\<lambda>b. [hex_digit (unat b div 16), hex_digit (unat b mod 16)]) bytes)"

definition hex_nibble :: "char \<Rightarrow> nat option" where
  "hex_nibble ch =
     (if is_digit ch then Some (code_of ch - 48)
      else if 97 \<le> code_of ch \<and> code_of ch \<le> 102 then Some (code_of ch - 97 + 10)
      else if 65 \<le> code_of ch \<and> code_of ch \<le> 70 then Some (code_of ch - 65 + 10)
      else None)"

text \<open>\<open>u8::from_str_radix(pair, 16)\<close> on two characters: like every integer parser of the standard
  library it takes a leading plus sign.\<close>

definition radix16_pair :: "char \<Rightarrow> char \<Rightarrow> nat option" where
  "radix16_pair a b =
     (case hex_nibble b of None \<Rightarrow> None
      | Some lo \<Rightarrow> if a = CHR ''+'' then Some lo else map_option (\<lambda>hi. 16 * hi + lo) (hex_nibble a))"

fun hex_pairs :: "string \<Rightarrow> byte list option" where
  "hex_pairs (a # b # rest) =
     (case radix16_pair a b of None \<Rightarrow> None | Some n \<Rightarrow> map_option (\<lambda>bs. of_nat n # bs) (hex_pairs rest))"
| "hex_pairs _ = Some []"

definition hex_decode :: "string \<Rightarrow> byte list option" where
  "hex_decode hex = (if odd (length hex) then None else hex_pairs hex)"

lemma hex_digit_nibble:
  assumes "n < 16"
  shows "hex_nibble (hex_digit n) = Some n" "hex_nibble (HEX_CHARS ! n) = Some n" "hex_digit n \<noteq> CHR ''+''"
proof -
  have "list_all (\<lambda>n. hex_nibble (hex_digit n) = Some n \<and> hex_nibble (HEX_CHARS ! n) = Some n \<and> hex_digit n \<noteq> CHR ''+'') [0..<16]"
    by code_simp
  with assms show "hex_nibble (hex_digit n) = Some n" "hex_nibble (HEX_CHARS ! n) = Some n" "hex_digit n \<noteq> CHR ''+''"
    by (simp_all add: list_all_iff)
qed

lemma unat_byte_less: "unat (b :: byte) < 256"
  using unsigned_less [of b] by simp

lemma radix16_hex: "radix16_pair (hex_digit (unat (b :: byte) div 16)) (hex_digit (unat b mod 16)) = Some (unat b)"
proof -
  have "unat b div 16 < 16" "unat b mod 16 < 16" using unat_byte_less [of b] by auto
  then show ?thesis by (simp add: radix16_pair_def hex_digit_nibble)
qed

lemma hex_roundtrip: "hex_decode (hex_encode bytes) = Some bytes"
proof -
  have "hex_pairs (hex_encode bytes) = Some bytes"
    by (induction bytes) (simp_all add: hex_encode_def radix16_hex)
  moreover have "even (length (hex_encode bytes))"
    by (induction bytes) (simp_all add: hex_encode_def)
  ultimately show ?thesis by (simp add: hex_decode_def)
qed

section \<open>Percent encoding\<close>

definition unreserved :: "char \<Rightarrow> bool" where
  "unreserved c \<longleftrightarrow> is_alphanumeric c \<or> c \<in> {CHR ''-'', CHR ''_'', CHR ''.'', CHR ''~'', CHR ''/''}"

definition percent_encode :: "string \<Rightarrow> string" where
  "percent_encode input =
     concat (map (\<lambda>c. if unreserved c then [c] else [CHR ''%'', HEX_CHARS ! (code_of c div 16), HEX_CHARS ! (code_of c mod 16)]) input)"

fun percent_bytes :: "string \<Rightarrow> string" where
  "percent_bytes (c # hi # lo # rest) =
     (case (c = CHR ''%'', hex_nibble hi, hex_nibble lo) of
        (True, Some h, Some l) \<Rightarrow> char_of (16 * h + l) # percent_bytes rest
      | _ \<Rightarrow> c # percent_bytes (hi # lo # rest))"
| "percent_bytes (c # rest) = c # percent_bytes rest"
| "percent_bytes [] = []"

definition percent_decode :: "string \<Rightarrow> string" where
  "percent_decode input = utf8_lossy (percent_bytes input)"

lemma percent_bytes_plain: "c \<noteq> CHR ''%'' \<Longrightarrow> percent_bytes (c # rest) = c # percent_bytes rest"
  by (cases rest rule: percent_bytes.cases) auto

lemma percent_bytes_encode: "percent_bytes (percent_encode s) = s"
proof (induction s)
  case (Cons c s)
  show ?case
  proof (cases "unreserved c")
    case True
    then have "c \<noteq> CHR ''%''" by (auto simp: unreserved_def is_alphanumeric_def is_lower_def is_upper_def is_digit_def)
    with True Cons show ?thesis by (simp add: percent_encode_def percent_bytes_plain)
  next
    case False
    have "code_of c div 16 < 16" by (rule less_mult_imp_div_less) simp
    moreover have "code_of c mod 16 < 16" by simp
    moreover have "16 * (code_of c div 16) + code_of c mod 16 = code_of c" by simp
    ultimately have "hex_nibble (HEX_CHARS ! (code_of c div 16)) = Some (code_of c div 16)"
      "hex_nibble (HEX_CHARS ! (code_of c mod 16)) = Some (code_of c mod 16)"
      "char_of (16 * (code_of c div 16) + code_of c mod 16) = c"
      by (simp_all only: hex_digit_nibble char_of_code)
    with False Cons show ?thesis by (simp add: percent_encode_def)
  qed
qed (simp add: percent_encode_def)

section \<open>Challenge URLs and the internal routes\<close>

definition verify_url :: "string \<Rightarrow> string \<Rightarrow> string \<Rightarrow> string" where
  "verify_url challenge_name token_hex redirect =
     ''/__bagel/'' @ challenge_name @ ''/verify?__bagel_token='' @ token_hex @ ''&__bagel_redirect='' @ percent_encode redirect"

definition parse_query_params :: "string \<Rightarrow> (string \<times> string) list" where
  "parse_query_params query = List.map_filter (split_once CHR ''='') (filter (\<lambda>seg. seg \<noteq> []) (split_on CHR ''&'' query))"

definition route_query_param :: "string option \<Rightarrow> string \<Rightarrow> string option" where
  "route_query_param query key = (case query of None \<Rightarrow> None | Some q \<Rightarrow> map_of (parse_query_params q) key)"

text \<open>The query of a request as it is forwarded: without the parameters of the challenge.\<close>

definition strip_bagel_query :: "string option \<Rightarrow> string option" where
  "strip_bagel_query query =
     (case query of None \<Rightarrow> None
      | Some q \<Rightarrow>
          let cleaned = filter (\<lambda>pair. \<not> starts_with ''__bagel_'' pair) (split_on CHR ''&'' q)
          in if cleaned = [] then None else Some (join_with ''&'' cleaned))"

definition is_ascii_graphic :: "char \<Rightarrow> bool" where
  "is_ascii_graphic c \<longleftrightarrow> 33 \<le> code_of c \<and> code_of c \<le> 126"

definition safe_redirect :: "string \<Rightarrow> string option" where
  "safe_redirect raw =
     (if starts_with ''/'' raw \<and> \<not> starts_with ''//'' raw \<and> list_all (\<lambda>c. is_ascii_graphic c \<or> c = CHR '' '') raw
      then Some raw else None)"

datatype internal = Css | Runtime | Worker | Gpu | Solver | Beacon string | Verify string

definition BEACON_PREFIX :: string where
  "BEACON_PREFIX = ''/__bagel/static/t/''"

definition is_hexdigit :: "char \<Rightarrow> bool" where
  "is_hexdigit c \<longleftrightarrow> hex_nibble c \<noteq> None"

definition beacon_route :: "string \<Rightarrow> string option" where
  "beacon_route path =
     (case Option.bind (strip_prefix BEACON_PREFIX path) (strip_suffix ''.svg'') of
        None \<Rightarrow> None
      | Some ident \<Rightarrow> if length ident = 32 \<and> list_all is_hexdigit ident then Some ident else None)"

definition verify_route :: "string \<Rightarrow> string option" where
  "verify_route path =
     (case Option.bind (strip_prefix ''/__bagel/'' path) (strip_suffix ''/verify'') of
        None \<Rightarrow> None
      | Some name \<Rightarrow> if name \<noteq> [] \<and> CHR ''/'' \<notin> set name then Some (percent_decode name) else None)"

definition internal_route :: "string \<Rightarrow> internal option" where
  "internal_route path =
     (if path = ''/__bagel/static/widget.css'' then Some Css
      else if path = ''/__bagel/static/runtime.mjs'' then Some Runtime
      else if path = ''/__bagel/static/worker.mjs'' then Some Worker
      else if path = ''/__bagel/static/gpu.mjs'' then Some Gpu
      else if path = ''/__bagel/static/solver.wasm'' then Some Solver
      else case beacon_route path of
          Some ident \<Rightarrow> Some (Beacon ident)
        | None \<Rightarrow> map_option Verify (verify_route path))"

lemma split_on_plain: "d \<notin> set a \<Longrightarrow> split_on d (a @ d # b) = a # split_on d b"
  by (induction a) auto

lemma split_on_none: "d \<notin> set a \<Longrightarrow> split_on d a = [a]"
  by (induction a) auto

lemma split_join: "ps \<noteq> [] \<Longrightarrow> list_all (\<lambda>p. c \<notin> set p) ps \<Longrightarrow> split_on c (join_with [c] ps) = ps"
  by (induction ps rule: induct_list012) (simp_all add: split_on_none split_on_plain)

lemma split_once_plain: "d \<notin> set a \<Longrightarrow> split_once d (a @ d # b) = Some (a, b)"
  by (simp add: split_once_Some)

lemma unreserved_plain: "unreserved c \<Longrightarrow> c \<noteq> CHR ''&'' \<and> c \<noteq> CHR ''%''"
  by (auto simp: unreserved_def is_alphanumeric_def is_lower_def is_upper_def is_digit_def)

lemma HEX_CHARS_plain: "n < 16 \<Longrightarrow> HEX_CHARS ! n \<noteq> CHR ''&''"
proof -
  assume "n < 16"
  moreover have "list_all (\<lambda>n. HEX_CHARS ! n \<noteq> CHR ''&'') [0..<16]" by code_simp
  ultimately show ?thesis by (simp add: list_all_iff)
qed

lemma percent_encode_no_amp: "CHR ''&'' \<notin> set (percent_encode s)"
proof (induction s)
  case (Cons c s)
  have "code_of c div 16 < 16" by (rule less_mult_imp_div_less) simp
  then have "HEX_CHARS ! (code_of c div 16) \<noteq> CHR ''&''" "HEX_CHARS ! (code_of c mod 16) \<noteq> CHR ''&''"
    by (simp_all add: HEX_CHARS_plain)
  with Cons unreserved_plain [of c] show ?case by (auto simp: percent_encode_def)
qed (simp add: percent_encode_def)

lemma hex_encode_plain: "CHR ''&'' \<notin> set (hex_encode bytes)"
proof (induction bytes)
  case (Cons b bytes)
  have plain: "hex_digit n \<noteq> CHR ''&''" if "n < 16" for n
  proof -
    have "list_all (\<lambda>n. hex_digit n \<noteq> CHR ''&'') [0..<16]" by code_simp
    with that show ?thesis by (simp add: list_all_iff)
  qed
  have "unat b div 16 < 16" by (rule less_mult_imp_div_less) (simp add: unat_byte_less)
  with plain [of "unat b div 16"] plain [of "unat b mod 16"] Cons show ?case by (auto simp: hex_encode_def)
qed (simp add: hex_encode_def)

lemma beacon_not_verify: "CHR ''/'' \<notin> set name \<Longrightarrow> beacon_route (''/__bagel/'' @ name @ ''/verify'') = None"
proof (rule ccontr)
  assume plain: "CHR ''/'' \<notin> set name" and "beacon_route (''/__bagel/'' @ name @ ''/verify'') \<noteq> None"
  then obtain rest where "strip_prefix BEACON_PREFIX (''/__bagel/'' @ name @ ''/verify'') = Some rest"
    by (auto simp: beacon_route_def split: option.splits bind_splits)
  then have eq: "name @ ''/verify'' = ''static/t/'' @ rest"
    by (simp add: strip_prefix_iff BEACON_PREFIX_def)
  have "takeWhile (\<lambda>c. c \<noteq> CHR ''/'') (name @ ''/verify'') = name" using plain by (subst takeWhile_append2) auto
  then have "name = ''static''" unfolding eq by simp
  with eq show False by simp
qed

text \<open>A visitor comes back to the page that was challenged. The verify URL handed out for a
  challenge is routed to that challenge's verification, and there the token and the page it came
  from are read back unchanged; and the page is redirected to exactly when it is an absolute path
  on this host in printable ASCII. The latter refuses every request target in absolute form.\<close>

theorem challenge_redirect_roundtrip:
  assumes "name \<noteq> []" "CHR ''/'' \<notin> set name" "CHR ''?'' \<notin> set name" "percent_decode name = name" "utf8_lossy original = original"
    and "split_once CHR ''?'' (verify_url name (hex_encode key) original) = Some (path, query)"
  shows "internal_route path = Some (Verify name) \<and>
    route_query_param (Some query) ''__bagel_token'' = Some (hex_encode key) \<and>
    map_option percent_decode (route_query_param (Some query) ''__bagel_redirect'') = Some original \<and>
    (safe_redirect original = Some original \<longleftrightarrow>
       (\<exists>rest. original = CHR ''/'' # rest \<and> take 1 rest \<noteq> ''/'') \<and> list_all (\<lambda>c. is_ascii_graphic c \<or> c = CHR '' '') original)"
proof -
  have "split_once CHR ''?'' ((''/__bagel/'' @ name @ ''/verify'') @ CHR ''?'' # (''__bagel_token='' @ hex_encode key @ ''&__bagel_redirect='' @ percent_encode original)) =
      Some (''/__bagel/'' @ name @ ''/verify'', ''__bagel_token='' @ hex_encode key @ ''&__bagel_redirect='' @ percent_encode original)"
    using assms(3) by (intro split_once_plain) auto
  then have path: "path = ''/__bagel/'' @ name @ ''/verify''"
    and query: "query = (''__bagel_token='' @ hex_encode key) @ CHR ''&'' # (''__bagel_redirect='' @ percent_encode original)"
    using assms(6) by (simp_all add: verify_url_def)
  have "verify_route path = Some name"
  proof -
    have "strip_prefix ''/__bagel/'' path = Some (name @ ''/verify'')" by (simp add: path strip_prefix_iff)
    moreover have "strip_suffix ''/verify'' (name @ ''/verify'') = Some name" by (simp add: strip_suffix_iff)
    ultimately show ?thesis using assms(1,2,4) by (simp add: verify_route_def)
  qed
  moreover have "last path = CHR ''y''" by (simp add: path)
  then have "path \<noteq> x" if "last x \<noteq> CHR ''y''" for x using that by auto
  then have "path \<noteq> ''/__bagel/static/widget.css''" "path \<noteq> ''/__bagel/static/runtime.mjs''" "path \<noteq> ''/__bagel/static/worker.mjs''"
    "path \<noteq> ''/__bagel/static/gpu.mjs''" "path \<noteq> ''/__bagel/static/solver.wasm''" by simp_all
  moreover have "beacon_route path = None" unfolding path using assms(2) by (rule beacon_not_verify)
  ultimately have route: "internal_route path = Some (Verify name)"
    by (simp only: internal_route_def if_False option.case option.map)
  have "split_on CHR ''&'' query = [''__bagel_token='' @ hex_encode key, ''__bagel_redirect='' @ percent_encode original]"
  proof -
    have "CHR ''&'' \<notin> set (''__bagel_token='' @ hex_encode key)" "CHR ''&'' \<notin> set (''__bagel_redirect='' @ percent_encode original)"
      using hex_encode_plain percent_encode_no_amp by auto
    then show ?thesis
      unfolding query using split_on_plain [of "CHR ''&''" "''__bagel_token='' @ hex_encode key"]
        split_on_none [of "CHR ''&''" "''__bagel_redirect='' @ percent_encode original"] by (simp only: simp_thms)
  qed
  moreover have "split_once CHR ''='' (''__bagel_token='' @ hex_encode key) = Some (''__bagel_token'', hex_encode key)"
    "split_once CHR ''='' (''__bagel_redirect='' @ percent_encode original) = Some (''__bagel_redirect'', percent_encode original)"
    by simp_all
  ultimately have params: "parse_query_params query = [(''__bagel_token'', hex_encode key), (''__bagel_redirect'', percent_encode original)]"
    by (simp add: parse_query_params_def map_filter_def)
  have "percent_decode (percent_encode original) = original"
    using assms(5) by (simp add: percent_decode_def percent_bytes_encode)
  moreover have "safe_redirect original = Some original \<longleftrightarrow>
       (\<exists>rest. original = CHR ''/'' # rest \<and> take 1 rest \<noteq> ''/'') \<and> list_all (\<lambda>c. is_ascii_graphic c \<or> c = CHR '' '') original"
    by (cases original; cases "tl original") (auto simp: safe_redirect_def starts_with_def)
  ultimately show ?thesis using route params by (simp add: route_query_param_def)
qed

section \<open>Form values, repository keys and browser claims\<close>

text \<open>The condition language's \<open>param\<close>: the first value of a name in a query, form-decoded.\<close>

fun form_bytes :: "string \<Rightarrow> string" where
  "form_bytes (c # hi # lo # rest) =
     (case (c = CHR ''%'', radix16_pair hi lo) of
        (True, Some n) \<Rightarrow> char_of n # form_bytes rest
      | _ \<Rightarrow> (if c = CHR ''+'' then CHR '' '' else c) # form_bytes (hi # lo # rest))"
| "form_bytes (c # rest) = (if c = CHR ''+'' then CHR '' '' else c) # form_bytes rest"
| "form_bytes [] = []"

definition form_decode :: "string \<Rightarrow> string" where
  "form_decode s = utf8_lossy (form_bytes s)"

definition query_param :: "string \<Rightarrow> string \<Rightarrow> string" where
  "query_param query name =
     (case List.find (\<lambda>(key, _). form_decode key = name)
             (map (\<lambda>pair. case split_once CHR ''='' pair of Some kv \<Rightarrow> kv | None \<Rightarrow> (pair, [])) (split_on CHR ''&'' query)) of
        None \<Rightarrow> [] | Some (_, value) \<Rightarrow> form_decode value)"

text \<open>\<open>trim_end_matches(".git")\<close> removes every repetition of the suffix.\<close>

function trim_git :: "string \<Rightarrow> string" where
  "trim_git s = (case strip_suffix ''.git'' s of None \<Rightarrow> s | Some r \<Rightarrow> trim_git r)"
  by pat_completeness auto
termination by (relation "measure length") (auto simp: strip_suffix_iff)

declare trim_git.simps [simp del]

definition repository_key :: "string \<Rightarrow> string \<Rightarrow> string option" where
  "repository_key host path =
     (let named = (\<lambda>owner repository.
            let repository = trim_git repository in
            if repository = [] then None else Some (host @ ''/'' @ owner @ ''/'' @ repository))
      in case filter (\<lambda>s. s \<noteq> []) (split_on CHR ''/'' path) of
           [] \<Rightarrow> None
         | first # rest \<Rightarrow>
             if first = ''api'' then
               (case rest of [] \<Rightarrow> None
                | second # rest \<Rightarrow>
                    if second = ''v1'' then
                      (case rest of [] \<Rightarrow> None
                       | third # rest \<Rightarrow>
                           if third = ''repos'' then (case rest of owner # repository # _ \<Rightarrow> named owner repository | _ \<Rightarrow> None)
                           else (case rest of [] \<Rightarrow> None | repository # _ \<Rightarrow> named first repository))
                    else (case rest of [] \<Rightarrow> None | repository # _ \<Rightarrow> named first repository))
             else (case rest of [] \<Rightarrow> None | repository # _ \<Rightarrow> named first repository))"

datatype family = Chrome | Edge | Firefox | Safari | Opera | Samsung | Yandex

datatype platform = Windows | MacOs | Ios | Android | ChromeOs | Linux | UnknownPlatform

fun family_str :: "family \<Rightarrow> string" where
  "family_str Chrome = ''chrome''"
| "family_str Edge = ''edge''"
| "family_str Firefox = ''firefox''"
| "family_str Safari = ''safari''"
| "family_str Opera = ''opera''"
| "family_str Samsung = ''samsung''"
| "family_str Yandex = ''yandex''"

fun platform_str :: "platform \<Rightarrow> string" where
  "platform_str Windows = ''windows''"
| "platform_str MacOs = ''macos''"
| "platform_str Ios = ''ios''"
| "platform_str Android = ''android''"
| "platform_str ChromeOs = ''chromeos''"
| "platform_str Linux = ''linux''"
| "platform_str UnknownPlatform = ''unknown''"

definition detect_platform :: "string \<Rightarrow> platform" where
  "detect_platform ua =
     (if str_contains ''Windows'' ua then Windows
      else if str_contains ''Android'' ua then Android
      else if list_ex (\<lambda>device. str_contains device ua) [''iPhone'', ''iPad'', ''iPod''] then Ios
      else if str_contains ''CrOS'' ua then ChromeOs
      else if str_contains ''Macintosh'' ua \<or> str_contains ''Mac OS X'' ua then MacOs
      else if str_contains ''Linux'' ua \<or> str_contains ''X11'' ua then Linux
      else UnknownPlatform)"

record claim =
  cl_family :: family
  cl_major :: u16
  cl_platform :: platform
  cl_mobile :: bool

definition product_major :: "string \<Rightarrow> string \<Rightarrow> u16 option" where
  "product_major ua product =
     (case after_first product ua of None \<Rightarrow> None
      | Some rest \<Rightarrow> parse_unsigned u16_max (take 5 (takeWhile is_digit rest)))"

definition claim_product :: "string \<Rightarrow> (family \<times> u16) option" where
  "claim_product ua =
     (case product_major ua ''Edg/'' of Some m \<Rightarrow> Some (Edge, m) | None \<Rightarrow>
      case product_major ua ''OPR/'' of Some m \<Rightarrow> Some (Opera, m) | None \<Rightarrow>
      case product_major ua ''SamsungBrowser/'' of Some m \<Rightarrow> Some (Samsung, m) | None \<Rightarrow>
      case product_major ua ''YaBrowser/'' of Some m \<Rightarrow> Some (Yandex, m) | None \<Rightarrow>
      case (if str_contains ''Gecko/'' ua then product_major ua ''Firefox/'' else None) of Some m \<Rightarrow> Some (Firefox, m) | None \<Rightarrow>
      case product_major ua ''FxiOS/'' of Some m \<Rightarrow> Some (Firefox, m) | None \<Rightarrow>
      case product_major ua ''CriOS/'' of Some m \<Rightarrow> Some (Chrome, m) | None \<Rightarrow>
      case product_major ua ''Chrome/'' of Some m \<Rightarrow> Some (Chrome, m) | None \<Rightarrow>
      case (if str_contains ''Safari/'' ua then product_major ua ''Version/'' else None) of Some m \<Rightarrow> Some (Safari, m) | None \<Rightarrow> None)"

definition claim_parse :: "string \<Rightarrow> claim option" where
  "claim_parse ua =
     (if 1024 < length ua \<or> \<not> starts_with ''Mozilla/5.0'' ua then None
      else map_option (\<lambda>(family, major).
             \<lparr> cl_family = family, cl_major = major, cl_platform = detect_platform ua,
               cl_mobile = (str_contains ''Mobile'' ua \<or> str_contains ''iPhone'' ua) \<rparr>) (claim_product ua))"

definition claim_stack :: "claim \<Rightarrow> string" where
  "claim_stack c =
     (if cl_platform c = Ios \<or> cl_family c = Safari then ''safari''
      else if cl_family c = Firefox then ''firefox'' else ''chromium'')"

definition claim_key :: "claim \<Rightarrow> string" where
  "claim_key c = family_str (cl_family c) @ ''/'' @ show_nat (cl_major c) @ ''/'' @ platform_str (cl_platform c)"

text \<open>The key that groups census observations tells claims apart, up to the mobile flag.\<close>

lemma show_nat_no_slash: "CHR ''/'' \<notin> set (show_nat n)"
  using show_nat_digits [of n] by (auto simp: list_all_iff is_digit_def)

lemma claim_key_inject:
  assumes "claim_key a = claim_key b"
  shows "cl_family a = cl_family b \<and> cl_major a = cl_major b \<and> cl_platform a = cl_platform b"
proof -
  have parts: "split_on CHR ''/'' (claim_key c) = [family_str (cl_family c), show_nat (cl_major c), platform_str (cl_platform c)]" for c
  proof -
    have "CHR ''/'' \<notin> set (family_str f)" "CHR ''/'' \<notin> set (platform_str p)" for f p
      by (cases f; simp) (cases p; simp)
    with show_nat_no_slash show ?thesis
      using split_on_plain [of "CHR ''/''" "family_str (cl_family c)"] split_on_plain [of "CHR ''/''" "show_nat (cl_major c)"]
        split_on_none [of "CHR ''/''" "platform_str (cl_platform c)"]
      by (simp add: claim_key_def)
  qed
  from arg_cong [OF assms, of "split_on CHR ''/''"] have
    "family_str (cl_family a) = family_str (cl_family b)" "cl_major a = cl_major b" "platform_str (cl_platform a) = platform_str (cl_platform b)"
    unfolding parts by simp_all
  then show ?thesis
    by (cases "cl_family a"; cases "cl_family b"; simp) (cases "cl_platform a"; cases "cl_platform b"; simp)+
qed

section \<open>The theorems at work\<close>

theorem challenge_redirect_roundtrip_witness:
  "internal_route ''/__bagel/pow/verify'' = Some (Verify ''pow'') \<and> safe_redirect ''/a?b=c&d'' = Some ''/a?b=c&d''"
proof -
  have "utf8_lossy ''/a?b=c&d'' = ''/a?b=c&d''" "percent_decode ''pow'' = ''pow''" by code_simp+
  moreover have "split_once CHR ''?'' (verify_url ''pow'' (hex_encode [1]) ''/a?b=c&d'') =
      Some (''/__bagel/pow/verify'', ''__bagel_token=01&__bagel_redirect=/a%3Fb%3Dc%26d'')" by code_simp
  moreover have "list_all (\<lambda>c. is_ascii_graphic c \<or> c = CHR '' '') ''/a?b=c&d''" by code_simp
  ultimately show ?thesis
    using challenge_redirect_roundtrip [of "''pow''" "''/a?b=c&d''" "[1]" "''/__bagel/pow/verify''" "''__bagel_token=01&__bagel_redirect=/a%3Fb%3Dc%26d''"]
    by simp
qed

end
