(* ===== verification/Rule_Engine.thy ===== *)
theory Rule_Engine
  imports Challenge_State
begin

text \<open>
  The policy a configuration compiles to: actions and their parsing (rule/action.rs), the rule tree
  (rule/mod.rs), scorecards (rule/scoring.rs) and the checks on the references between them
  (state.rs, state_validation.rs).

  Three libraries are parameters. The script engine compiles a condition, giving an abstract tree
  or a message; a tree is represented by a text. The regex library accepts or refuses a pattern, and
  a compiled pattern is represented by its text. The HTTP library gives a header name its
  normalised spelling or refuses it, and accepts or refuses a header value.
\<close>

section \<open>Actions\<close>

type_synonym ast = string
type_synonym header_map = "(string \<times> string) list"

record rule_settings =
  st_http_code :: "u16 option"
  st_pass_action :: "string option"
  st_fail_action :: "string option"
  st_response_headers :: "(string \<times> string) list"
  st_request_headers :: "(string \<times> string) list"
  st_match_re :: "string option"
  st_rewrite :: "string option"
  st_backend :: "string option"
  st_maze :: "string option"
  st_kind :: "string option"
  st_difficulty :: "u32 option"

datatype rule_action =
  ActNone
| ActPass
| ActDeny u16
| ActBlock u16
| ActCode u16
| ActDrop
| ActTarpit string
| ActSmear
| ActLure string
| ActBeacon
| ActProxy "string option" string string
| ActContext header_map header_map
| ActChallenge challenge_action
| ActCheck challenge_action
| ActReport string
and challenge_action =
  ChallengeAction (ca_challenges: "string list") (ca_http_code: u16) (ca_difficulty: "u32 option")
    (ca_pass_action: rule_action) (ca_fail_action: rule_action)

fun action_label :: "rule_action \<Rightarrow> string" where
  "action_label ActNone = ''none''"
| "action_label ActPass = ''pass''"
| "action_label (ActDeny _) = ''deny''"
| "action_label (ActBlock _) = ''block''"
| "action_label (ActCode _) = ''code''"
| "action_label ActDrop = ''drop''"
| "action_label (ActTarpit _) = ''tarpit''"
| "action_label ActSmear = ''smear''"
| "action_label (ActLure _) = ''lure''"
| "action_label ActBeacon = ''beacon''"
| "action_label (ActProxy _ _ _) = ''proxy''"
| "action_label (ActContext _ _) = ''context''"
| "action_label (ActChallenge _) = ''challenge''"
| "action_label (ActCheck _) = ''check''"
| "action_label (ActReport _) = ''report''"

record policy_libs =
  lib_compile :: "string \<Rightarrow> string + ast"
  lib_regex :: "string \<Rightarrow> bool"
  lib_header_name :: "string \<Rightarrow> string option"
  lib_header_value :: "string \<Rightarrow> bool"

text \<open>\<open>str::to_lowercase\<close> as far as a comparison with ASCII text can tell: outside ASCII only the
  Kelvin sign (UTF-8 E2 84 AA) has an ASCII letter as its lower case.\<close>

fun lower_text :: "string \<Rightarrow> string" where
  "lower_text [] = []"
| "lower_text (c # cs) =
     (if map code_of (c # take 2 cs) = [226, 132, 170] then CHR ''k'' # lower_text (drop 2 cs)
      else lower_char c # lower_text cs)"

definition non_empty :: "string option \<Rightarrow> string option" where
  "non_empty s = (case s of None \<Rightarrow> None | Some t \<Rightarrow> if t = [] then None else Some t)"

definition sub_action :: "string option \<Rightarrow> string option \<Rightarrow> rule_action \<Rightarrow> string \<Rightarrow> string + rule_action" where
  "sub_action setting maze dflt kind =
     (case setting of
        None \<Rightarrow> Inr dflt
      | Some s \<Rightarrow>
          if s = ''pass'' then Inr ActPass
          else if s = ''deny'' then Inr (ActDeny 403)
          else if s = ''block'' then Inr (ActBlock 403)
          else if s = ''drop'' then Inr ActDrop
          else if s = ''smear'' then Inr ActSmear
          else if s = ''tarpit'' then
            rbind (ok_or (''tarpit '' @ kind @ ''-action requires a maze'') (non_empty maze)) (\<lambda>m. Inr (ActTarpit m))
          else Inl (''unknown '' @ kind @ ''-action '' @ s))"

text \<open>\<open>HeaderMap::insert\<close> replaces every value of the name.\<close>

definition header_insert :: "string \<Rightarrow> string \<Rightarrow> header_map \<Rightarrow> header_map" where
  "header_insert name value hs = filter (\<lambda>(n, _). n \<noteq> name) hs @ [(name, value)]"

fun parse_headers_loop :: "policy_libs \<Rightarrow> string \<Rightarrow> (string \<times> string) list \<Rightarrow> header_map \<Rightarrow> string + header_map" where
  "parse_headers_loop L kind [] hs = Inr hs"
| "parse_headers_loop L kind ((key, value) # pairs) hs =
     rbind (ok_or (''invalid '' @ kind @ '' header name '' @ key) (lib_header_name L key)) (\<lambda>name.
     rbind (fail_if (\<not> lib_header_value L value) (''invalid '' @ kind @ '' header value for '' @ key)) (\<lambda>_.
       parse_headers_loop L kind pairs (header_insert name value hs)))"

definition parse_headers :: "policy_libs \<Rightarrow> (string \<times> string) list \<Rightarrow> string \<Rightarrow> string + header_map" where
  "parse_headers L pairs kind = parse_headers_loop L kind pairs []"

definition code_or :: "u16 \<Rightarrow> rule_settings \<Rightarrow> u16" where
  "code_or dflt s = (case st_http_code s of None \<Rightarrow> dflt | Some c \<Rightarrow> c)"

definition report_kind_char :: "char \<Rightarrow> bool" where
  "report_kind_char c \<longleftrightarrow> is_lower c \<or> is_digit c \<or> c = CHR ''_'' \<or> c = CHR ''-''"

definition parse_smear :: "rule_settings \<Rightarrow> string + rule_action" where
  "parse_smear s =
     (if non_empty (st_maze s) \<noteq> None \<or> non_empty (st_backend s) \<noteq> None \<or> st_match_re s \<noteq> None \<or> st_rewrite s \<noteq> None
      then Inl ''smear action takes no maze, backend, match, or rewrite'' else Inr ActSmear)"

definition parse_report :: "rule_settings \<Rightarrow> string + rule_action" where
  "parse_report s =
     rbind (ok_or ''report action requires a kind'' (non_empty (st_kind s))) (\<lambda>kind.
     rbind (fail_if (\<not> list_all report_kind_char kind) ''report kind must be lowercase ascii, digits, - or _'') (\<lambda>_.
       Inr (ActReport kind)))"

definition parse_proxy :: "policy_libs \<Rightarrow> rule_settings \<Rightarrow> string + rule_action" where
  "parse_proxy L s =
     rbind (ok_or ''proxy action requires a backend'' (non_empty (st_backend s))) (\<lambda>backend.
     rbind (fail_if (case st_match_re s of None \<Rightarrow> False | Some re \<Rightarrow> \<not> lib_regex L re) ''invalid proxy match regex'') (\<lambda>_.
     rbind (fail_if ((st_match_re s = None) \<noteq> (st_rewrite s = None)) ''proxy match and rewrite must be configured together'') (\<lambda>_.
       Inr (ActProxy (st_match_re s) (case st_rewrite s of None \<Rightarrow> [] | Some r \<Rightarrow> r) backend))))"

definition parse_challenge :: "rule_settings \<Rightarrow> string list \<Rightarrow> u16 \<Rightarrow> string + challenge_action" where
  "parse_challenge s challenges default_http_code =
     rbind (sub_action (st_pass_action s) (st_maze s) ActPass ''pass'') (\<lambda>pass.
     rbind (sub_action (st_fail_action s) (st_maze s) (ActDeny 403) ''fail'') (\<lambda>fail.
       Inr (ChallengeAction challenges (code_or default_http_code s) (st_difficulty s) pass fail)))"

definition action_of_kind :: "policy_libs \<Rightarrow> string \<Rightarrow> bool \<Rightarrow> rule_settings \<Rightarrow> string list \<Rightarrow> u16 \<Rightarrow> string + rule_action" where
  "action_of_kind L kind is_check s challenges default_http_code =
     (if kind = ''none'' then Inr ActNone
      else if kind = ''pass'' then Inr ActPass
      else if kind = ''deny'' then Inr (ActDeny (code_or 403 s))
      else if kind = ''block'' then Inr (ActBlock (code_or 403 s))
      else if kind = ''code'' then Inr (ActCode (code_or 403 s))
      else if kind = ''drop'' then Inr ActDrop
      else if kind = ''tarpit'' then rbind (ok_or ''tarpit action requires a maze'' (non_empty (st_maze s))) (\<lambda>m. Inr (ActTarpit m))
      else if kind = ''lure'' then rbind (ok_or ''lure action requires a maze'' (non_empty (st_maze s))) (\<lambda>m. Inr (ActLure m))
      else if kind = ''beacon'' then Inr ActBeacon
      else if kind = ''smear'' then parse_smear s
      else if kind = ''report'' then parse_report s
      else if kind = ''proxy'' then parse_proxy L s
      else if kind = ''context'' then
        rbind (parse_headers L (st_response_headers s) ''response'') (\<lambda>response.
        rbind (parse_headers L (st_request_headers s) ''request'') (\<lambda>request. Inr (ActContext response request)))
      else if kind = ''challenge'' \<or> kind = ''check'' then
        rbind (parse_challenge s challenges default_http_code) (\<lambda>ca. Inr (if is_check then ActCheck ca else ActChallenge ca))
      else Inl (''unknown action '' @ kind))"

definition action_parse :: "policy_libs \<Rightarrow> string \<Rightarrow> rule_settings \<Rightarrow> string list \<Rightarrow> u16 \<Rightarrow> string + rule_action" where
  "action_parse L action_str s challenges default_http_code =
     (let challenging = eq_ignore_case action_str ''challenge'' \<or> eq_ignore_case action_str ''check'' in
      rbind (fail_if (\<not> eq_ignore_case action_str ''report'' \<and> st_kind s \<noteq> None) ''kind is only valid on the report action'') (\<lambda>_.
      rbind (fail_if (\<not> challenging \<and> st_difficulty s \<noteq> None) ''difficulty is only valid on the challenge and check actions'') (\<lambda>_.
        action_of_kind L (lower_text action_str) (eq_ignore_case action_str ''check'') s challenges default_http_code)))"

section \<open>Rules\<close>

datatype rule_config =
  RuleConfig (rcf_name: string) (rcf_condition: "string option") (rcf_action: string) (rcf_challenges: "string list")
    (rcf_settings: rule_settings) (rcf_children: "rule_config list")

datatype rule_state =
  RuleState (rl_name: string) (rl_condition: "ast option") (rl_action: rule_action) (rl_children: "rule_state list")

definition site_error :: "string \<Rightarrow> string + 'a \<Rightarrow> 'a result" where
  "site_error site r = (case r of Inl err \<Rightarrow> Inl (Config (site @ '': '' @ err)) | Inr x \<Rightarrow> Inr x)"

definition compile_condition :: "policy_libs \<Rightarrow> string option \<Rightarrow> string + ast option" where
  "compile_condition L condition = transpose_option (map_option (lib_compile L) condition)"

fun build_rules :: "policy_libs \<Rightarrow> u16 \<Rightarrow> string \<Rightarrow> rule_config list \<Rightarrow> rule_state list result" where
  "build_rules L code parent [] = Inr []"
| "build_rules L code parent (RuleConfig name condition rule_action challenges settings children # configs) =
     (let full_name = (if parent = [] then name else parent @ ''/'' @ name);
          site = ''rule '' @ full_name
      in rbind (site_error site (compile_condition L condition)) (\<lambda>ast.
         rbind (site_error site (action_parse L rule_action settings challenges code)) (\<lambda>act.
         rbind (build_rules L code full_name children) (\<lambda>kids.
         rbind (build_rules L code parent configs) (\<lambda>rest.
           Inr (RuleState full_name ast act kids # rest))))))"

section \<open>Scorecards\<close>

datatype score_mode = Observe | Enforce

record signal_config =
  sgc_name :: string
  sgc_condition :: string
  sgc_weight :: "u32 option"

record threshold_config =
  thc_value :: u32
  thc_action :: string
  thc_challenges :: "string list"
  thc_settings :: rule_settings

record scorecard_config =
  scc_name :: string
  scc_condition :: "string option"
  scc_mode :: "string option"
  scc_signals :: "signal_config list"
  scc_thresholds :: "threshold_config list"

record scoring_config =
  scf_rate_capacity :: "usize option"
  scf_scorecards :: "scorecard_config list"

record signal_state =
  sg_name :: string
  sg_condition :: ast
  sg_weight :: u32

record threshold_state =
  th_value :: u32
  th_action :: rule_action
  th_kind :: string

record scorecard_state =
  cd_name :: string
  cd_condition :: "ast option"
  cd_mode :: score_mode
  cd_signals :: "signal_state list"
  cd_thresholds :: "threshold_state list"

record scoring_state =
  sc_rate_capacity :: usize
  sc_scorecards :: "scorecard_state list"

record score_result =
  sr_scorecard :: scorecard_state
  sr_score :: u32
  sr_matched :: "string list"
  sr_errors :: "string list"
  sr_candidate :: "threshold_state option"

fun score_mode_str :: "score_mode \<Rightarrow> string" where
  "score_mode_str Observe = ''observe''"
| "score_mode_str Enforce = ''enforce''"

definition RATE_DEFAULT_CAPACITY :: usize where "RATE_DEFAULT_CAPACITY = 65536"
definition RATE_MIN_CAPACITY :: usize where "RATE_MIN_CAPACITY = 1024"
definition RATE_MAX_CAPACITY :: usize where "RATE_MAX_CAPACITY = 1048576"

definition FORBIDDEN_THRESHOLD_ACTIONS :: "string list" where
  "FORBIDDEN_THRESHOLD_ACTIONS = [''none'', ''context'', ''check'', ''pass'', ''lure'', ''beacon'']"

definition action_kind :: "string \<Rightarrow> string" where
  "action_kind a =
     (if a \<in> set [''challenge'', ''deny'', ''block'', ''code'', ''drop'', ''proxy'', ''tarpit'', ''smear''] then a else ''unknown'')"

definition parse_mode :: "string \<Rightarrow> string option \<Rightarrow> score_mode result" where
  "parse_mode scard mode =
     (case mode of
        None \<Rightarrow> Inr Observe
      | Some m \<Rightarrow>
          if m = ''observe'' then Inr Observe
          else if m = ''enforce'' then Inr Enforce
          else Inl (Config (''scorecard '' @ scard @ '': unknown mode '' @ m)))"

fun build_signals :: "policy_libs \<Rightarrow> string \<Rightarrow> string list \<Rightarrow> signal_config list \<Rightarrow> signal_state list result" where
  "build_signals L scard names [] = Inr []"
| "build_signals L scard names (sig # sigs) =
     rbind (fail_if (sgc_name sig \<in> set names) (Config (''scorecard '' @ scard @ '': duplicate signal '' @ sgc_name sig))) (\<lambda>_.
     rbind (site_error (''scorecard '' @ scard @ '': signal '' @ sgc_name sig) (lib_compile L (sgc_condition sig))) (\<lambda>ast.
     rbind (build_signals L scard (sgc_name sig # names) sigs) (\<lambda>rest.
       Inr (\<lparr> sg_name = sgc_name sig, sg_condition = ast, sg_weight = (case sgc_weight sig of None \<Rightarrow> 0 | Some w \<Rightarrow> w) \<rparr> # rest))))"

fun is_challenge :: "rule_action \<Rightarrow> bool" where
  "is_challenge (ActChallenge _) = True"
| "is_challenge _ = False"

fun build_thresholds :: "policy_libs \<Rightarrow> u16 \<Rightarrow> string \<Rightarrow> u32 list \<Rightarrow> threshold_config list \<Rightarrow> threshold_state list result" where
  "build_thresholds L code scard vals [] = Inr []"
| "build_thresholds L code scard vals (t # ts) =
     (let site = ''scorecard '' @ scard @ '': threshold '' @ show_nat (thc_value t); kind = lower_text (thc_action t) in
      rbind (fail_if (thc_value t \<in> set vals) (Config (''scorecard '' @ scard @ '': duplicate threshold value '' @ show_nat (thc_value t)))) (\<lambda>_.
      rbind (fail_if (kind \<in> set FORBIDDEN_THRESHOLD_ACTIONS) (Config (site @ '' may not use action '' @ kind))) (\<lambda>_.
      rbind (site_error site (action_parse L (thc_action t) (thc_settings t) (thc_challenges t) code)) (\<lambda>act.
      rbind (fail_if (is_challenge act \<and> thc_challenges t = []) (Config (''scorecard '' @ scard @ '': challenge threshold has no challenges''))) (\<lambda>_.
      rbind (build_thresholds L code scard (thc_value t # vals) ts) (\<lambda>rest.
        Inr (\<lparr> th_value = thc_value t, th_action = act, th_kind = action_kind kind \<rparr> # rest)))))))"

fun build_scorecards :: "policy_libs \<Rightarrow> u16 \<Rightarrow> string list \<Rightarrow> string option \<Rightarrow> scorecard_config list \<Rightarrow> scorecard_state list result" where
  "build_scorecards L code names unconditional [] = Inr []"
| "build_scorecards L code names unconditional (scard # scards) =
     (let name = scc_name scard in
      rbind (fail_if (name \<in> set names) (Config (''duplicate scorecard '' @ name))) (\<lambda>_.
      rbind (case unconditional of None \<Rightarrow> Inr () | Some first \<Rightarrow>
               Inl (Config (''scorecard '' @ name @ '' is unreachable after unconditional scorecard '' @ first))) (\<lambda>_.
      rbind (parse_mode name (scc_mode scard)) (\<lambda>mode.
      rbind (site_error (''scorecard '' @ name) (compile_condition L (scc_condition scard))) (\<lambda>condition.
      rbind (build_signals L name [] (scc_signals scard)) (\<lambda>signals.
      rbind (build_thresholds L code name [] (scc_thresholds scard)) (\<lambda>thresholds.
      rbind (build_scorecards L code (name # names) (if condition = None then Some name else unconditional) scards) (\<lambda>rest.
        Inr (\<lparr> cd_name = name, cd_condition = condition, cd_mode = mode, cd_signals = signals,
               cd_thresholds = sort_key th_value thresholds \<rparr> # rest)))))))))"

definition scoring_build :: "policy_libs \<Rightarrow> u16 \<Rightarrow> scoring_config \<Rightarrow> scoring_state result" where
  "scoring_build L code config =
     (let rate_capacity = (case scf_rate_capacity config of None \<Rightarrow> RATE_DEFAULT_CAPACITY | Some c \<Rightarrow> c) in
      rbind (fail_if (\<not> (RATE_MIN_CAPACITY \<le> rate_capacity \<and> rate_capacity \<le> RATE_MAX_CAPACITY))
               (Config ''scoring rate-capacity is out of range'')) (\<lambda>_.
      rbind (build_scorecards L code [] None (scf_scorecards config)) (\<lambda>scards.
        Inr \<lparr> sc_rate_capacity = rate_capacity, sc_scorecards = scards \<rparr>)))"

text \<open>The engine evaluates a tree in a scope, which the evaluation may extend; \<open>None\<close> is an
  evaluation error.\<close>

type_synonym 's engine = "'s \<Rightarrow> ast \<Rightarrow> bool option \<times> 's"

fun find_card :: "'s engine \<Rightarrow> scorecard_state list \<Rightarrow> 's \<Rightarrow> scorecard_state option \<times> 's" where
  "find_card eng [] scope = (None, scope)"
| "find_card eng (scard # scards) scope =
     (case cd_condition scard of
        None \<Rightarrow> (Some scard, scope)
      | Some ast \<Rightarrow>
          let (r, scope) = eng scope ast
          in if r = Some True then (Some scard, scope) else find_card eng scards scope)"

fun run_signals :: "'s engine \<Rightarrow> signal_state list \<Rightarrow> u32 \<Rightarrow> string list \<Rightarrow> string list \<Rightarrow> 's \<Rightarrow> (u32 \<times> string list \<times> string list) \<times> 's" where
  "run_signals eng [] score matched errors scope = ((score, matched, errors), scope)"
| "run_signals eng (sig # sigs) score matched errors scope =
     (let (r, scope) = eng scope (sg_condition sig)
      in case r of
           Some True \<Rightarrow> run_signals eng sigs (sat_add32 score (sg_weight sig)) (matched @ [sg_name sig]) errors scope
         | Some False \<Rightarrow> run_signals eng sigs score matched errors scope
         | None \<Rightarrow> run_signals eng sigs score matched (errors @ [sg_name sig]) scope)"

definition candidate_of :: "u32 \<Rightarrow> threshold_state list \<Rightarrow> threshold_state option" where
  "candidate_of score thresholds = find (\<lambda>t. th_value t \<le> score) (rev thresholds)"

definition scoring_evaluate :: "'s engine \<Rightarrow> scoring_state \<Rightarrow> 's \<Rightarrow> score_result option \<times> 's" where
  "scoring_evaluate eng S scope =
     (case find_card eng (sc_scorecards S) scope of
        (None, scope) \<Rightarrow> (None, scope)
      | (Some scard, scope) \<Rightarrow>
          let ((score, matched, errors), scope) = run_signals eng (cd_signals scard) 0 [] [] scope
          in (Some \<lparr> sr_scorecard = scard, sr_score = score, sr_matched = matched, sr_errors = errors,
                     sr_candidate = candidate_of score (cd_thresholds scard) \<rparr>, scope))"

section \<open>References between the parts of a policy\<close>

record maze_config =
  mz_name :: string
  mz_renderer :: string
  mz_token_ttl :: nat
  mz_memory_ttl :: nat
  mz_min_links :: u32
  mz_max_links :: u32
  mz_min_bytes :: u32
  mz_max_bytes :: u32

definition is_valid_maze_name :: "string \<Rightarrow> bool" where
  "is_valid_maze_name name =
     (case name of [] \<Rightarrow> False
      | first # rest \<Rightarrow> length name \<le> 64 \<and> is_lower first \<and>
          list_all (\<lambda>c. is_lower c \<or> is_digit c \<or> c = CHR ''_'' \<or> c = CHR ''-'') rest)"

text \<open>Durations are in seconds.\<close>

fun validate_maze_loop :: "string list \<Rightarrow> string list \<Rightarrow> maze_config list \<Rightarrow> unit result" where
  "validate_maze_loop renderers names [] = Inr ()"
| "validate_maze_loop renderers names (m # ms) =
     (let ctx = (\<lambda>msg. Config (''maze '' @ mz_name m @ '': '' @ msg)) in
      rbind (fail_if (\<not> is_valid_maze_name (mz_name m)) (Config (''invalid maze name '' @ mz_name m))) (\<lambda>_.
      rbind (fail_if (mz_name m \<in> set names) (Config (''duplicate maze '' @ mz_name m))) (\<lambda>_.
      rbind (fail_if (mz_renderer m \<noteq> ''builtin'' \<and> mz_renderer m \<notin> set renderers) (ctx (''unknown renderer '' @ mz_renderer m))) (\<lambda>_.
      rbind (fail_if (\<not> (60 \<le> mz_token_ttl m \<and> mz_token_ttl m \<le> 7 * 86400)) (ctx ''token-ttl is outside 60 seconds through seven days'')) (\<lambda>_.
      rbind (fail_if (mz_memory_ttl m = 0 \<or> 8760 * 3600 < mz_memory_ttl m) (ctx ''memory-ttl must be between 1 second and 365 days'')) (\<lambda>_.
      rbind (fail_if (mz_min_links m = 0 \<or> 64 < mz_max_links m \<or> mz_max_links m < mz_min_links m) (ctx ''link limits'')) (\<lambda>_.
      rbind (fail_if (mz_min_bytes m < 1024 \<or> 1048576 < mz_max_bytes m \<or> mz_max_bytes m < mz_min_bytes m) (ctx ''byte limits'')) (\<lambda>_.
        validate_maze_loop renderers (mz_name m # names) ms))))))))"

definition validate_mazes :: "string list \<Rightarrow> bool \<Rightarrow> bool \<Rightarrow> maze_config list \<Rightarrow> unit result" where
  "validate_mazes renderers passthrough seed_persistent mazes =
     (if mazes = [] then Inr ()
      else rbind (validate_maze_loop renderers [] mazes) (\<lambda>_.
        rbind (fail_if (\<not> seed_persistent) (Config ''maze support requires a persistent key seed'')) (\<lambda>_.
          fail_if passthrough (Config ''passthrough and maze support cannot both be enabled''))))"

fun tarpit_maze :: "rule_action \<Rightarrow> string option" where
  "tarpit_maze (ActTarpit maze) = Some maze"
| "tarpit_maze _ = None"

fun maze_references :: "rule_action \<Rightarrow> string list" where
  "maze_references (ActTarpit maze) = [maze]"
| "maze_references (ActLure maze) = [maze]"
| "maze_references (ActChallenge ca) = List.map_filter tarpit_maze [ca_pass_action ca, ca_fail_action ca]"
| "maze_references (ActCheck ca) = List.map_filter tarpit_maze [ca_pass_action ca, ca_fail_action ca]"
| "maze_references _ = []"

definition tarpit_maze_known :: "maze_config list \<Rightarrow> string \<Rightarrow> string \<Rightarrow> unit result" where
  "tarpit_maze_known mazes site maze_name =
     fail_if (\<not> list_ex (\<lambda>m. mz_name m = maze_name) mazes) (Config (site @ '': references unknown maze '' @ maze_name))"

text \<open>The three walks over the rule tree visit a rule, then its children, then the rules after it.\<close>

fun walk_rules :: "(rule_state \<Rightarrow> unit result) \<Rightarrow> rule_state list \<Rightarrow> unit result" where
  "walk_rules check [] = Inr ()"
| "walk_rules check (RuleState name condition act children # rules) =
     rbind (check (RuleState name condition act children)) (\<lambda>_.
     rbind (walk_rules check children) (\<lambda>_. walk_rules check rules))"

definition walk_thresholds :: "(scorecard_state \<Rightarrow> threshold_state \<Rightarrow> unit result) \<Rightarrow> scoring_state option \<Rightarrow> unit result" where
  "walk_thresholds check scoring =
     (case scoring of None \<Rightarrow> Inr ()
      | Some S \<Rightarrow> check_all (\<lambda>scard. check_all (check scard) (cd_thresholds scard)) (sc_scorecards S))"

definition threshold_site :: "scorecard_state \<Rightarrow> threshold_state \<Rightarrow> string" where
  "threshold_site scard t = ''scorecard '' @ cd_name scard @ '' threshold '' @ show_nat (th_value t)"

definition validate_tarpit_references :: "rule_state list \<Rightarrow> scoring_state option \<Rightarrow> maze_config list \<Rightarrow> unit result" where
  "validate_tarpit_references rules scoring mazes =
     rbind (walk_rules (\<lambda>r. check_all (tarpit_maze_known mazes (''rule '' @ rl_name r)) (maze_references (rl_action r))) rules) (\<lambda>_.
       walk_thresholds (\<lambda>scard t. check_all (tarpit_maze_known mazes (threshold_site scard t)) (maze_references (th_action t))) scoring)"

fun proxy_backend :: "rule_action \<Rightarrow> string option" where
  "proxy_backend (ActProxy _ _ backend) = Some backend"
| "proxy_backend _ = None"

definition backend_known :: "string list \<Rightarrow> string \<Rightarrow> rule_action \<Rightarrow> unit result" where
  "backend_known backends site act =
     (case proxy_backend act of None \<Rightarrow> Inr ()
      | Some b \<Rightarrow> fail_if (b \<notin> set backends) (Config (site @ '' references unknown backend '' @ b)))"

definition validate_proxy_backends :: "string list \<Rightarrow> rule_state list \<Rightarrow> unit result" where
  "validate_proxy_backends backends rules = walk_rules (\<lambda>r. backend_known backends (''rule '' @ rl_name r) (rl_action r)) rules"

definition validate_threshold_backends :: "string list \<Rightarrow> scoring_state option \<Rightarrow> unit result" where
  "validate_threshold_backends backends scoring = walk_thresholds (\<lambda>scard t. backend_known backends (threshold_site scard t) (th_action t)) scoring"

type_synonym registry = "(string \<times> challenge_registration) list"

definition check_reference :: "registry \<Rightarrow> string \<Rightarrow> bool \<Rightarrow> u32 option \<Rightarrow> string \<Rightarrow> unit result" where
  "check_reference reg site is_check difficulty name =
     rbind (ok_or (Config (site @ '' references unknown challenge '' @ name)) (map_of reg name)) (\<lambda>r.
     rbind (fail_if (is_check \<and> cr_class r = Blocking \<and> \<not> supports_background (cr_runtime r))
              (Config (site @ '' uses blocking challenge '' @ name @ '' with check''))) (\<lambda>_.
       case difficulty of
         None \<Rightarrow> Inr ()
       | Some d \<Rightarrow>
           (case cr_runtime r of
              RPow pow _ \<Rightarrow> fail_if (\<not> in_difficulty_range pow d) (Config (site @ '' sets a difficulty out of range for '' @ name))
            | _ \<Rightarrow> Inl (Config (site @ '' sets a difficulty for '' @ name @ '', which is not a proof of work'')))))"

fun validate_challenge_action :: "registry \<Rightarrow> string \<Rightarrow> rule_action \<Rightarrow> unit result" where
  "validate_challenge_action reg site (ActChallenge ca) = check_all (check_reference reg site False (ca_difficulty ca)) (ca_challenges ca)"
| "validate_challenge_action reg site (ActCheck ca) = check_all (check_reference reg site True (ca_difficulty ca)) (ca_challenges ca)"
| "validate_challenge_action reg site _ = Inr ()"

definition validate_challenge_references :: "rule_state list \<Rightarrow> scoring_state option \<Rightarrow> registry \<Rightarrow> unit result" where
  "validate_challenge_references rules scoring reg =
     rbind (walk_rules (\<lambda>r. validate_challenge_action reg (''rule '' @ rl_name r) (rl_action r)) rules) (\<lambda>_.
       walk_thresholds (\<lambda>scard t. validate_challenge_action reg (threshold_site scard t) (th_action t)) scoring)"

text \<open>What \<open>compile\<close> reads of a configuration, and the results of the checks it makes that do not
  concern the policy, in the order it makes them.\<close>

record web_config =
  wc_rules :: "rule_config list"
  wc_scoring :: "scoring_config option"
  wc_challenges :: "challenge_config list"
  wc_mazes :: "maze_config list"
  wc_renderers :: "string list"
  wc_passthrough :: bool
  wc_challenge_http_code :: u16

record compile_checks =
  ck_bind :: "unit result"
  ck_backends :: "string list result"
  ck_renderers :: "unit result"
  ck_trust :: "unit result"
  ck_client_ip :: "unit result"
  ck_crawlers :: "unit result"
  ck_deception :: "unit result"
  ck_smear :: "unit result"

record compiled =
  cp_rules :: "rule_state list"
  cp_backends :: "string list"
  cp_scoring :: "scoring_state option"
  cp_challenges :: registry

text \<open>The script prelude is compiled first; it gives the engine that compiles the conditions.\<close>

definition compile_web :: "policy_libs result \<Rightarrow> compile_checks \<Rightarrow> web_config \<Rightarrow> bool \<Rightarrow> compiled result" where
  "compile_web prelude K config seed_persistent =
     rbind (ck_bind K) (\<lambda>_.
     rbind prelude (\<lambda>L.
     rbind (build_rules L (wc_challenge_http_code config) [] (wc_rules config)) (\<lambda>rules.
     rbind (ck_backends K) (\<lambda>backends.
     rbind (validate_proxy_backends backends rules) (\<lambda>_.
     rbind (transpose_option (map_option (scoring_build L (wc_challenge_http_code config)) (wc_scoring config))) (\<lambda>scoring.
     rbind (validate_threshold_backends backends scoring) (\<lambda>_.
     rbind (check_all (\<lambda>r. r) [ck_renderers K, ck_trust K, ck_client_ip K, ck_crawlers K, ck_deception K, ck_smear K]) (\<lambda>_.
     rbind (validate_mazes (wc_renderers config) (wc_passthrough config) seed_persistent (wc_mazes config)) (\<lambda>_.
     rbind (validate_tarpit_references rules scoring (wc_mazes config)) (\<lambda>_.
     rbind (build_registry (wc_challenges config) []) (\<lambda>challenges.
     rbind (validate_challenge_references rules scoring challenges) (\<lambda>_.
       Inr \<lparr> cp_rules = rules, cp_backends = backends, cp_scoring = scoring, cp_challenges = challenges \<rparr>))))))))))))"

end
