(* ===== verification/Rule_Theorems.thy ===== *)
theory Rule_Theorems
  imports Rule_Engine
begin

text \<open>
  What a compiled policy guarantees: how actions are spelled, which threshold a score selects, and
  that every maze, backend and challenge an action names exists.
\<close>

section \<open>Spelling of actions\<close>

lemma code_lower_char: "code_of (lower_char c) = (if is_upper c then code_of c + 32 else code_of c)"
  by (auto simp: lower_char_def is_upper_def code_of_def)

lemma is_upper_code: "is_upper c \<longleftrightarrow> 65 \<le> code_of c \<and> code_of c \<le> 90"
  by (simp add: is_upper_def code_of_def)

lemma lower_char_wide: "128 \<le> n \<Longrightarrow> code_of (lower_char c) = n \<longleftrightarrow> code_of c = n"
  by (auto simp: code_lower_char is_upper_code split: if_splits)

lemma kelvin_lower: "map code_of (map lower_char cs) = [226, 132, 170] \<longleftrightarrow> map code_of cs = [226, 132, 170]"
  by (auto simp: map_eq_Cons_conv lower_char_wide)

lemma lower_text_lower: "lower_text (to_lowercase s) = lower_text s"
proof (induction s rule: lower_text.induct)
  case (2 c cs)
  have low: "lower_char (lower_char x) = lower_char x" for x
    by (auto simp: lower_char_def [of "lower_char x"] is_upper_code code_lower_char split: if_splits)
  have "map code_of (lower_char c # take 2 (map lower_char cs)) = [226, 132, 170] \<longleftrightarrow> map code_of (c # take 2 cs) = [226, 132, 170]"
    using kelvin_lower [of "c # take 2 cs"] by (simp only: list.map(2) take_map)
  with 2 low show ?case by (simp add: to_lowercase_def drop_map)
qed (simp add: to_lowercase_def)

lemma lower_text_ignore_case: "eq_ignore_case s t \<Longrightarrow> lower_text s = lower_text t"
  using lower_text_lower [of s] lower_text_lower [of t] by (simp add: eq_ignore_case_def)

lemma action_parse_ignore_case:
  assumes "eq_ignore_case str str'"
  shows "action_parse L str s chs code = action_parse L str' s chs code"
proof -
  have "eq_ignore_case str x = eq_ignore_case str' x" for x using assms by (simp add: eq_ignore_case_def)
  then show ?thesis unfolding action_parse_def lower_text_ignore_case [OF assms] by (simp only:)
qed

definition labels :: "string list" where
  "labels = [''none'', ''pass'', ''deny'', ''block'', ''code'', ''drop'', ''tarpit'', ''smear'', ''lure'', ''beacon'', ''proxy'', ''context'',
     ''challenge'', ''check'', ''report'']"

lemma label_spellings:
  "lower_text (action_label a) = action_label a"
  "eq_ignore_case (action_label a) ''report'' \<longleftrightarrow> action_label a = ''report''"
  "eq_ignore_case (action_label a) ''challenge'' \<longleftrightarrow> action_label a = ''challenge''"
  "eq_ignore_case (action_label a) ''check'' \<longleftrightarrow> action_label a = ''check''"
proof -
  have "list_all (\<lambda>l. lower_text l = l \<and> (eq_ignore_case l ''report'' \<longleftrightarrow> l = ''report'') \<and>
      (eq_ignore_case l ''challenge'' \<longleftrightarrow> l = ''challenge'') \<and> (eq_ignore_case l ''check'' \<longleftrightarrow> l = ''check'')) labels"
    by code_simp
  moreover have "action_label a \<in> set labels" by (cases a) (simp_all add: labels_def)
  ultimately show "lower_text (action_label a) = action_label a" "eq_ignore_case (action_label a) ''report'' \<longleftrightarrow> action_label a = ''report''"
    "eq_ignore_case (action_label a) ''challenge'' \<longleftrightarrow> action_label a = ''challenge''"
    "eq_ignore_case (action_label a) ''check'' \<longleftrightarrow> action_label a = ''check''"
    unfolding list_all_iff by blast+
qed

lemma ignore_case_lower:
  "eq_ignore_case str ''report'' \<Longrightarrow> lower_text str = ''report''"
  "eq_ignore_case str ''challenge'' \<Longrightarrow> lower_text str = ''challenge''"
  "eq_ignore_case str ''check'' \<Longrightarrow> lower_text str = ''check''"
  using lower_text_ignore_case [of str "''report''"] lower_text_ignore_case [of str "''challenge''"] lower_text_ignore_case [of str "''check''"]
    label_spellings(1) [of "ActReport []"] label_spellings(1) [of "ActChallenge (ChallengeAction [] 0 None ActNone ActNone)"]
    label_spellings(1) [of "ActCheck (ChallengeAction [] 0 None ActNone ActNone)"]
  by simp_all

lemma action_parse_Inr:
  "action_parse L str s chs code = Inr a \<longleftrightarrow>
    (st_kind s = None \<or> eq_ignore_case str ''report'') \<and>
    (st_difficulty s = None \<or> eq_ignore_case str ''challenge'' \<or> eq_ignore_case str ''check'') \<and>
    action_of_kind L (lower_text str) (eq_ignore_case str ''check'') s chs code = Inr a"
  by (auto simp: action_parse_def result_simps)

lemma parsed_label:
  assumes "action_parse L str s chs code = Inr a"
  shows "action_label a = (if lower_text str = ''check'' \<and> \<not> eq_ignore_case str ''check'' then ''challenge'' else lower_text str)"
proof (cases "eq_ignore_case str ''check''")
  case True
  with assms ignore_case_lower(3) [OF True] show ?thesis by (auto simp: action_parse_Inr action_of_kind_def result_simps)
next
  case False
  with assms have "action_of_kind L (lower_text str) False s chs code = Inr a" by (simp add: action_parse_Inr)
  with False show ?thesis unfolding action_of_kind_def
    by (auto simp: result_simps parse_smear_def parse_report_def parse_proxy_def parse_challenge_def split: if_splits)
qed

text \<open>Actions are spelled as their labels, in any case. A spelling that differs only in case parses
  to the same action or error, and the label of a parsed action parses, with the same settings, to
  that action again.\<close>

theorem action_spelling:
  "(eq_ignore_case str str' \<longrightarrow> action_parse L str s chs code = action_parse L str' s chs code) \<and>
   (action_parse L str s chs code = Inr a \<longrightarrow> action_parse L (action_label a) s chs code = Inr a)"
proof (intro conjI impI)
  assume a: "action_parse L str s chs code = Inr a"
  note parsed = a [unfolded action_parse_Inr] and label = parsed_label [OF a] and low = ignore_case_lower [of str]
  show "action_parse L (action_label a) s chs code = Inr a"
  proof (cases "lower_text str = ''check'' \<and> \<not> eq_ignore_case str ''check''")
    case True
    with parsed have "action_of_kind L ''challenge'' False s chs code = Inr a" by (simp add: action_of_kind_def)
    moreover have "action_label a = ''challenge''" using True label by simp
    moreover have "st_kind s = None" using parsed True low by auto
    ultimately show ?thesis unfolding action_parse_Inr label_spellings by simp
  next
    case False
    with label have l: "action_label a = lower_text str" by auto
    have check: "lower_text str = ''check'' \<longleftrightarrow> eq_ignore_case str ''check''" using False low by auto
    have "action_of_kind L (lower_text str) (lower_text str = ''check'') s chs code = Inr a" using parsed by (simp only: check)
    with parsed low show ?thesis unfolding action_parse_Inr label_spellings unfolding l by blast
  qed
qed (rule action_parse_ignore_case)

section \<open>Scores and thresholds\<close>

definition scorecard_ok :: "scorecard_state \<Rightarrow> bool" where
  "scorecard_ok scard \<longleftrightarrow>
     sorted (map th_value (cd_thresholds scard)) \<and> distinct (map th_value (cd_thresholds scard)) \<and> distinct (map sg_name (cd_signals scard)) \<and>
     (\<forall>t \<in> set (cd_thresholds scard). action_label (th_action t) \<notin> set FORBIDDEN_THRESHOLD_ACTIONS)"

lemma build_signals_names:
  "build_signals L name seen sigs = Inr ss \<Longrightarrow> distinct (map sg_name ss) \<and> set (map sg_name ss) \<inter> set seen = {}"
  by (induction sigs arbitrary: seen ss) (fastforce simp: result_simps)+

lemma build_thresholds_values:
  "build_thresholds L code name seen ts = Inr ths \<Longrightarrow>
    distinct (map th_value ths) \<and> set (map th_value ths) \<inter> set seen = {} \<and>
    (\<forall>t \<in> set ths. action_label (th_action t) \<notin> set FORBIDDEN_THRESHOLD_ACTIONS)"
proof (induction ts arbitrary: seen ths)
  case (Cons t ts)
  from Cons.prems obtain act rest where
    t: "thc_value t \<notin> set seen" "lower_text (thc_action t) \<notin> set FORBIDDEN_THRESHOLD_ACTIONS"
      "action_parse L (thc_action t) (thc_settings t) (thc_challenges t) code = Inr act"
    and rest: "build_thresholds L code name (thc_value t # seen) ts = Inr rest"
    and ths: "ths = \<lparr> th_value = thc_value t, th_action = act, th_kind = action_kind (lower_text (thc_action t)) \<rparr> # rest"
    by (auto simp: result_simps Let_def site_error_def split: sum.splits)
  have "action_label act \<notin> set FORBIDDEN_THRESHOLD_ACTIONS"
    using parsed_label [OF t(3)] t(2) by (auto simp: FORBIDDEN_THRESHOLD_ACTIONS_def split: if_splits)
  with Cons.IH [OF rest] t(1) ths show ?case by auto
qed simp

lemma build_scorecards_ok:
  "build_scorecards L code names uncond scards = Inr cs \<Longrightarrow> list_all scorecard_ok cs"
proof (induction scards arbitrary: names uncond cs)
  case (Cons scard scards)
  from Cons.prems obtain mode condition signals ths rest names' uncond' where
    "build_signals L (scc_name scard) [] (scc_signals scard) = Inr signals"
    "build_thresholds L code (scc_name scard) [] (scc_thresholds scard) = Inr ths"
    and rest: "build_scorecards L code names' uncond' scards = Inr rest"
    and cs: "cs = \<lparr> cd_name = scc_name scard, cd_condition = condition, cd_mode = mode, cd_signals = signals,
               cd_thresholds = sort_key th_value ths \<rparr> # rest"
    by (auto simp: result_simps Let_def)
  then show ?case
    using Cons.IH [OF rest] build_signals_names [of L "scc_name scard" "[]"] build_thresholds_values [of L code "scc_name scard" "[]"]
    by (simp add: scorecard_ok_def distinct_map distinct_sort)
qed simp

lemma scoring_build_ok:
  "scoring_build L code config = Inr S \<Longrightarrow> list_all scorecard_ok (sc_scorecards S) \<and> sc_rate_capacity S \<le> RATE_MAX_CAPACITY"
  by (auto simp: scoring_build_def Let_def result_simps dest: build_scorecards_ok)

lemma find_card_member: "find_card eng scards scope = (Some c, scope') \<Longrightarrow> c \<in> set scards"
  by (induction eng scards scope rule: find_card.induct) (auto split: option.splits prod.splits if_splits)

lemma run_signals_spec:
  assumes "run_signals eng sigs score matched errors scope = ((tot, m, e), scope')" "score \<le> u32_max" "distinct (map sg_name sigs)"
    and "set (map sg_name sigs) \<inter> set matched = {}"
  shows "\<exists>new. m = matched @ new \<and> set new \<subseteq> set (map sg_name sigs) \<and> distinct new \<and>
    tot = min u32_max (score + sum_list (map sg_weight (filter (\<lambda>g. sg_name g \<in> set new) sigs)))"
  using assms
proof (induction eng sigs score matched errors scope rule: run_signals.induct)
  case (2 eng sig sigs score matched errors scope)
  obtain r scope1 where r: "eng scope (sg_condition sig) = (r, scope1)" by fastforce
  have ne: "sg_name g \<noteq> sg_name sig" if "g \<in> set sigs" for g
    using "2.prems"(3) that by (metis distinct.simps(2) image_eqI list.simps(9) set_map)
  have drop: "filter (\<lambda>g. sg_name g \<in> set (sg_name sig # new)) sigs = filter (\<lambda>g. sg_name g \<in> set new) sigs" for new
    by (intro filter_cong) (simp_all add: ne)
  show ?case
  proof (cases "r = Some True")
    case True
    with "2.IH"(2) [OF r [symmetric] refl True refl] "2.prems" r obtain new where new: "m = (matched @ [sg_name sig]) @ new"
      "set new \<subseteq> set (map sg_name sigs)" "distinct new"
      "tot = min u32_max (sat_add32 score (sg_weight sig) + sum_list (map sg_weight (filter (\<lambda>g. sg_name g \<in> set new) sigs)))"
      by (auto simp: sat_add32_def)
    then show ?thesis using "2.prems"(3) drop [of new]
      by (intro exI [of _ "sg_name sig # new"]) (auto simp: sat_add32_def min_def)
  next
    case False
    with "2.IH"(1,3) [OF r [symmetric] refl] "2.prems" r obtain new where new: "m = matched @ new"
      "set new \<subseteq> set (map sg_name sigs)" "distinct new"
      "tot = min u32_max (score + sum_list (map sg_weight (filter (\<lambda>g. sg_name g \<in> set new) sigs)))"
      by (cases r) auto
    then show ?thesis using "2.prems"(3) by (intro exI [of _ new]) auto
  qed
qed auto

lemma candidate_of_best:
  assumes "sorted (map th_value ts)" "distinct (map th_value ts)"
  shows "case candidate_of score ts of
      None \<Rightarrow> \<forall>t \<in> set ts. score < th_value t
    | Some t \<Rightarrow> t \<in> set ts \<and> th_value t \<le> score \<and> (\<forall>t' \<in> set ts. th_value t' \<le> score \<and> t' \<noteq> t \<longrightarrow> th_value t' < th_value t)"
  using assms
proof (induction ts rule: rev_induct)
  case (snoc t ts)
  have "th_value t' \<noteq> th_value t" if "t' \<in> set ts" for t' using snoc.prems(2) that by (auto simp: image_iff)
  then show ?case using snoc by (auto simp: candidate_of_def sorted_append less_le split: option.splits)
qed (simp add: candidate_of_def)


section \<open>References\<close>

text \<open>Every rule of a tree, in the order the walks visit them.\<close>

fun rules_below :: "rule_state list \<Rightarrow> rule_state list" where
  "rules_below [] = []"
| "rules_below (RuleState name condition act children # rules) =
     RuleState name condition act children # rules_below children @ rules_below rules"

lemma walk_rules_Inr_iff: "walk_rules check rules = Inr u \<longleftrightarrow> (\<forall>r \<in> set (rules_below rules). check r = Inr ())"
  by (induction check rules rule: walk_rules.induct) (auto simp: result_simps)

definition all_thresholds :: "scoring_state option \<Rightarrow> threshold_state list" where
  "all_thresholds scoring = (case scoring of None \<Rightarrow> [] | Some S \<Rightarrow> concat (map cd_thresholds (sc_scorecards S)))"

definition policy_actions :: "compiled \<Rightarrow> rule_action list" where
  "policy_actions P = map rl_action (rules_below (cp_rules P)) @ map th_action (all_thresholds (cp_scoring P))"

lemma walk_thresholds_Inr:
  "walk_thresholds check scoring = Inr u \<Longrightarrow> t \<in> set (all_thresholds scoring) \<Longrightarrow> \<exists>scard. check scard t = Inr ()"
  by (auto simp: walk_thresholds_def all_thresholds_def result_simps split: option.splits)

fun challenge_of :: "rule_action \<Rightarrow> challenge_action option" where
  "challenge_of (ActChallenge ca) = Some ca"
| "challenge_of (ActCheck ca) = Some ca"
| "challenge_of _ = None"

definition references_ok :: "compiled \<Rightarrow> maze_config list \<Rightarrow> rule_action \<Rightarrow> bool" where
  "references_ok P mazes act \<longleftrightarrow>
     (\<forall>m \<in> set (maze_references act). m \<in> mz_name ` set mazes) \<and>
     (case proxy_backend act of None \<Rightarrow> True | Some b \<Rightarrow> b \<in> set (cp_backends P)) \<and>
     (case challenge_of act of None \<Rightarrow> True | Some ca \<Rightarrow>
        (\<forall>name \<in> set (ca_challenges ca). \<exists>r. map_of (cp_challenges P) name = Some r \<and> registration_ok r \<and>
           (act = ActCheck ca \<longrightarrow> cr_class r = Transparent \<or> supports_background (cr_runtime r)) \<and>
           (\<forall>d. ca_difficulty ca = Some d \<longrightarrow> (\<exists>pow embed. cr_runtime r = RPow pow embed \<and> in_difficulty_range pow d))))"

lemma tarpit_maze_known_Inr: "tarpit_maze_known mazes site m = Inr u \<longleftrightarrow> m \<in> mz_name ` set mazes"
  by (auto simp: tarpit_maze_known_def result_simps list_ex_iff)

lemma backend_known_Inr: "backend_known backends site act = Inr u \<longleftrightarrow> (case proxy_backend act of None \<Rightarrow> True | Some b \<Rightarrow> b \<in> set backends)"
  by (auto simp: backend_known_def result_simps split: option.splits)

lemma check_reference_Inr:
  "check_reference reg site is_check d name = Inr u \<longleftrightarrow>
    (\<exists>r. map_of reg name = Some r \<and> (is_check \<longrightarrow> cr_class r = Transparent \<or> supports_background (cr_runtime r)) \<and>
       (\<forall>d'. d = Some d' \<longrightarrow> (\<exists>pow embed. cr_runtime r = RPow pow embed \<and> in_difficulty_range pow d')))"
proof (cases "map_of reg name")
  case (Some r)
  then show ?thesis
    by (cases "cr_class r"; cases d; cases "cr_runtime r") (auto simp: check_reference_def fail_if_def)
qed (simp add: check_reference_def)

lemma compile_web_walks:
  assumes "compile_web prelude K config seed = Inr P"
  shows "validate_proxy_backends (cp_backends P) (cp_rules P) = Inr () \<and> validate_threshold_backends (cp_backends P) (cp_scoring P) = Inr () \<and>
    validate_tarpit_references (cp_rules P) (cp_scoring P) (wc_mazes config) = Inr () \<and>
    validate_challenge_references (cp_rules P) (cp_scoring P) (cp_challenges P) = Inr () \<and>
    build_registry (wc_challenges config) [] = Inr (cp_challenges P)"
  using assms by (auto simp: compile_web_def rbind_Inr_iff)

text \<open>C37. A compiled policy has no dangling reference. Every maze a rule or threshold leads to is
  configured, every backend it proxies to exists, and every challenge it issues is registered with
  sane parameters; a check only uses challenges that can run in the background, and an overridden
  difficulty is set only on proofs of work and lies in their range.\<close>

theorem compiled_references_resolve:
  assumes "compile_web prelude K config seed = Inr P" "act \<in> set (policy_actions P)"
  shows "references_ok P (wc_mazes config) act"
proof -
  note walks = compile_web_walks [OF assms(1)]
  have reg: "registration_ok r" if "map_of (cp_challenges P) n = Some r" for n r
    using build_registry_ok [of "wc_challenges config" "[]" "cp_challenges P"] walks map_of_SomeD [OF that] by fastforce
  have maze: "\<forall>m \<in> set (maze_references act). m \<in> mz_name ` set (wc_mazes config)"
    using walks assms(2) by (fastforce simp: policy_actions_def validate_tarpit_references_def rbind_Inr_iff walk_rules_Inr_iff
        check_all_Inr_iff tarpit_maze_known_Inr dest: walk_thresholds_Inr)
  have backend: "case proxy_backend act of None \<Rightarrow> True | Some b \<Rightarrow> b \<in> set (cp_backends P)"
    using walks assms(2) by (fastforce simp: policy_actions_def validate_proxy_backends_def validate_threshold_backends_def walk_rules_Inr_iff
        backend_known_Inr dest: walk_thresholds_Inr)
  have "\<exists>site. validate_challenge_action (cp_challenges P) site act = Inr ()"
    using walks assms(2) by (fastforce simp: policy_actions_def validate_challenge_references_def rbind_Inr_iff walk_rules_Inr_iff
        dest: walk_thresholds_Inr)
  then obtain site where site: "validate_challenge_action (cp_challenges P) site act = Inr ()" ..
  show ?thesis unfolding references_ok_def
  proof (intro conjI maze backend)
    show "case challenge_of act of None \<Rightarrow> True | Some ca \<Rightarrow>
        (\<forall>name \<in> set (ca_challenges ca). \<exists>r. map_of (cp_challenges P) name = Some r \<and> registration_ok r \<and>
           (act = ActCheck ca \<longrightarrow> cr_class r = Transparent \<or> supports_background (cr_runtime r)) \<and>
           (\<forall>d. ca_difficulty ca = Some d \<longrightarrow> (\<exists>pow embed. cr_runtime r = RPow pow embed \<and> in_difficulty_range pow d)))"
      using site reg by (cases act) (fastforce simp: check_all_Inr_iff check_reference_Inr)+
  qed
qed

section \<open>A policy\<close>

definition ex_libs :: policy_libs where
  "ex_libs = \<lparr> lib_compile = Inr, lib_regex = (\<lambda>_. True), lib_header_name = Some, lib_header_value = (\<lambda>_. True) \<rparr>"

definition ex_settings :: rule_settings where
  "ex_settings = \<lparr> st_http_code = Some 451, st_pass_action = None, st_fail_action = None, st_response_headers = [], st_request_headers = [],
     st_match_re = None, st_rewrite = None, st_backend = None, st_maze = Some ''m'', st_kind = None, st_difficulty = None \<rparr>"

definition ex_scoring :: scoring_config where
  "ex_scoring = \<lparr> scf_rate_capacity = None, scf_scorecards =
     [\<lparr> scc_name = ''s'', scc_condition = None, scc_mode = Some ''enforce'',
        scc_signals = [\<lparr> sgc_name = ''a'', sgc_condition = ''true'', sgc_weight = Some 60 \<rparr>, \<lparr> sgc_name = ''b'', sgc_condition = ''false'', sgc_weight = Some 40 \<rparr>],
        scc_thresholds = [\<lparr> thc_value = 90, thc_action = ''Tarpit'', thc_challenges = [], thc_settings = ex_settings \<rparr>,
                          \<lparr> thc_value = 50, thc_action = ''code'', thc_challenges = [], thc_settings = ex_settings \<rparr>] \<rparr>] \<rparr>"

definition ex_web_config :: web_config where
  "ex_web_config = \<lparr> wc_rules = [RuleConfig ''r'' (Some ''true'') ''challenge'' [''c''] ex_settings []], wc_scoring = Some ex_scoring,
     wc_challenges = [\<lparr> cc_name = ''c'', cc_runtime = ''cookie'', cc_duration_secs = 60, cc_parameters = [] \<rparr>],
     wc_mazes = [\<lparr> mz_name = ''m'', mz_renderer = ''builtin'', mz_token_ttl = 86400, mz_memory_ttl = 3600, mz_min_links = 8, mz_max_links = 16,
                   mz_min_bytes = 8192, mz_max_bytes = 32768 \<rparr>],
     wc_renderers = [], wc_passthrough = False, wc_challenge_http_code = 418 \<rparr>"

definition ex_checks :: compile_checks where
  "ex_checks = \<lparr> ck_bind = Inr (), ck_backends = Inr [''origin''], ck_renderers = Inr (), ck_trust = Inr (), ck_client_ip = Inr (),
     ck_crawlers = Inr (), ck_deception = Inr (), ck_smear = Inr () \<rparr>"

definition ex_thresholds :: "threshold_state list" where
  "ex_thresholds = [\<lparr> th_value = 50, th_action = ActCode 451, th_kind = ''code'' \<rparr>, \<lparr> th_value = 90, th_action = ActTarpit ''m'', th_kind = ''tarpit'' \<rparr>]"

definition ex_scorecard :: scorecard_state where
  "ex_scorecard = \<lparr> cd_name = ''s'', cd_condition = None, cd_mode = Enforce,
     cd_signals = [\<lparr> sg_name = ''a'', sg_condition = ''true'', sg_weight = 60 \<rparr>, \<lparr> sg_name = ''b'', sg_condition = ''false'', sg_weight = 40 \<rparr>],
     cd_thresholds = ex_thresholds \<rparr>"

definition ex_rule :: rule_state where
  "ex_rule = RuleState ''r'' (Some ''true'') (ActChallenge (ChallengeAction [''c''] 451 None ActPass (ActDeny 403))) []"

definition ex_web_policy :: compiled where
  "ex_web_policy = \<lparr> cp_rules = [ex_rule], cp_backends = [''origin''],
     cp_scoring = Some \<lparr> sc_rate_capacity = 65536, sc_scorecards = [ex_scorecard] \<rparr>,
     cp_challenges = [(''c'', \<lparr> cr_class = Blocking, cr_duration = 60, cr_gpu_duration = None, cr_runtime = RCookie \<rparr>)] \<rparr>"

definition ex_engine :: "'s engine" where
  "ex_engine scope ast = (if ast = ''true'' then Some True else if ast = ''false'' then Some False else None, scope)"

lemma ex_spellings:
  "lower_text ''Tarpit'' = ''tarpit''" "lower_text ''code'' = ''code''" "lower_text ''challenge'' = ''challenge''"
  "\<not> eq_ignore_case ''Tarpit'' ''report''" "\<not> eq_ignore_case ''Tarpit'' ''challenge''" "\<not> eq_ignore_case ''Tarpit'' ''check''"
  "\<not> eq_ignore_case ''code'' ''report''" "\<not> eq_ignore_case ''code'' ''challenge''" "\<not> eq_ignore_case ''code'' ''check''"
  "eq_ignore_case ''challenge'' ''challenge''" "\<not> eq_ignore_case ''challenge'' ''report''" "\<not> eq_ignore_case ''challenge'' ''check''"
  by code_simp+

lemma ex_actions:
  "action_parse ex_libs ''Tarpit'' ex_settings [] 418 = Inr (ActTarpit ''m'')"
  "action_parse ex_libs ''code'' ex_settings [] 418 = Inr (ActCode 451)"
  "action_parse ex_libs ''challenge'' ex_settings [''c''] 418 = Inr (ActChallenge (ChallengeAction [''c''] 451 None ActPass (ActDeny 403)))"
  by (simp_all add: action_parse_def ex_spellings action_of_kind_def parse_challenge_def sub_action_def code_or_def ex_settings_def non_empty_def
      fail_if_def del: lower_text.simps)

lemma ex_scoring_build: "scoring_build ex_libs 418 ex_scoring = Inr \<lparr> sc_rate_capacity = 65536, sc_scorecards = [ex_scorecard] \<rparr>"
  by (simp add: scoring_build_def ex_scoring_def ex_actions ex_spellings site_error_def fail_if_def parse_mode_def compile_condition_def
      FORBIDDEN_THRESHOLD_ACTIONS_def action_kind_def ex_scorecard_def ex_thresholds_def
      RATE_DEFAULT_CAPACITY_def RATE_MIN_CAPACITY_def RATE_MAX_CAPACITY_def del: lower_text.simps)
    (simp add: ex_libs_def)

lemma ex_registry: "build_registry (wc_challenges ex_web_config) [] = Inr (cp_challenges ex_web_policy)"
  by (simp add: ex_web_config_def ex_web_policy_def build_registration_def fail_if_def MAX_CHALLENGE_DURATION_SECS_def put_entry_def)

lemma ex_compile: "compile_web (Inr ex_libs) ex_checks ex_web_config True = Inr ex_web_policy"
proof -
  have "build_rules ex_libs 418 [] (wc_rules ex_web_config) = Inr [ex_rule]"
    by (simp add: ex_web_config_def site_error_def compile_condition_def ex_actions ex_rule_def) (simp add: ex_libs_def)
  moreover have "validate_mazes (wc_renderers ex_web_config) False True (wc_mazes ex_web_config) = Inr ()"
    by (simp add: ex_web_config_def validate_mazes_def is_valid_maze_name_def fail_if_def is_lower_def)
  moreover have "validate_tarpit_references [ex_rule] (cp_scoring ex_web_policy) (wc_mazes ex_web_config) = Inr ()"
    by (simp add: validate_tarpit_references_def ex_rule_def walk_thresholds_def ex_web_policy_def ex_scorecard_def ex_thresholds_def
        tarpit_maze_known_def ex_web_config_def fail_if_def map_filter_simps)
  moreover have "validate_challenge_references [ex_rule] (cp_scoring ex_web_policy) (cp_challenges ex_web_policy) = Inr ()"
    by (simp add: validate_challenge_references_def ex_rule_def walk_thresholds_def ex_web_policy_def ex_scorecard_def ex_thresholds_def
        check_reference_def fail_if_def)
  moreover have "validate_proxy_backends [''origin''] [ex_rule] = Inr ()" "validate_threshold_backends [''origin''] (cp_scoring ex_web_policy) = Inr ()"
    by (simp_all add: validate_proxy_backends_def validate_threshold_backends_def backend_known_def ex_rule_def walk_thresholds_def ex_web_policy_def
        ex_scorecard_def ex_thresholds_def)
  ultimately show ?thesis
    using ex_scoring_build ex_registry by (simp add: compile_web_def ex_checks_def ex_web_config_def ex_web_policy_def)
qed

theorem action_spelling_witness:
  "action_parse ex_libs ''DeNy'' (ex_settings\<lparr> st_maze := None \<rparr>) [] 418 = Inr (ActDeny 451) \<and>
   action_parse ex_libs ''deny'' (ex_settings\<lparr> st_maze := None \<rparr>) [] 418 = Inr (ActDeny 451)"
proof -
  have "action_parse ex_libs ''DeNy'' (ex_settings\<lparr> st_maze := None \<rparr>) [] 418 = Inr (ActDeny 451)" by code_simp
  with action_spelling [of "''DeNy''" "''deny''" ex_libs "ex_settings\<lparr> st_maze := None \<rparr>" "[]" 418 "ActDeny 451"] show ?thesis by simp
qed


theorem compiled_references_resolve_witness:
  "references_ok ex_web_policy (wc_mazes ex_web_config) (ActTarpit ''m'') \<and>
   references_ok ex_web_policy (wc_mazes ex_web_config) (ActChallenge (ChallengeAction [''c''] 451 None ActPass (ActDeny 403)))"
proof -
  have "ActTarpit ''m'' \<in> set (policy_actions ex_web_policy)"
    "ActChallenge (ChallengeAction [''c''] 451 None ActPass (ActDeny 403)) \<in> set (policy_actions ex_web_policy)"
    by (simp_all add: policy_actions_def ex_web_policy_def ex_rule_def all_thresholds_def ex_scorecard_def ex_thresholds_def)
  with compiled_references_resolve [OF ex_compile] show ?thesis by blast
qed

end
