(* ===== verification/Request_Context.thy ===== *)
theory Request_Context
  imports Challenge_State
begin

text \<open>
  What a policy condition sees of a request: the context built from the request and from the
  per-client tables (rule/condition.rs, \<open>request_context\<close> of server/pipeline.rs), the script
  variables it is turned into, and the check that a condition names known variables and functions
  only.

  The script engine is not modelled: a scope is the list of the constants pushed into it.
\<close>

section \<open>The context\<close>

record trap_verdict =
  tv_reason :: "string option"
  tv_category :: "string option"

record condition_context =
  cx_host :: string
  cx_method :: string
  cx_path :: string
  cx_query :: string
  cx_user_agent :: string
  cx_remote_address :: string
  cx_remote_ip :: "ip_addr option"
  cx_http_version :: string
  cx_headers :: "(string \<times> string) list"
  cx_fp :: "(string \<times> string) list"
  cx_fp_identity :: "string option"
  cx_stack :: "string option"
  cx_claim :: "claim option"
  cx_census :: "census_snapshot option"
  cx_probe :: "u64 option"
  cx_pow_level :: "u32 option"
  cx_probe_census :: "census_snapshot option"
  cx_network_results :: "(string \<times> bool) list"
  cx_rate :: "rate_snapshot option"
  cx_solves :: "rate_snapshot option"
  cx_visit :: "visit_snapshot option"
  cx_poison_returned :: bool
  cx_crawler_verified :: bool
  cx_lease_active :: bool
  cx_trap :: "trap_verdict option"

text \<open>A script value.\<close>

datatype dyn = DUnit | DBool bool | DInt int | DStr string | DMap "(string \<times> dyn) list"

definition dyn_count :: "nat option \<Rightarrow> dyn" where
  "dyn_count v = (case v of None \<Rightarrow> DUnit | Some n \<Rightarrow> DInt (int n))"

definition dyn_text :: "string option \<Rightarrow> dyn" where
  "dyn_text v = (case v of None \<Rightarrow> DUnit | Some s \<Rightarrow> DStr s)"

text \<open>\<open>format!("{probe:016x}")\<close>.\<close>

definition hex16 :: "u64 \<Rightarrow> string" where
  "hex16 n = (let s = show_hex n in replicate (16 - length s) CHR ''0'' @ s)"

definition ctx_scope :: "condition_context \<Rightarrow> (string \<times> dyn) list" where
  "ctx_scope c =
     (let rate = cx_rate c; claim = cx_claim c; census = cx_census c; probe_census = cx_probe_census c; solves = cx_solves c; visit = cx_visit c;
          trap = (case cx_trap c of None \<Rightarrow> \<lparr> tv_reason = None, tv_category = None \<rparr> | Some t \<Rightarrow> t)
      in [(''host'', DStr (cx_host c)), (''method'', DStr (cx_method c)), (''path'', DStr (cx_path c)), (''query'', DStr (cx_query c)),
          (''user_agent'', DStr (cx_user_agent c)), (''remote_address'', DStr (cx_remote_address c)), (''http_version'', DStr (cx_http_version c)),
          (''headers'', DMap (map (\<lambda>(k, v). (k, DStr v)) (cx_headers c))),
          (''fp'', DMap (map (\<lambda>(k, v). (k, DStr v)) (cx_fp c))),
          (''networks'', DMap (map (\<lambda>(k, v). (k, DBool v)) (cx_network_results c))),
          (''rate'', DMap [(''available'', DBool (rate \<noteq> None)), (''1s'', dyn_count (map_option last_1 rate)),
             (''10s'', dyn_count (map_option last_10 rate)), (''60s'', dyn_count (map_option last_60 rate))]),
          (''claim'', DMap [(''browser'', DBool (claim \<noteq> None)), (''family'', dyn_text (map_option (\<lambda>x. family_str (cl_family x)) claim)),
             (''major'', dyn_count (map_option cl_major claim)), (''platform'', dyn_text (map_option (\<lambda>x. platform_str (cl_platform x)) claim)),
             (''mobile'', DBool (case claim of None \<Rightarrow> False | Some x \<Rightarrow> cl_mobile x)), (''stack'', dyn_text (map_option claim_stack claim))]),
          (''census'', DMap [(''available'', DBool (census \<noteq> None)), (''claim_networks'', dyn_count (map_option claim_networks census)),
             (''pair_networks'', dyn_count (map_option pair_networks census)), (''pair_permille'', dyn_count (map_option pair_permille census)),
             (''probe_available'', DBool (probe_census \<noteq> None)), (''probe_networks'', dyn_count (map_option pair_networks probe_census)),
             (''probe_permille'', dyn_count (map_option pair_permille probe_census))]),
          (''probe'', DMap [(''available'', DBool (cx_probe c \<noteq> None)), (''profile'', dyn_text (map_option hex16 (cx_probe c)))]),
          (''pow'', DMap [(''available'', DBool (cx_pow_level c \<noteq> None)), (''level'', dyn_count (cx_pow_level c))]),
          (''solves'', DMap [(''available'', DBool (solves \<noteq> None)), (''10m'', dyn_count (map_option last_10 solves)),
             (''60m'', dyn_count (map_option last_60 solves))]),
          (''visit'', DMap [(''available'', DBool (visit \<noteq> None)), (''rendered'', DBool (case visit of None \<Rightarrow> False | Some v \<Rightarrow> v_rendered v)),
             (''greedy'', DBool (case visit of None \<Rightarrow> False | Some v \<Rightarrow> v_greedy v)), (''documents'', dyn_count (map_option v_documents visit)),
             (''pages'', dyn_count (map_option v_pages visit)), (''assets'', dyn_count (map_option v_assets visit))]),
          (''poison'', DMap [(''returned'', DBool (cx_poison_returned c))]),
          (''lease'', DMap [(''active'', DBool (cx_lease_active c))]),
          (''crawler'', DMap [(''verified'', DBool (cx_crawler_verified c))]),
          (''trap'', DMap ([(''available'', DBool (cx_trap c \<noteq> None)), (''any'', DBool (tv_reason trap \<noteq> None))] @
             map (\<lambda>reason. (reason, DBool (tv_reason trap = Some reason))) [''path'', ''user_agent'', ''impersonator''] @
             [(''category'', dyn_text (tv_category trap))]))])"

definition BINDINGS :: "string list" where
  "BINDINGS = [''host'', ''method'', ''path'', ''query'', ''user_agent'', ''remote_address'', ''http_version'', ''headers'', ''fp'',
     ''networks'', ''rate'', ''claim'', ''census'', ''probe'', ''pow'', ''solves'', ''visit'', ''poison'', ''lease'', ''crawler'', ''trap'']"

text \<open>The request as the handler sees it. A header value that is not text is \<open>None\<close>. The fields of
  the captured TLS and HTTP/2 fingerprints are arguments.\<close>

record request =
  rq_method :: string
  rq_path :: string
  rq_query :: "string option"
  rq_version :: string
  rq_headers :: "(string \<times> string option) list"
  rq_peer :: "(ip_addr \<times> u16) option"
  rq_fp :: "(string \<times> string) list"
  rq_fp_identity :: "string option"
  rq_fp_stack :: "string option"
  rq_http2_status :: string
  rq_http2_fields :: "(string \<times> string) list"

definition header_text :: "request \<Rightarrow> string \<Rightarrow> string option" where
  "header_text r name = (case map_of (rq_headers r) name of None \<Rightarrow> None | Some v \<Rightarrow> v)"

definition put_all :: "('k \<times> 'v) list \<Rightarrow> ('k \<times> 'v) list \<Rightarrow> ('k \<times> 'v) list" where
  "put_all pairs m = fold (\<lambda>(k, v) m. put_entry k v m) pairs m"

definition http_version_text :: "string \<Rightarrow> string" where
  "http_version_text v = (if v \<in> set [''HTTP/0.9'', ''HTTP/1.0'', ''HTTP/1.1'', ''HTTP/2.0'', ''HTTP/3.0''] then v else ''unknown'')"

definition ctx_from_request :: "(ip_addr \<Rightarrow> string) \<Rightarrow> request \<Rightarrow> condition_context" where
  "ctx_from_request show_ip r =
     (let headers = put_all (map (\<lambda>(n, v). (n, case v of None \<Rightarrow> [] | Some t \<Rightarrow> t)) (rq_headers r)) [];
          get = (\<lambda>name. case map_of headers name of None \<Rightarrow> [] | Some v \<Rightarrow> v)
      in \<lparr> cx_host = get ''host'', cx_method = rq_method r, cx_path = rq_path r,
           cx_query = (case rq_query r of None \<Rightarrow> [] | Some q \<Rightarrow> q), cx_user_agent = get ''user-agent'',
           cx_remote_address = (case rq_peer r of None \<Rightarrow> [] | Some (ip, _) \<Rightarrow> show_ip ip),
           cx_remote_ip = map_option fst (rq_peer r), cx_http_version = http_version_text (rq_version r), cx_headers = headers,
           cx_fp = put_all ((''http2_status'', rq_http2_status r) # rq_http2_fields r) (rq_fp r),
           cx_fp_identity = rq_fp_identity r, cx_stack = rq_fp_stack r, cx_claim = claim_parse (get ''user-agent''),
           cx_census = None, cx_probe = None, cx_pow_level = None, cx_probe_census = None, cx_network_results = [], cx_rate = None,
           cx_solves = None, cx_visit = None, cx_poison_returned = False, cx_crawler_verified = False, cx_lease_active = False,
           cx_trap = None \<rparr>)"

definition with_request_headers :: "(string \<times> string) list \<Rightarrow> condition_context \<Rightarrow> condition_context" where
  "with_request_headers headers c =
     (let merged = put_all headers (cx_headers c)
      in c\<lparr> cx_headers := merged,
            cx_user_agent := (case map_of merged ''user-agent'' of None \<Rightarrow> cx_user_agent c | Some ua \<Rightarrow> ua),
            cx_host := (case map_of merged ''host'' of None \<Rightarrow> cx_host c | Some h \<Rightarrow> h) \<rparr>)"

definition compute_network_membership :: "(string \<times> (ip_addr \<Rightarrow> bool)) list \<Rightarrow> condition_context \<Rightarrow> condition_context" where
  "compute_network_membership networks c =
     (case cx_remote_ip c of None \<Rightarrow> c
      | Some ip \<Rightarrow> c\<lparr> cx_network_results := put_all (map (\<lambda>(n, trie). (n, trie ip)) networks) (cx_network_results c) \<rparr>)"

section \<open>Building the context of a request\<close>

text \<open>The per-client tables a request updates, and what the handler reads from elsewhere: the
  networks, the classifier of the daemon, the maze memory and the active leases.\<close>

record client_tables =
  ct_visits :: visit_tracker
  ct_rate :: tracker
  ct_solves :: tracker
  ct_census :: generations

record request_env =
  re_sha256 :: "byte list \<Rightarrow> byte list"
  re_sealing :: sealing
  re_server_key :: "byte list"
  re_show_ip :: "ip_addr \<Rightarrow> string"
  re_networks :: "(string \<times> (ip_addr \<Rightarrow> bool)) list"
  re_classify :: "(request \<Rightarrow> ip_addr \<Rightarrow> trap_verdict) option"
  re_poison_returned :: "string \<Rightarrow> source_network \<Rightarrow> bool"
  re_lease_contains :: "(ip_addr \<Rightarrow> bool) option"
  re_hash :: "rate_key \<Rightarrow> nat"
  re_now :: i64
  re_instant :: nat
  re_second :: u64
  re_minute :: u64

definition max_option :: "nat list \<Rightarrow> nat option" where
  "max_option xs = (if xs = [] then None else Some (fold max xs 0))"

definition token_pow_level :: "i64 \<Rightarrow> token \<Rightarrow> u32 option" where
  "token_pow_level now t =
     max_option (map tc_level (filter (\<lambda>p. tc_ok p \<and> 0 < tc_level p \<and> now < tc_exp p) (map snd (tk_state t))))"

fun latest :: "token_challenge list \<Rightarrow> token_challenge option" where
  "latest [] = None"
| "latest (p # ps) = (case latest ps of None \<Rightarrow> Some p | Some q \<Rightarrow> if tc_iat q < tc_iat p then Some p else Some q)"

definition token_probe :: "token \<Rightarrow> u64 option" where
  "token_probe t =
     map_option (\<lambda>p. from_be_bytes (drop 8 (tc_result p))) (latest (filter (\<lambda>p. tc_ok p \<and> length (tc_result p) = 16) (map snd (tk_state t))))"

definition is_document :: "request \<Rightarrow> bool" where
  "is_document r = (case header_text r ''sec-fetch-dest'' of None \<Rightarrow> True | Some dest \<Rightarrow> dest = ''document'')"

definition note_visit :: "request_env \<Rightarrow> request \<Rightarrow> token option \<Rightarrow> client_tables \<Rightarrow> visit_snapshot option \<times> client_tables" where
  "note_visit E r tok t =
     (case tok of None \<Rightarrow> (None, t)
      | Some k \<Rightarrow> let (v, visits) = visit_record (tk_session k) (is_document r) (re_instant E) (ct_visits t) in (Some v, t\<lparr> ct_visits := visits \<rparr>))"

definition note_pairing :: "request_env \<Rightarrow> claim option \<Rightarrow> string option \<Rightarrow> source_network \<Rightarrow> client_tables \<Rightarrow> census_snapshot option \<times> client_tables" where
  "note_pairing E claim identity network t =
     (case (claim, identity) of
        (Some cl, Some i) \<Rightarrow> let (s, g) = observe (claim_key cl) i network (re_instant E) (ct_census t) in (s, t\<lparr> ct_census := g \<rparr>)
      | _ \<Rightarrow> (None, t))"

definition request_context :: "request_env \<Rightarrow> request \<Rightarrow> string \<Rightarrow> ip_addr option \<Rightarrow> source_network option \<Rightarrow> client_tables \<Rightarrow>
    request_challenge_state \<times> condition_context \<times> client_tables" where
  "request_context E r host client_ip network t =
     (let cookies = List.map_filter (\<lambda>(n, v). if n = ''cookie'' then v else None) (rq_headers r);
          cs = from_headers (re_sha256 E) (re_sealing E) cookies host (re_server_key E) client_ip (re_now E);
          tok = rc_token cs;
          c = (ctx_from_request (re_show_ip E) r)\<lparr> cx_host := host,
                cx_pow_level := (case tok of None \<Rightarrow> None | Some k \<Rightarrow> token_pow_level (re_now E) k),
                cx_probe := (case tok of None \<Rightarrow> None | Some k \<Rightarrow> token_probe k) \<rparr>;
          (visit, t) = note_visit E r tok t;
          c = c\<lparr> cx_visit := visit \<rparr>;
          c = (case client_ip of None \<Rightarrow> c | Some ip \<Rightarrow> c\<lparr> cx_remote_address := re_show_ip E ip, cx_remote_ip := Some ip \<rparr>);
          c = compute_network_membership (re_networks E) c;
          c = (case (re_classify E, client_ip) of (Some classify, Some ip) \<Rightarrow> c\<lparr> cx_trap := Some (classify r ip) \<rparr> | _ \<Rightarrow> c);
          (c, t) = (case network of None \<Rightarrow> (c, t)
            | Some n \<Rightarrow>
                let (rate, tracker) = record_at (re_hash E) (host, n) (re_second E) (ct_rate t);
                    t = t\<lparr> ct_rate := tracker \<rparr>;
                    (census, t) = note_pairing E (cx_claim c) (cx_fp_identity c) n t;
                    (probe_census, t) = note_pairing E (cx_claim c) (map_option (\<lambda>p. ''probe:'' @ hex16 p) (cx_probe c)) n t
                in (c\<lparr> cx_rate := Some rate, cx_solves := Some (peek_at (re_hash E) (host, n) (re_minute E) (ct_solves t)),
                       cx_poison_returned := re_poison_returned E host n, cx_census := census, cx_probe_census := probe_census \<rparr>, t));
          c = (case client_ip of None \<Rightarrow> c
            | Some ip \<Rightarrow> c\<lparr> cx_lease_active := (case re_lease_contains E of None \<Rightarrow> False | Some leases \<Rightarrow> leases ip) \<rparr>)
      in (cs, c, t))"

section \<open>Checking a condition\<close>

text \<open>The nodes of a compiled condition that the check looks at: a variable, a call with its name,
  argument count and whether it is an operator, and a method call.\<close>

datatype ast_node = NVariable string | NCall string nat bool | NMethod string nat bool | NOther

definition KEYWORD_FUNCTIONS :: "string list" where
  "KEYWORD_FUNCTIONS = [''Fn'', ''call'', ''curry'', ''type_of'', ''is_def_fn'', ''is_def_var'', ''is_shared'', ''eval'', ''print'', ''debug'']"

record prelude =
  pl_constants :: "string list"
  pl_functions :: "(string \<times> nat) list"

definition unknown_call :: "prelude \<Rightarrow> string \<Rightarrow> nat \<Rightarrow> bool \<Rightarrow> string option" where
  "unknown_call p name arity operator =
     (if operator \<or> CHR ''$'' \<in> set name \<or> name \<in> set KEYWORD_FUNCTIONS \<or> (name, arity) \<in> set (pl_functions p) then None
      else Some (''unknown function '' @ name @ '' taking '' @ show_nat arity @ '' arguments''))"

fun check_node :: "prelude \<Rightarrow> ast_node \<Rightarrow> string option" where
  "check_node p (NVariable name) = (if name \<in> set BINDINGS \<or> name \<in> set (pl_constants p) then None else Some (''unknown variable '' @ name))"
| "check_node p (NCall name args operator) = unknown_call p name args operator"
| "check_node p (NMethod name args operator) = unknown_call p name (args + 1) operator"
| "check_node p NOther = None"

text \<open>The walk stops at the first problem.\<close>

fun check_ast :: "prelude \<Rightarrow> ast_node list \<Rightarrow> string + unit" where
  "check_ast p [] = Inr ()"
| "check_ast p (n # ns) = (case check_node p n of None \<Rightarrow> check_ast p ns | Some message \<Rightarrow> Inl message)"

text \<open>The name and the parameter count of a signature text. A closing bracket at depth zero that is
  not the parenthesis counts as a parameter's text.\<close>

fun count_params :: "string \<Rightarrow> nat \<Rightarrow> nat \<Rightarrow> bool \<Rightarrow> nat" where
  "count_params [] depth params seen = params + (if seen then 1 else 0)"
| "count_params (c # cs) depth params seen =
     (if c \<in> set ''(<['' then count_params cs (depth + 1) params seen
      else if c \<in> set '')>]'' \<and> 0 < depth then count_params cs (depth - 1) params seen
      else if c = CHR '')'' then params + (if seen then 1 else 0)
      else if c = CHR '','' \<and> depth = 0 then count_params cs depth (params + 1) seen
      else count_params cs depth params (seen \<or> \<not> is_whitespace c))"

definition signature_arity :: "string \<Rightarrow> (string \<times> nat) option" where
  "signature_arity signature = map_option (\<lambda>(name, rest). (name, count_params rest 0 0 False)) (split_once CHR ''('' signature)"

lemma check_ast_Inr_iff: "check_ast p nodes = Inr u \<longleftrightarrow> (\<forall>n \<in> set nodes. check_node p n = None)"
  by (induction p nodes rule: check_ast.induct) (auto split: option.splits)

text \<open>A condition that loads never meets an unbound variable. Every variable the load-time check
  accepts is a constant of the prelude or bound in the scope of every request, and the scope binds
  no name twice.\<close>

theorem checked_variables_bound:
  assumes "check_ast p nodes = Inr ()" "NVariable name \<in> set nodes"
  shows "(name \<in> set (pl_constants p) \<or> (\<exists>v. map_of (ctx_scope c) name = Some v)) \<and> distinct (map fst (ctx_scope c))"
proof -
  have names: "map fst (ctx_scope c) = BINDINGS" by (simp add: ctx_scope_def BINDINGS_def Let_def)
  have "check_node p (NVariable name) = None"
    using assms unfolding check_ast_Inr_iff by blast
  then have "name \<in> set (pl_constants p) \<or> name \<in> set BINDINGS" by (auto split: if_splits)
  moreover have "distinct BINDINGS" by code_simp
  moreover have "\<exists>v. map_of (ctx_scope c) name = Some v" if "name \<in> set BINDINGS"
    using that by (simp add: names [symmetric] map_of_eq_None_iff flip: not_None_eq)
  ultimately show ?thesis by (auto simp: names)
qed

theorem checked_variables_bound_witness:
  "\<exists>v. map_of (ctx_scope (ctx_from_request (\<lambda>_. []) \<lparr> rq_method = ''GET'', rq_path = ''/'', rq_query = None, rq_version = ''HTTP/1.1'', rq_headers = [],
     rq_peer = None, rq_fp = [], rq_fp_identity = None, rq_fp_stack = None, rq_http2_status = ''unavailable'', rq_http2_fields = [] \<rparr>)) ''visit'' = Some v"
proof -
  have "check_ast \<lparr> pl_constants = [], pl_functions = [] \<rparr> [NVariable ''visit'', NOther] = Inr ()" by code_simp
  note bound = checked_variables_bound [OF this, of "''visit''"]
  show ?thesis by (rule bound [THEN conjunct1, simplified prelude.simps list.set empty_iff simp_thms]) simp
qed

end
