(* ===== verification/Rule_Pipeline.thy ===== *)
theory Rule_Pipeline
  imports Rule_Theorems Request_Context
begin

text \<open>
  The decision for a request: evaluation of the rule tree and of challenge actions
  (server/pipeline_evaluate.rs), and the part of \<open>handle_request\<close> (server/pipeline.rs) that scores
  the request, runs the rules, applies an enforced candidate and reports offenses.

  What a page looks like is a parameter: the error page, the challenge page, the embedded widget,
  the page of a maze, a lure and a beacon are texts given by functions of the environment. So are
  the script engine, the regex replacement, the resolver and the random draws. The state holds what
  evaluation changes: the challenge state of the request, the pending challenges, the block-list
  caches, the smear slots and the offenses handed to the defense plane. All steps of one evaluation
  happen at one instant, and metrics and traces are left out.
\<close>

section \<open>Responses\<close>

record proxy_marker =
  pm_backend :: string
  pm_rewritten_path :: "string option"

record response =
  rp_status :: u16
  rp_headers :: header_map
  rp_body :: string
  rp_pass :: bool
  rp_proxy :: "proxy_marker option"
  rp_pending_request :: "header_map option"
  rp_pending_response :: "header_map option"
  rp_terminal :: "(string \<times> string) option"

datatype rule_outcome = Continue | Handled response | DropConnection

definition body_response :: "u16 \<Rightarrow> header_map \<Rightarrow> string \<Rightarrow> response" where
  "body_response code headers text =
     \<lparr> rp_status = code, rp_headers = headers, rp_body = text, rp_pass = False, rp_proxy = None, rp_pending_request = None,
       rp_pending_response = None, rp_terminal = None \<rparr>"

definition body_status :: "u16 \<Rightarrow> response" where
  "body_status code = body_response code [] []"

definition body_html :: "u16 \<Rightarrow> string \<Rightarrow> response" where
  "body_html code page = body_response code [(''content-type'', ''text/html; charset=utf-8'')] page"

definition body_text :: "u16 \<Rightarrow> string \<Rightarrow> response" where
  "body_text code text = body_response code [(''content-type'', ''text/plain; charset=utf-8'')] text"

definition pass_response :: response where
  "pass_response = (body_status 200)\<lparr> rp_pass := True \<rparr>"

text \<open>\<open>StatusCode::from_u16\<close> accepts 100 to 999.\<close>

definition status_or :: "u16 \<Rightarrow> u16 \<Rightarrow> u16" where
  "status_or dflt code = (if 100 \<le> code \<and> code \<le> 999 then code else dflt)"

definition tagged :: "string \<Rightarrow> string \<Rightarrow> rule_outcome \<Rightarrow> rule_outcome" where
  "tagged rule label r =
     (case r of
        Handled resp \<Rightarrow> Handled (if rp_terminal resp = None then resp\<lparr> rp_terminal := Some (rule, label) \<rparr> else resp)
      | other \<Rightarrow> other)"

section \<open>Environment and state\<close>

datatype web_offense_kind = OffDrop | OffSmear | OffTarpit | OffPoisonReturn | OffScore u32 | OffReport string

record web_offense =
  wo_address :: ip_addr
  wo_network :: source_network
  wo_host :: string
  wo_rule :: "string option"
  wo_detail :: string
  wo_kind :: web_offense_kind
  wo_group_key :: "string option"

record 's web_env =
  we_engine :: "'s engine"
  we_scope :: "(string \<times> dyn) list \<Rightarrow> 's"
  we_registry :: registry
  we_sha256 :: "byte list \<Rightarrow> byte list"
  we_key_fingerprint :: "byte list"
  we_revision :: u64
  we_hash :: "rate_key \<Rightarrow> nat"
  we_now :: i64
  we_instant :: nat
  we_second :: u64
  we_session_draw :: "byte list option"
  we_key_draws :: "nat \<Rightarrow> challenge_key option list"
  we_lookup :: "string \<Rightarrow> bool option"
  we_expand :: "string \<Rightarrow> string \<Rightarrow> string \<Rightarrow> string option"
  we_error_page :: "u16 \<Rightarrow> string \<Rightarrow> string \<Rightarrow> string"
  we_challenge_page :: "string \<Rightarrow> challenge_key \<Rightarrow> u32 option \<Rightarrow> string"
  we_embed :: "string \<Rightarrow> challenge_key \<Rightarrow> u32 option \<Rightarrow> string"
  we_maze_page :: "string \<Rightarrow> ip_addr option \<Rightarrow> string option"
  we_smear_page :: "string \<Rightarrow> string \<Rightarrow> string"
  we_lure :: "string \<Rightarrow> ip_addr option \<Rightarrow> string \<Rightarrow> string option"
  we_beacon :: "byte list \<Rightarrow> string"
  we_offense_source :: bool

record web_state =
  ws_challenge :: request_challenge_state
  ws_pending :: pending_challenges
  ws_issues :: nat
  ws_dnsbl :: "(string \<times> (ip_addr, bool) decay_map) list"
  ws_smear_slots :: nat
  ws_offenses :: "web_offense list"

record rule_eval =
  ev_ctx :: condition_context
  ev_host :: string
  ev_path :: string
  ev_uri :: string
  ev_user_agent :: string
  ev_headers :: header_map

section \<open>The outcomes of plain actions\<close>

definition error_response :: "'s web_env \<Rightarrow> u16 \<Rightarrow> string \<Rightarrow> string \<Rightarrow> rule_outcome" where
  "error_response E code title message = Handled (body_html (status_or 403 code) (we_error_page E code title message))"

definition deny_response :: "'s web_env \<Rightarrow> u16 \<Rightarrow> rule_outcome" where
  "deny_response E code = error_response E code ''Access Denied'' ''Your request has been denied.''"

definition block_response :: "'s web_env \<Rightarrow> u16 \<Rightarrow> rule_outcome" where
  "block_response E code = error_response E code ''Blocked'' ''Your request has been blocked.''"

definition proxy_outcome :: "'s web_env \<Rightarrow> string option \<Rightarrow> string \<Rightarrow> string \<Rightarrow> string \<Rightarrow> rule_outcome" where
  "proxy_outcome E match_re rewrite backend path =
     Handled ((body_status 200)\<lparr> rp_proxy := Some \<lparr> pm_backend = backend,
       pm_rewritten_path = (case match_re of None \<Rightarrow> None | Some re \<Rightarrow> we_expand E re path rewrite) \<rparr> \<rparr>)"

definition tarpit_response :: "'s web_env \<Rightarrow> string \<Rightarrow> ip_addr option \<Rightarrow> response" where
  "tarpit_response E maze client_ip =
     (case we_maze_page E maze client_ip of
        None \<Rightarrow> body_text 503 (''service unavailable'' @ [CHR 0x0A])
      | Some html \<Rightarrow>
          body_response 200 [(''content-type'', ''text/html; charset=utf-8''), (''cache-control'', ''no-store''),
            (''referrer-policy'', ''no-referrer''), (''content-length'', show_nat (length html))] html)"

text \<open>The slot is held until the response has been sent.\<close>

definition smear_response :: "'s web_env \<Rightarrow> rule_eval \<Rightarrow> web_state \<Rightarrow> rule_outcome \<times> web_state" where
  "smear_response E ev s =
     (if ws_smear_slots s = 0 then (DropConnection, s)
      else (Handled (body_html 200 (we_smear_page E (ev_path ev) (ev_user_agent ev))), s\<lparr> ws_smear_slots := ws_smear_slots s - 1 \<rparr>))"

definition emit_offense :: "'s web_env \<Rightarrow> ip_addr option \<Rightarrow> string \<Rightarrow> string option \<Rightarrow> string \<Rightarrow> web_offense_kind \<Rightarrow> string option \<Rightarrow> web_state \<Rightarrow> web_state" where
  "emit_offense E client_ip host rule detail kind group_key s =
     (case client_ip of None \<Rightarrow> s
      | Some ip \<Rightarrow>
          if we_offense_source E
          then s\<lparr> ws_offenses := ws_offenses s @ [\<lparr> wo_address = ip, wo_network = from_ip ip, wo_host = host, wo_rule = rule, wo_detail = detail, wo_kind = kind, wo_group_key = group_key \<rparr>] \<rparr>
          else s)"

definition dispatch_sub_action :: "'s web_env \<Rightarrow> rule_eval \<Rightarrow> rule_action \<Rightarrow> web_state \<Rightarrow> rule_outcome \<times> web_state" where
  "dispatch_sub_action E ev act s =
     (case act of
        ActTarpit maze \<Rightarrow> (Handled (tarpit_response E maze (cx_remote_ip (ev_ctx ev))), s)
      | ActDeny code \<Rightarrow> (deny_response E code, s)
      | ActBlock code \<Rightarrow> (block_response E code, s)
      | ActDrop \<Rightarrow> (DropConnection, s)
      | ActSmear \<Rightarrow> smear_response E ev s
      | _ \<Rightarrow> (Handled pass_response, s))"

section \<open>Challenge actions\<close>

definition demanded_level :: "challenge_action \<Rightarrow> challenge_registration \<Rightarrow> u32" where
  "demanded_level ca r =
     (case cr_runtime r of RPow pow _ \<Rightarrow> (case ca_difficulty ca of None \<Rightarrow> pw_difficulty pow | Some d \<Rightarrow> d) | _ \<Rightarrow> 0)"

definition challenge_passed :: "'s web_env \<Rightarrow> rule_eval \<Rightarrow> challenge_action \<Rightarrow> string \<Rightarrow> challenge_registration \<Rightarrow> web_state \<Rightarrow> bool" where
  "challenge_passed E ev ca name r s =
     already_passed (we_sha256 E) (we_key_fingerprint E) name (cx_remote_ip (ev_ctx ev)) (int (max_duration r)) (demanded_level ca r)
       (cx_stack (ev_ctx ev)) (we_now E) (ws_challenge s)"

definition bucket_key :: "'s web_env \<Rightarrow> rule_eval \<Rightarrow> string \<Rightarrow> challenge_registration \<Rightarrow> challenge_key" where
  "bucket_key E ev name r =
     derive_challenge_key (we_sha256 E) name (cx_remote_ip (ev_ctx ev)) (bucket_expiry (we_now E) (int (max_duration r))) (we_key_fingerprint E)"

fun issue_error_status :: "issue_error \<Rightarrow> u16" where
  "issue_error_status Limited = 429"
| "issue_error_status Full = 503"
| "issue_error_status Random = 500"

text \<open>The key a challenge is issued under: the key of the bucket for a lookup, which nobody redeems,
  and otherwise a fresh key of the pending table. Durations of the pending table are in nanoseconds.\<close>

definition issue_key :: "'s web_env \<Rightarrow> rule_eval \<Rightarrow> challenge_action \<Rightarrow> string \<Rightarrow> challenge_registration \<Rightarrow> web_state \<Rightarrow>
    ((response + challenge_key) \<times> web_state) option" where
  "issue_key E ev ca name r s =
     (if runtime_redemption (cr_runtime r) = RedeemNone then Some (Inr (bucket_key E ev name r), s)
      else case cx_remote_ip (ev_ctx ev) of None \<Rightarrow> Some (Inl (body_status 400), s)
      | Some address \<Rightarrow>
          (case ensure_session (cr_duration r) (we_now E) (we_session_draw E) (ws_challenge s) of
             Inl _ \<Rightarrow> Some (Inl (body_status 500), s)
           | Inr (session, cs) \<Rightarrow>
               let s = s\<lparr> ws_challenge := cs, ws_issues := ws_issues s + 1 \<rparr>;
                   args = \<lparr> ia_binding = challenge_binding_new (we_sha256 E) session (ev_host ev) address name (as_bytes (ev_user_agent ev)) (we_revision E),
                            ia_pass_key = bucket_key E ev name r, ia_level = demanded_level ca r,
                            ia_gpu_level = (case cr_runtime r of RPow pow _ \<Rightarrow> gpu_level pow (demanded_level ca r) | _ \<Rightarrow> None),
                            ia_duration = cr_duration r * 1000000000 \<rparr>
               in map_option (\<lambda>(result, pending).
                      (case result of Inl err \<Rightarrow> Inl (body_status (issue_error_status err)) | Inr key \<Rightarrow> Inr key, s\<lparr> ws_pending := pending \<rparr>))
                    (issue (we_hash E) args (we_second E) (we_instant E) (we_key_draws E (ws_issues s)) (ws_pending s))))"

text \<open>The page or redirect of a blocking challenge.\<close>

definition challenge_response :: "'s web_env \<Rightarrow> rule_eval \<Rightarrow> challenge_action \<Rightarrow> string \<Rightarrow> challenge_key \<Rightarrow> challenge_runtime \<Rightarrow> response" where
  "challenge_response E ev ca name key runtime =
     (let verify = verify_url name (hex_encode key) (ev_uri ev);
          no_cache = (''cache-control'', ''no-cache, no-store, must-revalidate'');
          page = (\<lambda>extra. body_response (status_or 418 (ca_http_code ca))
                    ([(''content-type'', ''text/html; charset=utf-8''), no_cache] @ extra) (we_challenge_page E name key (ca_difficulty ca)))
      in case runtime of
           RCookie \<Rightarrow> body_response 307 [(''location'', verify), no_cache] []
         | RRefresh RefreshHeader \<Rightarrow> page [(''refresh'', ''0; url='' @ verify)]
         | _ \<Rightarrow> page [])"

definition dnsbl_cache :: "dnsbl_challenge \<Rightarrow> string \<Rightarrow> web_state \<Rightarrow> (ip_addr, bool) decay_map" where
  "dnsbl_cache d name s = (case map_of (ws_dnsbl s) name of None \<Rightarrow> decay_new (dn_ttl d * 1000000000) | Some c \<Rightarrow> c)"

text \<open>One challenge of the action. \<open>Some outcome\<close> ends the action with that outcome, \<open>None\<close> goes on
  with the next challenge. No result at all means that the generator never draws a fresh key.\<close>

definition challenge_step :: "'s web_env \<Rightarrow> rule_eval \<Rightarrow> challenge_action \<Rightarrow> bool \<Rightarrow> string \<Rightarrow> web_state \<Rightarrow>
    (rule_outcome option \<times> web_state) option" where
  "challenge_step E ev ca check name s =
     (case map_of (we_registry E) name of None \<Rightarrow> Some (None, s)
      | Some r \<Rightarrow>
          if challenge_passed E ev ca name r s then Some (None, s)
          else
            case issue_key E ev ca name r s of None \<Rightarrow> None
            | Some (Inl resp, s) \<Rightarrow> Some (Some (Handled resp), s)
            | Some (Inr key, s) \<Rightarrow>
                if check \<and> supports_background (cr_runtime r) then
                  Some (None, s\<lparr> ws_challenge := (ws_challenge s)\<lparr> rc_injections := rc_injections (ws_challenge s) @ [we_embed E name key (ca_difficulty ca)] \<rparr> \<rparr>)
                else
                  case cr_runtime r of
                    RDnsbl d \<Rightarrow>
                      (let (result, cache) = dnsbl_issue (we_lookup E) (dn_host d) (cx_remote_ip (ev_ctx ev)) (we_instant E) (dnsbl_cache d name s);
                           s = s\<lparr> ws_dnsbl := put_entry name cache (ws_dnsbl s) \<rparr>
                       in case result of
                            DnsblPassed \<Rightarrow>
                              (case issue_challenge name (bucket_key E ev name r) (cr_duration r) (we_now E) (we_session_draw E) (ws_challenge s) of
                                 Inl _ \<Rightarrow> Some (Some (Handled (body_status 500)), s)
                               | Inr cs \<Rightarrow> Some (None, s\<lparr> ws_challenge := cs \<rparr>))
                          | DnsblFailed \<Rightarrow>
                              if check then Some (None, s)
                              else (let (outcome, s) = dispatch_sub_action E ev (ca_fail_action ca) s in Some (Some outcome, s))
                          | DnsblSkip \<Rightarrow> Some (None, s))
                  | runtime \<Rightarrow>
                      if check then Some (None, s) else Some (Some (Handled (challenge_response E ev ca name key runtime)), s))"

fun challenge_loop :: "'s web_env \<Rightarrow> rule_eval \<Rightarrow> challenge_action \<Rightarrow> bool \<Rightarrow> string list \<Rightarrow> web_state \<Rightarrow>
    (rule_outcome option \<times> web_state) option" where
  "challenge_loop E ev ca check [] s = Some (None, s)"
| "challenge_loop E ev ca check (name # names) s =
     (case challenge_step E ev ca check name s of
        None \<Rightarrow> None
      | Some (Some outcome, s) \<Rightarrow> Some (Some outcome, s)
      | Some (None, s) \<Rightarrow> challenge_loop E ev ca check names s)"

definition evaluate_challenge_action :: "'s web_env \<Rightarrow> rule_eval \<Rightarrow> challenge_action \<Rightarrow> bool \<Rightarrow> web_state \<Rightarrow> (rule_outcome \<times> web_state) option" where
  "evaluate_challenge_action E ev ca check s =
     map_option (\<lambda>(stop, s).
         case stop of
           Some outcome \<Rightarrow> (outcome, s)
         | None \<Rightarrow> if check then (Continue, s) else dispatch_sub_action E ev (ca_pass_action ca) s)
       (challenge_loop E ev ca check (ca_challenges ca) s)"

definition apply_candidate_action :: "'s web_env \<Rightarrow> rule_eval \<Rightarrow> rule_action \<Rightarrow> web_state \<Rightarrow> (rule_outcome \<times> web_state) option" where
  "apply_candidate_action E ev act s =
     (case act of
        ActProxy match_re rewrite backend \<Rightarrow> Some (proxy_outcome E match_re rewrite backend (ev_path ev), s)
      | ActChallenge ca \<Rightarrow> evaluate_challenge_action E ev ca False s
      | ActTarpit maze \<Rightarrow> Some (Handled (tarpit_response E maze (cx_remote_ip (ev_ctx ev))), s)
      | ActReport _ \<Rightarrow> Some (Continue, s)
      | ActLure _ \<Rightarrow> Some (Continue, s)
      | ActBeacon \<Rightarrow> Some (Continue, s)
      | other \<Rightarrow> Some (dispatch_sub_action E ev other s))"

section \<open>The rule tree\<close>

definition add_injection :: "string option \<Rightarrow> web_state \<Rightarrow> web_state" where
  "add_injection fragment s =
     (case fragment of None \<Rightarrow> s
      | Some f \<Rightarrow> s\<lparr> ws_challenge := (ws_challenge s)\<lparr> rc_injections := rc_injections (ws_challenge s) @ [f] \<rparr> \<rparr>)"

definition insert_all :: "header_map \<Rightarrow> header_map \<Rightarrow> header_map" where
  "insert_all new hs = fold (\<lambda>(n, v) hs. header_insert n v hs) new hs"

text \<open>What an enclosing context rule adds to a response on its way out.\<close>

definition with_pending :: "(header_map \<times> header_map) option \<Rightarrow> response \<Rightarrow> response" where
  "with_pending pending resp =
     (case pending of None \<Rightarrow> resp
      | Some (request_headers, response_headers) \<Rightarrow>
          if rp_pass resp \<or> rp_proxy resp \<noteq> None then
            resp\<lparr> rp_pending_request := (case rp_pending_request resp of None \<Rightarrow> Some request_headers | Some h \<Rightarrow> Some h),
                  rp_pending_response := Some (insert_all response_headers (case rp_pending_response resp of None \<Rightarrow> [] | Some h \<Rightarrow> h)) \<rparr>
          else resp\<lparr> rp_headers := insert_all response_headers (rp_headers resp) \<rparr>)"

definition beacon_injection :: "'s web_env \<Rightarrow> rule_eval \<Rightarrow> web_state \<Rightarrow> string option" where
  "beacon_injection E ev s =
     (case rc_token (ws_challenge s) of None \<Rightarrow> None
      | Some t \<Rightarrow> if (case cx_visit (ev_ctx ev) of None \<Rightarrow> False | Some v \<Rightarrow> v_rendered v) then None else Some (we_beacon E (tk_session t)))"

definition context_eval :: "header_map \<Rightarrow> rule_eval \<Rightarrow> rule_eval" where
  "context_eval request_headers ev =
     ev\<lparr> ev_ctx := with_request_headers request_headers (ev_ctx ev), ev_headers := insert_all request_headers (ev_headers ev) \<rparr>"

type_synonym 's eval_result = "(rule_outcome \<times> 's \<times> web_state) option"

definition keep_scope :: "'s \<Rightarrow> (rule_outcome \<times> web_state) option \<Rightarrow> 's eval_result" where
  "keep_scope scope r = map_option (\<lambda>(outcome, s). (outcome, scope, s)) r"

function evaluate_rule_recursive :: "'s web_env \<Rightarrow> rule_eval \<Rightarrow> rule_state \<Rightarrow> 's \<Rightarrow> web_state \<Rightarrow> 's eval_result"
  and eval_children :: "'s web_env \<Rightarrow> rule_eval \<Rightarrow> (header_map \<times> header_map) option \<Rightarrow> rule_state list \<Rightarrow> 's \<Rightarrow> web_state \<Rightarrow> 's eval_result" where
  "evaluate_rule_recursive E ev (RuleState name condition act children) scope s =
     (let (hit, scope) = (case condition of None \<Rightarrow> (True, scope) | Some ast \<Rightarrow> (let (r, scope) = we_engine E scope ast in (r = Some True, scope))) in
      if \<not> hit then Some (Continue, scope, s)
      else
        case act of
          ActNone \<Rightarrow> eval_children E ev None children scope s
        | ActPass \<Rightarrow> Some (tagged name ''pass'' (Handled pass_response), scope, s)
        | ActDeny code \<Rightarrow> Some (tagged name ''deny'' (deny_response E code), scope, s)
        | ActBlock code \<Rightarrow> Some (tagged name ''block'' (block_response E code), scope, s)
        | ActCode code \<Rightarrow> Some (tagged name ''code'' (Handled (body_status (status_or 403 code))), scope, s)
        | ActDrop \<Rightarrow> Some (DropConnection, scope, s)
        | ActTarpit maze \<Rightarrow> Some (tagged name ''tarpit'' (Handled (tarpit_response E maze (cx_remote_ip (ev_ctx ev)))), scope, s)
        | ActSmear \<Rightarrow> (let (outcome, s) = smear_response E ev s in Some (tagged name ''smear'' outcome, scope, s))
        | ActLure maze \<Rightarrow> Some (Continue, scope, add_injection (we_lure E maze (cx_remote_ip (ev_ctx ev)) (ev_path ev)) s)
        | ActBeacon \<Rightarrow> Some (Continue, scope, add_injection (beacon_injection E ev s) s)
        | ActReport kind \<Rightarrow>
            Some (Continue, scope, emit_offense E (cx_remote_ip (ev_ctx ev)) (ev_host ev) (Some name) name (OffReport kind)
              (repository_key (ev_host ev) (ev_path ev)) s)
        | ActContext response_headers request_headers \<Rightarrow>
            (let child = context_eval request_headers ev in
             map_option (\<lambda>(outcome, _, s). (outcome, scope, s))
               (eval_children E child (Some (ev_headers child, response_headers)) children (we_scope E (ctx_scope (ev_ctx child))) s))
        | ActProxy match_re rewrite backend \<Rightarrow> Some (tagged name ''proxy'' (proxy_outcome E match_re rewrite backend (ev_path ev)), scope, s)
        | ActChallenge ca \<Rightarrow>
            keep_scope scope (map_option (\<lambda>(outcome, s). (tagged name ''challenge'' outcome, s)) (evaluate_challenge_action E ev ca False s))
        | ActCheck ca \<Rightarrow>
            keep_scope scope (map_option (\<lambda>(outcome, s). (tagged name ''check'' outcome, s)) (evaluate_challenge_action E ev ca True s)))"
| "eval_children E ev pending [] scope s = Some (Continue, scope, s)"
| "eval_children E ev pending (rule # rules) scope s =
     (case evaluate_rule_recursive E ev rule scope s of
        None \<Rightarrow> None
      | Some (Continue, scope, s) \<Rightarrow> eval_children E ev pending rules scope s
      | Some (DropConnection, scope, s) \<Rightarrow> Some (DropConnection, scope, s)
      | Some (Handled resp, scope, s) \<Rightarrow> Some (Handled (with_pending pending resp), scope, s))"
  by pat_completeness auto

termination
  by (relation "measure (case_sum (\<lambda>(E, ev, rule, scope, s). size rule) (\<lambda>(E, ev, pending, rules, scope, s). size_list size rules))") auto

section \<open>The decision\<close>

datatype terminal = TNone | THandled response | TDropped "string option"

fun run_rules :: "'s web_env \<Rightarrow> rule_eval \<Rightarrow> rule_state list \<Rightarrow> 's \<Rightarrow> web_state \<Rightarrow> (terminal \<times> 's \<times> web_state) option" where
  "run_rules E ev [] scope s = Some (TNone, scope, s)"
| "run_rules E ev (rule # rules) scope s =
     (case evaluate_rule_recursive E ev rule scope s of
        None \<Rightarrow> None
      | Some (Continue, scope, s) \<Rightarrow> run_rules E ev rules scope s
      | Some (Handled resp, scope, s) \<Rightarrow> Some (THandled resp, scope, s)
      | Some (DropConnection, scope, s) \<Rightarrow> Some (TDropped (Some (rl_name rule)), scope, s))"

definition terminal_rule :: "terminal \<Rightarrow> string option \<times> string option" where
  "terminal_rule t =
     (case t of
        TNone \<Rightarrow> (None, None)
      | THandled resp \<Rightarrow> (case rp_terminal resp of None \<Rightarrow> (None, None) | Some (rule, act) \<Rightarrow> (Some rule, Some act))
      | TDropped rule \<Rightarrow> (rule, Some ''drop''))"

definition candidate_status :: "score_result option \<Rightarrow> terminal \<Rightarrow> string" where
  "candidate_status score t =
     (case score of
        None \<Rightarrow> ''no_scorecard''
      | Some r \<Rightarrow>
          (case sr_candidate r of
             None \<Rightarrow> ''no_candidate''
           | Some _ \<Rightarrow>
               if t \<noteq> TNone then ''suppressed_by_rule''
               else case cd_mode (sr_scorecard r) of Observe \<Rightarrow> ''observed'' | Enforce \<Rightarrow> ''applied''))"

definition effective_action :: "terminal \<Rightarrow> string option \<Rightarrow> string option \<Rightarrow> string" where
  "effective_action t candidate_kind rule_action =
     (case t of
        TDropped _ \<Rightarrow> ''drop''
      | TNone \<Rightarrow> ''proxy''
      | THandled resp \<Rightarrow>
          if rp_pass resp then ''pass''
          else if rp_proxy resp \<noteq> None then ''proxy''
          else case candidate_kind of
                 Some kind \<Rightarrow> kind
               | None \<Rightarrow> (case rule_action of None \<Rightarrow> ''unknown'' | Some a \<Rightarrow> a))"

definition offense_kind_of :: "string \<Rightarrow> web_offense_kind option" where
  "offense_kind_of act =
     (if act = ''drop'' then Some OffDrop else if act = ''smear'' then Some OffSmear else if act = ''tarpit'' then Some OffTarpit else None)"

record decision =
  de_terminal :: terminal
  de_status :: string
  de_effective :: string
  de_score :: "score_result option"

definition apply_candidate :: "'s web_env \<Rightarrow> rule_eval \<Rightarrow> score_result option \<Rightarrow> string \<Rightarrow> terminal \<Rightarrow> web_state \<Rightarrow> (terminal \<times> web_state) option" where
  "apply_candidate E ev score status t s =
     (case (if status = ''applied'' then Option.bind score sr_candidate else None) of
        None \<Rightarrow> Some (t, s)
      | Some threshold \<Rightarrow>
          map_option (\<lambda>(outcome, s).
              (case outcome of Continue \<Rightarrow> t | Handled resp \<Rightarrow> THandled resp | DropConnection \<Rightarrow> TDropped None, s))
            (apply_candidate_action E ev (th_action threshold) s))"

definition report_decision :: "'s web_env \<Rightarrow> rule_eval \<Rightarrow> score_result option \<Rightarrow> string \<Rightarrow> string option \<Rightarrow> string \<Rightarrow> web_state \<Rightarrow> web_state" where
  "report_decision E ev score status rule effective s =
     (case offense_kind_of effective of None \<Rightarrow> s
      | Some kind \<Rightarrow>
          (case (if status = ''applied'' then score else None) of
             None \<Rightarrow> emit_offense E (cx_remote_ip (ev_ctx ev)) (ev_host ev) rule effective kind None s
           | Some r \<Rightarrow> emit_offense E (cx_remote_ip (ev_ctx ev)) (ev_host ev) (Some (cd_name (sr_scorecard r))) effective (OffScore (sr_score r)) None s))"

definition decide :: "'s web_env \<Rightarrow> rule_eval \<Rightarrow> scoring_state option \<Rightarrow> rule_state list \<Rightarrow> web_state \<Rightarrow> (decision \<times> web_state) option" where
  "decide E ev scoring rules s =
     (let scope = we_scope E (ctx_scope (ev_ctx ev));
          (score, scope) = (case scoring of None \<Rightarrow> (None, scope) | Some S \<Rightarrow> scoring_evaluate (we_engine E) S scope)
      in case run_rules E ev rules scope s of None \<Rightarrow> None
         | Some (t, _, s) \<Rightarrow>
             let (rule, rule_action) = terminal_rule t;
                 status = candidate_status score t;
                 kind = (if status = ''applied'' then map_option th_kind (Option.bind score sr_candidate) else None)
             in map_option (\<lambda>(t, s).
                    let effective = effective_action t kind rule_action
                    in (\<lparr> de_terminal = t, de_status = status, de_effective = effective, de_score = score \<rparr>,
                        report_decision E ev score status rule effective s))
                  (apply_candidate E ev score status t s))"

end
