(* ===== verification/Pipeline_Theorems.thy ===== *)
theory Pipeline_Theorems
  imports Rule_Pipeline
begin

text \<open>
  What the decision for a request guarantees: a challenge action lets a request through only with
  its blocking challenges passed, scores never overrule a rule and observe without enforcing,
  context headers reach the response, and evaluation always ends.
\<close>

section \<open>The challenge gate\<close>

text \<open>The pass a request carries for a challenge. It is all that the check of a pass reads.\<close>

definition pass_entry :: "request_challenge_state \<Rightarrow> string \<Rightarrow> token_challenge option" where
  "pass_entry c name = (case rc_token c of None \<Rightarrow> None | Some t \<Rightarrow> map_of (tk_state t) name)"

lemma is_challenge_passed_entry:
  "pass_entry c name = pass_entry c' name \<Longrightarrow> is_challenge_passed name key level stack now c = is_challenge_passed name key level stack now c'"
  by (auto simp: is_challenge_passed_def pass_entry_def split: option.splits)

lemma challenge_passed_entry:
  "pass_entry (ws_challenge s) name = pass_entry (ws_challenge s') name \<Longrightarrow> challenge_passed E ev ca name r s = challenge_passed E ev ca name r s'"
  by (simp add: challenge_passed_def already_passed_def Let_def is_challenge_passed_entry [of "ws_challenge s" name "ws_challenge s'"])

lemma ensure_session_entry: "ensure_session d now draw c = Inr (session, c') \<Longrightarrow> pass_entry c' name = pass_entry c name"
  by (auto simp: ensure_session_def pass_entry_def Let_def split: option.splits if_splits)

lemma issue_challenge_entry:
  "issue_challenge name key d now draw c = Inr c' \<Longrightarrow> name' \<noteq> name \<Longrightarrow> pass_entry c' name' = pass_entry c name'"
proof -
  assume issue: "issue_challenge name key d now draw c = Inr c'" and ne: "name' \<noteq> name"
  from issue obtain session c1 where c1: "ensure_session d now draw c = Inr (session, c1)"
    by (auto simp: issue_challenge_def result_simps)
  with issue ne have "pass_entry c' name' = pass_entry c1 name'"
    by (auto simp: issue_challenge_def pass_entry_def Let_def map_of_put_entry split: option.splits)
  with ensure_session_entry [OF c1] show ?thesis by simp
qed

lemma issue_key_entry:
  "issue_key E ev ca name r s = Some (k, s') \<Longrightarrow> pass_entry (ws_challenge s') n = pass_entry (ws_challenge s) n"
  by (auto simp: issue_key_def Let_def ensure_session_entry split: if_splits option.splits sum.splits)

lemma dispatch_keeps_challenge: "dispatch_sub_action E ev act s = (outcome, s') \<Longrightarrow> ws_challenge s' = ws_challenge s"
  by (cases act) (auto simp: dispatch_sub_action_def smear_response_def split: if_splits)

definition is_dnsbl :: "challenge_runtime \<Rightarrow> bool" where
  "is_dnsbl rt \<longleftrightarrow> (\<exists>d. rt = RDnsbl d)"

text \<open>An action that keeps a request from the backend.\<close>

fun withholds :: "rule_action \<Rightarrow> bool" where
  "withholds (ActTarpit _) = True"
| "withholds (ActDeny _) = True"
| "withholds (ActBlock _) = True"
| "withholds ActDrop = True"
| "withholds ActSmear = True"
| "withholds _ = False"

lemma body_response_plain [simp]:
  "rp_pass (body_response code hs t) = False" "rp_proxy (body_response code hs t) = None"
  "rp_pass (body_status code) = False" "rp_pass (body_html code t) = False" "rp_pass (body_text code t) = False"
  by (simp_all add: body_response_def body_status_def body_html_def body_text_def)

lemma dispatch_withholds: "withholds act \<Longrightarrow> dispatch_sub_action E ev act s = (Handled resp, s') \<Longrightarrow> \<not> rp_pass resp"
  by (cases act) (auto simp: dispatch_sub_action_def smear_response_def deny_response_def block_response_def error_response_def
      tarpit_response_def split: if_splits option.splits)

lemma issue_key_refusal: "issue_key E ev ca name r s = Some (Inl resp, s') \<Longrightarrow> \<not> rp_pass resp"
  by (auto simp: issue_key_def Let_def split: if_splits option.splits sum.splits)

lemma challenge_response_withholds: "\<not> rp_pass (challenge_response E ev ca name key rt)"
  by (simp add: challenge_response_def Let_def split: challenge_runtime.splits refresh_mode.splits)

lemma challenge_step_stop:
  assumes "challenge_step E ev ca False name s = Some (Some (Handled resp), s')" "withholds (ca_fail_action ca)"
  shows "\<not> rp_pass resp"
  using assms(1)
  by (auto simp: challenge_step_def Let_def challenge_response_withholds dest: issue_key_refusal dispatch_withholds [OF assms(2)] split: option.splits if_splits sum.splits prod.splits challenge_runtime.splits
      dnsbl_result.splits)

lemma challenge_step_goes_on:
  assumes "challenge_step E ev ca False name s = Some (None, s')" "map_of (we_registry E) name = Some r" "\<not> is_dnsbl (cr_runtime r)"
  shows "challenge_passed E ev ca name r s"
  using assms by (auto simp: challenge_step_def is_dnsbl_def split: option.splits if_splits sum.splits challenge_runtime.splits)

lemma challenge_step_entry:
  assumes "challenge_step E ev ca check name s = Some (stop, s')" "map_of (we_registry E) n = Some r" "\<not> is_dnsbl (cr_runtime r)"
  shows "pass_entry (ws_challenge s') n = pass_entry (ws_challenge s) n"
proof -
  have "pass_entry (ws_challenge s') n = pass_entry (ws_challenge s1) n"
    if "map_of (we_registry E) name = Some r1" "issue_key E ev ca name r1 s = Some (Inr key, s1)" "\<not> challenge_passed E ev ca name r1 s" for r1 key s1
  proof (cases "check \<and> supports_background (cr_runtime r1)")
    case True
    with assms(1) that show ?thesis by (auto simp: challenge_step_def pass_entry_def)
  next
    case False
    show ?thesis
    proof (cases "cr_runtime r1")
      case (RDnsbl d)
      then have ne: "n \<noteq> name" using assms(2,3) that(1) by (auto simp: is_dnsbl_def)
      from assms(1) that False RDnsbl show ?thesis
        by (auto simp: challenge_step_def Let_def issue_challenge_entry [OF _ ne] dest: dispatch_keeps_challenge
            split: prod.splits dnsbl_result.splits sum.splits if_splits)
    qed (use assms(1) that False in \<open>auto simp: challenge_step_def split: if_splits\<close>)
  qed
  with assms(1) show ?thesis
    by (auto simp: challenge_step_def issue_key_entry split: option.splits if_splits sum.splits)
qed

lemma challenge_loop_gate:
  assumes "challenge_loop E ev ca False names s = Some (None, s')" "name \<in> set names"
    and "map_of (we_registry E) name = Some r" "\<not> is_dnsbl (cr_runtime r)"
  shows "challenge_passed E ev ca name r s"
  using assms(1,2)
proof (induction names arbitrary: s)
  case (Cons n names)
  from Cons.prems(1) obtain s1 where step: "challenge_step E ev ca False n s = Some (None, s1)"
    and rest: "challenge_loop E ev ca False names s1 = Some (None, s')"
    by (auto split: option.splits)
  show ?case
  proof (cases "n = name")
    case True
    with challenge_step_goes_on [OF step] assms(3,4) show ?thesis by simp
  next
    case False
    with Cons.IH [OF rest] Cons.prems(2) challenge_passed_entry [OF challenge_step_entry [OF step assms(3,4)], of E ev ca r] show ?thesis by simp
  qed
qed simp

lemma challenge_loop_stop:
  assumes "challenge_loop E ev ca False names s = Some (Some (Handled resp), s')" "withholds (ca_fail_action ca)"
  shows "\<not> rp_pass resp"
  using assms(1)
proof (induction names arbitrary: s)
  case (Cons n names)
  from Cons.prems show ?case
    using Cons.IH challenge_step_stop [OF _ assms(2), of E ev n s resp s'] by (auto split: option.splits)
qed simp

text \<open>C3. A challenge action is a gate. When it passes a request on to the backend, the request already
  held, for every proof of work, cookie or refresh challenge the action names, a pass for that
  challenge at the demanded level, unexpired, from this client's network and TLS stack, under the
  key of the current bucket or the one before. The fail action must not itself pass requests on.\<close>

theorem challenge_gate:
  assumes "evaluate_challenge_action E ev ca False s = Some (Handled resp, s')" "rp_pass resp" "withholds (ca_fail_action ca)"
    and "name \<in> set (ca_challenges ca)" "map_of (we_registry E) name = Some r" "\<forall>d. cr_runtime r \<noteq> RDnsbl d"
  shows "\<exists>key expiry t tc. rc_token (ws_challenge s) = Some t \<and> map_of (tk_state t) name = Some tc \<and> tc_ok tc \<and> we_now E < tc_exp tc \<and>
    demanded_level ca r \<le> tc_level tc \<and> (tc_stack tc = [] \<or> stack_matches (tc_stack tc) (cx_stack (ev_ctx ev))) \<and> tc_key tc = key \<and>
    key = derive_challenge_key (we_sha256 E) name (cx_remote_ip (ev_ctx ev)) expiry (we_key_fingerprint E) \<and>
    (expiry = bucket_expiry (we_now E) (int (max_duration r)) \<or> expiry = bucket_expiry (we_now E) (int (max_duration r)) - int (max_duration r))"
proof -
  from assms(1) obtain stop s1 where loop: "challenge_loop E ev ca False (ca_challenges ca) s = Some (stop, s1)"
    and out: "(case stop of Some outcome \<Rightarrow> (outcome, s1) | None \<Rightarrow> dispatch_sub_action E ev (ca_pass_action ca) s1) = (Handled resp, s')"
    by (auto simp: evaluate_challenge_action_def cong: option.case_cong)
  have "stop = None"
    using out loop challenge_loop_stop [of E ev ca "ca_challenges ca" s resp s'] assms(2,3) by (cases stop) auto
  with challenge_loop_gate [of E ev ca "ca_challenges ca" s s1 name r] loop assms(4-6) have "challenge_passed E ev ca name r s"
    by (simp add: is_dnsbl_def)
  then show ?thesis
    by (auto simp: challenge_passed_def already_passed_def Let_def is_challenge_passed_def split: option.splits)
qed

section \<open>Scores and rules\<close>

lemma find_card_scope:
  assumes "\<forall>scope ast. snd (eng scope ast) = scope"
  shows "snd (find_card eng scards scope) = scope"
proof (induction scards)
  case (Cons c cs)
  then show ?case using assms by (auto simp: split_beta split: option.splits)
qed simp

lemma run_signals_scope:
  assumes "\<forall>scope ast. snd (eng scope ast) = scope"
  shows "snd (run_signals eng sigs score matched errors scope) = scope"
proof (induction sigs arbitrary: score matched errors)
  case (Cons g sigs)
  obtain r where r: "eng scope (sg_condition g) = (r, scope)" using assms by (metis prod.collapse)
  show ?case using Cons by (auto simp: r split: option.splits bool.splits)
qed simp

lemma scoring_evaluate_scope:
  assumes "\<forall>scope ast. snd (eng scope ast) = scope"
  shows "snd (scoring_evaluate eng S scope) = scope"
proof -
  obtain c where c: "find_card eng (sc_scorecards S) scope = (c, scope)"
    using find_card_scope [OF assms] by (metis prod.collapse)
  show ?thesis
  proof (cases c)
    case (Some card)
    obtain x where "run_signals eng (cd_signals card) 0 [] [] scope = (x, scope)"
      using run_signals_scope [OF assms] by (metis prod.collapse)
    with c Some show ?thesis by (simp add: scoring_evaluate_def split: prod.splits)
  qed (simp add: scoring_evaluate_def c)
qed

lemma decide_terminal:
  assumes "\<forall>scope ast. snd (we_engine E scope ast) = scope"
    and "decide E ev None rules s = Some (d0, s0)"
    and "fst (scoring_evaluate (we_engine E) S (we_scope E (ctx_scope (ev_ctx ev)))) = score"
    and "candidate_status score (de_terminal d0) \<noteq> ''applied''"
  shows "decide E ev (Some S) rules s = Some (d0\<lparr> de_status := candidate_status score (de_terminal d0), de_score := score \<rparr>, s0)"
proof -
  let ?scope = "we_scope E (ctx_scope (ev_ctx ev))"
  have eval: "scoring_evaluate (we_engine E) S ?scope = (score, ?scope)"
    using scoring_evaluate_scope [OF assms(1)] assms(3) by (metis prod.collapse)
  from assms(2) obtain t sc s1 where run: "run_rules E ev rules ?scope s = Some (t, sc, s1)"
    and d0: "d0 = \<lparr> de_terminal = t, de_status = ''no_scorecard'', de_effective = effective_action t None (snd (terminal_rule t)), de_score = None \<rparr>"
    and s0: "s0 = report_decision E ev None ''no_scorecard'' (fst (terminal_rule t)) (de_effective d0) s1"
    by (auto simp: decide_def candidate_status_def apply_candidate_def Let_def split: option.splits prod.splits)
  have status: "candidate_status score t \<noteq> ''applied''" using assms(4) d0 by simp
  have "report_decision E ev score (candidate_status score t) rule eff s1 = report_decision E ev None ''no_scorecard'' rule eff s1" for rule eff
    using status by (simp add: report_decision_def)
  with eval run d0 s0 status show ?thesis
    by (simp add: decide_def apply_candidate_def Let_def split: prod.splits)
qed

text \<open>Scoring never overrules a rule, and a scorecard in observe mode never acts. Compared with the
  same policy without scoring, when a rule has decided the request, or when the scorecards only
  observe, the request gets the same terminal outcome and effective action, and leaves the same
  state and the same offenses behind. Conditions are assumed not to change the scope they run in.\<close>

theorem scoring_is_advisory:
  assumes "\<forall>scope ast. snd (we_engine E scope ast) = scope"
    and "decide E ev None rules s = Some (d0, s0)"
    and "de_terminal d0 \<noteq> TNone \<or> (\<forall>c \<in> set (sc_scorecards S). cd_mode c = Observe)"
  shows "\<exists>d. decide E ev (Some S) rules s = Some (d, s0) \<and> de_terminal d = de_terminal d0 \<and> de_effective d = de_effective d0 \<and> de_status d \<noteq> ''applied''"
proof -
  let ?scope = "we_scope E (ctx_scope (ev_ctx ev))"
  obtain score scope' where score: "scoring_evaluate (we_engine E) S ?scope = (score, scope')" by fastforce
  have "candidate_status score (de_terminal d0) \<noteq> ''applied''"
  proof (cases score)
    case (Some r)
    with score have "sr_scorecard r \<in> set (sc_scorecards S)"
      by (auto simp: scoring_evaluate_def find_card_member split: prod.splits option.splits)
    with assms(3) Some show ?thesis by (auto simp: candidate_status_def split: option.splits score_mode.splits)
  qed (simp add: candidate_status_def)
  with decide_terminal [OF assms(1,2), of S score] score show ?thesis by auto
qed

text \<open>C40. A threshold with the action \<open>code\<close> lets the request through. When such a threshold of an
  enforcing scorecard is applied, the request is passed to the backend and counted as passed, not
  answered with the configured status.\<close>

theorem code_threshold_passes:
  assumes "decide E ev (Some S) rules s = Some (d, s')" "de_status d = ''applied''"
    and "de_score d = Some r" "sr_candidate r = Some t" "th_action t = ActCode code"
  shows "de_terminal d = THandled pass_response \<and> de_effective d = ''pass'' \<and> rp_pass pass_response"
proof -
  have pass: "rp_pass pass_response" by (simp add: pass_response_def)
  from assms pass show ?thesis
    by (auto simp: decide_def Let_def apply_candidate_def apply_candidate_action_def dispatch_sub_action_def effective_action_def
        split: prod.splits option.splits)
qed

section \<open>Context rules\<close>

lemma header_insert_lookup: "map_of (header_insert n v hs) m = (if m = n then Some v else map_of hs m)"
proof -
  have "map_of (filter (\<lambda>(k, _). k \<noteq> n) hs) m = (if m = n then None else map_of hs m)"
    by (induction hs) auto
  then show ?thesis by (auto simp: header_insert_def map_add_def split: option.splits)
qed

lemma insert_all_lookup: "map_of (insert_all new hs) m = (case map_of (rev new) m of Some v \<Rightarrow> Some v | None \<Rightarrow> map_of hs m)"
proof -
  have "map_of (fold (\<lambda>(n, v) hs. header_insert n v hs) new hs) m = (map_of hs ++ map_of (rev new)) m"
    by (induction new arbitrary: hs) (auto simp: header_insert_lookup map_add_def split: option.splits)
  then show ?thesis by (simp add: insert_all_def map_add_def)
qed

lemma eval_children_pending:
  "eval_children E ev pending rules scope s = Some (Handled resp, scope', s') \<Longrightarrow> \<exists>resp0. resp = with_pending pending resp0"
  by (induction rules arbitrary: scope s) (auto split: option.splits rule_outcome.splits)

text \<open>The response headers of a context rule reach the client. When a rule below a context rule
  decides the request, every configured response header is on the response, or, when the request is
  proxied, among the headers to set on the response of the backend, with the value configured last;
  a proxied request also carries the request headers of the context.\<close>

theorem context_headers_applied:
  assumes "evaluate_rule_recursive E ev (RuleState name condition (ActContext response_headers request_headers) children) scope s = Some (Handled resp, scope', s')"
    and "map_of (rev response_headers) n = Some v"
  shows "if rp_pass resp \<or> rp_proxy resp \<noteq> None
    then rp_pending_request resp \<noteq> None \<and> (\<exists>h. rp_pending_response resp = Some h \<and> map_of h n = Some v)
    else map_of (rp_headers resp) n = Some v"
proof -
  let ?child = "context_eval request_headers ev"
  from assms(1) obtain scope1 where
    "eval_children E ?child (Some (ev_headers ?child, response_headers)) children (we_scope E (ctx_scope (ev_ctx ?child))) s = Some (Handled resp, scope1, s')"
    by (auto simp: Let_def split: prod.splits if_splits option.splits)
  from eval_children_pending [OF this] obtain resp0 where "resp = with_pending (Some (ev_headers ?child, response_headers)) resp0" ..
  with assms(2) show ?thesis by (auto simp: with_pending_def insert_all_lookup split: option.splits)
qed

section \<open>Evaluation ends\<close>

text \<open>Among the draws made for an issuance, one fails or differs from any fewer keys than the pending
  table can hold.\<close>

definition fresh_draws :: "'s web_env \<Rightarrow> bool" where
  "fresh_draws E \<longleftrightarrow> (\<forall>i ks. length ks < CAPACITY \<longrightarrow> (\<exists>d \<in> set (we_key_draws E i). d = None \<or> (\<exists>key. d = Some key \<and> key \<notin> set ks)))"

lemma table_issue_total:
  assumes "fresh_draws E"
  shows "\<exists>r t'. table_issue a now (we_key_draws E i) t = Some (r, t')"
proof -
  let ?t = "table_expire now t"
  show ?thesis
  proof (cases "CAPACITY \<le> length (pt_challenges ?t)")
    case False
    with assms have "\<exists>d \<in> set (we_key_draws E i). d = None \<or> (\<exists>key. d = Some key \<and> key \<notin> set (map fst (pt_challenges ?t)))"
      unfolding fresh_draws_def by (metis length_map not_le)
    then have "\<exists>d \<in> set (we_key_draws E i). d = None \<or> (\<exists>key. d = Some key \<and> map_of (pt_challenges ?t) key = None)"
      by (simp add: map_of_eq_None_iff)
    from draw_key_ends [OF this] show ?thesis using False by (auto simp: table_issue_def Let_def split: sum.splits)
  qed (simp add: table_issue_def Let_def)
qed

lemma issue_key_total:
  assumes "fresh_draws E"
  shows "\<exists>k s'. issue_key E ev ca name r s = Some (k, s')"
proof -
  have "\<exists>x p'. issue hash a tick now (we_key_draws E i) p = Some (x, p')" for hash a tick now i p
    using table_issue_total [OF assms, of a now i "pend_table p"] by (auto simp: issue_def Let_def split: prod.splits)
  then have "issue hash a tick now (we_key_draws E i) p \<noteq> None" for hash a tick now i p by auto
  then show ?thesis by (auto simp: issue_key_def Let_def split: option.splits sum.splits prod.splits)
qed

lemma challenge_step_total:
  assumes "fresh_draws E"
  shows "\<exists>x s'. challenge_step E ev ca check name s = Some (x, s')"
proof (cases "map_of (we_registry E) name")
  case (Some r)
  obtain k s1 where "issue_key E ev ca name r s = Some (k, s1)" using issue_key_total [OF assms] by blast
  with Some show ?thesis
    by (auto simp: challenge_step_def Let_def split: sum.splits challenge_runtime.splits prod.splits dnsbl_result.splits)
qed (simp add: challenge_step_def)

lemma evaluate_challenge_total:
  assumes "fresh_draws E"
  shows "\<exists>x s'. evaluate_challenge_action E ev ca check s = Some (x, s')"
proof -
  have "\<exists>x s'. challenge_loop E ev ca check names s = Some (x, s')" for names s
  proof (induction names arbitrary: s)
    case (Cons n names)
    obtain x s1 where "challenge_step E ev ca check n s = Some (x, s1)" using challenge_step_total [OF assms] by blast
    with Cons show ?case by (cases x) auto
  qed simp
  then obtain x s1 where "challenge_loop E ev ca check (ca_challenges ca) s = Some (x, s1)" by blast
  then show ?thesis by (auto simp: evaluate_challenge_action_def split: option.splits prod.splits)
qed

lemma evaluate_rule_total:
  assumes "fresh_draws E"
  shows "evaluate_rule_recursive E ev rule scope s \<noteq> None" "eval_children E ev pending rules scope s \<noteq> None"
  using assms
proof (induction E ev rule scope s and E ev pending rules scope s rule: evaluate_rule_recursive_eval_children.induct)
  case (1 E ev name condition act children scope s)
  have challenge: "evaluate_challenge_action E ev ca check s \<noteq> None" for ca check
    using evaluate_challenge_total [OF "1.prems"] by (metis option.discI)
  obtain hit scope1 where hit: "(case condition of None \<Rightarrow> (True, scope) | Some ast \<Rightarrow> (let (r, scope) = we_engine E scope ast in (r = Some True, scope))) = (hit, scope1)"
    by fastforce
  show ?case
  proof (cases hit)
    case True
    with 1 hit challenge show ?thesis by (cases act) (auto simp: keep_scope_def Let_def [of "context_eval _ _"] split: prod.splits)
  qed (simp add: hit)
next
  case (3 E ev pending rule rules scope s)
  then show ?case by (auto split: option.splits rule_outcome.splits)
qed simp

lemma run_rules_total: "fresh_draws E \<Longrightarrow> run_rules E ev rules scope s \<noteq> None"
proof (induction rules arbitrary: scope s)
  case (Cons rule rules)
  then show ?case using evaluate_rule_total(1) [of E ev rule scope s] by (auto split: option.splits rule_outcome.splits)
qed simp


section \<open>A request\<close>

definition ex_web_env :: "unit web_env" where
  "ex_web_env = \<lparr> we_engine = ex_engine, we_scope = (\<lambda>_. ()), we_registry = cp_challenges ex_web_policy, we_sha256 = (\<lambda>m. m), we_key_fingerprint = [1],
     we_revision = 7, we_hash = (\<lambda>_. 0), we_now = 100, we_instant = 0, we_second = 100, we_session_draw = Some (replicate 32 5),
     we_key_draws = (\<lambda>_. map (\<lambda>n. Some (le_bytes 8 n)) [0..<CAPACITY]), we_lookup = (\<lambda>_. None), we_expand = (\<lambda>_ _ _. None),
     we_error_page = (\<lambda>_ title _. title), we_challenge_page = (\<lambda>name _ _. name), we_embed = (\<lambda>name _ _. name), we_maze_page = (\<lambda>_ _. None),
     we_smear_page = (\<lambda>_ _. []), we_lure = (\<lambda>_ _ _. None), we_beacon = (\<lambda>_. []), we_offense_source = True \<rparr>"

definition ex_request :: request where
  "ex_request = \<lparr> rq_method = ''GET'', rq_path = ''/'', rq_query = None, rq_version = ''HTTP/1.1'', rq_headers = [], rq_peer = Some (V4 1, 443), rq_fp = [],
     rq_fp_identity = None, rq_fp_stack = None, rq_http2_status = ''unavailable'', rq_http2_fields = [] \<rparr>"

definition ex_eval :: rule_eval where
  "ex_eval = \<lparr> ev_ctx = ctx_from_request (\<lambda>_. []) ex_request, ev_host = ''a.example'', ev_path = ''/'', ev_uri = ''/'', ev_user_agent = ''unknown'', ev_headers = [] \<rparr>"

definition ex_registration :: challenge_registration where
  "ex_registration = \<lparr> cr_class = Blocking, cr_duration = 60, cr_gpu_duration = None, cr_runtime = RCookie \<rparr>"

definition ex_ca :: challenge_action where
  "ex_ca = ChallengeAction [''c''] 451 None ActPass (ActDeny 403)"

definition ex_pass :: token_challenge where
  "ex_pass = \<lparr> tc_key = bucket_key ex_web_env ex_eval ''c'' ex_registration, tc_result = [], tc_level = 0, tc_stack = [], tc_ok = True, tc_exp = 500,
     tc_nbf = 90, tc_iat = 90 \<rparr>"

definition ex_ws :: web_state where
  "ex_ws = \<lparr> ws_challenge = rc_empty\<lparr> rc_token := Some (example_token\<lparr> tk_pending := False, tk_state := [(''c'', ex_pass)] \<rparr>) \<rparr>,
     ws_pending = \<lparr> pend_table = \<lparr> pt_challenges = [], pt_expiries = [] \<rparr>, pend_issuance = tracker_new 1024, pend_verification = tracker_new 1024,
       pend_slots = 4 \<rparr>,
     ws_issues = 0, ws_dnsbl = [], ws_smear_slots = 2, ws_offenses = [] \<rparr>"

definition ex_scoring_state :: scoring_state where
  "ex_scoring_state = \<lparr> sc_rate_capacity = 65536, sc_scorecards = [ex_scorecard] \<rparr>"

definition ex_deny :: rule_state where
  "ex_deny = RuleState ''d'' None (ActDeny 403) []"

lemma ex_registered: "map_of (we_registry ex_web_env) ''c'' = Some ex_registration"
  by (simp add: ex_web_env_def ex_web_policy_def ex_registration_def)

lemma ex_passed: "challenge_passed ex_web_env ex_eval ex_ca ''c'' ex_registration ex_ws"
proof -
  have "demanded_level ex_ca ex_registration = 0" by (simp add: demanded_level_def ex_registration_def)
  moreover have "we_now ex_web_env = 100" by (simp add: ex_web_env_def)
  ultimately show ?thesis
    by (simp add: challenge_passed_def already_passed_def is_challenge_passed_def ex_ws_def ex_pass_def bucket_key_def Let_def rc_empty_def)
qed

theorem challenge_gate_witness:
  "evaluate_challenge_action ex_web_env ex_eval ex_ca False ex_ws = Some (Handled pass_response, ex_ws) \<and>
   (\<exists>t tc. rc_token (ws_challenge ex_ws) = Some t \<and> map_of (tk_state t) ''c'' = Some tc \<and> we_now ex_web_env < tc_exp tc)"
proof -
  have run: "evaluate_challenge_action ex_web_env ex_eval ex_ca False ex_ws = Some (Handled pass_response, ex_ws)"
    using ex_registered ex_passed by (simp add: evaluate_challenge_action_def challenge_step_def ex_ca_def dispatch_sub_action_def)
  have pass: "rp_pass pass_response" by (simp add: pass_response_def)
  have "\<exists>key expiry t tc. rc_token (ws_challenge ex_ws) = Some t \<and> map_of (tk_state t) ''c'' = Some tc \<and> tc_ok tc \<and> we_now ex_web_env < tc_exp tc \<and>
    demanded_level ex_ca ex_registration \<le> tc_level tc \<and> (tc_stack tc = [] \<or> stack_matches (tc_stack tc) (cx_stack (ev_ctx ex_eval))) \<and> tc_key tc = key \<and>
    key = derive_challenge_key (we_sha256 ex_web_env) ''c'' (cx_remote_ip (ev_ctx ex_eval)) expiry (we_key_fingerprint ex_web_env) \<and>
    (expiry = bucket_expiry (we_now ex_web_env) (int (max_duration ex_registration)) \<or>
     expiry = bucket_expiry (we_now ex_web_env) (int (max_duration ex_registration)) - int (max_duration ex_registration))"
    by (rule challenge_gate [OF run pass _ _ ex_registered]) (simp_all add: ex_ca_def ex_registration_def)
  with run show ?thesis by blast
qed

lemma ex_denied:
  "run_rules ex_web_env ex_eval [ex_deny] () ex_ws =
    Some (THandled ((body_html 403 ''Access Denied'')\<lparr> rp_terminal := Some (''d'', ''deny'') \<rparr>), (), ex_ws)"
  by (simp add: ex_deny_def tagged_def deny_response_def error_response_def status_or_def body_html_def body_response_def ex_web_env_def)

theorem scoring_is_advisory_witness:
  "\<exists>d. decide ex_web_env ex_eval (Some ex_scoring_state) [ex_deny] ex_ws = Some (d, ex_ws) \<and> de_effective d = ''deny''"
proof -
  let ?t = "THandled ((body_html 403 ''Access Denied'')\<lparr> rp_terminal := Some (''d'', ''deny'') \<rparr>)"
  let ?d = "\<lparr> de_terminal = ?t, de_status = ''no_scorecard'', de_effective = ''deny'', de_score = None \<rparr>"
  have "decide ex_web_env ex_eval None [ex_deny] ex_ws = Some (?d, ex_ws)"
    using ex_denied by (simp add: decide_def Let_def terminal_rule_def candidate_status_def apply_candidate_def effective_action_def
        report_decision_def offense_kind_of_def body_html_def body_response_def del: run_rules.simps)
  from scoring_is_advisory [OF _ this, of ex_scoring_state] show ?thesis by (auto simp: ex_web_env_def ex_engine_def)
qed

lemma ex_score:
  "scoring_evaluate ex_engine ex_scoring_state scope =
    (Some \<lparr> sr_scorecard = ex_scorecard, sr_score = 60, sr_matched = [''a''], sr_errors = [], sr_candidate = Some (hd ex_thresholds) \<rparr>, scope)"
  by (simp add: scoring_evaluate_def ex_scoring_state_def ex_scorecard_def ex_engine_def candidate_of_def ex_thresholds_def sat_add32_def width_simps)

theorem code_threshold_passes_witness:
  "\<exists>d s'. decide ex_web_env ex_eval (Some ex_scoring_state) [] ex_ws = Some (d, s') \<and> de_terminal d = THandled pass_response \<and> de_effective d = ''pass''"
proof -
  have eng: "we_engine ex_web_env = ex_engine" by (simp add: ex_web_env_def)
  have act: "th_action (hd ex_thresholds) = ActCode 451" "cd_mode ex_scorecard = Enforce" by (simp_all add: ex_thresholds_def ex_scorecard_def)
  obtain d s' where d: "decide ex_web_env ex_eval (Some ex_scoring_state) [] ex_ws = Some (d, s')" "de_status d = ''applied''"
    "de_score d = Some \<lparr> sr_scorecard = ex_scorecard, sr_score = 60, sr_matched = [''a''], sr_errors = [], sr_candidate = Some (hd ex_thresholds) \<rparr>"
    by (simp add: decide_def eng ex_score terminal_rule_def candidate_status_def act apply_candidate_def apply_candidate_action_def
        dispatch_sub_action_def Let_def)
  from code_threshold_passes [OF d, of "hd ex_thresholds" 451] act d(1) show ?thesis by auto
qed

theorem context_headers_applied_witness:
  "\<exists>resp. evaluate_rule_recursive ex_web_env ex_eval (RuleState ''k'' None (ActContext [(''x-a'', ''1'')] []) [ex_deny]) () ex_ws = Some (Handled resp, (), ex_ws) \<and>
     map_of (rp_headers resp) ''x-a'' = Some ''1''"
proof -
  let ?resp = "(body_response 403 [(''content-type'', ''text/html; charset=utf-8''), (''x-a'', ''1'')] ''Access Denied'')\<lparr> rp_terminal := Some (''d'', ''deny'') \<rparr>"
  have run: "evaluate_rule_recursive ex_web_env ex_eval (RuleState ''k'' None (ActContext [(''x-a'', ''1'')] []) [ex_deny]) () ex_ws = Some (Handled ?resp, (), ex_ws)"
    by (simp add: ex_deny_def tagged_def deny_response_def error_response_def status_or_def body_html_def body_response_def ex_web_env_def
        with_pending_def insert_all_def header_insert_def Let_def)
  from context_headers_applied [OF run, of "''x-a''" "''1''"] run show ?thesis by (intro exI [of _ ?resp]) (simp add: body_response_def)
qed


end
