(* ===== verification/Client_Address.thy ===== *)
theory Client_Address
  imports Challenge_State
begin

text \<open>
  Who a request comes from and which host it asks for: canonical hosts (host.rs), the trusted-proxy
  policy (bagel-proto/src/realip.rs), the client address of a request (\<open>client_ip\<close> of state.rs) and
  the PROXY protocol headers written to backends (bagel-proto/src/proxy_protocol.rs).

  Addresses of version 4 are parsed and printed here; the text form of version 6 is a parameter.
\<close>

section \<open>Addresses as text\<close>

record v6_text =
  v6_parse :: "string \<Rightarrow> 128 word option"
  v6_show :: "128 word \<Rightarrow> string"

text \<open>An octet has one to three digits and no leading zero.\<close>

definition parse_octet :: "string \<Rightarrow> byte option" where
  "parse_octet s =
     (if s \<noteq> [] \<and> length s \<le> 3 \<and> list_all is_digit s \<and> (hd s = CHR ''0'' \<longrightarrow> length s = 1) \<and> digits_value s \<le> 255
      then Some (of_nat (digits_value s)) else None)"

definition parse_ipv4 :: "string \<Rightarrow> 32 word option" where
  "parse_ipv4 s =
     (case map parse_octet (split_on CHR ''.'' s) of
        [Some a, Some b, Some c, Some d] \<Rightarrow> Some (of_nat (from_be_bytes [a, b, c, d]))
      | _ \<Rightarrow> None)"

definition show_ipv4 :: "32 word \<Rightarrow> string" where
  "show_ipv4 w = join_with ''.'' (map (\<lambda>b. show_nat (unat b)) (octets4 w))"

definition parse_ip :: "v6_text \<Rightarrow> string \<Rightarrow> ip_addr option" where
  "parse_ip T s = (case parse_ipv4 s of Some w \<Rightarrow> Some (V4 w) | None \<Rightarrow> map_option V6 (v6_parse T s))"

fun show_ip :: "v6_text \<Rightarrow> ip_addr \<Rightarrow> string" where
  "show_ip T (V4 w) = show_ipv4 w"
| "show_ip T (V6 w) = v6_show T w"

section \<open>Canonical hosts\<close>

record canonical_host =
  ch_text :: string
  ch_ip :: "ip_addr option"

definition host_from_ip :: "v6_text \<Rightarrow> ip_addr \<Rightarrow> canonical_host" where
  "host_from_ip T ip = \<lparr> ch_text = show_ip T ip, ch_ip = Some ip \<rparr>"

definition is_host_ip :: "canonical_host \<Rightarrow> bool" where
  "is_host_ip h \<longleftrightarrow> ch_ip h \<noteq> None"

definition host_char :: "char \<Rightarrow> bool" where
  "host_char c \<longleftrightarrow> is_lower c \<or> is_digit c \<or> c = CHR ''-'' \<or> c = CHR ''_''"

definition is_valid_dns_name :: "string \<Rightarrow> bool" where
  "is_valid_dns_name name \<longleftrightarrow>
     name \<noteq> [] \<and> length name \<le> 253 \<and>
     list_all (\<lambda>label. label \<noteq> [] \<and> length label \<le> 63 \<and> list_all host_char label) (split_on CHR ''.'' name)"

definition validate_port :: "string \<Rightarrow> string + unit" where
  "validate_port port = fail_if (port = [] \<or> parse_unsigned u16_max port = None) (''invalid port '' @ port)"

definition is_ascii :: "string \<Rightarrow> bool" where
  "is_ascii s \<longleftrightarrow> list_all (\<lambda>c. code_of c < 128) s"

definition parse_bracketed :: "v6_text \<Rightarrow> string \<Rightarrow> string + canonical_host" where
  "parse_bracketed T rest =
     rbind (ok_or ''unterminated IPv6 literal'' (split_once CHR '']'' rest)) (\<lambda>(literal, tail).
     rbind (if tail = [] then Inr ()
            else rbind (ok_or ''malformed authority after IPv6 literal'' (strip_prefix '':'' tail)) validate_port) (\<lambda>_.
     rbind (fail_if (CHR ''%'' \<in> set literal) ''scoped IPv6 zone identifiers are not allowed'') (\<lambda>_.
     rbind (ok_or ''invalid IPv6 literal'' (v6_parse T literal)) (\<lambda>w. Inr (host_from_ip T (V6 w))))))"

definition parse_name :: "v6_text \<Rightarrow> string \<Rightarrow> string + canonical_host" where
  "parse_name T host =
     rbind (fail_if (host = []) ''empty host'') (\<lambda>_.
       case parse_ipv4 host of
         Some w \<Rightarrow> Inr (host_from_ip T (V4 w))
       | None \<Rightarrow>
           rbind (fail_if (\<not> is_ascii host) ''non-ASCII host, expected the punycode A-label form'') (\<lambda>_.
             let lower = to_lowercase host; name = (case strip_suffix ''.'' lower of None \<Rightarrow> lower | Some s \<Rightarrow> s)
             in rbind (fail_if (\<not> is_valid_dns_name name) ''invalid DNS host'') (\<lambda>_. Inr \<lparr> ch_text = name, ch_ip = None \<rparr>)))"

definition canonical_parse :: "v6_text \<Rightarrow> string \<Rightarrow> string + canonical_host" where
  "canonical_parse T authority =
     rbind (fail_if (CHR ''@'' \<in> set authority) ''authority must not contain user information'') (\<lambda>_.
       case strip_prefix ''['' authority of
         Some rest \<Rightarrow> parse_bracketed T rest
       | None \<Rightarrow>
           rbind (case split_once CHR '':'' authority of
                    Some (host, port) \<Rightarrow>
                      rbind (fail_if (CHR '':'' \<in> set port) ''IPv6 literals require brackets'') (\<lambda>_.
                      rbind (validate_port port) (\<lambda>_. Inr host))
                  | None \<Rightarrow> Inr authority) (parse_name T))"

definition canonicalize_authority :: "v6_text \<Rightarrow> string option \<Rightarrow> string option \<Rightarrow> string + canonical_host" where
  "canonicalize_authority T uri header =
     (case (uri, header) of
        (Some uri, Some header) \<Rightarrow>
          rbind (canonical_parse T uri) (\<lambda>from_uri.
          rbind (canonical_parse T header) (\<lambda>from_header.
            if from_uri \<noteq> from_header then Inl ''URI authority and Host header disagree'' else Inr from_uri))
      | (Some authority, None) \<Rightarrow> canonical_parse T authority
      | (None, Some authority) \<Rightarrow> canonical_parse T authority
      | (None, None) \<Rightarrow> Inl ''no usable authority'')"

section \<open>The client address\<close>

text \<open>The networks are those of the IP library, as in the defense plane.\<close>

definition trusted_new :: "(string \<Rightarrow> 'net option) \<Rightarrow> string list \<Rightarrow> 'net list result" where
  "trusted_new parse cidrs = collect_results (\<lambda>s. ok_or (Network ''invalid network'') (parse s)) cidrs"

definition trusted_contains :: "('net \<Rightarrow> ip_addr \<Rightarrow> bool) \<Rightarrow> 'net list \<Rightarrow> ip_addr \<Rightarrow> bool" where
  "trusted_contains contains nets ip = list_ex (\<lambda>net. contains net ip) nets"

fun peel_loop :: "v6_text \<Rightarrow> (ip_addr \<Rightarrow> bool) \<Rightarrow> string list \<Rightarrow> ip_addr option \<Rightarrow> ip_addr \<Rightarrow> ip_addr" where
  "peel_loop T trusts [] first_valid peer = (case first_valid of None \<Rightarrow> peer | Some ip \<Rightarrow> ip)"
| "peel_loop T trusts (entry # entries) first_valid peer =
     (case parse_ip T (trim entry) of
        None \<Rightarrow> peel_loop T trusts entries first_valid peer
      | Some ip \<Rightarrow>
          if \<not> trusts ip then ip
          else peel_loop T trusts entries (case first_valid of None \<Rightarrow> Some ip | Some f \<Rightarrow> Some f) peer)"

definition peel :: "v6_text \<Rightarrow> (ip_addr \<Rightarrow> bool) \<Rightarrow> ip_addr \<Rightarrow> string option \<Rightarrow> ip_addr" where
  "peel T trusts peer forwarded_for =
     (case forwarded_for of None \<Rightarrow> peer
      | Some header \<Rightarrow> peel_loop T trusts (rev (split_on CHR '','' header)) None peer)"

definition trusted_client_ip :: "v6_text \<Rightarrow> (ip_addr \<Rightarrow> bool) \<Rightarrow> ip_addr \<Rightarrow> string option \<Rightarrow> ip_addr" where
  "trusted_client_ip T trusts peer forwarded_for = (if \<not> trusts peer then peer else peel T trusts peer forwarded_for)"

record client_ip_policy =
  cip_header :: "string option"
  cip_trusted :: "(ip_addr \<Rightarrow> bool) option"

definition policy_new :: "(string \<Rightarrow> 'net option) \<Rightarrow> ('net \<Rightarrow> ip_addr \<Rightarrow> bool) \<Rightarrow> string option \<Rightarrow> string list option \<Rightarrow> client_ip_policy result" where
  "policy_new parse contains header trusted =
     rbind (transpose_option (map_option (trusted_new parse) trusted)) (\<lambda>nets.
       Inr \<lparr> cip_header = header, cip_trusted = map_option (trusted_contains contains) nets \<rparr>)"

definition policy_trusts :: "client_ip_policy \<Rightarrow> ip_addr \<Rightarrow> bool" where
  "policy_trusts p peer = (case cip_trusted p of None \<Rightarrow> False | Some trusts \<Rightarrow> trusts peer)"

definition policy_resolve :: "v6_text \<Rightarrow> client_ip_policy \<Rightarrow> ip_addr \<Rightarrow> string option \<Rightarrow> ip_addr" where
  "policy_resolve T p peer header_value =
     (case (cip_header p, cip_trusted p) of
        (Some _, Some trusts) \<Rightarrow> trusted_client_ip T trusts peer header_value
      | _ \<Rightarrow> peer)"

text \<open>The source a PROXY header gave the connection, the socket peer, and the request headers, a value
  that is not text being \<open>None\<close>.\<close>

definition client_ip :: "v6_text \<Rightarrow> client_ip_policy \<Rightarrow> ip_addr option \<Rightarrow> ip_addr \<Rightarrow> (string \<times> string option) list \<Rightarrow> ip_addr" where
  "client_ip T p proxied peer headers =
     (case proxied of Some source \<Rightarrow> source
      | None \<Rightarrow>
          (case cip_header p of None \<Rightarrow> policy_resolve T p peer None
           | Some name \<Rightarrow>
               let joined = join_with '', '' (List.map_filter (\<lambda>(n, v). if n = name then v else None) headers)
               in policy_resolve T p peer (if joined = [] then None else Some joined)))"

section \<open>PROXY protocol headers\<close>

definition build_v1 :: "v6_text \<Rightarrow> ip_addr \<times> u16 \<Rightarrow> ip_addr \<times> u16 \<Rightarrow> string" where
  "build_v1 T src dst =
     (let crlf = [CHR 0x0D, CHR 0x0A];
          line = (\<lambda>proto. ''PROXY '' @ proto @ '' '' @ show_ip T (fst src) @ '' '' @ show_ip T (fst dst) @ '' '' @ show_nat (snd src) @ '' '' @ show_nat (snd dst) @ crlf)
      in case (is_ipv4 (fst src), is_ipv4 (fst dst)) of
           (True, True) \<Rightarrow> line ''TCP4''
         | (False, False) \<Rightarrow> line ''TCP6''
         | _ \<Rightarrow> ''PROXY UNKNOWN'' @ crlf)"

definition V2_SIGNATURE :: "byte list" where
  "V2_SIGNATURE = [0x0D, 0x0A, 0x0D, 0x0A, 0x00, 0x0D, 0x0A, 0x51, 0x55, 0x49, 0x54, 0x0A]"

definition build_v2 :: "ip_addr \<times> u16 \<Rightarrow> ip_addr \<times> u16 \<Rightarrow> byte list" where
  "build_v2 src dst =
     V2_SIGNATURE @
     (case (fst src, fst dst) of
        (V4 s, V4 d) \<Rightarrow> [0x21, 0x11] @ be_bytes 2 12 @ octets4 s @ octets4 d @ be_bytes 2 (snd src) @ be_bytes 2 (snd dst)
      | (V6 s, V6 d) \<Rightarrow> [0x21, 0x21] @ be_bytes 2 36 @ octets6 s @ octets6 d @ be_bytes 2 (snd src) @ be_bytes 2 (snd dst)
      | _ \<Rightarrow> [0x20, 0x00] @ be_bytes 2 0)"

datatype proxy_parsed = Complete "(ip_addr \<times> u16) option" usize | Incomplete | NotProxy

definition READ_CAP :: usize where "READ_CAP = 536"

text \<open>What one read of the stream gives: bytes, the end or a timeout, or an error.\<close>

datatype read_event = Bytes "byte list" | EndOfStream | ReadError

text \<open>The loop over the reads of a stream; the header parser is the library's. \<open>None\<close> is an I/O error,
  and a stream that stops giving events ends.\<close>

fun proxy_read :: "(byte list \<Rightarrow> proxy_parsed) \<Rightarrow> byte list \<Rightarrow> read_event list \<Rightarrow> (ip_addr option \<times> byte list) option" where
  "proxy_read parse buf events =
     (case parse buf of
        Complete source consumed \<Rightarrow> Some (map_option fst source, drop consumed buf)
      | NotProxy \<Rightarrow> Some (None, buf)
      | Incomplete \<Rightarrow>
          if READ_CAP < length buf then Some (None, buf)
          else case events of
                 Bytes chunk # rest \<Rightarrow> if chunk = [] then Some (None, buf) else proxy_read parse (buf @ chunk) rest
               | ReadError # _ \<Rightarrow> None
               | _ \<Rightarrow> Some (None, buf))"

declare proxy_read.simps [simp del]

section \<open>Forwarding headers cannot be forged\<close>

lemma peel_loop_untrusted:
  assumes "e \<in> set entries" "parse_ip T (trim e) = Some ip" "\<not> trusts ip"
  shows "peel_loop T trusts (entries @ others) f peer = peel_loop T trusts entries f peer"
  using assms by (induction entries arbitrary: f) (auto split: option.splits)

text \<open>C32. A client cannot forge its address. A peer that is not a listed proxy is its own address
  whatever headers it sends. Behind listed proxies, once the part of the forwarding header that the
  proxies appended names an address that is not a proxy, anything the client wrote in front of it
  changes nothing.\<close>

theorem client_address_unforgeable:
  "(\<not> policy_trusts p peer \<longrightarrow> client_ip T p None peer headers = peer) \<and>
   (list_ex (\<lambda>e. case parse_ip T (trim e) of None \<Rightarrow> False | Some ip \<Rightarrow> \<not> policy_trusts p ip) (split_on CHR '','' appended) \<longrightarrow>
      policy_resolve T p peer (Some (forged @ CHR '','' # appended)) = policy_resolve T p peer (Some appended))"
proof (intro conjI impI)
  assume "\<not> policy_trusts p peer"
  then show "client_ip T p None peer headers = peer"
    by (auto simp: client_ip_def policy_resolve_def policy_trusts_def trusted_client_ip_def Let_def split: option.splits)
next
  assume "list_ex (\<lambda>e. case parse_ip T (trim e) of None \<Rightarrow> False | Some ip \<Rightarrow> \<not> policy_trusts p ip) (split_on CHR '','' appended)"
  then obtain e ip where e: "e \<in> set (rev (split_on CHR '','' appended))" "parse_ip T (trim e) = Some ip" "\<not> policy_trusts p ip"
    by (auto simp: list_ex_iff split: option.splits)
  have "peel T trusts peer (Some (forged @ CHR '','' # appended)) = peel T trusts peer (Some appended)" if "cip_trusted p = Some trusts" for trusts
  proof -
    have "\<not> trusts ip" using e(3) that by (simp add: policy_trusts_def)
    from peel_loop_untrusted [where trusts = trusts, OF e(1,2) this] show ?thesis by (simp add: peel_def split_on_append)
  qed
  then show "policy_resolve T p peer (Some (forged @ CHR '','' # appended)) = policy_resolve T p peer (Some appended)"
    by (auto simp: policy_resolve_def trusted_client_ip_def split: option.splits)
qed

theorem client_address_unforgeable_witness:
  "\<exists>p. let T = \<lparr> v6_parse = (\<lambda>_. None), v6_show = (\<lambda>_. []) \<rparr>
      in client_ip T p None (V4 2) [(''x-forwarded-for'', Some ''9.9.9.9'')] = V4 2 \<and>
         policy_resolve T p (V4 1) (Some (''7.7.7.7'' @ CHR '','' # ''0.0.0.2'')) = policy_resolve T p (V4 1) (Some ''0.0.0.2'')"
proof -
  define T where "T = \<lparr> v6_parse = (\<lambda>_ :: string. None :: 128 word option), v6_show = (\<lambda>_ :: 128 word. [] :: string) \<rparr>"
  define p where "p = \<lparr> cip_header = Some ''x-forwarded-for'', cip_trusted = Some (\<lambda>ip. ip = V4 1) \<rparr>"
  have "\<not> policy_trusts p (V4 2)" by (simp add: p_def policy_trusts_def)
  moreover have "parse_ip T (trim ''0.0.0.2'') = Some (V4 2)" by code_simp
  then have "list_ex (\<lambda>e. case parse_ip T (trim e) of None \<Rightarrow> False | Some ip \<Rightarrow> \<not> policy_trusts p ip) (split_on CHR '','' ''0.0.0.2'')"
    by (simp add: p_def policy_trusts_def)
  ultimately show ?thesis
    using client_address_unforgeable [of p "V4 2" T "[(''x-forwarded-for'', Some ''9.9.9.9'')]"]
      client_address_unforgeable [of p "V4 1" T "[]" "''0.0.0.2''" "''7.7.7.7''"]
    by (auto simp: T_def Let_def)
qed

section \<open>Canonical hosts are canonical\<close>

lemma split_on_chars: "list_all (\<lambda>part. list_all P part) (split_on d s) \<Longrightarrow> list_all (\<lambda>c. P c \<or> c = d) s"
proof (induction s)
  case (Cons c cs)
  then show ?case by (cases "split_on d cs") (auto split: if_splits)
qed simp

lemma dns_name_chars: "is_valid_dns_name name \<Longrightarrow> list_all (\<lambda>c. host_char c \<or> c = CHR ''.'') name"
  by (rule split_on_chars) (auto simp: is_valid_dns_name_def list_all_iff)

lemma host_char_facts:
  "host_char c \<or> c = CHR ''.'' \<Longrightarrow> c \<noteq> CHR ''@'' \<and> c \<noteq> CHR ''['' \<and> c \<noteq> CHR '':'' \<and> lower_char c = c \<and> code_of c < 128"
  by (auto simp: host_char_def is_lower_def is_digit_def is_upper_def lower_char_def code_of_def)

lemma dns_name_end: "is_valid_dns_name name \<Longrightarrow> strip_suffix ''.'' name = None"
proof (rule ccontr)
  assume valid: "is_valid_dns_name name" and "strip_suffix ''.'' name \<noteq> None"
  then obtain x where "name = x @ ''.''" using strip_suffix_iff by blast
  then have "split_on CHR ''.'' name = split_on CHR ''.'' x @ [[]]" using split_on_append [of "CHR ''.''" x "[]"] by simp
  with valid show False by (auto simp: is_valid_dns_name_def)
qed

lemma split_once_none: "d \<notin> set s \<Longrightarrow> split_once d s = None"
  by (induction s) auto

lemma strip_prefix_none: "c \<notin> set s \<Longrightarrow> strip_prefix [c] s = None"
  by (cases s) auto

lemma dns_name_canonical:
  assumes "is_valid_dns_name name" "parse_ipv4 name = None"
  shows "canonical_parse T name = Inr \<lparr> ch_text = name, ch_ip = None \<rparr>"
proof -
  have chars: "c \<noteq> CHR ''@'' \<and> c \<noteq> CHR ''['' \<and> c \<noteq> CHR '':'' \<and> lower_char c = c \<and> code_of c < 128" if "c \<in> set name" for c
    using dns_name_chars [OF assms(1)] that host_char_facts by (auto simp: list_all_iff)
  have "name \<noteq> []" using assms(1) by (simp add: is_valid_dns_name_def)
  have "strip_prefix ''['' name = None" "split_once CHR '':'' name = None"
    using chars by (auto intro: strip_prefix_none split_once_none)
  moreover have "to_lowercase name = name" using chars by (simp add: to_lowercase_def map_idI)
  ultimately show ?thesis
    using assms chars \<open>name \<noteq> []\<close> dns_name_end [OF assms(1)]
    by (auto simp: canonical_parse_def parse_name_def fail_if_def is_ascii_def list_all_iff Let_def)
qed

lemma show_nat_leading_zero: "hd (show_nat n) = CHR ''0'' \<Longrightarrow> n = 0"
proof (induction n rule: show_nat.induct)
  case (1 n)
  have zero: "digit_char d = CHR ''0'' \<Longrightarrow> d < 10 \<Longrightarrow> d = 0" for d
    using digit_char_props(2) [of d] by (auto simp: digit_value_def)
  show ?case
  proof (cases "n < 10")
    case True
    with 1 zero show ?thesis by (simp add: show_nat.simps [of n])
  next
    case False
    with 1 have "n div 10 = 0" by (simp add: show_nat.simps [of n] hd_append show_nat_digits)
    with False show ?thesis by simp
  qed
qed

lemma show_nat_short: "n < 1000 \<Longrightarrow> length (show_nat n) \<le> 3"
  by (simp add: show_nat.simps [of n] show_nat.simps [of "n div 10"] show_nat.simps [of "n div 10 div 10"])

lemma parse_octet_show: "parse_octet (show_nat (unat b)) = Some b"
proof -
  have "unat b < 256" by (rule unat_byte_less)
  moreover have "hd (show_nat (unat b)) = CHR ''0'' \<longrightarrow> length (show_nat (unat b)) = 1"
    using show_nat_leading_zero [of "unat b"] by (auto simp: show_nat.simps [of 0])
  ultimately show ?thesis
    using show_nat_digits [of "unat b"] show_nat_short [of "unat b"] by (simp add: parse_octet_def)
qed

lemma octet_eq: "ucast (drop_bit k (w :: 32 word)) = (of_nat (unat w div 2 ^ k mod 256) :: byte)"
proof -
  have "unat (ucast (drop_bit k w) :: byte) = unat w div 2 ^ k mod 256"
    by (simp only: unsigned_ucast_eq unat_drop_bit_eq) (simp add: drop_bit_eq_div take_bit_eq_mod)
  then show ?thesis by (metis of_nat_unat ucast_id)
qed

lemma from_be_octets4: "from_be_bytes (octets4 w) = unat w"
proof -
  have four: "(4 :: nat) = Suc (Suc (Suc (Suc 0)))" by simp
  have "le_bytes 4 n = [of_nat (n mod 256), of_nat (n div 256 mod 256), of_nat (n div 65536 mod 256), of_nat (n div 16777216 mod 256)]" for n
    unfolding four le_bytes.simps by (simp flip: div_mult2_eq)
  moreover have "octets4 w = [ucast (drop_bit 24 w), ucast (drop_bit 16 w), ucast (drop_bit 8 w), ucast (drop_bit 0 w)]"
    by (simp add: octets4_def)
  ultimately have "rev (octets4 w) = le_bytes 4 (unat w)"
    unfolding octet_eq by simp
  moreover have "unat w < 256 ^ 4" using unsigned_less [of w, where ?'a = nat] by simp
  ultimately show ?thesis by (simp add: from_be_bytes_def from_le_bytes_le_bytes)
qed

lemma parse_show_ipv4: "parse_ipv4 (show_ipv4 w) = Some w"
proof -
  have dots: "CHR ''.'' \<notin> set (show_nat n)" for n
    using show_nat_digits [of n] by (auto simp: list_all_iff is_digit_def)
  have "split_on CHR ''.'' (show_ipv4 w) = map (\<lambda>b. show_nat (unat b)) (octets4 w)"
    by (simp add: show_ipv4_def octets4_def split_on_plain [OF dots] split_on_none [OF dots])
  moreover have "map (parse_octet \<circ> (\<lambda>b. show_nat (unat b))) (octets4 w) = map Some (octets4 w)"
    by (simp add: parse_octet_show)
  ultimately show ?thesis
    using from_be_octets4 [of w] by (simp add: parse_ipv4_def octets4_def)
qed

lemma show_ipv4_canonical: "canonical_parse T (show_ipv4 w) = Inr (host_from_ip T (V4 w))"
proof -
  have chars: "list_all (\<lambda>c. is_digit c \<or> c = CHR ''.'') (show_ipv4 w)"
    using show_nat_digits by (auto simp: show_ipv4_def octets4_def list_all_iff)
  then have "c \<noteq> CHR ''@'' \<and> c \<noteq> CHR ''['' \<and> c \<noteq> CHR '':''" if "c \<in> set (show_ipv4 w)" for c
    using that by (auto simp: list_all_iff is_digit_def)
  moreover have ne: "show_ipv4 w \<noteq> []" using show_nat_digits by (simp add: show_ipv4_def octets4_def)
  ultimately have "CHR ''@'' \<notin> set (show_ipv4 w)" "strip_prefix ''['' (show_ipv4 w) = None" "split_once CHR '':'' (show_ipv4 w) = None"
    by (auto intro: strip_prefix_none split_once_none)
  with ne show ?thesis by (simp add: canonical_parse_def parse_name_def fail_if_def parse_show_ipv4)
qed

text \<open>Canonicalisation is idempotent. The text of a canonical host that is a name or a version 4
  address canonicalises to that host again, with one exception: a name whose text reads as an
  address, which arises from an address written with a trailing dot.\<close>

theorem canonical_host_idempotent:
  assumes "canonical_parse T authority = Inr h" "\<forall>w. ch_ip h \<noteq> Some (V6 w)"
  shows "canonical_parse T (ch_text h) = Inr h \<or> ch_ip h = None \<and> parse_ipv4 (ch_text h) \<noteq> None"
proof (cases "ch_ip h")
  case None
  with assms(1) have "\<exists>name. is_valid_dns_name name \<and> h = \<lparr> ch_text = name, ch_ip = None \<rparr>"
    by (auto simp: canonical_parse_def parse_bracketed_def parse_name_def result_simps host_from_ip_def Let_def
        split: option.splits prod.splits)
  with dns_name_canonical None show ?thesis by (cases "parse_ipv4 (ch_text h)") auto
next
  case (Some ip)
  with assms(2) obtain w where ip: "ip = V4 w" by (cases ip) auto
  have "h = host_from_ip T ip"
    using assms(1) Some by (auto simp: canonical_parse_def parse_bracketed_def parse_name_def result_simps host_from_ip_def Let_def
        split: option.splits prod.splits)
  with ip show_ipv4_canonical [of T w] show ?thesis by (simp add: host_from_ip_def)
qed

theorem canonical_host_idempotent_witness:
  "\<exists>h. let T = \<lparr> v6_parse = (\<lambda>_. None), v6_show = (\<lambda>_. []) \<rparr>
      in canonical_parse T ''Example.COM:443'' = Inr h \<and> ch_text h = ''example.com'' \<and> canonical_parse T (ch_text h) = Inr h"
proof -
  define T where "T = \<lparr> v6_parse = (\<lambda>_ :: string. None :: 128 word option), v6_show = (\<lambda>_ :: 128 word. [] :: string) \<rparr>"
  define h where "h = \<lparr> ch_text = ''example.com'', ch_ip = None \<rparr>"
  have "parse_ipv4 ''Example.COM'' = None" by code_simp
  moreover have "to_lowercase ''Example.COM'' = ''example.com''" "strip_suffix ''.'' ''example.com'' = None" by code_simp+
  moreover have "split_on CHR ''.'' ''example.com'' = [''example'', ''com'']" by code_simp
  moreover have "list_all host_char ''example''" "list_all host_char ''com''" by code_simp+
  ultimately have "parse_name T ''Example.COM'' = Inr h"
    by (simp add: parse_name_def h_def fail_if_def is_ascii_def code_of_def is_valid_dns_name_def Let_def)
  moreover have "validate_port ''443'' = Inr ()"
    by (simp add: validate_port_def parse_unsigned_def fail_if_def u16_max_def is_digit_def digits_value_def digit_value_def Let_def)
  ultimately have "canonical_parse T ''Example.COM:443'' = Inr h"
    by (simp add: canonical_parse_def fail_if_def)
  moreover have "parse_ipv4 ''example.com'' = None" by code_simp
  ultimately show ?thesis
    using canonical_host_idempotent [of T "''Example.COM:443''" h] by (auto simp: h_def T_def Let_def)
qed

end
