(* ===== verification/Backend_Pool.thy ===== *)
theory Backend_Pool
  imports Client_Address
begin

text \<open>
  Which backend answers for a host: the pool built from the configured backends and the lookup by
  canonical host (bagel-web/src/proxy/backend.rs), with the backend configuration and its theme
  (bagel-config/src/web/backend.rs and mod.rs). The URI parser and the header syntax are arguments.
\<close>

section \<open>Configuration\<close>

datatype proxy_protocol_version = PPV1 | PPV2

definition proxy_protocol_version_of :: "nat \<Rightarrow> proxy_protocol_version result" where
  "proxy_protocol_version_of version =
     (if version = 1 then Inr PPV1 else if version = 2 then Inr PPV2 else Inl (Config ''proxy-protocol-out must be 1 or 2''))"

record theme_var =
  thv_name :: string
  thv_value :: string

record custom_theme =
  cth_vars :: "theme_var list"
  cth_light :: "theme_var list"
  cth_dark :: "theme_var list"

record backend_config =
  bc_name :: string
  bc_url :: string
  bc_host :: "string option"
  bc_ip_header :: "string option"
  bc_proxy_protocol_out :: "proxy_protocol_version option"
  bc_challenge_template :: "custom_theme option"

definition backend_url :: "string \<Rightarrow> string result" where
  "backend_url value = (if value = [] then Inl (Config ''backend url must not be empty'') else Inr value)"

section \<open>The pool\<close>

text \<open>The parts of a parsed URI that are looked at.\<close>

record target_uri =
  tu_scheme :: "string option"
  tu_host :: "string option"
  tu_authority :: "string option"
  tu_port :: "u16 option"
  tu_path :: string
  tu_query :: "string option"

record backend_libs =
  bl_uri :: "string \<Rightarrow> target_uri option"
  bl_header_value :: "string \<Rightarrow> bool"
  bl_header_name :: "string \<Rightarrow> string option"
  bl_v6 :: v6_text

record backend =
  bk_config :: backend_config
  bk_target :: target_uri
  bk_host :: "string option"
  bk_ip_header :: "string option"
  bk_theme :: custom_theme

record backend_pool =
  bp_exact :: "(string \<times> backend) list"
  bp_wildcard :: "(string \<times> backend) list"
  bp_fallback :: "backend option"

definition merge_theme :: "custom_theme \<Rightarrow> custom_theme option \<Rightarrow> custom_theme" where
  "merge_theme dflt template =
     (case template of None \<Rightarrow> dflt
      | Some theme \<Rightarrow>
          let keep = filter (\<lambda>var. \<not> list_ex (\<lambda>entry. thv_name entry = thv_name var) (cth_vars theme))
          in \<lparr> cth_vars = cth_vars dflt @ cth_vars theme, cth_light = keep (cth_light dflt) @ cth_light theme,
               cth_dark = keep (cth_dark dflt) @ cth_dark theme \<rparr>)"

definition backend_error :: "backend_config \<Rightarrow> string \<Rightarrow> error" where
  "backend_error cfg what = Config (''backend '' @ bc_name cfg @ '' '' @ what)"

definition make_backend :: "backend_libs \<Rightarrow> custom_theme \<Rightarrow> backend_config \<Rightarrow> backend result" where
  "make_backend L default_theme cfg =
     rbind (ok_or (Config (''invalid backend URL '' @ bc_url cfg)) (bl_uri L (bc_url cfg))) (\<lambda>target.
     rbind (fail_if (tu_scheme target \<noteq> Some ''http'' \<or> tu_host target = None) (backend_error cfg ''requires an absolute HTTP URL'')) (\<lambda>_.
     rbind (fail_if (tu_path target \<noteq> ''/'' \<or> tu_query target \<noteq> None) (backend_error cfg ''URL cannot contain a path prefix or query'')) (\<lambda>_.
     rbind (transpose_option (map_option (\<lambda>h. if bl_header_value L h then Inr h else Inl (backend_error cfg ''has an invalid host header'')) (bc_host cfg))) (\<lambda>host.
     rbind (transpose_option (map_option (\<lambda>n. ok_or (backend_error cfg ''has an invalid ip-header name'') (bl_header_name L n)) (bc_ip_header cfg))) (\<lambda>ip_header.
       Inr \<lparr> bk_config = cfg, bk_target = target, bk_host = host, bk_ip_header = ip_header,
             bk_theme = merge_theme default_theme (bc_challenge_template cfg) \<rparr>)))))"

text \<open>One configured backend: its pattern is entered at most once.\<close>

definition add_backend :: "backend_libs \<Rightarrow> custom_theme \<Rightarrow> backend_config \<Rightarrow> string list \<times> backend_pool \<Rightarrow> (string list \<times> backend_pool) result" where
  "add_backend L default_theme cfg acc =
     (let (seen, pool) = acc; name = bc_name cfg;
          enter = (\<lambda>pattern grow. if pattern \<in> set seen then Inl (Config (''duplicate backend pattern '' @ name))
                     else Inr (pattern # seen, grow));
          canonical = (\<lambda>text. case canonical_parse (bl_v6 L) text of
                         Inl err \<Rightarrow> Inl (Config (''backend pattern '' @ name @ '': '' @ err)) | Inr h \<Rightarrow> Inr (ch_text h))
      in rbind (make_backend L default_theme cfg) (\<lambda>b.
           if name = ''*'' then enter ''*'' (pool\<lparr> bp_fallback := Some b \<rparr>)
           else if starts_with ''*.'' name then
             rbind (canonical (drop 2 name)) (\<lambda>text.
               enter (''.'' @ text) (pool\<lparr> bp_wildcard := bp_wildcard pool @ [(''.'' @ text, b)] \<rparr>))
           else
             rbind (canonical name) (\<lambda>text. enter text (pool\<lparr> bp_exact := bp_exact pool @ [(text, b)] \<rparr>))))"

fun add_backends :: "backend_libs \<Rightarrow> custom_theme \<Rightarrow> backend_config list \<Rightarrow> string list \<times> backend_pool \<Rightarrow> (string list \<times> backend_pool) result" where
  "add_backends L default_theme [] acc = Inr acc"
| "add_backends L default_theme (cfg # cfgs) acc = rbind (add_backend L default_theme cfg acc) (add_backends L default_theme cfgs)"

text \<open>The longest wildcard first; the sort is stable.\<close>

definition pool_build :: "backend_libs \<Rightarrow> backend_config list \<Rightarrow> custom_theme \<Rightarrow> backend_pool result" where
  "pool_build L configs default_theme =
     rbind (add_backends L default_theme configs ([], \<lparr> bp_exact = [], bp_wildcard = [], bp_fallback = None \<rparr>)) (\<lambda>(_, pool).
       Inr (pool\<lparr> bp_wildcard := sort_key (\<lambda>(pattern, _). - int (length pattern)) (bp_wildcard pool) \<rparr>))"

definition ends_with :: "string \<Rightarrow> string \<Rightarrow> bool" where
  "ends_with suffix s \<longleftrightarrow> strip_suffix suffix s \<noteq> None"

definition pool_select :: "backend_pool \<Rightarrow> string \<Rightarrow> backend option" where
  "pool_select pool host =
     (case List.find (\<lambda>(pattern, _). pattern = host) (bp_exact pool) of
        Some (_, b) \<Rightarrow> Some b
      | None \<Rightarrow>
          (case List.find (\<lambda>(suffix, _). ends_with suffix host) (bp_wildcard pool) of
             Some (_, b) \<Rightarrow> Some b
           | None \<Rightarrow> bp_fallback pool))"

definition pool_by_name :: "backend_pool \<Rightarrow> string \<Rightarrow> backend option" where
  "pool_by_name pool name =
     List.find (\<lambda>b. bc_name (bk_config b) = name)
       (map snd (bp_exact pool) @ map snd (bp_wildcard pool) @ (case bp_fallback pool of None \<Rightarrow> [] | Some b \<Rightarrow> [b]))"

definition pool_is_empty :: "backend_pool \<Rightarrow> bool" where
  "pool_is_empty pool \<longleftrightarrow> bp_exact pool = [] \<and> bp_wildcard pool = [] \<and> bp_fallback pool = None"

section \<open>What a configured pattern means\<close>

text \<open>The specification: a pattern is a host, the hosts under a domain, or every host, and the more
  specific of two matching patterns wins.\<close>

datatype host_pattern = OneHost string | Under string | EveryHost

definition pattern_of :: "v6_text \<Rightarrow> string \<Rightarrow> host_pattern option" where
  "pattern_of T name =
     (if name = ''*'' then Some EveryHost
      else if starts_with ''*.'' name then
        (case canonical_parse T (drop 2 name) of Inl _ \<Rightarrow> None | Inr h \<Rightarrow> Some (Under (ch_text h)))
      else (case canonical_parse T name of Inl _ \<Rightarrow> None | Inr h \<Rightarrow> Some (OneHost (ch_text h))))"

fun covers :: "host_pattern \<Rightarrow> string \<Rightarrow> bool" where
  "covers (OneHost text) host = (host = text)"
| "covers (Under text) host = (\<exists>sub. host = sub @ ''.'' @ text)"
| "covers EveryHost host = True"

fun more_specific :: "host_pattern \<Rightarrow> host_pattern \<Rightarrow> bool" where
  "more_specific (OneHost _) _ = True"
| "more_specific (Under text) (Under other) = (length other \<le> length text)"
| "more_specific (Under _) EveryHost = True"
| "more_specific (Under _) (OneHost _) = False"
| "more_specific EveryHost p = (p = EveryHost)"

fun pattern_key :: "host_pattern \<Rightarrow> string" where
  "pattern_key (OneHost text) = text"
| "pattern_key (Under text) = ''.'' @ text"
| "pattern_key EveryHost = ''*''"

lemma ends_with_iff: "ends_with suffix s \<longleftrightarrow> (\<exists>sub. s = sub @ suffix)"
  by (auto simp: ends_with_def strip_suffix_iff)

lemma make_backend_config: "make_backend L d cfg = Inr b \<Longrightarrow> bk_config b = cfg"
  by (auto simp: make_backend_def result_simps)

fun enter_pattern :: "host_pattern \<Rightarrow> backend \<Rightarrow> backend_pool \<Rightarrow> backend_pool" where
  "enter_pattern (OneHost text) b pool = pool\<lparr> bp_exact := bp_exact pool @ [(text, b)] \<rparr>"
| "enter_pattern (Under text) b pool = pool\<lparr> bp_wildcard := bp_wildcard pool @ [(''.'' @ text, b)] \<rparr>"
| "enter_pattern EveryHost b pool = pool\<lparr> bp_fallback := Some b \<rparr>"

lemma add_backend_enters:
  assumes "add_backend L d cfg (seen, pool) = Inr (seen', pool')"
  shows "\<exists>p b. pattern_of (bl_v6 L) (bc_name cfg) = Some p \<and> make_backend L d cfg = Inr b \<and>
    pool' = enter_pattern p b pool \<and> pattern_key p \<notin> set seen \<and> seen' = pattern_key p # seen"
proof -
  from assms obtain b where b: "make_backend L d cfg = Inr b"
    by (auto simp: add_backend_def result_simps Let_def)
  consider "bc_name cfg = ''*''" | "bc_name cfg \<noteq> ''*''" "starts_with ''*.'' (bc_name cfg)"
    | "bc_name cfg \<noteq> ''*''" "\<not> starts_with ''*.'' (bc_name cfg)" by blast
  then show ?thesis
  proof cases
    case 1
    then show ?thesis
      using assms b by (intro exI [of _ EveryHost] exI [of _ b]) (auto simp: add_backend_def pattern_of_def Let_def split: if_splits)
  next
    case 2
    then obtain h where "canonical_parse (bl_v6 L) (drop 2 (bc_name cfg)) = Inr h"
      using assms b by (auto simp: add_backend_def result_simps Let_def split: sum.splits)
    with 2 show ?thesis
      using assms b by (intro exI [of _ "Under (ch_text h)"] exI [of _ b]) (auto simp: add_backend_def pattern_of_def Let_def split: if_splits)
  next
    case 3
    then obtain h where "canonical_parse (bl_v6 L) (bc_name cfg) = Inr h"
      using assms b by (auto simp: add_backend_def result_simps Let_def split: sum.splits)
    with 3 show ?thesis
      using assms b by (intro exI [of _ "OneHost (ch_text h)"] exI [of _ b]) (auto simp: add_backend_def pattern_of_def Let_def split: if_splits)
  qed
qed

text \<open>What the pool holds of the backends entered so far, as pairs of a pattern and a backend.\<close>

definition configured :: "backend_libs \<Rightarrow> custom_theme \<Rightarrow> backend_config list \<Rightarrow> host_pattern \<Rightarrow> backend \<Rightarrow> bool" where
  "configured L d cfgs p b \<longleftrightarrow> (\<exists>cfg \<in> set cfgs. pattern_of (bl_v6 L) (bc_name cfg) = Some p \<and> make_backend L d cfg = Inr b)"

fun pool_holds :: "backend_pool \<Rightarrow> host_pattern \<Rightarrow> backend \<Rightarrow> bool" where
  "pool_holds pool (OneHost text) b = ((text, b) \<in> set (bp_exact pool))"
| "pool_holds pool (Under text) b = ((''.'' @ text, b) \<in> set (bp_wildcard pool))"
| "pool_holds pool EveryHost b = (bp_fallback pool = Some b)"

definition pool_ok :: "backend_libs \<Rightarrow> custom_theme \<Rightarrow> backend_config list \<Rightarrow> string list \<Rightarrow> backend_pool \<Rightarrow> bool" where
  "pool_ok L d cfgs seen pool \<longleftrightarrow>
     (\<forall>p b. pool_holds pool p b \<longleftrightarrow> configured L d cfgs p b) \<and>
     (\<forall>(suffix, b) \<in> set (bp_wildcard pool). take 1 suffix = ''.'') \<and>
     (\<forall>cfg \<in> set cfgs. \<exists>p b. pattern_of (bl_v6 L) (bc_name cfg) = Some p \<and> make_backend L d cfg = Inr b) \<and>
     (\<forall>p b. configured L d cfgs p b \<longrightarrow> pattern_key p \<in> set seen) \<and>
     (\<forall>p b b'. configured L d cfgs p b \<longrightarrow> configured L d cfgs p b' \<longrightarrow> b = b')"

lemma pool_holds_enter:
  assumes "p = EveryHost \<longrightarrow> bp_fallback pool = None"
  shows "pool_holds (enter_pattern p b pool) q c \<longleftrightarrow> pool_holds pool q c \<or> (q = p \<and> c = b)"
  using assms by (cases p; cases q) auto

lemma add_backend_ok:
  assumes "pool_ok L d cfgs seen pool" "add_backend L d cfg (seen, pool) = Inr (seen', pool')"
  shows "pool_ok L d (cfgs @ [cfg]) seen' pool'"
proof -
  from add_backend_enters [OF assms(2)] obtain p b where
    p: "pattern_of (bl_v6 L) (bc_name cfg) = Some p" "make_backend L d cfg = Inr b" and
    pool': "pool' = enter_pattern p b pool" and fresh: "pattern_key p \<notin> set seen" and seen': "seen' = pattern_key p # seen" by blast
  have conf: "configured L d (cfgs @ [cfg]) q c \<longleftrightarrow> configured L d cfgs q c \<or> (q = p \<and> c = b)" for q c
    using p by (auto simp: configured_def)
  have new: "\<not> configured L d cfgs p c" for c using assms(1) fresh by (auto simp: pool_ok_def)
  then have "p = EveryHost \<longrightarrow> bp_fallback pool = None"
    using assms(1) unfolding pool_ok_def by (metis pool_holds.simps(3) not_None_eq)
  note holds = pool_holds_enter [OF this, of b]
  have "\<forall>(suffix, b) \<in> set (bp_wildcard pool'). take 1 suffix = ''.''"
    using assms(1) by (cases p) (auto simp: pool_ok_def pool')
  with assms(1) p new show ?thesis
    unfolding pool_ok_def conf seen' by (auto simp: holds pool')
qed

lemma add_backends_ok:
  assumes "pool_ok L d before seen pool" "add_backends L d cfgs (seen, pool) = Inr (seen', pool')"
  shows "pool_ok L d (before @ cfgs) seen' pool'"
  using assms
proof (induction cfgs arbitrary: before seen pool)
  case (Cons cfg cfgs)
  then obtain seen1 pool1 where step: "add_backend L d cfg (seen, pool) = Inr (seen1, pool1)"
    and rest: "add_backends L d cfgs (seen1, pool1) = Inr (seen', pool')" by (auto simp: result_simps)
  from Cons.IH [OF add_backend_ok [OF Cons.prems(1) step] rest] show ?case by simp
qed simp

lemma pool_build_ok:
  assumes "pool_build L cfgs d = Inr pool"
  shows "(\<exists>seen. pool_ok L d cfgs seen pool) \<and> sorted (map (\<lambda>(pattern, _). - int (length pattern)) (bp_wildcard pool))"
proof -
  from assms obtain seen raw where raw: "add_backends L d cfgs ([], \<lparr> bp_exact = [], bp_wildcard = [], bp_fallback = None \<rparr>) = Inr (seen, raw)"
    and pool: "pool = raw\<lparr> bp_wildcard := sort_key (\<lambda>(pattern, _). - int (length pattern)) (bp_wildcard raw) \<rparr>"
    by (auto simp: pool_build_def result_simps)
  have "pool_holds \<lparr> bp_exact = [], bp_wildcard = [], bp_fallback = None \<rparr> p b \<longleftrightarrow> False" for p b by (cases p) auto
  then have "pool_ok L d [] [] \<lparr> bp_exact = [], bp_wildcard = [], bp_fallback = None \<rparr>"
    by (auto simp: pool_ok_def configured_def)
  from add_backends_ok [OF this raw] have "pool_ok L d cfgs seen raw" by simp
  moreover have "pool_holds pool p b \<longleftrightarrow> pool_holds raw p b" for p b by (cases p) (auto simp: pool)
  ultimately have "pool_ok L d cfgs seen pool" by (simp add: pool_ok_def pool)
  moreover have "sorted (map (\<lambda>(pattern, _). - int (length pattern)) (bp_wildcard pool))" by (simp add: pool)
  ultimately show ?thesis by blast
qed

lemma find_SomeD: "List.find P xs = Some x \<Longrightarrow> x \<in> set xs \<and> P x"
  by (induction xs) (auto split: if_splits)

lemma find_sorted_least:
  assumes "List.find P xs = Some x" "sorted (map f xs)" "y \<in> set xs" "P y"
  shows "f x \<le> f y"
  using assms by (induction xs) (auto split: if_splits)

text \<open>The three tiers of the lookup, as the most specific pattern the pool holds.\<close>

lemma pool_select_specific:
  assumes ok: "pool_ok L d cfgs seen pool" and ordered: "sorted (map (\<lambda>(pattern, _). - int (length pattern)) (bp_wildcard pool))"
  shows "case pool_select pool host of
      Some b \<Rightarrow> \<exists>p. pool_holds pool p b \<and> covers p host \<and> (\<forall>q c. pool_holds pool q c \<and> covers q host \<longrightarrow> more_specific p q)
    | None \<Rightarrow> \<forall>q c. pool_holds pool q c \<longrightarrow> \<not> covers q host"
proof (cases "List.find (\<lambda>(pattern, _). pattern = host) (bp_exact pool)")
  case (Some e)
  then have "e \<in> set (bp_exact pool)" "fst e = host" by (auto dest: find_SomeD)
  then have "pool_holds pool (OneHost host) (snd e)" by (cases e) auto
  moreover have "pool_select pool host = Some (snd e)" using Some by (simp add: pool_select_def split: prod.splits)
  ultimately show ?thesis by (auto intro!: exI [of _ "OneHost host"])
next
  case None
  then have none: "\<not> (pool_holds pool (OneHost t) c \<and> covers (OneHost t) host)" for t c by (auto simp: find_None_iff)
  show ?thesis
  proof (cases "List.find (\<lambda>(suffix, _). ends_with suffix host) (bp_wildcard pool)")
    case (Some e)
    then have e: "e \<in> set (bp_wildcard pool)" "ends_with (fst e) host" by (auto dest: find_SomeD)
    have "take 1 (fst e) = ''.''" using ok e(1) by (cases e) (auto simp: pool_ok_def)
    then obtain t where t: "fst e = ''.'' @ t" by (cases "fst e") auto
    then have "(''.'' @ t, snd e) \<in> set (bp_wildcard pool)" using e(1) by (metis prod.collapse)
    then have "pool_holds pool (Under t) (snd e) \<and> covers (Under t) host" using e(2) t by (auto simp: ends_with_iff)
    moreover have "more_specific (Under t) q" if q: "pool_holds pool q c" "covers q host" for q c
    proof (cases q)
      case (OneHost u)
      then show ?thesis using none q by blast
    next
      case (Under u)
      then have "(''.'' @ u, c) \<in> set (bp_wildcard pool)" "ends_with (''.'' @ u) host" using q by (auto simp: ends_with_iff)
      then have "- int (length (fst e)) \<le> - int (length (''.'' @ u))"
        using find_sorted_least [OF Some ordered] by (cases e) fastforce
      then show ?thesis using Under t by simp
    qed simp
    moreover have "pool_select pool host = Some (snd e)" using None Some by (simp add: pool_select_def split: prod.splits)
    ultimately show ?thesis by (simp only: option.case) blast
  next
    case no_wild: None
    then have wild: "\<not> (pool_holds pool (Under t) c \<and> covers (Under t) host)" for t c
      by (auto simp: find_None_iff ends_with_iff)
    have every: "q = EveryHost" if "pool_holds pool q c" "covers q host" for q c
      using none wild that by (cases q) blast+
    have "pool_select pool host = bp_fallback pool" using None no_wild by (simp add: pool_select_def)
    then show ?thesis
      using every by (cases "bp_fallback pool") (auto intro!: exI [of _ EveryHost], metis option.distinct(1) pool_holds.simps(3))
  qed
qed

text \<open>A host is answered by its most specific backend. In a pool that was built, the backend
  selected for a host is a configured one whose pattern covers the host, no configured pattern that
  covers the host is more specific, and no other backend has that pattern; when no backend is
  selected, no configured pattern covers the host.\<close>

theorem most_specific_backend:
  assumes "pool_build L cfgs d = Inr pool"
  shows "case pool_select pool host of
      Some b \<Rightarrow> bk_config b \<in> set cfgs \<and>
        (\<exists>p. pattern_of (bl_v6 L) (bc_name (bk_config b)) = Some p \<and> covers p host \<and>
          (\<forall>c \<in> set cfgs. \<forall>q. pattern_of (bl_v6 L) (bc_name c) = Some q \<and> covers q host \<longrightarrow>
             more_specific p q \<and> (q = p \<longrightarrow> c = bk_config b)))
    | None \<Rightarrow> \<forall>c \<in> set cfgs. \<forall>q. pattern_of (bl_v6 L) (bc_name c) = Some q \<longrightarrow> \<not> covers q host"
proof -
  from pool_build_ok [OF assms] obtain seen where ok: "pool_ok L d cfgs seen pool"
    and ordered: "sorted (map (\<lambda>(pattern, _). - int (length pattern)) (bp_wildcard pool))" by blast
  have holds: "pool_holds pool p b \<longleftrightarrow> configured L d cfgs p b" for p b using ok by (simp add: pool_ok_def)
  have made: "\<exists>b. configured L d cfgs q b \<and> bk_config b = c"
    if "c \<in> set cfgs" "pattern_of (bl_v6 L) (bc_name c) = Some q" for c q
    using ok that make_backend_config unfolding pool_ok_def configured_def by (metis option.inject)
  have unique: "b = b'" if "configured L d cfgs p b" "configured L d cfgs p b'" for p b b'
    using ok that by (auto simp: pool_ok_def)
  show ?thesis
  proof (cases "pool_select pool host")
    case None
    with pool_select_specific [OF ok ordered, of host] have "configured L d cfgs q c \<Longrightarrow> \<not> covers q host" for q c
      by (auto simp: holds)
    with None made show ?thesis by (simp, blast)
  next
    case (Some b)
    with pool_select_specific [OF ok ordered, of host] obtain p where p: "configured L d cfgs p b" "covers p host"
      "\<forall>q c. configured L d cfgs q c \<and> covers q host \<longrightarrow> more_specific p q" by (auto simp: holds)
    from p(1) have "bk_config b \<in> set cfgs \<and> pattern_of (bl_v6 L) (bc_name (bk_config b)) = Some p"
      by (auto simp: configured_def dest: make_backend_config)
    moreover have "more_specific p q \<and> (q = p \<longrightarrow> c = bk_config b)"
      if "c \<in> set cfgs" "pattern_of (bl_v6 L) (bc_name c) = Some q" "covers q host" for c q
      using made [OF that(1,2)] p(3) unique [OF p(1)] that(3) by blast
    ultimately show ?thesis using Some p(2) by auto
  qed
qed

section \<open>The theorem at work\<close>

definition example_libs :: backend_libs where
  "example_libs =
     \<lparr> bl_uri = (\<lambda>_. Some \<lparr> tu_scheme = Some ''http'', tu_host = Some ''h'', tu_authority = Some ''h'', tu_port = None, tu_path = ''/'', tu_query = None \<rparr>),
       bl_header_value = (\<lambda>_. True), bl_header_name = Some, bl_v6 = \<lparr> v6_parse = (\<lambda>_. None), v6_show = (\<lambda>_. []) \<rparr> \<rparr>"

definition example_config :: "string \<Rightarrow> backend_config" where
  "example_config name =
     \<lparr> bc_name = name, bc_url = ''http://h'', bc_host = None, bc_ip_header = None, bc_proxy_protocol_out = None, bc_challenge_template = None \<rparr>"

definition example_theme :: custom_theme where
  "example_theme = \<lparr> cth_vars = [], cth_light = [], cth_dark = [] \<rparr>"

lemma example_canonical: "canonical_parse T ''a.b'' = Inr \<lparr> ch_text = ''a.b'', ch_ip = None \<rparr>"
proof (rule dns_name_canonical)
  have "split_on CHR ''.'' ''a.b'' = [''a'', ''b'']" by code_simp
  then show "is_valid_dns_name ''a.b''" by (simp add: is_valid_dns_name_def host_char_def is_lower_def code_of_def)
  show "parse_ipv4 ''a.b'' = None" by code_simp
qed

theorem most_specific_backend_witness:
  "\<exists>pool. pool_build example_libs (map example_config [''*'', ''*.a.b'', ''a.b'']) example_theme = Inr pool \<and>
     map_option (\<lambda>b. bc_name (bk_config b)) (pool_select pool ''x.a.b'') = Some ''*.a.b'' \<and>
     map_option (\<lambda>b. bc_name (bk_config b)) (pool_select pool ''a.b'') = Some ''a.b'' \<and>
     (\<exists>p. pattern_of (bl_v6 example_libs) ''*.a.b'' = Some p \<and> covers p ''x.a.b'' \<and> \<not> covers (OneHost ''a.b'') ''x.a.b'' \<and> more_specific p EveryHost)"
proof -
  let ?cfgs = "map example_config [''*'', ''*.a.b'', ''a.b'']"
  define b where "b n = \<lparr> bk_config = example_config n, bk_target = \<lparr> tu_scheme = Some ''http'', tu_host = Some ''h'', tu_authority = Some ''h'', tu_port = None, tu_path = ''/'', tu_query = None \<rparr>,
      bk_host = None, bk_ip_header = None, bk_theme = example_theme \<rparr>" for n
  have make: "make_backend example_libs example_theme (example_config n) = Inr (b n)" for n
    by (simp add: make_backend_def example_libs_def example_config_def fail_if_def merge_theme_def b_def)
  have cfg_name: "bc_name (example_config n) = n" for n by (simp add: example_config_def)
  define pool where "pool = \<lparr> bp_exact = [(''a.b'', b ''a.b'')], bp_wildcard = [(''.a.b'', b ''*.a.b'')], bp_fallback = Some (b ''*'') \<rparr>"
  have pool: "pool_build example_libs ?cfgs example_theme = Inr pool"
    by (simp add: pool_build_def add_backend_def make cfg_name Let_def pool_def example_canonical starts_with_def example_libs_def [symmetric])
  have select: "pool_select pool ''x.a.b'' = Some (b ''*.a.b'')" "pool_select pool ''a.b'' = Some (b ''a.b'')"
    by (simp_all add: pool_select_def pool_def ends_with_def strip_suffix_def)
  have name: "bc_name (bk_config (b n)) = n" for n by (simp add: b_def example_config_def)
  from most_specific_backend [OF pool, of "''x.a.b''"] select(1) obtain p where
    p: "pattern_of (bl_v6 example_libs) ''*.a.b'' = Some p" "covers p ''x.a.b''"
      "\<forall>c \<in> set ?cfgs. \<forall>q. pattern_of (bl_v6 example_libs) (bc_name c) = Some q \<and> covers q ''x.a.b'' \<longrightarrow> more_specific p q"
    by (auto simp: name)
  moreover have "pattern_of (bl_v6 example_libs) (bc_name (example_config ''*'')) = Some EveryHost"
    by (simp add: pattern_of_def example_config_def)
  ultimately have "more_specific p EveryHost" by auto
  with pool select p show ?thesis by (auto simp: name)
qed

end
