(* ===== verification/Verify_Endpoints.thy ===== *)
theory Verify_Endpoints
  imports Rule_Pipeline Backend_Pool
begin

text \<open>
  The endpoints bagel answers itself (bagel-web/src/routes.rs): routing of internal paths, the two
  verify handlers, which redeem a pending challenge and seal a pass into the visitor's cookie, and
  the beacons of bagel-web/src/visit.rs.

  Header values are bytes here, because the handlers look at them before they are text. What the
  assets contain, how the solver module is served and what the main handler does are arguments;
  so are the Base64 and hexadecimal decoders, the clock and the random nonce. A handler runs at
  one instant, and its verification permit is given back before it returns.
\<close>

section \<open>Requests, environment and state\<close>

text \<open>What collecting the limited body gives: the bytes, an error, or the timeout.\<close>

datatype body_read = BodyBytes "byte list" | BodyFailed | BodyTimeout

record verify_request =
  vr_method :: string
  vr_path :: string
  vr_query :: "string option"
  vr_authority :: "string option"
  vr_headers :: "(string \<times> byte list) list"
  vr_peer :: "ip_addr option"
  vr_forwarded :: "ip_addr option"
  vr_stack :: "string option"
  vr_body :: body_read

record verify_env =
  vn_sha256 :: "byte list \<Rightarrow> byte list"
  vn_sealing :: sealing
  vn_v6 :: v6_text
  vn_client_ip :: client_ip_policy
  vn_backends :: backend_pool
  vn_registry :: registry
  vn_server_key :: "byte list"
  vn_revision :: u64
  vn_hash :: "rate_key \<Rightarrow> nat"
  vn_unhex :: "byte list \<Rightarrow> byte list option"
  vn_unb64 :: "byte list \<Rightarrow> byte list option"
  vn_now :: i64
  vn_instant :: nat
  vn_second :: u64
  vn_minute :: u64
  vn_nonce :: "byte list option"
  vn_task_runs :: bool
  vn_asset :: "internal \<Rightarrow> string"
  vn_solver :: "string option \<Rightarrow> verify_request \<Rightarrow> response"

record verify_state =
  vs_pending :: pending_challenges
  vs_tables :: client_tables

text \<open>\<open>HeaderValue::to_str\<close>: visible ASCII and tab.\<close>

definition header_to_str :: "byte list \<Rightarrow> string option" where
  "header_to_str v =
     (if list_all (\<lambda>b. 32 \<le> unat b \<and> unat b < 127 \<or> unat b = 9) v then Some (map (\<lambda>b. char_of (unat b)) v) else None)"

definition text_headers :: "verify_request \<Rightarrow> (string \<times> string option) list" where
  "text_headers r = map (\<lambda>(n, v). (n, header_to_str v)) (vr_headers r)"

definition client_ip_for :: "verify_env \<Rightarrow> verify_request \<Rightarrow> ip_addr option" where
  "client_ip_for E r = map_option (\<lambda>peer. client_ip (vn_v6 E) (vn_client_ip E) (vr_forwarded r) peer (text_headers r)) (vr_peer r)"

definition canonical_request_host :: "verify_env \<Rightarrow> verify_request \<Rightarrow> canonical_host option" where
  "canonical_request_host E r =
     (case (case Option.bind (map_of (vr_headers r) ''host'') header_to_str of Some raw \<Rightarrow> Some raw | None \<Rightarrow> vr_authority r) of
        None \<Rightarrow> None
      | Some raw \<Rightarrow> (case canonical_parse (vn_v6 E) raw of Inl _ \<Rightarrow> None | Inr h \<Rightarrow> Some h))"

section \<open>The identity a pass is sealed against\<close>

record verify_client =
  vc_headers :: "(string \<times> byte list) list"
  vc_host :: canonical_host
  vc_ip :: ip_addr
  vc_stack :: "string option"

definition client_of :: "verify_request \<Rightarrow> canonical_host \<Rightarrow> ip_addr \<Rightarrow> verify_client" where
  "client_of r host ip = \<lparr> vc_headers = vr_headers r, vc_host = host, vc_ip = ip, vc_stack = vr_stack r \<rparr>"

definition carried_state :: "verify_env \<Rightarrow> (string \<times> byte list) list \<Rightarrow> string \<Rightarrow> ip_addr option \<Rightarrow> request_challenge_state" where
  "carried_state E headers host ip =
     from_headers (vn_sha256 E) (vn_sealing E) (List.map_filter (\<lambda>(n, v). if n = ''cookie'' then header_to_str v else None) headers)
       host (vn_server_key E) ip (vn_now E)"

definition user_agent_bytes :: "(string \<times> byte list) list \<Rightarrow> byte list" where
  "user_agent_bytes headers = (case map_of headers ''user-agent'' of None \<Rightarrow> as_bytes ''unknown'' | Some v \<Rightarrow> v)"

text \<open>The user agent a challenge is issued to (\<open>handle_request\<close> of server/pipeline.rs) is read as text.\<close>

definition request_user_agent :: "(string \<times> byte list) list \<Rightarrow> string" where
  "request_user_agent headers = (case Option.bind (map_of headers ''user-agent'') header_to_str of None \<Rightarrow> ''unknown'' | Some ua \<Rightarrow> ua)"

definition client_binding :: "verify_env \<Rightarrow> verify_client \<Rightarrow> string \<Rightarrow> token \<Rightarrow> challenge_binding" where
  "client_binding E c name t =
     challenge_binding_new (vn_sha256 E) (tk_session t) (ch_text (vc_host c)) (vc_ip c) name (user_agent_bytes (vc_headers c)) (vn_revision E)"

definition client_admit :: "verify_env \<Rightarrow> verify_client \<Rightarrow> string \<Rightarrow> verify_state \<Rightarrow> (response + challenge_binding) \<times> verify_state" where
  "client_admit E c name s =
     (let host = ch_text (vc_host c) in
      if pool_select (vn_backends E) host = None then (Inl (body_status 400), s)
      else
        let (_, rates) = record_at (vn_hash E) (host, from_ip (vc_ip c)) (vn_second E) (ct_rate (vs_tables s));
            (admitted, pending) = admit_verification (vn_hash E) host (vc_ip c) (vn_second E) (vs_pending s);
            s = s\<lparr> vs_tables := (vs_tables s)\<lparr> ct_rate := rates \<rparr>, vs_pending := pending \<rparr>
        in if \<not> admitted then (Inl (body_status 429), s)
           else case rc_token (carried_state E (vc_headers c) host (Some (vc_ip c))) of
                  None \<Rightarrow> (Inl (body_text 403 ''missing challenge session''), s)
                | Some t \<Rightarrow> (Inr (client_binding E c name t), s))"

definition seal_pass :: "verify_env \<Rightarrow> verify_client \<Rightarrow> string \<Rightarrow> challenge_key \<Rightarrow> byte list \<Rightarrow> u32 \<Rightarrow> nat \<Rightarrow> response + string" where
  "seal_pass E c name key result level duration =
     (let host = ch_text (vc_host c) in
      case rc_token (carried_state E (vc_headers c) host (Some (vc_ip c))) of
        None \<Rightarrow> Inl (body_text 403 ''missing challenge session'')
      | Some t \<Rightarrow>
          let t = sealed_token name key result level (vc_stack c) duration (vn_now E) t;
              cookie_key = derive_cookie_key (vn_sha256 E) host (ip_network_prefix (vc_ip c)) (vn_server_key E)
          in case seal_token (vn_sealing E) (vn_nonce E) t cookie_key of
               Inr sealed \<Rightarrow> Inr (cookie_text (vn_sha256 E) host (is_host_ip (vc_host c)) sealed (tk_exp t))
             | Inl _ \<Rightarrow> Inl (body_text 500 ''token error''))"

section \<open>The verify handlers\<close>

text \<open>The key a redirect carries: lower-case hexadecimal of a challenge key.\<close>

definition token_key :: "verify_env \<Rightarrow> string \<Rightarrow> challenge_key option" where
  "token_key E token_hex =
     (case vn_unhex E (as_bytes token_hex) of None \<Rightarrow> None | Some key \<Rightarrow> if length key = 32 then Some key else None)"

definition redeem_redirect :: "verify_env \<Rightarrow> verify_client \<Rightarrow> string \<Rightarrow> challenge_registration \<Rightarrow> string \<Rightarrow> string \<Rightarrow> verify_state \<Rightarrow>
    response \<times> verify_state" where
  "redeem_redirect E c name reg token_hex redirect s =
     (case client_admit E c name s of
        (Inl resp, s) \<Rightarrow> (resp, s)
      | (Inr binding, s) \<Rightarrow>
          (case token_key E token_hex of None \<Rightarrow> (body_text 400 ''invalid token'', s)
           | Some key \<Rightarrow>
               (case redeem key binding 0 (vn_instant E) (vs_pending s) of
                  (None, pending) \<Rightarrow> (body_text 403 ''invalid token'', s\<lparr> vs_pending := pending \<rparr>)
                | (Some pass_key, pending) \<Rightarrow>
                    (case seal_pass E c name pass_key [] 0 (cr_duration reg) of
                       Inl resp \<Rightarrow> resp
                     | Inr cookie \<Rightarrow>
                         body_response 307 [(''location'', redirect), (''set-cookie'', cookie),
                           (''cache-control'', ''no-cache, no-store, must-revalidate'')] [],
                     s\<lparr> vs_pending := pending \<rparr>))))"

definition handle_verify :: "verify_env \<Rightarrow> string \<Rightarrow> verify_request \<Rightarrow> verify_state \<Rightarrow> response \<times> verify_state" where
  "handle_verify E name r s =
     (case route_query_param (vr_query r) ''__bagel_token'' of None \<Rightarrow> (body_text 400 ''missing token'', s)
      | Some token_hex \<Rightarrow>
      (case safe_redirect (case route_query_param (vr_query r) ''__bagel_redirect'' of None \<Rightarrow> ''/'' | Some v \<Rightarrow> percent_decode v) of
         None \<Rightarrow> (body_text 400 ''invalid redirect'', s)
       | Some redirect \<Rightarrow>
      (case map_of (vn_registry E) name of None \<Rightarrow> (body_text 404 ''unknown challenge'', s)
       | Some reg \<Rightarrow>
      (case canonical_request_host E r of None \<Rightarrow> (body_text 400 ''invalid host'', s)
       | Some host \<Rightarrow>
      (case client_ip_for E r of None \<Rightarrow> (body_text 400 ''missing client address'', s)
       | Some ip \<Rightarrow>
           if runtime_redemption (cr_runtime reg) \<noteq> RedeemRedirect then (body_text 400 ''challenge needs a posted solution'', s)
           else redeem_redirect E (client_of r host ip) name reg token_hex redirect s)))))"

text \<open>\<open>trim_ascii\<close> of a byte slice: space, tab, line feed, form feed and carriage return.\<close>

definition trim_ascii :: "byte list \<Rightarrow> byte list" where
  "trim_ascii bs =
     (let blank = (\<lambda>b. unat b \<in> {9, 10, 12, 13, 32}) in rev (dropWhile blank (rev (dropWhile blank bs))))"

definition solution_of :: "verify_env \<Rightarrow> byte list \<Rightarrow> solution option" where
  "solution_of E bytes = Option.bind (vn_unb64 E (trim_ascii bytes)) unpack_solution"

definition accept_solution :: "verify_env \<Rightarrow> verify_client \<Rightarrow> string \<Rightarrow> challenge_registration \<Rightarrow> solution \<Rightarrow> challenge_key \<Rightarrow> verify_state \<Rightarrow>
    response \<times> verify_state" where
  "accept_solution E c name reg sol pass_key s =
     (let level = unat (so_difficulty sol); host = ch_text (vc_host c) in
      case seal_pass E c name pass_key (be_bytes 8 (so_nonce sol) @ be_bytes 8 (so_probe sol)) level (duration_for reg level) of
        Inl resp \<Rightarrow> (resp, s)
      | Inr cookie \<Rightarrow>
          let (_, solves) = record_at (vn_hash E) (host, from_ip (vc_ip c)) (vn_minute E) (ct_solves (vs_tables s))
          in (body_response 200 [(''set-cookie'', cookie), (''cache-control'', ''private, no-store''), (''content-type'', ''application/json'')]
                (''{'' @ [CHR 0x22] @ ''ok'' @ [CHR 0x22] @ '':true}''),
              s\<lparr> vs_tables := (vs_tables s)\<lparr> ct_solves := solves \<rparr> \<rparr>))"

definition redeem_solution :: "verify_env \<Rightarrow> verify_client \<Rightarrow> string \<Rightarrow> challenge_registration \<Rightarrow> pow_challenge \<Rightarrow> challenge_binding \<Rightarrow> solution \<Rightarrow> verify_state \<Rightarrow>
    response \<times> verify_state" where
  "redeem_solution E c name reg pow binding sol s =
     (let level = unat (so_difficulty sol) in
      if \<not> in_difficulty_range pow level then (body_text 400 ''invalid difficulty'', s)
      else
        case verification_slot (vs_pending s) of
          (None, pending) \<Rightarrow> (body_status 503, s\<lparr> vs_pending := pending \<rparr>)
        | (Some _, pending) \<Rightarrow>
            (case redeem (so_key sol) binding level (vn_instant E) pending of
               (None, pending) \<Rightarrow> (body_text 403 ''invalid or spent challenge'', s\<lparr> vs_pending := release_slot pending \<rparr>)
             | (Some pass_key, pending) \<Rightarrow>
                 let s = s\<lparr> vs_pending := release_slot pending \<rparr>
                 in if \<not> vn_task_runs E then (body_status 500, s)
                    else if \<not> pow_verify (vn_sha256 E) pow (so_key sol) (so_nonce sol) level then (body_text 403 ''invalid proof of work'', s)
                    else accept_solution E c name reg sol pass_key s))"

definition handle_pow_verify :: "verify_env \<Rightarrow> string \<Rightarrow> verify_request \<Rightarrow> verify_state \<Rightarrow> response \<times> verify_state" where
  "handle_pow_verify E name r s =
     (case map_of (vn_registry E) name of None \<Rightarrow> (body_text 404 ''unknown challenge'', s)
      | Some reg \<Rightarrow>
      (case canonical_request_host E r of None \<Rightarrow> (body_text 400 ''invalid host'', s)
       | Some host \<Rightarrow>
      (case client_ip_for E r of None \<Rightarrow> (body_text 400 ''missing client address'', s)
       | Some ip \<Rightarrow>
      (case cr_runtime reg of
         RPow pow _ \<Rightarrow>
           (case client_admit E (client_of r host ip) name s of
              (Inl resp, s) \<Rightarrow> (resp, s)
            | (Inr binding, s) \<Rightarrow>
                (case vr_body r of
                   BodyFailed \<Rightarrow> (body_text 400 ''body too large'', s)
                 | BodyTimeout \<Rightarrow> (body_status 408, s)
                 | BodyBytes bytes \<Rightarrow>
                     (case solution_of E bytes of None \<Rightarrow> (body_text 400 ''invalid solution'', s)
                      | Some sol \<Rightarrow> redeem_solution E (client_of r host ip) name reg pow binding sol s)))
       | _ \<Rightarrow> (body_text 400 ''not a PoW challenge'', s)))))"

section \<open>Beacons\<close>

definition BEACON_BUCKET_SECS :: nat where "BEACON_BUCKET_SECS = 600"

fun beacon_tag :: "beacon_kind \<Rightarrow> string" where
  "beacon_tag Positive = ''render''"
| "beacon_tag Negative = ''never''"

definition beacon_message :: "byte list \<Rightarrow> byte list \<Rightarrow> string \<Rightarrow> u64 \<Rightarrow> beacon_kind \<Rightarrow> byte list" where
  "beacon_message server_key session host bucket kind = server_key @ session @ as_bytes host @ be_bytes 8 bucket @ as_bytes (beacon_tag kind)"

definition beacon_id :: "(byte list \<Rightarrow> byte list) \<Rightarrow> byte list \<Rightarrow> byte list \<Rightarrow> string \<Rightarrow> u64 \<Rightarrow> beacon_kind \<Rightarrow> string" where
  "beacon_id sha256 server_key session host bucket kind =
     hex_encode (take 16 (sha256 (beacon_message server_key session host bucket kind)))"

definition current_bucket :: "u64 \<Rightarrow> u64" where
  "current_bucket now = now div BEACON_BUCKET_SECS"

definition beacon_fragment :: "(byte list \<Rightarrow> byte list) \<Rightarrow> byte list \<Rightarrow> byte list \<Rightarrow> string \<Rightarrow> u64 \<Rightarrow> string" where
  "beacon_fragment sha256 server_key session host now =
     (let positive = beacon_id sha256 server_key session host (current_bucket now) Positive;
          negative = beacon_id sha256 server_key session host (current_bucket now) Negative;
          class = take 8 positive; quote = [CHR 0x22]
      in ''<style>.b'' @ class @ ''::after{content:'' @ quote @ quote @ '';position:absolute;width:1px;height:1px;opacity:0;'' @
         ''background:url('' @ BEACON_PREFIX @ positive @ ''.svg)}@media not all{.b'' @ class @ ''::before{content:'' @ quote @ quote @
         '';background:url('' @ BEACON_PREFIX @ negative @ ''.svg)}}</style><i class='' @ quote @ ''b'' @ class @ quote @ ''></i>'')"

definition classify_beacon :: "(byte list \<Rightarrow> byte list) \<Rightarrow> byte list \<Rightarrow> byte list \<Rightarrow> string \<Rightarrow> u64 \<Rightarrow> string \<Rightarrow> beacon_kind option" where
  "classify_beacon sha256 server_key session host now ident =
     (let bucket = current_bucket now in
      map_option snd (List.find (\<lambda>(candidate, kind). beacon_id sha256 server_key session host candidate kind = ident)
        [(bucket, Positive), (bucket, Negative), (bucket - 1, Positive), (bucket - 1, Negative)]))"

definition beacon_response :: response where
  "beacon_response =
     (let quote = [CHR 0x22] in
      body_response 200 [(''content-type'', ''image/svg+xml''), (''cache-control'', ''private, no-store'')]
        (''<svg xmlns='' @ quote @ ''http://www.w3.org/2000/svg'' @ quote @ '' width='' @ quote @ ''1'' @ quote @ '' height='' @ quote @ ''1'' @ quote @ ''/>''))"

definition handle_beacon :: "verify_env \<Rightarrow> string \<Rightarrow> verify_request \<Rightarrow> verify_state \<Rightarrow> response \<times> verify_state" where
  "handle_beacon E ident r s =
     (beacon_response,
      case canonical_request_host E r of None \<Rightarrow> s
      | Some host \<Rightarrow>
          (case rc_token (carried_state E (vr_headers r) (ch_text host) (client_ip_for E r)) of None \<Rightarrow> s
           | Some t \<Rightarrow>
               (case classify_beacon (vn_sha256 E) (vn_server_key E) (tk_session t) (ch_text host) (nat (vn_now E)) ident of None \<Rightarrow> s
                | Some kind \<Rightarrow>
                    s\<lparr> vs_tables := (vs_tables s)\<lparr> ct_visits := record_beacon (tk_session t) kind (vn_instant E) (ct_visits (vs_tables s)) \<rparr> \<rparr>)))"

section \<open>Routing\<close>

definition asset_response :: "verify_env \<Rightarrow> internal \<Rightarrow> string \<Rightarrow> response" where
  "asset_response E route content_type =
     body_response 200 [(''content-type'', content_type), (''cache-control'', ''public, max-age=31536000, immutable'')] (vn_asset E route)"

definition method_not_allowed :: "string \<Rightarrow> response" where
  "method_not_allowed allow = (body_status 405)\<lparr> rp_headers := [(''allow'', allow)] \<rparr>"

definition dispatch :: "verify_env \<Rightarrow> (verify_request \<Rightarrow> verify_state \<Rightarrow> response \<times> verify_state) \<Rightarrow> verify_request \<Rightarrow> verify_state \<Rightarrow>
    response \<times> verify_state" where
  "dispatch E main r s =
     (case internal_route (vr_path r) of None \<Rightarrow> main r s
      | Some route \<Rightarrow>
          let readable = (vr_method r = ''GET'' \<or> vr_method r = ''HEAD''); posted = (vr_method r = ''POST'');
              script = ''application/javascript; charset=utf-8''
          in case route of
               Verify name \<Rightarrow>
                 if readable then handle_verify E name r s
                 else if posted then handle_pow_verify E name r s
                 else (method_not_allowed ''GET,HEAD,POST'', s)
             | Beacon ident \<Rightarrow> if readable then handle_beacon E ident r s else (method_not_allowed ''GET,HEAD'', s)
             | Solver \<Rightarrow>
                 (if readable then vn_solver E (route_query_param (vr_query r) ''variant'') r else method_not_allowed ''GET,HEAD'', s)
             | Css \<Rightarrow> (if readable then asset_response E Css ''text/css; charset=utf-8'' else method_not_allowed ''GET,HEAD'', s)
             | script_route \<Rightarrow> (if readable then asset_response E script_route script else method_not_allowed ''GET,HEAD'', s))"

end
