(* ===== verification/Verify_Theorems.thy ===== *)
theory Verify_Theorems
  imports Verify_Endpoints
begin

text \<open>
  What the verify endpoints guarantee: a pass is sealed only by spending a pending challenge of the
  same visitor, and for a proof of work only with a nonce that satisfies the difficulty; a visitor
  who solves the challenge in time is admitted and gets through the rule that asked for it; and
  beacons are recognised for the session they were rendered for.
\<close>

section \<open>Spending a challenge\<close>

lemma redeem_spends:
  assumes "table_ok (pend_table s)" "redeem key b level now s = (Some pass, s')"
  shows "\<exists>p. (key, p) \<in> alive now (pending_map s) \<and> pc_binding p = bind_digest b \<and> offered p level \<and> pc_pass_key p = pass \<and>
    key \<notin> fst ` pending_map s'"
  using table_redeem_Some [OF assms(1) redeem_table [OF assms(2)]]
  by (auto simp: pending_map_def set_live)

lemma client_admit_Inr:
  assumes "client_admit E c name s = (Inr b, s')"
  shows "pend_table (vs_pending s') = pend_table (vs_pending s) \<and>
    (\<exists>t. rc_token (carried_state E (vc_headers c) (ch_text (vc_host c)) (Some (vc_ip c))) = Some t \<and> b = client_binding E c name t)"
  using assms by (auto simp: client_admit_def Let_def admit_table split: prod.splits if_splits option.splits)

lemma client_admit_Inl: "client_admit E c name s = (Inl resp, s') \<Longrightarrow> map_of (rp_headers resp) ''set-cookie'' = None"
  by (auto simp: client_admit_def Let_def body_status_def body_text_def body_response_def split: prod.splits if_splits option.splits)

lemma body_no_cookie [simp]:
  "map_of (rp_headers (body_text code text)) ''set-cookie'' = None" "map_of (rp_headers (body_status code)) ''set-cookie'' = None"
  by (simp_all add: body_text_def body_status_def body_response_def)

lemma method_no_cookie [simp]: "map_of (rp_headers (method_not_allowed allow)) ''set-cookie'' = None"
  by (simp add: method_not_allowed_def)

text \<open>The cookie a pass is sealed into, for the token the visitor carries.\<close>

definition sealed_pass :: "verify_env \<Rightarrow> verify_client \<Rightarrow> string \<Rightarrow> token \<Rightarrow> challenge_key \<Rightarrow> u32 \<Rightarrow> string \<Rightarrow> bool" where
  "sealed_pass E c name t key level cookie \<longleftrightarrow>
     (\<exists>result duration sealed.
        let t' = sealed_token name key result level (vc_stack c) duration (vn_now E) t in
        seal_token (vn_sealing E) (vn_nonce E) t'
          (derive_cookie_key (vn_sha256 E) (ch_text (vc_host c)) (ip_network_prefix (vc_ip c)) (vn_server_key E)) = Inr sealed \<and>
        cookie = cookie_text (vn_sha256 E) (ch_text (vc_host c)) (is_host_ip (vc_host c)) sealed (tk_exp t'))"

lemma seal_pass_Inr:
  assumes "seal_pass E c name key result level duration = Inr cookie"
    and "rc_token (carried_state E (vc_headers c) (ch_text (vc_host c)) (Some (vc_ip c))) = Some t"
  shows "sealed_pass E c name t key level cookie"
  using assms by (auto simp: seal_pass_def sealed_pass_def Let_def split: sum.splits)

lemma seal_pass_Inl: "seal_pass E c name key result level duration = Inl resp \<Longrightarrow> map_of (rp_headers resp) ''set-cookie'' = None"
  by (auto simp: seal_pass_def Let_def split: option.splits sum.splits)

text \<open>A pass granted to a client: the pending challenge it spent and the cookie it is in.\<close>

definition grants :: "verify_env \<Rightarrow> verify_client \<Rightarrow> string \<Rightarrow> challenge_key \<Rightarrow> u32 \<Rightarrow> string \<Rightarrow> verify_state \<Rightarrow> verify_state \<Rightarrow> bool" where
  "grants E c name key level cookie s s' \<longleftrightarrow>
     (\<exists>t p. rc_token (carried_state E (vc_headers c) (ch_text (vc_host c)) (Some (vc_ip c))) = Some t \<and>
        (key, p) \<in> alive (vn_instant E) (pending_map (vs_pending s)) \<and> pc_binding p = bind_digest (client_binding E c name t) \<and>
        offered p level \<and> key \<notin> fst ` pending_map (vs_pending s') \<and> sealed_pass E c name t (pc_pass_key p) level cookie)"

lemma redeem_redirect_grants:
  assumes "table_ok (pend_table (vs_pending s))" "redeem_redirect E c name reg token_hex redirect s = (resp, s')"
    and "map_of (rp_headers resp) ''set-cookie'' = Some cookie"
  shows "\<exists>key. grants E c name key 0 cookie s s'"
proof -
  obtain b s1 where admit: "client_admit E c name s = (Inr b, s1)"
    using assms(2,3) client_admit_Inl
    by (cases "client_admit E c name s"; cases "fst (client_admit E c name s)") (auto simp: redeem_redirect_def)
  from client_admit_Inr [OF admit] obtain t where table: "pend_table (vs_pending s1) = pend_table (vs_pending s)"
    and t: "rc_token (carried_state E (vc_headers c) (ch_text (vc_host c)) (Some (vc_ip c))) = Some t" "b = client_binding E c name t" by blast
  obtain key where key: "token_key E token_hex = Some key"
    using assms(2,3) admit by (cases "token_key E token_hex") (auto simp: redeem_redirect_def)
  obtain pass pending where r: "redeem key b 0 (vn_instant E) (vs_pending s1) = (Some pass, pending)"
    using assms(2,3) admit key by (cases "redeem key b 0 (vn_instant E) (vs_pending s1)"; cases "fst (redeem key b 0 (vn_instant E) (vs_pending s1))")
      (auto simp: redeem_redirect_def)
  have s': "s' = s1\<lparr> vs_pending := pending \<rparr>" and "seal_pass E c name pass [] 0 (cr_duration reg) = Inr cookie"
    using assms(2,3) admit key r seal_pass_Inl [of E c name pass "[]" 0 "cr_duration reg"]
    by (auto simp: redeem_redirect_def body_response_def split: sum.splits)
  with seal_pass_Inr t(1) have "sealed_pass E c name t pass 0 cookie" by blast
  moreover from redeem_spends [OF _ r] assms(1) table obtain p where "(key, p) \<in> alive (vn_instant E) (pending_map (vs_pending s1))"
    "pc_binding p = bind_digest b" "offered p 0" "pc_pass_key p = pass" "key \<notin> fst ` pending_map pending" by auto
  ultimately show ?thesis
    using t table s' by (auto simp: grants_def pending_map_def)
qed

lemma redeem_solution_grants:
  assumes "table_ok (pend_table (vs_pending s))" "redeem_solution E c name reg pow (client_binding E c name t) sol s = (resp, s')"
    and "rc_token (carried_state E (vc_headers c) (ch_text (vc_host c)) (Some (vc_ip c))) = Some t"
    and "map_of (rp_headers resp) ''set-cookie'' = Some cookie"
  shows "grants E c name (so_key sol) (unat (so_difficulty sol)) cookie s s' \<and> in_difficulty_range pow (unat (so_difficulty sol)) \<and>
    pow_verify (vn_sha256 E) pow (so_key sol) (so_nonce sol) (unat (so_difficulty sol))"
proof -
  let ?b = "client_binding E c name t" and ?level = "unat (so_difficulty sol)"
  have range: "in_difficulty_range pow ?level" using assms(2,4) by (auto simp: redeem_solution_def Let_def split: if_splits)
  obtain pending0 where slot: "verification_slot (vs_pending s) = (Some (), pending0)"
    using assms(2,4) range
    by (cases "verification_slot (vs_pending s)"; cases "fst (verification_slot (vs_pending s))") (auto simp: redeem_solution_def Let_def)
  obtain pass pending where r: "redeem (so_key sol) ?b ?level (vn_instant E) pending0 = (Some pass, pending)"
    using assms(2,4) range slot
    by (cases "redeem (so_key sol) ?b ?level (vn_instant E) pending0"; cases "fst (redeem (so_key sol) ?b ?level (vn_instant E) pending0)")
      (auto simp: redeem_solution_def Let_def)
  have verified: "pow_verify (vn_sha256 E) pow (so_key sol) (so_nonce sol) ?level"
    and accept: "accept_solution E c name reg sol pass (s\<lparr> vs_pending := release_slot pending \<rparr>) = (resp, s')"
    using assms(2,4) range slot r by (auto simp: redeem_solution_def Let_def split: if_splits)
  obtain result duration where "seal_pass E c name pass result ?level duration = Inr cookie" and s': "vs_pending s' = release_slot pending"
    using accept assms(4) seal_pass_Inl by (fastforce simp: accept_solution_def body_response_def Let_def split: sum.splits prod.splits)
  with seal_pass_Inr assms(3) have "sealed_pass E c name t pass ?level cookie" by blast
  moreover have table: "pend_table pending0 = pend_table (vs_pending s)" by (rule slot_table [OF slot])
  moreover from redeem_spends [OF _ r] assms(1) table obtain p where "(so_key sol, p) \<in> alive (vn_instant E) (pending_map pending0)"
    "pc_binding p = bind_digest ?b" "offered p ?level" "pc_pass_key p = pass" "so_key sol \<notin> fst ` pending_map pending" by auto
  ultimately show ?thesis
    using assms(3) s' range verified by (auto simp: grants_def pending_map_def release_slot_def)
qed

lemma handle_verify_Some:
  assumes "handle_verify E name r s = (resp, s')" "map_of (rp_headers resp) ''set-cookie'' = Some cookie"
  shows "\<exists>reg host ip token_hex redirect. map_of (vn_registry E) name = Some reg \<and> canonical_request_host E r = Some host \<and>
    client_ip_for E r = Some ip \<and> runtime_redemption (cr_runtime reg) = RedeemRedirect \<and>
    redeem_redirect E (client_of r host ip) name reg token_hex redirect s = (resp, s')"
  using assms by (auto simp: handle_verify_def split: option.splits if_splits)

lemma handle_pow_verify_Some:
  assumes "handle_pow_verify E name r s = (resp, s')" "map_of (rp_headers resp) ''set-cookie'' = Some cookie"
  shows "\<exists>reg host ip pow shown t sol s1. map_of (vn_registry E) name = Some reg \<and> canonical_request_host E r = Some host \<and>
    client_ip_for E r = Some ip \<and> cr_runtime reg = RPow pow shown \<and> pend_table (vs_pending s1) = pend_table (vs_pending s) \<and>
    rc_token (carried_state E (vr_headers r) (ch_text host) (Some ip)) = Some t \<and>
    redeem_solution E (client_of r host ip) name reg pow (client_binding E (client_of r host ip) name t) sol s1 = (resp, s')"
proof -
  obtain reg host ip pow shown where parts: "map_of (vn_registry E) name = Some reg" "canonical_request_host E r = Some host"
    "client_ip_for E r = Some ip" "cr_runtime reg = RPow pow shown"
    using assms by (auto simp: handle_pow_verify_def split: option.splits challenge_runtime.splits)
  let ?c = "client_of r host ip"
  obtain b s1 where admit: "client_admit E ?c name s = (Inr b, s1)"
    using assms parts client_admit_Inl
    by (cases "client_admit E ?c name s"; cases "fst (client_admit E ?c name s)") (auto simp: handle_pow_verify_def)
  obtain sol where sol: "redeem_solution E ?c name reg pow b sol s1 = (resp, s')"
    using assms parts admit by (auto simp: handle_pow_verify_def split: option.splits body_read.splits)
  from client_admit_Inr [OF admit] sol parts show ?thesis by (auto simp: client_of_def)
qed

text \<open>C25. A pass is granted only for a challenge that was solved. When a verify request is answered
  with a cookie, the challenge it names is configured, the visitor carries a session, and the
  handler spent one pending challenge, alive until then and gone afterwards, that was issued to that
  session, host, network, user agent and policy revision at the level of the pass; for a proof of
  work the posted nonce satisfies that level, for the redirecting challenges the level is zero, and
  a block-list challenge is never redeemed. The cookie is the visitor's token with that pass.\<close>

theorem verify_spends_a_challenge:
  assumes "table_ok (pend_table (vs_pending s))" "internal_route (vr_path r) = Some (Verify name)"
    and "dispatch E main r s = (resp, s')" "map_of (rp_headers resp) ''set-cookie'' = Some cookie"
  shows "\<exists>reg host ip key level. map_of (vn_registry E) name = Some reg \<and> canonical_request_host E r = Some host \<and>
    client_ip_for E r = Some ip \<and> grants E (client_of r host ip) name key level cookie s s' \<and>
    (case cr_runtime reg of
       RPow pow _ \<Rightarrow> in_difficulty_range pow level \<and> (\<exists>nonce. pow_verify (vn_sha256 E) pow key nonce level)
     | RDnsbl _ \<Rightarrow> False
     | _ \<Rightarrow> level = 0)"
proof -
  have "handle_verify E name r s = (resp, s') \<or> handle_pow_verify E name r s = (resp, s')"
    using assms(2-4) by (auto simp: dispatch_def split: if_splits)
  then show ?thesis
  proof
    assume "handle_verify E name r s = (resp, s')"
    from handle_verify_Some [OF this assms(4)] redeem_redirect_grants [OF assms(1) _ assms(4)] obtain reg host ip key where
      "map_of (vn_registry E) name = Some reg" "canonical_request_host E r = Some host" "client_ip_for E r = Some ip"
      "runtime_redemption (cr_runtime reg) = RedeemRedirect" "grants E (client_of r host ip) name key 0 cookie s s'" by blast
    then show ?thesis by (cases "cr_runtime reg") auto
  next
    assume "handle_pow_verify E name r s = (resp, s')"
    from handle_pow_verify_Some [OF this assms(4)] obtain reg host ip pow shown t sol s1 where
      parts: "map_of (vn_registry E) name = Some reg" "canonical_request_host E r = Some host" "client_ip_for E r = Some ip"
        "cr_runtime reg = RPow pow shown" and table: "pend_table (vs_pending s1) = pend_table (vs_pending s)"
      and t: "rc_token (carried_state E (vr_headers r) (ch_text host) (Some ip)) = Some t"
      and run: "redeem_solution E (client_of r host ip) name reg pow (client_binding E (client_of r host ip) name t) sol s1 = (resp, s')"
      by blast
    have "grants E (client_of r host ip) name (so_key sol) (unat (so_difficulty sol)) cookie s1 s' \<and>
        in_difficulty_range pow (unat (so_difficulty sol)) \<and> pow_verify (vn_sha256 E) pow (so_key sol) (so_nonce sol) (unat (so_difficulty sol))"
      using assms(1) t by (intro redeem_solution_grants [OF _ run _ assms(4)]) (simp_all add: table client_of_def)
    moreover have "grants E c name key level cookie s1 s' \<longleftrightarrow> grants E c name key level cookie s s'" for c key level
      by (simp add: grants_def pending_map_def table)
    ultimately show ?thesis using parts by (auto simp del: split_paired_Ex)
  qed
qed

section \<open>From the challenge to the pass\<close>

text \<open>What issuing leaves behind: the pending challenge, bound to the session of the visitor's token.\<close>

definition issued_args :: "'s web_env \<Rightarrow> rule_eval \<Rightarrow> challenge_action \<Rightarrow> string \<Rightarrow> challenge_registration \<Rightarrow> byte list \<Rightarrow> ip_addr \<Rightarrow> issue_args" where
  "issued_args W ev ca name reg session address =
     \<lparr> ia_binding = challenge_binding_new (we_sha256 W) session (ev_host ev) address name (as_bytes (ev_user_agent ev)) (we_revision W),
       ia_pass_key = bucket_key W ev name reg, ia_level = demanded_level ca reg,
       ia_gpu_level = (case cr_runtime reg of RPow pow _ \<Rightarrow> gpu_level pow (demanded_level ca reg) | _ \<Rightarrow> None),
       ia_duration = cr_duration reg * 1000000000 \<rparr>"

lemma ensure_session_token: "ensure_session d now draw c = Inr (session, c') \<Longrightarrow> \<exists>t. rc_token c' = Some t \<and> tk_session t = session"
  by (auto simp: ensure_session_def Let_def split: option.splits if_splits)

lemma issue_key_issues:
  assumes "issue_key W ev ca name reg ws = Some (Inr key, ws')" "runtime_redemption (cr_runtime reg) \<noteq> RedeemNone"
    and "table_ok (pend_table (ws_pending ws))"
  shows "\<exists>t address. rc_token (ws_challenge ws') = Some t \<and> cx_remote_ip (ev_ctx ev) = Some address \<and>
    (key, pending_of (issued_args W ev ca name reg (tk_session t) address) (we_instant W)) \<in> pending_map (ws_pending ws')"
proof -
  from assms(1,2) obtain address session cs pending where parts: "cx_remote_ip (ev_ctx ev) = Some address"
    "ensure_session (cr_duration reg) (we_now W) (we_session_draw W) (ws_challenge ws) = Inr (session, cs)"
    "issue (we_hash W) (issued_args W ev ca name reg session address) (we_second W) (we_instant W) (we_key_draws W (Suc (ws_issues ws))) (ws_pending ws) =
       Some (Inr key, pending)" "ws_challenge ws' = cs" "ws_pending ws' = pending"
    by (auto simp: issue_key_def issued_args_def Let_def split: option.splits sum.splits)
  from issue_table [OF parts(3)] have "table_issue (issued_args W ev ca name reg session address) (we_instant W)
      (we_key_draws W (Suc (ws_issues ws))) (pend_table (ws_pending ws)) = Some (Inr key, pend_table pending)" by auto
  from table_issue_Inr [OF assms(3) this]
  have "(key, pending_of (issued_args W ev ca name reg session address) (we_instant W)) \<in> pending_map pending"
    by (auto simp: pending_map_def)
  with ensure_session_token [OF parts(2)] parts show ?thesis by auto
qed

lemma from_headers_valid: "rc_token (from_headers sha256 S cookies host server_key ip now) = Some t \<Longrightarrow> tk_nbf t \<le> now \<and> now \<le> tk_exp t"
  by (auto simp: from_headers_def Let_def rc_empty_def open_token_def result_simps split: option.splits sum.splits if_splits)

text \<open>A pass that was sealed opens again for the same network.\<close>

lemma sealed_pass_opens:
  assumes "sealing_ok (vn_sealing E) t'" "vn_nonce E = Some nonce" "length nonce = 12"
    and "seal_token (vn_sealing E) (vn_nonce E) t' (derive_cookie_key (vn_sha256 E) host (ip_network_prefix ip) (vn_server_key E)) = Inr sealed"
    and "ip_network_prefix ip' = ip_network_prefix ip" "tk_nbf t' \<le> later" "later \<le> tk_exp t'"
  shows "rc_token (from_headers (vn_sha256 E) (vn_sealing E) [takeWhile (\<lambda>ch. ch \<noteq> CHR '';'') (cookie_text (vn_sha256 E) host host_is_ip sealed expiry)]
    host (vn_server_key E) (Some ip') later) = Some t'"
  using open_seal_token [OF assms(1) assms(4) [unfolded assms(2)] assms(3)] assms(5-)
  by (simp add: from_headers_def Let_def rc_empty_def find_sealed_cookie [OF assms(1,4)])

text \<open>A fresh pass satisfies the check of the rule as long as the bucket its challenge was issued
  in is the current or the previous one.\<close>

lemma sealed_token_passes:
  assumes "rc_token (ws_challenge ws) = Some (sealed_token name key result level stack duration sealed t)"
    and "demanded_level ca reg \<le> level" "cx_stack (ev_ctx ev) = stack" "we_now W < sat_i64 (sealed + int duration)"
    and "0 < max_duration reg" "0 \<le> issued" "issued \<le> we_now W" "we_now W + int (max_duration reg) \<le> int i64_max"
    and "we_now W < bucket_expiry issued (int (max_duration reg)) + int (max_duration reg)"
    and "key = derive_challenge_key (we_sha256 W) name (cx_remote_ip (ev_ctx ev)) (bucket_expiry issued (int (max_duration reg))) (we_key_fingerprint W)"
  shows "challenge_passed W ev ca name reg ws"
proof -
  let ?step = "int (max_duration reg)"
  have bucket: "bucket_expiry (we_now W) ?step = bucket_expiry issued ?step \<or> bucket_expiry (we_now W) ?step - ?step = bucket_expiry issued ?step"
    using assms(5-9) by (subst bucket_window) auto
  have "is_challenge_passed name key (demanded_level ca reg) (cx_stack (ev_ctx ev)) (we_now W) (ws_challenge ws)"
    using assms(1-4) stack_matches_self by (auto simp: is_challenge_passed_def sealed_token_def Let_def split: option.splits)
  with bucket assms(10) show ?thesis
    by (auto simp: challenge_passed_def already_passed_def Let_def)
qed

lemma table_slot: "0 < pend_slots s \<Longrightarrow> verification_slot s = (Some (), s\<lparr> pend_slots := pend_slots s - 1 \<rparr>)"
  by (simp add: verification_slot_def)

lemma redeem_pending:
  assumes "table_ok (pend_table s)" "(key, p) \<in> alive now (pending_map s)" "pc_binding p = bind_digest b" "offered p level"
  shows "\<exists>s'. redeem key b level now s = (Some (pc_pass_key p), s')"
  using table_redeem_succeeds [OF assms(1), of key p now b level] assms(2-)
  by (auto simp: redeem_def pending_map_def split: prod.splits)

text \<open>The whole handler on a solved challenge.\<close>

lemma handle_pow_verify_accepts:
  assumes table: "table_ok (pend_table (vs_pending s))"
    and reg: "map_of (vn_registry E) name = Some reg" "cr_runtime reg = RPow pow shown"
    and client: "canonical_request_host E r = Some host" "client_ip_for E r = Some ip" "pool_select (vn_backends E) (ch_text host) \<noteq> None"
    and admitted: "fst (admit_verification (vn_hash E) (ch_text host) ip (vn_second E) (vs_pending s))" "0 < pend_slots (vs_pending s)" "vn_task_runs E"
    and carried: "rc_token (carried_state E (vr_headers r) (ch_text host) (Some ip)) = Some t"
    and pending: "(so_key sol, p) \<in> alive (vn_instant E) (pending_map (vs_pending s))"
      "pc_binding p = bind_digest (client_binding E (client_of r host ip) name t)" "offered p (unat (so_difficulty sol))"
    and solved: "vr_body r = BodyBytes bytes" "solution_of E bytes = Some sol" "in_difficulty_range pow (unat (so_difficulty sol))"
      "pow_verify (vn_sha256 E) pow (so_key sol) (so_nonce sol) (unat (so_difficulty sol))"
    and sealed: "seal_pass E (client_of r host ip) name (pc_pass_key p) (be_bytes 8 (so_nonce sol) @ be_bytes 8 (so_probe sol)) (unat (so_difficulty sol))
      (duration_for reg (unat (so_difficulty sol))) = Inr cookie"
  shows "\<exists>resp s'. handle_pow_verify E name r s = (resp, s') \<and> rp_status resp = 200 \<and> map_of (rp_headers resp) ''set-cookie'' = Some cookie"
proof -
  let ?c = "client_of r host ip"
  obtain s1 where admit: "client_admit E ?c name s = (Inr (client_binding E ?c name t), s1)"
    and s1: "pend_table (vs_pending s1) = pend_table (vs_pending s)" "pend_slots (vs_pending s1) = pend_slots (vs_pending s)"
    using client(3) admitted(1) carried
    by (cases "record_at (vn_hash E) (ch_text host, from_ip ip) (vn_second E) (ct_rate (vs_tables s))")
      (auto simp: client_admit_def client_of_def Let_def admit_verification_def split: prod.splits)
  define pend where "pend = (vs_pending s1)\<lparr> pend_slots := pend_slots (vs_pending s1) - 1 \<rparr>"
  have slot: "verification_slot (vs_pending s1) = (Some (), pend)" using admitted(2) by (simp add: table_slot s1 pend_def)
  have "(so_key sol, p) \<in> alive (vn_instant E) (pending_map pend)" "table_ok (pend_table pend)"
    using pending(1) table by (simp_all add: pending_map_def pend_def s1)
  from redeem_pending [OF this(2,1) pending(2,3)] obtain pend' where
    "redeem (so_key sol) (client_binding E ?c name t) (unat (so_difficulty sol)) (vn_instant E) pend = (Some (pc_pass_key p), pend')" by blast
  then show ?thesis
    using reg client(1,2) admit solved admitted(3) slot sealed
    by (auto simp: handle_pow_verify_def redeem_solution_def accept_solution_def body_response_def Let_def split: prod.splits)
qed

text \<open>C24. Solving the challenge lets a visitor through. A rule issued a proof-of-work challenge to a
  visitor. If the visitor posts a solution of it while it is pending, with the session and the user
  agent it was issued to, to a server that is neither over its rate limits nor out of verification
  slots, the answer is 200 with a cookie; and a later request from the same network that brings the
  cookie back passes the check of the rule, at the level that was demanded, until the pass expires
  or the second bucket of the challenge ends. The sealing libraries do what they document.\<close>

theorem solving_gets_through:
  fixes W :: "'s web_env" and W' :: "'s web_env"
  assumes issued: "issue_key W ev ca name reg ws = Some (Inr key, ws')" "table_ok (pend_table (ws_pending ws))" "rc_token (ws_challenge ws') = Some session"
    and reg: "cr_runtime reg = RPow pow shown" "map_of (vn_registry E) name = Some reg" "0 < max_duration reg"
    and same: "we_sha256 W = vn_sha256 E" "we_revision W = vn_revision E" "we_sha256 W' = we_sha256 W" "we_key_fingerprint W' = we_key_fingerprint W"
    and server: "table_ok (pend_table (vs_pending s))" "0 < pend_slots (vs_pending s)" "vn_task_runs E" "vn_nonce E = Some nonce" "length nonce = 12"
      "fst (admit_verification (vn_hash E) (ev_host ev) ip (vn_second E) (vs_pending s))" "pool_select (vn_backends E) (ev_host ev) \<noteq> None"
    and still: "\<forall>p. (key, p) \<in> pending_map (ws_pending ws') \<longrightarrow> (key, p) \<in> alive (vn_instant E) (pending_map (vs_pending s))"
    and post: "internal_route (vr_path r) = Some (Verify name)" "vr_method r = ''POST''" "canonical_request_host E r = Some host" "ch_text host = ev_host ev"
      "client_ip_for E r = Some ip" "user_agent_bytes (vr_headers r) = as_bytes (ev_user_agent ev)"
      "rc_token (carried_state E (vr_headers r) (ev_host ev) (Some ip)) = Some t" "tk_session t = tk_session session"
    and solved: "vr_body r = BodyBytes bytes" "solution_of E bytes = Some sol" "so_key sol = key" "unat (so_difficulty sol) = demanded_level ca reg"
      "in_difficulty_range pow (demanded_level ca reg)" "pow_verify (vn_sha256 E) pow key (so_nonce sol) (demanded_level ca reg)"
    and sealing: "sealing_ok (vn_sealing E) (sealed_token name (bucket_key W ev name reg) (be_bytes 8 (so_nonce sol) @ be_bytes 8 (so_probe sol))
      (demanded_level ca reg) (vr_stack r) (duration_for reg (demanded_level ca reg)) (vn_now E) t)"
    and later: "vn_now E \<le> we_now W'" "0 \<le> we_now W" "we_now W \<le> vn_now E" "we_now W' < sat_i64 (vn_now E + int (duration_for reg (demanded_level ca reg)))"
      "we_now W' < bucket_expiry (we_now W) (int (max_duration reg)) + int (max_duration reg)" "we_now W' + int (max_duration reg) \<le> int i64_max"
    and visitor: "cx_remote_ip (ev_ctx ev') = Some ip'" "ip_network_prefix ip' = ip_network_prefix ip" "cx_remote_ip (ev_ctx ev) = cx_remote_ip (ev_ctx ev')"
      "cx_stack (ev_ctx ev') = vr_stack r"
  shows "\<exists>resp s' cookie. dispatch E main r s = (resp, s') \<and> rp_status resp = 200 \<and> map_of (rp_headers resp) ''set-cookie'' = Some cookie \<and>
    challenge_passed W' ev' ca name reg (ws2\<lparr> ws_challenge := from_headers (vn_sha256 E) (vn_sealing E)
      [takeWhile (\<lambda>ch. ch \<noteq> CHR '';'') cookie] (ev_host ev) (vn_server_key E) (Some ip') (we_now W') \<rparr>)"
proof -
  let ?level = "demanded_level ca reg" and ?c = "client_of r host ip"
  let ?result = "be_bytes 8 (so_nonce sol) @ be_bytes 8 (so_probe sol)"
  from issue_key_issues [OF issued(1) _ issued(2)] reg(1) issued(3) obtain address where
    pending: "(key, pending_of (issued_args W ev ca name reg (tk_session session) address) (we_instant W)) \<in> pending_map (ws_pending ws')"
    by auto
  define p where "p = pending_of (issued_args W ev ca name reg (tk_session session) address) (we_instant W)"
  have p: "pc_pass_key p = bucket_key W ev name reg" "offered p ?level" "pc_binding p = bind_digest (client_binding E ?c name t)"
    using post same by (simp_all add: p_def pending_of_def issued_args_def offered_def client_binding_def challenge_binding_new_def client_of_def)
  define t' where "t' = sealed_token name (pc_pass_key p) ?result ?level (vr_stack r) (duration_for reg ?level) (vn_now E) t"
  have ok: "sealing_ok (vn_sealing E) t'" using sealing by (simp add: t'_def p(1))
  obtain sealed where sealed: "seal_token (vn_sealing E) (vn_nonce E) t'
      (derive_cookie_key (vn_sha256 E) (ev_host ev) (ip_network_prefix ip) (vn_server_key E)) = Inr sealed"
    using server(4) by (auto simp: seal_token_def Let_def)
  define cookie where "cookie = cookie_text (vn_sha256 E) (ev_host ev) (is_host_ip host) sealed (tk_exp t')"
  have pass: "seal_pass E ?c name (pc_pass_key p) ?result ?level (duration_for reg ?level) = Inr cookie"
    using post(4,7) sealed by (simp add: seal_pass_def client_of_def Let_def t'_def [symmetric] cookie_def)
  have "\<exists>resp s'. handle_pow_verify E name r s = (resp, s') \<and> rp_status resp = 200 \<and> map_of (rp_headers resp) ''set-cookie'' = Some cookie"
    by (rule handle_pow_verify_accepts [OF server(1) reg(2,1) post(3,5) _ _ server(2,3) _ _ p(3) _ solved(1,2)])
      (use still pending p pass solved post(4,7) server(6,7) in \<open>simp_all add: p_def [symmetric]\<close>)
  moreover have "tk_nbf t' \<le> we_now W'" "we_now W' \<le> tk_exp t'"
    using from_headers_valid [OF post(7) [unfolded carried_state_def]] later(1,4) by (auto simp: t'_def sealed_token_def Let_def)
  then have "rc_token (from_headers (vn_sha256 E) (vn_sealing E) [takeWhile (\<lambda>ch. ch \<noteq> CHR '';'') cookie] (ev_host ev) (vn_server_key E) (Some ip') (we_now W')) = Some t'"
    unfolding cookie_def by (intro sealed_pass_opens [OF ok server(4,5) sealed visitor(2)])
  then have "challenge_passed W' ev' ca name reg (ws2\<lparr> ws_challenge := from_headers (vn_sha256 E) (vn_sealing E)
      [takeWhile (\<lambda>ch. ch \<noteq> CHR '';'') cookie] (ev_host ev) (vn_server_key E) (Some ip') (we_now W') \<rparr>)"
    using later reg(3) visitor(4) p(1)
    by (intro sealed_token_passes [where key = "pc_pass_key p" and issued = "we_now W"])
      (auto simp: t'_def bucket_key_def same visitor)
  moreover have "dispatch E main r s = handle_pow_verify E name r s" using post(1,2) by (simp add: dispatch_def)
  ultimately show ?thesis by auto
qed

section \<open>User agents that are not text\<close>

lemma as_bytes_text: "list_all (\<lambda>c. 32 \<le> code_of c \<and> code_of c < 127) s \<Longrightarrow> header_to_str (as_bytes s) = Some s"
proof -
  assume visible: "list_all (\<lambda>c. 32 \<le> code_of c \<and> code_of c < 127) s"
  have "unat (of_nat (of_char c) :: byte) = of_char c" for c
    by (simp add: unat_of_nat take_bit_eq_mod)
  with visible show ?thesis by (simp add: header_to_str_def as_bytes_def code_of_def list_all_iff comp_def)
qed

lemma opaque_not_text:
  assumes "header_to_str v = None"
  shows "v \<noteq> as_bytes ''unknown''"
proof
  assume v: "v = as_bytes ''unknown''"
  have "list_all (\<lambda>c. 32 \<le> code_of c \<and> code_of c < 127) ''unknown''" by (simp add: code_of_def)
  from as_bytes_text [OF this] v assms show False by simp
qed

text \<open>A visitor whose user agent is not text cannot redeem a challenge. Challenges are bound to
  the user agent as text, with a fixed word when it is not, while the verify handlers bind the raw
  bytes; so with a user agent header that has a byte outside ASCII no challenge issued to the
  visitor is ever redeemed, whatever the solution. (Assuming the two bound messages have
  different digests.)\<close>

theorem opaque_agent_refused:
  assumes "inj_on (vn_sha256 E) {binding_message session host name (as_bytes ''unknown'') (vn_revision E),
      binding_message (tk_session t) (ch_text (vc_host c)) name v (vn_revision E)}"
    and "table_ok (pend_table (vs_pending s))" "(key, p) \<in> pending_map (vs_pending s)"
    and "pc_binding p = bind_digest (challenge_binding_new (vn_sha256 E) session host address name (as_bytes (request_user_agent (vc_headers c))) (vn_revision E))"
    and "map_of (vc_headers c) ''user-agent'' = Some v" "header_to_str v = None" "vn_revision E \<le> u64_max"
    and "list_all (\<lambda>n. n < 2 ^ 64) [length session, length (tk_session t), length host, length (ch_text (vc_host c)), length name, length v]"
  shows "fst (redeem key (client_binding E c name t) level (vn_instant E) (vs_pending s)) = None"
proof -
  have agent: "request_user_agent (vc_headers c) = ''unknown''" "user_agent_bytes (vc_headers c) = v"
    using assms(5,6) by (simp_all add: request_user_agent_def user_agent_bytes_def)
  have differ: "pc_binding p \<noteq> bind_digest (client_binding E c name t)"
  proof
    assume "pc_binding p = bind_digest (client_binding E c name t)"
    then have "binding_message session host name (as_bytes ''unknown'') (vn_revision E) =
        binding_message (tk_session t) (ch_text (vc_host c)) name v (vn_revision E)"
      using assms(1,4) by (auto simp: client_binding_def challenge_binding_new_def agent dest: inj_onD)
    from binding_message_parts [OF this] assms(7,8) have "as_bytes ''unknown'' = v" by simp
    with opaque_not_text [OF assms(6)] show False by simp
  qed
  have unique: "q = p" if "(key, q) \<in> pending_map (vs_pending s)" for q
    using that assms(2,3) eq_key_imp_eq_value by (auto simp: pending_map_def table_ok_def)
  have "redeem key (client_binding E c name t) level (vn_instant E) (vs_pending s) \<noteq> (Some pass, s')" for pass s'
  proof
    assume "redeem key (client_binding E c name t) level (vn_instant E) (vs_pending s) = (Some pass, s')"
    from redeem_spends [OF assms(2) this] obtain q where "(key, q) \<in> pending_map (vs_pending s)"
      "pc_binding q = bind_digest (client_binding E c name t)" by auto
    with unique differ show False by blast
  qed
  then show ?thesis by (metis option.exhaust prod.collapse)
qed

section \<open>Beacons are recognised\<close>

lemma hex_encode_inject: "hex_encode a = hex_encode b \<longleftrightarrow> a = b"
  using hex_roundtrip by (metis option.inject)

lemma beacon_message_inject:
  assumes "b < 2 ^ 64" "b' < 2 ^ 64" "length session = length session'"
  shows "beacon_message k session host b kind = beacon_message k session' host b' kind' \<longleftrightarrow> session = session' \<and> b = b' \<and> kind = kind'"
proof -
  have "kind = kind'" if "length (as_bytes (beacon_tag kind)) = length (as_bytes (beacon_tag kind'))"
    using that by (cases kind; cases kind') simp_all
  moreover have "be_bytes 8 b = be_bytes 8 b' \<longleftrightarrow> b = b'" using assms(1,2) by (intro be_bytes_inject) simp_all
  ultimately show ?thesis using assms(3) by (auto simp: beacon_message_def)
qed

text \<open>The messages of two sessions around a bucket.\<close>

definition beacon_messages :: "byte list \<Rightarrow> byte list list \<Rightarrow> string \<Rightarrow> u64 \<Rightarrow> byte list set" where
  "beacon_messages k sessions host now =
     {beacon_message k x host b kind | x b kind. x \<in> set sessions \<and> b \<in> {current_bucket now, current_bucket now - 1}}"

lemma beacon_id_route:
  assumes "\<And>m. 16 \<le> length (sha256 m)"
  shows "internal_route (BEACON_PREFIX @ beacon_id sha256 k session host b kind @ ''.svg'') = Some (Beacon (beacon_id sha256 k session host b kind))"
proof -
  let ?id = "beacon_id sha256 k session host b kind"
  have len: "length (hex_encode bs) = 2 * length bs" for bs by (induction bs) (simp_all add: hex_encode_def)
  have "list_all is_hexdigit (hex_encode bs)" for bs
    by (induction bs) (simp_all add: hex_encode_def is_hexdigit_def hex_digit_nibble unat_byte_less div_less_iff_less_mult)
  then have "list_all is_hexdigit ?id" "length ?id = 32" using assms by (simp_all add: beacon_id_def len)
  moreover have "strip_prefix BEACON_PREFIX (BEACON_PREFIX @ ?id @ ''.svg'') = Some (?id @ ''.svg'')" by (simp add: strip_prefix_iff)
  moreover have "strip_suffix ''.svg'' (?id @ ''.svg'') = Some ?id" by (simp add: strip_suffix_iff)
  ultimately have "beacon_route (BEACON_PREFIX @ ?id @ ''.svg'') = Some ?id" by (simp add: beacon_route_def)
  then show ?thesis by (simp add: internal_route_def BEACON_PREFIX_def)
qed

text \<open>A beacon counts for the session it was rendered for and for no other. The address of a beacon
  routes to the beacon handler with its identifier; for ten minutes after it was served it is
  recognised as the beacon it is, positive or negative; and it is not recognised for another
  session. The answer is the same image in every case. (The digest gives at least 16 bytes, and no
  two of the messages of these sessions agree in the first 16 bytes of their digest.)\<close>

theorem beacon_recognised:
  assumes "inj_on (\<lambda>m. take 16 (sha256 m)) (beacon_messages server_key [session, other] host now)" "\<And>m. 16 \<le> length (sha256 m)"
    and "served \<le> now" "now \<le> served + BEACON_BUCKET_SECS" "now < 2 ^ 64" "length other = length session" "other \<noteq> session"
    and "ident = beacon_id sha256 server_key session host (current_bucket served) kind"
  shows "internal_route (BEACON_PREFIX @ ident @ ''.svg'') = Some (Beacon ident) \<and>
    classify_beacon sha256 server_key session host now ident = Some kind \<and>
    classify_beacon sha256 server_key other host now ident = None \<and>
    fst (handle_beacon E ident r s) = fst (handle_beacon E ident' r' s')"
proof -
  have window: "current_bucket served = current_bucket now \<or> current_bucket served = current_bucket now - 1"
    using assms(3,4) by (simp add: current_bucket_def BEACON_BUCKET_SECS_def) linarith
  have small: "current_bucket now < 2 ^ 64" "current_bucket now - 1 < 2 ^ 64"
    using assms(5) by (simp_all add: current_bucket_def BEACON_BUCKET_SECS_def div_less_iff_less_mult)
  have match: "beacon_id sha256 server_key x host b k = ident \<longleftrightarrow> x = session \<and> b = current_bucket served \<and> k = kind"
    if "x \<in> {session, other}" "b \<in> {current_bucket now, current_bucket now - 1}" for x b k
  proof -
    have "beacon_message server_key x host b k \<in> beacon_messages server_key [session, other] host now"
      "beacon_message server_key session host (current_bucket served) kind \<in> beacon_messages server_key [session, other] host now"
      using that window by (auto simp: beacon_messages_def)
    then have "beacon_id sha256 server_key x host b k = ident \<longleftrightarrow>
        beacon_message server_key x host b k = beacon_message server_key session host (current_bucket served) kind"
      unfolding assms(8) beacon_id_def hex_encode_inject by (rule inj_on_eq_iff [OF assms(1)])
    also have "\<dots> \<longleftrightarrow> x = session \<and> b = current_bucket served \<and> k = kind"
      using that window small assms(6) by (intro beacon_message_inject) auto
    finally show ?thesis .
  qed
  have "classify_beacon sha256 server_key session host now ident = Some kind"
    using window by (cases kind) (auto simp: classify_beacon_def Let_def match simp del: One_nat_def)
  moreover have "classify_beacon sha256 server_key other host now ident = None"
    using assms(7) by (simp add: classify_beacon_def Let_def match del: One_nat_def)
  ultimately show ?thesis
    using beacon_id_route [OF assms(2)] by (simp add: assms(8) handle_beacon_def)
qed

end
