(* ===== verification/Verify_Examples.thy ===== *)
theory Verify_Examples
  imports Verify_Theorems
begin

text \<open>
  A visitor of a small site: a rule issues a proof of work of eight bits, the visitor posts the
  solution and comes back with the cookie. The libraries are replaced by instances that satisfy
  what is asked of them: the digest is the identity, hexadecimal stands for Base64, and a
  ciphertext carries its key.
\<close>

section \<open>The site\<close>

definition vx_pow :: pow_challenge where
  "vx_pow = \<lparr> pw_kind = Sha256, pw_difficulty = 8, pw_blocks_log2 = 0, pw_gpu_difficulty = None, pw_gpu_required = False \<rparr>"

definition vx_reg :: challenge_registration where
  "vx_reg = \<lparr> cr_class = Blocking, cr_duration = 60, cr_gpu_duration = None, cr_runtime = RPow vx_pow Hidden \<rparr>"

definition vx_key :: challenge_key where
  "vx_key = replicate 32 0"

definition vx_web :: "i64 \<Rightarrow> unit web_env" where
  "vx_web now = \<lparr> we_engine = (\<lambda>s _. (None, s)), we_scope = (\<lambda>_. ()), we_registry = [(''pow'', vx_reg)], we_sha256 = (\<lambda>m. m), we_key_fingerprint = [1],
     we_revision = 7, we_hash = (\<lambda>_. 0), we_now = now, we_instant = 0, we_second = 0, we_session_draw = Some [5],
     we_key_draws = (\<lambda>_. [Some vx_key]), we_lookup = (\<lambda>_. None), we_expand = (\<lambda>_ _ _. None),
     we_error_page = (\<lambda>_ title _. title), we_challenge_page = (\<lambda>name _ _. name), we_embed = (\<lambda>name _ _. name), we_maze_page = (\<lambda>_ _. None),
     we_smear_page = (\<lambda>_ _. []), we_lure = (\<lambda>_ _ _. None), we_beacon = (\<lambda>_. []), we_offense_source = True \<rparr>"

definition vx_eval :: rule_eval where
  "vx_eval = \<lparr> ev_ctx = ctx_from_request (\<lambda>_. []) \<lparr> rq_method = ''GET'', rq_path = ''/'', rq_query = None, rq_version = ''HTTP/1.1'', rq_headers = [],
       rq_peer = Some (V4 1, 443), rq_fp = [], rq_fp_identity = None, rq_fp_stack = None, rq_http2_status = ''unavailable'', rq_http2_fields = [] \<rparr>,
     ev_host = ''a.b'', ev_path = ''/'', ev_uri = ''/'', ev_user_agent = ''unknown'', ev_headers = [] \<rparr>"

definition vx_ca :: challenge_action where
  "vx_ca = ChallengeAction [''pow''] 451 None ActPass (ActDeny 403)"

definition vx_start :: web_state where
  "vx_start = \<lparr> ws_challenge = rc_empty, ws_pending = pending_default, ws_issues = 0, ws_dnsbl = [], ws_smear_slots = 2, ws_offenses = [] \<rparr>"

definition vx_session :: token where
  "vx_session = \<lparr> tk_session = [5], tk_state = [], tk_pending = True, tk_exp = 160, tk_nbf = 100, tk_iat = 100 \<rparr>"

definition vx_pending :: pending_challenge where
  "vx_pending = pending_of (issued_args (vx_web 100) vx_eval vx_ca ''pow'' vx_reg [5] (V4 1)) 0"

lemma vx_ctx: "cx_remote_ip (ev_ctx vx_eval) = Some (V4 1)" "cx_stack (ev_ctx vx_eval) = None"
  by (simp_all add: vx_eval_def ctx_from_request_def Let_def)

lemma vx_level: "demanded_level vx_ca vx_reg = 8" "max_duration vx_reg = 60" "duration_for vx_reg 8 = 60" "cr_runtime vx_reg = RPow vx_pow Hidden"
  by (simp_all add: demanded_level_def vx_ca_def vx_reg_def vx_pow_def max_duration_def duration_for_def)

lemma vx_issue:
  "\<exists>ws. issue_key (vx_web 100) vx_eval vx_ca ''pow'' vx_reg vx_start = Some (Inr vx_key, ws) \<and> rc_token (ws_challenge ws) = Some vx_session \<and>
     pend_table (ws_pending ws) = \<lparr> pt_challenges = [(vx_key, vx_pending)], pt_expiries = [((60000000000, vx_key), ())] \<rparr> \<and>
     pend_slots (ws_pending ws) = 8 \<and> pend_verification (ws_pending ws) = tracker_new CAPACITY"
proof -
  have session: "ensure_session 60 100 (Some [5]) rc_empty = Inr ([5], rc_empty\<lparr> rc_token := Some vx_session, rc_modified := True \<rparr>)"
    by (simp add: ensure_session_def rc_empty_def sat_i64_def i64_min_def width_simps vx_session_def Let_def)
  have args: "issued_args (vx_web 100) vx_eval vx_ca ''pow'' vx_reg [5] (V4 1) =
      \<lparr> ia_binding = challenge_binding_new (\<lambda>m. m) [5] ''a.b'' (V4 1) ''pow'' (as_bytes ''unknown'') 7,
        ia_pass_key = bucket_key (vx_web 100) vx_eval ''pow'' vx_reg, ia_level = 8, ia_gpu_level = None, ia_duration = 60000000000 \<rparr>"
    using vx_level(1) by (simp add: issued_args_def vx_web_def vx_eval_def vx_reg_def gpu_level_def vx_pow_def)
  have "\<exists>p. issue (\<lambda>_. 0) (issued_args (vx_web 100) vx_eval vx_ca ''pow'' vx_reg [5] (V4 1)) 0 0 [Some vx_key] pending_default = Some (Inr vx_key, p) \<and>
      pend_table p = \<lparr> pt_challenges = [(vx_key, vx_pending)], pt_expiries = [((60000000000, vx_key), ())] \<rparr> \<and> pend_slots p = 8 \<and>
      pend_verification p = tracker_new CAPACITY"
    unfolding vx_pending_def args
    by (simp add: issue_def pending_default_def record_at_def tracker_new_def SHARD_COUNT_def
        shard_record_def Let_def record_snapshot_def record_entry_def fresh_entry_def WINDOW_def advance_def
        count_event_def sat_add32_def bucket_sum_def width_simps table_issue_def table_expire_def CAPACITY_def
        table_insert_def bt_remove_def pending_of_def LIFETIME_def)
  then obtain p where p: "issue (\<lambda>_. 0) (issued_args (vx_web 100) vx_eval vx_ca ''pow'' vx_reg [5] (V4 1)) 0 0 [Some vx_key] pending_default = Some (Inr vx_key, p)"
    "pend_table p = \<lparr> pt_challenges = [(vx_key, vx_pending)], pt_expiries = [((60000000000, vx_key), ())] \<rparr>" "pend_slots p = 8"
    "pend_verification p = tracker_new CAPACITY" by blast
  have "issue_key (vx_web 100) vx_eval vx_ca ''pow'' vx_reg vx_start = Some (Inr vx_key,
      vx_start\<lparr> ws_challenge := rc_empty\<lparr> rc_token := Some vx_session, rc_modified := True \<rparr>, ws_issues := 1, ws_pending := p \<rparr>)"
    using p(1) session by (simp add: issue_key_def issued_args_def vx_ctx Let_def vx_start_def vx_web_def vx_reg_def)
  with p show ?thesis by simp
qed

section \<open>The server and the posted solution\<close>

definition vx_passed :: token where
  "vx_passed = sealed_token ''pow'' (bucket_key (vx_web 100) vx_eval ''pow'' vx_reg) (be_bytes 8 0 @ be_bytes 8 0) 8 None 60 110 vx_session"

definition vx_sealing :: sealing where
  "vx_sealing = (toy_sealing vx_passed)\<lparr> s_json := (\<lambda>t. if tk_pending t then [0] else [1]),
     s_parse := (\<lambda>m. Some (if m = [0] then vx_session else vx_passed)) \<rparr>"

lemma vx_sealing_ok: "sealing_ok vx_sealing vx_session" "sealing_ok vx_sealing vx_passed"
proof -
  have "\<not> tk_pending vx_passed" by (simp add: vx_passed_def sealed_token_def Let_def)
  then show "sealing_ok vx_sealing vx_session" "sealing_ok vx_sealing vx_passed"
    using toy_sealing_ok [of vx_passed] by (auto simp: sealing_ok_def vx_sealing_def toy_sealing_def vx_session_def)
qed

definition vx_solution :: solution where
  "vx_solution = \<lparr> so_key = vx_key, so_nonce = 0, so_difficulty = 8, so_probe = 0 \<rparr>"

definition vx_env :: verify_env where
  "vx_env = \<lparr> vn_sha256 = (\<lambda>m. m), vn_sealing = vx_sealing, vn_v6 = \<lparr> v6_parse = (\<lambda>_. None), v6_show = (\<lambda>_. []) \<rparr>,
     vn_client_ip = \<lparr> cip_header = None, cip_trusted = None \<rparr>,
     vn_backends = \<lparr> bp_exact = [], bp_wildcard = [], bp_fallback = Some \<lparr> bk_config = example_config ''*'',
       bk_target = \<lparr> tu_scheme = Some ''http'', tu_host = Some ''h'', tu_authority = Some ''h'', tu_port = None, tu_path = ''/'', tu_query = None \<rparr>, bk_host = None, bk_ip_header = None, bk_theme = example_theme \<rparr> \<rparr>,
     vn_registry = [(''pow'', vx_reg)], vn_server_key = [9], vn_revision = 7, vn_hash = (\<lambda>_. 0), vn_unhex = (\<lambda>_. None),
     vn_unb64 = (\<lambda>_. Some (pack_solution [0, 0, 0, 0] vx_solution)), vn_now = 110, vn_instant = 1000, vn_second = 0, vn_minute = 0,
     vn_nonce = Some (replicate 12 7), vn_task_runs = True, vn_asset = (\<lambda>_. []), vn_solver = (\<lambda>_ _. body_status 200) \<rparr>"

definition vx_sealed :: string where
  "vx_sealed = (case seal_token vx_sealing (Some (replicate 12 7)) vx_session (derive_pending_key (\<lambda>m. m) ''a.b'' [9]) of Inl _ \<Rightarrow> [] | Inr x \<Rightarrow> x)"

definition vx_request :: verify_request where
  "vx_request = \<lparr> vr_method = ''POST'', vr_path = ''/__bagel/pow/verify'', vr_query = None, vr_authority = None,
     vr_headers = [(''host'', as_bytes ''a.b''), (''cookie'', as_bytes (cookie_name (\<lambda>m. m) ''a.b'' @ CHR ''='' # vx_sealed))],
     vr_peer = Some (V4 1), vr_forwarded = None, vr_stack = None, vr_body = BodyBytes [] \<rparr>"

definition vx_host :: canonical_host where
  "vx_host = \<lparr> ch_text = ''a.b'', ch_ip = None \<rparr>"

lemma vx_request_host: "canonical_request_host vx_env vx_request = Some vx_host"
proof -
  have "list_all (\<lambda>c. 32 \<le> code_of c \<and> code_of c < 127) ''a.b''" by (simp add: code_of_def)
  from as_bytes_text [OF this] show ?thesis
    by (simp add: canonical_request_host_def vx_request_def example_canonical vx_host_def)
qed

lemma vx_request_ip: "client_ip_for vx_env vx_request = Some (V4 1)"
  by (simp add: client_ip_for_def vx_request_def vx_env_def client_ip_def policy_resolve_def)

lemma vx_sealed: "seal_token vx_sealing (Some (replicate 12 7)) vx_session (derive_pending_key (\<lambda>m. m) ''a.b'' [9]) = Inr vx_sealed"
  by (simp add: vx_sealed_def seal_token_def Let_def)

lemma vx_visible: "list_all (\<lambda>c. 32 \<le> code_of c \<and> code_of c < 127) (cookie_name (\<lambda>m. m) ''a.b'' @ CHR ''='' # vx_sealed)"
proof -
  have hex: "list_all (\<lambda>c. 32 \<le> code_of c \<and> code_of c < 127) (hex_encode bs)" for bs
  proof -
    have "list_all (\<lambda>n. 32 \<le> code_of (hex_digit n) \<and> code_of (hex_digit n) < 127) [0..<16]" by code_simp
    then have digit: "32 \<le> code_of (hex_digit n) \<and> code_of (hex_digit n) < 127" if "n < 16" for n using that by (simp add: list_all_iff)
    have "unat b div 16 < 16" for b :: byte by (rule less_mult_imp_div_less) (simp add: unat_byte_less)
    then show ?thesis using digit by (induction bs) (simp_all add: hex_encode_def)
  qed
  have "s_b64 vx_sealing = hex_encode" by (simp add: vx_sealing_def toy_sealing_def)
  with hex show ?thesis by (simp add: vx_sealed_def seal_token_def cookie_name_def Let_def) (simp add: code_of_def)
qed

lemma vx_carried: "rc_token (carried_state vx_env (vr_headers vx_request) ''a.b'' (Some (V4 1))) = Some vx_session"
proof -
  have "derive_cookie_key (\<lambda>m. m) ''a.b'' (ip_network_prefix (V4 1)) [9] \<noteq> derive_pending_key (\<lambda>m. m) ''a.b'' [9]" by code_simp
  moreover have "find_cookie (cookie_name (\<lambda>m. m) ''a.b'') [cookie_name (\<lambda>m. m) ''a.b'' @ CHR ''='' # vx_sealed] = Some vx_sealed"
    by (rule find_own_cookie [OF sealed_chars [OF vx_sealing_ok(1) vx_sealed]])
  moreover note open_seal_token [OF vx_sealing_ok(1) vx_sealed]
  ultimately show ?thesis
    using as_bytes_text [OF vx_visible]
    by (simp add: carried_state_def vx_env_def vx_request_def from_headers_def Let_def rc_empty_def map_filter_simps)
      (simp add: vx_session_def)
qed

lemma vx_verifies: "pow_verify (\<lambda>m. m) vx_pow vx_key 0 8" "in_difficulty_range vx_pow 8" "unat (8 :: byte) = 8"
  by code_simp+

lemma vx_solution_of: "solution_of vx_env [] = Some vx_solution"
  using unpack_pack_solution [of "[0, 0, 0, 0]" vx_solution]
  by (simp add: solution_of_def vx_env_def vx_solution_def vx_key_def)

lemma vx_route: "internal_route ''/__bagel/pow/verify'' = Some (Verify ''pow'')"
  by code_simp

definition vx_state :: "pending_challenges \<Rightarrow> verify_state" where
  "vx_state pending = \<lparr> vs_pending = pending,
     vs_tables = \<lparr> ct_visits = visit_tracker_new, ct_rate = tracker_new CAPACITY, ct_solves = tracker_new CAPACITY, ct_census = census_default 0 \<rparr> \<rparr>"

lemma vx_admitted:
  assumes "pend_verification pending = tracker_new CAPACITY"
  shows "fst (admit_verification (\<lambda>_. 0) ''a.b'' (V4 1) 0 pending)"
  by (simp add: admit_verification_def assms record_at_def tracker_new_def SHARD_COUNT_def shard_record_def Let_def record_snapshot_def
      record_entry_def fresh_entry_def WINDOW_def advance_def count_event_def sat_add32_def bucket_sum_def width_simps CAPACITY_def)

lemma vx_alive:
  assumes "pend_table pending = \<lparr> pt_challenges = [(vx_key, vx_pending)], pt_expiries = [((60000000000, vx_key), ())] \<rparr>"
  shows "table_ok (pend_table pending) \<and> (vx_key, vx_pending) \<in> alive 1000 (pending_map pending)"
proof -
  have "pc_expiry vx_pending = 60000000000"
    by (simp add: vx_pending_def pending_of_def issued_args_def vx_reg_def LIFETIME_def)
  then show ?thesis by (simp add: assms table_ok_def index_of_def pending_map_def CAPACITY_def bt_ok_def)
qed

lemma vx_env_simps [simp]:
  "vn_sha256 vx_env = (\<lambda>m. m)" "vn_sealing vx_env = vx_sealing" "vn_registry vx_env = [(''pow'', vx_reg)]" "vn_server_key vx_env = [9]"
  "vn_revision vx_env = 7" "vn_hash vx_env = (\<lambda>_. 0)" "vn_now vx_env = 110" "vn_instant vx_env = 1000" "vn_second vx_env = 0"
  "vn_nonce vx_env = Some (replicate 12 7)" "vn_task_runs vx_env" "pool_select (vn_backends vx_env) host \<noteq> None"
  by (simp_all add: vx_env_def pool_select_def)

lemma vx_request_simps [simp]:
  "vr_method vx_request = ''POST''" "vr_path vx_request = ''/__bagel/pow/verify''" "vr_stack vx_request = None" "vr_body vx_request = BodyBytes []"
  "user_agent_bytes (vr_headers vx_request) = as_bytes ''unknown''"
  by (simp_all add: vx_request_def user_agent_bytes_def)

section \<open>The theorems at work\<close>

theorem solving_gets_through_witness:
  "\<exists>ws. issue_key (vx_web 100) vx_eval vx_ca ''pow'' vx_reg vx_start = Some (Inr vx_key, ws) \<and>
     (\<exists>resp s' cookie. dispatch vx_env (\<lambda>_ s. (body_status 500, s)) vx_request (vx_state (ws_pending ws)) = (resp, s') \<and> rp_status resp = 200 \<and>
        map_of (rp_headers resp) ''set-cookie'' = Some cookie \<and>
        challenge_passed (vx_web 120) vx_eval vx_ca ''pow'' vx_reg (vx_start\<lparr> ws_challenge := from_headers (\<lambda>m. m) vx_sealing
          [takeWhile (\<lambda>ch. ch \<noteq> CHR '';'') cookie] ''a.b'' [9] (Some (V4 1)) 120 \<rparr>))"
proof -
  obtain ws where ws: "issue_key (vx_web 100) vx_eval vx_ca ''pow'' vx_reg vx_start = Some (Inr vx_key, ws)" "rc_token (ws_challenge ws) = Some vx_session"
    "pend_table (ws_pending ws) = \<lparr> pt_challenges = [(vx_key, vx_pending)], pt_expiries = [((60000000000, vx_key), ())] \<rparr>"
    "pend_slots (ws_pending ws) = 8" "pend_verification (ws_pending ws) = tracker_new CAPACITY" using vx_issue by blast
  have start: "table_ok (pend_table (ws_pending vx_start))" by (simp add: vx_start_def pending_default_def table_ok_def index_of_def CAPACITY_def bt_ok_def)
  have bucket: "bucket_expiry 100 60 = 120" by (subst bucket_expiry_exact) (simp_all add: width_simps)
  have web: "we_sha256 (vx_web n) = (\<lambda>m. m)" "we_revision (vx_web n) = 7" "we_key_fingerprint (vx_web n) = [1]" "we_now (vx_web n) = n" for n
    by (simp_all add: vx_web_def)
  have ev: "ev_host vx_eval = ''a.b''" "ev_user_agent vx_eval = ''unknown''" by (simp_all add: vx_eval_def)
  have sol: "so_key vx_solution = vx_key" "so_difficulty vx_solution = 8" "so_nonce vx_solution = 0" "so_probe vx_solution = 0"
    by (simp_all add: vx_solution_def)
  have expiry: "120 < sat_i64 (110 + int 60)" by (simp add: sat_i64_def i64_min_def width_simps)
  have "\<exists>resp s' cookie. dispatch vx_env (\<lambda>_ s. (body_status 500, s)) vx_request (vx_state (ws_pending ws)) = (resp, s') \<and> rp_status resp = 200 \<and>
      map_of (rp_headers resp) ''set-cookie'' = Some cookie \<and>
      challenge_passed (vx_web 120) vx_eval vx_ca ''pow'' vx_reg (vx_start\<lparr> ws_challenge := from_headers (vn_sha256 vx_env) (vn_sealing vx_env)
        [takeWhile (\<lambda>ch. ch \<noteq> CHR '';'') cookie] (ev_host vx_eval) (vn_server_key vx_env) (Some (V4 1)) (we_now (vx_web 120)) \<rparr>)"
    by (rule solving_gets_through [OF ws(1) start ws(2), where pow = vx_pow and shown = Hidden and ip = "V4 1" and nonce = "replicate 12 7"
          and host = vx_host and t = vx_session and bytes = "[]" and sol = vx_solution])
      (use vx_alive [OF ws(3)] vx_admitted [OF ws(5)] ws vx_request_host vx_request_ip vx_carried vx_verifies vx_solution_of vx_route bucket expiry
        vx_sealing_ok(2) [unfolded vx_passed_def] in
        \<open>simp_all add: web ev sol vx_level vx_ctx vx_host_def vx_state_def pending_map_def vx_route width_simps\<close>)
  with ws(1) show ?thesis by (auto simp: web ev)
qed

theorem verify_spends_a_challenge_witness:
  "\<exists>pending resp s' cookie host key. dispatch vx_env (\<lambda>_ s. (body_status 500, s)) vx_request (vx_state pending) = (resp, s') \<and>
     map_of (rp_headers resp) ''set-cookie'' = Some cookie \<and>
     grants vx_env (client_of vx_request host (V4 1)) ''pow'' key 8 cookie (vx_state pending) s' \<and> key \<notin> fst ` pending_map (vs_pending s')"
proof -
  obtain ws :: web_state where ws: "pend_table (ws_pending ws) = \<lparr> pt_challenges = [(vx_key, vx_pending)], pt_expiries = [((60000000000, vx_key), ())] \<rparr>"
    "pend_slots (ws_pending ws) = 8" "pend_verification (ws_pending ws) = tracker_new CAPACITY" using vx_issue by blast
  define s where "s = vx_state (ws_pending ws)"
  note alive = vx_alive [OF ws(1)]
  have bind: "pc_binding vx_pending = bind_digest (client_binding vx_env (client_of vx_request vx_host (V4 1)) ''pow'' vx_session)"
    by (simp add: vx_pending_def pending_of_def issued_args_def client_binding_def client_of_def vx_host_def vx_session_def
        challenge_binding_new_def vx_web_def vx_eval_def)
  have "\<exists>cookie. seal_pass vx_env (client_of vx_request vx_host (V4 1)) ''pow'' (pc_pass_key vx_pending) (be_bytes 8 0 @ be_bytes 8 0) 8 60 = Inr cookie"
    using vx_carried by (simp add: seal_pass_def client_of_def vx_host_def Let_def seal_token_def)
  then obtain cookie where "seal_pass vx_env (client_of vx_request vx_host (V4 1)) ''pow'' (pc_pass_key vx_pending) (be_bytes 8 0 @ be_bytes 8 0) 8 60 = Inr cookie" by blast
  then have "\<exists>resp s'. handle_pow_verify vx_env ''pow'' vx_request s = (resp, s') \<and> rp_status resp = 200 \<and> map_of (rp_headers resp) ''set-cookie'' = Some cookie"
    by (intro handle_pow_verify_accepts [where pow = vx_pow and shown = Hidden and reg = vx_reg and host = vx_host and ip = "V4 1" and t = vx_session
          and sol = vx_solution and bytes = "[]" and p = vx_pending])
      (use alive vx_admitted [OF ws(3)] ws vx_request_host vx_request_ip vx_carried vx_verifies vx_solution_of bind in
        \<open>simp_all add: s_def vx_state_def vx_level vx_solution_def vx_host_def offered_def\<close>,
       simp_all add: vx_pending_def pending_of_def issued_args_def vx_level)
  then obtain resp s' where run: "dispatch vx_env (\<lambda>_ s. (body_status 500, s)) vx_request s = (resp, s')" "map_of (rp_headers resp) ''set-cookie'' = Some cookie"
    by (auto simp: dispatch_def vx_route)
  have "table_ok (pend_table (vs_pending s))" using alive by (simp add: s_def vx_state_def)
  from verify_spends_a_challenge [OF this _ run, of "''pow''"] obtain host key level where
    "grants vx_env (client_of vx_request host (V4 1)) ''pow'' key level cookie s s'" by (auto simp: vx_route vx_request_ip)
  moreover from this have "level = 8 \<and> key \<notin> fst ` pending_map (vs_pending s')"
    using ws(1) by (auto simp: grants_def s_def vx_state_def pending_map_def offered_def vx_pending_def pending_of_def issued_args_def vx_level gpu_level_def vx_pow_def)
  ultimately show ?thesis using run unfolding s_def by blast
qed

definition vx_opaque :: verify_client where
  "vx_opaque = \<lparr> vc_headers = [(''user-agent'', [0xC3, 0xA9])], vc_host = vx_host, vc_ip = V4 1, vc_stack = None \<rparr>"

theorem opaque_agent_refused_witness:
  "header_to_str [0xC3, 0xA9] = None \<and>
   (\<exists>pending. (vx_key, vx_pending) \<in> alive 1000 (pending_map pending) \<and>
      fst (redeem vx_key (client_binding vx_env vx_opaque ''pow'' vx_session) 8 1000 pending) = None)"
proof -
  obtain ws :: web_state where ws: "pend_table (ws_pending ws) = \<lparr> pt_challenges = [(vx_key, vx_pending)], pt_expiries = [((60000000000, vx_key), ())] \<rparr>"
    using vx_issue by blast
  have not_text: "header_to_str [0xC3, 0xA9] = None" by code_simp
  have headers: "map_of (vc_headers vx_opaque) ''user-agent'' = Some [0xC3, 0xA9]" by (simp add: vx_opaque_def)
  have "pc_binding vx_pending = bind_digest (challenge_binding_new (\<lambda>m. m) [5] ''a.b'' (V4 1) ''pow'' (as_bytes (request_user_agent (vc_headers vx_opaque))) 7)"
    using headers not_text by (simp add: vx_pending_def pending_of_def issued_args_def challenge_binding_new_def vx_web_def vx_eval_def request_user_agent_def)
  then have "fst (redeem vx_key (client_binding vx_env vx_opaque ''pow'' vx_session) 8 (vn_instant vx_env) (vs_pending (vx_state (ws_pending ws)))) = None"
    using vx_alive [OF ws]
    by (intro opaque_agent_refused [where session = "[5]" and host = "''a.b''" and address = "V4 1" and p = vx_pending, OF _ _ _ _ headers not_text])
      (simp_all add: vx_state_def width_simps vx_session_def vx_opaque_def vx_host_def)
  with not_text vx_alive [OF ws] show ?thesis by (auto simp: vx_state_def)
qed

text \<open>A digest that only pads: it keeps short messages apart.\<close>

theorem beacon_recognised_witness:
  "internal_route (BEACON_PREFIX @ beacon_id (\<lambda>m. m @ replicate 16 0) [] [1] [] 1 Positive @ ''.svg'') =
     Some (Beacon (beacon_id (\<lambda>m. m @ replicate 16 0) [] [1] [] 1 Positive)) \<and>
   classify_beacon (\<lambda>m. m @ replicate 16 0) [] [1] [] 1200 (beacon_id (\<lambda>m. m @ replicate 16 0) [] [1] [] 1 Positive) = Some Positive \<and>
   classify_beacon (\<lambda>m. m @ replicate 16 0) [] [2] [] 1200 (beacon_id (\<lambda>m. m @ replicate 16 0) [] [1] [] 1 Positive) = None"
proof -
  let ?sha = "\<lambda>m :: byte list. m @ replicate 16 0"
  have buckets: "current_bucket 1200 = 2" "current_bucket 600 = 1" by (simp_all add: current_bucket_def BEACON_BUCKET_SECS_def)
  have "list_all (\<lambda>(m, m'). take 16 (?sha m) = take 16 (?sha m') \<longrightarrow> m = m')
      (List.product [beacon_message [] x [] b kind. x \<leftarrow> [[1], [2]], b \<leftarrow> [2, 1], kind \<leftarrow> [Positive, Negative]]
         [beacon_message [] x [] b kind. x \<leftarrow> [[1], [2]], b \<leftarrow> [2, 1], kind \<leftarrow> [Positive, Negative]])" by code_simp
  then have "inj_on (\<lambda>m. take 16 (?sha m)) (set [beacon_message [] x [] b kind. x \<leftarrow> [[1], [2]], b \<leftarrow> [2, 1], kind \<leftarrow> [Positive, Negative]])"
    by (auto simp: inj_on_def list_all_iff simp del: take_append)
  moreover have "beacon_messages [] [[1], [2]] [] 1200 \<subseteq> set [beacon_message [] x [] b kind. x \<leftarrow> [[1], [2]], b \<leftarrow> [2, 1], kind \<leftarrow> [Positive, Negative]]"
  proof
    fix m assume "m \<in> beacon_messages [] [[1], [2]] [] 1200"
    then obtain x b kind where "m = beacon_message [] x [] b kind" "x \<in> {[1], [2]}" "b \<in> {2, 1}" by (auto simp: beacon_messages_def buckets)
    then show "m \<in> set [beacon_message [] x [] b kind. x \<leftarrow> [[1], [2]], b \<leftarrow> [2, 1], kind \<leftarrow> [Positive, Negative]]" by (cases kind) auto
  qed
  ultimately have "inj_on (\<lambda>m. take 16 (?sha m)) (beacon_messages [] [[1], [2]] [] 1200)" by (rule inj_on_subset)
  from beacon_recognised [OF this, where served = 600 and kind = Positive] show ?thesis by (simp add: buckets BEACON_BUCKET_SECS_def)
qed

end
