(* ===== verification/Maze_Model.thy ===== *)
theory Maze_Model
  imports Rule_Pipeline Backend_Pool
begin

text \<open>
  Mazes: endless generated pages for crawlers that ignore the rules (bagel-web/src/maze/*.rs and
  bagel-web/src/server/maze.rs). A link of a maze carries a token bound to the network it was
  shown to; following it from that network proves a crawler, which is remembered (poisoned) and
  reported. Everything else gets a decoy page that looks the same.

  HMAC, HKDF and the Base32 codec are arguments, and so are the random nonces, one for each link of
  a request, and the external renderers. Lengths of time are in seconds, instants in nanoseconds.
\<close>

section \<open>Keys and tables\<close>

record maze_libs =
  ml_hmac :: "byte list \<Rightarrow> byte list \<Rightarrow> byte list"
  ml_hkdf :: "byte list \<Rightarrow> byte list \<Rightarrow> byte list \<Rightarrow> byte list"
  ml_b32 :: "byte list \<Rightarrow> string"
  ml_unb32 :: "string \<Rightarrow> byte list option"

record maze_keys =
  mk_mac :: "byte list"
  mk_binding :: "byte list"
  mk_route :: "byte list"
  mk_render :: "byte list"
  mk_decoy :: "byte list"
  mk_memory :: "byte list"
  mk_route_prefix :: string

definition poison_master :: "maze_libs \<Rightarrow> byte list \<Rightarrow> byte list" where
  "poison_master L pkcs8_der = ml_hkdf L (as_bytes ''bagel poison root v1'') pkcs8_der (frame (as_bytes ''master''))"

definition derive_maze_keys :: "maze_libs \<Rightarrow> byte list \<Rightarrow> string \<Rightarrow> string \<Rightarrow> maze_keys" where
  "derive_maze_keys L master canonical_host maze_name =
     (let derive = (\<lambda>label. ml_hkdf L (as_bytes ''bagel maze v1'') master
            (frame (as_bytes label) @ frame (as_bytes canonical_host) @ frame (as_bytes maze_name)));
          route_key = derive ''route''
      in \<lparr> mk_mac = derive ''mac'', mk_binding = derive ''binding'', mk_route = route_key, mk_render = derive ''render'',
           mk_decoy = derive ''decoy'', mk_memory = derive ''memory'', mk_route_prefix = ml_b32 L (take 12 route_key) \<rparr>)"

record maze_runtime =
  mr_name :: string
  mr_keys :: maze_keys
  mr_config :: maze_config

type_synonym maze_table = "(string \<times> maze_runtime) list"

definition table_by_name :: "maze_table \<Rightarrow> string \<Rightarrow> maze_runtime option" where
  "table_by_name table name = List.find (\<lambda>runtime. mr_name runtime = name) (map snd table)"

fun build_table_loop :: "maze_libs \<Rightarrow> byte list \<Rightarrow> string \<Rightarrow> maze_config list \<Rightarrow> maze_table \<Rightarrow> string + maze_table" where
  "build_table_loop L master host [] table = Inr table"
| "build_table_loop L master host (maze # mazes) table =
     (let derived = derive_maze_keys L master host (mz_name maze); prefix = mk_route_prefix derived;
          runtime = \<lparr> mr_name = mz_name maze, mr_keys = derived, mr_config = maze \<rparr>
      in case map_of table prefix of
           Some existing \<Rightarrow> Inl (''maze route prefix collision between '' @ mr_name existing @ '' and '' @ mz_name maze @ '' on host '' @ host)
         | None \<Rightarrow> build_table_loop L master host mazes (put_entry prefix runtime table))"

definition build_table :: "maze_libs \<Rightarrow> byte list \<Rightarrow> string \<Rightarrow> maze_config list \<Rightarrow> string + maze_table" where
  "build_table L master host mazes = build_table_loop L master host mazes []"

fun build_maze_tables :: "maze_libs \<Rightarrow> v6_text \<Rightarrow> byte list \<Rightarrow> maze_config list \<Rightarrow> string list \<Rightarrow> (string \<times> maze_table) list \<Rightarrow>
    (string \<times> maze_table) list result" where
  "build_maze_tables L T master mazes [] tables = Inr tables"
| "build_maze_tables L T master mazes (backend # backends) tables =
     (if mazes = [] then Inr tables
      else if backend = ''*'' \<or> starts_with ''*.'' backend then build_maze_tables L T master mazes backends tables
      else case canonical_parse T backend of
             Inl err \<Rightarrow> Inl (Config (''backend '' @ backend @ '': '' @ err))
           | Inr host \<Rightarrow>
               (case build_table L master (ch_text host) mazes of
                  Inl err \<Rightarrow> Inl (Config err)
                | Inr table \<Rightarrow> build_maze_tables L T master mazes backends (put_entry (ch_text host) table tables)))"

section \<open>Paths\<close>

definition MAX_PATH_BYTES :: usize where "MAX_PATH_BYTES = 192"
definition MAX_SEGMENTS :: usize where "MAX_SEGMENTS = 8"
definition MAX_SEGMENT_BYTES :: usize where "MAX_SEGMENT_BYTES = 32"

definition segment_char :: "char \<Rightarrow> bool" where
  "segment_char c \<longleftrightarrow> is_lower c \<or> is_digit c \<or> c = CHR ''-''"

definition normalize_maze_path :: "string \<Rightarrow> string option" where
  "normalize_maze_path raw =
     (let path = (case strip_suffix ''/'' raw of None \<Rightarrow> raw | Some p \<Rightarrow> p); segments = split_on CHR ''/'' path in
      if path = [] \<or> MAX_PATH_BYTES < length path \<or> MAX_SEGMENTS < length segments \<or>
         \<not> list_all (\<lambda>segment. segment \<noteq> [] \<and> length segment \<le> MAX_SEGMENT_BYTES \<and> list_all segment_char segment) segments
      then None else Some path)"

definition parse_route :: "string \<Rightarrow> (string \<times> string) option" where
  "parse_route after_prefix =
     (case Option.bind (strip_prefix ''/'' after_prefix) (split_once CHR ''/'') of None \<Rightarrow> None
      | Some (token, raw_path) \<Rightarrow>
          if token = [] then None else map_option (\<lambda>maze_path. (token, maze_path)) (normalize_maze_path raw_path))"

section \<open>Tokens\<close>

definition TOKEN_LEN :: usize where "TOKEN_LEN = 58"
definition TOKEN_ENCODED_LEN :: usize where "TOKEN_ENCODED_LEN = 93"
definition TOKEN_VERSION :: byte where "TOKEN_VERSION = 1"
definition FLAG_BOUND :: byte where "FLAG_BOUND = 1"
definition HEADER_LEN :: usize where "HEADER_LEN = TOKEN_LEN - 16"

datatype token_class = ValidReturn | Transfer | Unbound | Expired | InvalidToken | Malformed

fun is_authenticated :: "token_class \<Rightarrow> bool" where
  "is_authenticated ValidReturn = True"
| "is_authenticated _ = False"

definition binding_value :: "maze_libs \<Rightarrow> byte list \<Rightarrow> source_network \<Rightarrow> byte list" where
  "binding_value L binding_key source =
     take 16 (ml_hmac L binding_key (frame (as_bytes ''bagel maze binding v1'') @ frame (network_to_bytes source)))"

definition compute_tag :: "maze_libs \<Rightarrow> byte list \<Rightarrow> byte list \<Rightarrow> string \<Rightarrow> byte list" where
  "compute_tag L mac_key header maze_path =
     take 16 (ml_hmac L mac_key (frame (as_bytes ''bagel maze token v1'') @ header @ frame (as_bytes maze_path)))"

definition token_header :: "maze_libs \<Rightarrow> maze_keys \<Rightarrow> source_network option \<Rightarrow> u64 \<Rightarrow> byte list \<Rightarrow> byte list" where
  "token_header L keys source expires nonce =
     (let (flags, binding) = (case source of None \<Rightarrow> (0, replicate 16 0) | Some network \<Rightarrow> (FLAG_BOUND, binding_value L (mk_binding keys) network))
      in [TOKEN_VERSION, flags] @ be_bytes 8 expires @ nonce @ binding)"

definition token_build :: "maze_libs \<Rightarrow> maze_keys \<Rightarrow> string \<Rightarrow> source_network option \<Rightarrow> u64 \<Rightarrow> byte list \<Rightarrow> bool \<Rightarrow> string" where
  "token_build L keys maze_path source expires nonce corrupt_tag =
     (let header = token_header L keys source expires nonce;
          tag = compute_tag L (mk_mac keys) header maze_path;
          tag = (if corrupt_tag then tag[0 := xor (tag ! 0) 1] else tag)
      in ml_b32 L (header @ tag))"

definition mint :: "maze_libs \<Rightarrow> maze_keys \<Rightarrow> string \<Rightarrow> source_network option \<Rightarrow> u64 \<Rightarrow> byte list \<Rightarrow> string" where
  "mint L keys maze_path source expires nonce = token_build L keys maze_path source expires nonce False"

definition mint_decoy :: "maze_libs \<Rightarrow> maze_keys \<Rightarrow> string \<Rightarrow> source_network option \<Rightarrow> u64 \<Rightarrow> byte list \<Rightarrow> string" where
  "mint_decoy L keys maze_path source expires nonce = token_build L keys maze_path source expires nonce True"

definition token_classify :: "maze_libs \<Rightarrow> maze_keys \<Rightarrow> string \<Rightarrow> string \<Rightarrow> source_network option \<Rightarrow> u64 \<Rightarrow> token_class" where
  "token_classify L keys maze_path encoded source now =
     (if length encoded \<noteq> TOKEN_ENCODED_LEN then Malformed
      else case ml_unb32 L encoded of None \<Rightarrow> Malformed
      | Some raw \<Rightarrow>
          if length raw \<noteq> TOKEN_LEN \<or> ml_b32 L raw \<noteq> encoded then Malformed
          else if raw ! 0 \<noteq> TOKEN_VERSION \<or> and (raw ! 1) (not FLAG_BOUND) \<noteq> 0 then Malformed
          else if drop HEADER_LEN raw \<noteq> compute_tag L (mk_mac keys) (take HEADER_LEN raw) maze_path then InvalidToken
          else if from_be_bytes (take 8 (drop 2 raw)) < now then Expired
          else if and (raw ! 1) FLAG_BOUND = 0 then Unbound
          else case source of
                 None \<Rightarrow> Transfer
               | Some network \<Rightarrow> if take 16 (drop 26 raw) = binding_value L (mk_binding keys) network then ValidReturn else Transfer)"

section \<open>Memory\<close>

definition MEMORY_CAPACITY :: usize where "MEMORY_CAPACITY = 65536"

record poison_entry =
  pe_expires :: nat
  pe_maze :: string

type_synonym poison_store = "(byte list \<times> poison_entry) list"

definition memory_id :: "maze_libs \<Rightarrow> byte list \<Rightarrow> string \<Rightarrow> string \<Rightarrow> source_network \<Rightarrow> byte list" where
  "memory_id L memory_key canonical_host maze_name source =
     ml_hmac L memory_key (frame (as_bytes ''bagel poison memory v1'') @ frame (as_bytes canonical_host) @ frame (as_bytes maze_name) @
       frame (network_to_bytes source))"

fun soonest :: "poison_store \<Rightarrow> byte list option" where
  "soonest [] = None"
| "soonest ((k, e) # rest) =
     (case soonest rest of None \<Rightarrow> Some k
      | Some k' \<Rightarrow> (case map_of rest k' of None \<Rightarrow> Some k | Some e' \<Rightarrow> if pe_expires e' < pe_expires e then Some k' else Some k))"

definition poison_set :: "byte list \<Rightarrow> string \<Rightarrow> nat \<Rightarrow> nat \<Rightarrow> poison_store \<Rightarrow> poison_store" where
  "poison_set ident maze ttl now store =
     (let room =
            (if MEMORY_CAPACITY \<le> length store \<and> map_of store ident = None then
               let kept = filter (\<lambda>(_, e). now < pe_expires e) store
               in if MEMORY_CAPACITY \<le> length kept then (case soonest kept of None \<Rightarrow> kept | Some k \<Rightarrow> bt_remove k kept) else kept
             else store)
      in put_entry ident \<lparr> pe_expires = now + ttl, pe_maze = maze \<rparr> room)"

definition poison_contains :: "byte list \<Rightarrow> nat \<Rightarrow> poison_store \<Rightarrow> bool" where
  "poison_contains ident now store = (case map_of store ident of None \<Rightarrow> False | Some e \<Rightarrow> now < pe_expires e)"

definition purge_maze :: "string \<Rightarrow> poison_store \<Rightarrow> poison_store" where
  "purge_maze maze store = filter (\<lambda>(_, e). pe_maze e \<noteq> maze) store"

section \<open>Pages\<close>

definition CORPUS :: "string list" where
  "CORPUS =
    [
     ''archive'', ''article'', ''assembly'', ''atlas'', ''author'', ''balance'', ''battery'', ''border'', ''branch'',
     ''bridge'', ''cabinet'', ''canvas'', ''capital'', ''carbon'', ''catalog'', ''cellar'', ''chamber'', ''channel'',
     ''chapter'', ''charter'', ''circuit'', ''cistern'', ''climate'', ''colony'', ''column'', ''compass'', ''copper'',
     ''corridor'', ''cottage'', ''council'', ''courier'', ''crystal'', ''current'', ''cypress'', ''diagram'', ''dispatch'',
     ''domain'', ''drawer'', ''dynamo'', ''editor'', ''element'', ''engine'', ''estate'', ''fabric'', ''factory'',
     ''fallow'', ''feather'', ''ferry'', ''figure'', ''filament'', ''flint'', ''forge'', ''fortress'', ''fountain'',
     ''gallery'', ''garden'', ''garrison'', ''glacier'', ''granite'', ''hamlet'', ''harbor'', ''harvest'', ''hollow'',
     ''index'', ''ingot'', ''island'', ''journal'', ''junction'', ''keystone'', ''lantern'', ''ledger'', ''library'',
     ''lookout'', ''machine'', ''manual'', ''marble'', ''meadow'', ''meridian'', ''mineral'', ''monument'', ''morning'',
     ''mosaic'', ''notebook'', ''orchard'', ''outpost'', ''paper'', ''parcel'', ''passage'', ''pattern'', ''pillar'',
     ''pioneer'', ''portal'', ''prairie'', ''quarry'', ''record'', ''region'', ''register'', ''reserve'', ''river'',
     ''saddle'', ''satchel'', ''seaboard'', ''section'', ''sediment'', ''signal'', ''silver'', ''spindle'', ''station'',
     ''stone'', ''summit'', ''survey'', ''terrace'', ''textile'', ''timber'', ''tower'', ''traverse'', ''tribune'',
     ''tunnel'', ''valley'', ''vault'', ''vessel'', ''village'', ''vineyard'', ''wagon'', ''warehouse'', ''willow'',
     ''window'', ''workshop'']"

record hmac_rng =
  hr_key :: "byte list"
  hr_counter :: u64
  hr_block :: "byte list"
  hr_used :: usize

definition rng_new :: "byte list \<Rightarrow> hmac_rng" where
  "rng_new seed = \<lparr> hr_key = seed, hr_counter = 0, hr_block = replicate 32 0, hr_used = 32 \<rparr>"

definition next_u32 :: "maze_libs \<Rightarrow> hmac_rng \<Rightarrow> u32 \<times> hmac_rng" where
  "next_u32 L r =
     (let r = (if 32 < hr_used r + 4
               then r\<lparr> hr_block := ml_hmac L (hr_key r) (be_bytes 8 (hr_counter r)), hr_counter := hr_counter r + 1, hr_used := 0 \<rparr> else r)
      in (from_be_bytes (take 4 (drop (hr_used r) (hr_block r))), r\<lparr> hr_used := hr_used r + 4 \<rparr>))"

definition rng_range :: "maze_libs \<Rightarrow> u32 \<Rightarrow> u32 \<Rightarrow> hmac_rng \<Rightarrow> u32 \<times> hmac_rng" where
  "rng_range L lo hi r = (let (v, r) = next_u32 L r in (lo + v mod (hi - lo + 1), r))"

definition rng_word :: "maze_libs \<Rightarrow> hmac_rng \<Rightarrow> string \<times> hmac_rng" where
  "rng_word L r = (let (i, r) = rng_range L 0 (length CORPUS - 1) r in (CORPUS ! i, r))"

record render_budget =
  rb_min_links :: u32
  rb_max_links :: u32
  rb_min_bytes :: u32
  rb_max_bytes :: u32

definition page_seed :: "maze_libs \<Rightarrow> byte list \<Rightarrow> byte list \<Rightarrow> byte list" where
  "page_seed L key path_bytes = ml_hmac L key (frame (as_bytes ''bagel maze render v1'') @ frame path_bytes)"

definition path_segment :: "maze_libs \<Rightarrow> hmac_rng \<Rightarrow> string \<times> hmac_rng" where
  "path_segment L r =
     (let (word, r) = rng_word L r; (joined, r) = rng_range L 0 2 r
      in if joined = 0 then (let (second, r) = rng_word L r in (word @ ''-'' @ second, r)) else (word, r))"

fun path_segments :: "maze_libs \<Rightarrow> nat \<Rightarrow> hmac_rng \<Rightarrow> string list \<times> hmac_rng" where
  "path_segments L 0 r = ([], r)"
| "path_segments L (Suc n) r =
     (let (segment, r) = path_segment L r; (rest, r) = path_segments L n r in (segment # rest, r))"

definition generate_path :: "maze_libs \<Rightarrow> hmac_rng \<Rightarrow> string \<times> hmac_rng" where
  "generate_path L r =
     (let (n, r) = rng_range L 1 3 r; (segments, r) = path_segments L n r in (join_with ''/'' segments, r))"

fun generate_paths :: "maze_libs \<Rightarrow> nat \<Rightarrow> hmac_rng \<Rightarrow> string list" where
  "generate_paths L 0 r = []"
| "generate_paths L (Suc n) r = (let (path, r) = generate_path L r in path # generate_paths L n r)"

definition plan_links :: "maze_libs \<Rightarrow> byte list \<Rightarrow> render_budget \<Rightarrow> string list" where
  "plan_links L seed budget =
     (let (n, r) = rng_range L (rb_min_links budget) (rb_max_links budget) (rng_new seed) in generate_paths L n r)"

fun rng_words :: "maze_libs \<Rightarrow> nat \<Rightarrow> hmac_rng \<Rightarrow> string list \<times> hmac_rng" where
  "rng_words L 0 r = ([], r)"
| "rng_words L (Suc n) r = (let (word, r) = rng_word L r; (rest, r) = rng_words L n r in (word # rest, r))"

definition sentence :: "maze_libs \<Rightarrow> hmac_rng \<Rightarrow> string \<times> hmac_rng" where
  "sentence L r = (let (n, r) = rng_range L 6 16 r; (words, r) = rng_words L n r in (join_with '' '' words @ ''. '', r))"

fun sentences :: "maze_libs \<Rightarrow> nat \<Rightarrow> hmac_rng \<Rightarrow> string \<times> hmac_rng" where
  "sentences L 0 r = ([], r)"
| "sentences L (Suc n) r = (let (s, r) = sentence L r; (rest, r) = sentences L n r in (s @ rest, r))"

text \<open>The anchor of a link; \<open>mint_link i path\<close> is the address minted for the \<open>i\<close>-th link of the page.\<close>

definition anchor :: "maze_libs \<Rightarrow> string \<Rightarrow> hmac_rng \<Rightarrow> string \<times> hmac_rng" where
  "anchor L href r =
     (let (a, r) = rng_word L r; (b, r) = rng_word L r
      in (''<a href='' @ [CHR 0x22] @ href @ [CHR 0x22] @ ''>'' @ a @ '' '' @ b @ ''</a>. '', r))"

definition page_paragraph :: "maze_libs \<Rightarrow> (nat \<Rightarrow> string \<Rightarrow> string) \<Rightarrow> nat \<Rightarrow> nat \<Rightarrow> hmac_rng \<Rightarrow> string \<times> hmac_rng" where
  "page_paragraph L mint_link minted links_left r =
     (let (n, r) = rng_range L 2 5 r; (prose, r) = sentences L n r;
          (link, r) = (if 0 < links_left then (let (path, r) = generate_path L r in anchor L (mint_link minted path) r) else ([], r))
      in (''<p>'' @ prose @ link @ ''</p>'', r))"

function page_loop :: "maze_libs \<Rightarrow> render_budget \<Rightarrow> (nat \<Rightarrow> string \<Rightarrow> string) \<Rightarrow> nat \<Rightarrow> nat \<Rightarrow> nat \<Rightarrow> string \<Rightarrow> hmac_rng \<Rightarrow> string \<times> nat" where
  "page_loop L budget mint_link target minted links_left html r =
     (if length html < target \<or> 0 < links_left then
        let (para, r) = page_paragraph L mint_link minted links_left r; html = html @ para;
            minted = (if 0 < links_left then Suc minted else minted)
        in if rb_max_bytes budget - 64 \<le> length html then (html, minted)
           else page_loop L budget mint_link target minted (links_left - 1) html r
      else (html, minted))"
  by pat_completeness auto
termination
  by (relation "measure (\<lambda>(L, budget, mint_link, target, minted, links_left, html, r). rb_max_bytes budget - length html)")
    (auto simp: page_paragraph_def split: prod.splits)

declare page_loop.simps [simp del]

definition page_head :: "maze_libs \<Rightarrow> hmac_rng \<Rightarrow> string \<times> hmac_rng" where
  "page_head L r =
     (let (a, r) = rng_word L r; (b, r) = rng_word L r
      in (''<!doctype html><html><head><meta charset='' @ [CHR 0x22] @ ''utf-8'' @ [CHR 0x22] @ ''><title>'' @ a @ '' '' @ b @ ''</title></head><body>'', r))"

text \<open>The page and the number of links minted for it.\<close>

definition render_page :: "maze_libs \<Rightarrow> byte list \<Rightarrow> render_budget \<Rightarrow> (nat \<Rightarrow> string \<Rightarrow> string) \<Rightarrow> string \<times> nat" where
  "render_page L seed budget mint_link =
     (let (link_count, r) = rng_range L (rb_min_links budget) (rb_max_links budget) (rng_new seed);
          reserve = 128 * link_count + 256;
          (target, r) = rng_range L (rb_min_bytes budget) (max (rb_max_bytes budget - reserve) (rb_min_bytes budget)) r;
          (head, r) = page_head L r;
          (html, minted) = page_loop L budget mint_link target 0 link_count head r
      in (html @ ''</body></html>'', minted))"

section \<open>Lookup\<close>

text \<open>External renderers by name: their kind, and what an attempt gives, a page or the label of a
  fallback.\<close>

record budget_key =
  bg_host :: string
  bg_maze :: string
  bg_source :: "source_network option"

record render_payload =
  pl_seed :: string
  pl_host :: string
  pl_path :: string
  pl_links :: "string list"

datatype render_attempt = RenderBody string | RenderFallback string

record maze_env =
  me_libs :: maze_libs
  me_master :: "byte list"
  me_mazes :: "maze_config list"
  me_tables :: "(string \<times> maze_table) list"
  me_renderers :: "(string \<times> string \<times> (budget_key \<Rightarrow> render_payload \<Rightarrow> bool \<Rightarrow> render_attempt)) list"
  me_now :: u64
  me_instant :: nat
  me_nonce :: "nat \<Rightarrow> byte list"

record maze_state =
  ms_poison :: poison_store
  ms_wildcards :: "(string \<times> maze_table option) list"

datatype maze_lookup_result = NoMazes | FoundTable maze_table | Refused

definition maze_lookup :: "maze_env \<Rightarrow> string \<Rightarrow> maze_state \<Rightarrow> maze_lookup_result \<times> maze_state" where
  "maze_lookup E host s =
     (if me_mazes E = [] then (NoMazes, s)
      else case map_of (me_tables E) host of Some table \<Rightarrow> (FoundTable table, s)
      | None \<Rightarrow>
          (case map_of (ms_wildcards s) host of
             Some cached \<Rightarrow> (case cached of None \<Rightarrow> Refused | Some table \<Rightarrow> FoundTable table, s)
           | None \<Rightarrow>
               let cache = (if 4096 \<le> length (ms_wildcards s) then [] else ms_wildcards s)
               in case build_table (me_libs E) (me_master E) host (me_mazes E) of
                    Inr table \<Rightarrow> (FoundTable table, s\<lparr> ms_wildcards := put_entry host (Some table) cache \<rparr>)
                  | Inl _ \<Rightarrow> (Refused, s\<lparr> ms_wildcards := put_entry host None cache \<rparr>)))"

definition maze_by_name :: "maze_env \<Rightarrow> string \<Rightarrow> string \<Rightarrow> maze_state \<Rightarrow> maze_runtime option \<times> maze_state" where
  "maze_by_name E host name s =
     (case maze_lookup E host s of
        (FoundTable table, s) \<Rightarrow> (table_by_name table name, s)
      | (_, s) \<Rightarrow> (None, s))"

definition poison_returned :: "maze_env \<Rightarrow> string \<Rightarrow> source_network \<Rightarrow> maze_state \<Rightarrow> bool \<times> maze_state" where
  "poison_returned E host source s =
     (case maze_lookup E host s of
        (FoundTable table, s) \<Rightarrow>
          (list_ex (\<lambda>runtime. poison_contains (memory_id (me_libs E) (mk_memory (mr_keys runtime)) host (mr_name runtime) source) (me_instant E) (ms_poison s))
             (map snd table), s)
      | (_, s) \<Rightarrow> (False, s))"

section \<open>Serving\<close>

record maze_serve =
  mq_runtime :: maze_runtime
  mq_host :: string
  mq_client_ip :: "ip_addr option"
  mq_source :: "source_network option"
  mq_peer_network :: source_network
  mq_method :: string
  mq_raw_path :: string

record maze_render =
  md_host :: string
  md_source :: "source_network option"
  md_budget_source :: source_network
  md_authenticated :: bool
  md_seed_input :: "byte list"
  md_payload_path :: string
  md_head_only :: bool

definition maze_envelope :: "string \<Rightarrow> bool \<Rightarrow> response" where
  "maze_envelope html head_only =
     body_response 200 [(''content-type'', ''text/html; charset=utf-8''), (''cache-control'', ''no-store''), (''referrer-policy'', ''no-referrer''),
       (''content-length'', show_nat (length html))] (if head_only then [] else html)"

definition maze_budget :: "maze_config \<Rightarrow> render_budget" where
  "maze_budget m = \<lparr> rb_min_links = mz_min_links m, rb_max_links = mz_max_links m, rb_min_bytes = mz_min_bytes m, rb_max_bytes = mz_max_bytes m \<rparr>"

text \<open>The address of a link: an authenticated page carries valid tokens, any other page decoys.\<close>

definition maze_link :: "maze_env \<Rightarrow> maze_keys \<Rightarrow> bool \<Rightarrow> source_network option \<Rightarrow> u64 \<Rightarrow> nat \<Rightarrow> string \<Rightarrow> string" where
  "maze_link E keys authenticated source expires i path =
     (let token = (if authenticated then mint else mint_decoy) (me_libs E) keys path source expires (me_nonce E i)
      in ''/'' @ mk_route_prefix keys @ ''/'' @ token @ ''/'' @ path)"

text \<open>The response, the kind of renderer and the result label. A fallback mints its links anew, with
  the nonces behind those of the planned links.\<close>

definition render_maze :: "maze_env \<Rightarrow> maze_runtime \<Rightarrow> maze_render \<Rightarrow> response \<times> string \<times> string" where
  "render_maze E runtime q =
     (let L = me_libs E; keys = mr_keys runtime;
          seed = page_seed L (if md_authenticated q then mk_render keys else mk_decoy keys) (md_seed_input q);
          budget = maze_budget (mr_config runtime);
          expires = me_now E + mz_token_ttl (mr_config runtime);
          mint_link = maze_link E keys (md_authenticated q) (md_source q) expires
      in case map_of (me_renderers E) (mz_renderer (mr_config runtime)) of
           Some (kind, attempt) \<Rightarrow>
             (let paths = plan_links L seed budget; links = map2 mint_link [0..<length paths] paths;
                  key = \<lparr> bg_host = md_host q, bg_maze = mr_name runtime, bg_source = Some (md_budget_source q) \<rparr>;
                  payload = \<lparr> pl_seed = ml_b32 L seed, pl_host = md_host q, pl_path = md_payload_path q, pl_links = links \<rparr>
              in case attempt key payload (\<not> md_authenticated q) of
                   RenderBody html \<Rightarrow> (maze_envelope html (md_head_only q), kind, ''ok'')
                 | RenderFallback label \<Rightarrow>
                     (maze_envelope (fst (render_page L seed budget (\<lambda>i. mint_link (length paths + i)))) (md_head_only q), kind, label))
         | None \<Rightarrow> (maze_envelope (fst (render_page L seed budget mint_link)) (md_head_only q), ''builtin'', ''ok''))"

definition serve_class :: "maze_env \<Rightarrow> maze_serve \<Rightarrow> token_class \<times> string option" where
  "serve_class E q =
     (let keys = mr_keys (mq_runtime q); after_prefix = drop (1 + length (mk_route_prefix keys)) (mq_raw_path q)
      in if mq_method q = ''GET'' \<or> mq_method q = ''HEAD'' then
           (case parse_route after_prefix of None \<Rightarrow> (Malformed, None)
            | Some (token, maze_path) \<Rightarrow> (token_classify (me_libs E) keys maze_path token (mq_source q) (me_now E), Some maze_path))
         else (Malformed, None))"

definition serve_maze :: "'s web_env \<Rightarrow> maze_env \<Rightarrow> maze_serve \<Rightarrow> maze_state \<times> web_state \<Rightarrow> response \<times> maze_state \<times> web_state" where
  "serve_maze W E q st =
     (let (ms, ws) = st; runtime = mq_runtime q; keys = mr_keys runtime; (class, maze_path) = serve_class E q;
          after_prefix = drop (1 + length (mk_route_prefix keys)) (mq_raw_path q);
          (ms, ws) =
            (case (is_authenticated class, mq_source q) of
               (True, Some network) \<Rightarrow>
                 (ms\<lparr> ms_poison := poison_set (memory_id (me_libs E) (mk_memory keys) (mq_host q) (mr_name runtime) network) (mr_name runtime)
                        (mz_memory_ttl (mr_config runtime) * 1000000000) (me_instant E) (ms_poison ms) \<rparr>,
                  emit_offense W (mq_client_ip q) (mq_host q) (Some (mr_name runtime)) ''valid_return'' OffPoisonReturn None ws)
             | _ \<Rightarrow> (ms, ws));
          (response, _, _) = render_maze E runtime
            \<lparr> md_host = mq_host q, md_source = mq_source q,
              md_budget_source = (case mq_source q of None \<Rightarrow> mq_peer_network q | Some n \<Rightarrow> n), md_authenticated = is_authenticated class,
              md_seed_input = as_bytes (case maze_path of None \<Rightarrow> after_prefix | Some p \<Rightarrow> p),
              md_payload_path = (case maze_path of None \<Rightarrow> [] | Some p \<Rightarrow> p), md_head_only = (mq_method q = ''HEAD'') \<rparr>
      in (response, ms, ws))"

text \<open>The first thing the main handler does with a request: a maze route is served whatever the rules
  say. \<open>None\<close> goes on with the request.\<close>

definition route_segment :: "string \<Rightarrow> string option" where
  "route_segment raw_path = map_option (\<lambda>path. hd (split_on CHR ''/'' path)) (strip_prefix ''/'' raw_path)"

definition maze_gate :: "'s web_env \<Rightarrow> maze_env \<Rightarrow> string \<Rightarrow> ip_addr option \<Rightarrow> ip_addr \<Rightarrow> string \<Rightarrow> string \<Rightarrow> maze_state \<times> web_state \<Rightarrow>
    response option \<times> maze_state \<times> web_state" where
  "maze_gate W E host addr peer method raw_path st =
     (let (ms, ws) = st; (found, ms) = maze_lookup E host ms in
      case found of
        Refused \<Rightarrow> (Some (body_text 503 (''service unavailable'' @ [CHR 0x0A])), ms, ws)
      | NoMazes \<Rightarrow> (None, ms, ws)
      | FoundTable table \<Rightarrow>
          (case Option.bind (route_segment raw_path) (map_of table) of
             None \<Rightarrow> (None, ms, ws)
           | Some runtime \<Rightarrow>
               let (resp, ms, ws) = serve_maze W E
                     \<lparr> mq_runtime = runtime, mq_host = host, mq_client_ip = addr, mq_source = map_option from_ip addr,
                       mq_peer_network = from_ip peer, mq_method = method, mq_raw_path = raw_path \<rparr> (ms, ws)
               in (Some resp, ms, ws)))"

definition lure_path :: "maze_env \<Rightarrow> maze_keys \<Rightarrow> string \<Rightarrow> string option" where
  "lure_path E keys page_path =
     (case plan_links (me_libs E) (page_seed (me_libs E) (mk_render keys) (as_bytes page_path))
             \<lparr> rb_min_links = 1, rb_max_links = 1, rb_min_bytes = 0, rb_max_bytes = 0 \<rparr> of
        [] \<Rightarrow> None | path # _ \<Rightarrow> Some path)"

definition lure_fragment :: "maze_env \<Rightarrow> string \<Rightarrow> string \<Rightarrow> ip_addr option \<Rightarrow> string \<Rightarrow> maze_state \<Rightarrow> string option \<times> maze_state" where
  "lure_fragment E maze_name host addr page_path s =
     (case maze_by_name E host maze_name s of
        (None, s) \<Rightarrow> (None, s)
      | (Some runtime, s) \<Rightarrow>
          (map_option (\<lambda>path.
             let href = maze_link E (mr_keys runtime) True (map_option from_ip addr) (me_now E + mz_token_ttl (mr_config runtime)) 0 path; quote = [CHR 0x22]
             in ''<div hidden><a href='' @ quote @ href @ quote @ '' rel='' @ quote @ ''nofollow'' @ quote @ '' tabindex='' @ quote @ ''-1'' @ quote @ ''>'' @ path @ ''</a></div>'')
             (lure_path E (mr_keys runtime) page_path), s))"

definition maze_tarpit :: "maze_env \<Rightarrow> string \<Rightarrow> string \<Rightarrow> ip_addr option \<Rightarrow> maze_state \<Rightarrow> response \<times> maze_state" where
  "maze_tarpit E maze_name host addr s =
     (case maze_by_name E host maze_name s of
        (None, s) \<Rightarrow> (body_text 503 (''service unavailable'' @ [CHR 0x0A]), s)
      | (Some runtime, s) \<Rightarrow>
          (let source = map_option from_ip addr
           in (fst (render_maze E runtime
                 \<lparr> md_host = host, md_source = source, md_budget_source = (case source of None \<Rightarrow> from_ip (V4 0) | Some n \<Rightarrow> n),
                   md_authenticated = (source \<noteq> None), md_seed_input = as_bytes ''index'', md_payload_path = [], md_head_only = False \<rparr>), s)))"

end
