(* ===== verification/Maze_Theorems.thy ===== *)
theory Maze_Theorems
  imports Maze_Model
begin

text \<open>
  What a maze guarantees: how each kind of token is classified, that the links it generates lead
  back into it and expose the network they were shown to, that decoys never do, how large a page
  gets, and what the poison memory keeps.
\<close>

section \<open>Tokens\<close>

text \<open>What the code relies on of the libraries: the codec of a token is 93 characters without a slash
  and decodes to it, and a MAC has 32 bytes.\<close>

definition maze_libs_ok :: "maze_libs \<Rightarrow> bool" where
  "maze_libs_ok L \<longleftrightarrow>
     (\<forall>raw. length raw = TOKEN_LEN \<longrightarrow> length (ml_b32 L raw) = TOKEN_ENCODED_LEN) \<and>
     (\<forall>raw. ml_unb32 L (ml_b32 L raw) = Some raw \<and> CHR ''/'' \<notin> set (ml_b32 L raw)) \<and>
     (\<forall>key m. length (ml_hmac L key m) = 32)"

lemma binding_value_length: "maze_libs_ok L \<Longrightarrow> length (binding_value L key n) = 16"
  by (simp add: maze_libs_ok_def binding_value_def)

lemma compute_tag_length: "maze_libs_ok L \<Longrightarrow> length (compute_tag L key header path) = 16"
  by (simp add: maze_libs_ok_def compute_tag_def)

lemma token_header_length: "maze_libs_ok L \<Longrightarrow> length nonce = 16 \<Longrightarrow> length (token_header L keys source expires nonce) = HEADER_LEN"
  by (simp add: token_header_def HEADER_LEN_def TOKEN_LEN_def binding_value_length split: option.splits)

lemma flag_facts: "and (FLAG_BOUND :: byte) (not FLAG_BOUND) = 0" "and FLAG_BOUND FLAG_BOUND \<noteq> 0" "and (0 :: byte) (not FLAG_BOUND) = 0" "and 0 FLAG_BOUND = 0"
  by (simp_all add: FLAG_BOUND_def)

text \<open>How a token with a given header and tag is classified.\<close>

lemma classify_raw:
  assumes "maze_libs_ok L" "length nonce = 16" "expires \<le> u64_max" "length tag = 16"
  shows "token_classify L keys path (ml_b32 L (token_header L keys source expires nonce @ tag)) source' now =
    (if tag \<noteq> compute_tag L (mk_mac keys) (token_header L keys source expires nonce) path then InvalidToken
     else if expires < now then Expired
     else case source of None \<Rightarrow> Unbound
       | Some n \<Rightarrow> (case source' of None \<Rightarrow> Transfer
           | Some n' \<Rightarrow> if binding_value L (mk_binding keys) n = binding_value L (mk_binding keys) n' then ValidReturn else Transfer))"
proof -
  define header where "header = token_header L keys source expires nonce"
  have len: "length header = HEADER_LEN" using token_header_length [OF assms(1,2)] by (simp add: header_def)
  define raw where "raw = header @ tag"
  have codec: "length (ml_b32 L raw) = TOKEN_ENCODED_LEN" "ml_unb32 L (ml_b32 L raw) = Some raw" "length raw = TOKEN_LEN"
    using assms(1,4) len by (simp_all add: maze_libs_ok_def raw_def HEADER_LEN_def TOKEN_LEN_def)
  have parts: "take HEADER_LEN raw = header" "drop HEADER_LEN raw = tag" using len by (simp_all add: raw_def)
  obtain flags binding where h: "header = [TOKEN_VERSION, flags] @ be_bytes 8 expires @ nonce @ binding"
    and fb: "(flags, binding) = (case source of None \<Rightarrow> (0, replicate 16 0) | Some n \<Rightarrow> (FLAG_BOUND, binding_value L (mk_binding keys) n))"
    by (cases source) (simp_all add: header_def token_header_def)
  have binding: "length binding = 16" using fb binding_value_length [OF assms(1)] by (cases source) simp_all
  have fields: "raw ! 0 = TOKEN_VERSION" "raw ! Suc 0 = flags" "from_be_bytes (take 8 (drop 2 raw)) = expires" "take 16 (drop 26 raw) = binding"
    using assms(2,3) binding by (simp_all add: raw_def h width_simps)
  have "and flags (not FLAG_BOUND) = 0" using fb flag_facts by (cases source) simp_all
  then have "token_classify L keys path (ml_b32 L raw) source' now =
     (if tag \<noteq> compute_tag L (mk_mac keys) header path then InvalidToken else if expires < now then Expired
      else if and flags FLAG_BOUND = 0 then Unbound
      else case source' of None \<Rightarrow> Transfer | Some n' \<Rightarrow> if binding = binding_value L (mk_binding keys) n' then ValidReturn else Transfer)"
    by (simp add: token_classify_def codec parts fields split: option.split)
  with fb flag_facts show ?thesis unfolding header_def [symmetric] raw_def [symmetric] by (cases source) (simp_all split: option.split)
qed

lemma flipped_tag:
  assumes "length (tag :: byte list) = 16"
  shows "tag[0 := xor (tag ! 0) 1] \<noteq> tag"
proof
  assume "tag[0 := xor (tag ! 0) 1] = tag"
  then have "xor (tag ! 0) 1 = tag ! 0" using assms by (metis nth_list_update_eq zero_less_numeral)
  moreover have "xor (tag ! 0) (xor (tag ! 0) 1) = 1" by (simp flip: xor.assoc)
  ultimately show False by simp
qed

text \<open>Tokens mean what they should. A minted token presented on its own path is a valid return from
  the network it was minted for until it expires, a transfer from any network with another binding
  or from an unknown one, and unbound when it was minted for nobody; a decoy is invalid, always;
  and on another path a token counts only if the two MACs agree.\<close>

theorem maze_token_lifecycle:
  assumes "maze_libs_ok L" "length nonce = 16" "expires \<le> u64_max"
  shows "token_classify L keys path (mint L keys path source expires nonce) source' now =
      (if expires < now then Expired
       else case source of None \<Rightarrow> Unbound
         | Some n \<Rightarrow> (case source' of None \<Rightarrow> Transfer
             | Some n' \<Rightarrow> if binding_value L (mk_binding keys) n = binding_value L (mk_binding keys) n' then ValidReturn else Transfer)) \<and>
    token_classify L keys path (mint_decoy L keys path source expires nonce) source' now = InvalidToken \<and>
    (compute_tag L (mk_mac keys) (token_header L keys source expires nonce) path \<noteq>
       compute_tag L (mk_mac keys) (token_header L keys source expires nonce) other \<longrightarrow>
     token_classify L keys other (mint L keys path source expires nonce) source' now = InvalidToken)"
  using classify_raw [OF assms compute_tag_length [OF assms(1)]]
    classify_raw [OF assms, of "(compute_tag L (mk_mac keys) (token_header L keys source expires nonce) path)
      [0 := xor (compute_tag L (mk_mac keys) (token_header L keys source expires nonce) path ! 0) 1]"]
    flipped_tag [OF compute_tag_length [OF assms(1)]] compute_tag_length [OF assms(1)]
  by (simp add: mint_def mint_decoy_def token_build_def Let_def)

section \<open>Generated paths\<close>

definition corpus_word :: "string \<Rightarrow> bool" where
  "corpus_word w \<longleftrightarrow> w \<noteq> [] \<and> length w \<le> 9 \<and> list_all is_lower w"

lemma corpus_words: "list_all corpus_word CORPUS"
  by code_simp

lemma corpus_length: "length CORPUS = 128"
  by code_simp

lemma rng_range_bounds: "rng_range L lo hi r = (v, r') \<Longrightarrow> lo \<le> hi \<Longrightarrow> lo \<le> v \<and> v \<le> hi"
proof -
  assume "rng_range L lo hi r = (v, r')" "lo \<le> hi"
  then obtain x where "v = lo + x mod (hi - lo + 1)" by (auto simp: rng_range_def split: prod.splits)
  moreover have "x mod (hi - lo + 1) < hi - lo + 1" by simp
  ultimately show ?thesis using \<open>lo \<le> hi\<close> by linarith
qed

lemma rng_word_corpus: "rng_word L r = (w, r') \<Longrightarrow> corpus_word w"
proof -
  assume "rng_word L r = (w, r')"
  then obtain i where i: "rng_range L 0 (length CORPUS - 1) r = (i, r')" "w = CORPUS ! i"
    by (auto simp: rng_word_def split: prod.splits)
  from rng_range_bounds [OF i(1)] have "i < length CORPUS" by (simp add: corpus_length)
  then show "corpus_word w" using corpus_words i(2) by (simp add: list_all_length)
qed

definition path_part :: "string \<Rightarrow> bool" where
  "path_part p \<longleftrightarrow> p \<noteq> [] \<and> length p \<le> 19 \<and> list_all segment_char p"

lemma corpus_word_chars: "corpus_word w \<Longrightarrow> w \<noteq> [] \<and> length w \<le> 9 \<and> list_all segment_char w"
  by (auto simp: corpus_word_def segment_char_def list_all_iff)

lemma path_segment_part:
  assumes "path_segment L r = (p, r')"
  shows "path_part p"
proof -
  obtain w r1 j r2 where w: "rng_word L r = (w, r1)" and j: "rng_range L 0 2 r1 = (j, r2)" by fastforce
  obtain v r3 where v: "rng_word L r2 = (v, r3)" by fastforce
  have "p = w \<or> p = w @ ''-'' @ v" using assms by (auto simp: path_segment_def w j v Let_def split: if_splits)
  moreover note corpus_word_chars [OF rng_word_corpus [OF w]] corpus_word_chars [OF rng_word_corpus [OF v]]
  ultimately show ?thesis by (auto simp: path_part_def segment_char_def)
qed

lemma path_segments_parts: "path_segments L n r = (ps, r') \<Longrightarrow> length ps = n \<and> list_all path_part ps"
  by (induction n arbitrary: r ps r') (auto dest: path_segment_part split: prod.splits)

lemma join_length: "list_all (\<lambda>p. length p \<le> m) ps \<Longrightarrow> length (join_with [c] ps) \<le> length ps * (m + 1)"
  by (induction ps rule: induct_list012) auto

lemma join_last: "ps \<noteq> [] \<Longrightarrow> list_all (\<lambda>p. p \<noteq> [] \<and> c \<notin> set p) ps \<Longrightarrow> strip_suffix [c] (join_with [c] ps) = None"
proof (rule ccontr)
  assume ps: "ps \<noteq> []" "list_all (\<lambda>p. p \<noteq> [] \<and> c \<notin> set p) ps" and "strip_suffix [c] (join_with [c] ps) \<noteq> None"
  then obtain x where "join_with [c] ps = x @ [c]" using strip_suffix_iff by blast
  then have "split_on c (join_with [c] ps) = split_on c x @ [[]]" using split_on_append [of c x "[]"] by simp
  moreover have "split_on c (join_with [c] ps) = ps" using ps by (intro split_join) (auto simp: list_all_iff)
  ultimately show False using ps(2) by auto
qed

lemma generate_path_parts:
  assumes "generate_path L r = (path, r')"
  shows "\<exists>ps. path = join_with ''/'' ps \<and> 1 \<le> length ps \<and> length ps \<le> 3 \<and> list_all path_part ps"
proof -
  obtain n r1 ps where n: "rng_range L 1 3 r = (n, r1)" and ps: "path_segments L n r1 = (ps, r')" and path: "path = join_with ''/'' ps"
    using assms by (auto simp: generate_path_def split: prod.splits)
  show ?thesis using rng_range_bounds [OF n] path_segments_parts [OF ps] path by auto
qed

lemma generate_path_length: "generate_path L r = (path, r') \<Longrightarrow> length path \<le> 60"
proof -
  assume "generate_path L r = (path, r')"
  then obtain ps where ps: "path = join_with ''/'' ps" "length ps \<le> 3" "list_all path_part ps" using generate_path_parts by blast
  have "length path \<le> length ps * (19 + 1)" unfolding ps(1) by (rule join_length) (use ps(3) in \<open>auto simp: list_all_iff path_part_def\<close>)
  then show "length path \<le> 60" using ps(2) by simp
qed

text \<open>Every generated path satisfies the grammar of maze paths.\<close>

lemma generate_path_normal:
  assumes "generate_path L r = (path, r')"
  shows "normalize_maze_path path = Some path"
proof -
  obtain ps where path: "path = join_with ''/'' ps" and parts: "1 \<le> length ps" "length ps \<le> 3" "list_all path_part ps"
    using generate_path_parts [OF assms] by blast
  have "ps \<noteq> []" using parts(1) by auto
  have slash: "CHR ''/'' \<notin> set p" if "list_all segment_char p" for p
    using that by (auto simp: list_all_iff segment_char_def is_lower_def is_digit_def)
  then have good: "list_all (\<lambda>p. p \<noteq> [] \<and> CHR ''/'' \<notin> set p) ps" using parts(3) by (auto simp: list_all_iff path_part_def)
  have split: "split_on CHR ''/'' path = ps" unfolding path using \<open>ps \<noteq> []\<close> good by (intro split_join) (auto simp: list_all_iff)
  have "length path \<le> 60" by (rule generate_path_length [OF assms])
  moreover have "path \<noteq> []" using split \<open>ps \<noteq> []\<close> good by (cases ps) auto
  moreover have "strip_suffix ''/'' path = None" unfolding path by (rule join_last [OF \<open>ps \<noteq> []\<close> good])
  ultimately show ?thesis
    using parts
    by (auto simp: normalize_maze_path_def split Let_def MAX_PATH_BYTES_def MAX_SEGMENTS_def MAX_SEGMENT_BYTES_def list_all_iff path_part_def)
qed

lemma generate_paths_normal: "path \<in> set (generate_paths L n r) \<Longrightarrow> normalize_maze_path path = Some path"
  by (induction n arbitrary: r) (auto dest: generate_path_normal [OF sym] split: prod.splits)

lemma plan_links_normal: "path \<in> set (plan_links L seed budget) \<Longrightarrow> normalize_maze_path path = Some path"
  by (auto simp: plan_links_def dest: generate_paths_normal split: prod.splits)

lemma plan_links_count:
  assumes "rb_min_links budget \<le> rb_max_links budget"
  shows "rb_min_links budget \<le> length (plan_links L seed budget) \<and> length (plan_links L seed budget) \<le> rb_max_links budget"
proof -
  have "length (generate_paths L n r) = n" for n r by (induction n arbitrary: r) (auto split: prod.splits)
  then show ?thesis using rng_range_bounds [OF _ assms] by (auto simp: plan_links_def split: prod.splits)
qed

section \<open>Links lead back\<close>

lemma mint_text:
  assumes "maze_libs_ok L" "length nonce = 16"
  shows "CHR ''/'' \<notin> set (token_build L keys path source expires nonce corrupt) \<and> token_build L keys path source expires nonce corrupt \<noteq> []"
proof -
  have "length (token_header L keys source expires nonce) + 16 = TOKEN_LEN"
    using token_header_length [OF assms] by (simp add: HEADER_LEN_def TOKEN_LEN_def)
  then have "length (token_build L keys path source expires nonce corrupt) = TOKEN_ENCODED_LEN"
    using assms(1) compute_tag_length [OF assms(1)] by (auto simp: token_build_def maze_libs_ok_def Let_def)
  then show ?thesis using assms(1) by (auto simp: token_build_def maze_libs_ok_def TOKEN_ENCODED_LEN_def Let_def)
qed

lemma maze_link_routes:
  assumes "maze_libs_ok (me_libs E)" "length (me_nonce E i) = 16" "CHR ''/'' \<notin> set (mk_route_prefix keys)" "normalize_maze_path path = Some path"
  shows "route_segment (maze_link E keys auth source expires i path) = Some (mk_route_prefix keys) \<and>
    parse_route (drop (1 + length (mk_route_prefix keys)) (maze_link E keys auth source expires i path)) =
      Some (token_build (me_libs E) keys path source expires (me_nonce E i) (\<not> auth), path)"
proof -
  let ?token = "token_build (me_libs E) keys path source expires (me_nonce E i) (\<not> auth)"
  have token: "CHR ''/'' \<notin> set ?token" "?token \<noteq> []" using mint_text [OF assms(1,2)] by blast+
  have url: "maze_link E keys auth source expires i path = CHR ''/'' # mk_route_prefix keys @ CHR ''/'' # ?token @ CHR ''/'' # path"
    by (simp add: maze_link_def mint_def mint_decoy_def)
  show ?thesis
    using token assms(3,4) by (simp add: url route_segment_def split_on_plain parse_route_def split_once_plain)
qed

lemma poison_set_contains: "now \<le> t \<Longrightarrow> t < now + ttl \<Longrightarrow> poison_contains ident t (poison_set ident maze ttl now store)"
  by (simp add: poison_contains_def poison_set_def Let_def map_of_put_entry)

lemma maze_lookup_again:
  assumes "maze_lookup E host ms = (r, ms')"
  shows "maze_lookup (E\<lparr> me_instant := t \<rparr>) host (ms'\<lparr> ms_poison := store \<rparr>) = (r, ms'\<lparr> ms_poison := store \<rparr>)"
proof (cases "me_mazes E = [] \<or> map_of (me_tables E) host \<noteq> None \<or> map_of (ms_wildcards ms) host \<noteq> None")
  case True
  then show ?thesis using assms by (auto simp: maze_lookup_def split: option.splits)
next
  case False
  then show ?thesis
    using assms by (cases "build_table (me_libs E) (me_master E) host (me_mazes E)") (auto simp: maze_lookup_def Let_def map_of_put_entry split: if_splits)
qed

lemma maze_lookup_poison: "maze_lookup E host ms = (r, ms') \<Longrightarrow> ms_poison ms' = ms_poison ms"
  by (auto simp: maze_lookup_def Let_def split: if_splits option.splits sum.splits)

lemma render_maze_ok: "rp_status (fst (render_maze E runtime q)) = 200"
  by (auto simp: render_maze_def maze_envelope_def body_response_def Let_def split: option.splits prod.splits render_attempt.splits)

text \<open>What serving a link of the maze does, in terms of the class of its token.\<close>

lemma maze_gate_link:
  assumes "maze_lookup E host ms = (FoundTable table, ms')" "map_of table (mk_route_prefix keys) = Some runtime" "mr_keys runtime = keys"
    and "maze_libs_ok (me_libs E0)" "me_libs E0 = me_libs E" "length (me_nonce E0 i) = 16" "CHR ''/'' \<notin> set (mk_route_prefix keys)"
    and "normalize_maze_path path = Some path" "method = ''GET'' \<or> method = ''HEAD''"
  shows "\<exists>resp. rp_status resp = 200 \<and>
    maze_gate W E host (Some addr) peer method (maze_link E0 keys auth source expires i path) (ms, ws) =
      (Some resp,
       if token_classify (me_libs E) keys path (token_build (me_libs E) keys path source expires (me_nonce E0 i) (\<not> auth)) (Some (from_ip addr)) (me_now E) = ValidReturn
       then (ms'\<lparr> ms_poison := poison_set (memory_id (me_libs E) (mk_memory keys) host (mr_name runtime) (from_ip addr)) (mr_name runtime)
                    (mz_memory_ttl (mr_config runtime) * 1000000000) (me_instant E) (ms_poison ms) \<rparr>,
             emit_offense W (Some addr) host (Some (mr_name runtime)) ''valid_return'' OffPoisonReturn None ws)
       else (ms', ws))"
proof -
  let ?url = "maze_link E0 keys auth source expires i path"
  define q where "q = \<lparr> mq_runtime = runtime, mq_host = host, mq_client_ip = Some addr, mq_source = Some (from_ip addr),
      mq_peer_network = from_ip peer, mq_method = method, mq_raw_path = ?url \<rparr>"
  define cls where "cls = token_classify (me_libs E) keys path (token_build (me_libs E) keys path source expires (me_nonce E0 i) (\<not> auth))
      (Some (from_ip addr)) (me_now E)"
  note routes = maze_link_routes [OF assms(4,6,7,8), of auth source expires, unfolded assms(5)]
  have cls: "serve_class E q = (cls, Some path)"
    using routes assms(3,9) by (auto simp: serve_class_def q_def cls_def Let_def)
  obtain resp kind label where r: "render_maze E runtime
      \<lparr> md_host = host, md_source = Some (from_ip addr), md_budget_source = from_ip addr, md_authenticated = is_authenticated cls,
        md_seed_input = as_bytes path, md_payload_path = path, md_head_only = (method = ''HEAD'') \<rparr> = (resp, kind, label)"
    by (metis prod_cases3)
  have "maze_gate W E host (Some addr) peer method ?url (ms, ws) =
      (let (resp, ms, ws) = serve_maze W E q (ms', ws) in (Some resp, ms, ws))"
    using assms(1,2) routes by (simp add: maze_gate_def q_def)
  also have "serve_maze W E q (ms', ws) =
      (resp, if cls = ValidReturn
        then (ms'\<lparr> ms_poison := poison_set (memory_id (me_libs E) (mk_memory keys) host (mr_name runtime) (from_ip addr)) (mr_name runtime)
                    (mz_memory_ttl (mr_config runtime) * 1000000000) (me_instant E) (ms_poison ms) \<rparr>,
              emit_offense W (Some addr) host (Some (mr_name runtime)) ''valid_return'' OffPoisonReturn None ws)
        else (ms', ws))"
    using r cls assms(3) maze_lookup_poison [OF assms(1)] unfolding serve_maze_def
    by (cases cls) (simp_all add: q_def)
  finally show ?thesis
    using render_maze_ok [of E runtime] r by (auto simp: cls_def [symmetric] Let_def split: if_splits) (metis fst_conv)+
qed

text \<open>C26. Following a link exposes a crawler, and nothing else does. A link generated by a maze for a
  visitor's network is routed to that maze whatever the rules say. Followed from the network before
  the token expires, it enters the network into the poison memory, so that for the memory's
  lifetime \<open>poison.returned\<close> holds for every request of the network, and it reports one offense. A
  decoy link gets the same kind of answer and changes neither the memory nor the offenses.\<close>

theorem followed_link_exposes:
  assumes "maze_lookup E host ms = (FoundTable table, ms')" "(prefix, runtime) \<in> set table" "distinct (map fst table)"
    and "mr_keys runtime = derive_maze_keys (me_libs E) (me_master E) host (mr_name runtime)" "prefix = mk_route_prefix (mr_keys runtime)"
    and "maze_libs_ok (me_libs E)" "me_libs E0 = me_libs E" "length (me_nonce E0 i) = 16" "expires \<le> u64_max"
    and "path \<in> set (plan_links (me_libs E) seed budget)" "method = ''GET'' \<or> method = ''HEAD''"
    and "from_ip addr = from_ip visitor" "me_now E \<le> expires" "me_instant E \<le> later" "later < me_instant E + mz_memory_ttl (mr_config runtime) * 1000000000"
    and "we_offense_source W"
  shows "(\<exists>resp ms2 ws2. maze_gate W E host (Some addr) peer method (maze_link E0 (mr_keys runtime) True (Some (from_ip visitor)) expires i path) (ms, ws) =
        (Some resp, ms2, ws2) \<and> rp_status resp = 200 \<and> fst (poison_returned (E\<lparr> me_instant := later \<rparr>) host (from_ip addr) ms2) \<and>
        (\<exists>offense. ws_offenses ws2 = ws_offenses ws @ [offense] \<and> wo_address offense = addr \<and> wo_kind offense = OffPoisonReturn)) \<and>
    (\<exists>resp ms2. maze_gate W E host (Some addr) peer method (maze_link E0 (mr_keys runtime) False (Some (from_ip visitor)) expires i path) (ms, ws) =
        (Some resp, ms2, ws) \<and> rp_status resp = 200 \<and> ms_poison ms2 = ms_poison ms)"
proof -
  let ?L = "me_libs E" and ?keys = "mr_keys runtime" and ?src = "Some (from_ip visitor)"
  have slash: "CHR ''/'' \<notin> set (mk_route_prefix ?keys)"
    using assms(4,6) by (simp add: derive_maze_keys_def Let_def maze_libs_ok_def)
  have entry: "map_of table (mk_route_prefix ?keys) = Some runtime" using assms(2,3,5) by simp
  have ok0: "maze_libs_ok (me_libs E0)" using assms(6,7) by simp
  have normal: "normalize_maze_path path = Some path" by (rule plan_links_normal [OF assms(10)])
  note gate = maze_gate_link [OF assms(1) entry refl ok0 assms(7,8) slash normal assms(11), of W addr peer _ ?src expires ws]
  have valid: "token_classify ?L ?keys path (token_build ?L ?keys path ?src expires (me_nonce E0 i) False) (Some (from_ip addr)) (me_now E) = ValidReturn"
    using classify_raw [OF assms(6,8,9) compute_tag_length [OF assms(6)], of ?keys path ?src "mk_mac ?keys" "token_header ?L ?keys ?src expires (me_nonce E0 i)" path]
      assms(12,13) by (simp add: token_build_def Let_def)
  have decoy: "token_classify ?L ?keys path (token_build ?L ?keys path ?src expires (me_nonce E0 i) True) (Some (from_ip addr)) (me_now E) \<noteq> ValidReturn"
    using classify_raw [OF assms(6,8,9), of "(compute_tag ?L (mk_mac ?keys) (token_header ?L ?keys ?src expires (me_nonce E0 i)) path)
        [0 := xor (compute_tag ?L (mk_mac ?keys) (token_header ?L ?keys ?src expires (me_nonce E0 i)) path ! 0) 1]"]
      flipped_tag [OF compute_tag_length [OF assms(6)]] compute_tag_length [OF assms(6)] by (simp add: token_build_def Let_def)
  let ?id = "memory_id ?L (mk_memory ?keys) host (mr_name runtime) (from_ip addr)"
  let ?store = "poison_set ?id (mr_name runtime) (mz_memory_ttl (mr_config runtime) * 1000000000) (me_instant E) (ms_poison ms)"
  have "runtime \<in> snd ` set table" using assms(2) by force
  then have "fst (poison_returned (E\<lparr> me_instant := later \<rparr>) host (from_ip addr) (ms'\<lparr> ms_poison := ?store \<rparr>))"
    using maze_lookup_again [OF assms(1), of later ?store] poison_set_contains [OF assms(14,15)]
    by (auto simp: poison_returned_def list_ex_iff)
  with gate [of True] valid assms(16) have "\<exists>resp ms2 ws2. maze_gate W E host (Some addr) peer method (maze_link E0 ?keys True ?src expires i path) (ms, ws) =
        (Some resp, ms2, ws2) \<and> rp_status resp = 200 \<and> fst (poison_returned (E\<lparr> me_instant := later \<rparr>) host (from_ip addr) ms2) \<and>
        (\<exists>offense. ws_offenses ws2 = ws_offenses ws @ [offense] \<and> wo_address offense = addr \<and> wo_kind offense = OffPoisonReturn)"
    by (auto simp: emit_offense_def)
  with gate [of False] decoy maze_lookup_poison [OF assms(1)] show ?thesis by auto
qed

section \<open>The size of a page\<close>

lemma rng_words_bound: "rng_words L n r = (ws, r') \<Longrightarrow> length ws = n \<and> list_all (\<lambda>w. length w \<le> 9) ws"
  by (induction n arbitrary: r ws r') (auto dest: rng_word_corpus simp: corpus_word_def split: prod.splits)

lemma sentence_bound: "sentence L r = (s, r') \<Longrightarrow> length s \<le> 162"
proof -
  assume "sentence L r = (s, r')"
  then obtain n r1 ws where n: "rng_range L 6 16 r = (n, r1)" and ws: "rng_words L n r1 = (ws, r')" and s: "s = join_with '' '' ws @ ''. ''"
    by (auto simp: sentence_def split: prod.splits)
  have "length (join_with '' '' ws) \<le> length ws * (9 + 1)" using rng_words_bound [OF ws] by (intro join_length) simp
  moreover have "length ws \<le> 16" using rng_words_bound [OF ws] rng_range_bounds [OF n] by simp
  ultimately show ?thesis by (simp add: s)
qed

lemma sentences_bound: "sentences L n r = (s, r') \<Longrightarrow> length s \<le> n * 162"
  by (induction n arbitrary: r s r') (fastforce dest: sentence_bound split: prod.splits)+

lemma anchor_bound: "anchor L href r = (s, r') \<Longrightarrow> length href \<le> length s \<and> length s \<le> length href + 36"
proof -
  obtain a r1 b r2 where a: "rng_word L r = (a, r1)" and b: "rng_word L r1 = (b, r2)" by fastforce
  assume "anchor L href r = (s, r')"
  then have "length s = length href + 18 + length a + length b" by (auto simp: anchor_def a b)
  with rng_word_corpus [OF a] rng_word_corpus [OF b] show ?thesis by (simp add: corpus_word_def)
qed

lemma page_paragraph_bound:
  assumes "page_paragraph L mint_link minted links_left r = (s, r')"
    and "\<And>i path. length path \<le> 60 \<Longrightarrow> lo \<le> length (mint_link i path) \<and> length (mint_link i path) \<le> hi"
  shows "length s \<le> 853 + hi \<and> (0 < links_left \<longrightarrow> lo \<le> length s) \<and> 7 \<le> length s"
proof -
  obtain n r1 prose r2 where n: "rng_range L 2 5 r = (n, r1)" and prose: "sentences L n r1 = (prose, r2)" by fastforce
  have p: "length prose \<le> 810" using sentences_bound [OF prose] rng_range_bounds [OF n] by simp
  obtain path r3 link r4 where path: "generate_path L r2 = (path, r3)" and link: "anchor L (mint_link minted path) r3 = (link, r4)" by fastforce
  have "s = ''<p>'' @ prose @ (if 0 < links_left then link else []) @ ''</p>''"
    using assms(1) by (auto simp: page_paragraph_def n prose path link)
  moreover have "lo \<le> length link" "length link \<le> hi + 36"
    using anchor_bound [OF link] assms(2) [OF generate_path_length [OF path], of minted] by simp_all
  ultimately show ?thesis using p by auto
qed

lemma page_loop_bounds:
  assumes "page_loop L budget mint_link target minted links_left html r = (html', minted')"
    and "\<And>i path. length path \<le> 60 \<Longrightarrow> lo \<le> length (mint_link i path) \<and> length (mint_link i path) \<le> hi"
    and "length html < rb_max_bytes budget - 64" "minted * lo \<le> length html"
  shows "length html' < rb_max_bytes budget - 64 + 853 + hi \<and> minted' \<le> minted + links_left \<and>
    (minted' - 1) * lo < rb_max_bytes budget - 64 \<and>
    (minted' = minted + links_left \<and> target \<le> length html' \<or> rb_max_bytes budget - 64 \<le> length html')"
  using assms
proof (induction L budget mint_link target minted links_left html r rule: page_loop.induct)
  case (1 L budget mint_link target minted links_left html r)
  have early: "(minted - 1) * lo < rb_max_bytes budget - 64"
    using "1.prems"(3,4) by (cases minted) auto
  show ?case
  proof (cases "length html < target \<or> 0 < links_left")
    case False
    then have "page_loop L budget mint_link target minted links_left html r = (html, minted)"
      by (subst page_loop.simps) simp
    then show ?thesis using "1.prems" early False by auto
  next
    case go: True
    obtain para r1 where para: "page_paragraph L mint_link minted links_left r = (para, r1)" by fastforce
    let ?html = "html @ para" and ?minted = "if 0 < links_left then Suc minted else minted"
    have bound: "length para \<le> 853 + hi" "0 < links_left \<Longrightarrow> lo \<le> length para"
      using page_paragraph_bound [OF para "1.prems"(2)] by blast+
    have mint: "?minted * lo \<le> length ?html" "(?minted - 1) * lo < rb_max_bytes budget - 64"
      using bound(2) "1.prems"(3,4) early by auto
    show ?thesis
    proof (cases "rb_max_bytes budget - 64 \<le> length ?html")
      case True
      then have "html' = ?html \<and> minted' = ?minted"
        using "1.prems"(1) go by (simp add: page_loop.simps [of L budget mint_link target minted links_left html r] para split: if_splits)
      then show ?thesis using True bound(1) "1.prems"(3) mint by auto
    next
      case False
      then have step: "page_loop L budget mint_link target ?minted (links_left - 1) ?html r1 = (html', minted')"
        using "1.prems"(1) go by (simp add: page_loop.simps [of L budget mint_link target minted links_left html r] para)
      have "length ?html < rb_max_bytes budget - 64" using False by simp
      from "1.IH" [OF go para [symmetric] refl refl refl False step "1.prems"(2) this mint(1)] show ?thesis
        by (cases links_left) auto
    qed
  qed
qed

lemma page_head_bound: "page_head L r = (s, r') \<Longrightarrow> length s \<le> 96"
proof -
  obtain a r1 b r2 where a: "rng_word L r = (a, r1)" and b: "rng_word L r1 = (b, r2)" by fastforce
  assume "page_head L r = (s, r')"
  then have "length s = length a + length b + 78" by (auto simp: page_head_def a b)
  with rng_word_corpus [OF a] rng_word_corpus [OF b] show ?thesis by (simp add: corpus_word_def)
qed

text \<open>C39. The page the built-in renderer makes. With the limits of a validated configuration (between
  one link and 64, at least 1024 bytes) and addresses of a length between \<open>lo\<close> and \<open>hi\<close> for the paths the renderer
  generates, which have at most 60 characters, a page
  overruns the byte limit by at most one paragraph with its link, it carries no more links than the
  limit, and it falls short of the minima on links and bytes only when the byte limit has been reached
  first: then all links but the last fit below that limit, whatever minimum on links was set.\<close>

theorem page_within_budget:
  assumes "1 \<le> rb_min_links budget" "rb_min_links budget \<le> rb_max_links budget" "rb_max_links budget \<le> 64"
    and "1024 \<le> rb_min_bytes budget" "rb_min_bytes budget \<le> rb_max_bytes budget"
    and "\<And>i path. length path \<le> 60 \<Longrightarrow> lo \<le> length (mint_link i path) \<and> length (mint_link i path) \<le> hi"
    and "render_page L seed budget mint_link = (html, minted)"
  shows "length html < rb_max_bytes budget + 803 + hi \<and> minted \<le> rb_max_links budget \<and>
    (minted - 1) * lo < rb_max_bytes budget - 64 \<and>
    (rb_min_links budget \<le> minted \<and> rb_min_bytes budget \<le> length html \<or>
     rb_max_bytes budget - 64 \<le> length html)"
proof -
  obtain link_count r1 where links: "rng_range L (rb_min_links budget) (rb_max_links budget) (rng_new seed) = (link_count, r1)" by fastforce
  obtain target r2 where target: "rng_range L (rb_min_bytes budget)
      (max (rb_max_bytes budget - (128 * link_count + 256)) (rb_min_bytes budget)) r1 = (target, r2)" by fastforce
  obtain head r3 where head: "page_head L r2 = (head, r3)" by fastforce
  obtain body' where body: "page_loop L budget mint_link target 0 link_count head r3 = (body', minted)"
    and html: "html = body' @ ''</body></html>''"
    using assms(7) by (auto simp: render_page_def links target head Let_def split: prod.splits)
  have "length head < rb_max_bytes budget - 64" using page_head_bound [OF head] assms(4,5) by simp
  from page_loop_bounds [OF body assms(6) this] have
    "length body' < rb_max_bytes budget - 64 + 853 + hi \<and> minted \<le> link_count \<and> (minted - 1) * lo < rb_max_bytes budget - 64 \<and>
     (minted = link_count \<and> target \<le> length body' \<or> rb_max_bytes budget - 64 \<le> length body')" by simp
  moreover have "rb_min_links budget \<le> link_count" "link_count \<le> rb_max_links budget" "rb_min_bytes budget \<le> target"
    using rng_range_bounds [OF links] rng_range_bounds [OF target] assms(2) by simp_all
  ultimately show ?thesis using assms(4,5) by (auto simp: html)
qed

section \<open>The poison memory\<close>

lemma soonest_key: "soonest store = Some k \<Longrightarrow> k \<in> fst ` set store"
  by (induction store arbitrary: k rule: soonest.induct) (auto split: option.splits if_splits)

lemma soonest_none: "soonest store = None \<longleftrightarrow> store = []"
  by (cases store rule: soonest.cases) (auto split: option.splits)

text \<open>The memory never outgrows its capacity: a full one makes room by dropping what has expired or,
  failing that, one entry.\<close>

lemma poison_set_bounded:
  assumes "length store \<le> MEMORY_CAPACITY"
  shows "length (poison_set ident maze ttl now store) \<le> MEMORY_CAPACITY"
proof (cases "MEMORY_CAPACITY \<le> length store \<and> map_of store ident = None")
  case False
  then show ?thesis
    using assms put_entry_length [of ident "\<lparr> pe_expires = now + ttl, pe_maze = maze \<rparr>" store]
    by (auto simp: poison_set_def map_of_eq_None_iff split: if_splits)
next
  case True
  define kept where "kept = filter (\<lambda>(_, e). now < pe_expires e) store"
  define room where "room = (if MEMORY_CAPACITY \<le> length kept then (case soonest kept of None \<Rightarrow> kept | Some k \<Rightarrow> bt_remove k kept) else kept)"
  have kept: "length kept \<le> MEMORY_CAPACITY" unfolding kept_def using assms by (rule le_trans [OF length_filter_le])
  have "length room < MEMORY_CAPACITY"
  proof (cases "MEMORY_CAPACITY \<le> length kept")
    case full: True
    then obtain k where k: "soonest kept = Some k" using soonest_none [of kept] by (auto simp: MEMORY_CAPACITY_def)
    show ?thesis using bt_remove_length_less [OF soonest_key [OF k]] kept full by (simp add: room_def k)
  qed (simp add: room_def)
  then show ?thesis
    using True put_entry_length [of ident "\<lparr> pe_expires = now + ttl, pe_maze = maze \<rparr>" room]
    by (simp add: poison_set_def Let_def kept_def [symmetric] room_def [symmetric] split: if_splits)
qed

end
