(* ===== verification/Maze_Examples.thy ===== *)
theory Maze_Examples
  imports Maze_Theorems
begin

text \<open>
  A host with one maze. The codec is the lowercase Base32 of the code, the MAC of a message its last
  32 bytes, and a derived key all zeros.
\<close>

section \<open>Base32\<close>

definition to_bits :: "nat \<Rightarrow> 'a::linordered_euclidean_semiring_bit_operations \<Rightarrow> bool list" where
  "to_bits n k = rev (map (bit k) [0..<n])"

definition of_bits :: "bool list \<Rightarrow> 'a::linordered_euclidean_semiring_bit_operations" where
  "of_bits bs = horner_sum of_bool 2 (rev bs)"

fun groups :: "nat \<Rightarrow> nat \<Rightarrow> bool list \<Rightarrow> bool list list" where
  "groups n 0 bs = []"
| "groups n (Suc k) bs = take n bs # groups n k (drop n bs)"

definition base32_alphabet :: string where
  "base32_alphabet = ''abcdefghijklmnopqrstuvwxyz234567''"

definition base32_encode :: "byte list \<Rightarrow> string" where
  "base32_encode raw =
     (let bs = concat (map (\<lambda>b. to_bits 8 (unat b)) raw); k = (length bs + 4) div 5
      in map (\<lambda>g. base32_alphabet ! of_bits g) (groups 5 k (bs @ replicate (5 * k - length bs) False)))"

fun position :: "char \<Rightarrow> string \<Rightarrow> nat" where
  "position c [] = 0"
| "position c (d # ds) = (if c = d then 0 else Suc (position c ds))"

definition base32_decode :: "string \<Rightarrow> byte list option" where
  "base32_decode encoded =
     (let bs = concat (map (\<lambda>c. to_bits 5 (position c base32_alphabet)) encoded)
      in if set encoded \<subseteq> set base32_alphabet then Some (map (\<lambda>g. of_nat (of_bits g)) (groups 8 (length bs div 8) bs)) else None)"

lemma to_bits_length [simp]: "length (to_bits n k) = n"
  by (simp add: to_bits_def)

lemma of_bits_less: "of_bits bs < (2 :: nat) ^ length bs"
  using horner_sum_of_bool_2_less [of "rev bs"] by (simp add: of_bits_def)

lemma to_of_bits: "to_bits (length bs) (of_bits bs :: nat) = bs"
  by (rule nth_equalityI) (auto simp: to_bits_def of_bits_def rev_nth bit_horner_sum_bit_iff)

lemma of_to_bits: "of_bits (to_bits n k) = take_bit n (k :: nat)"
  by (simp add: to_bits_def of_bits_def horner_sum_bit_eq_take_bit)

lemma groups_concat: "\<forall>g \<in> set gs. length g = n \<Longrightarrow> groups n (length gs) (concat gs @ rest) = gs"
  by (induction gs) auto

lemma concat_groups: "length bs = n * k \<Longrightarrow> concat (groups n k bs) = bs \<and> length (groups n k bs) = k \<and> (\<forall>g \<in> set (groups n k bs). length g = n)"
  by (induction n k bs rule: groups.induct) (auto simp: algebra_simps)

lemma position_nth: "distinct cs \<Longrightarrow> i < length cs \<Longrightarrow> position (cs ! i) cs = i"
  by (induction cs arbitrary: i) (auto simp: nth_Cons split: nat.split)

lemma alphabet: "distinct base32_alphabet" "length base32_alphabet = 32" "CHR ''/'' \<notin> set base32_alphabet"
  by code_simp+

lemma bytes_bits_length: "length (concat (map (\<lambda>b. to_bits 8 (unat (b :: byte))) raw)) = 8 * length raw"
  by (induction raw) simp_all

lemma base32_length: "length (base32_encode raw) = (8 * length raw + 4) div 5"
proof -
  have "length (groups n k bs) = k" for n k and bs :: "bool list" by (induction n k bs rule: groups.induct) auto
  then show ?thesis by (simp add: base32_encode_def Let_def bytes_bits_length)
qed

lemma base32_roundtrip: "base32_decode (base32_encode raw) = Some raw \<and> CHR ''/'' \<notin> set (base32_encode raw)"
proof -
  define bs k where "bs = concat (map (\<lambda>b. to_bits 8 (unat (b :: byte))) raw)" and "k = (length bs + 4) div 5"
  define padded where "padded = bs @ replicate (5 * k - length bs) False"
  have len: "length bs = 8 * length raw" by (simp add: bs_def bytes_bits_length)
  have k: "length bs \<le> 5 * k" "5 * k < length bs + 5" by (auto simp: k_def)
  have plen: "length padded = 5 * k" using k(1) unfolding padded_def length_append length_replicate by linarith
  have g: "concat (groups 5 k padded) = padded" "\<forall>g \<in> set (groups 5 k padded). length g = 5"
    using concat_groups [OF plen] by blast+
  have enc: "base32_encode raw = map (\<lambda>g. base32_alphabet ! of_bits g) (groups 5 k padded)"
    by (simp add: base32_encode_def Let_def bs_def k_def padded_def)
  have small: "of_bits g < (32 :: nat)" if "g \<in> set (groups 5 k padded)" for g
    using of_bits_less [of g] g(2) [rule_format, OF that] by simp
  have chars: "set (base32_encode raw) \<subseteq> set base32_alphabet" using small alphabet(2) by (auto simp: enc)
  have "to_bits 5 (position (base32_alphabet ! of_bits g) base32_alphabet) = g" if "g \<in> set (groups 5 k padded)" for g
    using position_nth [OF alphabet(1), of "of_bits g"] small [OF that] alphabet(2) to_of_bits [of g] g(2) that by simp
  then have "map (\<lambda>g. to_bits 5 (position (base32_alphabet ! of_bits g) base32_alphabet)) (groups 5 k padded) = groups 5 k padded"
    by (simp add: map_idI)
  then have bits_again: "concat (map (\<lambda>c. to_bits 5 (position c base32_alphabet)) (base32_encode raw)) = padded"
    using g(1) by (simp add: enc comp_def)
  have "length padded div 8 = length raw" using k len by (simp add: padded_def)
  moreover have "groups 8 (length raw) padded = map (\<lambda>b. to_bits 8 (unat b)) raw"
    using groups_concat [of "map (\<lambda>b. to_bits 8 (unat b)) raw" 8] by (simp add: padded_def bs_def)
  moreover have "of_nat (of_bits (to_bits 8 (unat b))) = b" for b :: byte
  proof -
    have "unat b < 2 ^ LENGTH(8)" by (rule unsigned_less)
    then show ?thesis by (simp add: of_to_bits take_bit_nat_eq_self)
  qed
  ultimately show ?thesis using chars alphabet(3) by (auto simp: base32_decode_def bits_again Let_def comp_def)
qed

definition mx_libs :: maze_libs where
  "mx_libs = \<lparr> ml_hmac = (\<lambda>key m. take 32 (rev m @ replicate 32 0)), ml_hkdf = (\<lambda>_ _ _. replicate 32 0),
     ml_b32 = base32_encode, ml_unb32 = base32_decode \<rparr>"

lemma mx_libs_ok: "maze_libs_ok mx_libs"
  by (simp add: maze_libs_ok_def mx_libs_def base32_length base32_roundtrip TOKEN_LEN_def TOKEN_ENCODED_LEN_def min_def)

section \<open>The maze\<close>

definition mx_maze :: maze_config where
  "mx_maze = \<lparr> mz_name = ''m'', mz_renderer = ''builtin'', mz_token_ttl = 3600, mz_memory_ttl = 86400,
     mz_min_links = 2, mz_max_links = 4, mz_min_bytes = 1024, mz_max_bytes = 4096 \<rparr>"

definition mx_env :: "u64 \<Rightarrow> nat \<Rightarrow> maze_env" where
  "mx_env now instant = \<lparr> me_libs = mx_libs, me_master = [7], me_mazes = [mx_maze], me_tables = [], me_renderers = [], me_now = now,
     me_instant = instant, me_nonce = (\<lambda>i. replicate 15 0 @ [of_nat i]) \<rparr>"

definition mx_runtime :: maze_runtime where
  "mx_runtime = \<lparr> mr_name = ''m'', mr_keys = derive_maze_keys mx_libs [7] ''a.b'' ''m'', mr_config = mx_maze \<rparr>"

definition mx_state :: maze_state where
  "mx_state = \<lparr> ms_poison = [], ms_wildcards = [] \<rparr>"

lemma mx_lookup:
  "\<exists>ms. maze_lookup (mx_env now instant) ''a.b'' mx_state =
     (FoundTable [(mk_route_prefix (mr_keys mx_runtime), mx_runtime)], ms)"
  by (simp add: maze_lookup_def mx_env_def mx_state_def build_table_def mx_maze_def mx_runtime_def put_entry_def Let_def)

text \<open>A visitor of 10.0.0.7 is shown links at 100; the token of one, and what it is for others.\<close>

theorem maze_token_lifecycle_witness:
  "let keys = mr_keys mx_runtime; here = from_ip (V4 0x0A000007); there = from_ip (V4 0x0B000007);
       link = mint mx_libs keys ''atlas'' (Some here) 200 (replicate 16 9) in
   maze_libs_ok mx_libs \<and> token_classify mx_libs keys ''atlas'' link (Some here) 200 = ValidReturn \<and>
   token_classify mx_libs keys ''atlas'' link (Some there) 200 = Transfer \<and> token_classify mx_libs keys ''atlas'' link (Some here) 201 = Expired \<and>
   token_classify mx_libs keys ''stone'' link (Some here) 200 = InvalidToken \<and>
   token_classify mx_libs keys ''atlas'' (mint_decoy mx_libs keys ''atlas'' (Some here) 200 (replicate 16 9)) (Some here) 200 = InvalidToken"
proof -
  have ip: "octets4 0x0A000007 = [10, 0, 0, 7]" "octets4 0x0B000007 = [11, 0, 0, 7]" by code_simp+
  have far: "binding_value mx_libs k (from_ip (V4 0x0A000007)) \<noteq> binding_value mx_libs k (from_ip (V4 0x0B000007))" for k
    by (simp add: binding_value_def mx_libs_def frame_def ip)
  have tags: "compute_tag mx_libs k h ''atlas'' \<noteq> compute_tag mx_libs k h ''stone''" for k h
    by (simp add: compute_tag_def mx_libs_def frame_def as_bytes_def)
  have "length (replicate 16 (9 :: byte)) = 16" "(200 :: u64) \<le> u64_max" by (simp_all add: width_simps)
  note life = maze_token_lifecycle [OF mx_libs_ok this]
  show ?thesis using life mx_libs_ok far tags by (simp add: Let_def)
qed

text \<open>Following the first link planned for the visitor.\<close>

lemma mx_planned: "\<exists>path. path \<in> set (plan_links mx_libs [1] (maze_budget mx_maze))"
proof -
  have "2 \<le> length (plan_links mx_libs [1] (maze_budget mx_maze))"
    using plan_links_count [of "maze_budget mx_maze" mx_libs "[1]"] by (simp add: maze_budget_def mx_maze_def)
  then have "plan_links mx_libs [1] (maze_budget mx_maze) \<noteq> []" by auto
  then show ?thesis by (meson last_in_set)
qed

definition mx_path :: string where
  "mx_path = hd (plan_links mx_libs [1] (maze_budget mx_maze))"

lemma mx_path_planned: "mx_path \<in> set (plan_links mx_libs [1] (maze_budget mx_maze))"
  using mx_planned by (cases "plan_links mx_libs [1] (maze_budget mx_maze)") (auto simp: mx_path_def)

text \<open>The length of the addresses of the maze.\<close>

lemma mx_link_length: "length (maze_link (mx_env now instant) (mr_keys mx_runtime) auth source expires i path) = 116 + length path"
proof -
  have "length (token_header mx_libs keys source expires (me_nonce (mx_env now instant) i)) = HEADER_LEN" for keys
    by (rule token_header_length [OF mx_libs_ok]) (simp add: mx_env_def)
  then have "length (token_build mx_libs keys path source expires (me_nonce (mx_env now instant) i) corrupt) = 93" for keys corrupt
    using compute_tag_length [OF mx_libs_ok]
    by (simp add: token_build_def Let_def mx_libs_def base32_length HEADER_LEN_def TOKEN_LEN_def)
  then show ?thesis
    by (simp add: maze_link_def mint_def mint_decoy_def mx_env_def mx_runtime_def derive_maze_keys_def Let_def mx_libs_def base32_length)
qed

text \<open>A configuration that passes validation with a minimum of 64 links and a page of 1024 bytes: the page
  has no more than nine.\<close>

theorem page_within_budget_witness:
  "let budget = \<lparr> rb_min_links = 64, rb_max_links = 64, rb_min_bytes = 1024, rb_max_bytes = 1024 \<rparr>;
       page = render_page mx_libs [1] budget (maze_link (mx_env 100 0) (mr_keys mx_runtime) True None 200)
   in length (fst page) < 2003 \<and> snd page < rb_min_links budget \<and> 960 \<le> length (fst page)"
proof -
  define budget where "budget = \<lparr> rb_min_links = 64, rb_max_links = 64, rb_min_bytes = 1024, rb_max_bytes = 1024 \<rparr>"
  define link where "link = maze_link (mx_env 100 0) (mr_keys mx_runtime) True None 200"
  obtain html minted where page: "render_page mx_libs [1] budget link = (html, minted)" by fastforce
  have "116 \<le> length (link i path) \<and> length (link i path) \<le> 176" if "length path \<le> 60" for i path
    using that by (simp add: link_def mx_link_length)
  then have "length html < rb_max_bytes budget + 803 + 176 \<and> minted \<le> rb_max_links budget \<and>
      (minted - 1) * 116 < rb_max_bytes budget - 64 \<and>
      (rb_min_links budget \<le> minted \<and> rb_min_bytes budget \<le> length html \<or> rb_max_bytes budget - 64 \<le> length html)"
    by (intro page_within_budget [OF _ _ _ _ _ _ page]) (simp_all add: budget_def)
  then have "length html < 2003 \<and> minted < 64 \<and> 960 \<le> length html" by (auto simp: budget_def)
  then show ?thesis using page by (simp add: budget_def link_def Let_def)
qed

text \<open>The visitor, back from a neighbouring address, has its network poisoned for a day.\<close>

definition mx_web :: "unit web_env" where
  "mx_web = \<lparr> we_engine = (\<lambda>s _. (None, s)), we_scope = (\<lambda>_. ()), we_registry = [], we_sha256 = (\<lambda>m. m), we_key_fingerprint = [1],
     we_revision = 7, we_hash = (\<lambda>_. 0), we_now = 100, we_instant = 0, we_second = 0, we_session_draw = None,
     we_key_draws = (\<lambda>_. []), we_lookup = (\<lambda>_. None), we_expand = (\<lambda>_ _ _. None),
     we_error_page = (\<lambda>_ title _. title), we_challenge_page = (\<lambda>name _ _. name), we_embed = (\<lambda>name _ _. name), we_maze_page = (\<lambda>_ _. None),
     we_smear_page = (\<lambda>_ _. []), we_lure = (\<lambda>_ _ _. None), we_beacon = (\<lambda>_. []), we_offense_source = True \<rparr>"

definition mx_visit :: web_state where
  "mx_visit = \<lparr> ws_challenge = rc_empty, ws_pending = pending_default, ws_issues = 0, ws_dnsbl = [], ws_smear_slots = 2, ws_offenses = [] \<rparr>"

theorem followed_link_exposes_witness:
  "let link = (\<lambda>auth. maze_link (mx_env 100 0) (mr_keys mx_runtime) auth (Some (from_ip (V4 0x0A000007))) 200 1 mx_path);
       later = (mx_env 150 5)\<lparr> me_instant := 3600000000000 \<rparr>;
       serve = (\<lambda>auth. maze_gate mx_web (mx_env 150 5) ''a.b'' (Some (V4 0x0A000008)) (V4 1) ''GET'' (link auth) (mx_state, mx_visit)) in
   (\<exists>resp ms ws offense. serve True = (Some resp, ms, ws) \<and> rp_status resp = 200 \<and> fst (poison_returned later ''a.b'' (from_ip (V4 0x0A000008)) ms) \<and>
      ws_offenses ws = [offense] \<and> wo_kind offense = OffPoisonReturn) \<and>
   (\<exists>resp ms. serve False = (Some resp, ms, mx_visit) \<and> rp_status resp = 200 \<and> ms_poison ms = [])"
proof -
  obtain ms where found: "maze_lookup (mx_env 150 5) ''a.b'' mx_state = (FoundTable [(mk_route_prefix (mr_keys mx_runtime), mx_runtime)], ms)"
    using mx_lookup by blast
  have neighbour: "from_ip (V4 0x0A000008) = from_ip (V4 0x0A000007)"
  proof -
    have "octets4 0x0A000007 = [10, 0, 0, 7]" "octets4 0x0A000008 = [10, 0, 0, 8]" by code_simp+
    then show ?thesis by simp
  qed
  let ?entry = "[(mk_route_prefix (mr_keys mx_runtime), mx_runtime)]"
  have keys: "mr_keys mx_runtime = derive_maze_keys (me_libs (mx_env 150 5)) (me_master (mx_env 150 5)) ''a.b'' (mr_name mx_runtime)"
    "(mk_route_prefix (mr_keys mx_runtime), mx_runtime) \<in> set ?entry" "distinct (map fst ?entry)"
    by (simp_all add: mx_runtime_def mx_env_def)
  have env: "maze_libs_ok (me_libs (mx_env 150 5))" "me_libs (mx_env 100 0) = me_libs (mx_env 150 5)" "length (me_nonce (mx_env 100 0) 1) = 16"
    "mx_path \<in> set (plan_links (me_libs (mx_env 150 5)) [1] (maze_budget mx_maze))" "me_now (mx_env 150 5) \<le> 200" "(200 :: nat) \<le> u64_max"
    using mx_libs_ok mx_path_planned by (simp_all add: mx_env_def width_simps)
  have day: "me_instant (mx_env 150 5) \<le> 3600000000000" "3600000000000 < me_instant (mx_env 150 5) + mz_memory_ttl (mr_config mx_runtime) * 1000000000"
    by (simp_all add: mx_env_def mx_runtime_def mx_maze_def)
  have "we_offense_source mx_web" by (simp add: mx_web_def)
  from followed_link_exposes [OF found keys(2,3,1) refl env(1,2,3,6,4) disjI1 [OF refl] neighbour env(5) day this, of "V4 1" mx_visit]
  show ?thesis unfolding Let_def by (simp add: mx_visit_def mx_state_def) blast
qed

end
