(* ===== verification/Client_Hello.thy ===== *)
theory Client_Hello
  imports Byte_Codec Web_Text
begin

text \<open>
  The TLS handshake as a fingerprint: the parser of a ClientHello and its JA4
  (bagel-web/src/tls/fingerprint.rs), the stream that peeks at a connection and replays what it saw
  (bagel-web/src/tls/peek.rs), and the loop that reads until the hello is there
  (bagel-web/src/server/listen.rs). SHA-256 is an argument. A connection is the list of segments
  that arrive before it ends, fails or times out, which the loop does not tell apart.
\<close>

section \<open>Captures\<close>

datatype 'a capture = Unavailable | CaptureFailed capture_error | Captured 'a

fun capture_of :: "capture_error + 'a \<Rightarrow> 'a capture" where
  "capture_of (Inr v) = Captured v"
| "capture_of (Inl e) = CaptureFailed e"

fun capture_error_str :: "capture_error \<Rightarrow> string" where
  "capture_error_str capture_error.Incomplete = ''incomplete''"
| "capture_error_str Invalid = ''invalid''"
| "capture_error_str CaptureLimited = ''limited''"
| "capture_error_str Untrusted = ''untrusted''"

fun capture_str :: "'a capture \<Rightarrow> string" where
  "capture_str Unavailable = ''unavailable''"
| "capture_str (CaptureFailed e) = capture_error_str e"
| "capture_str (Captured _) = ''complete''"

section \<open>Identifiers\<close>

definition is_grease :: "u16 \<Rightarrow> bool" where
  "is_grease v \<longleftrightarrow> and v 0x0F0F = 0x0A0A \<and> drop_bit 8 v = and v 0xFF"

fun be_pairs :: "byte list \<Rightarrow> u16 list" where
  "be_pairs (a # b # rest) = from_be_bytes [a, b] # be_pairs rest"
| "be_pairs _ = []"

definition identifiers :: "byte list \<Rightarrow> capture_error + u16 list" where
  "identifiers data =
     (if odd (length data) then Inl Invalid
      else if 1024 < length data then Inl CaptureLimited
      else Inr (filter (\<lambda>v. \<not> is_grease v) (be_pairs data)))"

definition hex4 :: "u16 \<Rightarrow> string" where
  "hex4 v = map hex_digit [v div 4096 mod 16, v div 256 mod 16, v div 16 mod 16, v mod 16]"

definition identifiers_show :: "u16 list \<Rightarrow> string" where
  "identifiers_show ids = join_with '','' (map hex4 ids)"

datatype tls_version = Ssl2 | Ssl3 | Tls10 | Tls11 | Tls12 | Tls13 | UnknownVersion

definition tls_version_of :: "u16 \<Rightarrow> tls_version" where
  "tls_version_of v =
     (if v = 0x0304 then Tls13 else if v = 0x0303 then Tls12 else if v = 0x0302 then Tls11
      else if v = 0x0301 then Tls10 else if v = 0x0300 then Ssl3 else if v = 0x0002 then Ssl2 else UnknownVersion)"

fun tls_version_str :: "tls_version \<Rightarrow> string" where
  "tls_version_str Tls13 = ''13''"
| "tls_version_str Tls12 = ''12''"
| "tls_version_str Tls11 = ''11''"
| "tls_version_str Tls10 = ''10''"
| "tls_version_str Ssl3 = ''s3''"
| "tls_version_str Ssl2 = ''s2''"
| "tls_version_str UnknownVersion = ''00''"

datatype extension_kind = ServerName | SupportedGroups | PointFormats | SignatureAlgorithms | Alpn | SupportedVersions | UnknownExtension

definition extension_kind_of :: "u16 \<Rightarrow> extension_kind" where
  "extension_kind_of kind =
     (if kind = 0x0000 then ServerName else if kind = 0x000A then SupportedGroups else if kind = 0x000B then PointFormats
      else if kind = 0x000D then SignatureAlgorithms else if kind = 0x0010 then Alpn else if kind = 0x002B then SupportedVersions
      else UnknownExtension)"

section \<open>JA4\<close>

record client_hello =
  he_ja4 :: string
  he_tls_version :: tls_version
  he_cipher_suites :: "u16 list"
  he_extensions :: "u16 list"
  he_elliptic_curves :: "u16 list"
  he_ec_point_formats :: "byte list"
  he_sni :: string
  he_alpn :: "byte list list"
  he_signature_algorithms :: "u16 list"

definition byte_char :: "byte \<Rightarrow> char" where
  "byte_char b = char_of (unat b)"

definition alpn_tag :: "byte list \<Rightarrow> string" where
  "alpn_tag protocol =
     (if protocol = [] then ''00''
      else let first = byte_char (hd protocol); final = byte_char (last protocol)
           in if is_alphanumeric first \<and> is_alphanumeric final then [first, final]
              else [hex_digit (unat (hd protocol) div 16), hex_digit (unat (last protocol) mod 16)])"

definition truncated_hash :: "(byte list \<Rightarrow> byte list) \<Rightarrow> string \<Rightarrow> string" where
  "truncated_hash sha256 v = (if v = [] then ''000000000000'' else hex_encode (take 6 (sha256 (as_bytes v))))"

definition two_digits :: "nat \<Rightarrow> string" where
  "two_digits n = (if n < 10 then CHR ''0'' # show_nat n else show_nat n)"

definition compute_ja4 :: "(byte list \<Rightarrow> byte list) \<Rightarrow> client_hello \<Rightarrow> string" where
  "compute_ja4 sha256 h =
     (let sni_flag = (if 0 \<in> set (he_extensions h) then ''d'' else ''i'');
          cipher_count = two_digits (min (length (he_cipher_suites h)) 99);
          ext_count = two_digits (min (length (he_extensions h)) 99);
          alpn = alpn_tag (case he_alpn h of [] \<Rightarrow> [] | protocol # _ \<Rightarrow> protocol);
          cipher_hash = truncated_hash sha256 (identifiers_show (sort (he_cipher_suites h)));
          ext_str = identifiers_show (sort (filter (\<lambda>e. e \<noteq> 0 \<and> e \<noteq> 16) (he_extensions h)));
          ext_str = (if ext_str \<noteq> [] \<and> he_signature_algorithms h \<noteq> []
                     then ext_str @ ''_'' @ identifiers_show (he_signature_algorithms h) else ext_str);
          ext_hash = truncated_hash sha256 ext_str
      in ''t'' @ tls_version_str (he_tls_version h) @ sni_flag @ cipher_count @ ext_count @ alpn @ ''_'' @ cipher_hash @ ''_'' @ ext_hash)"

section \<open>The extensions\<close>

function utf8_valid :: "string \<Rightarrow> bool" where
  "utf8_valid s = (if s = [] then True else let (ok, n) = utf8_step s in ok \<and> utf8_valid (drop n s))"
  by pat_completeness auto
termination
proof (relation "measure length")
  show "(drop y s, s) \<in> measure length" if "s \<noteq> []" "xa = utf8_step s" "(x, y) = xa" for s xa x y
    using that utf8_step_pos [of s] by (cases s) (auto simp: prod_eq_iff)
qed simp

declare utf8_valid.simps [simp del]

lemma cursor_take_less: "cursor_take n c = Inr (v, c') \<Longrightarrow> length (remaining c) = n + length (remaining c')"
  using cursor_take_Inr by fastforce

lemma cursor_byte_less: "cursor_byte c = Inr (v, c') \<Longrightarrow> length (remaining c) = 1 + length (remaining c')"
  by (auto simp: cursor_byte_def result_simps dest: cursor_take_less split: prod.splits)

lemma cursor_u16_less: "cursor_u16 c = Inr (v, c') \<Longrightarrow> length (remaining c) = 2 + length (remaining c')"
  by (auto simp: cursor_u16_def result_simps dest: cursor_take_less split: prod.splits)

lemma vector_u8_less: "vector_u8 c = Inr (v, c') \<Longrightarrow> length (remaining c) = 1 + length v + length (remaining c')"
  by (auto simp: vector_u8_def result_simps dest!: cursor_byte_less cursor_take_Inr split: prod.splits)

lemma vector_u16_less: "vector_u16 c = Inr (v, c') \<Longrightarrow> length (remaining c) = 2 + length v + length (remaining c')"
  by (auto simp: vector_u16_def result_simps dest!: cursor_u16_less cursor_take_Inr split: prod.splits)

function sni_loop :: "cursor \<Rightarrow> nat list \<Rightarrow> client_hello \<Rightarrow> capture_error + client_hello" where
  "sni_loop names name_types h =
     (if cursor_is_empty names then Inr h
      else rbind (cursor_byte names) (\<lambda>(name_type, names).
           rbind (vector_u16 names) (\<lambda>(name, names).
             if name = [] \<or> name_type \<in> set name_types then Inl Invalid
             else if name_type = 0 then
               (if utf8_valid (map byte_char name) then sni_loop names (name_type # name_types) (h\<lparr> he_sni := map byte_char name \<rparr>)
                else Inl Invalid)
             else sni_loop names (name_type # name_types) h)))"
  by pat_completeness auto
termination
  by (relation "measure (\<lambda>(names, _, _). length (remaining names))") (auto dest!: cursor_byte_less vector_u16_less)

function alpn_loop :: "cursor \<Rightarrow> client_hello \<Rightarrow> capture_error + client_hello" where
  "alpn_loop protocols h =
     (if cursor_is_empty protocols then Inr h
      else rbind (vector_u8 protocols) (\<lambda>(protocol, protocols).
        if protocol = [] then Inl Invalid
        else if length protocol = 2 \<and> is_grease (from_be_bytes protocol) then alpn_loop protocols h
        else alpn_loop protocols (h\<lparr> he_alpn := he_alpn h @ [protocol] \<rparr>)))"
  by pat_completeness auto
termination
  by (relation "measure (\<lambda>(protocols, _). length (remaining protocols))") (auto dest!: vector_u8_less)

declare sni_loop.simps [simp del] alpn_loop.simps [simp del]

definition extension_payload :: "extension_kind \<Rightarrow> byte list \<Rightarrow> capture_error + byte list" where
  "extension_payload kind data =
     rbind ((if kind \<in> {PointFormats, SupportedVersions} then vector_u8 else vector_u16) \<lparr> remaining = data \<rparr>) (\<lambda>(payload, input).
     rbind (cursor_finish input) (\<lambda>_. if payload = [] then Inl Invalid else Inr payload))"

definition hello_extension :: "extension_kind \<Rightarrow> byte list \<Rightarrow> client_hello \<Rightarrow> capture_error + client_hello" where
  "hello_extension kind data h =
     (if kind = UnknownExtension then Inr h
      else rbind (extension_payload kind data) (\<lambda>payload.
        case kind of
          ServerName \<Rightarrow> sni_loop \<lparr> remaining = payload \<rparr> [] h
        | SupportedGroups \<Rightarrow> rbind (identifiers payload) (\<lambda>ids. Inr (h\<lparr> he_elliptic_curves := ids \<rparr>))
        | PointFormats \<Rightarrow> Inr (h\<lparr> he_ec_point_formats := payload \<rparr>)
        | SignatureAlgorithms \<Rightarrow> rbind (identifiers payload) (\<lambda>ids. Inr (h\<lparr> he_signature_algorithms := ids \<rparr>))
        | Alpn \<Rightarrow> if 2048 < length data then Inl CaptureLimited else alpn_loop \<lparr> remaining = payload \<rparr> h
        | SupportedVersions \<Rightarrow> rbind (identifiers payload) (\<lambda>ids. if ids = [] then Inl Invalid
            else Inr (h\<lparr> he_tls_version := tls_version_of (Max (set ids)) \<rparr>))
        | UnknownExtension \<Rightarrow> Inr h))"

function extension_loop :: "cursor \<Rightarrow> u16 list \<Rightarrow> client_hello \<Rightarrow> capture_error + client_hello" where
  "extension_loop extensions seen h =
     (if cursor_is_empty extensions then Inr h
      else rbind (cursor_u16 extensions) (\<lambda>(kind, extensions).
           rbind (vector_u16 extensions) (\<lambda>(data, extensions).
             if kind \<in> set seen then Inl Invalid
             else if 512 < Suc (length seen) then Inl CaptureLimited
             else rbind (hello_extension (extension_kind_of kind) data
                    (if is_grease kind then h else h\<lparr> he_extensions := he_extensions h @ [kind] \<rparr>))
                  (\<lambda>h. extension_loop extensions (kind # seen) h))))"
  by pat_completeness auto
termination
  by (relation "measure (\<lambda>(extensions, _, _). length (remaining extensions))") (auto dest!: cursor_u16_less vector_u16_less)

declare extension_loop.simps [simp del]

section \<open>The hello\<close>

definition hello_decode :: "(byte list \<Rightarrow> byte list) \<Rightarrow> byte list \<Rightarrow> capture_error + client_hello" where
  "hello_decode sha256 body' =
     rbind (cursor_u16 \<lparr> remaining = body' \<rparr>) (\<lambda>(version, input).
     rbind (cursor_take 32 input) (\<lambda>(_, input).
     rbind (vector_u8 input) (\<lambda>(session, input).
     if 32 < length session then Inl Invalid else
     rbind (vector_u16 input) (\<lambda>(cipher_bytes, input).
     if cipher_bytes = [] then Inl Invalid else
     rbind (identifiers cipher_bytes) (\<lambda>cipher_suites.
     rbind (vector_u8 input) (\<lambda>(compression, input).
     if compression = [] then Inl Invalid else
     let hello = \<lparr> he_ja4 = [], he_tls_version = tls_version_of version, he_cipher_suites = cipher_suites, he_extensions = [],
           he_elliptic_curves = [], he_ec_point_formats = [], he_sni = [], he_alpn = [], he_signature_algorithms = [] \<rparr> in
     rbind (if cursor_is_empty input then Inr hello
            else rbind (vector_u16 input) (\<lambda>(extensions, input).
                 rbind (cursor_finish input) (\<lambda>_. extension_loop \<lparr> remaining = extensions \<rparr> [] hello)))
       (\<lambda>hello. Inr (hello\<lparr> he_ja4 := compute_ja4 sha256 hello \<rparr>))))))))"

definition MAX_CAPTURE :: usize where "MAX_CAPTURE = 64 * 1024"

text \<open>The records of the capture: \<open>handshake\<close> is what they carried so far.\<close>

function record_loop :: "(byte list \<Rightarrow> byte list) \<Rightarrow> usize \<Rightarrow> cursor \<Rightarrow> byte list \<Rightarrow> capture_error + client_hello" where
  "record_loop sha256 data_len records handshake =
     (if length (remaining records) < 5 then Inl capture_error.Incomplete
      else rbind (cursor_byte records) (\<lambda>(kind, records).
           if kind \<noteq> 0x16 then Inl Invalid else
           rbind (cursor_take 2 records) (\<lambda>(_, records).
           rbind (cursor_u16 records) (\<lambda>(len, records).
           if \<not> (1 \<le> len \<and> len \<le> 16384) then Inl Invalid
           else if MAX_CAPTURE < data_len - length (remaining records) + len then Inl CaptureLimited
           else case cursor_take len records of
             Inl _ \<Rightarrow> Inl capture_error.Incomplete
           | Inr (fragment, records) \<Rightarrow>
               (let handshake = handshake @ fragment in
                if length handshake < 4 then record_loop sha256 data_len records handshake
                else rbind (cursor_byte \<lparr> remaining = handshake \<rparr>) (\<lambda>(kind, message).
                     if kind \<noteq> 1 then Inl Invalid else
                     rbind (cursor_u24 message) (\<lambda>(body_length, message).
                     if MAX_CAPTURE < body_length + 4 then Inl CaptureLimited
                     else if body_length \<le> length (remaining message)
                     then rbind (cursor_take body_length message) (\<lambda>(body', _). hello_decode sha256 body')
                     else record_loop sha256 data_len records handshake)))))))"
  by pat_completeness auto
termination
  by (relation "measure (\<lambda>(_, _, records, _). length (remaining records))")
    (auto dest!: cursor_byte_less cursor_u16_less cursor_take_less)

declare record_loop.simps [simp del]

definition hello_of_bytes :: "(byte list \<Rightarrow> byte list) \<Rightarrow> byte list \<Rightarrow> capture_error + client_hello" where
  "hello_of_bytes sha256 data =
     (if length data < 11 then Inl capture_error.Incomplete else record_loop sha256 (length data) \<lparr> remaining = data \<rparr> [])"

section \<open>Peeking\<close>

text \<open>A read takes at most as many bytes as were asked for from the segment at hand; what the segment
  has more stays.\<close>

record peek_stream =
  ps_inner :: "byte list list"
  ps_buffer :: "byte list"
  ps_replay_pos :: usize

definition peek_new :: "byte list list \<Rightarrow> peek_stream" where
  "peek_new inner = \<lparr> ps_inner = inner, ps_buffer = [], ps_replay_pos = 0 \<rparr>"

fun inner_read :: "usize \<Rightarrow> byte list list \<Rightarrow> byte list \<times> byte list list" where
  "inner_read n [] = ([], [])"
| "inner_read n (seg # segs) = (take n seg, if length seg \<le> n then segs else drop n seg # segs)"

definition peek_more :: "usize \<Rightarrow> peek_stream \<Rightarrow> usize \<times> peek_stream" where
  "peek_more max_bytes ps =
     (let (bytes, inner) = inner_read max_bytes (ps_inner ps)
      in (length bytes, ps\<lparr> ps_inner := inner, ps_buffer := ps_buffer ps @ bytes \<rparr>))"

definition peek :: "usize \<Rightarrow> peek_stream \<Rightarrow> usize \<times> peek_stream" where
  "peek max_bytes ps =
     (let (bytes, inner) = inner_read max_bytes (ps_inner ps)
      in (length bytes, ps\<lparr> ps_inner := inner, ps_buffer := bytes \<rparr>))"

definition peek_advance :: "usize \<Rightarrow> peek_stream \<Rightarrow> peek_stream" where
  "peek_advance n ps = ps\<lparr> ps_buffer := (if length (ps_buffer ps) \<le> n then [] else drop n (ps_buffer ps)), ps_replay_pos := 0 \<rparr>"

definition poll_read :: "usize \<Rightarrow> peek_stream \<Rightarrow> byte list \<times> peek_stream" where
  "poll_read n ps =
     (if ps_replay_pos ps < length (ps_buffer ps) then
        let bytes = take n (drop (ps_replay_pos ps) (ps_buffer ps))
        in (bytes, ps\<lparr> ps_replay_pos := ps_replay_pos ps + length bytes \<rparr>)
      else let (bytes, inner) = inner_read n (ps_inner ps) in (bytes, ps\<lparr> ps_inner := inner \<rparr>))"

function fill_client_hello :: "(byte list \<Rightarrow> byte list) \<Rightarrow> peek_stream \<Rightarrow> client_hello capture \<times> peek_stream" where
  "fill_client_hello sha256 ps =
     (case hello_of_bytes sha256 (ps_buffer ps) of
        Inr hello \<Rightarrow> (Captured hello, ps)
      | Inl err \<Rightarrow>
          if err \<noteq> capture_error.Incomplete then (CaptureFailed err, ps)
          else if MAX_CAPTURE \<le> length (ps_buffer ps) then (CaptureFailed CaptureLimited, ps)
          else let (n, ps') = peek_more (min 4096 (MAX_CAPTURE - length (ps_buffer ps))) ps
               in if n = 0 then (CaptureFailed capture_error.Incomplete, ps') else fill_client_hello sha256 ps')"
  by pat_completeness auto
termination
proof (relation "measure (\<lambda>(_, ps). MAX_CAPTURE - length (ps_buffer ps))", goal_cases)
  case (2 sha256 ps err x n ps')
  then show ?case by (auto simp: peek_more_def neq_Nil_conv split: prod.splits)
qed simp

declare fill_client_hello.simps [simp del]

end
