(* ===== verification/Edge_Fingerprint.thy ===== *)
theory Edge_Fingerprint
  imports Client_Hello Verify_Endpoints
begin

text \<open>
  What is known of a visitor's TLS stack when a proxy terminated the handshake: the digest a trusted
  proxy relays (bagel-web/src/tls/fingerprint.rs), the hashes Cloudflare adds
  (bagel-web/src/tls/cloudflare.rs) with the table of known cipher lists
  (bagel-web/src/tls/reference.rs), and how a request's headers become its fingerprint
  (bagel-web/src/server/pipeline.rs). The digests, Base64 and hexadecimal decoding are arguments.
  Headers are listed by their lowercase name; a list may have a name more than once.
\<close>

record edge_libs =
  el_sha256 :: "byte list \<Rightarrow> byte list"
  el_sha1 :: "byte list \<Rightarrow> byte list"
  el_unb64 :: "byte list \<Rightarrow> byte list option"
  el_unhex :: "byte list \<Rightarrow> byte list option"

section \<open>Relayed by a proxy\<close>

record proxied_fingerprint =
  pf_version :: tls_version
  pf_ciphers :: "string list"
  pf_curves :: "string list"
  pf_alpn :: string
  pf_resumed :: bool

definition radix16 :: "string \<Rightarrow> u16 option" where
  "radix16 hex =
     (if hex = [] \<or> \<not> list_all is_hexdigit hex then None
      else let v = foldl (\<lambda>acc c. 16 * acc + (case hex_nibble c of None \<Rightarrow> 0 | Some n \<Rightarrow> n)) 0 hex
           in if v \<le> u16_max then Some v else None)"

definition proxied_item_ok :: "string \<Rightarrow> bool" where
  "proxied_item_ok item \<longleftrightarrow> item \<noteq> [] \<and> length item \<le> 128 \<and> list_all (\<lambda>c. is_alphanumeric c \<or> c \<in> set ''-_.'') item"

fun proxied_items :: "string list \<Rightarrow> string list \<Rightarrow> capture_error + string list" where
  "proxied_items [] items = Inr items"
| "proxied_items (item # rest) items =
     (if \<not> proxied_item_ok item then Inl Invalid
      else rbind
        (case (case strip_prefix ''0x'' item of Some hex \<Rightarrow> Some hex | None \<Rightarrow> strip_prefix ''0X'' item) of
           Some hex \<Rightarrow>
             (case radix16 hex of None \<Rightarrow> Inl Invalid
              | Some v \<Rightarrow> Inr (if is_grease v then items else items @ [''0x'' @ hex4 v]))
         | None \<Rightarrow> Inr (items @ [item]))
        (\<lambda>items. if 256 < length items then Inl CaptureLimited else proxied_items rest items))"

definition proxied_list :: "string \<Rightarrow> capture_error + string list" where
  "proxied_list text =
     (if trim text = [] then Inr []
      else rbind (proxied_items (map trim (split_on CHR '':'' text)) []) (\<lambda>items.
        if 4096 < sum_list (map (\<lambda>item. length item + 1) items) then Inl CaptureLimited else Inr items))"

definition proxied_list_show :: "string list \<Rightarrow> string" where
  "proxied_list_show items = join_with '':'' items"

definition proxied_version :: "string \<Rightarrow> capture_error + tls_version" where
  "proxied_version protocol =
     (if protocol = ''TLSv1.3'' then Inr Tls13 else if protocol = ''TLSv1.2'' then Inr Tls12
      else if protocol = ''TLSv1.1'' then Inr Tls11 else if protocol = ''TLSv1'' then Inr Tls10 else Inl Invalid)"

definition next_part :: "'a list \<Rightarrow> capture_error + ('a \<times> 'a list)" where
  "next_part parts = (case parts of [] \<Rightarrow> Inl Invalid | p # rest \<Rightarrow> Inr (p, rest))"

definition proxied_parse :: "string \<Rightarrow> capture_error + proxied_fingerprint" where
  "proxied_parse v =
     (if 8192 < length v then Inl CaptureLimited
      else rbind (next_part (split_on CHR '';'' v)) (\<lambda>(protocol, parts).
           rbind (next_part parts) (\<lambda>(ciphers, parts).
           rbind (proxied_list ciphers) (\<lambda>ciphers.
           rbind (next_part parts) (\<lambda>(curves, parts).
           rbind (proxied_list curves) (\<lambda>curves.
           rbind (next_part parts) (\<lambda>(alpn, parts).
           rbind (next_part parts) (\<lambda>(resumed, parts).
           rbind (if trim resumed = ''r'' then Inr True else if trim resumed = ''.'' then Inr False else Inl Invalid) (\<lambda>resumed.
           if parts \<noteq> [] \<or> ciphers = [] \<or> 255 < length (trim alpn) \<or> \<not> list_all is_ascii_graphic (trim alpn) then Inl Invalid
           else rbind (proxied_version (trim protocol)) (\<lambda>version.
             Inr \<lparr> pf_version = version, pf_ciphers = ciphers, pf_curves = curves, pf_alpn = trim alpn, pf_resumed = resumed \<rparr>))))))))))"

definition proxied_digest :: "edge_libs \<Rightarrow> proxied_fingerprint \<Rightarrow> string option" where
  "proxied_digest L p =
     (if pf_curves p = [] then None
      else Some (''p'' @ tls_version_str (pf_version p) @ two_digits (min (length (pf_ciphers p)) 99) @ two_digits (min (length (pf_curves p)) 99) @
        alpn_tag (as_bytes (pf_alpn p)) @ ''_'' @ truncated_hash (el_sha256 L) (proxied_list_show (pf_ciphers p)) @ ''_'' @
        truncated_hash (el_sha256 L) (proxied_list_show (pf_curves p))))"

section \<open>Known cipher lists\<close>

record reference =
  rf_families :: "string list"
  rf_list :: string
  rf_grease :: bool

definition reference_family :: "reference \<Rightarrow> string option" where
  "reference_family r = (case rf_families r of [one] \<Rightarrow> Some one | _ \<Rightarrow> None)"

definition GREASE :: "u16 list" where
  "GREASE = [0x0A0A, 0x1A1A, 0x2A2A, 0x3A3A, 0x4A4A, 0x5A5A, 0x6A6A, 0x7A7A, 0x8A8A, 0x9A9A, 0xAAAA, 0xBABA, 0xCACA, 0xDADA, 0xEAEA, 0xFAFA]"

definition LISTS :: "(string list \<times> string \<times> u16 list) list" where
  "LISTS = [
    ([''chromium''], ''chromium'',
      [0x1301, 0x1302, 0x1303, 0xC02B, 0xC02F, 0xC02C, 0xC030, 0xCCA9, 0xCCA8, 0xC013, 0xC014, 0x009C, 0x009D, 0x002F, 0x0035]),
    ([''chromium''], ''chromium-tls13'', [0x1301, 0x1302, 0x1303]),
    ([''firefox''], ''firefox'',
      [0x1301, 0x1303, 0x1302, 0xC02B, 0xC02F, 0xCCA9, 0xCCA8, 0xC02C, 0xC030, 0xC013, 0xC014, 0x009C, 0x009D, 0x002F, 0x0035]),
    ([''firefox''], ''firefox-legacy'',
      [0x1301, 0x1303, 0x1302, 0xC02B, 0xC02F, 0xCCA9, 0xCCA8, 0xC02C, 0xC030, 0xC00A, 0xC009, 0xC013, 0xC014, 0x009C, 0x009D, 0x002F, 0x0035]),
    ([''firefox''], ''firefox-151'',
      [0x1301, 0x1303, 0x1302, 0xC02B, 0xC02F, 0xCCA9, 0xCCA8, 0xC02C, 0xC030, 0xC00A, 0xC013, 0xC014, 0x009C, 0x009D, 0x002F, 0x0035]),
    ([''firefox''], ''firefox-3des'',
      [0x1301, 0x1303, 0x1302, 0xC02B, 0xC02F, 0xCCA9, 0xCCA8, 0xC02C, 0xC030, 0xC013, 0xC014, 0x009C, 0x009D, 0x002F, 0x0035, 0x000A]),
    ([''firefox''], ''firefox-tls13'', [0x1301, 0x1303, 0x1302]),
    ([''safari''], ''safari'',
      [0x1302, 0x1303, 0x1301, 0xC02C, 0xC02B, 0xCCA9, 0xC030, 0xC02F, 0xCCA8, 0xC00A, 0xC009, 0xC014, 0xC013, 0x009D, 0x009C, 0x0035, 0x002F,
       0xC008, 0xC012, 0x000A]),
    ([''safari''], ''safari-legacy'',
      [0x1301, 0x1302, 0x1303, 0xC02C, 0xC02B, 0xCCA9, 0xC030, 0xC02F, 0xCCA8, 0xC00A, 0xC009, 0xC014, 0xC013, 0x009D, 0x009C, 0x0035, 0x002F,
       0xC008, 0xC012, 0x000A]),
    ([''safari''], ''safari-old'',
      [0x1301, 0x1302, 0x1303, 0xC02C, 0xC02B, 0xCCA9, 0xC030, 0xC02F, 0xCCA8, 0xC024, 0xC023, 0xC00A, 0xC009, 0xC028, 0xC027, 0xC014, 0xC013,
       0x009D, 0x009C, 0x003D, 0x003C, 0x0035, 0x002F, 0xC008, 0xC012, 0x000A]),
    ([''safari''], ''safari-tls13'', [0x1302, 0x1303, 0x1301]),
    ([''okhttp''], ''okhttp'',
      [0x1301, 0x1302, 0x1303, 0xC02B, 0xC02F, 0xC02C, 0xC030, 0xCCA9, 0xCCA8, 0xC013, 0xC014, 0x009C, 0x009D, 0x002F, 0x0035, 0x000A])]"

definition SHARED_WITH_GREASE :: string where "SHARED_WITH_GREASE = ''chromium-tls13''"
definition SHARED_FAMILIES :: "string list" where "SHARED_FAMILIES = [''chromium'', ''safari'']"

definition cipher_sha1 :: "edge_libs \<Rightarrow> u16 option \<Rightarrow> u16 list \<Rightarrow> byte list" where
  "cipher_sha1 L grease ciphers = el_sha1 L (concat (map (be_bytes 2) ((case grease of None \<Rightarrow> [] | Some g \<Rightarrow> [g]) @ ciphers)))"

definition list_entries :: "string list \<times> string \<times> u16 list \<Rightarrow> ((u16 option \<times> u16 list) \<times> reference) list" where
  "list_entries entry =
     (case entry of (families, name, ciphers) \<Rightarrow>
        ((None, ciphers), \<lparr> rf_families = families, rf_list = name, rf_grease = False \<rparr>) #
        map (\<lambda>g. ((Some g, ciphers),
          \<lparr> rf_families = (if name = SHARED_WITH_GREASE then SHARED_FAMILIES else families), rf_list = name, rf_grease = True \<rparr>)) GREASE)"

definition reference_table :: "edge_libs \<Rightarrow> (byte list \<times> reference) list" where
  "reference_table L =
     fold (\<lambda>((grease, ciphers), r) table. put_entry (cipher_sha1 L grease ciphers) r table) (concat (map list_entries LISTS)) []"

definition reference_lookup :: "edge_libs \<Rightarrow> byte list \<Rightarrow> reference option" where
  "reference_lookup L hash = map_of (reference_table L) hash"

section \<open>Added by the edge\<close>

definition ORIGIN_TOKEN_HEADER :: string where "ORIGIN_TOKEN_HEADER = ''x-bagel-origin-token''"

definition client_hash :: "edge_libs \<Rightarrow> string \<Rightarrow> capture_error + byte list" where
  "client_hash L encoded =
     (case el_unb64 L (as_bytes encoded) of None \<Rightarrow> Inl Invalid
      | Some decoded \<Rightarrow>
          (case (if length decoded = 40 then el_unhex L decoded else Some decoded) of None \<Rightarrow> Inl Invalid
           | Some bytes \<Rightarrow> if length bytes = 20 then Inr bytes else Inl Invalid))"

datatype edge_version = EdgeTls10 | EdgeTls11 | EdgeTls12 | EdgeTls13

fun edge_version_str :: "edge_version \<Rightarrow> string" where
  "edge_version_str EdgeTls10 = ''10''"
| "edge_version_str EdgeTls11 = ''11''"
| "edge_version_str EdgeTls12 = ''12''"
| "edge_version_str EdgeTls13 = ''13''"

datatype edge_protocol = Http10 | Http11 | Http2 | Http3

fun edge_protocol_str :: "edge_protocol \<Rightarrow> string" where
  "edge_protocol_str Http10 = ''HTTP/1.0''"
| "edge_protocol_str Http11 = ''HTTP/1.1''"
| "edge_protocol_str Http2 = ''HTTP/2''"
| "edge_protocol_str Http3 = ''HTTP/3''"

record cloudflare_fingerprint =
  cf_version :: edge_version
  cf_cipher :: string
  cf_protocol :: edge_protocol
  cf_ciphers :: "byte list option"
  cf_extensions :: "byte list option"
  cf_hello_length :: "u32 option"

definition edge_version_of :: "string \<Rightarrow> capture_error + edge_version" where
  "edge_version_of s =
     (if s = ''TLSv1'' then Inr EdgeTls10 else if s = ''TLSv1.1'' then Inr EdgeTls11
      else if s = ''TLSv1.2'' then Inr EdgeTls12 else if s = ''TLSv1.3'' then Inr EdgeTls13 else Inl Invalid)"

definition edge_protocol_of :: "string \<Rightarrow> capture_error + edge_protocol" where
  "edge_protocol_of s =
     (if s = ''HTTP/1.0'' then Inr Http10 else if s = ''HTTP/1.1'' then Inr Http11
      else if s = ''HTTP/2'' then Inr Http2 else if s = ''HTTP/3'' then Inr Http3 else Inl Invalid)"

definition edge_cipher_ok :: "string \<Rightarrow> bool" where
  "edge_cipher_ok cipher \<longleftrightarrow> cipher \<noteq> [] \<and> length cipher \<le> 128 \<and> list_all (\<lambda>c. is_alphanumeric c \<or> c \<in> set ''-_'') cipher"

definition edge_length :: "string \<Rightarrow> capture_error + u32 option" where
  "edge_length text =
     (if text = [] then Inr None
      else case parse_unsigned u32_max text of None \<Rightarrow> Inl Invalid
           | Some n \<Rightarrow> if 1 \<le> n \<and> n \<le> 65536 then Inr (Some n) else Inl Invalid)"

definition optional_hash :: "edge_libs \<Rightarrow> string \<Rightarrow> capture_error + byte list option" where
  "optional_hash L encoded = (if encoded = [] then Inr None else rbind (client_hash L encoded) (\<lambda>hash. Inr (Some hash)))"

definition cloudflare_parse :: "edge_libs \<Rightarrow> string \<Rightarrow> capture_error + cloudflare_fingerprint" where
  "cloudflare_parse L v =
     (if 1024 < length v then Inl CaptureLimited
      else rbind (next_part (split_on CHR '';'' v)) (\<lambda>(version, parts).
           rbind (edge_version_of version) (\<lambda>version.
           rbind (next_part parts) (\<lambda>(cipher, parts).
           if \<not> edge_cipher_ok cipher then Inl Invalid else
           rbind (next_part parts) (\<lambda>(protocol, parts).
           rbind (edge_protocol_of protocol) (\<lambda>protocol.
           rbind (next_part parts) (\<lambda>(ciphers, parts).
           rbind (next_part parts) (\<lambda>(extensions, parts).
           rbind (next_part parts) (\<lambda>(len, parts).
           rbind (edge_length len) (\<lambda>hello_length.
           if parts \<noteq> [] then Inl Invalid else
           rbind (optional_hash L ciphers) (\<lambda>ciphers.
           rbind (optional_hash L extensions) (\<lambda>extensions.
             Inr \<lparr> cf_version = version, cf_cipher = cipher, cf_protocol = protocol, cf_ciphers = ciphers,
                   cf_extensions = extensions, cf_hello_length = hello_length \<rparr>))))))))))))"

definition header_values :: "string \<Rightarrow> (string \<times> byte list) list \<Rightarrow> byte list list" where
  "header_values name headers = map snd (filter (\<lambda>(n, _). n = name) headers)"

definition text_then :: "(string \<Rightarrow> capture_error + 'a) \<Rightarrow> byte list \<Rightarrow> 'a capture" where
  "text_then parse v = capture_of (case header_to_str v of None \<Rightarrow> Inl Invalid | Some text \<Rightarrow> parse text)"

definition cloudflare_capture :: "edge_libs \<Rightarrow> (string \<times> byte list) list \<Rightarrow> string \<Rightarrow> byte list \<Rightarrow> bool \<Rightarrow> cloudflare_fingerprint capture" where
  "cloudflare_capture L headers name token_sha256 trusted =
     (case header_values name headers of
        [] \<Rightarrow> Unavailable
      | v # others \<Rightarrow>
          if \<not> trusted then CaptureFailed Untrusted
          else if others \<noteq> [] then CaptureFailed Invalid
          else (case header_values ORIGIN_TOKEN_HEADER headers of
                  [] \<Rightarrow> CaptureFailed Untrusted
                | tok # more_tokens \<Rightarrow>
                    if more_tokens \<noteq> [] \<or> length tok \<noteq> 64 then CaptureFailed Untrusted
                    else if el_sha256 L tok \<noteq> token_sha256 then CaptureFailed Untrusted
                    else text_then (cloudflare_parse L) v))"

definition ciphers_hex :: "cloudflare_fingerprint \<Rightarrow> string option" where
  "ciphers_hex cf = map_option hex_encode (cf_ciphers cf)"

definition edge_families :: "edge_libs \<Rightarrow> cloudflare_fingerprint \<Rightarrow> string list option" where
  "edge_families L cf = map_option rf_families (Option.bind (cf_ciphers cf) (reference_lookup L))"

definition bool_str :: "bool \<Rightarrow> string" where
  "bool_str b = (if b then ''true'' else ''false'')"

definition edge_policy_fields :: "edge_libs \<Rightarrow> cloudflare_fingerprint \<Rightarrow> (string \<times> string) list \<Rightarrow> (string \<times> string) list" where
  "edge_policy_fields L cf fds =
     put_all
       ((''edge_status'', if cf_ciphers cf \<noteq> None \<and> cf_extensions cf \<noteq> None \<and> cf_hello_length cf \<noteq> None then ''complete'' else ''partial'') #
        List.map_filter (\<lambda>(n, v). map_option (Pair n) v)
          [(''edge_tls_version'', Some (edge_version_str (cf_version cf))), (''edge_cipher'', Some (cf_cipher cf)),
           (''edge_http'', Some (edge_protocol_str (cf_protocol cf))), (''edge_ciphers_sha1'', map_option hex_encode (cf_ciphers cf)),
           (''edge_extensions_sha1'', map_option hex_encode (cf_extensions cf)), (''edge_hello_length'', map_option show_nat (cf_hello_length cf))] @
        (case Option.bind (cf_ciphers cf) (reference_lookup L) of
           None \<Rightarrow> []
         | Some known \<Rightarrow>
             (case reference_family known of None \<Rightarrow> [] | Some family \<Rightarrow> [(''edge_family'', family)]) @
             [(''edge_list'', rf_list known), (''edge_grease'', bool_str (rf_grease known))])) fds"

section \<open>The fingerprint of a request\<close>

record tls_fingerprint =
  tf_native :: "client_hello capture"
  tf_proxied :: "proxied_fingerprint capture"
  tf_cloudflare :: "cloudflare_fingerprint capture"

definition tls_fingerprint_of :: "client_hello capture \<Rightarrow> tls_fingerprint" where
  "tls_fingerprint_of native = \<lparr> tf_native = native, tf_proxied = Unavailable, tf_cloudflare = Unavailable \<rparr>"

fun captured :: "'a capture \<Rightarrow> 'a option" where
  "captured (Captured v) = Some v"
| "captured _ = None"

definition fp_identity :: "edge_libs \<Rightarrow> tls_fingerprint \<Rightarrow> string option" where
  "fp_identity L fp =
     (case captured (tf_native fp) of Some hello \<Rightarrow> Some (he_ja4 hello)
      | None \<Rightarrow>
          (case Option.bind (captured (tf_proxied fp)) (proxied_digest L) of Some d \<Rightarrow> Some d
           | None \<Rightarrow> Option.bind (captured (tf_cloudflare fp)) ciphers_hex))"

definition fp_stack :: "edge_libs \<Rightarrow> tls_fingerprint \<Rightarrow> string option" where
  "fp_stack L fp =
     (case captured (tf_native fp) of Some hello \<Rightarrow> Some (''ja4:'' @ he_ja4 hello)
      | None \<Rightarrow> Option.bind (captured (tf_cloudflare fp)) (\<lambda>edge. map_option (join_with '','') (edge_families L edge)))"

definition fp_sources :: "tls_fingerprint \<Rightarrow> string list" where
  "fp_sources fp =
     (if tf_native fp \<noteq> Unavailable then [''native''] else []) @
     (if captured (tf_proxied fp) \<noteq> None then [''proxy''] else []) @
     (if captured (tf_cloudflare fp) \<noteq> None then [''cloudflare''] else [])"

definition native_fields :: "client_hello \<Rightarrow> (string \<times> string) list" where
  "native_fields hello =
     [(''ja4'', he_ja4 hello), (''tls_version'', tls_version_str (he_tls_version hello)), (''ciphers'', identifiers_show (he_cipher_suites hello)),
      (''extensions'', identifiers_show (he_extensions hello)), (''groups'', identifiers_show (he_elliptic_curves hello)),
      (''signature_algorithms'', identifiers_show (he_signature_algorithms hello)), (''alpn'', join_with '','' (map hex_encode (he_alpn hello)))]"

definition proxied_fields :: "edge_libs \<Rightarrow> proxied_fingerprint \<Rightarrow> (string \<times> string) list" where
  "proxied_fields L relayed =
     [(''proxied_version'', tls_version_str (pf_version relayed)), (''proxied_ciphers'', proxied_list_show (pf_ciphers relayed)),
      (''proxied_curves'', proxied_list_show (pf_curves relayed)), (''proxied_alpn'', pf_alpn relayed), (''proxied_resumed'', bool_str (pf_resumed relayed)),
      (case proxied_digest L relayed of Some d \<Rightarrow> (''proxied'', d) | None \<Rightarrow> (''proxied_status'', ''partial''))]"

definition policy_fields :: "edge_libs \<Rightarrow> tls_fingerprint \<Rightarrow> (string \<times> string) list" where
  "policy_fields L fp =
     (let fds = [(''source'', if fp_sources fp = [] then ''none'' else join_with ''+'' (fp_sources fp)), (''tls_status'', capture_str (tf_native fp)),
            (''proxied_status'', capture_str (tf_proxied fp)), (''edge_status'', capture_str (tf_cloudflare fp))];
          fds = (case captured (tf_native fp) of None \<Rightarrow> fds | Some hello \<Rightarrow> put_all (native_fields hello) fds);
          fds = (case captured (tf_proxied fp) of None \<Rightarrow> fds | Some relayed \<Rightarrow> put_all (proxied_fields L relayed) fds)
      in case captured (tf_cloudflare fp) of None \<Rightarrow> fds | Some edge \<Rightarrow> edge_policy_fields L edge fds)"

record client_tls_header =
  th_name :: string
  th_cloudflare_token_sha256 :: "byte list option"

record connection_peer =
  cn_transport :: "ip_addr option"
  cn_forwarded :: "ip_addr option"

text \<open>The fingerprint the connection has, if any, becomes that of the request; the carrying headers go.\<close>

definition capture_client_tls :: "edge_libs \<Rightarrow> client_tls_header option \<Rightarrow> client_ip_policy \<Rightarrow> connection_peer option \<Rightarrow> ip_addr \<Rightarrow>
    tls_fingerprint option \<Rightarrow> (string \<times> byte list) list \<Rightarrow> tls_fingerprint option \<times> (string \<times> byte list) list" where
  "capture_client_tls L config policy peer addr fp headers =
     (let strip = (\<lambda>name headers. filter (\<lambda>(n, _). n \<noteq> name) headers);
          (fp, headers) =
            (case config of None \<Rightarrow> (fp, headers)
             | Some forwarded \<Rightarrow>
                 let name = to_lowercase (th_name forwarded);
                     transport_ip = (case peer of None \<Rightarrow> addr | Some p \<Rightarrow> (case cn_transport p of None \<Rightarrow> V4 0x7F000001 | Some ip \<Rightarrow> ip));
                     trusted = policy_trusts policy transport_ip;
                     base = (case fp of None \<Rightarrow> tls_fingerprint_of Unavailable | Some fp \<Rightarrow> fp);
                     base =
                       (case th_cloudflare_token_sha256 forwarded of
                          Some token_sha256 \<Rightarrow> base\<lparr> tf_cloudflare := cloudflare_capture L headers name token_sha256 trusted \<rparr>
                        | None \<Rightarrow>
                            base\<lparr> tf_proxied :=
                              (case header_values name headers of
                                 [] \<Rightarrow> Unavailable
                               | v # others \<Rightarrow>
                                   if \<not> trusted then CaptureFailed Untrusted
                                   else if others \<noteq> [] then CaptureFailed Invalid
                                   else text_then proxied_parse v) \<rparr>)
                 in (Some base, strip name headers))
      in (fp, strip ORIGIN_TOKEN_HEADER headers))"

end
