(* ===== verification/Hello_Theorems.thy ===== *)
theory Hello_Theorems
  imports Client_Hello "HOL-Library.Multiset"
begin

text \<open>
  What the capture of a handshake guarantees: the hello is found however the connection delivers it
  and however its message is split over records, nothing that was peeked at is lost to the TLS
  stack, and the JA4 of a client does not depend on the order of its lists or on GREASE values.
\<close>

section \<open>Errors of the decoder\<close>

definition decided :: "capture_error + 'a \<Rightarrow> bool" where
  "decided r \<longleftrightarrow> r \<noteq> Inl capture_error.Incomplete"

lemma decided_rbind [intro!]: "decided r \<Longrightarrow> (\<And>x. r = Inr x \<Longrightarrow> decided (f x)) \<Longrightarrow> decided (rbind r f)"
  by (cases r) (auto simp: decided_def)

lemma decided_simps [simp]: "decided (Inr x)" "decided (Inl e) \<longleftrightarrow> e \<noteq> capture_error.Incomplete"
  by (auto simp: decided_def)

lemma decided_cursor [simp]: "decided (cursor_take n c)" "decided (cursor_finish c)" "decided (identifiers data)"
  by (simp_all add: cursor_take_def cursor_finish_def identifiers_def)

lemma decided_reads [simp]: "decided (cursor_byte c)" "decided (cursor_u16 c)" "decided (vector_u8 c)" "decided (vector_u16 c)"
  unfolding cursor_byte_def cursor_u16_def vector_u8_def vector_u16_def by (auto split: prod.splits)

lemma decided_loops: "decided (sni_loop names types h)" "decided (alpn_loop protocols h)"
proof -
  show "decided (sni_loop names types h)"
    by (induction names types h rule: sni_loop.induct) (subst sni_loop.simps, auto split: prod.splits)
  show "decided (alpn_loop protocols h)"
    by (induction protocols h rule: alpn_loop.induct) (subst alpn_loop.simps, auto split: prod.splits)
qed

lemma decided_extension: "decided (hello_extension kind data h)"
  unfolding hello_extension_def extension_payload_def
  by (cases kind) (auto simp: decided_loops split: prod.splits)

lemma decided_extensions: "decided (extension_loop c seen h)"
  by (induction c seen h rule: extension_loop.induct) (subst extension_loop.simps, auto simp: decided_extension split: prod.splits)

lemma decided_decode: "decided (hello_decode sha256 body')"
  unfolding hello_decode_def Let_def by (auto simp: decided_extensions split: prod.splits)

section \<open>Records\<close>

text \<open>The wire format: a record of a version carries a fragment of the handshake message.\<close>

definition tls_record :: "(byte \<times> byte) \<times> byte list \<Rightarrow> byte list" where
  "tls_record r = (case r of ((major, minor), fragment) \<Rightarrow> [0x16, major, minor] @ be_bytes 2 (length fragment) @ fragment)"

definition handshake_message :: "byte list \<Rightarrow> byte list" where
  "handshake_message body' = 1 # be_bytes 3 (length body') @ body'"

definition fragment_ok :: "(byte \<times> byte) \<times> byte list \<Rightarrow> bool" where
  "fragment_ok r \<longleftrightarrow> 1 \<le> length (snd r) \<and> length (snd r) \<le> 16384"

lemma tls_record_length: "length (tls_record r) = 5 + length (snd r)"
  by (auto simp: tls_record_def split: prod.splits)

lemma cursor_byte_Cons [simp]: "cursor_byte \<lparr> remaining = b # r \<rparr> = Inr (unat b, \<lparr> remaining = r \<rparr>)"
  by (simp add: cursor_byte_def cursor_take_def)

lemma cursor_u16_reads [simp]: "n < 2 ^ 16 \<Longrightarrow> cursor_u16 \<lparr> remaining = be_bytes 2 n @ r \<rparr> = Inr (n, \<lparr> remaining = r \<rparr>)"
  using cursor_take_append [of "be_bytes 2 n" r] by (simp add: cursor_u16_def)

lemma cursor_u24_reads [simp]:
  assumes "n < 2 ^ 24"
  shows "cursor_u24 \<lparr> remaining = be_bytes 3 n @ r \<rparr> = Inr (n, \<lparr> remaining = r \<rparr>)"
proof -
  have "length (be_bytes 3 n) = 3" by simp
  then obtain a b c where bs: "be_bytes 3 n = [a, b, c]"
    by (auto simp: length_Suc_conv numeral_3_eq_3 simp del: be_bytes_length)
  have "from_be_bytes (be_bytes 3 n) = n" using assms by simp
  then have "unat a * 2 ^ 16 + unat b * 2 ^ 8 + unat c = n" by (simp add: bs from_be_bytes_Cons from_be_bytes_def)
  then show ?thesis by (simp add: cursor_u24_def cursor_take_def bs)
qed

text \<open>One turn of the loop over the records, and what it makes of a part of the message.\<close>

lemma record_loop_step:
  assumes "1 \<le> len" "len \<le> 16384"
  shows "record_loop sha256 n \<lparr> remaining = 22 # a # b # be_bytes 2 len @ rest \<rparr> hs =
    (if MAX_CAPTURE < n - length rest + len then Inl CaptureLimited
     else if length rest < len then Inl capture_error.Incomplete
     else let hs = hs @ take len rest in
       if length hs < 4 then record_loop sha256 n \<lparr> remaining = drop len rest \<rparr> hs
       else rbind (cursor_byte \<lparr> remaining = hs \<rparr>) (\<lambda>(kind, message).
            if kind \<noteq> 1 then Inl Invalid else
            rbind (cursor_u24 message) (\<lambda>(body_length, message).
            if MAX_CAPTURE < body_length + 4 then Inl CaptureLimited
            else if body_length \<le> length (remaining message)
            then rbind (cursor_take body_length message) (\<lambda>(body', _). hello_decode sha256 body')
            else record_loop sha256 n \<lparr> remaining = drop len rest \<rparr> hs)))"
proof -
  have "cursor_take 2 \<lparr> remaining = a # b # r \<rparr> = Inr ([a, b], \<lparr> remaining = r \<rparr>)" for r by (simp add: cursor_take_def)
  then show ?thesis
    using assms by (subst record_loop.simps) (simp add: cursor_take_def [of len] Let_def)
qed

lemma message_part:
  assumes "hs @ more' = handshake_message body'" "4 \<le> length hs" "length body' + 4 \<le> MAX_CAPTURE"
  shows "rbind (cursor_byte \<lparr> remaining = hs \<rparr>) (\<lambda>(kind, message).
      if kind \<noteq> 1 then Inl Invalid else
      rbind (cursor_u24 message) (\<lambda>(body_length, message).
      if MAX_CAPTURE < body_length + 4 then Inl CaptureLimited
      else if body_length \<le> length (remaining message)
      then rbind (cursor_take body_length message) (\<lambda>(body', _). hello_decode sha256 body') else again)) =
    (if more' = [] then hello_decode sha256 body' else again)"
proof -
  obtain t where t: "hs = 1 # t" "t @ more' = be_bytes 3 (length body') @ body'"
    using assms(1,2) by (cases hs) (auto simp: handshake_message_def)
  have len: "length (be_bytes 3 (length body')) \<le> length t" using assms(2) by (simp add: t(1))
  then have take: "take 3 t = be_bytes 3 (length body')" using arg_cong [OF t(2), of "take 3"] by simp
  define got where "got = drop 3 t"
  have got: "t = be_bytes 3 (length body') @ got" using append_take_drop_id [of 3 t] by (simp add: take got_def)
  then have body: "body' = got @ more'" using t(2) by simp
  have small: "length body' < 2 ^ 24" using assms(3) by (simp add: MAX_CAPTURE_def)
  have "hs = 1 # be_bytes 3 (length body') @ got" by (simp add: t(1) got)
  then show ?thesis
    using assms(3) cursor_u24_reads [OF small, of got] by (cases "more' = []") (auto simp: cursor_take_def body)
qed

lemma record_loop_prefix:
  assumes "list_all fragment_ok frags" "hs @ concat (map snd frags) = handshake_message body'" "frags \<noteq> []"
    and "length body' + 4 \<le> MAX_CAPTURE" "data = take k (concat (map tls_record frags) @ rest)"
    and "n - length data + length (concat (map tls_record frags)) \<le> MAX_CAPTURE" "length data \<le> n"
  shows "record_loop sha256 n \<lparr> remaining = data \<rparr> hs =
    (if k < length (concat (map tls_record frags)) then Inl capture_error.Incomplete else hello_decode sha256 body')"
  using assms(1-3,5-7)
proof (induction frags arbitrary: hs k data)
  case (Cons frag frags)
  obtain a b f where frag: "frag = ((a, b), f)" by (metis prod.exhaust)
  have f: "1 \<le> length f" "length f \<le> 16384" using Cons.prems(1) by (simp_all add: frag fragment_ok_def)
  define tail where "tail = take (k - 5) (f @ concat (map tls_record frags) @ rest)"
  show ?case
  proof (cases "k < 5")
    case True
    then have "length data < 5" using Cons.prems(4) by simp
    then show ?thesis using True by (subst record_loop.simps) (simp add: tls_record_length)
  next
    case False
    have data: "data = 22 # a # b # be_bytes 2 (length f) @ tail"
    proof -
      define whole where "whole = f @ concat (map tls_record frags) @ rest"
      have "tls_record frag = 22 # a # b # be_bytes 2 (length f) @ f" by (simp add: frag tls_record_def)
      then have "data = take k (22 # a # b # be_bytes 2 (length f) @ whole)" using Cons.prems(4) by (simp add: whole_def)
      also have "\<dots> = take (Suc (Suc (Suc (2 + (k - 5))))) (22 # a # b # be_bytes 2 (length f) @ whole)"
        using False by (intro arg_cong2 [where f = take]) simp_all
      finally show ?thesis by (simp add: tail_def whole_def)
    qed
    have room: "n - length tail + length f \<le> MAX_CAPTURE"
      using Cons.prems(5,6) by (simp add: data frag tls_record_length)
    show ?thesis
    proof (cases "length tail < length f")
      case True
      then have "k < 5 + length f" using False by (auto simp: tail_def)
      then show ?thesis using True room by (simp add: data record_loop_step [OF f] not_less frag tls_record_length)
    next
      case full: False
      then have k: "5 + length f \<le> k" using False by (auto simp: tail_def)
      then have split: "take (length f) tail = f" "drop (length f) tail = take (k - 5 - length f) (concat (map tls_record frags) @ rest)"
        by (simp_all add: tail_def drop_take)
      have whole: "(hs @ f) @ concat (map snd frags) = handshake_message body'" using Cons.prems(2) by (simp add: frag)
      define again where "again = record_loop sha256 n \<lparr> remaining = drop (length f) tail \<rparr> (hs @ f)"
      have again: "again = (if k < length (concat (map tls_record (frag # frags))) then Inl capture_error.Incomplete else hello_decode sha256 body')"
        if "frags \<noteq> []"
        unfolding again_def using Cons.IH [OF _ whole that split(2)] Cons.prems(1,5,6) k full
        by (simp add: data frag tls_record_length) linarith
      have turn: "record_loop sha256 n \<lparr> remaining = data \<rparr> hs =
          (if length (hs @ f) < 4 then again else if concat (map snd frags) = [] then hello_decode sha256 body' else again)"
        unfolding data record_loop_step [OF f] Let_def split(1) again_def [symmetric]
        using room full message_part [OF whole _ assms(4), of sha256 again]
        by (cases "length (hs @ f) < 4") (simp_all only: not_less if_True if_False not_le, simp_all)
      show ?thesis
      proof (cases "frags = []")
        case True
        then have "4 \<le> length (hs @ f)" using whole by (auto simp: handshake_message_def)
        then show ?thesis using True turn k by (simp add: frag tls_record_length)
      next
        case nonempty: False
        then have "concat (map snd frags) \<noteq> []" using Cons.prems(1) by (cases frags) (auto simp: fragment_ok_def)
        then show ?thesis using turn again [OF nonempty] by auto
      qed
    qed
  qed
qed simp

text \<open>The capture of a hello: a prefix of it is incomplete, and with all of it the message is decoded.\<close>

lemma hello_of_prefix:
  assumes "list_all fragment_ok frags" "concat (map snd frags) = handshake_message body'" "2 \<le> length body'"
    and "length (concat (map tls_record frags)) \<le> MAX_CAPTURE"
  shows "hello_of_bytes sha256 (take k (concat (map tls_record frags) @ rest)) =
    (if k < length (concat (map tls_record frags)) then Inl capture_error.Incomplete else hello_decode sha256 body')"
proof -
  let ?records = "concat (map tls_record frags)"
  have "length (concat (map snd frags)) + 5 * length frags = length ?records" by (induction frags) (simp_all add: tls_record_length)
  moreover have message: "length (handshake_message body') = length body' + 4" by (simp add: handshake_message_def)
  moreover have "frags \<noteq> []" using assms(2) by (auto simp: handshake_message_def)
  ultimately have long: "11 \<le> length ?records" "length body' + 4 \<le> MAX_CAPTURE"
    using assms(2-4) by (cases frags; simp)+
  show ?thesis
  proof (cases "length (take k (?records @ rest)) < 11")
    case True
    then have "k < length ?records" using long(1) by auto
    then show ?thesis using True by (simp add: hello_of_bytes_def)
  next
    case False
    have "record_loop sha256 (length (take k (?records @ rest))) \<lparr> remaining = take k (?records @ rest) \<rparr> [] =
        (if k < length ?records then Inl capture_error.Incomplete else hello_decode sha256 body')"
      by (rule record_loop_prefix [OF assms(1) _ \<open>frags \<noteq> []\<close> long(2) refl]) (use assms(2,4) in simp_all)
    then show ?thesis using False by (simp add: hello_of_bytes_def)
  qed
qed

section \<open>Peeking\<close>

text \<open>What a reader of the stream still gets to see.\<close>

definition stream_content :: "peek_stream \<Rightarrow> byte list" where
  "stream_content ps = drop (ps_replay_pos ps) (ps_buffer ps) @ concat (ps_inner ps)"

lemma inner_read_content: "inner_read n segs = (bytes, segs') \<Longrightarrow> bytes @ concat segs' = concat segs \<and> length bytes \<le> n"
  by (cases segs) (auto split: if_splits)

lemma inner_read_progress: "inner_read n segs = (bytes, segs') \<Longrightarrow> list_all (\<lambda>seg. seg \<noteq> []) segs \<Longrightarrow> 0 < n \<Longrightarrow>
    list_all (\<lambda>seg. seg \<noteq> []) segs' \<and> (bytes = [] \<longrightarrow> segs = [])"
  by (cases segs) (auto split: if_splits)

text \<open>Reading replays the peeked bytes and then goes on with the connection, losing nothing.\<close>

lemma poll_read_content:
  assumes "poll_read n ps = (bytes, ps')"
  shows "stream_content ps = bytes @ stream_content ps'"
proof (cases "ps_replay_pos ps < length (ps_buffer ps)")
  case True
  then show ?thesis
    using assms append_take_drop_id [of n "drop (ps_replay_pos ps) (ps_buffer ps)"]
    by (auto simp: poll_read_def stream_content_def Let_def min_def add.commute split: if_splits)
next
  case False
  obtain got inner where read: "inner_read n (ps_inner ps) = (got, inner)" by fastforce
  show ?thesis using assms False inner_read_content [OF read] by (auto simp: poll_read_def stream_content_def read)
qed

lemma fill_content:
  "fill_client_hello sha256 ps = (c, ps') \<Longrightarrow> ps_buffer ps' @ concat (ps_inner ps') = ps_buffer ps @ concat (ps_inner ps) \<and> ps_replay_pos ps' = ps_replay_pos ps"
proof (induction sha256 ps arbitrary: c ps' rule: fill_client_hello.induct)
  case (1 sha256 ps)
  obtain got inner where read: "inner_read (min 4096 (MAX_CAPTURE - length (ps_buffer ps))) (ps_inner ps) = (got, inner)" by fastforce
  have more': "peek_more (min 4096 (MAX_CAPTURE - length (ps_buffer ps))) ps =
      (length got, ps\<lparr> ps_inner := inner, ps_buffer := ps_buffer ps @ got \<rparr>)" by (simp add: peek_more_def read)
  show ?case
    using "1.prems" "1.IH" [OF _ _ _ more' [symmetric] refl] inner_read_content [OF read]
    by (subst (asm) fill_client_hello.simps) (auto simp: more' split: sum.splits if_splits)
qed

lemma fill_captures:
  assumes "list_all fragment_ok frags" "concat (map snd frags) = handshake_message body'" "2 \<le> length body'"
    and "length (concat (map tls_record frags)) \<le> MAX_CAPTURE"
    and "ps_buffer ps @ concat (ps_inner ps) = concat (map tls_record frags) @ rest" "list_all (\<lambda>seg. seg \<noteq> []) (ps_inner ps)"
  shows "fst (fill_client_hello sha256 ps) = capture_of (hello_decode sha256 body')"
  using assms(5,6)
proof (induction sha256 ps rule: fill_client_hello.induct)
  case (1 sha256 ps)
  let ?records = "concat (map tls_record frags)"
  have "ps_buffer ps = take (length (ps_buffer ps)) (?records @ rest)" using "1.prems"(1) by (metis append_eq_conv_conj)
  then have parse: "hello_of_bytes sha256 (ps_buffer ps) =
      (if length (ps_buffer ps) < length ?records then Inl capture_error.Incomplete else hello_decode sha256 body')"
    using hello_of_prefix [OF assms(1-4), of sha256 "length (ps_buffer ps)" rest] by simp
  show ?case
  proof (cases "length (ps_buffer ps) < length ?records")
    case False
    then show ?thesis
      using parse decided_decode [of sha256 body'] by (subst fill_client_hello.simps) (auto split: sum.splits)
  next
    case True
    obtain got inner where read: "inner_read (min 4096 (MAX_CAPTURE - length (ps_buffer ps))) (ps_inner ps) = (got, inner)" by fastforce
    have room: "length (ps_buffer ps) < MAX_CAPTURE" using True assms(4) by simp
    then have progress: "list_all (\<lambda>seg. seg \<noteq> []) inner" "got = [] \<longrightarrow> ps_inner ps = []"
      using inner_read_progress [OF read "1.prems"(2)] by simp_all
    have "ps_inner ps \<noteq> []" using True "1.prems"(1) by (auto simp: append_eq_append_conv2)
    with progress have "got \<noteq> []" by simp
    have more': "peek_more (min 4096 (MAX_CAPTURE - length (ps_buffer ps))) ps =
        (length got, ps\<lparr> ps_inner := inner, ps_buffer := ps_buffer ps @ got \<rparr>)" by (simp add: peek_more_def read)
    from parse True have "hello_of_bytes sha256 (ps_buffer ps) = Inl capture_error.Incomplete" by simp
    with "1.IH" [OF this _ _ more' [symmetric] refl] "1.prems"(1) room progress(1) \<open>got \<noteq> []\<close> inner_read_content [OF read]
    show ?thesis by (subst fill_client_hello.simps) (simp add: more')
  qed
qed

text \<open>C27. A handshake is captured however it arrives, and the TLS stack still gets all of it. Let a client
  send its hello message split over any number of records, and the network deliver the connection
  in any segments, part of it peeked at already: if the records stay within the capture limit, the
  loop ends with what decoding the message gives, success or error, and a reader of the stream then
  sees every byte of the connection from the start.\<close>

theorem hello_captured:
  assumes "list_all fragment_ok frags" "concat (map snd frags) = handshake_message body'" "2 \<le> length body'"
    and "length (concat (map tls_record frags)) \<le> MAX_CAPTURE"
    and "ps_buffer ps @ concat (ps_inner ps) = concat (map tls_record frags) @ rest" "list_all (\<lambda>seg. seg \<noteq> []) (ps_inner ps)"
    and "ps_replay_pos ps = 0" "fill_client_hello sha256 ps = (c, ps')"
  shows "c = capture_of (hello_decode sha256 body') \<and> stream_content ps' = concat (map tls_record frags) @ rest \<and>
    fst (poll_read n ps') @ stream_content (snd (poll_read n ps')) = concat (map tls_record frags) @ rest"
proof -
  have "stream_content ps' = concat (map tls_record frags) @ rest"
    using fill_content [OF assms(8)] assms(5,7) by (simp add: stream_content_def)
  moreover have "stream_content ps' = fst (poll_read n ps') @ stream_content (snd (poll_read n ps'))"
    by (rule poll_read_content) simp
  ultimately show ?thesis using fill_captures [OF assms(1-6), of sha256] assms(8) by simp
qed

section \<open>The wire format of a hello\<close>

record wire_hello =
  wh_version :: u16
  wh_random :: "byte list"
  wh_session :: "byte list"
  wh_ciphers :: "u16 list"
  wh_compression :: "byte list"
  wh_extensions :: "(u16 \<times> byte list) list"

definition extension_bytes :: "u16 \<times> byte list \<Rightarrow> byte list" where
  "extension_bytes ext = be_bytes 2 (fst ext) @ prefixed (be_bytes 2) (snd ext)"

definition hello_bytes :: "wire_hello \<Rightarrow> byte list" where
  "hello_bytes w = be_bytes 2 (wh_version w) @ wh_random w @ prefixed (be_bytes 1) (wh_session w) @
     prefixed (be_bytes 2) (concat (map (be_bytes 2) (wh_ciphers w))) @ prefixed (be_bytes 1) (wh_compression w) @
     prefixed (be_bytes 2) (concat (map extension_bytes (wh_extensions w)))"

text \<open>A message as the protocol allows it, within the limits of the decoder.\<close>

definition wire_ok :: "wire_hello \<Rightarrow> bool" where
  "wire_ok w \<longleftrightarrow>
     wh_version w < 2 ^ 16 \<and> length (wh_random w) = 32 \<and> length (wh_session w) \<le> 32 \<and>
     wh_ciphers w \<noteq> [] \<and> length (wh_ciphers w) \<le> 512 \<and> list_all (\<lambda>v. v < 2 ^ 16) (wh_ciphers w) \<and>
     wh_compression w \<noteq> [] \<and> length (wh_compression w) < 256 \<and>
     length (concat (map extension_bytes (wh_extensions w))) < 2 ^ 16 \<and> length (wh_extensions w) \<le> 512 \<and>
     list_all (\<lambda>(kind, data). kind < 2 ^ 16 \<and> length data < 2 ^ 16) (wh_extensions w) \<and> distinct (map fst (wh_extensions w))"

lemma be_bytes_Nil [simp]: "be_bytes n v = [] \<longleftrightarrow> n = 0"
  using be_bytes_length [of n v] by (cases "be_bytes n v") (auto simp del: be_bytes_length)

lemma vector_u8_reads: "length v < 256 \<Longrightarrow> vector_u8 \<lparr> remaining = prefixed (be_bytes 1) v @ r \<rparr> = Inr (v, \<lparr> remaining = r \<rparr>)"
proof -
  assume "length v < 256"
  moreover have "be_bytes 1 n = [of_nat (n mod 256)]" for n by (simp add: be_bytes_def)
  ultimately show ?thesis by (simp add: vector_u8_def prefixed_def unat_of_nat take_bit_eq_mod)
qed

lemma be_pairs_reads: "list_all (\<lambda>v. v < 2 ^ 16) vs \<Longrightarrow> be_pairs (concat (map (be_bytes 2) vs)) = vs"
proof (induction vs)
  case (Cons v vs)
  have "length (be_bytes 2 v) = 2" by simp
  then obtain a b where "be_bytes 2 v = [a, b]" by (auto simp: length_Suc_conv numeral_2_eq_2 simp del: be_bytes_length)
  moreover have "from_be_bytes (be_bytes 2 v) = v" using Cons.prems by simp
  ultimately show ?case using Cons by simp
qed simp

text \<open>The extensions one after the other.\<close>

fun apply_extensions :: "(u16 \<times> byte list) list \<Rightarrow> client_hello \<Rightarrow> capture_error + client_hello" where
  "apply_extensions [] h = Inr h"
| "apply_extensions ((kind, data) # exts) h =
     rbind (hello_extension (extension_kind_of kind) data (if is_grease kind then h else h\<lparr> he_extensions := he_extensions h @ [kind] \<rparr>))
       (apply_extensions exts)"

lemma extension_loop_apply:
  "list_all (\<lambda>(kind, data). kind < 2 ^ 16 \<and> length data < 2 ^ 16) exts \<Longrightarrow> distinct (seen @ map fst exts) \<Longrightarrow> length seen + length exts \<le> 512 \<Longrightarrow>
   extension_loop \<lparr> remaining = concat (map extension_bytes exts) \<rparr> seen h = apply_extensions exts h"
proof (induction exts arbitrary: seen h)
  case Nil
  then show ?case by (subst extension_loop.simps) (simp add: cursor_is_empty_def)
next
  case (Cons ext exts)
  obtain kind data where ext: "ext = (kind, data)" by fastforce
  have "extension_loop \<lparr> remaining = concat (map extension_bytes exts) \<rparr> (kind # seen) = apply_extensions exts"
    using Cons by (auto simp: ext fun_eq_iff)
  then show ?case
    using Cons.prems vector_u16_reads [of data "concat (map extension_bytes exts)"]
    by (subst extension_loop.simps) (simp add: ext extension_bytes_def cursor_is_empty_def)
qed

definition hello_start :: "u16 \<Rightarrow> u16 list \<Rightarrow> client_hello" where
  "hello_start version suites = \<lparr> he_ja4 = [], he_tls_version = tls_version_of version, he_cipher_suites = suites, he_extensions = [],
     he_elliptic_curves = [], he_ec_point_formats = [], he_sni = [], he_alpn = [], he_signature_algorithms = [] \<rparr>"

abbreviation plain :: "u16 list \<Rightarrow> u16 list" where
  "plain \<equiv> filter (\<lambda>v. \<not> is_grease v)"

lemma hello_decode_wire:
  assumes "wire_ok w"
  shows "hello_decode sha256 (hello_bytes w) =
    rbind (apply_extensions (wh_extensions w) (hello_start (wh_version w) (plain (wh_ciphers w))))
      (\<lambda>hello. Inr (hello\<lparr> he_ja4 := compute_ja4 sha256 hello \<rparr>))"
proof -
  define suites where "suites = concat (map (be_bytes 2) (wh_ciphers w))"
  have len: "length suites = 2 * length (wh_ciphers w)" by (simp add: suites_def length_concat comp_def sum_list_triv)
  have suites: "suites \<noteq> []" "length suites < 2 ^ 16" "identifiers suites = Inr (plain (wh_ciphers w))"
    using assms len be_pairs_reads [of "wh_ciphers w"] by (auto simp: wire_ok_def identifiers_def suites_def)
  define exts where "exts = concat (map extension_bytes (wh_extensions w))"
  have exts: "length exts < 2 ^ 16" "extension_loop \<lparr> remaining = exts \<rparr> [] h = apply_extensions (wh_extensions w) h" for h
    using assms extension_loop_apply [of "wh_extensions w" "[]" h] by (auto simp: wire_ok_def exts_def)
  have nonempty: "prefixed (be_bytes 2) exts \<noteq> []"
    by (simp add: prefixed_def)
  have random: "cursor_take 32 \<lparr> remaining = wh_random w @ r \<rparr> = Inr (wh_random w, \<lparr> remaining = r \<rparr>)" for r
    using assms by (simp add: wire_ok_def cursor_take_def)
  have ok: "wh_version w < 2 ^ 16" "length (wh_session w) < 256" "\<not> 32 < length (wh_session w)" "wh_compression w \<noteq> []" "length (wh_compression w) < 256"
    using assms by (auto simp: wire_ok_def)
  note reads = vector_u8_reads vector_u16_reads vector_u16_reads [where r = "[]", simplified]
  show ?thesis
    unfolding hello_decode_def hello_bytes_def suites_def [symmetric] exts_def [symmetric] hello_start_def
    using ok suites exts nonempty by (simp add: random reads cursor_is_empty_def cursor_finish_def del: One_nat_def)
qed

section \<open>What each extension does\<close>

lemma sni_loop_effect: "sni_loop names types g = Inr g' \<Longrightarrow> \<exists>f. \<forall>h. sni_loop names types h = Inr (he_sni_update f h)"
proof (induction names types g arbitrary: g' rule: sni_loop.induct)
  case (1 names types g)
  show ?case
  proof (cases "cursor_is_empty names")
    case True
    then have "sni_loop names types h = Inr (he_sni_update (\<lambda>x. x) h)" for h by (subst sni_loop.simps) simp
    then show ?thesis by blast
  next
    case False
    obtain t names1 where t: "cursor_byte names = Inr (t, names1)"
      using "1.prems" False by (subst (asm) sni_loop.simps) (auto simp: result_simps split: prod.splits)
    obtain name names2 where name: "vector_u16 names1 = Inr (name, names2)"
      using "1.prems" False by (subst (asm) sni_loop.simps) (auto simp: t result_simps split: prod.splits)
    let ?set = "\<lambda>h. if t = 0 then h\<lparr> he_sni := map byte_char name \<rparr> else h"
    have ok: "\<not> (name = [] \<or> t \<in> set types)" "t = 0 \<longrightarrow> utf8_valid (map byte_char name)"
      using "1.prems" False by (subst (asm) sni_loop.simps, auto simp: t name split: if_splits)+
    have turn: "sni_loop names types h = sni_loop names2 (t # types) (?set h)" for h
      using False ok by (subst sni_loop.simps) (auto simp: t name)
    have "\<exists>f. \<forall>h. sni_loop names2 (t # types) h = Inr (he_sni_update f h)"
      using "1.IH" [OF False t refl name refl ok(1)] "1.prems" ok(2) by (cases "t = 0") (simp_all add: turn [of g])
    then obtain f where f: "\<And>h. sni_loop names2 (t # types) h = Inr (he_sni_update f h)" by blast
    have "sni_loop names types h = Inr (he_sni_update (if t = 0 then (\<lambda>_. f (map byte_char name)) else f) h)" for h
      by (simp add: turn [of h] f)
    then show ?thesis by blast
  qed
qed

lemma alpn_loop_effect: "alpn_loop protocols g = Inr g' \<Longrightarrow> \<exists>ps. \<forall>h. alpn_loop protocols h = Inr (h\<lparr> he_alpn := he_alpn h @ ps \<rparr>)"
proof (induction protocols g arbitrary: g' rule: alpn_loop.induct)
  case (1 protocols g)
  show ?case
  proof (cases "cursor_is_empty protocols")
    case True
    then have "alpn_loop protocols h = Inr (h\<lparr> he_alpn := he_alpn h @ [] \<rparr>)" for h by (subst alpn_loop.simps) simp
    then show ?thesis by blast
  next
    case False
    obtain p rest where p: "vector_u8 protocols = Inr (p, rest)"
      using "1.prems" False by (subst (asm) alpn_loop.simps) (auto simp: result_simps split: prod.splits)
    let ?grease = "length p = 2 \<and> is_grease (from_be_bytes p)"
    have ok: "p \<noteq> []" using "1.prems" False by (subst (asm) alpn_loop.simps) (auto simp: p split: if_splits)
    have turn: "alpn_loop protocols h = alpn_loop rest (if ?grease then h else h\<lparr> he_alpn := he_alpn h @ [p] \<rparr>)" for h
      using False ok by (subst alpn_loop.simps) (auto simp: p)
    have "\<exists>ps. \<forall>h. alpn_loop rest h = Inr (h\<lparr> he_alpn := he_alpn h @ ps \<rparr>)"
      using "1.IH" [OF False p refl ok] "1.prems" by (cases ?grease) (simp_all add: turn [of g])
    then obtain ps where ps: "\<And>h. alpn_loop rest h = Inr (h\<lparr> he_alpn := he_alpn h @ ps \<rparr>)" by blast
    have "alpn_loop protocols h = Inr (h\<lparr> he_alpn := he_alpn h @ (if ?grease then ps else p # ps) \<rparr>)" for h
      by (simp add: turn [of h] ps)
    then show ?thesis by blast
  qed
qed

text \<open>An extension is accepted or refused for its data alone, and it settles its own field.\<close>

lemma extension_effect:
  assumes "hello_extension K d g = Inr g'"
  obtains h' ps where "hello_extension K d h = Inr h'" "he_cipher_suites h' = he_cipher_suites h" "he_extensions h' = he_extensions h"
    "he_tls_version h' = (if K = SupportedVersions then he_tls_version g' else he_tls_version h)"
    "he_signature_algorithms h' = (if K = SignatureAlgorithms then he_signature_algorithms g' else he_signature_algorithms h)"
    "he_alpn g' = he_alpn g @ ps" "he_alpn h' = he_alpn h @ ps" "K \<noteq> Alpn \<Longrightarrow> ps = []"
proof (cases "K = UnknownExtension")
  case True
  then show ?thesis using assms that [of h "[]"] by (simp add: hello_extension_def)
next
  case False
  then obtain payload where payload: "extension_payload K d = Inr payload"
    using assms by (auto simp: hello_extension_def result_simps)
  show ?thesis
  proof (cases K)
    case ServerName
    obtain f where "\<And>h. sni_loop \<lparr> remaining = payload \<rparr> [] h = Inr (he_sni_update f h)"
      using assms sni_loop_effect by (fastforce simp: hello_extension_def ServerName payload [unfolded ServerName])
    then show ?thesis using assms that [of "he_sni_update f h" "[]"] by (auto simp: hello_extension_def ServerName payload [unfolded ServerName])
  next
    case Alpn
    have small: "\<not> 2048 < length d" using assms by (auto simp: hello_extension_def Alpn payload [unfolded Alpn])
    obtain ps where "\<And>h. alpn_loop \<lparr> remaining = payload \<rparr> h = Inr (h\<lparr> he_alpn := he_alpn h @ ps \<rparr>)"
      using assms small alpn_loop_effect by (fastforce simp: hello_extension_def Alpn payload [unfolded Alpn])
    then show ?thesis using assms small that [of "h\<lparr> he_alpn := he_alpn h @ ps \<rparr>" ps] by (auto simp: hello_extension_def Alpn payload [unfolded Alpn])
  qed (use assms that [of _ "[]"] payload in \<open>auto simp: hello_extension_def result_simps split: if_splits\<close>)
qed

definition extension_ok :: "u16 \<times> byte list \<Rightarrow> bool" where
  "extension_ok ext \<longleftrightarrow> (\<exists>h. hello_extension (extension_kind_of (fst ext)) (snd ext) (hello_start 0 []) = Inr h)"

text \<open>The hello with one extension alone.\<close>

definition alone :: "u16 \<Rightarrow> byte list \<Rightarrow> client_hello" where
  "alone kind data = (case hello_extension (extension_kind_of kind) data (hello_start 0 []) of Inr h \<Rightarrow> h | Inl _ \<Rightarrow> hello_start 0 [])"

lemma extension_kinds: "extension_kind_of k = SupportedVersions \<longleftrightarrow> k = 43" "extension_kind_of k = SignatureAlgorithms \<longleftrightarrow> k = 13"
  "extension_kind_of k = Alpn \<longleftrightarrow> k = 16"
  by (auto simp: extension_kind_of_def)

lemma apply_extensions_all: "apply_extensions exts h = Inr h' \<Longrightarrow> list_all extension_ok exts"
proof (induction exts arbitrary: h)
  case (Cons ext exts)
  obtain kind data where ext: "ext = (kind, data)" by fastforce
  from Cons.prems obtain g g' where "hello_extension (extension_kind_of kind) data g = Inr g'" "apply_extensions exts g' = Inr h'"
    by (auto simp: ext result_simps)
  then show ?case using Cons.IH extension_effect [of "extension_kind_of kind" data g g' "hello_start 0 []"] by (auto simp: ext extension_ok_def)
qed simp

lemma apply_extensions_effect:
  assumes "list_all extension_ok exts" "distinct (map fst exts)"
  shows "\<exists>h'. apply_extensions exts h = Inr h' \<and> he_cipher_suites h' = he_cipher_suites h \<and>
    he_extensions h' = he_extensions h @ plain (map fst exts) \<and>
    he_tls_version h' = (case map_of exts 43 of None \<Rightarrow> he_tls_version h | Some d \<Rightarrow> he_tls_version (alone 43 d)) \<and>
    he_signature_algorithms h' = (case map_of exts 13 of None \<Rightarrow> he_signature_algorithms h | Some d \<Rightarrow> he_signature_algorithms (alone 13 d)) \<and>
    he_alpn h' = he_alpn h @ (case map_of exts 16 of None \<Rightarrow> [] | Some d \<Rightarrow> he_alpn (alone 16 d))"
  using assms
proof (induction exts arbitrary: h)
  case (Cons ext exts)
  obtain kind data where ext: "ext = (kind, data)" by fastforce
  obtain b where b: "hello_extension (extension_kind_of kind) data (hello_start 0 []) = Inr b"
    using Cons.prems(1) by (auto simp: ext extension_ok_def)
  then have alone: "alone kind data = b" by (simp add: alone_def)
  let ?h = "if is_grease kind then h else h\<lparr> he_extensions := he_extensions h @ [kind] \<rparr>"
  obtain h1 ps where raw: "hello_extension (extension_kind_of kind) data ?h = Inr h1" "he_cipher_suites h1 = he_cipher_suites ?h" "he_extensions h1 = he_extensions ?h"
    "he_tls_version h1 = (if extension_kind_of kind = SupportedVersions then he_tls_version b else he_tls_version ?h)"
    "he_signature_algorithms h1 = (if extension_kind_of kind = SignatureAlgorithms then he_signature_algorithms b else he_signature_algorithms ?h)"
    "he_alpn b = he_alpn (hello_start 0 []) @ ps" "he_alpn h1 = he_alpn ?h @ ps" "extension_kind_of kind \<noteq> Alpn \<Longrightarrow> ps = []"
    by (rule extension_effect [OF b, of ?h]) blast
  have h1: "he_cipher_suites h1 = he_cipher_suites h" "he_tls_version h1 = (if kind = 43 then he_tls_version b else he_tls_version h)"
    "he_signature_algorithms h1 = (if kind = 13 then he_signature_algorithms b else he_signature_algorithms h)"
    "he_alpn b = ps" "he_alpn h1 = he_alpn h @ ps" "kind \<noteq> 16 \<Longrightarrow> ps = []"
    using raw(2,4-8) by (simp_all add: extension_kinds hello_start_def)
  have absent: "map_of exts kind = None" using Cons.prems(2) by (auto simp: ext map_of_eq_None_iff)
  obtain h' where h': "apply_extensions exts h1 = Inr h'" "he_cipher_suites h' = he_cipher_suites h1" "he_extensions h' = he_extensions h1 @ plain (map fst exts)"
    "he_tls_version h' = (case map_of exts 43 of None \<Rightarrow> he_tls_version h1 | Some d \<Rightarrow> he_tls_version (alone 43 d))"
    "he_signature_algorithms h' = (case map_of exts 13 of None \<Rightarrow> he_signature_algorithms h1 | Some d \<Rightarrow> he_signature_algorithms (alone 13 d))"
    "he_alpn h' = he_alpn h1 @ (case map_of exts 16 of None \<Rightarrow> [] | Some d \<Rightarrow> he_alpn (alone 16 d))"
    using Cons.IH [of h1] Cons.prems by auto
  have "apply_extensions (ext # exts) h = Inr h'" using raw(1) h'(1) by (simp add: ext)
  moreover have "he_extensions h' = he_extensions h @ plain (map fst (ext # exts))" by (simp add: raw(3) h'(3) ext)
  moreover have "he_tls_version h' = (case map_of (ext # exts) 43 of None \<Rightarrow> he_tls_version h | Some d \<Rightarrow> he_tls_version (alone 43 d))"
    using absent alone by (auto simp: h1(2) h'(4) ext split: option.splits)
  moreover have "he_signature_algorithms h' = (case map_of (ext # exts) 13 of None \<Rightarrow> he_signature_algorithms h | Some d \<Rightarrow> he_signature_algorithms (alone 13 d))"
    using absent alone by (auto simp: h1(3) h'(5) ext split: option.splits)
  moreover have "he_alpn h' = he_alpn h @ (case map_of (ext # exts) 16 of None \<Rightarrow> [] | Some d \<Rightarrow> he_alpn (alone 16 d))"
    using absent alone h1(4,6) by (auto simp: h1(5) h'(6) ext split: option.splits)
  ultimately show ?case using h1(1) h'(2) by auto
qed simp

section \<open>The stability of JA4\<close>

lemma sort_mset_eq: "mset xs = mset ys \<Longrightarrow> sort xs = sort (ys :: nat list)"
  by (metis sorted_list_of_multiset_mset)

lemma compute_ja4_cong:
  assumes "mset (he_cipher_suites g) = mset (he_cipher_suites h)" "mset (he_extensions g) = mset (he_extensions h)"
    and "he_tls_version g = he_tls_version h" "he_alpn g = he_alpn h" "he_signature_algorithms g = he_signature_algorithms h"
  shows "compute_ja4 sha256 g = compute_ja4 sha256 h"
proof -
  have "mset (filter P (he_extensions g)) = mset (filter P (he_extensions h))" for P using assms(2) by simp
  then have "sort (filter P (he_extensions g)) = sort (filter P (he_extensions h))" for P by (rule sort_mset_eq)
  moreover have "sort (he_cipher_suites g) = sort (he_cipher_suites h)" by (rule sort_mset_eq [OF assms(1)])
  moreover have "length (he_cipher_suites g) = length (he_cipher_suites h)" "length (he_extensions g) = length (he_extensions h)"
    using assms(1,2) by (simp_all flip: size_mset)
  moreover have "set (he_extensions g) = set (he_extensions h)" using assms(2) by (rule mset_eq_setD)
  ultimately show ?thesis unfolding compute_ja4_def assms(3-5) Let_def by simp
qed

text \<open>The JA4 identifies the client and not the handshake. Let two hello messages offer the same
  cipher suites and extensions up to their order, with any GREASE values among them and any random
  bytes, session and compression, under the same version: if the first decodes, so does the second,
  with the same JA4.\<close>

theorem ja4_stable:
  assumes "wire_ok w" "wire_ok w'" "wh_version w' = wh_version w"
    and "mset (filter (\<lambda>v. \<not> is_grease v) (wh_ciphers w')) = mset (filter (\<lambda>v. \<not> is_grease v) (wh_ciphers w))"
    and "mset (filter (\<lambda>ext. \<not> is_grease (fst ext)) (wh_extensions w')) = mset (filter (\<lambda>ext. \<not> is_grease (fst ext)) (wh_extensions w))"
    and "hello_decode sha256 (hello_bytes w) = Inr h"
  shows "\<exists>h'. hello_decode sha256 (hello_bytes w') = Inr h' \<and> he_ja4 h' = he_ja4 h"
proof -
  let ?keep = "filter (\<lambda>ext :: u16 \<times> byte list. \<not> is_grease (fst ext))"
  let ?exts = "wh_extensions w" and ?exts' = "wh_extensions w'"
  have distinct: "distinct (map fst ?exts)" "distinct (map fst ?exts')" using assms(1,2) by (simp_all add: wire_ok_def)
  obtain g where g: "apply_extensions ?exts (hello_start (wh_version w) (plain (wh_ciphers w))) = Inr g" "h = g\<lparr> he_ja4 := compute_ja4 sha256 g \<rparr>"
    using assms(6) by (auto simp: hello_decode_wire [OF assms(1)] result_simps)
  have ok: "list_all extension_ok ?exts" by (rule apply_extensions_all [OF g(1)])
  have "extension_ok ext" if "is_grease (fst ext)" for ext
  proof -
    have "list_all (\<lambda>k. \<not> is_grease k) [0, 10, 11, 13, 16, 43]" by (simp add: is_grease_def)
    then have "extension_kind_of (fst ext) = UnknownExtension" using that by (cases "fst ext = 0") (auto simp: extension_kind_of_def)
    then show ?thesis by (simp add: extension_ok_def hello_extension_def)
  qed
  moreover have same: "set (?keep ?exts') = set (?keep ?exts)" using assms(5) by (rule mset_eq_setD)
  ultimately have ok': "list_all extension_ok ?exts'" using ok by (auto simp: list_all_iff)
  have lookup: "map_of ?exts' k = map_of ?exts k" if "\<not> is_grease k" for k
  proof -
    have "map_of (?keep ?exts') = map_of (?keep ?exts)"
      using distinct same by (subst map_of_inject_set) (auto simp: distinct_map_filter)
    moreover have "map_of (?keep es) k = map_of es k" for es :: "(u16 \<times> byte list) list" using that by (induction es) auto
    ultimately show ?thesis by metis
  qed
  have "list_all (\<lambda>k. \<not> is_grease k) [13, 16, 43]" by (simp add: is_grease_def)
  then have lookups: "map_of ?exts' 13 = map_of ?exts 13" "map_of ?exts' 16 = map_of ?exts 16" "map_of ?exts' 43 = map_of ?exts 43"
    using lookup by simp_all
  have "plain (map fst es) = map fst (?keep es)" for es :: "(u16 \<times> byte list) list" by (induction es) auto
  then have kinds: "mset (plain (map fst ?exts')) = mset (plain (map fst ?exts))" using assms(5) by simp
  let ?start = "hello_start (wh_version w) (plain (wh_ciphers w))" and ?start' = "hello_start (wh_version w') (plain (wh_ciphers w'))"
  obtain g' where g': "apply_extensions ?exts' ?start' = Inr g'"
    and fields': "he_cipher_suites g' = plain (wh_ciphers w')" "he_extensions g' = plain (map fst ?exts')"
      "he_tls_version g' = (case map_of ?exts' 43 of None \<Rightarrow> he_tls_version ?start' | Some d \<Rightarrow> he_tls_version (alone 43 d))"
      "he_signature_algorithms g' = (case map_of ?exts' 13 of None \<Rightarrow> he_signature_algorithms ?start' | Some d \<Rightarrow> he_signature_algorithms (alone 13 d))"
      "he_alpn g' = (case map_of ?exts' 16 of None \<Rightarrow> [] | Some d \<Rightarrow> he_alpn (alone 16 d))"
    using apply_extensions_effect [OF ok' distinct(2), of ?start'] by (auto simp: hello_start_def)
  have fields: "he_cipher_suites g = plain (wh_ciphers w)" "he_extensions g = plain (map fst ?exts)"
      "he_tls_version g = (case map_of ?exts 43 of None \<Rightarrow> he_tls_version ?start | Some d \<Rightarrow> he_tls_version (alone 43 d))"
      "he_signature_algorithms g = (case map_of ?exts 13 of None \<Rightarrow> he_signature_algorithms ?start | Some d \<Rightarrow> he_signature_algorithms (alone 13 d))"
      "he_alpn g = (case map_of ?exts 16 of None \<Rightarrow> [] | Some d \<Rightarrow> he_alpn (alone 16 d))"
    using apply_extensions_effect [OF ok distinct(1), of ?start] g(1) by (simp_all add: hello_start_def)
  have "compute_ja4 sha256 g' = compute_ja4 sha256 g"
  proof (rule compute_ja4_cong)
    show "mset (he_cipher_suites g') = mset (he_cipher_suites g)" unfolding fields(1) fields'(1) by (rule assms(4))
    show "mset (he_extensions g') = mset (he_extensions g)" unfolding fields(2) fields'(2) by (rule kinds)
    show "he_tls_version g' = he_tls_version g" unfolding fields(3) fields'(3) lookups assms(3) by (simp add: hello_start_def split: option.split)
    show "he_alpn g' = he_alpn g" unfolding fields(5) fields'(5) lookups by (rule refl)
    show "he_signature_algorithms g' = he_signature_algorithms g" unfolding fields(4) fields'(4) lookups by (simp add: hello_start_def split: option.split)
  qed
  with g' show ?thesis by (simp add: hello_decode_wire [OF assms(2)] g(2))
qed

section \<open>A client\<close>

text \<open>A client that offers two suites and names its host, once plainly and once with GREASE and in
  another order.\<close>

definition demo_hello :: wire_hello where
  "demo_hello = \<lparr> wh_version = 0x0303, wh_random = replicate 32 7, wh_session = [], wh_ciphers = [0x1301, 0xC02B], wh_compression = [0],
     wh_extensions = [(16, [0, 3, 2, 0x68, 0x32]), (43, [2, 3, 4])] \<rparr>"

definition demo_greased :: wire_hello where
  "demo_greased = demo_hello\<lparr> wh_random := replicate 32 9, wh_session := [1, 2], wh_ciphers := [0x2A2A, 0xC02B, 0x1301],
     wh_extensions := [(0xFAFA, []), (43, [2, 3, 4]), (16, [0, 3, 2, 0x68, 0x32])] \<rparr>"

lemma demo_wire: "wire_ok demo_hello" "wire_ok demo_greased"
  by (simp_all add: wire_ok_def demo_hello_def demo_greased_def extension_bytes_def prefixed_def)

lemma demo_ids: "be_pairs [3, 4] = [0x0304]" "\<not> is_grease 0x0304" "from_be_bytes [0x68, 0x32] = 0x6832" "\<not> is_grease 0x6832"
  by (simp_all add: from_be_bytes_def is_grease_def)

lemma demo_alpn: "hello_extension Alpn [0, 3, 2, 0x68, 0x32] h = Inr (h\<lparr> he_alpn := he_alpn h @ [[0x68, 0x32]] \<rparr>)"
proof -
  have "vector_u8 \<lparr> remaining = [2, 0x68, 0x32] \<rparr> = Inr ([0x68, 0x32], \<lparr> remaining = [] \<rparr>)"
    by (simp add: vector_u8_def cursor_take_def)
  then have "alpn_loop \<lparr> remaining = [2, 0x68, 0x32] \<rparr> h = Inr (h\<lparr> he_alpn := he_alpn h @ [[0x68, 0x32]] \<rparr>)"
    by (subst alpn_loop.simps) (simp add: cursor_is_empty_def demo_ids alpn_loop.simps [of "\<lparr> remaining = [] \<rparr>"])
  moreover have "extension_payload Alpn [0, 3, 2, 0x68, 0x32] = Inr [2, 0x68, 0x32]"
    by (simp add: extension_payload_def vector_u16_def cursor_u16_def cursor_take_def from_be_bytes_def cursor_finish_def cursor_is_empty_def)
  ultimately show ?thesis by (simp add: hello_extension_def)
qed

lemma demo_versions: "hello_extension SupportedVersions [2, 3, 4] h = Inr (h\<lparr> he_tls_version := Tls13 \<rparr>)"
proof -
  have "extension_payload SupportedVersions [2, 3, 4] = Inr [3, 4]"
    by (simp add: extension_payload_def vector_u8_def cursor_take_def cursor_finish_def cursor_is_empty_def)
  then show ?thesis using demo_ids by (simp add: hello_extension_def identifiers_def tls_version_of_def)
qed

lemma demo_decodes: "\<exists>h. hello_decode sha256 (hello_bytes demo_hello) = Inr h"
  unfolding hello_decode_wire [OF demo_wire(1)]
  by (simp add: demo_hello_def extension_kind_of_def is_grease_def demo_alpn demo_versions)

theorem ja4_stable_witness:
  "\<exists>h h'. hello_decode (\<lambda>m. m) (hello_bytes demo_hello) = Inr h \<and> hello_decode (\<lambda>m. m) (hello_bytes demo_greased) = Inr h' \<and>
     he_ja4 h' = he_ja4 h"
proof -
  obtain h where h: "hello_decode (\<lambda>m. m) (hello_bytes demo_hello) = Inr h" using demo_decodes by blast
  have "\<exists>h'. hello_decode (\<lambda>m. m) (hello_bytes demo_greased) = Inr h' \<and> he_ja4 h' = he_ja4 h"
    by (rule ja4_stable [OF demo_wire _ _ _ h]) (simp_all add: demo_hello_def demo_greased_def is_grease_def)
  with h show ?thesis by blast
qed

text \<open>The message in two records, delivered in three segments that end inside them.\<close>

theorem hello_captured_witness:
  "let message = handshake_message (hello_bytes demo_hello); frags = [((3, 1), take 7 message), ((3, 3), drop 7 message)];
       bytes = concat (map tls_record frags) @ [0x17];
       ps = \<lparr> ps_inner = [take 10 (drop 3 bytes), drop 13 bytes], ps_buffer = take 3 bytes, ps_replay_pos = 0 \<rparr>
   in \<exists>h ps'. fill_client_hello (\<lambda>m. m) ps = (Captured h, ps') \<and> stream_content ps' = bytes"
proof -
  define message where "message = handshake_message (hello_bytes demo_hello)"
  define frags where "frags = [((3 :: byte, 1 :: byte), take 7 message), ((3, 3), drop 7 message)]"
  define bytes where "bytes = concat (map tls_record frags) @ [0x17]"
  define ps where "ps = \<lparr> ps_inner = [take 10 (drop 3 bytes), drop 13 bytes], ps_buffer = take 3 bytes, ps_replay_pos = 0 \<rparr>"
  have body: "length (hello_bytes demo_hello) = 61"
    by (simp add: hello_bytes_def demo_hello_def prefixed_def extension_bytes_def)
  then have message: "length message = 65" by (simp add: message_def handshake_message_def)
  have len: "length (concat (map tls_record frags)) = 75" by (simp add: frags_def tls_record_length message)
  obtain h where h: "hello_decode (\<lambda>m. m) (hello_bytes demo_hello) = Inr h" using demo_decodes by blast
  obtain c ps' where fill: "fill_client_hello (\<lambda>m. m) ps = (c, ps')" by fastforce
  have "drop 13 bytes = drop 10 (drop 3 bytes)" by simp
  then have "ps_buffer ps @ concat (ps_inner ps) = bytes" by (simp only: ps_def peek_stream.simps concat.simps append_Nil2 append_take_drop_id)
  moreover have "list_all (\<lambda>seg. seg \<noteq> []) (ps_inner ps)" using len by (simp add: ps_def bytes_def)
  moreover have "list_all fragment_ok frags" "concat (map snd frags) = handshake_message (hello_bytes demo_hello)"
    using message by (simp_all add: frags_def fragment_ok_def message_def)
  ultimately have "c = capture_of (hello_decode (\<lambda>m. m) (hello_bytes demo_hello)) \<and> stream_content ps' = concat (map tls_record frags) @ [0x17] \<and>
      fst (poll_read 1 ps') @ stream_content (snd (poll_read 1 ps')) = concat (map tls_record frags) @ [0x17]"
    using body len fill by (intro hello_captured [where ps = ps]) (simp_all add: bytes_def MAX_CAPTURE_def ps_def)
  then have "fill_client_hello (\<lambda>m. m) ps = (Captured h, ps') \<and> stream_content ps' = bytes" using h fill by (simp add: bytes_def)
  then show ?thesis unfolding message_def frags_def bytes_def ps_def Let_def by blast
qed

end
