(* ===== verification/Edge_Theorems.thy ===== *)
theory Edge_Theorems
  imports Edge_Fingerprint Hello_Theorems
begin

text \<open>
  What a relayed fingerprint is worth: only a trusted peer can set one, the headers that carry it go
  no further, and a pass bound to the stack behind a known cipher list is honoured on every
  connection of that stack, with and without GREASE, and on none of another family.
\<close>

section \<open>Trust\<close>

definition transport_ip :: "connection_peer option \<Rightarrow> ip_addr \<Rightarrow> ip_addr" where
  "transport_ip peer addr = (case peer of None \<Rightarrow> addr | Some p \<Rightarrow> (case cn_transport p of None \<Rightarrow> V4 0x7F000001 | Some ip \<Rightarrow> ip))"

lemma cloudflare_capture_Captured:
  assumes "cloudflare_capture L headers name token_sha256 trusted = Captured edge"
  shows "trusted \<and> (\<exists>tok. header_values ORIGIN_TOKEN_HEADER headers = [tok] \<and> length tok = 64 \<and> el_sha256 L tok = token_sha256)"
  using assms by (auto simp: cloudflare_capture_def split: list.splits if_splits)

text \<open>A fingerprint relayed in a header is believed only from a trusted peer. The headers that carry
  it and the token never reach the rules or the backend, all others pass unchanged and in order,
  and the handshake the server saw itself is kept. When the peer is not trusted the identity and the
  stack of the request are those of its own handshake, whatever it sends; and a fingerprint of the
  edge needs, besides, one token with the configured digest.\<close>

theorem relayed_fingerprint_trusted:
  assumes "capture_client_tls L (Some forwarded) policy peer addr (Some (tls_fingerprint_of native)) headers = (fp, headers')"
  shows "headers' = filter (\<lambda>(n, _). n \<noteq> to_lowercase (th_name forwarded) \<and> n \<noteq> ORIGIN_TOKEN_HEADER) headers \<and>
    (\<exists>f. fp = Some f \<and> tf_native f = native \<and>
      (\<not> policy_trusts policy (transport_ip peer addr) \<longrightarrow>
         fp_identity L f = map_option he_ja4 (captured native) \<and> fp_stack L f = map_option (\<lambda>hello. ''ja4:'' @ he_ja4 hello) (captured native)) \<and>
      (captured (tf_cloudflare f) \<noteq> None \<longrightarrow>
         (\<exists>tok digest. th_cloudflare_token_sha256 forwarded = Some digest \<and> header_values ORIGIN_TOKEN_HEADER headers = [tok] \<and>
            length tok = 64 \<and> el_sha256 L tok = digest)))"
proof -
  define name where "name = to_lowercase (th_name forwarded)"
  define trusted where "trusted = policy_trusts policy (transport_ip peer addr)"
  define f where "f = (case th_cloudflare_token_sha256 forwarded of
      Some digest \<Rightarrow> (tls_fingerprint_of native)\<lparr> tf_cloudflare := cloudflare_capture L headers name digest trusted \<rparr>
    | None \<Rightarrow> (tls_fingerprint_of native)\<lparr> tf_proxied :=
        (case header_values name headers of [] \<Rightarrow> Unavailable
         | v # others \<Rightarrow> if \<not> trusted then CaptureFailed Untrusted else if others \<noteq> [] then CaptureFailed Invalid else text_then proxied_parse v) \<rparr>)"
  have result: "fp = Some f" "headers' = filter (\<lambda>(n, _). n \<noteq> name \<and> n \<noteq> ORIGIN_TOKEN_HEADER) headers"
    using assms unfolding capture_client_tls_def f_def name_def trusted_def transport_ip_def Let_def option.case
    by (auto simp: split_def conj_commute)
  have native: "tf_native f = native" by (simp add: f_def tls_fingerprint_of_def split: option.split)
  have edge: "captured (tf_cloudflare f) \<noteq> None \<Longrightarrow>
      trusted \<and> (\<exists>tok digest. th_cloudflare_token_sha256 forwarded = Some digest \<and> header_values ORIGIN_TOKEN_HEADER headers = [tok] \<and>
        length tok = 64 \<and> el_sha256 L tok = digest)"
    by (cases "tf_cloudflare f") (auto simp: f_def tls_fingerprint_of_def dest: cloudflare_capture_Captured split: option.splits)
  have proxied: "captured (tf_proxied f) = None" if "\<not> trusted"
    using that by (auto simp: f_def tls_fingerprint_of_def split: option.splits list.splits)
  show ?thesis
    using result native edge proxied
    by (cases "captured (tf_cloudflare f)") (auto simp: name_def trusted_def fp_identity_def fp_stack_def split: option.splits)
qed

section \<open>Known lists\<close>

definition grease_choices :: "u16 option set" where
  "grease_choices = insert None (Some ` set GREASE)"

definition list_families :: "string list \<times> string \<times> u16 list \<Rightarrow> u16 option \<Rightarrow> string list" where
  "list_families entry g = (case entry of (families, name, ciphers) \<Rightarrow>
     if g \<noteq> None \<and> name = SHARED_WITH_GREASE then SHARED_FAMILIES else families)"

definition hello_list :: "u16 option \<times> u16 list \<Rightarrow> u16 list" where
  "hello_list k = (case k of (g, ciphers) \<Rightarrow> (case g of None \<Rightarrow> [] | Some v \<Rightarrow> [v]) @ ciphers)"

definition list_message :: "u16 option \<times> u16 list \<Rightarrow> byte list" where
  "list_message k = concat (map (be_bytes 2) (hello_list k))"

definition table_keys :: "(u16 option \<times> u16 list) list" where
  "table_keys = map fst (concat (map list_entries LISTS))"

lemma list_entries_keys: "map fst (list_entries e) = (None, snd (snd e)) # map (\<lambda>g. (Some g, snd (snd e))) GREASE"
  by (simp add: list_entries_def comp_def split: prod.splits)

lemma lists_distinct: "distinct (map (\<lambda>e. snd (snd e)) LISTS)" "distinct GREASE"
  by (simp_all add: LISTS_def GREASE_def)

lemma lists_plain: "e \<in> set LISTS \<Longrightarrow> snd (snd e) \<noteq> [] \<and> hd (snd (snd e)) \<notin> set GREASE \<and> list_all (\<lambda>v. v < 2 ^ 16) (snd (snd e))"
proof -
  have "list_all (\<lambda>e. snd (snd e) \<noteq> [] \<and> hd (snd (snd e)) \<notin> set GREASE \<and> list_all (\<lambda>v. v < 2 ^ 16) (snd (snd e))) LISTS"
    by (simp add: LISTS_def GREASE_def)
  then show "e \<in> set LISTS \<Longrightarrow> ?thesis" by (auto simp: list_all_iff)
qed

lemma grease_small: "list_all (\<lambda>v. v < 2 ^ 16) GREASE"
  by (simp add: GREASE_def)

lemma table_keys_distinct: "distinct table_keys"
proof -
  have "distinct (map (\<lambda>e. snd (snd e)) es) \<Longrightarrow> distinct (map fst (concat (map list_entries es)))" for es :: "(string list \<times> string \<times> u16 list) list"
  proof (induction es)
    case (Cons e es)
    have "distinct (map (\<lambda>g. (Some g, snd (snd e))) GREASE)" using lists_distinct(2) by (auto simp: distinct_map inj_on_def)
    then have head: "distinct (map fst (list_entries e))" by (auto simp: list_entries_keys)
    have own: "snd k = snd (snd e')" if "k \<in> set (map fst (list_entries e'))" for k e' using that by (auto simp: list_entries_keys)
    have "k \<notin> set (map fst (concat (map list_entries es)))" if k: "k \<in> set (map fst (list_entries e))" for k
    proof
      assume "k \<in> set (map fst (concat (map list_entries es)))"
      then obtain e' where "e' \<in> set es" "k \<in> set (map fst (list_entries e'))" by auto
      then have "snd (snd e) \<in> (\<lambda>e. snd (snd e)) ` set es" using own [OF k] own [of k e'] by (metis image_eqI)
      then show False using Cons.prems by simp
    qed
    then have "set (map fst (list_entries e)) \<inter> set (map fst (concat (map list_entries es))) = {}" by blast
    then show ?case using head Cons by (simp only: map_append concat.simps list.map distinct_append distinct.simps)
  qed simp
  from this [OF lists_distinct(1)] show ?thesis by (simp add: table_keys_def)
qed

lemma table_key: "k \<in> set table_keys \<longleftrightarrow> (\<exists>e \<in> set LISTS. snd k = snd (snd e) \<and> fst k \<in> grease_choices)"
  unfolding table_keys_def map_concat set_concat
  by (cases k) (auto simp: list_entries_keys grease_choices_def image_iff)

lemma list_message_inj: "inj_on list_message (set table_keys)"
proof (rule inj_onI)
  fix k k' assume k: "k \<in> set table_keys" "k' \<in> set table_keys" and same: "list_message k = list_message k'"
  have small: "list_all (\<lambda>v. v < 2 ^ 16) (hello_list j)" if j: "j \<in> set table_keys" for j
  proof -
    obtain e where e: "e \<in> set LISTS" "snd j = snd (snd e)" "fst j \<in> grease_choices" using j unfolding table_key by blast
    then show ?thesis using lists_plain [OF e(1)] grease_small by (cases j) (auto simp: hello_list_def grease_choices_def list_all_iff)
  qed
  have reads: "be_pairs (list_message j) = hello_list j" if "j \<in> set table_keys" for j
    unfolding list_message_def by (rule be_pairs_reads [OF small [OF that]])
  have "hello_list k = hello_list k'" using reads [OF k(1)] reads [OF k(2)] unfolding same by (rule trans [OF sym])
  moreover have "snd j \<noteq> [] \<and> hd (snd j) \<notin> set GREASE \<and> (\<forall>v. fst j = Some v \<longrightarrow> v \<in> set GREASE)" if j: "j \<in> set table_keys" for j
  proof -
    obtain e where e: "e \<in> set LISTS" "snd j = snd (snd e)" "fst j \<in> grease_choices" using j unfolding table_key by blast
    then show ?thesis using lists_plain [OF e(1)] by (auto simp: grease_choices_def)
  qed
  note this [OF k(1)] this [OF k(2)]
  ultimately show "k = k'"
    by (cases k; cases k'; cases "fst k"; cases "fst k'") (auto simp: hello_list_def)
qed

lemma map_of_fold_put:
  "map_of (fold (\<lambda>(k, r) table. put_entry (f k) r table) es table) x =
     (case map_of (rev (map (\<lambda>(k, r). (f k, r)) es)) x of Some r \<Rightarrow> Some r | None \<Rightarrow> map_of table x)"
  by (induction es arbitrary: table) (auto simp: map_add_def split: option.splits)

text \<open>Without collisions of the digest, every list of the table is found under its hash.\<close>

lemma reference_found:
  assumes "inj_on (el_sha1 L) (list_message ` set table_keys)" "e \<in> set LISTS" "g \<in> grease_choices"
  shows "map_option rf_families (reference_lookup L (cipher_sha1 L g (snd (snd e)))) = Some (list_families e g)"
proof -
  define es where "es = concat (map list_entries LISTS)"
  define f where "f = (\<lambda>k. el_sha1 L (list_message k))"
  have sha: "cipher_sha1 L g c = f (g, c)" for g c by (simp add: cipher_sha1_def f_def list_message_def hello_list_def)
  have "distinct (map f table_keys)"
    using table_keys_distinct comp_inj_on [OF list_message_inj assms(1)] by (simp add: f_def distinct_map comp_def)
  then have keys: "distinct (map fst (map (\<lambda>(k, r). (f k, r)) es))"
    by (simp add: table_keys_def es_def comp_def case_prod_beta)
  have "reference_table L = fold (\<lambda>(k, r) table. put_entry (f k) r table) es []"
    unfolding reference_table_def es_def by (intro arg_cong3 [where f = fold] refl) (auto simp: fun_eq_iff sha)
  moreover have "map_of (rev (map (\<lambda>(k, r). (f k, r)) es)) = map_of (map (\<lambda>(k, r). (f k, r)) es)"
    using keys by (subst map_of_inject_set) (simp_all flip: rev_map)
  ultimately have "reference_lookup L (f (g, snd (snd e))) = map_of (map (\<lambda>(k, r). (f k, r)) es) (f (g, snd (snd e)))"
    by (simp add: reference_lookup_def map_of_fold_put split: option.split)
  moreover define r where "r = \<lparr> rf_families = list_families e g, rf_list = fst (snd e), rf_grease = (g \<noteq> None) \<rparr>"
  have "((g, snd (snd e)), r) \<in> set (list_entries e)"
    using assms(3) by (cases e) (auto simp: list_entries_def r_def list_families_def grease_choices_def)
  then have r: "((g, snd (snd e)), r) \<in> set es" "rf_families r = list_families e g"
    using assms(2) by (auto simp: es_def r_def)
  have "(f (g, snd (snd e)), r) \<in> set (map (\<lambda>(k, r). (f k, r)) es)" using imageI [OF r(1), of "\<lambda>(k, r). (f k, r)"] by simp
  with keys have "map_of (map (\<lambda>(k, r). (f k, r)) es) (f (g, snd (snd e))) = Some r" by (rule map_of_is_SomeI)
  ultimately show ?thesis using r(2) by (simp add: sha)
qed

lemma families_facts:
  assumes "e \<in> set LISTS"
  shows "list_families e g \<noteq> [] \<and> list_all (\<lambda>fam. CHR '','' \<notin> set fam) (list_families e g) \<and> hd (fst e) \<in> set (list_families e g)"
proof -
  have "list_all (\<lambda>e. fst e \<noteq> [] \<and> list_all (\<lambda>fam. CHR '','' \<notin> set fam) (fst e) \<and> (fst (snd e) = ''chromium-tls13'' \<longrightarrow> hd (fst e) = ''chromium'')) LISTS"
    by (simp add: LISTS_def)
  with assms have "fst e \<noteq> [] \<and> list_all (\<lambda>fam. CHR '','' \<notin> set fam) (fst e) \<and> (fst (snd e) = ''chromium-tls13'' \<longrightarrow> hd (fst e) = ''chromium'')"
    by (simp add: list_all_iff)
  then show ?thesis by (cases e) (auto simp: list_families_def SHARED_WITH_GREASE_def SHARED_FAMILIES_def)
qed

lemma stack_matches_families:
  assumes "a \<noteq> []" "list_all (\<lambda>fam. CHR '','' \<notin> set fam) a" "b \<noteq> []" "list_all (\<lambda>fam. CHR '','' \<notin> set fam) b"
  shows "stack_matches (join_with '','' a) (Some (join_with '','' b)) \<longleftrightarrow> set a \<inter> set b \<noteq> {}"
  using split_join [OF assms(1,2)] split_join [OF assms(3,4)] by (auto simp: stack_matches_def list_ex_iff)

text \<open>A pass earned behind the edge is bound to the browser family. Take two connections that show
  cipher lists of the table, each with any GREASE value or none. Both have a stack, and a pass bound
  to the first is honoured on the second exactly when the two lists can come from the same family;
  in particular it always is when the list is the same, whatever the GREASE. (No two messages of the
  table collide under SHA-1.)\<close>

theorem edge_stack_by_family:
  assumes "inj_on (el_sha1 L) (list_message ` set table_keys)"
    and "(families, name, ciphers) \<in> set LISTS" "(families', name', ciphers') \<in> set LISTS" "g \<in> grease_choices" "g' \<in> grease_choices"
    and "captured (tf_native fp) = None" "captured (tf_cloudflare fp) = Some edge" "cf_ciphers edge = Some (cipher_sha1 L g ciphers)"
    and "captured (tf_native fp') = None" "captured (tf_cloudflare fp') = Some edge'" "cf_ciphers edge' = Some (cipher_sha1 L g' ciphers')"
  shows "\<exists>s s'. fp_stack L fp = Some s \<and> fp_stack L fp' = Some s' \<and>
    (stack_matches s (Some s') \<longleftrightarrow> set (list_families (families, name, ciphers) g) \<inter> set (list_families (families', name', ciphers') g') \<noteq> {}) \<and>
    (ciphers' = ciphers \<longrightarrow> stack_matches s (Some s'))"
proof -
  let ?e = "(families, name, ciphers)" and ?e' = "(families', name', ciphers')"
  have stacks: "fp_stack L fp = Some (join_with '','' (list_families ?e g))" "fp_stack L fp' = Some (join_with '','' (list_families ?e' g'))"
    using reference_found [OF assms(1,2,4)] reference_found [OF assms(1,3,5)] assms(6-11) by (auto simp: fp_stack_def edge_families_def)
  have match: "stack_matches (join_with '','' (list_families ?e g)) (Some (join_with '','' (list_families ?e' g'))) \<longleftrightarrow>
      set (list_families ?e g) \<inter> set (list_families ?e' g') \<noteq> {}"
    using families_facts [OF assms(2), of g] families_facts [OF assms(3), of g'] by (intro stack_matches_families) auto
  have "?e' = ?e" if "ciphers' = ciphers"
    using that lists_distinct(1) assms(2,3) inj_onD [of "\<lambda>e. snd (snd e)" "set LISTS" ?e' ?e] by (simp add: distinct_map)
  then have "ciphers' = ciphers \<longrightarrow> set (list_families ?e g) \<inter> set (list_families ?e' g') \<noteq> {}"
    using families_facts [OF assms(2), of g] families_facts [OF assms(2), of g'] by auto
  with stacks match show ?thesis by auto
qed

section \<open>The theorems at work\<close>

definition ed_libs :: edge_libs where
  "ed_libs = \<lparr> el_sha256 = (\<lambda>m. m), el_sha1 = (\<lambda>m. m), el_unb64 = Some, el_unhex = Some \<rparr>"

text \<open>A peer outside the trusted network relays a fingerprint and a token.\<close>

theorem relayed_fingerprint_trusted_witness:
  "let policy = \<lparr> cip_header = None, cip_trusted = Some (\<lambda>ip. ip = V4 1) \<rparr>;
       headers = [(''x-tls'', as_bytes ''TLSv1.3;A;B;h2;r''), (''accept'', [0x2A]), (''x-bagel-origin-token'', [1])];
       result = capture_client_tls ed_libs (Some \<lparr> th_name = ''X-TLS'', th_cloudflare_token_sha256 = None \<rparr>) policy None (V4 9)
         (Some (tls_fingerprint_of Unavailable)) headers
   in snd result = [(''accept'', [0x2A])] \<and> (\<exists>f. fst result = Some f \<and> fp_identity ed_libs f = None \<and> fp_stack ed_libs f = None)"
proof -
  define policy where "policy = \<lparr> cip_header = None, cip_trusted = Some (\<lambda>ip. ip = V4 1) \<rparr>"
  define forwarded where "forwarded = \<lparr> th_name = ''X-TLS'', th_cloudflare_token_sha256 = None \<rparr>"
  define headers where "headers = [(''x-tls'', as_bytes ''TLSv1.3;A;B;h2;r''), (''accept'', [0x2A]), (''x-bagel-origin-token'', [1])]"
  obtain fp headers' where r: "capture_client_tls ed_libs (Some forwarded) policy None (V4 9) (Some (tls_fingerprint_of Unavailable)) headers = (fp, headers')" by fastforce
  have name: "to_lowercase ''X-TLS'' = ''x-tls''" by code_simp
  note facts = relayed_fingerprint_trusted [OF r]
  have "headers' = [(''accept'', [0x2A])]" using facts by (simp add: headers_def forwarded_def name ORIGIN_TOKEN_HEADER_def)
  moreover have "\<not> policy_trusts policy (transport_ip None (V4 9))" by (simp add: policy_def policy_trusts_def transport_ip_def)
  ultimately show ?thesis using facts r by (auto simp: policy_def [symmetric] forwarded_def [symmetric] headers_def [symmetric] Let_def)
qed

text \<open>Chromium over QUIC, with a GREASE value, keeps the pass it earned over TCP; Firefox does not get it.\<close>

definition ed_edge :: "u16 option \<Rightarrow> u16 list \<Rightarrow> cloudflare_fingerprint" where
  "ed_edge g ciphers = \<lparr> cf_version = EdgeTls13, cf_cipher = ''A'', cf_protocol = Http3,
     cf_ciphers = Some (cipher_sha1 ed_libs g ciphers), cf_extensions = None, cf_hello_length = None \<rparr>"

definition ed_seen :: "u16 option \<Rightarrow> u16 list \<Rightarrow> tls_fingerprint" where
  "ed_seen g ciphers = (tls_fingerprint_of Unavailable)\<lparr> tf_cloudflare := Captured (ed_edge g ciphers) \<rparr>"

lemma ed_seen_facts: "captured (tf_native (ed_seen g c)) = None" "captured (tf_cloudflare (ed_seen g c)) = Some (ed_edge g c)"
  "cf_ciphers (ed_edge g c) = Some (cipher_sha1 ed_libs g c)"
  by (simp_all add: ed_seen_def ed_edge_def tls_fingerprint_of_def)

theorem edge_stack_by_family_witness:
  "(\<exists>s s'. fp_stack ed_libs (ed_seen None [0x1301, 0x1302, 0x1303]) = Some s \<and>
      fp_stack ed_libs (ed_seen (Some 0x1A1A) [0x1301, 0x1302, 0x1303]) = Some s' \<and> stack_matches s (Some s')) \<and>
   (\<exists>s s'. fp_stack ed_libs (ed_seen None [0x1301, 0x1302, 0x1303]) = Some s \<and>
      fp_stack ed_libs (ed_seen None [0x1301, 0x1303, 0x1302]) = Some s' \<and> \<not> stack_matches s (Some s'))"
proof -
  let ?chromium = "([''chromium''], ''chromium-tls13'', [0x1301, 0x1302, 0x1303]) :: string list \<times> string \<times> u16 list"
  let ?firefox = "([''firefox''], ''firefox-tls13'', [0x1301, 0x1303, 0x1302]) :: string list \<times> string \<times> u16 list"
  have inj: "inj_on (el_sha1 ed_libs) (list_message ` set table_keys)" by (simp add: ed_libs_def)
  have listed: "?chromium \<in> set LISTS" "?firefox \<in> set LISTS" by (simp_all add: LISTS_def)
  have g: "None \<in> grease_choices" "Some 0x1A1A \<in> grease_choices" by (auto simp: grease_choices_def GREASE_def)
  have "set (list_families ?chromium None) \<inter> set (list_families ?firefox None) = {}" by (simp add: list_families_def)
  then show ?thesis
    using edge_stack_by_family [OF inj listed(1) listed(1) g ed_seen_facts ed_seen_facts]
      edge_stack_by_family [OF inj listed g(1) g(1) ed_seen_facts ed_seen_facts] by auto
qed

end
