(* ===== verification/Http2_Capture.thy ===== *)
theory Http2_Capture
  imports Client_Hello
begin

text \<open>
  The HTTP/2 fingerprint of a connection (bagel-web/src/http2): the frames
  (bagel-web/src/http2/frame.rs), the order of the pseudo headers in the first header block with
  the HPACK decoder it needs (bagel-web/src/http2/hpack.rs), and the observer that watches the
  bytes of a connection until it has them (bagel-web/src/http2/mod.rs). The Huffman decoder is an
  argument. The one \<open>expect\<close> of the table is the value \<open>None\<close>: a panic.
\<close>

section \<open>Frames\<close>

type_synonym settings = "(u16 \<times> u32) list"

record priority =
  pr_stream :: u32
  pr_exclusive :: bool
  pr_parent :: u32
  pr_weight :: nat

record header_fragment =
  hf_stream :: u32
  hf_block :: "byte list"
  hf_complete :: bool

datatype http2_frame = Settings settings | SettingsAck | WindowUpdate u32 u32 | Priority priority | Headers header_fragment
  | Continuation header_fragment | OtherFrame

definition low31 :: "u32 \<Rightarrow> u32" where
  "low31 v = and v 0x7FFFFFFF"

function settings_loop :: "cursor \<Rightarrow> settings \<Rightarrow> capture_error + settings" where
  "settings_loop input entries =
     (if cursor_is_empty input then Inr entries
      else rbind (cursor_u16 input) (\<lambda>(identifier, input).
           rbind (cursor_u32 input) (\<lambda>(v, input).
             if identifier \<in> {2, 8, 9} \<and> 1 < v \<or> identifier = 4 \<and> 0x7FFFFFFF < v \<or> identifier = 5 \<and> \<not> (16384 \<le> v \<and> v \<le> 0x00FFFFFF)
             then Inl Invalid
             else settings_loop input (entries @ [(identifier, v)]))))"
  by pat_completeness auto
termination
  by (relation "measure (\<lambda>(input, _). length (remaining input))")
    (auto dest!: cursor_u16_less cursor_take_less simp: cursor_u32_def result_simps split: prod.splits)

declare settings_loop.simps [simp del]

definition settings_of :: "byte list \<Rightarrow> capture_error + settings" where
  "settings_of payload = settings_loop \<lparr> remaining = payload \<rparr> []"

definition priority_decode :: "u32 \<Rightarrow> priority reader" where
  "priority_decode stream input =
     rbind (cursor_u32 input) (\<lambda>(dependency, input).
       let parent = low31 dependency in
       if stream = 0 \<or> stream = parent then Inl Invalid
       else rbind (cursor_byte input) (\<lambda>(weight, input).
         Inr (\<lparr> pr_stream = stream, pr_exclusive = (drop_bit 31 dependency \<noteq> 0), pr_parent = parent, pr_weight = weight \<rparr>, input)))"

definition strip_padding :: "nat \<Rightarrow> nat \<Rightarrow> cursor \<Rightarrow> capture_error + cursor" where
  "strip_padding kind flags input =
     (if kind = 1 \<and> and flags 8 \<noteq> 0 then
        rbind (cursor_byte input) (\<lambda>(padding, input).
          if length (remaining input) < padding then Inl Invalid
          else rbind (cursor_take (length (remaining input) - padding) input) (\<lambda>(kept, _). Inr \<lparr> remaining = kept \<rparr>))
      else Inr input)"

definition skip_priority :: "nat \<Rightarrow> nat \<Rightarrow> u32 \<Rightarrow> cursor \<Rightarrow> capture_error + cursor" where
  "skip_priority kind flags stream input =
     (if kind = 1 \<and> and flags 0x20 \<noteq> 0 then rbind (priority_decode stream input) (\<lambda>(_, input). Inr input) else Inr input)"

definition frame_of :: "nat \<Rightarrow> nat \<Rightarrow> u32 \<Rightarrow> byte list \<Rightarrow> capture_error + http2_frame" where
  "frame_of kind flags stream payload =
     (let input = \<lparr> remaining = payload \<rparr> in
      if kind = 4 then
        (if stream \<noteq> 0 then Inl Invalid
         else if and flags 1 = 0 then rbind (settings_of payload) (\<lambda>s. Inr (Settings s))
         else rbind (cursor_finish input) (\<lambda>_. Inr SettingsAck))
      else if kind = 8 then
        rbind (cursor_u32 input) (\<lambda>(v, input).
          if low31 v = 0 then Inl Invalid
          else rbind (cursor_finish input) (\<lambda>_. Inr (WindowUpdate stream (low31 v))))
      else if kind = 2 then
        rbind (priority_decode stream input) (\<lambda>(p, input). rbind (cursor_finish input) (\<lambda>_. Inr (Priority p)))
      else if kind = 1 \<or> kind = 9 then
        (if stream = 0 \<or> even stream then Inl Invalid
         else rbind (strip_padding kind flags input) (\<lambda>input.
              rbind (skip_priority kind flags stream input) (\<lambda>input.
                let fragment = \<lparr> hf_stream = stream, hf_block = remaining input, hf_complete = (and flags 4 \<noteq> 0) \<rparr>
                in Inr (if kind = 1 then Headers fragment else Continuation fragment))))
      else if kind = 0 \<or> kind = 5 then Inl Invalid
      else Inr OtherFrame)"

definition frame_decode :: "byte list \<Rightarrow> capture_error + (http2_frame \<times> usize) option" where
  "frame_decode data =
     (if length data < 9 then Inr None
      else rbind (cursor_u24 \<lparr> remaining = data \<rparr>) (\<lambda>(len, input).
           if 16384 < len then Inl CaptureLimited else
           rbind (cursor_byte input) (\<lambda>(kind, input).
           rbind (cursor_byte input) (\<lambda>(flags, input).
           rbind (cursor_u32 input) (\<lambda>(stream, input).
           case cursor_take len input of
             Inl _ \<Rightarrow> Inr None
           | Inr (payload, _) \<Rightarrow> rbind (frame_of kind flags (low31 stream) payload) (\<lambda>f. Inr (Some (f, 9 + len))))))))"

definition settings_show :: "settings \<Rightarrow> string" where
  "settings_show s = join_with '';'' (map (\<lambda>(identifier, v). show_nat identifier @ '':'' @ show_nat v) s)"

definition priority_show :: "priority \<Rightarrow> string" where
  "priority_show p = show_nat (pr_stream p) @ '':'' @ (if pr_exclusive p then ''1'' else ''0'') @ '':'' @ show_nat (pr_parent p) @ '':'' @
     show_nat (pr_weight p + 1)"

section \<open>Header compression\<close>

definition MAX_BLOCK :: usize where "MAX_BLOCK = 65536"
definition MAX_DECODED :: usize where "MAX_DECODED = 65536"
definition MAX_HEADERS :: usize where "MAX_HEADERS = 256"
definition MAX_TABLE :: usize where "MAX_TABLE = 4096"
definition ENTRY_OVERHEAD :: usize where "ENTRY_OVERHEAD = 32"

definition STATIC_TABLE :: "(string \<times> string) list" where
  "STATIC_TABLE = [
     ('':authority'', ''''), ('':method'', ''GET''), ('':method'', ''POST''), ('':path'', ''/''), ('':path'', ''/index.html''),
     ('':scheme'', ''http''), ('':scheme'', ''https''), ('':status'', ''200''), ('':status'', ''204''), ('':status'', ''206''),
     ('':status'', ''304''), ('':status'', ''400''), ('':status'', ''404''), ('':status'', ''500''), (''accept-charset'', ''''),
     (''accept-encoding'', ''gzip, deflate''), (''accept-language'', ''''), (''accept-ranges'', ''''), (''accept'', ''''),
     (''access-control-allow-origin'', ''''), (''age'', ''''), (''allow'', ''''), (''authorization'', ''''), (''cache-control'', ''''),
     (''content-disposition'', ''''), (''content-encoding'', ''''), (''content-language'', ''''), (''content-length'', ''''),
     (''content-location'', ''''), (''content-range'', ''''), (''content-type'', ''''), (''cookie'', ''''), (''date'', ''''), (''etag'', ''''),
     (''expect'', ''''), (''expires'', ''''), (''from'', ''''), (''host'', ''''), (''if-match'', ''''), (''if-modified-since'', ''''),
     (''if-none-match'', ''''), (''if-range'', ''''), (''if-unmodified-since'', ''''), (''last-modified'', ''''), (''link'', ''''),
     (''location'', ''''), (''max-forwards'', ''''), (''proxy-authenticate'', ''''), (''proxy-authorization'', ''''), (''range'', ''''),
     (''referer'', ''''), (''refresh'', ''''), (''retry-after'', ''''), (''server'', ''''), (''set-cookie'', ''''),
     (''strict-transport-security'', ''''), (''transfer-encoding'', ''''), (''user-agent'', ''''), (''vary'', ''''), (''via'', ''''),
     (''www-authenticate'', '''')]"

record table_entry =
  te_name :: "byte list"
  te_size :: usize

text \<open>The newest entry comes first.\<close>

record dynamic_table =
  dt_entries :: "table_entry list"
  dt_size :: usize
  dt_capacity :: usize

definition table_default :: dynamic_table where
  "table_default = \<lparr> dt_entries = [], dt_size = 0, dt_capacity = MAX_TABLE \<rparr>"

definition hpack_get :: "usize \<Rightarrow> dynamic_table \<Rightarrow> capture_error + (byte list \<times> usize)" where
  "hpack_get index t =
     (if index = 0 then Inl Invalid
      else let offset = index - 1 in
        if offset < length STATIC_TABLE then
          (case STATIC_TABLE ! offset of (name, v) \<Rightarrow> Inr (as_bytes name, length name + length v + ENTRY_OVERHEAD))
        else let i = offset - length STATIC_TABLE in
          if i < length (dt_entries t) then Inr (te_name (dt_entries t ! i), te_size (dt_entries t ! i)) else Inl Invalid)"

function evict_to :: "usize \<Rightarrow> dynamic_table \<Rightarrow> dynamic_table option" where
  "evict_to limit t =
     (if limit < dt_size t then
        (if dt_entries t = [] then None
         else evict_to limit (t\<lparr> dt_entries := butlast (dt_entries t), dt_size := dt_size t - te_size (last (dt_entries t)) \<rparr>))
      else Some t)"
  by pat_completeness auto
termination
  by (relation "measure (\<lambda>(_, t). length (dt_entries t))") auto

declare evict_to.simps [simp del]

definition hpack_resize :: "usize \<Rightarrow> dynamic_table \<Rightarrow> (capture_error + dynamic_table) option" where
  "hpack_resize capacity t =
     (if MAX_TABLE < capacity then Some (Inl Invalid)
      else map_option Inr (evict_to capacity (t\<lparr> dt_capacity := capacity \<rparr>)))"

definition hpack_insert :: "table_entry \<Rightarrow> dynamic_table \<Rightarrow> dynamic_table option" where
  "hpack_insert entry t =
     (if dt_capacity t < te_size entry then evict_to 0 t
      else map_option (\<lambda>t. t\<lparr> dt_size := dt_size t + te_size entry, dt_entries := entry # dt_entries t \<rparr>)
        (evict_to (dt_capacity t - te_size entry) t))"

datatype pseudo_header = Method | Authority | Scheme | Path | Protocol

definition pseudo_header_of :: "byte list \<Rightarrow> capture_error + pseudo_header" where
  "pseudo_header_of name =
     (if name = as_bytes '':method'' then Inr Method else if name = as_bytes '':authority'' then Inr Authority
      else if name = as_bytes '':scheme'' then Inr Scheme else if name = as_bytes '':path'' then Inr Path
      else if name = as_bytes '':protocol'' then Inr Protocol else Inl Invalid)"

datatype representation = Indexed | LiteralIndexed | Literal | TableSize

definition representation_of :: "byte \<Rightarrow> representation" where
  "representation_of first =
     (if 0x80 \<le> unat first then Indexed else if 0x40 \<le> unat first then LiteralIndexed
      else if 0x20 \<le> unat first then TableSize else Literal)"

fun prefix_mask :: "representation \<Rightarrow> usize" where
  "prefix_mask Indexed = 127"
| "prefix_mask LiteralIndexed = 63"
| "prefix_mask Literal = 15"
| "prefix_mask TableSize = 31"

definition usize_max :: nat where "usize_max = 2 ^ 64 - 1"

function integer_loop :: "nat \<Rightarrow> usize \<Rightarrow> usize reader" where
  "integer_loop shift v input =
     rbind (cursor_byte input) (\<lambda>(b, input).
       if 64 \<le> shift then Inl Invalid
       else let part = (b mod 128) * 2 ^ shift in
         if usize_max < part \<or> usize_max < v + part then Inl Invalid
         else if b < 128 then Inr (v + part, input)
         else integer_loop (shift + 7) (v + part) input)"
  by pat_completeness auto
termination
  by (relation "measure (\<lambda>(_, _, input). length (remaining input))") (auto dest: cursor_byte_less)

declare integer_loop.simps [simp del]

definition decode_integer :: "usize \<Rightarrow> usize reader" where
  "decode_integer msk input =
     rbind (cursor_byte input) (\<lambda>(first, input).
       let v = and first msk in if v < msk then Inr (v, input) else integer_loop 0 v input)"

definition decode_string :: "(byte list \<Rightarrow> byte list option) \<Rightarrow> byte list reader" where
  "decode_string huffman input =
     (case remaining input of [] \<Rightarrow> Inl Invalid
      | first # _ \<Rightarrow>
          rbind (decode_integer 127 input) (\<lambda>(len, input).
          rbind (cursor_take len input) (\<lambda>(raw, input).
            if unat first < 128 then Inr (raw, input)
            else case huffman raw of None \<Rightarrow> Inl Invalid | Some decoded \<Rightarrow> Inr (decoded, input))))"

definition read_name :: "(byte list \<Rightarrow> byte list option) \<Rightarrow> usize \<Rightarrow> dynamic_table \<Rightarrow> byte list reader" where
  "read_name huffman index t input =
     (if index = 0 then decode_string huffman input else rbind (hpack_get index t) (\<lambda>(name, _). Inr (name, input)))"

text \<open>One header of the block: its name, its sz, and the rest of the input.\<close>

definition read_header :: "(byte list \<Rightarrow> byte list option) \<Rightarrow> representation \<Rightarrow> dynamic_table \<Rightarrow> cursor \<Rightarrow>
    capture_error + (byte list \<times> usize \<times> cursor)" where
  "read_header huffman rep t input =
     rbind (decode_integer (prefix_mask rep) input) (\<lambda>(index, input).
       if rep = Indexed then rbind (hpack_get index t) (\<lambda>(name, sz). Inr (name, sz, input))
       else rbind (read_name huffman index t input) (\<lambda>(name, input).
            rbind (decode_string huffman input) (\<lambda>(v, input).
              Inr (name, length name + length v + ENTRY_OVERHEAD, input))))"

record order_state =
  os_decoded :: usize
  os_count :: usize
  os_order :: "pseudo_header list"
  os_regular :: bool

definition order_start :: order_state where
  "order_start = \<lparr> os_decoded = 0, os_count = 0, os_order = [], os_regular = False \<rparr>"

definition note_header :: "byte list \<Rightarrow> usize \<Rightarrow> order_state \<Rightarrow> capture_error + order_state" where
  "note_header name sz s =
     (let s = s\<lparr> os_decoded := os_decoded s + sz \<rparr> in
      if MAX_DECODED < os_decoded s then Inl CaptureLimited
      else if name = [] then Inl Invalid
      else if hd name = 0x3A then
        rbind (pseudo_header_of name) (\<lambda>header.
          if os_regular s \<or> header \<in> set (os_order s) then Inl Invalid
          else Inr (s\<lparr> os_order := os_order s @ [header] \<rparr>))
      else Inr (s\<lparr> os_regular := True \<rparr>))"

text \<open>A step with no input left to consume cannot happen: each representation has its first byte.\<close>

lemma integer_loop_less: "integer_loop shift v c = Inr (n, c') \<Longrightarrow> length (remaining c') < length (remaining c)"
proof (induction shift v c rule: integer_loop.induct)
  case (1 shift v c)
  from "1.prems" obtain b input where b: "cursor_byte c = Inr (b, input)"
    by (subst (asm) integer_loop.simps) (auto simp: result_simps)
  from "1.prems" have turn: "\<not> 64 \<le> shift" "\<not> (usize_max < b mod 128 * 2 ^ shift \<or> usize_max < v + b mod 128 * 2 ^ shift)"
    "(if b < 128 then Inr (v + b mod 128 * 2 ^ shift, input) else integer_loop (shift + 7) (v + b mod 128 * 2 ^ shift) input) = Inr (n, c')"
    by (subst (asm) integer_loop.simps, auto simp: b Let_def split: if_splits)+
  show ?case
  proof (cases "b < 128")
    case True
    then show ?thesis using turn(3) cursor_byte_less [OF b] by simp
  next
    case False
    with turn(3) have "integer_loop (shift + 7) (v + b mod 128 * 2 ^ shift) input = Inr (n, c')" by simp
    from "1.IH" [OF b refl turn(1) refl turn(2) False this] cursor_byte_less [OF b] show ?thesis by simp
  qed
qed

lemma decode_integer_less: "decode_integer msk c = Inr (n, c') \<Longrightarrow> length (remaining c') < length (remaining c)"
  by (auto simp: decode_integer_def result_simps Let_def dest!: cursor_byte_less integer_loop_less split: prod.splits if_splits)

lemma decode_string_less: "decode_string huffman c = Inr (v, c') \<Longrightarrow> length (remaining c') < length (remaining c)"
  by (auto simp: decode_string_def result_simps dest!: decode_integer_less cursor_take_less split: list.splits prod.splits if_splits option.splits)

lemma read_name_less: "read_name huffman index t c = Inr (v, c') \<Longrightarrow> length (remaining c') \<le> length (remaining c)"
  by (auto simp: read_name_def result_simps dest!: decode_string_less split: prod.splits if_splits)

lemma read_header_less: "read_header huffman rep t c = Inr (name, sz, c') \<Longrightarrow> length (remaining c') < length (remaining c)"
  by (fastforce simp: read_header_def result_simps dest!: decode_integer_less read_name_less decode_string_less split: prod.splits if_splits)

function block_loop :: "(byte list \<Rightarrow> byte list option) \<Rightarrow> cursor \<Rightarrow> dynamic_table \<Rightarrow> order_state \<Rightarrow> (capture_error + pseudo_header list) option" where
  "block_loop huffman input t s =
     (case remaining input of [] \<Rightarrow> Some (Inr (os_order s))
      | first # _ \<Rightarrow>
          let rep = representation_of first in
          if rep = TableSize then
            (if os_count s \<noteq> 0 then Some (Inl Invalid)
             else case decode_integer 31 input of Inl e \<Rightarrow> Some (Inl e)
               | Inr (capacity, input') \<Rightarrow>
                   (case hpack_resize capacity t of None \<Rightarrow> None
                    | Some (Inl e) \<Rightarrow> Some (Inl e)
                    | Some (Inr t) \<Rightarrow> block_loop huffman input' t s))
          else let s = s\<lparr> os_count := os_count s + 1 \<rparr> in
            if MAX_HEADERS < os_count s then Some (Inl CaptureLimited)
            else case read_header huffman rep t input of Inl e \<Rightarrow> Some (Inl e)
              | Inr (name, sz, input') \<Rightarrow>
                  (case note_header name sz s of Inl e \<Rightarrow> Some (Inl e)
                   | Inr s \<Rightarrow>
                       if rep = LiteralIndexed then
                         (case hpack_insert \<lparr> te_name = name, te_size = sz \<rparr> t of None \<Rightarrow> None
                          | Some t \<Rightarrow> block_loop huffman input' t s)
                       else block_loop huffman input' t s))"
  by pat_completeness auto
termination
  by (relation "measure (\<lambda>(_, input, _, _). length (remaining input))") (auto dest: decode_integer_less read_header_less)

declare block_loop.simps [simp del]

definition pseudo_header_order :: "(byte list \<Rightarrow> byte list option) \<Rightarrow> byte list \<Rightarrow> (capture_error + pseudo_header list) option" where
  "pseudo_header_order huffman block =
     (if MAX_BLOCK < length block then Some (Inl CaptureLimited)
      else block_loop huffman \<lparr> remaining = block \<rparr> table_default order_start)"

fun pseudo_letter :: "pseudo_header \<Rightarrow> string" where
  "pseudo_letter Method = ''m''"
| "pseudo_letter Authority = ''a''"
| "pseudo_letter Scheme = ''s''"
| "pseudo_letter Path = ''p''"
| "pseudo_letter Protocol = ''r''"

definition pseudo_order_show :: "pseudo_header list \<Rightarrow> string" where
  "pseudo_order_show order = join_with '','' (map pseudo_letter order)"

section \<open>The fingerprint\<close>

definition PREFACE :: "byte list" where
  "PREFACE = as_bytes ''PRI * HTTP/2.0'' @ [13, 10, 13, 10] @ as_bytes ''SM'' @ [13, 10, 13, 10]"

definition CAPTURE_LIMIT :: usize where "CAPTURE_LIMIT = 65536"

record http2_fingerprint =
  h2_settings :: settings
  h2_window_update :: "u32 option"
  h2_priorities :: "priority list"
  h2_pseudo_headers :: "pseudo_header list"

definition window_update_text :: "http2_fingerprint \<Rightarrow> string" where
  "window_update_text fp = (case h2_window_update fp of None \<Rightarrow> ''00'' | Some v \<Rightarrow> show_nat v)"

definition priority_text :: "http2_fingerprint \<Rightarrow> string" where
  "priority_text fp = (if h2_priorities fp = [] then ''0'' else join_with '','' (map priority_show (h2_priorities fp)))"

definition http2_show :: "http2_fingerprint \<Rightarrow> string" where
  "http2_show fp = settings_show (h2_settings fp) @ ''|'' @ window_update_text fp @ ''|'' @ priority_text fp @ ''|'' @
     pseudo_order_show (h2_pseudo_headers fp)"

definition http2_policy_fields :: "http2_fingerprint \<Rightarrow> (string \<times> string) list" where
  "http2_policy_fields fp =
     [(''http2_source'', ''transport''), (''http2'', http2_show fp), (''http2_settings'', settings_show (h2_settings fp)),
      (''http2_window_update'', window_update_text fp), (''http2_priority'', priority_text fp),
      (''http2_pseudo_headers'', pseudo_order_show (h2_pseudo_headers fp))]"

datatype header_block = Pending | Continuing u32 "byte list"

record connection_capture =
  co_settings :: settings
  co_window_update :: "u32 option"
  co_priorities :: "priority list"
  co_headers :: header_block

definition connection_capture_new :: "settings \<Rightarrow> connection_capture" where
  "connection_capture_new s = \<lparr> co_settings = s, co_window_update = None, co_priorities = [], co_headers = Pending \<rparr>"

text \<open>What a frame does to the capture: an error, the order of the pseudo headers, or a new state.
  The outer option is the panic of the table.\<close>

definition block_done :: "(byte list \<Rightarrow> byte list option) \<Rightarrow> byte list \<Rightarrow> connection_capture \<Rightarrow>
    (capture_error + pseudo_header list option \<times> connection_capture) option" where
  "block_done huffman block c =
     map_option (\<lambda>r. rbind r (\<lambda>order. Inr (Some order, c))) (pseudo_header_order huffman block)"

definition capture_frame :: "(byte list \<Rightarrow> byte list option) \<Rightarrow> http2_frame \<Rightarrow> connection_capture \<Rightarrow>
    (capture_error + pseudo_header list option \<times> connection_capture) option" where
  "capture_frame huffman f c =
     (case co_headers c of
        Pending \<Rightarrow>
          (case f of
             Headers fragment \<Rightarrow>
               if hf_complete fragment then block_done huffman (hf_block fragment) c
               else Some (Inr (None, c\<lparr> co_headers := Continuing (hf_stream fragment) (hf_block fragment) \<rparr>))
           | WindowUpdate stream increment \<Rightarrow>
               Some (Inr (None, if stream = 0 \<and> co_window_update c = None then c\<lparr> co_window_update := Some increment \<rparr> else c))
           | Priority p \<Rightarrow> Some (Inr (None, c\<lparr> co_priorities := co_priorities c @ [p] \<rparr>))
           | Settings _ \<Rightarrow> Some (Inr (None, c))
           | SettingsAck \<Rightarrow> Some (Inr (None, c))
           | OtherFrame \<Rightarrow> Some (Inr (None, c))
           | Continuation _ \<Rightarrow> Some (Inl Invalid))
      | Continuing stream encoded \<Rightarrow>
          (case f of
             Continuation fragment \<Rightarrow>
               if stream \<noteq> hf_stream fragment then Some (Inl Invalid)
               else let encoded = encoded @ hf_block fragment; c = c\<lparr> co_headers := Continuing stream encoded \<rparr> in
                 if hf_complete fragment then block_done huffman encoded c else Some (Inr (None, c))
           | _ \<Rightarrow> Some (Inl Invalid)))"

record observer =
  ob_buffer :: "byte list"
  ob_position :: usize
  ob_frames :: usize
  ob_capture :: "connection_capture option"

definition observer_default :: observer where
  "observer_default = \<lparr> ob_buffer = [], ob_position = 0, ob_frames = 0, ob_capture = None \<rparr>"

lemma cursor_u24_less: "cursor_u24 c = Inr (v, c') \<Longrightarrow> length (remaining c) = 3 + length (remaining c')"
  by (auto simp: cursor_u24_def result_simps dest: cursor_take_less split: prod.splits)

lemma cursor_u32_less: "cursor_u32 c = Inr (v, c') \<Longrightarrow> length (remaining c) = 4 + length (remaining c')"
  by (auto simp: cursor_u32_def result_simps dest: cursor_take_less split: prod.splits)

lemma frame_decode_Some:
  assumes "frame_decode data = Inr (Some (f, n))"
  obtains len kind flags stream i1 i2 i3 i4 i5 payload where "9 \<le> length data" "cursor_u24 \<lparr> remaining = data \<rparr> = Inr (len, i1)" "len \<le> 16384"
    "cursor_byte i1 = Inr (kind, i2)" "cursor_byte i2 = Inr (flags, i3)" "cursor_u32 i3 = Inr (stream, i4)" "cursor_take len i4 = Inr (payload, i5)"
    "frame_of kind flags (low31 stream) payload = Inr f" "n = 9 + len"
proof -
  from assms have nine: "9 \<le> length data" by (auto simp: frame_decode_def split: if_splits)
  with assms obtain len i1 where 1: "cursor_u24 \<lparr> remaining = data \<rparr> = Inr (len, i1)" "len \<le> 16384"
    by (auto simp: frame_decode_def result_simps split: if_splits)
  with assms nine obtain kind i2 flags i3 where 2: "cursor_byte i1 = Inr (kind, i2)" "cursor_byte i2 = Inr (flags, i3)"
    by (auto simp: frame_decode_def result_simps)
  with 1 assms nine obtain stream i4 where 3: "cursor_u32 i3 = Inr (stream, i4)"
    by (auto simp: frame_decode_def result_simps)
  with 1 2 assms nine have rest: "(case cursor_take len i4 of Inl _ \<Rightarrow> Inr None
      | Inr (payload, _) \<Rightarrow> rbind (frame_of kind flags (low31 stream) payload) (\<lambda>f. Inr (Some (f, 9 + len)))) = Inr (Some (f, n))"
    by (simp add: frame_decode_def)
  then obtain payload i5 where 4: "cursor_take len i4 = Inr (payload, i5)" by (auto split: sum.splits)
  with rest have "frame_of kind flags (low31 stream) payload = Inr f" "n = 9 + len" by (auto simp: result_simps)
  with nine 1 2 3 4 show ?thesis by (rule that)
qed

lemma frame_decode_consumes: "frame_decode data = Inr (Some (f, n)) \<Longrightarrow> 9 \<le> n \<and> n \<le> length data"
  by (erule frame_decode_Some) (auto dest!: cursor_u24_less cursor_byte_less cursor_u32_less cursor_take_less)

text \<open>The result of a turn: an error, the capture once it is decided, or \<open>None\<close> to wait for more.\<close>

function frames_loop :: "(byte list \<Rightarrow> byte list option) \<Rightarrow> observer \<Rightarrow>
    (capture_error + http2_fingerprint capture option \<times> observer) option" where
  "frames_loop huffman o' =
     (case frame_decode (drop (ob_position o') (ob_buffer o')) of
        Inl e \<Rightarrow> Some (Inl e)
      | Inr None \<Rightarrow> Some (Inr (None, o'))
      | Inr (Some (f, consumed)) \<Rightarrow>
          if 128 \<le> ob_frames o' then Some (Inl CaptureLimited)
          else let o1 = o'\<lparr> ob_frames := ob_frames o' + 1, ob_position := ob_position o' + consumed \<rparr> in
            (case ob_capture o1 of
               None \<Rightarrow>
                 (case f of Settings s \<Rightarrow> frames_loop huffman (o1\<lparr> ob_capture := Some (connection_capture_new s) \<rparr>)
                  | _ \<Rightarrow> Some (Inl Invalid))
             | Some c \<Rightarrow>
                 (case capture_frame huffman f c of
                    None \<Rightarrow> None
                  | Some (Inl e) \<Rightarrow> Some (Inl e)
                  | Some (Inr (None, c)) \<Rightarrow> frames_loop huffman (o1\<lparr> ob_capture := Some c \<rparr>)
                  | Some (Inr (Some order, c)) \<Rightarrow>
                      let fp = \<lparr> h2_settings = co_settings c, h2_window_update = co_window_update c, h2_priorities = co_priorities c,
                            h2_pseudo_headers = order \<rparr>
                      in if 4096 < length (http2_show fp) then Some (Inl CaptureLimited)
                         else Some (Inr (Some (Captured fp), o1\<lparr> ob_capture := None \<rparr>)))))"
  by pat_completeness auto
termination
  by (relation "measure (\<lambda>(_, o'). length (ob_buffer o') - ob_position o')") (auto dest!: frame_decode_consumes)

declare frames_loop.simps [simp del]

definition starts_with_bytes :: "byte list \<Rightarrow> byte list \<Rightarrow> bool" where
  "starts_with_bytes prefix s \<longleftrightarrow> take (length prefix) s = prefix"

definition observer_feed :: "(byte list \<Rightarrow> byte list option) \<Rightarrow> byte list \<Rightarrow> observer \<Rightarrow>
    (capture_error + http2_fingerprint capture option \<times> observer) option" where
  "observer_feed huffman incoming o' =
     (let available = min (CAPTURE_LIMIT - length (ob_buffer o')) (length incoming);
          o1 = o'\<lparr> ob_buffer := ob_buffer o' @ take available incoming \<rparr>;
          run = (\<lambda>o2. case frames_loop huffman o2 of
             Some (Inr (None, o3)) \<Rightarrow> if length (ob_buffer o3) = CAPTURE_LIMIT then Some (Inl CaptureLimited) else Some (Inr (None, o3))
           | r \<Rightarrow> r)
      in if ob_position o1 = 0 then
           (if \<not> starts_with_bytes (take (length PREFACE) (ob_buffer o1)) PREFACE then Some (Inr (Some Unavailable, o1))
            else if length (ob_buffer o1) < length PREFACE then Some (Inr (None, o1))
            else run (o1\<lparr> ob_position := length PREFACE \<rparr>))
         else run o1)"

record fingerprint_stream =
  fs_observer :: "observer option"
  fs_fingerprint :: "http2_fingerprint capture"

definition fingerprint_stream_new :: fingerprint_stream where
  "fingerprint_stream_new = \<lparr> fs_observer = Some observer_default, fs_fingerprint = CaptureFailed capture_error.Incomplete \<rparr>"

text \<open>What a read of the connection that filled \<open>incoming\<close> does.\<close>

definition fingerprint_read :: "(byte list \<Rightarrow> byte list option) \<Rightarrow> byte list \<Rightarrow> fingerprint_stream \<Rightarrow> fingerprint_stream option" where
  "fingerprint_read huffman incoming fs =
     (case fs_observer fs of None \<Rightarrow> Some fs
      | Some observer \<Rightarrow>
          if incoming = [] then Some fs
          else (case observer_feed huffman incoming observer of
                  None \<Rightarrow> None
                | Some (Inr (Some capture, _)) \<Rightarrow> Some \<lparr> fs_observer = None, fs_fingerprint = capture \<rparr>
                | Some (Inl e) \<Rightarrow> Some \<lparr> fs_observer = None, fs_fingerprint = CaptureFailed e \<rparr>
                | Some (Inr (None, observer)) \<Rightarrow> Some (fs\<lparr> fs_observer := Some observer \<rparr>)))"

end
