(* ===== verification/Http2_Theorems.thy ===== *)
theory Http2_Theorems
  imports Http2_Capture
begin

text \<open>
  What the HTTP/2 observer guarantees: it sees the same connection however its bytes are cut into
  reads, its table never runs empty while it evicts, and the integers of the header compression
  read back.
\<close>

section \<open>The table\<close>

definition hpack_table_ok :: "dynamic_table \<Rightarrow> bool" where
  "hpack_table_ok t \<longleftrightarrow> dt_size t = sum_list (map te_size (dt_entries t)) \<and> dt_capacity t \<le> MAX_TABLE"

lemma evict_to_ok:
  assumes "hpack_table_ok t"
  shows "\<exists>t'. evict_to limit t = Some t' \<and> hpack_table_ok t' \<and> dt_size t' \<le> limit \<and> dt_capacity t' = dt_capacity t"
  using assms
proof (induction limit t rule: evict_to.induct)
  case (1 limit t)
  show ?case
  proof (cases "limit < dt_size t")
    case True
    then have some: "dt_entries t \<noteq> []" using "1.prems" by (auto simp: hpack_table_ok_def)
    let ?t = "t\<lparr> dt_entries := butlast (dt_entries t), dt_size := dt_size t - te_size (last (dt_entries t)) \<rparr>"
    have "sum_list (map te_size (butlast (dt_entries t) @ [last (dt_entries t)])) = dt_size t"
      using some "1.prems" unfolding append_butlast_last_id [OF some] by (simp add: hpack_table_ok_def)
    then have "hpack_table_ok ?t" using "1.prems" by (auto simp: hpack_table_ok_def)
    from "1.IH" [OF True some this] show ?thesis using True some by (subst evict_to.simps) simp
  next
    case False
    then show ?thesis using "1.prems" by (subst evict_to.simps) simp
  qed
qed

lemma hpack_resize_ok: "hpack_table_ok t \<Longrightarrow> \<exists>r. hpack_resize capacity t = Some r \<and> (\<forall>t'. r = Inr t' \<longrightarrow> hpack_table_ok t')"
proof (cases "MAX_TABLE < capacity")
  case False
  assume "hpack_table_ok t"
  then have "hpack_table_ok (t\<lparr> dt_capacity := capacity \<rparr>)" using False by (simp add: hpack_table_ok_def)
  from evict_to_ok [OF this, of capacity] show ?thesis using False by (auto simp: hpack_resize_def)
qed (simp add: hpack_resize_def)

lemma hpack_insert_ok:
  assumes "hpack_table_ok t"
  shows "\<exists>t'. hpack_insert entry t = Some t' \<and> hpack_table_ok t'"
proof (cases "dt_capacity t < te_size entry")
  case True
  then show ?thesis using evict_to_ok [OF assms, of 0] by (auto simp: hpack_insert_def)
next
  case False
  obtain t' where "evict_to (dt_capacity t - te_size entry) t = Some t'" "hpack_table_ok t'" using evict_to_ok [OF assms] by blast
  then show ?thesis using False by (auto simp: hpack_insert_def hpack_table_ok_def)
qed

lemma block_loop_total: "hpack_table_ok t \<Longrightarrow> block_loop huffman input t s \<noteq> None"
proof (induction huffman input t s rule: block_loop.induct)
  case (1 huffman input t s)
  show ?case
  proof (cases "remaining input")
    case Nil
    then show ?thesis by (subst block_loop.simps) simp
  next
    case (Cons first rest)
    note IH = "1.IH" [OF Cons refl]
    show ?thesis
    proof (cases "representation_of first = TableSize")
      case True
      show ?thesis
      proof (cases "os_count s \<noteq> 0 \<or> (\<exists>e. decode_integer 31 input = Inl e)")
        case True
        then show ?thesis using \<open>representation_of first = TableSize\<close> by (subst block_loop.simps) (auto simp: Cons)
      next
        case False
        then obtain capacity input' where n: "decode_integer 31 input = Inr (capacity, input')" by (cases "decode_integer 31 input") auto
        obtain r where r: "hpack_resize capacity t = Some r" "\<And>t'. r = Inr t' \<Longrightarrow> hpack_table_ok t'" using hpack_resize_ok [OF "1.prems"] by blast
        show ?thesis using True False n r IH(1) [OF True _ n refl r(1)] by (subst block_loop.simps) (auto simp: Cons split: sum.splits)
      qed
    next
      case False
      show ?thesis
        using False "1.prems" IH(2,3) [OF False] hpack_insert_ok [OF "1.prems"]
        by (subst block_loop.simps) (fastforce simp: Cons Let_def split: sum.splits prod.splits if_splits option.splits)
    qed
  qed
qed

lemma pseudo_header_order_total: "\<exists>r. pseudo_header_order huffman block = Some r"
  using block_loop_total [of table_default huffman "\<lparr> remaining = block \<rparr>" order_start]
  by (auto simp: pseudo_header_order_def table_default_def hpack_table_ok_def)

lemma capture_frame_total: "\<exists>r. capture_frame huffman f c = Some r"
  using pseudo_header_order_total [of huffman]
  by (auto simp: capture_frame_def block_done_def Let_def split: header_block.split http2_frame.split)

section \<open>More of the connection\<close>

text \<open>A frame is decoded from its own bytes: what follows them changes nothing.\<close>

lemma frame_decode_bytes:
  "frame_decode (a # b # c # kind # flags # s1 # s2 # s3 # s4 # rest) =
     (let len = unat a * 2 ^ 16 + unat b * 2 ^ 8 + unat c in
      if 16384 < len then Inl CaptureLimited
      else if length rest < len then Inr None
      else rbind (frame_of (unat kind) (unat flags) (low31 (from_be_bytes [s1, s2, s3, s4])) (take len rest)) (\<lambda>f. Inr (Some (f, 9 + len))))"
  by (simp add: frame_decode_def cursor_u24_def cursor_u32_def cursor_byte_def cursor_take_def Let_def)

lemma nine_bytes: "9 \<le> length data \<Longrightarrow> \<exists>a b c k f s1 s2 s3 s4 rest. data = a # b # c # k # f # s1 # s2 # s3 # s4 # rest"
  by (auto simp: Suc_le_length_iff eval_nat_numeral)

lemma frame_decode_more:
  assumes "frame_decode data \<noteq> Inr None"
  shows "frame_decode (data @ more') = frame_decode data"
proof -
  have "9 \<le> length data" using assms by (auto simp: frame_decode_def split: if_splits)
  from nine_bytes [OF this] obtain a b c k f s1 s2 s3 s4 rest where "data = a # b # c # k # f # s1 # s2 # s3 # s4 # rest" by (elim exE)
  then show ?thesis using assms by (auto simp: frame_decode_bytes Let_def split: if_splits)
qed

definition more_bytes :: "byte list \<Rightarrow> observer \<Rightarrow> observer" where
  "more_bytes bytes o' = o'\<lparr> ob_buffer := ob_buffer o' @ bytes \<rparr>"

text \<open>The verdict of a turn, without the state of the observer.\<close>

fun verdict :: "(capture_error + http2_fingerprint capture option \<times> observer) option \<Rightarrow> (capture_error + http2_fingerprint capture option) option" where
  "verdict None = None"
| "verdict (Some (Inl e)) = Some (Inl e)"
| "verdict (Some (Inr (c, _))) = Some (Inr c)"

lemma frames_loop_more:
  assumes "ob_position o' \<le> length (ob_buffer o')"
  shows "case frames_loop huffman o' of
      Some (Inr (None, o1)) \<Rightarrow> frames_loop huffman (more_bytes bytes o') = frames_loop huffman (more_bytes bytes o1) \<and>
        ob_buffer o1 = ob_buffer o' \<and> ob_position o' \<le> ob_position o1 \<and> ob_position o1 \<le> length (ob_buffer o1)
    | r \<Rightarrow> verdict (frames_loop huffman (more_bytes bytes o')) = verdict r"
  using assms
proof (induction huffman o' rule: frames_loop.induct)
  case (1 huffman o')
  let ?d = "frame_decode (drop (ob_position o') (ob_buffer o'))"
  have drop: "drop (ob_position o') (ob_buffer (more_bytes bytes o')) = drop (ob_position o') (ob_buffer o') @ bytes"
    and same: "ob_position (more_bytes bytes o') = ob_position o'" "ob_frames (more_bytes bytes o') = ob_frames o'"
      "ob_capture (more_bytes bytes o') = ob_capture o'"
    using "1.prems" by (simp_all add: more_bytes_def)
  show ?case
  proof (cases "?d = Inr None")
    case True
    then have "frames_loop huffman o' = Some (Inr (None, o'))" by (subst frames_loop.simps) simp
    then show ?thesis using "1.prems" by simp
  next
    case False
    note again = frame_decode_more [OF False, of bytes]
    have comm: "(more_bytes bytes o')\<lparr> ob_frames := m, ob_position := p \<rparr> = more_bytes bytes (o'\<lparr> ob_frames := m, ob_position := p \<rparr>)"
      "(more_bytes bytes x)\<lparr> ob_capture := c \<rparr> = more_bytes bytes (x\<lparr> ob_capture := c \<rparr>)" for m p c x
      by (simp_all add: more_bytes_def)
    show ?thesis
    proof (cases "(\<exists>e. ?d = Inl e) \<or> 128 \<le> ob_frames o'")
      case True
      then have "verdict (frames_loop huffman (more_bytes bytes o')) = verdict (frames_loop huffman o') \<and> (\<exists>e. frames_loop huffman o' = Some (Inl e))"
        using False by (subst (1 2 3) frames_loop.simps) (auto simp: drop same again split: sum.splits option.splits)
      then show ?thesis by auto
    next
      case turn: False
      then obtain f n where d: "?d = Inr (Some (f, n))" using False by (cases ?d) auto
      define o1 where "o1 = o'\<lparr> ob_frames := Suc (ob_frames o'), ob_position := ob_position o' + n \<rparr>"
      have pos: "ob_position o1 \<le> length (ob_buffer o1)" "ob_position o' \<le> ob_position o1" "ob_buffer o1 = ob_buffer o'"
        using frame_decode_consumes [OF d] "1.prems" by (auto simp: o1_def)
      have frames: "\<not> 128 \<le> ob_frames o'" using turn by simp
      note unfold = frames_loop.simps [of huffman o'] frames_loop.simps [of huffman "more_bytes bytes o'"]
      have cap: "ob_capture o' = ob_capture o1" "ob_capture (more_bytes bytes x) = ob_capture x" for x by (simp_all add: o1_def more_bytes_def)
      note facts = drop same again d frames comm cap o1_def [symmetric]
      show ?thesis
      proof (cases "ob_capture o1")
        case None
        show ?thesis
        proof (cases "\<exists>s. f = Settings s")
          case True
          then obtain s where f: "f = Settings s" by blast
          have "frames_loop huffman o' = frames_loop huffman (o1\<lparr> ob_capture := Some (connection_capture_new s) \<rparr>)"
            "frames_loop huffman (more_bytes bytes o') = frames_loop huffman (more_bytes bytes (o1\<lparr> ob_capture := Some (connection_capture_new s) \<rparr>))"
            using None by (simp_all add: unfold facts f Let_def)
          then show ?thesis
            using "1.IH"(1) [OF d refl refl frames o1_def [simplified Suc_eq_plus1] None f] pos by (auto split: option.splits sum.splits prod.splits)
        next
          case False
          then have "frames_loop huffman o' = Some (Inl Invalid)" "frames_loop huffman (more_bytes bytes o') = Some (Inl Invalid)"
            using None by (simp_all add: unfold facts Let_def split: http2_frame.split)
          then show ?thesis by simp
        qed
      next
        case (Some c)
        obtain r where r: "capture_frame huffman f c = Some r" using capture_frame_total by blast
        show ?thesis
        proof (cases "\<exists>c'. r = Inr (None, c')")
          case True
          then obtain c' where c': "r = Inr (None, c')" by blast
          have "frames_loop huffman o' = frames_loop huffman (o1\<lparr> ob_capture := Some c' \<rparr>)"
            "frames_loop huffman (more_bytes bytes o') = frames_loop huffman (more_bytes bytes (o1\<lparr> ob_capture := Some c' \<rparr>))"
            using Some r by (simp_all add: unfold facts c' Let_def)
          then show ?thesis
            using "1.IH"(2) [OF d refl refl frames o1_def [simplified Suc_eq_plus1] Some r c' refl refl] pos by (auto split: option.splits sum.splits prod.splits)
        next
          case False
          then show ?thesis
            using Some r by (auto simp: unfold facts Let_def split: sum.splits option.splits prod.splits)
        qed
      qed
    qed
  qed
qed

section \<open>Feeding the observer\<close>

text \<open>What the observer concludes from the buffered bytes alone.\<close>

definition conclude :: "(byte list \<Rightarrow> byte list option) \<Rightarrow> observer \<Rightarrow> (capture_error + http2_fingerprint capture option \<times> observer) option" where
  "conclude huffman o1 = (case frames_loop huffman o1 of
       Some (Inr (None, o2)) \<Rightarrow> if length (ob_buffer o2) = CAPTURE_LIMIT then Some (Inl CaptureLimited) else Some (Inr (None, o2))
     | r \<Rightarrow> r)"

definition observe_bytes :: "(byte list \<Rightarrow> byte list option) \<Rightarrow> observer \<Rightarrow> (capture_error + http2_fingerprint capture option \<times> observer) option" where
  "observe_bytes huffman o1 =
     (if ob_position o1 = 0 then
        (if \<not> starts_with_bytes (take (length PREFACE) (ob_buffer o1)) PREFACE then Some (Inr (Some Unavailable, o1))
         else if length (ob_buffer o1) < length PREFACE then Some (Inr (None, o1))
         else conclude huffman (o1\<lparr> ob_position := length PREFACE \<rparr>))
      else conclude huffman o1)"

lemma observer_feed_observe:
  "observer_feed huffman incoming o' = observe_bytes huffman (more_bytes (take (CAPTURE_LIMIT - length (ob_buffer o')) incoming) o')"
proof -
  have "take (min n (length incoming)) incoming = take n incoming" for n by (simp add: min_def)
  then show ?thesis by (simp add: observer_feed_def observe_bytes_def conclude_def more_bytes_def Let_def)
qed

lemma preface_length: "length PREFACE = 24"
  by (simp add: PREFACE_def)

lemma starts_more:
  assumes "\<not> starts_with_bytes (take n xs) P"
  shows "\<not> starts_with_bytes (take n (xs @ ys)) P"
proof
  assume "starts_with_bytes (take n (xs @ ys)) P"
  then have "take (length (take n (xs @ ys))) P = take n xs @ take (n - length xs) ys" by (simp add: starts_with_bytes_def)
  then have "take (length (take n xs)) P = take (length (take n xs)) (take n xs @ take (n - length xs) ys)"
    using take_take [of "length (take n xs)" "length (take n (xs @ ys))" P] by simp
  moreover have "take (min (length xs) n) xs = take n xs" by (simp add: min_def)
  ultimately show False using assms by (simp add: starts_with_bytes_def)
qed

lemma conclude_more:
  assumes "ob_position o' \<le> length (ob_buffer o')" "length (ob_buffer o' @ bytes) \<le> CAPTURE_LIMIT"
  shows "case conclude huffman o' of
      Some (Inr (None, o1)) \<Rightarrow> conclude huffman (more_bytes bytes o') = conclude huffman (more_bytes bytes o1) \<and>
        ob_buffer o1 = ob_buffer o' \<and> ob_position o' \<le> ob_position o1 \<and> ob_position o1 \<le> length (ob_buffer o1) \<and> length (ob_buffer o1) \<noteq> CAPTURE_LIMIT
    | r \<Rightarrow> verdict (conclude huffman (more_bytes bytes o')) = verdict r"
proof (cases "\<exists>o1. frames_loop huffman o' = Some (Inr (None, o1))")
  case True
  then obtain o1 where o1: "frames_loop huffman o' = Some (Inr (None, o1))" by blast
  have more': "frames_loop huffman (more_bytes bytes o') = frames_loop huffman (more_bytes bytes o1)" "ob_buffer o1 = ob_buffer o'"
    "ob_position o' \<le> ob_position o1" "ob_position o1 \<le> length (ob_buffer o1)"
    using frames_loop_more [OF assms(1), of huffman bytes] o1 by auto
  show ?thesis
  proof (cases "length (ob_buffer o1) = CAPTURE_LIMIT")
    case True
    then have "bytes = []" using assms(2) more'(2) by simp
    then have "more_bytes bytes o' = o'" by (simp add: more_bytes_def)
    then show ?thesis using o1 True by (simp add: conclude_def)
  next
    case False
    then show ?thesis using o1 more' by (simp add: conclude_def)
  qed
next
  case False
  then have same: "verdict (frames_loop huffman (more_bytes bytes o')) = verdict (frames_loop huffman o')" "\<And>o1. verdict (frames_loop huffman o') \<noteq> Some (Inr None)"
    using frames_loop_more [OF assms(1), of huffman bytes]
    by (auto split: option.splits sum.splits prod.splits elim: verdict.elims)
  have "conclude huffman x = frames_loop huffman x" if "verdict (frames_loop huffman x) \<noteq> Some (Inr None)" for x
    using that by (auto simp: conclude_def split: option.splits sum.splits prod.splits)
  with same show ?thesis by (auto split: option.splits sum.splits prod.splits)
qed

lemma observe_more:
  assumes "ob_position o' \<le> length (ob_buffer o')" "length (ob_buffer o' @ bytes) \<le> CAPTURE_LIMIT"
  shows "case observe_bytes huffman o' of
      Some (Inr (None, o1)) \<Rightarrow> observe_bytes huffman (more_bytes bytes o') = observe_bytes huffman (more_bytes bytes o1) \<and>
        ob_buffer o1 = ob_buffer o' \<and> ob_position o1 \<le> length (ob_buffer o1) \<and> length (ob_buffer o1) \<noteq> CAPTURE_LIMIT
    | r \<Rightarrow> verdict (observe_bytes huffman (more_bytes bytes o')) = verdict r"
proof (cases "ob_position o' = 0")
  case False
  then have "observe_bytes huffman o' = conclude huffman o'" "observe_bytes huffman (more_bytes bytes o') = conclude huffman (more_bytes bytes o')"
    by (simp_all add: observe_bytes_def more_bytes_def)
  moreover have "observe_bytes huffman (more_bytes bytes o1) = conclude huffman (more_bytes bytes o1)" if "ob_position o' \<le> ob_position o1" for o1
    using that False by (simp add: observe_bytes_def more_bytes_def)
  ultimately show ?thesis using conclude_more [OF assms, of huffman] by (auto split: option.splits sum.splits prod.splits)
next
  case zero: True
  show ?thesis
  proof (cases "starts_with_bytes (take (length PREFACE) (ob_buffer o')) PREFACE")
    case False
    then have "\<not> starts_with_bytes (take (length PREFACE) (ob_buffer o' @ bytes)) PREFACE" by (rule starts_more)
    then show ?thesis using False zero by (simp add: observe_bytes_def more_bytes_def)
  next
    case True
    show ?thesis
    proof (cases "length (ob_buffer o') < length PREFACE")
      case short: True
      then have "observe_bytes huffman o' = Some (Inr (None, o'))" using True zero by (simp add: observe_bytes_def)
      then show ?thesis using short assms(1) by (simp add: preface_length CAPTURE_LIMIT_def)
    next
      case False
      let ?o = "o'\<lparr> ob_position := length PREFACE \<rparr>"
      have "take (length PREFACE) (ob_buffer o' @ bytes) = take (length PREFACE) (ob_buffer o')" using False by simp
      then have "observe_bytes huffman (more_bytes bytes o') = conclude huffman ((more_bytes bytes o')\<lparr> ob_position := length PREFACE \<rparr>)"
        using True False zero by (simp add: observe_bytes_def more_bytes_def)
      moreover have "(more_bytes bytes o')\<lparr> ob_position := length PREFACE \<rparr> = more_bytes bytes ?o" by (cases o') (simp add: more_bytes_def)
      ultimately have here: "observe_bytes huffman o' = conclude huffman ?o" "observe_bytes huffman (more_bytes bytes o') = conclude huffman (more_bytes bytes ?o)"
        using True False zero by (simp_all add: observe_bytes_def)
      have "observe_bytes huffman (more_bytes bytes o1) = conclude huffman (more_bytes bytes o1)" if "length PREFACE \<le> ob_position o1" for o1
        using that by (simp add: observe_bytes_def more_bytes_def preface_length)
      then show ?thesis
        using conclude_more [of ?o bytes huffman] assms False here by (auto split: option.splits sum.splits prod.splits)
    qed
  qed
qed

text \<open>The observer after some bytes stands where it would stand had they come at once.\<close>

abbreviation seen :: "byte list \<Rightarrow> observer" where
  "seen bytes \<equiv> more_bytes (take CAPTURE_LIMIT bytes) observer_default"

lemma observe_seen:
  "case observe_bytes huffman (seen a) of
      Some (Inr (None, o1)) \<Rightarrow> observer_feed huffman b o1 = observe_bytes huffman (seen (a @ b))
    | r \<Rightarrow> verdict (observe_bytes huffman (seen (a @ b))) = verdict r"
proof -
  let ?b = "take (CAPTURE_LIMIT - length a) b"
  have whole: "seen (a @ b) = more_bytes ?b (seen a)" by (simp add: more_bytes_def observer_default_def)
  have fits: "ob_position (seen a) \<le> length (ob_buffer (seen a))" "length (ob_buffer (seen a) @ ?b) \<le> CAPTURE_LIMIT"
    by (auto simp: more_bytes_def observer_default_def min_def)
  have "observer_feed huffman b o1 = observe_bytes huffman (more_bytes ?b o1)" if "ob_buffer o1 = ob_buffer (seen a)" for o1
    using that by (cases "length a \<le> CAPTURE_LIMIT") (simp_all add: observer_feed_observe more_bytes_def observer_default_def)
  then show ?thesis
    unfolding whole using observe_more [OF fits, of huffman] by (auto split: option.splits sum.splits prod.splits)
qed

section \<open>Reads\<close>

fun read_all :: "(byte list \<Rightarrow> byte list option) \<Rightarrow> byte list list \<Rightarrow> fingerprint_stream \<Rightarrow> fingerprint_stream option" where
  "read_all huffman [] fs = Some fs"
| "read_all huffman (incoming # rest) fs = Option.bind (fingerprint_read huffman incoming fs) (read_all huffman rest)"

text \<open>The fingerprint after \<open>bytes\<close> were read, and whether the observer is still there.\<close>

definition standing :: "(byte list \<Rightarrow> byte list option) \<Rightarrow> byte list \<Rightarrow> fingerprint_stream \<Rightarrow> bool" where
  "standing huffman bytes fs \<longleftrightarrow>
     (case observe_bytes huffman (seen bytes) of
        Some (Inr (None, o1)) \<Rightarrow> fs = \<lparr> fs_observer = Some o1, fs_fingerprint = CaptureFailed capture_error.Incomplete \<rparr>
      | Some (Inr (Some c, _)) \<Rightarrow> fs = \<lparr> fs_observer = None, fs_fingerprint = c \<rparr>
      | Some (Inl e) \<Rightarrow> fs = \<lparr> fs_observer = None, fs_fingerprint = CaptureFailed e \<rparr>
      | None \<Rightarrow> False)"

lemma frames_loop_total: "\<exists>r. frames_loop huffman o' = Some r"
proof (induction huffman o' rule: frames_loop.induct)
  case (1 huffman o')
  show ?case
  proof (cases "frame_decode (drop (ob_position o') (ob_buffer o'))")
    case (Inl e)
    then show ?thesis by (subst frames_loop.simps) simp
  next
    case (Inr x)
    show ?thesis
    proof (cases x)
      case None
      then show ?thesis using Inr by (subst frames_loop.simps) simp
    next
      case (Some fc)
      then obtain f n where d: "frame_decode (drop (ob_position o') (ob_buffer o')) = Inr (Some (f, n))" using Inr by (cases fc) simp
      show ?thesis
        using "1.IH" [OF d refl refl _ refl] capture_frame_total
        by (subst frames_loop.simps) (fastforce simp: d Let_def split: option.splits sum.splits prod.splits http2_frame.splits)
    qed
  qed
qed

lemma observe_total: "\<exists>r. observe_bytes huffman o' = Some r"
proof -
  have "\<exists>r. conclude huffman o1 = Some r" for o1
    using frames_loop_total [of huffman o1] by (auto simp: conclude_def split: option.splits sum.splits prod.splits)
  then show ?thesis by (auto simp: observe_bytes_def)
qed

lemma standing_new: "standing huffman [] fingerprint_stream_new"
  by (simp add: standing_def observe_bytes_def more_bytes_def observer_default_def starts_with_bytes_def preface_length fingerprint_stream_new_def)

lemma standing_read:
  assumes "standing huffman a fs"
  shows "\<exists>fs'. fingerprint_read huffman b fs = Some fs' \<and> standing huffman (a @ b) fs'"
proof (cases "b = []")
  case True
  then show ?thesis using assms by (simp add: fingerprint_read_def split: option.split)
next
  case False
  show ?thesis
  proof (cases "\<exists>o1. observe_bytes huffman (seen a) = Some (Inr (None, o1))")
    case True
    then obtain o1 where o1: "observe_bytes huffman (seen a) = Some (Inr (None, o1))" by blast
    have fs: "fs = \<lparr> fs_observer = Some o1, fs_fingerprint = CaptureFailed capture_error.Incomplete \<rparr>" using assms o1 by (simp add: standing_def)
    have feed: "observer_feed huffman b o1 = observe_bytes huffman (seen (a @ b))" using observe_seen [of huffman a b] o1 by simp
    obtain r where r: "observe_bytes huffman (seen (a @ b)) = Some r" using observe_total by blast
    show ?thesis
      unfolding standing_def r fingerprint_read_def fs using False feed r
      by (auto split: sum.splits option.splits prod.splits)
  next
    case decided: False
    obtain r where r: "observe_bytes huffman (seen a) = Some r" using observe_total by blast
    have same: "verdict (observe_bytes huffman (seen (a @ b))) = verdict (observe_bytes huffman (seen a))"
      using observe_seen [of huffman a b] decided by (auto simp: r split: sum.splits option.splits prod.splits)
    obtain r' where r': "observe_bytes huffman (seen (a @ b)) = Some r'" using observe_total by blast
    have "standing huffman (a @ b) fs" "fs_observer fs = None"
      using assms same decided unfolding standing_def r r' by (auto split: sum.splits option.splits prod.splits)
    then show ?thesis by (simp add: fingerprint_read_def)
  qed
qed

lemma standing_read_all: "standing huffman a fs \<Longrightarrow> \<exists>fs'. read_all huffman chunks fs = Some fs' \<and> standing huffman (a @ concat chunks) fs'"
proof (induction chunks arbitrary: a fs)
  case (Cons c chunks)
  obtain fs1 where fs1: "fingerprint_read huffman c fs = Some fs1" "standing huffman (a @ c) fs1" using standing_read [OF Cons.prems] by blast
  from Cons.IH [OF fs1(2)] fs1(1) show ?case by simp
qed simp

lemma standing_unique: "standing huffman bytes fs \<Longrightarrow> standing huffman bytes fs' \<Longrightarrow> fs = fs'"
  by (auto simp: standing_def split: option.splits sum.splits prod.splits)

text \<open>C28. The HTTP/2 fingerprint depends on what a client sends and not on how it arrives. However the
  bytes of a connection are cut into reads, the observer never panics and ends in the state, and
  with the fingerprint, that one read of all of them gives.\<close>

theorem http2_observed_alike:
  "\<exists>fs. read_all huffman reads fingerprint_stream_new = Some fs \<and> fingerprint_read huffman (concat reads) fingerprint_stream_new = Some fs"
proof -
  from standing_read_all [OF standing_new, of huffman reads] obtain fs where
    fs: "read_all huffman reads fingerprint_stream_new = Some fs" "standing huffman (concat reads) fs" by auto
  from standing_read [OF standing_new, of huffman "concat reads"] obtain fs' where
    fs': "fingerprint_read huffman (concat reads) fingerprint_stream_new = Some fs'" "standing huffman (concat reads) fs'" by auto
  show ?thesis using fs(1) fs'(1) standing_unique [OF fs(2) fs'(2)] by simp
qed

section \<open>Integers\<close>

text \<open>The encoding of RFC 7541, section 5.1, with \<open>lead\<close> the bits above the prefix.\<close>

fun encode_rest :: "nat \<Rightarrow> byte list" where
  "encode_rest v = (if v < 128 then [of_nat v] else of_nat (v mod 128 + 128) # encode_rest (v div 128))"

declare encode_rest.simps [simp del]

definition encode_integer :: "nat \<Rightarrow> nat \<Rightarrow> nat \<Rightarrow> byte list" where
  "encode_integer n lead v =
     (let full = 2 ^ n - 1 in
      if v < full then [of_nat (lead * 2 ^ n + v)] else of_nat (lead * 2 ^ n + full) # encode_rest (v - full))"

lemma unat_small: "n < 256 \<Longrightarrow> unat (of_nat n :: byte) = n"
  by (simp add: unat_of_nat take_bit_eq_mod)

lemma cursor_byte_small: "n < 256 \<Longrightarrow> cursor_byte \<lparr> remaining = of_nat n # r \<rparr> = Inr (n, \<lparr> remaining = r \<rparr>)"
  by (simp add: cursor_byte_def cursor_take_def unat_small)

lemma integer_loop_reads:
  assumes "v + w * 2 ^ shift \<le> usize_max" "shift = 0 \<or> 0 < w"
  shows "integer_loop shift v \<lparr> remaining = encode_rest w @ r \<rparr> = Inr (v + w * 2 ^ shift, \<lparr> remaining = r \<rparr>)"
  using assms
proof (induction w arbitrary: v shift rule: encode_rest.induct)
  case (1 w)
  have room: "shift < 64"
  proof (rule ccontr)
    assume "\<not> shift < 64"
    then have "0 < w" using "1.prems"(2) by auto
    moreover have "(2 :: nat) ^ 64 \<le> 2 ^ shift" using \<open>\<not> shift < 64\<close> by (intro power_increasing) simp_all
    ultimately have "2 ^ 64 \<le> w * 2 ^ shift" using mult_le_mono [of 1 w "2 ^ 64" "2 ^ shift"] by simp
    then show False using "1.prems"(1) by (simp add: usize_max_def)
  qed
  show ?case
  proof (cases "w < 128")
    case True
    then show ?thesis
      using room "1.prems"(1) by (subst encode_rest.simps, subst integer_loop.simps) (simp add: cursor_byte_def cursor_take_def unat_small)
  next
    case False
    let ?low = "(w mod 128) * 2 ^ shift" and ?high = "(w div 128) * 2 ^ (shift + 7)"
    have split: "w * 2 ^ shift = ?low + ?high"
    proof -
      have "(m + 128 * q) * 2 ^ shift = m * 2 ^ shift + q * 2 ^ (shift + 7)" for m q :: nat by (simp add: power_add algebra_simps)
      from this [of "w mod 128" "w div 128"] show ?thesis by (simp only: mod_mult_div_eq)
    qed
    have small: "w mod 128 + 128 < 256" "(w mod 128 + 128) mod 128 = w mod 128" by simp_all
    have fits: "\<not> usize_max < ?low" "\<not> usize_max < v + ?low" "v + ?low + ?high \<le> usize_max" using "1.prems"(1) by (simp_all add: split)
    have "encode_rest w @ r = of_nat (w mod 128 + 128) # encode_rest (w div 128) @ r" using False by (subst encode_rest.simps) simp
    then have "integer_loop shift v \<lparr> remaining = encode_rest w @ r \<rparr> = integer_loop (shift + 7) (v + ?low) \<lparr> remaining = encode_rest (w div 128) @ r \<rparr>"
      using room fits cursor_byte_small [OF small(1), of "encode_rest (w div 128) @ r"] small(2)
      by (subst integer_loop.simps) (simp add: Let_def del: of_nat_add)
    also have "\<dots> = Inr (v + ?low + ?high, \<lparr> remaining = r \<rparr>)"
      by (rule "1.IH" [OF False fits(3)]) (use False in \<open>simp add: div_greater_zero_iff\<close>)
    finally show ?thesis by (simp add: split)
  qed
qed

text \<open>Integers of compressed headers read back. Whatever bits precede a prefix of \<open>n\<close> bits and whatever
  follows, decoding the standard encoding of any number that fits the machine gives the number and
  leaves the rest.\<close>

theorem hpack_integer_roundtrip:
  assumes "1 \<le> n" "n \<le> 8" "lead < 2 ^ (8 - n)" "v < 2 ^ 64"
  shows "decode_integer (2 ^ n - 1) \<lparr> remaining = encode_integer n lead v @ r \<rparr> = Inr (v, \<lparr> remaining = r \<rparr>)"
proof -
  have prefix: "and (lead * 2 ^ n + x) (2 ^ n - 1) = x" if "x < 2 ^ n" for x :: nat
  proof -
    have "and (lead * 2 ^ n + x) (2 ^ n - 1) = (lead * 2 ^ n + x) mod 2 ^ n" 
      unfolding take_bit_eq_mod [symmetric] take_bit_eq_mask mask_eq_exp_minus_1 by (rule refl)
    then show ?thesis using that by simp
  qed
  have byte: "lead * 2 ^ n + x < 256" if "x < 2 ^ n" for x
  proof -
    have "lead * 2 ^ n + x < (lead + 1) * 2 ^ n" using that by simp
    also have "\<dots> \<le> 2 ^ (8 - n) * 2 ^ n" using assms(3) by (intro mult_right_mono) simp_all
    also have "\<dots> = 2 ^ 8" using assms(2) by (simp flip: power_add)
    finally show ?thesis by simp
  qed
  have lead: "cursor_byte \<lparr> remaining = of_nat (lead * 2 ^ n + x) # t \<rparr> = Inr (lead * 2 ^ n + x, \<lparr> remaining = t \<rparr>)" if "x < 2 ^ n" for x t
    by (rule cursor_byte_small [OF byte [OF that]])
  show ?thesis
  proof (cases "v < 2 ^ n - 1")
    case True
    then have "v < 2 ^ n" by simp
    with True show ?thesis using lead [of v r] prefix [of v] by (simp add: encode_integer_def decode_integer_def Let_def del: of_nat_add of_nat_mult)
  next
    case False
    have full: "(2 :: nat) ^ n - 1 < 2 ^ n" by simp
    have "integer_loop 0 (2 ^ n - 1) \<lparr> remaining = encode_rest (v - (2 ^ n - 1)) @ r \<rparr> = Inr (v, \<lparr> remaining = r \<rparr>)"
      using integer_loop_reads [of "2 ^ n - 1" "v - (2 ^ n - 1)" 0 r] False assms(4) by (simp add: usize_max_def)
    then show ?thesis
      using False lead [OF full] prefix [OF full] by (simp add: encode_integer_def decode_integer_def Let_def del: of_nat_add of_nat_mult of_nat_diff)
  qed
qed

theorem hpack_integer_roundtrip_witness:
  "decode_integer (2 ^ 5 - 1) \<lparr> remaining = encode_integer 5 1 1337 @ [7] \<rparr> = Inr (1337, \<lparr> remaining = [7] \<rparr>)"
  by (rule hpack_integer_roundtrip) simp_all

end
