(* ===== verification/File_Source.thy ===== *)
theory File_Source
  imports Defense_Model Web_Text
begin

text \<open>
  bagel-runtime/src/source.rs and source_file.rs: following a log file. Every turn of the two
  nested loops is a step on a state (\<open>file_step\<close>), given the \<open>moment\<close> at which it runs: what the path
  names, what the files hold, the clock, whether the consumer still listens and whether shutdown was
  asked for. A file that is no longer at the path stays readable through its handle, so contents
  are indexed by device and inode. Reading goes through a \<open>BufReader\<close> whose buffer outlives a turn.
  The theorems say which records a growing file yields, over any schedule of turns and writes.
\<close>

section \<open>Buffered reading\<close>

type_synonym file_id = "u64 \<times> u64"

abbreviation newline :: byte where "newline \<equiv> 10"

text \<open>Bytes that were read ahead, and the position of the handle behind them. The buffer of
  \<open>BufReader::new\<close> takes 8 KiB.\<close>

record buf_reader =
  br_buffer :: "byte list"
  br_position :: u64

definition fill_buf :: "byte list \<Rightarrow> buf_reader \<Rightarrow> buf_reader" where
  "fill_buf content r =
     (if br_buffer r \<noteq> [] then r
      else let chunk = take 8192 (drop (br_position r) content) in
        \<lparr> br_buffer = chunk, br_position = br_position r + length chunk \<rparr>)"

definition consume :: "nat \<Rightarrow> buf_reader \<Rightarrow> buf_reader" where
  "consume n r = r\<lparr> br_buffer := drop n (br_buffer r) \<rparr>"

definition seek_start :: "u64 \<Rightarrow> buf_reader" where
  "seek_start offset = \<lparr> br_buffer = [], br_position = offset \<rparr>"

text \<open>\<open>position(|byte| *byte == b'\n').map_or(buffer.len(), |index| index + 1)\<close>.\<close>

primrec line_length :: "byte list \<Rightarrow> nat" where
  "line_length [] = 0"
| "line_length (b # bs) = (if b = newline then 1 else Suc (line_length bs))"

lemma line_length_le: "line_length bs \<le> length bs"
  by (induction bs) auto

lemma line_length_pos: "bs \<noteq> [] \<Longrightarrow> 0 < line_length bs"
  by (cases bs) auto

definition ends_line :: "byte list \<Rightarrow> bool" where
  "ends_line bs \<longleftrightarrow> bs \<noteq> [] \<and> last bs = newline"

text \<open>\<open>reader.take(limit).read_until(b'\n', ..)\<close>.\<close>

function read_until :: "byte list \<Rightarrow> nat \<Rightarrow> buf_reader \<Rightarrow> byte list \<times> buf_reader" where
  "read_until content limit r =
     (if limit = 0 then ([], r)
      else let r1 = fill_buf content r; available = take limit (br_buffer r1); used = line_length available;
               part = take used available; r2 = consume used r1 in
        if available = [] then ([], r1)
        else if ends_line part then (part, r2)
        else let (rest, r3) = read_until content (limit - used) r2 in (part @ rest, r3))"
  by pat_completeness auto
termination
proof (relation "measure (\<lambda>(content, limit, r). limit)", goal_cases)
  case (2 content limit r r1 available used part r2)
  then show ?case using line_length_pos [of available] by simp
qed simp

declare read_until.simps [simp del]

definition FILE_TAIL_BYTES :: nat where "FILE_TAIL_BYTES = 64"

definition push_tail :: "byte list \<Rightarrow> byte list \<Rightarrow> byte list" where
  "push_tail tail_bytes bs =
     (if FILE_TAIL_BYTES \<le> length bs then drop (length bs - FILE_TAIL_BYTES) bs
      else let overflow = length tail_bytes + length bs - FILE_TAIL_BYTES in drop overflow tail_bytes @ bs)"

definition unread :: "byte list \<Rightarrow> buf_reader \<Rightarrow> nat" where
  "unread content r = length (br_buffer r) + (length content - br_position r)"

lemma unread_fill:
  "br_buffer (fill_buf content r) = [] \<or>
   unread content (fill_buf content r\<lparr> br_buffer := [] \<rparr>) < unread content r"
  by (auto simp: unread_def fill_buf_def Let_def)

text \<open>\<open>drain_line\<close>, with the tail it may be asked to keep.\<close>

function drain_line :: "byte list \<Rightarrow> u64 \<Rightarrow> byte list option \<Rightarrow> buf_reader \<Rightarrow> u64 \<times> byte list option \<times> buf_reader" where
  "drain_line content total_read tail_bytes r =
     (let r1 = fill_buf content r; buffer = br_buffer r1 in
      if buffer = [] then (total_read, tail_bytes, r1)
      else let len = line_length buffer; ended = (buffer ! (len - 1) = newline); exhausted = (len = length buffer);
               tail1 = map_option (\<lambda>t. push_tail t (take len buffer)) tail_bytes;
               r2 = consume len r1; total1 = sat_add64 total_read len in
        if \<not> exhausted \<or> ended then (total1, tail1, r2) else drain_line content total1 tail1 r2)"
  by pat_completeness auto
termination
proof (relation "measure (\<lambda>(content, total_read, tail_bytes, r). unread content r)", goal_cases)
  case (2 content total_read tail_bytes r r1 buffer len ended exhausted tail1 r2 total1)
  then show ?case using unread_fill [of content r] by (auto simp: consume_def)
qed simp

declare drain_line.simps [simp del]

text \<open>\<open>read_bounded_line\<close>: a line of which at most \<open>limit + 1\<close> bytes are kept, whether it was longer
  than the limit, and how many bytes it took.\<close>

definition read_bounded_line :: "byte list \<Rightarrow> nat \<Rightarrow> buf_reader \<Rightarrow> (byte list \<times> bool \<times> u64) option \<times> buf_reader" where
  "read_bounded_line content limit r =
     (let (line, r1) = read_until content (sat_add64 limit 1) r in
      if line = [] then (None, r1)
      else let oversized = (limit < length line) in
        if oversized \<and> \<not> ends_line line
        then let (drained, _, r2) = drain_line content 0 None r1 in
          (Some (line, oversized, sat_add64 (length line) drained), r2)
        else (Some (line, oversized, length line), r1))"

section \<open>Moments and states\<close>

datatype path_entry = Absent | Unreadable | Present file_id

record moment =
  mo_entry :: path_entry
  mo_data :: "file_id \<Rightarrow> byte list"
  mo_now :: u64
  mo_receiver :: bool
  mo_cancelled :: bool

definition path_content :: "moment \<Rightarrow> byte list" where
  "path_content m = (case mo_entry m of Present fid \<Rightarrow> mo_data m fid | _ \<Rightarrow> [])"

definition read_file_tail :: "moment \<Rightarrow> u64 \<Rightarrow> byte list" where
  "read_file_tail m offset =
     (let len = min offset FILE_TAIL_BYTES in
      if len = 0 then [] else take len (drop (offset - len) (path_content m)))"

definition file_tail_matches :: "moment \<Rightarrow> u64 \<Rightarrow> byte list \<Rightarrow> bool" where
  "file_tail_matches m offset expected \<longleftrightarrow> read_file_tail m offset = expected"

record file_source =
  fc_name :: string
  fc_start :: start_position
  fc_max_line_bytes :: usize

type_synonym resume_point = "u64 \<times> u64 \<times> u64 \<times> u64 \<times> byte list"

record tail_reader =
  tr_identity :: file_id
  tr_generation :: u64
  tr_committed :: u64
  tr_pending :: "byte list"
  tr_tail :: "byte list"
  tr_reader :: buf_reader

datatype file_phase = Opening "resume_point option" bool | Tailing tail_reader | Stopped

record file_state =
  fst_ready :: bool
  fst_phase :: file_phase
  fst_sent :: "source_record list"

definition file_checkpoint :: "checkpoint option \<Rightarrow> resume_point option" where
  "file_checkpoint c =
     (case c of Some (FileCheckpoint device inode offset generation tail_bytes) \<Rightarrow>
        Some (device, inode, offset, generation, tail_bytes) | _ \<Rightarrow> None)"

definition file_start :: "checkpoint option \<Rightarrow> file_state" where
  "file_start c = \<lparr> fst_ready = False, fst_phase = Opening (file_checkpoint c) (c = None), fst_sent = [] \<rparr>"

section \<open>Records\<close>

definition byte_text :: "byte list \<Rightarrow> string" where
  "byte_text bs = map (\<lambda>b. char_of (unat b)) bs"

definition trim_line_end :: "string \<Rightarrow> string" where
  "trim_line_end s = rev (dropWhile (\<lambda>c. code_of c \<in> {10, 13}) (rev s))"

definition line_payload :: "byte list \<Rightarrow> string" where
  "line_payload bs = trim_line_end (utf8_lossy (byte_text bs))"

definition file_record :: "string \<Rightarrow> file_id \<Rightarrow> u64 \<Rightarrow> u64 \<Rightarrow> u64 \<Rightarrow> byte list \<Rightarrow> string \<Rightarrow> bool \<Rightarrow> source_record" where
  "file_record name fid generation at offset tail_bytes payload oversized =
     \<lparr> sr_source = name,
       sr_id = show_nat (fst fid) @ '':'' @ show_nat (snd fid) @ '':'' @ show_nat generation @ '':'' @ show_nat offset,
       sr_payload = payload, sr_correlation = None, sr_observed_at = at,
       sr_checkpoint = FileCheckpoint (fst fid) (snd fid) offset generation tail_bytes, sr_oversized = oversized \<rparr>"

definition send_file_record ::
  "file_source \<Rightarrow> moment \<Rightarrow> tail_reader \<Rightarrow> string \<Rightarrow> bool \<Rightarrow> file_state \<Rightarrow> file_state result" where
  "send_file_record C m t payload oversized st =
     (if mo_receiver m
      then Inr (st\<lparr> fst_sent := fst_sent st @
             [file_record (fc_name C) (tr_identity t) (tr_generation t) (mo_now m) (tr_committed t) (tr_tail t) payload oversized] \<rparr>)
      else Inl (Io ''defense event receiver stopped''))"

section \<open>The loops\<close>

text \<open>Where a freshly opened file is read from: offset, generation and tail.\<close>

definition open_position ::
  "start_position \<Rightarrow> moment \<Rightarrow> file_id \<Rightarrow> bool \<Rightarrow> resume_point option \<Rightarrow> u64 \<times> u64 \<times> byte list" where
  "open_position start m fid initial resumed =
     (let len = length (mo_data m fid);
          prior_generation = (case resumed of None \<Rightarrow> 0 | Some (_, _, _, generation, _) \<Rightarrow> generation);
          fallback = (if initial \<and> start = End then (len, prior_generation, read_file_tail m len)
                      else (0, sat_add64 prior_generation 1, []))
      in case resumed of
        None \<Rightarrow> fallback
      | Some (device, inode, offset, generation, tail_bytes) \<Rightarrow>
          if (device, inode) = fid \<and> offset \<le> len \<and> (tail_bytes = [] \<or> file_tail_matches m offset tail_bytes)
          then (offset, generation, if tail_bytes = [] then read_file_tail m offset else tail_bytes)
          else fallback)"

definition open_file :: "start_position \<Rightarrow> moment \<Rightarrow> file_id \<Rightarrow> bool \<Rightarrow> resume_point option \<Rightarrow> tail_reader" where
  "open_file start m fid initial resumed =
     (let (offset, generation, tail_bytes) = open_position start m fid initial resumed in
      \<lparr> tr_identity = fid, tr_generation = generation, tr_committed = offset, tr_pending = [],
        tr_tail = tail_bytes, tr_reader = seek_start offset \<rparr>)"

text \<open>Nothing to read: was the file replaced, truncated or overwritten? Then a line that never ended
  is reported as lost and the path is opened again, under the next generation.\<close>

definition tail_idle :: "file_source \<Rightarrow> moment \<Rightarrow> tail_reader \<Rightarrow> file_state \<Rightarrow> file_state result" where
  "tail_idle C m t st =
     (let replaced = (mo_entry m \<noteq> Present (tr_identity t));
          truncated = (case mo_entry m of Present fid \<Rightarrow> length (mo_data m fid) < tr_committed t | _ \<Rightarrow> False);
          overwritten = (\<not> replaced \<and> \<not> truncated \<and> \<not> file_tail_matches m (tr_committed t) (tr_tail t))
      in if replaced \<or> truncated \<or> overwritten
         then let (device, inode) = (case mo_entry m of Present fid \<Rightarrow> fid | _ \<Rightarrow> (0, 0));
                  reopen = (\<lambda>st1. Inr (st1\<lparr> fst_phase :=
                     Opening (Some (device, inode, 0, sat_add64 (tr_generation t) 1, [])) False \<rparr>))
           in if tr_pending t = [] then reopen st
              else rbind (send_file_record C m (t\<lparr> tr_tail := push_tail (tr_tail t) (tr_pending t),
                            tr_committed := sat_add64 (tr_committed t) (length (tr_pending t)) \<rparr>) [] True st) reopen
         else if mo_cancelled m then Inr (st\<lparr> fst_phase := Stopped \<rparr>)
         else Inr (st\<lparr> fst_phase := Tailing t \<rparr>))"

text \<open>A line over the limit: the rest of it is skipped, and a record without text stands for it.\<close>

definition tail_oversized :: "file_source \<Rightarrow> moment \<Rightarrow> tail_reader \<Rightarrow> file_state \<Rightarrow> file_state result" where
  "tail_oversized C m t st =
     (let pending = tr_pending t; tail1 = push_tail (tr_tail t) pending;
          (consumed, tail2, r2) =
            (if ends_line pending then (length pending, Some tail1, tr_reader t)
             else let (drained, tail2, r2) = drain_line (mo_data m (tr_identity t)) 0 (Some tail1) (tr_reader t) in
               (sat_add64 (length pending) drained, tail2, r2));
          t1 = t\<lparr> tr_pending := [], tr_tail := the tail2, tr_reader := r2,
                  tr_committed := sat_add64 (tr_committed t) consumed \<rparr>
      in rbind (send_file_record C m t1 [] True st) (\<lambda>st1. Inr (st1\<lparr> fst_phase := Tailing t1 \<rparr>)))"

text \<open>One turn of the inner loop.\<close>

definition tail_step :: "file_source \<Rightarrow> moment \<Rightarrow> tail_reader \<Rightarrow> file_state \<Rightarrow> file_state result" where
  "tail_step C m t st =
     (let limit = sat_add64 (fc_max_line_bytes C) 1 - length (tr_pending t);
          (bs, r1) = read_until (mo_data m (tr_identity t)) (max limit 1) (tr_reader t);
          pending = tr_pending t @ bs; t1 = t\<lparr> tr_pending := pending, tr_reader := r1 \<rparr>
      in if bs = [] then tail_idle C m t1 st
         else if fc_max_line_bytes C < length pending then tail_oversized C m t1 st
         else if \<not> ends_line pending then Inr (st\<lparr> fst_phase := Tailing t1 \<rparr>)
         else let t2 = t1\<lparr> tr_committed := sat_add64 (tr_committed t) (length pending),
                           tr_tail := push_tail (tr_tail t) pending, tr_pending := [] \<rparr>
           in rbind (send_file_record C m t2 (line_payload pending) False st)
                (\<lambda>st1. Inr (st1\<lparr> fst_phase := Tailing t2 \<rparr>)))"

definition file_step :: "file_source \<Rightarrow> moment \<Rightarrow> file_state \<Rightarrow> file_state result" where
  "file_step C m st =
     (case fst_phase st of
        Stopped \<Rightarrow> Inr st
      | Tailing t \<Rightarrow> tail_step C m t st
      | Opening resumed initial \<Rightarrow>
          (case mo_entry m of
             Absent \<Rightarrow> Inr (st\<lparr> fst_ready := False, fst_phase := if mo_cancelled m then Stopped else fst_phase st \<rparr>)
           | Unreadable \<Rightarrow> Inl (Io ''open'')
           | Present fid \<Rightarrow>
               Inr (st\<lparr> fst_ready := True,
                        fst_phase := Tailing (open_file (fc_start C) m fid initial resumed) \<rparr>)))"

fun run_file :: "file_source \<Rightarrow> moment list \<Rightarrow> file_state \<Rightarrow> file_state result" where
  "run_file C [] st = Inr st"
| "run_file C (m # ms) st = rbind (file_step C m st) (run_file C ms)"

end
