(* ===== verification/File_Theorems.thy ===== *)
theory File_Theorems
  imports File_Source "HOL-Library.Sublist"
begin

text \<open>
  What following a file yields. Buffered reading is reading at an offset; a file that only grows is
  reported line by line, once each, whatever the schedule; a restart from the checkpoint of a record
  goes on behind it; rotation drains the old file before the new one is read.
\<close>

section \<open>Lines\<close>

lemma line_length_take: "line_length (take k bs) = min k (line_length bs)"
  by (induction bs arbitrary: k) (auto simp: take_Cons')

lemma line_length_no_newline: "newline \<notin> set bs \<Longrightarrow> line_length bs = length bs"
  by (induction bs) auto

lemma line_length_append:
  "line_length (as @ bs) = (if newline \<in> set as then line_length as else length as + line_length bs)"
  by (induction as) auto

lemma ends_line_take:
  "n \<le> line_length bs \<Longrightarrow> ends_line (take n bs) \<longleftrightarrow> newline \<in> set bs \<and> n = line_length bs"
proof (induction bs arbitrary: n)
  case (Cons b bs)
  then show ?case
    using line_length_pos [of bs] by (cases n) (auto simp: ends_line_def split: if_splits)
qed (simp add: ends_line_def)

lemma newline_take_line: "n < line_length bs \<Longrightarrow> newline \<notin> set (take n bs)"
proof (induction bs arbitrary: n)
  case (Cons b bs)
  then show ?case by (cases n) (auto split: if_splits)
qed simp

section \<open>Buffered reading is reading at an offset\<close>

definition reader_at :: "byte list \<Rightarrow> nat \<Rightarrow> buf_reader \<Rightarrow> bool" where
  "reader_at content off r \<longleftrightarrow>
     br_position r = off + length (br_buffer r) \<and> br_position r \<le> length content \<and>
     take (length (br_buffer r)) (drop off content) = br_buffer r"

lemma reader_at_seek: "off \<le> length content \<Longrightarrow> reader_at content off (seek_start off)"
  by (simp add: reader_at_def seek_start_def)

lemma reader_at_grow: "reader_at content off r \<Longrightarrow> prefix content content' \<Longrightarrow> reader_at content' off r"
  by (auto simp: reader_at_def prefix_def)

lemma reader_at_fill:
  assumes "reader_at content off r"
  shows "reader_at content off (fill_buf content r)"
    and "br_buffer (fill_buf content r) = [] \<longleftrightarrow> off = length content"
  using assms by (auto simp: reader_at_def fill_buf_def Let_def min_def)

lemma reader_at_consume:
  assumes "reader_at content off r" "n \<le> length (br_buffer r)"
  shows "reader_at content (off + n) (consume n r)"
proof -
  have "take (length (br_buffer r) - n) (drop n (drop off content)) = drop n (br_buffer r)"
    using assms(1) by (metis drop_take reader_at_def)
  then show ?thesis using assms by (simp add: reader_at_def consume_def add.commute)
qed

lemma reader_at_buffer:
  assumes "reader_at content off r" "n \<le> length (br_buffer r)"
  shows "take n (br_buffer r) = take n (drop off content)"
proof -
  have "take n (br_buffer r) = take n (take (length (br_buffer r)) (drop off content))"
    using assms(1) by (simp add: reader_at_def)
  then show ?thesis using assms(2) by (simp add: min_absorb1)
qed

lemma read_until_at:
  assumes "reader_at content off r"
  shows "\<exists>r'. read_until content limit r = (take (line_length (take limit (drop off content))) (drop off content), r') \<and>
     reader_at content (off + line_length (take limit (drop off content))) r'"
  using assms
proof (induction limit arbitrary: off r rule: less_induct)
  case (less limit)
  let ?rest = "drop off content"
  define r1 where "r1 = fill_buf content r"
  define available where "available = take limit (br_buffer r1)"
  define used where "used = line_length available"
  have at1: "reader_at content off r1" using reader_at_fill(1) [OF less.prems] by (simp add: r1_def)
  have used_le: "used \<le> limit" "used \<le> length (br_buffer r1)"
    using line_length_le [of available] by (auto simp: used_def available_def)
  have part: "take used available = take used ?rest"
    using reader_at_buffer [OF at1] used_le by (simp add: available_def min_absorb1)
  have "available = take (length available) (br_buffer r1)" by (simp add: available_def min_def)
  then have avail: "available = take (length available) ?rest"
    using reader_at_buffer [OF at1, of "length available"] by (metis available_def length_take min.cobounded1)
  have used: "used = min (length available) (line_length ?rest)"
    by (metis avail line_length_take used_def)
  have at2: "reader_at content (off + used) (consume used r1)" by (rule reader_at_consume [OF at1 used_le(2)])
  show ?case
  proof (cases "limit = 0")
    case True
    then show ?thesis using less.prems by (simp add: read_until.simps [of content 0 r])
  next
    case pos: False
    show ?thesis
    proof (cases "available = []")
      case True
      then have "?rest = []" using pos reader_at_fill(2) [OF less.prems] by (simp add: available_def r1_def)
      moreover have "br_buffer r1 = []" using True pos by (simp add: available_def)
      ultimately show ?thesis using True pos at1
        by (simp add: read_until.simps [of content limit r] r1_def [symmetric] available_def [symmetric] Let_def)
    next
      case nonempty: False
      have step: "read_until content limit r =
          (if ends_line (take used ?rest) then (take used ?rest, consume used r1)
           else let (rest, r3) = read_until content (limit - used) (consume used r1) in (take used ?rest @ rest, r3))"
        by (subst read_until.simps)
           (simp only: Let_def r1_def [symmetric] available_def [symmetric] used_def [symmetric] part pos nonempty if_False)
      show ?thesis
      proof (cases "ends_line (take used ?rest)")
        case True
        then have "used = line_length ?rest" using used by (simp add: ends_line_take)
        then have "line_length (take limit ?rest) = used" using used_le by (simp add: line_length_take)
        then show ?thesis using step True at2 by simp
      next
        case False
        then have no_nl: "newline \<notin> set (take used ?rest)"
        proof (cases "used < line_length ?rest")
          case False
          then have "used = line_length ?rest" using used by simp
          then show ?thesis using \<open>\<not> ends_line (take used ?rest)\<close> in_set_takeD
            by (metis dual_order.refl ends_line_take)
        qed (rule newline_take_line)
        have split: "take limit ?rest = take used ?rest @ take (limit - used) (drop (off + used) content)"
          using used_le(1) by (metis add.commute drop_drop le_add_diff_inverse take_add)
        have "length (take used ?rest) = used" by (metis avail part length_take line_length_le min.absorb2 used_def)
        then have total: "line_length (take limit ?rest) = used + line_length (take (limit - used) (drop (off + used) content))"
          using no_nl by (simp add: split line_length_append)
        have "0 < used" using nonempty by (simp add: used_def line_length_pos)
        then have "limit - used < limit" using pos by simp
        from less.IH [OF this at2] obtain r' where
          r': "read_until content (limit - used) (consume used r1) =
             (take (line_length (take (limit - used) (drop (off + used) content))) (drop (off + used) content), r')"
             "reader_at content (off + used + line_length (take (limit - used) (drop (off + used) content))) r'" by blast
        have "take (line_length (take limit ?rest)) ?rest =
            take used ?rest @ take (line_length (take (limit - used) (drop (off + used) content))) (drop (off + used) content)"
          by (simp add: total take_add add.commute)
        then show ?thesis using step False r' by (simp add: total add.assoc)
      qed
    qed
  qed
qed

section \<open>The tail kept for recognition\<close>

definition last_bytes :: "byte list \<Rightarrow> byte list" where
  "last_bytes bs = drop (length bs - FILE_TAIL_BYTES) bs"

lemma push_tail_last: "push_tail (last_bytes p) bs = last_bytes (p @ bs)"
proof (cases "length p \<le> FILE_TAIL_BYTES")
  case False
  then show ?thesis
    by (auto simp: push_tail_def last_bytes_def FILE_TAIL_BYTES_def Let_def intro!: arg_cong2 [where f = drop])
qed (auto simp: push_tail_def last_bytes_def FILE_TAIL_BYTES_def Let_def)

lemma read_file_tail_at:
  assumes "mo_entry m = Present fid" "off \<le> length (mo_data m fid)"
  shows "read_file_tail m off = last_bytes (take off (mo_data m fid))"
  using assms by (auto simp: read_file_tail_def path_content_def last_bytes_def FILE_TAIL_BYTES_def Let_def drop_take min_def)

lemma sat_add64_exact: "a + b \<le> u64_max \<Longrightarrow> sat_add64 a b = a + b"
  by (simp add: sat_add64_def)

lemma drain_line_at:
  assumes "reader_at content off r" "total_read + length (drop off content) \<le> u64_max"
    "tail_bytes = None \<or> tail_bytes = Some (last_bytes (p @ take off content))"
  shows "\<exists>r'. drain_line content total_read tail_bytes r =
      (total_read + line_length (drop off content),
       map_option (\<lambda>_. last_bytes (p @ take (off + line_length (drop off content)) content)) tail_bytes, r') \<and>
     reader_at content (off + line_length (drop off content)) r'"
  using assms
proof (induction content total_read tail_bytes r arbitrary: off rule: drain_line.induct)
  case (1 content total_read tail_bytes r)
  let ?rest = "drop off content"
  define r1 where "r1 = fill_buf content r"
  define buffer where "buffer = br_buffer r1"
  define len where "len = line_length buffer"
  have at1: "reader_at content off r1" using reader_at_fill(1) [OF "1.prems"(1)] by (simp add: r1_def)
  have len_le: "len \<le> length buffer" by (simp add: len_def line_length_le)
  have buffer: "buffer = take (length buffer) ?rest" using at1 by (simp add: reader_at_def buffer_def)
  have len: "len = min (length buffer) (line_length ?rest)" by (metis buffer len_def line_length_take)
  have part: "take len buffer = take len ?rest"
    using reader_at_buffer [OF at1] len_le by (simp add: buffer_def)
  have at2: "reader_at content (off + len) (consume len r1)"
    using reader_at_consume [OF at1] len_le by (simp add: buffer_def)
  define tail1 where "tail1 = map_option (\<lambda>t. push_tail t (take len buffer)) tail_bytes"
  have tail1: "tail1 = map_option (\<lambda>_. last_bytes (p @ take (off + len) content)) tail_bytes"
    using "1.prems"(3) by (auto simp: tail1_def part push_tail_last take_add)
  show ?case
  proof (cases "buffer = []")
    case True
    then have "?rest = []" using reader_at_fill(2) [OF "1.prems"(1)] by (simp add: buffer_def r1_def)
    then show ?thesis using True at1 "1.prems"(3)
      by (subst drain_line.simps) (auto simp: Let_def r1_def [symmetric] buffer_def [symmetric])
  next
    case False
    have pos: "0 < len" using False by (simp add: len_def line_length_pos)
    have len_rest: "len \<le> length ?rest" using len line_length_le [of ?rest] by simp
    have sat: "sat_add64 total_read len = total_read + len"
      using "1.prems"(2) len_rest by (simp add: sat_add64_exact)
    have ended: "buffer ! (len - 1) = newline \<longleftrightarrow> ends_line (take len ?rest)"
      using pos len_le False last_conv_nth [of "take len buffer"] by (simp add: ends_line_def part [symmetric] min_absorb2)
    have step: "drain_line content total_read tail_bytes r =
        (if len \<noteq> length buffer \<or> ends_line (take len ?rest) then (total_read + len, tail1, consume len r1)
         else drain_line content (total_read + len) tail1 (consume len r1))"
      by (subst drain_line.simps)
         (simp only: Let_def r1_def [symmetric] buffer_def [symmetric] len_def [symmetric] tail1_def [symmetric] sat
            ended False if_False)
    show ?thesis
    proof (cases "len \<noteq> length buffer \<or> ends_line (take len ?rest)")
      case True
      then have "len = line_length ?rest" using len by (auto simp: ends_line_take)
      then show ?thesis using step True at2 tail1 by simp
    next
      case more_lines: False
      have no_nl: "newline \<notin> set (take len ?rest)"
        using more_lines len newline_take_line [of len ?rest] ends_line_take [of len ?rest] in_set_takeD [of newline len ?rest]
        by (metis le_neq_implies_less min.cobounded2)
      have "?rest = take len ?rest @ drop (off + len) content" by (simp add: add.commute flip: drop_drop)
      then have total: "line_length ?rest = len + line_length (drop (off + len) content)"
        using no_nl len_rest line_length_append [of "take len ?rest" "drop (off + len) content"] by simp
      have bound: "total_read + len + length (drop (off + len) content) \<le> u64_max"
        using "1.prems"(2) len_rest by simp
      have tails: "tail1 = None \<or> tail1 = Some (last_bytes (p @ take (off + len) content))"
        using "1.prems"(3) by (auto simp: tail1)
      have IH: "\<exists>r'. drain_line content (total_read + len) tail1 (consume len r1) =
          (total_read + len + line_length (drop (off + len) content),
           map_option (\<lambda>_. last_bytes (p @ take (off + len + line_length (drop (off + len) content)) content)) tail1, r') \<and>
         reader_at content (off + len + line_length (drop (off + len) content)) r'"
        using "1.IH" [OF r1_def buffer_def False len_def refl refl tail1_def refl refl _ at2] more_lines ended sat bound tails by simp
      have "map_option (\<lambda>_. x) tail1 = map_option (\<lambda>_. x) tail_bytes" for x :: "byte list"
        by (cases tail_bytes) (simp_all add: tail1)
      then show ?thesis using step more_lines IH by (simp add: total add.assoc)
    qed
  qed
qed

section \<open>What a file should yield\<close>

text \<open>The complete lines of a text, and one record for each: numbered by the offset behind the line,
  with the checkpoint that resumes there. Clock readings are set aside by \<open>unstamped\<close>.\<close>

function complete_lines :: "byte list \<Rightarrow> byte list list" where
  "complete_lines bs =
     (if newline \<in> set bs then take (line_length bs) bs # complete_lines (drop (line_length bs) bs) else [])"
  by pat_completeness auto
termination
proof (relation "measure length", goal_cases)
  case (2 bs)
  then show ?case using line_length_pos [of bs] by (cases bs) auto
qed simp

declare complete_lines.simps [simp del]

fun line_records :: "string \<Rightarrow> file_id \<Rightarrow> u64 \<Rightarrow> byte list \<Rightarrow> byte list list \<Rightarrow> source_record list" where
  "line_records name fid generation before [] = []"
| "line_records name fid generation before (l # ls) =
     file_record name fid generation 0 (length (before @ l)) (last_bytes (before @ l)) (line_payload l) False
       # line_records name fid generation (before @ l) ls"

definition unstamped :: "source_record \<Rightarrow> source_record" where
  "unstamped r = r\<lparr> sr_observed_at := 0 \<rparr>"

lemma unstamped_file_record [simp]:
  "unstamped (file_record name fid generation at off kept payload big) = file_record name fid generation 0 off kept payload big"
  by (simp add: unstamped_def file_record_def)

lemma line_records_append:
  "line_records name fid generation before (xs @ ys) =
   line_records name fid generation before xs @ line_records name fid generation (before @ concat xs) ys"
  by (induction xs arbitrary: before) simp_all

lemma length_line_records [simp]: "length (line_records name fid generation before ls) = length ls"
  by (induction ls arbitrary: before) simp_all

lemma complete_lines_prefix: "prefix (concat (complete_lines bs)) bs"
proof (induction bs rule: complete_lines.induct)
  case (1 bs)
  show ?case
  proof (cases "newline \<in> set bs")
    case True
    then have "prefix (concat (complete_lines (drop (line_length bs) bs))) (drop (line_length bs) bs)" by (rule 1)
    then have "prefix (take (line_length bs) bs @ concat (complete_lines (drop (line_length bs) bs)))
        (take (line_length bs) bs @ drop (line_length bs) bs)" by (simp only: same_prefix_prefix)
    then show ?thesis using True by (subst complete_lines.simps) simp
  qed (simp add: complete_lines.simps)
qed

section \<open>One turn\<close>

text \<open>A reader in step with a file: where it stands, what it holds of the line under way, and the
  tail of what it has reported.\<close>

definition following :: "file_id \<Rightarrow> u64 \<Rightarrow> byte list \<Rightarrow> nat \<Rightarrow> tail_reader \<Rightarrow> bool" where
  "following fid generation content c t \<longleftrightarrow>
     tr_identity t = fid \<and> tr_generation t = generation \<and> tr_committed t = c \<and>
     reader_at content (c + length (tr_pending t)) (tr_reader t) \<and>
     tr_pending t = take (length (tr_pending t)) (drop c content) \<and> newline \<notin> set (tr_pending t) \<and>
     tr_tail t = last_bytes (take c content)"

definition in_step :: "file_id \<Rightarrow> u64 \<Rightarrow> byte list \<Rightarrow> nat \<Rightarrow> file_state \<Rightarrow> bool" where
  "in_step fid generation content c st \<longleftrightarrow>
     (case fst_phase st of Tailing t \<Rightarrow> following fid generation content c t | _ \<Rightarrow> False)"

lemma following_le:
  assumes "following fid generation content c t"
  shows "c + length (tr_pending t) \<le> length content"
  using assms by (auto simp: following_def reader_at_def)

lemma following_grow:
  assumes "following fid generation content c t" "prefix content content'"
  shows "following fid generation content' c t"
proof -
  obtain extra where content': "content' = content @ extra" using assms(2) by (auto simp: prefix_def)
  have "c \<le> length content" "length (tr_pending t) \<le> length content - c" using following_le [OF assms(1)] by simp_all
  then show ?thesis using assms by (auto simp: following_def content' intro: reader_at_grow)
qed

text \<open>The bytes one turn reads, when no line exceeds the limit: the rest of the line.\<close>

lemma turn_reads:
  assumes t: "following fid generation content c t" and short: "line_length (drop c content) \<le> limit" "limit \<le> u64_max"
  shows "\<exists>r'. read_until content (max (sat_add64 limit 1 - length (tr_pending t)) 1) (tr_reader t) =
       (drop (length (tr_pending t)) (take (line_length (drop c content)) (drop c content)), r') \<and>
     reader_at content (c + line_length (drop c content)) r'"
    (is "\<exists>r'. read_until _ ?max _ = _ \<and> _")
proof -
  let ?p = "length (tr_pending t)" and ?rest = "drop c content"
  have at_off: "reader_at content (c + ?p) (tr_reader t)" and pending: "tr_pending t = take ?p ?rest"
    and no_nl: "newline \<notin> set (tr_pending t)" using t by (simp_all add: following_def)
  have split: "?rest = tr_pending t @ drop (c + ?p) content"
    using pending by (metis add.commute append_take_drop_id drop_drop)
  then have line: "line_length ?rest = ?p + line_length (drop (c + ?p) content)"
    using no_nl line_length_append [of "tr_pending t"] by metis
  have "limit \<le> sat_add64 limit 1" using short(2) by (simp add: sat_add64_def)
  then have "line_length (drop (c + ?p) content) \<le> ?max" using short line by simp
  then have taken: "line_length (take ?max (drop (c + ?p) content)) = line_length (drop (c + ?p) content)"
    by (simp add: line_length_take)
  have "drop ?p (take (line_length ?rest) ?rest) = take (line_length (drop (c + ?p) content)) (drop (c + ?p) content)"
    by (simp add: line drop_take add.commute)
  then show ?thesis using read_until_at [OF at_off, of ?max] taken by (simp add: line add.assoc)
qed

lemma last_bytes_push:
  "c + n \<le> length content \<Longrightarrow> push_tail (last_bytes (take c content)) (take n (drop c content)) = last_bytes (take (c + n) content)"
  by (simp add: push_tail_last take_add)

lemma turn_line:
  assumes st: "in_step fid generation content0 c st" "prefix content0 (mo_data m fid)" and "mo_receiver m"
    and nl: "newline \<in> set (drop c (mo_data m fid))"
    and short: "line_length (drop c (mo_data m fid)) \<le> fc_max_line_bytes C" "fc_max_line_bytes C \<le> u64_max"
      "length (mo_data m fid) \<le> u64_max"
  shows "\<exists>st'. file_step C m st = Inr st' \<and>
     in_step fid generation (mo_data m fid) (c + line_length (drop c (mo_data m fid))) st' \<and>
     map unstamped (fst_sent st') = map unstamped (fst_sent st) @
       [file_record (fc_name C) fid generation 0 (c + line_length (drop c (mo_data m fid)))
          (last_bytes (take (c + line_length (drop c (mo_data m fid))) (mo_data m fid)))
          (line_payload (take (line_length (drop c (mo_data m fid))) (drop c (mo_data m fid)))) False]"
proof -
  define content where "content = mo_data m fid"
  define len where "len = line_length (drop c content)"
  obtain t where phase: "fst_phase st = Tailing t" and "following fid generation content0 c t"
    using st(1) by (auto simp: in_step_def split: file_phase.splits)
  then have t: "following fid generation content c t" using following_grow st(2) by (simp add: content_def)
  define pending where "pending = tr_pending t"
  obtain r' where r': "read_until content (max (sat_add64 (fc_max_line_bytes C) 1 - length pending) 1) (tr_reader t) =
      (drop (length pending) (take len (drop c content)), r')" "reader_at content (c + len) r'"
    using turn_reads [OF t] short by (auto simp: content_def len_def pending_def)
  have p: "pending = take (length pending) (drop c content)" "newline \<notin> set pending"
    using t by (simp_all add: following_def pending_def)
  have len_le: "len \<le> length (drop c content)" unfolding len_def by (rule line_length_le)
  have "\<not> len \<le> length pending"
  proof
    assume "len \<le> length pending"
    then have "take len (drop c content) = take len pending"
      using arg_cong [OF p(1), of "take len"] by (simp add: min_absorb1)
    moreover have "ends_line (take len (drop c content))"
      using nl ends_line_take [of len "drop c content"] by (simp add: content_def len_def)
    ultimately have "newline \<in> set (take len pending)"
      using last_in_set [of "take len pending"] by (simp add: ends_line_def)
    then show False using p(2) in_set_takeD by fast
  qed
  then have longer: "length pending < len" by simp
  have "take (length pending) (take len (drop c content)) = take (length pending) (drop c content)"
    using longer by (simp add: min_absorb1)
  then have whole: "pending @ drop (length pending) (take len (drop c content)) = take len (drop c content)"
    using p(1) append_take_drop_id [of "length pending" "take len (drop c content)"] by argo
  have read: "drop (length pending) (take len (drop c content)) \<noteq> []" using longer len_le by simp
  have ends: "ends_line (take len (drop c content))"
    using nl ends_line_take [of len "drop c content"] by (simp add: content_def len_def)
  have cl: "c + len \<le> length content" using len_le \<open>length pending < len\<close> by simp
  have fits: "length (take len (drop c content)) = len" using len_le by simp
  have sat: "sat_add64 (tr_committed t) len = c + len"
    using t cl short(3) by (simp add: following_def sat_add64_exact content_def)
  have tl': "push_tail (tr_tail t) (take len (drop c content)) = last_bytes (take (c + len) content)"
    using t cl by (simp add: following_def last_bytes_push)
  define t2 where "t2 = t\<lparr> tr_reader := r', tr_committed := c + len, tr_tail := last_bytes (take (c + len) content), tr_pending := [] \<rparr>"
  have idn: "tr_identity t = fid" "tr_generation t = generation" using t by (simp_all add: following_def)
  have "file_step C m st = rbind (send_file_record C m t2 (line_payload (take len (drop c content))) False st)
       (\<lambda>st1. Inr (st1\<lparr> fst_phase := Tailing t2 \<rparr>))"
    using short(1) read ends fits
    by (simp add: file_step_def phase tail_step_def Let_def idn r'(1) whole tl' sat t2_def len_def [symmetric]
          pending_def [symmetric] content_def [symmetric] del: drop_eq_Nil append_take_drop_id length_take One_nat_def)
  moreover have "following fid generation content (c + len) t2"
    using r'(2) idn by (simp add: t2_def following_def)
  ultimately show ?thesis using \<open>mo_receiver m\<close> idn
    by (simp add: send_file_record_def in_step_def len_def [symmetric] content_def [symmetric])
       (simp add: t2_def)
qed

lemma turn_wait:
  assumes st: "in_step fid generation content0 c st" "prefix content0 (mo_data m fid)"
    and m: "mo_entry m = Present fid" "\<not> mo_cancelled m" and no_nl: "newline \<notin> set (drop c (mo_data m fid))"
    and short: "line_length (drop c (mo_data m fid)) \<le> fc_max_line_bytes C" "fc_max_line_bytes C \<le> u64_max"
  shows "\<exists>st'. file_step C m st = Inr st' \<and> in_step fid generation (mo_data m fid) c st' \<and> fst_sent st' = fst_sent st"
proof -
  define content where "content = mo_data m fid"
  define rest where "rest = drop c content"
  obtain t where phase: "fst_phase st = Tailing t" and "following fid generation content0 c t"
    using st(1) by (auto simp: in_step_def split: file_phase.splits)
  then have t: "following fid generation content c t" using following_grow st(2) by (simp add: content_def)
  define pending where "pending = tr_pending t"
  have len: "line_length rest = length rest" using no_nl by (simp add: rest_def content_def line_length_no_newline)
  then obtain r' where r': "read_until content (max (sat_add64 (fc_max_line_bytes C) 1 - length pending) 1) (tr_reader t) =
      (drop (length pending) rest, r')" "reader_at content (c + length rest) r'"
    using turn_reads [OF t] short by (auto simp: content_def rest_def pending_def)
  have p: "pending = take (length pending) rest" using t by (simp add: following_def pending_def rest_def)
  then have whole: "pending @ drop (length pending) rest = rest" by (metis append_take_drop_id)
  have complete: "pending = rest" if "length rest \<le> length pending" using p that by (metis take_all)
  have idn: "tr_identity t = fid" "tr_generation t = generation" "tr_committed t = c" "tr_tail t = last_bytes (take c content)"
    using t by (simp_all add: following_def)
  define t1 where "t1 = t\<lparr> tr_pending := rest, tr_reader := r' \<rparr>"
  have eq: "t\<lparr> tr_pending := rest, tr_reader := r' \<rparr> = t1" by (simp add: t1_def)
  have same: "t\<lparr> tr_pending := pending, tr_reader := r' \<rparr> = t1" if "length rest \<le> length pending"
    using complete [OF that] eq by simp
  have t1: "following fid generation content c t1"
    using r'(2) idn no_nl by (simp add: t1_def following_def rest_def content_def)
  have c_le: "c \<le> length content" using following_le [OF t] by simp
  have entry: "mo_entry m = Present fid" and here: "mo_data m fid = content" using m(1) by (simp_all add: content_def)
  have "newline \<notin> set rest" using no_nl by (simp add: rest_def content_def)
  then have "\<not> ends_line rest" by (metis ends_line_def last_in_set)
  moreover have "file_tail_matches m c (last_bytes (take c content))"
    using m(1) c_le by (simp add: file_tail_matches_def read_file_tail_at content_def)
  ultimately have "file_step C m st = Inr (st\<lparr> fst_phase := Tailing t1 \<rparr>)"
    using short(1) m(2) len c_le entry
    by (simp add: file_step_def phase tail_step_def tail_idle_def Let_def idn r'(1) whole eq
          pending_def [symmetric] here rest_def [symmetric] del: One_nat_def)
       (auto simp: same)
  then show ?thesis using t1 by (simp add: in_step_def content_def)
qed

section \<open>Runs\<close>

lemma run_file_append: "run_file C (ms @ ms') st = rbind (run_file C ms st) (run_file C ms')"
  by (induction ms arbitrary: st) (simp_all, metis rbind.simps sum.exhaust)

text \<open>Turns during which the file stays at the path and is only appended to, while the consumer
  listens and nobody asks for shutdown.\<close>

fun appending :: "file_id \<Rightarrow> byte list \<Rightarrow> moment list \<Rightarrow> bool" where
  "appending fid content [] \<longleftrightarrow> True"
| "appending fid content (m # ms) \<longleftrightarrow>
     mo_entry m = Present fid \<and> mo_receiver m \<and> \<not> mo_cancelled m \<and>
     prefix content (mo_data m fid) \<and> appending fid (mo_data m fid) ms"

fun content_after :: "file_id \<Rightarrow> byte list \<Rightarrow> moment list \<Rightarrow> byte list" where
  "content_after fid content [] = content"
| "content_after fid content (m # ms) = content_after fid (mo_data m fid) ms"

lemma appending_prefix: "appending fid content ms \<Longrightarrow> prefix content (content_after fid content ms)"
  by (induction ms arbitrary: content) (auto intro: prefix_order.trans)

text \<open>No line is longer than the limit, its newline included, and offsets stay within 64 bits.\<close>

definition short_lines :: "file_source \<Rightarrow> byte list \<Rightarrow> bool" where
  "short_lines C content \<longleftrightarrow>
     (\<forall>l \<in> set (split_on newline content). length l < fc_max_line_bytes C) \<and>
     fc_max_line_bytes C \<le> u64_max \<and> length content \<le> u64_max"

lemma line_length_split: "line_length bs \<le> Suc (length (hd (split_on newline bs)))"
  by (induction bs) (auto split: list.splits)

lemma split_on_boundary:
  assumes "ends_line as \<or> as = []"
  shows "set (split_on newline bs) \<subseteq> set (split_on newline (as @ bs))"
proof (cases "as = []")
  case False
  then have "as @ bs = butlast as @ newline # bs" using assms by (auto simp: ends_line_def) (metis append.assoc append_Cons append_Nil append_butlast_last_id)
  then have "split_on newline (as @ bs) = split_on newline (butlast as) @ split_on newline bs"
    by (simp only: split_on_append)
  then show ?thesis by simp
qed simp

lemma short_line_at:
  assumes "short_lines C content" "ends_line (take c content) \<or> take c content = []"
  shows "line_length (drop c content) \<le> fc_max_line_bytes C"
proof -
  have "hd (split_on newline (drop c content)) \<in> set (split_on newline (drop c content))" by simp
  also have "\<dots> \<subseteq> set (split_on newline content)" using split_on_boundary [OF assms(2), of "drop c content"] by simp
  finally have "length (hd (split_on newline (drop c content))) < fc_max_line_bytes C"
    using assms(1) by (simp add: short_lines_def)
  then show ?thesis using line_length_split [of "drop c content"] by simp
qed

lemma line_length_mono: "prefix as bs \<Longrightarrow> line_length as \<le> line_length bs"
  using line_length_no_newline [of as] by (auto simp: prefix_def line_length_append)

text \<open>A position behind a line.\<close>

definition boundary :: "byte list \<Rightarrow> nat \<Rightarrow> bool" where
  "boundary content c \<longleftrightarrow> c \<le> length content \<and> (c = 0 \<or> ends_line (take c content))"

lemma boundary_grow: "boundary content c \<Longrightarrow> prefix content content' \<Longrightarrow> boundary content' c"
  by (auto simp: boundary_def prefix_def)

lemma boundary_next:
  assumes "newline \<in> set (drop c content)" "c \<le> length content"
  shows "boundary content (c + line_length (drop c content))"
proof -
  let ?l = "take (line_length (drop c content)) (drop c content)"
  have "ends_line ?l" using assms(1) by (simp add: ends_line_take)
  moreover have "take (c + line_length (drop c content)) content = take c content @ ?l" by (simp add: take_add)
  ultimately show ?thesis using assms(2) line_length_le [of "drop c content"] by (simp add: boundary_def ends_line_def)
qed

lemma complete_lines_grow:
  assumes "newline \<in> set rest" "prefix rest full"
  shows "complete_lines full = take (line_length rest) rest # complete_lines (drop (line_length rest) full)"
proof -
  obtain extra where full: "full = rest @ extra" using assms(2) by (auto simp: prefix_def)
  have "line_length full = line_length rest" using assms(1) by (simp add: full line_length_append)
  moreover have "newline \<in> set full" using assms(1) by (simp add: full)
  ultimately show ?thesis using line_length_le [of rest] by (subst complete_lines.simps) (simp add: full)
qed

text \<open>What a turn does to a file that grew: it reports the next line if there is one.\<close>

lemma turn:
  assumes st: "in_step fid generation content c st" and m: "appending fid content (m # ms)"
    and full: "prefix (mo_data m fid) full" "short_lines C full" and c: "boundary content c"
  shows "\<exists>st' n. file_step C m st = Inr st' \<and> n \<le> length (complete_lines (drop c full)) \<and>
     in_step fid generation (mo_data m fid) (c + length (concat (take n (complete_lines (drop c full))))) st' \<and>
     boundary (mo_data m fid) (c + length (concat (take n (complete_lines (drop c full))))) \<and>
     map unstamped (fst_sent st') = map unstamped (fst_sent st) @
       line_records (fc_name C) fid generation (take c full) (take n (complete_lines (drop c full))) \<and>
     n = (if newline \<in> set (drop c (mo_data m fid)) then 1 else 0)"
proof -
  define now where "now = mo_data m fid"
  have grow: "prefix content now" and entry: "mo_entry m = Present fid" "mo_receiver m" "\<not> mo_cancelled m"
    using m by (simp_all add: now_def)
  have c': "boundary now c" by (rule boundary_grow [OF c grow])
  then have c_le: "c \<le> length now" by (simp add: boundary_def)
  have full': "prefix now full" using full(1) by (simp add: now_def)
  have rest: "prefix (drop c now) (drop c full)" using full' c_le by (auto simp: prefix_def)
  have "boundary full c" by (rule boundary_grow [OF c' full'])
  then have "line_length (drop c full) \<le> fc_max_line_bytes C"
    using short_line_at [OF full(2)] by (auto simp: boundary_def)
  then have short: "line_length (drop c now) \<le> fc_max_line_bytes C" using line_length_mono [OF rest] by simp
  have sizes: "fc_max_line_bytes C \<le> u64_max" "length now \<le> u64_max"
    using full(2) prefix_length_le [OF full'] by (simp_all add: short_lines_def)
  have st': "in_step fid generation content c st" "prefix content (mo_data m fid)" using st grow by (simp_all add: now_def)
  show ?thesis
  proof (cases "newline \<in> set (drop c now)")
    case True
    define l where "l = take (line_length (drop c now)) (drop c now)"
    have lines: "complete_lines (drop c full) = l # complete_lines (drop (line_length (drop c now)) (drop c full))"
      unfolding l_def by (rule complete_lines_grow [OF True rest])
    have len: "length l = line_length (drop c now)" using line_length_le [of "drop c now"] by (simp add: l_def)
    have before: "take c full @ l = take (c + line_length (drop c now)) now"
      using full' c_le by (auto simp: l_def take_add prefix_def)
    have b: "boundary now (c + line_length (drop c now))" by (rule boundary_next [OF True c_le])
    then have tlen: "length (take (c + line_length (drop c now)) now) = c + line_length (drop c now)"
      by (simp add: boundary_def)
    obtain s where s: "file_step C m st = Inr s" "in_step fid generation now (c + line_length (drop c now)) s"
      "map unstamped (fst_sent s) = map unstamped (fst_sent st) @
         [file_record (fc_name C) fid generation 0 (c + line_length (drop c now))
            (last_bytes (take (c + line_length (drop c now)) now)) (line_payload l) False]"
      using turn_line [OF st' entry(2), of C] True short sizes by (auto simp: now_def l_def)
    show ?thesis
      using s b True tlen by (intro exI [of _ s] exI [of _ 1]) (simp add: now_def [symmetric] lines len before del: length_take)
  next
    case False
    then show ?thesis using turn_wait [OF st' entry(1,3), of C] short sizes c' by (auto simp: now_def)
  qed
qed

lemma complete_lines_skip:
  "n \<le> length (complete_lines bs) \<Longrightarrow> complete_lines (drop (length (concat (take n (complete_lines bs)))) bs) = drop n (complete_lines bs)"
proof (induction n arbitrary: bs)
  case (Suc n)
  then have nl: "newline \<in> set bs" by (auto simp: complete_lines.simps [of bs] split: if_splits)
  define rest where "rest = drop (line_length bs) bs"
  have lines: "complete_lines bs = take (line_length bs) bs # complete_lines rest"
    using nl by (subst complete_lines.simps) (simp add: rest_def)
  have len: "length (take (line_length bs) bs) = line_length bs" using line_length_le [of bs] by simp
  have "drop (length (concat (take (Suc n) (complete_lines bs)))) bs =
      drop (length (concat (take n (complete_lines rest)))) rest"
    by (simp add: lines len rest_def add.commute del: length_take)
  then show ?case using Suc by (simp add: lines)
qed simp

lemma take_complete_lines:
  "take (c + length (concat (take n (complete_lines (drop c full))))) full = take c full @ concat (take n (complete_lines (drop c full)))"
proof -
  have "prefix (concat (take n (complete_lines (drop c full)))) (drop c full)"
    by (metis append_take_drop_id complete_lines_prefix concat_append prefix_def prefix_order.trans)
  then show ?thesis by (simp add: take_add) (metis append_eq_conv_conj prefix_def)
qed

text \<open>Any run over a growing file, and how far quiet turns bring it.\<close>

lemma run_growing:
  assumes "in_step fid generation content c st" "appending fid content ms" "boundary content c"
    and "prefix (content_after fid content ms) full" "short_lines C full"
  shows "\<exists>st' n. run_file C ms st = Inr st' \<and> n \<le> length (complete_lines (drop c full)) \<and>
     in_step fid generation (content_after fid content ms) (c + length (concat (take n (complete_lines (drop c full))))) st' \<and>
     boundary (content_after fid content ms) (c + length (concat (take n (complete_lines (drop c full))))) \<and>
     map unstamped (fst_sent st') = map unstamped (fst_sent st) @
       line_records (fc_name C) fid generation (take c full) (take n (complete_lines (drop c full))) \<and>
     (list_all (\<lambda>m. mo_data m fid = full) ms \<longrightarrow> n = min (length ms) (length (complete_lines (drop c full))))"
  using assms
proof (induction ms arbitrary: content c st)
  case Nil
  then show ?case by (intro exI [of _ st] exI [of _ 0]) simp
next
  case (Cons m ms)
  let ?L = "complete_lines (drop c full)"
  have later: "prefix (mo_data m fid) full"
    using Cons.prems(2,4) appending_prefix [of fid "mo_data m fid" ms] by (auto intro: prefix_order.trans)
  obtain st1 k where st1: "file_step C m st = Inr st1" "k \<le> length ?L"
      "in_step fid generation (mo_data m fid) (c + length (concat (take k ?L))) st1"
      "boundary (mo_data m fid) (c + length (concat (take k ?L)))"
      "map unstamped (fst_sent st1) = map unstamped (fst_sent st) @ line_records (fc_name C) fid generation (take c full) (take k ?L)"
      "k = (if newline \<in> set (drop c (mo_data m fid)) then 1 else 0)"
    using turn [OF Cons.prems(1,2) later Cons.prems(5,3)] by blast
  define d where "d = c + length (concat (take k ?L))"
  have rest: "complete_lines (drop d full) = drop k ?L"
    using complete_lines_skip [OF st1(2)] by (simp add: d_def add.commute)
  obtain st2 j where st2: "run_file C ms st1 = Inr st2" "j \<le> length (complete_lines (drop d full))"
      "in_step fid generation (content_after fid (mo_data m fid) ms) (d + length (concat (take j (complete_lines (drop d full))))) st2"
      "boundary (content_after fid (mo_data m fid) ms) (d + length (concat (take j (complete_lines (drop d full)))))"
      "map unstamped (fst_sent st2) = map unstamped (fst_sent st1) @
         line_records (fc_name C) fid generation (take d full) (take j (complete_lines (drop d full)))"
      "list_all (\<lambda>m. mo_data m fid = full) ms \<longrightarrow> j = min (length ms) (length (complete_lines (drop d full)))"
    using Cons.IH [of "mo_data m fid" d st1] st1(3,4) Cons.prems by (auto simp: d_def)
  have both: "take (k + j) ?L = take k ?L @ take j (drop k ?L)" by (rule take_add)
  have here: "take d full = take c full @ concat (take k ?L)" by (simp add: d_def take_complete_lines)
  have quiet: "k + j = min (length (m # ms)) (length ?L)" if "list_all (\<lambda>m. mo_data m fid = full) (m # ms)"
  proof -
    have "k = min 1 (length ?L)" using that st1(6) by (auto simp: complete_lines.simps [of "drop c full"])
    moreover have "j = min (length ms) (length ?L - k)" using that st2(6) by (simp add: rest)
    ultimately show ?thesis by (cases "length ?L") auto
  qed
  have "k + j \<le> length ?L" using st1(2) st2(2) by (simp add: rest)
  then show ?case using st1(1,5) st2(1-5) quiet
    by (intro exI [of _ st2] exI [of _ "k + j"])
       (simp add: both here d_def [symmetric] add.assoc [symmetric] line_records_append rest)
qed

text \<open>Opening the file: from the start, or where a checkpoint left off.\<close>

lemma open_fresh:
  assumes "mo_entry m = Present fid" "fst_phase st = Opening None initial" "initial \<longrightarrow> fc_start C = Beginning"
  shows "\<exists>st'. file_step C m st = Inr st' \<and> in_step fid 1 (mo_data m fid) 0 st' \<and> fst_sent st' = fst_sent st"
  using assms reader_at_seek [of 0 "mo_data m fid"]
  by (auto simp: file_step_def open_file_def open_position_def in_step_def following_def last_bytes_def sat_add64_def width_simps)

lemma open_resumed:
  assumes "mo_entry m = Present fid" "fst_phase st = Opening (Some (fst fid, snd fid, c, generation, kept)) initial"
    and "c \<le> length (mo_data m fid)" "kept = [] \<or> kept = last_bytes (take c (mo_data m fid))"
  shows "\<exists>st'. file_step C m st = Inr st' \<and> in_step fid generation (mo_data m fid) c st' \<and> fst_sent st' = fst_sent st"
proof -
  have "open_position (fc_start C) m fid initial (Some (fst fid, snd fid, c, generation, kept)) =
      (c, generation, last_bytes (take c (mo_data m fid)))"
    using assms(3,4) read_file_tail_at [OF assms(1,3)] by (auto simp: open_position_def file_tail_matches_def)
  then show ?thesis using assms(1-3) reader_at_seek [OF assms(3)]
    by (auto simp: file_step_def open_file_def in_step_def following_def)
qed

lemma map_unstamped_nil [simp]: "fst_sent (file_start c) = []" "fst_phase (file_start c) = Opening (file_checkpoint c) (c = None)"
  by (simp_all add: file_start_def)

text \<open>From a position in step, growth followed by enough quiet turns reports every line.\<close>

lemma run_settles:
  assumes "in_step fid generation content c st" "boundary content c" "appending fid content (grow @ quiet)"
    and full: "full = content_after fid content (grow @ quiet)" "list_all (\<lambda>m. mo_data m fid = full) quiet"
    and "short_lines C full" "length (complete_lines (drop c full)) \<le> length quiet"
  shows "\<exists>st'. run_file C (grow @ quiet) st = Inr st' \<and>
     map unstamped (fst_sent st') = map unstamped (fst_sent st) @
       line_records (fc_name C) fid generation (take c full) (complete_lines (drop c full)) \<and>
     in_step fid generation full (c + length (concat (complete_lines (drop c full)))) st'"
proof -
  have split: "appending fid content (xs @ ys) \<longleftrightarrow> appending fid content xs \<and> appending fid (content_after fid content xs) ys"
    "content_after fid content (xs @ ys) = content_after fid (content_after fid content xs) ys" for xs ys content
    by (induction xs arbitrary: content) auto
  let ?L = "complete_lines (drop c full)" and ?mid = "content_after fid content grow"
  have g: "appending fid content grow" "appending fid ?mid quiet" "prefix ?mid full" "full = content_after fid ?mid quiet"
    using assms(3) full(1) appending_prefix [of fid ?mid quiet] by (simp_all add: split)
  obtain st1 n where st1: "run_file C grow st = Inr st1" "n \<le> length ?L"
      "in_step fid generation ?mid (c + length (concat (take n ?L))) st1" "boundary ?mid (c + length (concat (take n ?L)))"
      "map unstamped (fst_sent st1) = map unstamped (fst_sent st) @ line_records (fc_name C) fid generation (take c full) (take n ?L)"
    using run_growing [OF assms(1) g(1) assms(2) g(3) assms(6)] by blast
  define d where "d = c + length (concat (take n ?L))"
  have rest: "complete_lines (drop d full) = drop n ?L"
    using complete_lines_skip [OF st1(2)] by (simp add: d_def add.commute)
  obtain st2 j where st2: "run_file C quiet st1 = Inr st2"
      "in_step fid generation full (d + length (concat (take j (drop n ?L)))) st2"
      "map unstamped (fst_sent st2) = map unstamped (fst_sent st1) @
         line_records (fc_name C) fid generation (take d full) (take j (drop n ?L))"
      "list_all (\<lambda>m. mo_data m fid = full) quiet \<longrightarrow> j = min (length quiet) (length (drop n ?L))"
    using run_growing [OF st1(3) g(2) st1(4), of full C] assms(6)
    unfolding d_def [symmetric] rest g(4) [symmetric] by blast
  have j: "take j (drop n ?L) = drop n ?L" using st2(4) full(2) assms(7) by simp
  have here: "take d full = take c full @ concat (take n ?L)" by (simp add: d_def take_complete_lines)
  have all: "line_records (fc_name C) fid generation (take c full) ?L =
      line_records (fc_name C) fid generation (take c full) (take n ?L) @ line_records (fc_name C) fid generation (take d full) (drop n ?L)"
    using line_records_append [of "fc_name C" fid generation "take c full" "take n ?L" "drop n ?L"] by (simp add: here)
  have "d + length (concat (drop n ?L)) = c + length (concat ?L)"
    unfolding d_def by (metis add.assoc append_take_drop_id concat_append length_append)
  then show ?thesis using st1 st2 by (simp add: run_file_append j all)
qed

section \<open>Every line once\<close>


lemma nth_line_records:
  "i < length ls \<Longrightarrow> line_records name fid generation before ls ! i =
     file_record name fid generation 0 (length (before @ concat (take (Suc i) ls))) (last_bytes (before @ concat (take (Suc i) ls)))
       (line_payload (ls ! i)) False"
  by (induction ls arbitrary: i before) (auto simp: nth_Cons' take_Cons' add.assoc split: nat.splits)

lemma complete_lines_end: "l \<in> set (complete_lines bs) \<Longrightarrow> ends_line l"
proof (induction bs rule: complete_lines.induct)
  case (1 bs)
  then show ?case
    by (subst (asm) complete_lines.simps) (auto split: if_splits simp: ends_line_take)
qed

lemma ends_line_concat:
  assumes "\<And>l. l \<in> set ls \<Longrightarrow> ends_line l" "ls \<noteq> []"
  shows "ends_line (concat ls)"
  using assms by (induction ls rule: rev_induct) (auto simp: ends_line_def)

text \<open>C12. A restart takes up where the store left off. A reader that starts from the checkpoint of
  the i-th record, on a file that still begins with the lines up to there, sends exactly the
  later records, under the ids they would have had without the restart.\<close>

theorem file_resumed:
  assumes "records = line_records (fc_name C) fid generation [] (complete_lines full)" "i < length records"
    and "appending fid (concat (take (Suc i) (complete_lines full))) (m # grow @ quiet)"
    and "full = content_after fid [] (m # grow @ quiet)" "list_all (\<lambda>x. mo_data x fid = full) quiet"
    and "length (complete_lines full) \<le> length quiet" "short_lines C full"
  shows "\<exists>st. run_file C (m # grow @ quiet) (file_start (Some (sr_checkpoint (records ! i)))) = Inr st \<and>
     map unstamped (fst_sent st) = drop (Suc i) records"
proof -
  let ?L = "complete_lines full" and ?now = "mo_data m fid"
  define seen where "seen = concat (take (Suc i) ?L)"
  define c where "c = length seen"
  have i: "i < length ?L" using assms(1,2) by simp
  have here: "prefix seen ?now" using assms(3) by (simp add: seen_def)
  then have c_le: "c \<le> length ?now" and taken: "take c ?now = seen" by (auto simp: c_def prefix_def)
  have "ends_line seen"
    unfolding seen_def
  proof (rule ends_line_concat)
    show "ends_line l" if "l \<in> set (take (Suc i) ?L)" for l using that complete_lines_end in_set_takeD by metis
    show "take (Suc i) ?L \<noteq> []" using i by auto
  qed
  then have bound: "boundary ?now c" using c_le taken by (simp add: boundary_def)
  have "fst_phase (file_start (Some (sr_checkpoint (records ! i)))) =
      Opening (Some (fst fid, snd fid, c, generation, last_bytes seen)) False"
    using i by (simp add: assms(1) nth_line_records file_checkpoint_def file_record_def c_def seen_def)
  then obtain st where st: "file_step C m (file_start (Some (sr_checkpoint (records ! i)))) = Inr st"
      "in_step fid generation ?now c st" "fst_sent st = []"
    using open_resumed [of m fid _ c generation "last_bytes seen" False C] assms(3) c_le taken by fastforce
  have full: "full = content_after fid ?now (grow @ quiet)" using assms(4) by simp
  have taken_full: "take c full = seen"
    using take_complete_lines [of 0 "Suc i" full] by (simp add: c_def seen_def)
  have rest: "complete_lines (drop c full) = drop (Suc i) ?L"
    using complete_lines_skip [of "Suc i" full] i by (simp add: c_def seen_def)
  have "line_records (fc_name C) fid generation seen (drop (Suc i) ?L) = drop (Suc i) records"
    using line_records_append [of "fc_name C" fid generation "[]" "take (Suc i) ?L" "drop (Suc i) ?L"] i
    by (simp add: assms(1) seen_def)
  moreover have "length (complete_lines (drop c full)) \<le> length quiet" using assms(6) by (simp add: rest)
  moreover have "appending fid ?now (grow @ quiet)" using assms(3) by simp
  ultimately show ?thesis
    using run_settles [OF st(2) bound _ full assms(5,7)] st(1,3) by (auto simp: taken_full rest)
qed

section \<open>Rotation\<close>

text \<open>The old file is read to its end before the path is opened again.\<close>

lemma drain_old:
  assumes "in_step old generation content c st" "prefix content full" "short_lines C full"
    and "boundary content c" "boundary full (length full)" "old \<noteq> new"
    and "list_all (\<lambda>x. mo_data x old = full \<and> mo_receiver x \<and> mo_entry x = Present new) ms"
    and "length ms = Suc (length (complete_lines (drop c full)))"
  shows "\<exists>st'. run_file C ms st = Inr st' \<and>
     fst_phase st' = Opening (Some (fst new, snd new, 0, sat_add64 generation 1, [])) False \<and>
     map unstamped (fst_sent st') = map unstamped (fst_sent st) @
       line_records (fc_name C) old generation (take c full) (complete_lines (drop c full))"
  using assms
proof (induction ms arbitrary: content c st)
  case (Cons m ms)
  have m: "mo_data m old = full" "mo_receiver m" "mo_entry m = Present new" using Cons.prems(7) by simp_all
  have c: "boundary full c" by (rule boundary_grow [OF Cons.prems(4,2)])
  have short: "line_length (drop c full) \<le> fc_max_line_bytes C" "fc_max_line_bytes C \<le> u64_max" "length full \<le> u64_max"
    using short_line_at [OF Cons.prems(3)] c Cons.prems(3) by (auto simp: boundary_def short_lines_def)
  show ?case
  proof (cases "newline \<in> set (drop c full)")
    case True
    define len where "len = line_length (drop c full)"
    have le: "c \<le> length full" using c by (simp add: boundary_def)
    have lines: "complete_lines (drop c full) = take len (drop c full) # complete_lines (drop (c + len) full)"
      using complete_lines_grow [OF True] by (simp add: len_def add.commute)
    have next': "boundary full (c + len)" unfolding len_def by (rule boundary_next [OF True le])
    then have before: "take c full @ take len (drop c full) = take (c + len) full" "length (take (c + len) full) = c + len"
      by (auto simp: take_add boundary_def)
    obtain s where s: "file_step C m st = Inr s" "in_step old generation full (c + len) s"
       "map unstamped (fst_sent s) = map unstamped (fst_sent st) @
         [file_record (fc_name C) old generation 0 (c + len) (last_bytes (take (c + len) full)) (line_payload (take len (drop c full))) False]"
      using turn_line [OF Cons.prems(1), of m C] Cons.prems(2) True short m by (auto simp: len_def)
    have "\<exists>st'. run_file C ms s = Inr st' \<and>
       fst_phase st' = Opening (Some (fst new, snd new, 0, sat_add64 generation 1, [])) False \<and>
       map unstamped (fst_sent st') = map unstamped (fst_sent s) @
         line_records (fc_name C) old generation (take (c + len) full) (complete_lines (drop (c + len) full))"
      using Cons.IH [OF s(2) _ Cons.prems(3) next' Cons.prems(5,6)] Cons.prems(7,8) by (simp add: lines)
    then show ?thesis using s before by (auto simp: lines simp del: length_take)
  next
    case False
    have rest: "drop c full = []"
    proof (rule ccontr)
      assume "drop c full \<noteq> []"
      then have "last full = newline" "last (drop c full) = last full" using Cons.prems(5) by (auto simp: boundary_def ends_line_def)
      then show False using False \<open>drop c full \<noteq> []\<close> by (metis last_in_set)
    qed
    then have ms: "ms = []" using Cons.prems(8) by (simp add: complete_lines.simps)
    obtain t where t: "fst_phase st = Tailing t" "following old generation full c t"
      using Cons.prems(1,2) following_grow by (auto simp: in_step_def split: file_phase.splits)
    have pending: "tr_pending t = []" using t(2) rest by (auto simp: following_def)
    obtain r' where "read_until full (max (sat_add64 (fc_max_line_bytes C) 1 - length (tr_pending t)) 1) (tr_reader t) = ([], r')"
      using turn_reads [OF t(2) short(1,2)] rest by auto
    then have "file_step C m st = Inr (st\<lparr> fst_phase := Opening (Some (fst new, snd new, 0, sat_add64 generation 1, [])) False \<rparr>)"
      using t m Cons.prems(6) pending
      by (simp add: file_step_def tail_step_def tail_idle_def following_def split: prod.splits)
    then show ?thesis by (simp add: ms rest complete_lines.simps)
  qed
qed simp

lemma appending_drop: "appending fid content (ms @ ms') \<Longrightarrow> appending fid (content_after fid content ms) ms'"
  by (induction ms arbitrary: content) auto

lemma content_after_append: "content_after fid content (ms @ ms') = content_after fid (content_after fid content ms) ms'"
  by (induction ms arbitrary: content) auto

lemma appending_entries:
  "appending fid content ms \<Longrightarrow> list_all (\<lambda>x. mo_receiver x \<and> mo_entry x = Present fid) ms"
  by (induction ms arbitrary: content) auto


section \<open>Oversized lines\<close>

lemma turn_oversized:
  assumes t: "fst_phase st = Tailing t" "following fid generation (mo_data m fid) c t" "tr_pending t = []" and "mo_receiver m"
    and long: "fc_max_line_bytes C < line_length (drop c (mo_data m fid))" and size: "length (mo_data m fid) \<le> u64_max"
  shows "\<exists>st' t'. file_step C m st = Inr st' \<and> fst_phase st' = Tailing t' \<and> tr_pending t' = [] \<and>
     following fid generation (mo_data m fid) (c + line_length (drop c (mo_data m fid))) t' \<and>
     map unstamped (fst_sent st') = map unstamped (fst_sent st) @
       [file_record (fc_name C) fid generation 0 (c + line_length (drop c (mo_data m fid)))
          (last_bytes (take (c + line_length (drop c (mo_data m fid))) (mo_data m fid))) [] True]"
proof -
  define content where "content = mo_data m fid"
  define len where "len = line_length (drop c content)"
  define k where "k = Suc (fc_max_line_bytes C)"
  have len_le: "len \<le> length (drop c content)" unfolding len_def by (rule line_length_le)
  have k: "k \<le> len" using long by (simp add: k_def len_def content_def)
  have big: "c + len \<le> length content" using len_le k by (simp add: k_def)
  have sat: "sat_add64 (fc_max_line_bytes C) 1 = k"
    using k big size by (simp add: sat_add64_def k_def content_def)
  have idn: "tr_identity t = fid" "tr_generation t = generation" "tr_committed t = c" "tr_tail t = last_bytes (take c content)"
    "reader_at content c (tr_reader t)"
    using t(2,3) by (simp_all add: following_def content_def)
  have "line_length (take k (drop c content)) = k" using k by (simp add: line_length_take len_def)
  then obtain r1 where r1: "read_until content k (tr_reader t) = (take k (drop c content), r1)" "reader_at content (c + k) r1"
    using read_until_at [OF idn(5), of k] by auto
  define part where "part = take k (drop c content)"
  have part: "length part = k" using k len_le by (simp add: part_def)
  define tail1 where "tail1 = push_tail (tr_tail t) part"
  have tail1: "tail1 = last_bytes (take (c + k) content)"
    using k big by (simp add: tail1_def part_def idn last_bytes_push)
  obtain n tail2 r2 where rest: "(if ends_line part then (k, Some tail1, r1)
       else let (drained, tail2, r2) = drain_line content 0 (Some tail1) r1 in (sat_add64 k drained, tail2, r2)) = (n, tail2, r2)"
    by (metis prod_cases3)
  have n: "n = len \<and> tail2 = Some (last_bytes (take (c + len) content)) \<and> reader_at content (c + len) r2"
  proof (cases "ends_line part")
    case True
    then have "k = len" using ends_line_take [of k "drop c content"] k by (simp add: part_def len_def)
    then show ?thesis using True rest r1(2) tail1 by auto
  next
    case False
    have no_nl: "newline \<notin> set part"
      using False k newline_take_line [of k "drop c content"] ends_line_take [of k "drop c content"] in_set_takeD [of newline k "drop c content"]
      by (metis le_neq_implies_less len_def part_def)
    have "drop c content = part @ drop (c + k) content" by (metis add.commute append_take_drop_id drop_drop part_def)
    then have len': "len = k + line_length (drop (c + k) content)"
      using no_nl line_length_append [of part] by (metis len_def part)
    have "\<exists>r'. drain_line content 0 (Some tail1) r1 =
        (line_length (drop (c + k) content), Some (last_bytes (take (c + len) content)), r') \<and> reader_at content (c + len) r'"
      using drain_line_at [OF r1(2), of 0 "Some tail1" "[]"] size by (simp add: tail1 len' add.assoc content_def)
    moreover have "sat_add64 k (line_length (drop (c + k) content)) = len"
      using len' big size by (simp add: sat_add64_exact content_def)
    ultimately show ?thesis using False rest by auto
  qed
  define t1 where "t1 = t\<lparr> tr_pending := [], tr_tail := last_bytes (take (c + len) content), tr_reader := r2, tr_committed := c + len \<rparr>"
  have committed: "sat_add64 c len = c + len" using big size by (simp add: sat_add64_exact content_def)
  have kmax: "max k 1 = k" "fc_max_line_bytes C < k" by (simp_all add: k_def)
  have "file_step C m st = tail_oversized C m (t\<lparr> tr_pending := part, tr_reader := r1 \<rparr>) st"
    using r1(1) part k idn(1) t(1,3) kmax(2)
    by (auto simp: file_step_def tail_step_def Let_def sat content_def [symmetric] part_def [symmetric] kmax(1) simp del: One_nat_def)
  also have "\<dots> = rbind (send_file_record C m t1 [] True st) (\<lambda>st1. Inr (st1\<lparr> fst_phase := Tailing t1 \<rparr>))"
    using rest n committed
    by (cases "ends_line part")
       (auto simp: tail_oversized_def Let_def idn(1,3) content_def [symmetric] part tail1_def [symmetric] t1_def split: prod.splits)
  finally have step: "file_step C m st = rbind (send_file_record C m t1 [] True st) (\<lambda>st1. Inr (st1\<lparr> fst_phase := Tailing t1 \<rparr>))" .
  have "following fid generation content (c + len) t1" using n idn by (simp add: following_def t1_def)
  then show ?thesis using step \<open>mo_receiver m\<close> idn
    by (auto simp: send_file_record_def t1_def len_def content_def intro!: exI [of _ t1])
qed

lemma open_pending:
  assumes "file_step C m st = Inr st'" "fst_phase st = Opening resumed initial" "fst_phase st' = Tailing t"
  shows "tr_pending t = []"
  using assms by (auto simp: file_step_def open_file_def split: path_entry.splits if_splits prod.splits)

text \<open>Opening a file and meeting a line over the limit, or as much of one as there is.\<close>

lemma open_oversized:
  assumes a: "mo_entry a = Present fid" "mo_data a fid = content" and b: "mo_receiver b" "mo_data b fid = content"
    and "fc_start C = Beginning" "fc_max_line_bytes C < line_length content" "length content \<le> u64_max"
  shows "\<exists>st. run_file C [a, b] (file_start None) = Inr st \<and> in_step fid 1 content (line_length content) st \<and>
     map unstamped (fst_sent st) =
       [file_record (fc_name C) fid 1 0 (line_length content) (last_bytes (take (line_length content) content)) [] True]"
proof -
  obtain st1 where st1: "file_step C a (file_start None) = Inr st1" "in_step fid 1 content 0 st1" "fst_sent st1 = []"
    using open_fresh [of a fid "file_start None" True C] a assms(5) by (auto simp: file_checkpoint_def)
  then obtain t where t: "fst_phase st1 = Tailing t" "following fid 1 content 0 t"
    by (auto simp: in_step_def split: file_phase.splits)
  have "tr_pending t = []" by (rule open_pending [OF st1(1) _ t(1)]) (rule map_unstamped_nil)
  then show ?thesis using turn_oversized [of st1 t fid 1 b 0 C] t b assms(6,7) st1 by (auto simp: in_step_def)
qed

text \<open>C14. A long line is read differently when its write is seen in two parts. A line over the
  limit that is complete yields one record without text. When the reader sees the front of the same
  line before the rest is there, it takes the end of the file for the end of the line, and the rest,
  if short, is then reported as a line of its own, with its text.\<close>

theorem split_line_reported:
  assumes "newline \<notin> set front" "fc_max_line_bytes C < length front" "newline \<notin> set rest"
      "length rest < fc_max_line_bytes C" "length front + length rest < u64_max"
    and line: "line = front @ rest @ [newline]"
    and "list_all (\<lambda>x. mo_entry x = Present fid \<and> mo_receiver x \<and> \<not> mo_cancelled x) [a, b, c]"
    and "fc_start C = Beginning"
  shows "(map (\<lambda>x. mo_data x fid) [a, b, c] = [line, line, line] \<longrightarrow>
      (\<exists>st. run_file C [a, b, c] (file_start None) = Inr st \<and>
         map unstamped (fst_sent st) = [file_record (fc_name C) fid 1 0 (length line) (last_bytes line) [] True])) \<and>
    (map (\<lambda>x. mo_data x fid) [a, b, c] = [front, front, line] \<longrightarrow>
      (\<exists>st. run_file C [a, b, c] (file_start None) = Inr st \<and>
         map unstamped (fst_sent st) = [file_record (fc_name C) fid 1 0 (length front) (last_bytes front) [] True,
           file_record (fc_name C) fid 1 0 (length line) (last_bytes line) (line_payload (rest @ [newline])) False]))"
proof (intro conjI impI)
  have len: "line_length line = length line" "line_length front = length front" "line_length (rest @ [newline]) = Suc (length rest)"
    using assms(1,3) by (simp_all add: line line_length_append line_length_no_newline)
  have max: "fc_max_line_bytes C \<le> u64_max" using assms(2,5) by simp
  have ms: "run_file C [a, b, c] s = file_step C c x" if "run_file C [a, b] s = Inr x" for s x
    using run_file_append [of C "[a, b]" "[c]" s] that by (cases "file_step C c x") simp_all
  {
    assume d: "map (\<lambda>x. mo_data x fid) [a, b, c] = [line, line, line]"
    obtain st where st: "run_file C [a, b] (file_start None) = Inr st" "in_step fid 1 line (length line) st"
        "map unstamped (fst_sent st) = [file_record (fc_name C) fid 1 0 (length line) (last_bytes line) [] True]"
      using open_oversized [of a fid line b C] assms(2,5,7,8) d len by (auto simp: line)
    obtain st' where "file_step C c st = Inr st'" "fst_sent st' = fst_sent st"
      using turn_wait [OF st(2), of c C] assms(7) d max by auto
    then show "\<exists>st. run_file C [a, b, c] (file_start None) = Inr st \<and>
        map unstamped (fst_sent st) = [file_record (fc_name C) fid 1 0 (length line) (last_bytes line) [] True]"
      using ms [OF st(1)] st(3) by simp
  next
    assume d: "map (\<lambda>x. mo_data x fid) [a, b, c] = [front, front, line]"
    obtain st where st: "run_file C [a, b] (file_start None) = Inr st" "in_step fid 1 front (length front) st"
        "map unstamped (fst_sent st) = [file_record (fc_name C) fid 1 0 (length front) (last_bytes front) [] True]"
      using open_oversized [of a fid front b C] assms(2,5,7,8) d len by auto
    have here: "drop (length front) (mo_data c fid) = rest @ [newline]" "length front + Suc (length rest) = length line"
      using d by (simp_all add: line)
    obtain st' where "file_step C c st = Inr st'"
        "map unstamped (fst_sent st') = map unstamped (fst_sent st) @
           [file_record (fc_name C) fid 1 0 (length line) (last_bytes line) (line_payload (rest @ [newline])) False]"
      using turn_line [OF st(2), of c C] assms(4,5,7) d max by (auto simp: here len line)
    then show "\<exists>st. run_file C [a, b, c] (file_start None) = Inr st \<and>
        map unstamped (fst_sent st) = [file_record (fc_name C) fid 1 0 (length front) (last_bytes front) [] True,
          file_record (fc_name C) fid 1 0 (length line) (last_bytes line) (line_payload (rest @ [newline])) False]"
      using ms [OF st(1)] st(3) by simp
  }
qed

section \<open>Concrete runs\<close>

definition ex_log :: file_source where
  "ex_log = \<lparr> fc_name = ''auth'', fc_start = Beginning, fc_max_line_bytes = 4 \<rparr>"

definition ex_moment :: "file_id \<Rightarrow> byte list \<Rightarrow> byte list \<Rightarrow> moment" where
  "ex_moment fid one two = \<lparr> mo_entry = Present fid, mo_data = (\<lambda>f. if f = (1, 2) then one else if f = (1, 3) then two else []),
     mo_now = 7, mo_receiver = True, mo_cancelled = False \<rparr>"

lemmas ex_file_simps = ex_log_def ex_moment_def short_lines_def width_simps prefix_Cons boundary_def ends_line_def
  line_length_no_newline

lemma ex_complete_lines:
  "complete_lines [97, 10, 98, 99, 10] = [[97, 10], [98, 99, 10]]" "complete_lines [100, 10] = [[100, 10]]"
  by (simp_all add: complete_lines.simps)

lemma replicate_four: "replicate 4 x = [x, x, x, x]"
  by (simp add: eval_nat_numeral)


theorem file_resumed_witness:
  "\<exists>st. run_file ex_log (ex_moment (1, 2) [97, 10, 98] [] # [] @
        replicate 2 (ex_moment (1, 2) [97, 10, 98, 99, 10] [])) (file_start (Some (FileCheckpoint 1 2 2 5 [97, 10]))) = Inr st \<and>
     map unstamped (fst_sent st) = line_records ''auth'' (1, 2) 5 [97, 10] [[98, 99, 10]]"
  using file_resumed [of "line_records ''auth'' (1, 2) 5 [] (complete_lines [97, 10, 98, 99, 10])" ex_log "(1, 2)" 5 "[97, 10, 98, 99, 10]" 0
      "ex_moment (1, 2) [97, 10, 98] []" "[]" "replicate 2 (ex_moment (1, 2) [97, 10, 98, 99, 10] [])"]
  by (simp add: numeral_2_eq_2 ex_file_simps ex_complete_lines file_record_def last_bytes_def FILE_TAIL_BYTES_def)


theorem split_line_reported_witness:
  "(\<exists>st. run_file ex_log [ex_moment (1, 2) [65, 65, 65, 65, 65] [], ex_moment (1, 2) [65, 65, 65, 65, 65] [],
        ex_moment (1, 2) [65, 65, 65, 65, 65, 98, 10] []] (file_start None) = Inr st \<and>
     map (\<lambda>r. (sr_payload r, sr_oversized r)) (map unstamped (fst_sent st)) = [([], True), (''b'', False)])"
proof -
  have "line_payload [98, 10] = ''b''" by code_simp
  then show ?thesis
    using split_line_reported [of "[65, 65, 65, 65, 65]" ex_log "[98]" "[65, 65, 65, 65, 65, 98, 10]" "(1, 2)"
       "ex_moment (1, 2) [65, 65, 65, 65, 65] []" "ex_moment (1, 2) [65, 65, 65, 65, 65] []"
       "ex_moment (1, 2) [65, 65, 65, 65, 65, 98, 10] []"]
    by (auto simp: ex_log_def ex_moment_def width_simps file_record_def)
qed

end
