(* ===== verification/Line_Sources.thy ===== *)
theory Line_Sources
  imports File_Theorems Client_Hello
begin

text \<open>
  bagel-runtime/src/source_address_set.rs and source_journal.rs, the two sources that read whole
  lines with \<open>read_bounded_line\<close>: a list of networks that is read again whenever its metadata change,
  and the output of journalctl. The pipe of the process is given as all it will ever carry, since a
  read there waits until bytes or the end arrive. JSON is a parameter, as in the detectors.
\<close>

section \<open>Reading to the end\<close>

lemma unread_fill_le: "unread content (fill_buf content r) \<le> unread content r"
  by (auto simp: unread_def fill_buf_def Let_def)

lemma unread_consume: "n \<le> length (br_buffer r) \<Longrightarrow> unread content (consume n r) + n = unread content r"
  by (simp add: unread_def consume_def)

lemma read_until_unread: "unread content (snd (read_until content limit r)) + length (fst (read_until content limit r)) \<le> unread content r"
proof (induction content limit r rule: read_until.induct)
  case (1 content limit r)
  define r1 where "r1 = fill_buf content r"
  define available where "available = take limit (br_buffer r1)"
  define used where "used = line_length available"
  have le: "used \<le> length available" "length available \<le> length (br_buffer r1)"
    unfolding used_def by (rule line_length_le) (simp add: available_def)
  then have part: "length (take used available) = used" by simp
  have step: "unread content (consume used r1) + used \<le> unread content r"
    using unread_consume [of used r1 content] le unread_fill_le [of content r] by (simp add: r1_def)
  show ?case
  proof (cases "limit = 0 \<or> available = [] \<or> ends_line (take used available)")
    case True
    then show ?thesis using step unread_fill_le [of content r] part
      by (subst (1 2) read_until.simps) (auto simp: Let_def r1_def available_def used_def)
  next
    case False
    then have "unread content (snd (read_until content (limit - used) (consume used r1))) +
        length (fst (read_until content (limit - used) (consume used r1))) \<le> unread content (consume used r1)"
      using "1.IH" [OF _ r1_def available_def used_def refl refl] by simp
    moreover have "read_until content limit r =
        (let (rest, r3) = read_until content (limit - used) (consume used r1) in (take used available @ rest, r3))"
      using False by (subst read_until.simps)
         (simp only: Let_def r1_def [symmetric] available_def [symmetric] used_def [symmetric] if_False de_Morgan_disj not_False_eq_True simp_thms)
    ultimately show ?thesis using step part by (simp add: split_beta)
  qed
qed

lemma drain_line_unread: "unread content (snd (snd (drain_line content n kept r))) \<le> unread content r"
proof (induction content n kept r rule: drain_line.induct)
  case (1 content n kept r)
  define r1 where "r1 = fill_buf content r"
  define len where "len = line_length (br_buffer r1)"
  have step: "unread content (consume len r1) \<le> unread content r"
    using unread_consume [of len r1 content] line_length_le [of "br_buffer r1"] unread_fill_le [of content r] by (simp add: r1_def len_def)
  show ?case
  proof (cases "br_buffer r1 = [] \<or> len \<noteq> length (br_buffer r1) \<or> br_buffer r1 ! (len - 1) = newline")
    case True
    then show ?thesis using step unread_fill_le [of content r]
      by (subst drain_line.simps) (auto simp: Let_def r1_def len_def)
  next
    case False
    then show ?thesis using "1.IH" [OF r1_def refl _ len_def refl refl refl refl refl] step
      by (subst drain_line.simps) (simp add: Let_def r1_def [symmetric] len_def [symmetric])
  qed
qed

lemma read_bounded_line_unread:
  assumes "read_bounded_line content limit r = (Some found, r')"
  shows "unread content r' < unread content r"
proof -
  obtain line r1 where line: "read_until content (sat_add64 limit 1) r = (line, r1)" by fastforce
  then have "unread content r1 + length line \<le> unread content r" "line \<noteq> []"
    using assms read_until_unread [of content "sat_add64 limit 1" r]
    by (auto simp: read_bounded_line_def split: if_splits)
  then have "unread content r1 < unread content r" by (cases line) auto
  then show ?thesis
    using assms line drain_line_unread [of content 0 None r1]
    by (auto simp: read_bounded_line_def Let_def split: if_splits prod.splits)
qed

text \<open>\<open>while let Some((line, oversized, consumed)) = read_bounded_line(..)\<close>: what each turn of the loop
  sees.\<close>

function bounded_lines :: "byte list \<Rightarrow> nat \<Rightarrow> buf_reader \<Rightarrow> (byte list \<times> bool \<times> u64) list" where
  "bounded_lines content limit r =
     (case read_bounded_line content limit r of
        (None, _) \<Rightarrow> []
      | (Some found, r1) \<Rightarrow> found # bounded_lines content limit r1)"
  by pat_completeness auto
termination
proof (relation "measure (\<lambda>(content, limit, r). unread content r)", goal_cases)
  case (2 content limit r found r1 x)
  then show ?case using read_bounded_line_unread by (metis in_measure prod.case)
qed simp

declare bounded_lines.simps [simp del]

section \<open>A list of networks\<close>

definition MAX_CIDR_LINE_BYTES :: usize where "MAX_CIDR_LINE_BYTES = 4096"

text \<open>What \<open>metadata\<close> reports (\<open>None\<close> when it fails), the time of the last change in nanoseconds around
  the epoch, and what opening the file yields.\<close>

record set_moment =
  sm_identity :: "file_id option"
  sm_modified :: int
  sm_len :: u64
  sm_content :: "byte list option"
  sm_now :: u64
  sm_receiver :: bool
  sm_cancelled :: bool

type_synonym set_resume = "(u64 \<times> u64 \<times> u64 \<times> u64) \<times> u64"

record set_state =
  sst_ready :: bool
  sst_resume :: "set_resume option"
  sst_stopped :: bool
  sst_sent :: "source_record list"

definition modified_nanos :: "set_moment \<Rightarrow> u64" where
  "modified_nanos m = (if sm_modified m < 0 then 0 else min (nat (sm_modified m)) u64_max)"

definition set_start :: "checkpoint option \<Rightarrow> set_state" where
  "set_start c = \<lparr> sst_ready = False,
     sst_resume = (case c of Some (AddressSetCheckpoint device inode modified len offset) \<Rightarrow>
        Some ((device, inode, modified, len), offset) | _ \<Rightarrow> None),
     sst_stopped = False, sst_sent = [] \<rparr>"

definition set_payload :: "byte list \<Rightarrow> string" where
  "set_payload line = trim (hd (split_on CHR ''#'' (line_payload line)))"

definition set_record ::
  "string \<Rightarrow> string \<Rightarrow> u64 \<times> u64 \<times> u64 \<times> u64 \<Rightarrow> u64 \<Rightarrow> string \<Rightarrow> u64 \<Rightarrow> string \<Rightarrow> bool \<Rightarrow> source_record" where
  "set_record name path identity at label offset payload oversized =
     (case identity of (device, inode, modified, len) \<Rightarrow>
       \<lparr> sr_source = name, sr_id = path @ '':'' @ show_nat modified @ '':'' @ label, sr_payload = payload,
         sr_correlation = None, sr_observed_at = at,
         sr_checkpoint = AddressSetCheckpoint device inode modified len offset, sr_oversized = oversized \<rparr>)"

fun set_lines ::
  "string \<Rightarrow> string \<Rightarrow> u64 \<times> u64 \<times> u64 \<times> u64 \<Rightarrow> u64 \<Rightarrow> u64 \<Rightarrow> (byte list \<times> bool \<times> u64) list \<Rightarrow> source_record list" where
  "set_lines name path identity at committed [] = []"
| "set_lines name path identity at committed ((line, oversized, consumed) # rest) =
     (let committed1 = sat_add64 committed consumed; len = snd (snd (snd identity)) in
      set_record name path identity at (show_nat len @ '':'' @ show_nat committed1) committed1 (set_payload line)
        (oversized \<or> line = []) # set_lines name path identity at committed1 rest)"

text \<open>One turn of the loop: nothing is read while the metadata stay as they were.\<close>

definition set_step :: "string \<Rightarrow> string \<Rightarrow> set_moment \<Rightarrow> set_state \<Rightarrow> set_state result" where
  "set_step name path m st =
     (if sst_stopped st then Inr st
      else case sm_identity m of
        None \<Rightarrow> Inl (Io ''metadata'')
      | Some (device, inode) \<Rightarrow>
         let identity = (device, inode, modified_nanos m, sm_len m);
             same_identity = (case sst_resume st of None \<Rightarrow> False | Some (seen, _) \<Rightarrow> seen = identity);
             offset = (case sst_resume st of Some (seen, offset) \<Rightarrow> if seen = identity then min offset (sm_len m) else 0 | None \<Rightarrow> 0);
             finish = (\<lambda>sent. st\<lparr> sst_ready := True, sst_resume := Some (identity, sm_len m),
                                   sst_stopped := sm_cancelled m, sst_sent := sst_sent st @ sent \<rparr>)
         in if offset < sm_len m \<or> \<not> same_identity
            then case sm_content m of
                None \<Rightarrow> Inl (Io ''open'')
              | Some content \<Rightarrow>
                  let found = set_lines name path identity (sm_now m) offset
                        (bounded_lines content MAX_CIDR_LINE_BYTES (seek_start offset));
                      sent = (if found = [] then [set_record name path identity (sm_now m) ''empty'' (sm_len m) [] True] else found)
                  in if sm_receiver m then Inr (finish sent) else Inl (Io ''defense event receiver stopped'')
            else Inr (finish []))"

section \<open>The journal\<close>

definition json_u64 :: "'j json_lib \<Rightarrow> 'j \<Rightarrow> u64 option" where
  "json_u64 J v = (case js_kind J v of KNumber _ (Some n) \<Rightarrow> Some n | KString s \<Rightarrow> parse_unsigned u64_max s | _ \<Rightarrow> None)"

definition json_text :: "'j json_lib \<Rightarrow> 'j \<Rightarrow> string option" where
  "json_text J v = (case js_kind J v of KString s \<Rightarrow> Some s | KNumber _ (Some n) \<Rightarrow> Some (show_nat n) | _ \<Rightarrow> None)"

definition pad_micros :: "nat \<Rightarrow> string" where
  "pad_micros n = replicate (6 - length (show_nat n)) CHR ''0'' @ show_nat n"

text \<open>The command line of journalctl: the fixed options, where to start, and the match groups
  separated by a plus sign.\<close>

fun match_arguments :: "(string, string) btree list \<Rightarrow> string list" where
  "match_arguments [] = []"
| "match_arguments [g] = map (\<lambda>(field, v). field @ ''='' @ v) g"
| "match_arguments (g # gs) = map (\<lambda>(field, v). field @ ''='' @ v) g @ ''+'' # match_arguments gs"

definition journal_arguments :: "checkpoint option \<Rightarrow> start_position \<Rightarrow> (string, string) btree list \<Rightarrow> string list" where
  "journal_arguments c start groups =
     [''--system'', ''--follow'', ''--no-pager'', ''--quiet'', ''--output=json-seq'',
      ''--output-fields=MESSAGE,__CURSOR,__REALTIME_TIMESTAMP,_BOOT_ID,_PID,SYSLOG_PID''] @
     [case c of Some (JournalCheckpoint _ micros) \<Rightarrow>
          ''--since=@'' @ show_nat (micros div 1000000) @ ''.'' @ pad_micros (micros mod 1000000)
        | _ \<Rightarrow> if start = End then ''--lines=0'' else ''--lines=all''] @
     match_arguments groups"

text \<open>\<open>value.get(key)\<close> is the argument \<open>get\<close>. An entry that is too long, is not JSON or has no cursor is
  skipped; bytes that are no UTF-8 end the source.\<close>

definition journal_entry ::
  "'j json_lib \<Rightarrow> ('j \<Rightarrow> string \<Rightarrow> 'j option) \<Rightarrow> string \<Rightarrow> u64 \<Rightarrow> byte list \<times> bool \<times> u64 \<Rightarrow> source_record option result" where
  "journal_entry J get name at found =
     (case found of (line, oversized, _) \<Rightarrow>
      if oversized then Inr None
      else if \<not> utf8_valid (byte_text line) then Inl (Io ''invalid utf-8'')
      else case js_parse J (dropWhile (\<lambda>c. code_of c = 0x1e) (byte_text line)) of
        None \<Rightarrow> Inr None
      | Some v \<Rightarrow>
         (case Option.bind (get v ''__CURSOR'') (js_as_str J) of
            None \<Rightarrow> Inr None
          | Some cursor \<Rightarrow>
              let micros = (case Option.bind (get v ''__REALTIME_TIMESTAMP'') (json_u64 J) of
                      Some n \<Rightarrow> n | None \<Rightarrow> sat_mul64 at 1000000);
                  payload = (case Option.bind (get v ''MESSAGE'') (js_as_str J) of Some s \<Rightarrow> s | None \<Rightarrow> []);
                  pid = Option.bind (case get v ''_PID'' of None \<Rightarrow> get v ''SYSLOG_PID'' | found \<Rightarrow> found) (json_text J);
                  boot = (case Option.bind (get v ''_BOOT_ID'') (js_as_str J) of Some s \<Rightarrow> s | None \<Rightarrow> ''unknown-boot'')
              in Inr (Some \<lparr> sr_source = name, sr_id = cursor, sr_payload = payload,
                   sr_correlation = map_option (\<lambda>p. boot @ '':'' @ p) pid, sr_observed_at = micros div 1000000,
                   sr_checkpoint = JournalCheckpoint cursor micros, sr_oversized = False \<rparr>)))"

text \<open>The loop over the pipe: the records it sent and the error it ended with. Only shutdown ends it
  without one, which \<open>stop_after\<close> places behind that many entries; the clock and the consumer are read
  at each entry.\<close>

fun journal_loop ::
  "'j json_lib \<Rightarrow> ('j \<Rightarrow> string \<Rightarrow> 'j option) \<Rightarrow> string \<Rightarrow> (nat \<Rightarrow> u64) \<Rightarrow> (nat \<Rightarrow> bool) \<Rightarrow> nat option \<Rightarrow>
   (byte list \<times> bool \<times> u64) list \<Rightarrow> source_record list \<Rightarrow> source_record list \<times> unit result" where
  "journal_loop J get name clock listening (Some 0) found sent = (sent, Inr ())"
| "journal_loop J get name clock listening stop_after [] sent = (sent, Inl (Io ''journalctl source exited''))"
| "journal_loop J get name clock listening stop_after (f # found) sent =
     (let go_on = journal_loop J get name clock listening (map_option (\<lambda>n. n - 1) stop_after) found in
      case journal_entry J get name (clock (length found)) f of
        Inl e \<Rightarrow> (sent, Inl e)
      | Inr None \<Rightarrow> go_on sent
      | Inr (Some r) \<Rightarrow>
          if listening (length found) then go_on (sent @ [r]) else (sent, Inl (Io ''defense event receiver stopped'')))"

definition run_journal ::
  "'j json_lib \<Rightarrow> ('j \<Rightarrow> string \<Rightarrow> 'j option) \<Rightarrow> string \<Rightarrow> (nat \<Rightarrow> u64) \<Rightarrow> (nat \<Rightarrow> bool) \<Rightarrow> nat option \<Rightarrow> usize \<Rightarrow>
   byte list \<Rightarrow> source_record list \<times> unit result" where
  "run_journal J get name clock listening stop_after max_entry_bytes output =
     journal_loop J get name clock listening stop_after (bounded_lines output max_entry_bytes (seek_start 0)) []"

section \<open>What the loops see\<close>

text \<open>The lines of a text, an unfinished last one included.\<close>

function all_lines :: "byte list \<Rightarrow> byte list list" where
  "all_lines bs = (if bs = [] then [] else take (line_length bs) bs # all_lines (drop (line_length bs) bs))"
  by pat_completeness auto
termination
proof (relation "measure length", goal_cases)
  case (2 bs)
  then show ?case using line_length_pos [of bs] by simp
qed simp

declare all_lines.simps [simp del]

lemma all_lines_Nil [simp]: "all_lines bs = [] \<longleftrightarrow> bs = []"
  by (simp add: all_lines.simps [of bs])

lemma concat_all_lines: "concat (all_lines bs) = bs"
proof (induction bs rule: all_lines.induct)
  case (1 bs)
  then show ?case by (cases "bs = []") (simp_all add: all_lines.simps [of bs] all_lines.simps [of "[]"])
qed

lemma all_lines_skip:
  "k \<le> length (all_lines bs) \<Longrightarrow> all_lines (drop (length (concat (take k (all_lines bs)))) bs) = drop k (all_lines bs)"
proof (induction k arbitrary: bs)
  case (Suc k)
  then have "bs \<noteq> []" by (auto simp: all_lines.simps [of "[]"])
  define rest where "rest = drop (line_length bs) bs"
  have lines: "all_lines bs = take (line_length bs) bs # all_lines rest"
    using \<open>bs \<noteq> []\<close> by (subst all_lines.simps) (simp add: rest_def)
  have len: "length (take (line_length bs) bs) = line_length bs" using line_length_le [of bs] by simp
  have "drop (length (concat (take (Suc k) (all_lines bs)))) bs = drop (length (concat (take k (all_lines rest)))) rest"
    by (simp add: lines len rest_def add.commute del: length_take)
  then show ?case using Suc by (simp add: lines)
qed simp

lemma read_bounded_line_at:
  assumes "reader_at content off r" "limit < u64_max" "length content \<le> u64_max" "off < length content"
  defines "len \<equiv> line_length (drop off content)"
  shows "\<exists>r'. read_bounded_line content limit r =
      (Some (take (Suc limit) (take len (drop off content)), limit < len, len), r') \<and> reader_at content (off + len) r'"
proof -
  have sat: "sat_add64 limit (Suc 0) = Suc limit" using assms(2) by (simp add: sat_add64_def)
  have pos: "0 < len" using assms(4) line_length_pos [of "drop off content"] by (simp add: len_def)
  have len_le: "off + len \<le> length content" using line_length_le [of "drop off content"] assms(4) by (simp add: len_def)
  have taken: "line_length (take (Suc limit) (drop off content)) = min (Suc limit) len"
    by (simp add: line_length_take len_def)
  obtain r1 where r1: "read_until content (Suc limit) r = (take (min (Suc limit) len) (drop off content), r1)"
      "reader_at content (off + min (Suc limit) len) r1"
    using read_until_at [OF assms(1), of "Suc limit"] by (auto simp: taken)
  define part where "part = take (min (Suc limit) len) (drop off content)"
  have read: "read_until content (Suc limit) r = (part, r1)" using r1(1) by (simp add: part_def)
  have whole: "take (Suc limit) (take len (drop off content)) = part" by (simp add: part_def)
  have part: "length part = min (Suc limit) len" "part \<noteq> []" using len_le pos by (auto simp: part_def)
  have ends: "ends_line part \<longleftrightarrow> newline \<in> set (drop off content) \<and> min (Suc limit) len = len"
    unfolding part_def len_def by (rule ends_line_take) simp
  show ?thesis
  proof (cases "limit < len \<and> \<not> ends_line part")
    case False
    have "min (Suc limit) len = len"
    proof (cases "limit < len")
      case True
      then show ?thesis using False ends by simp
    qed simp
    then show ?thesis using r1(2) part False
      unfolding whole by (auto simp: read_bounded_line_def sat read)
  next
    case True
    then have big: "min (Suc limit) len = Suc limit" by simp
    have no_nl: "newline \<notin> set part"
      using True ends newline_take_line [of "Suc limit" "drop off content"] in_set_takeD [of newline "Suc limit" "drop off content"]
      by (metis big len_def min.cobounded2 order_le_less part_def)
    have "drop off content = part @ drop (off + Suc limit) content"
      by (metis add.commute append_take_drop_id big drop_drop part_def)
    then have len': "len = Suc limit + line_length (drop (off + Suc limit) content)"
      using no_nl line_length_append [of part] part(1) big by (metis len_def)
    have "\<exists>r'. drain_line content 0 None r1 = (line_length (drop (off + Suc limit) content), None, r') \<and> reader_at content (off + len) r'"
      using drain_line_at [OF r1(2) [unfolded big], of 0 None "[]"] assms(3) by (simp add: len' add.assoc)
    moreover have "sat_add64 (Suc limit) (line_length (drop (off + Suc limit) content)) = len"
      using len' len_le assms(3) by (simp add: sat_add64_exact)
    ultimately show ?thesis using True part big
      unfolding whole by (auto simp: read_bounded_line_def sat read)
  qed
qed

lemma bounded_lines_at:
  assumes "limit < u64_max" "length content \<le> u64_max" "reader_at content off r"
  shows "bounded_lines content limit r = map (\<lambda>l. (take (Suc limit) l, limit < length l, length l)) (all_lines (drop off content))"
  using assms
proof (induction "length content - off" arbitrary: off r rule: less_induct)
  case less
  have off: "off \<le> length content" using less.prems(3) by (auto simp: reader_at_def)
  show ?case
  proof (cases "off < length content")
    case True
    define len where "len = line_length (drop off content)"
    obtain r' where r': "read_bounded_line content limit r =
        (Some (take (Suc limit) (take len (drop off content)), limit < len, len), r')" "reader_at content (off + len) r'"
      using read_bounded_line_at [OF less.prems(3,1,2) True] by (auto simp: len_def)
    have pos: "0 < len" and fits: "length (take len (drop off content)) = len"
      using True line_length_pos [of "drop off content"] line_length_le [of "drop off content"] by (simp_all add: len_def)
    have "bounded_lines content limit r' = map (\<lambda>l. (take (Suc limit) l, limit < length l, length l)) (all_lines (drop (off + len) content))"
      using less.hyps [of "off + len" r'] True pos r'(2) less.prems(1,2) by simp
    then show ?thesis using True r'(1) fits
      by (subst bounded_lines.simps, subst all_lines.simps)
         (simp add: len_def [symmetric] add.commute del: length_take take_take)
  next
    case False
    then have "read_until content (sat_add64 limit 1) r = ([], snd (read_until content (sat_add64 limit 1) r))"
      using read_until_at [OF less.prems(3), of "sat_add64 limit 1"] off by auto
    then show ?thesis using False
      by (subst bounded_lines.simps) (auto simp: read_bounded_line_def all_lines.simps split: prod.splits)
  qed
qed

section \<open>A list is read once per version\<close>

fun set_records ::
  "string \<Rightarrow> string \<Rightarrow> u64 \<times> u64 \<times> u64 \<times> u64 \<Rightarrow> u64 \<Rightarrow> u64 \<Rightarrow> byte list list \<Rightarrow> source_record list" where
  "set_records name path identity at before [] = []"
| "set_records name path identity at before (l # ls) =
     set_record name path identity at (show_nat (snd (snd (snd identity))) @ '':'' @ show_nat (before + length l)) (before + length l)
       (set_payload (take (Suc MAX_CIDR_LINE_BYTES) l)) (MAX_CIDR_LINE_BYTES < length l)
     # set_records name path identity at (before + length l) ls"

lemma set_lines_records:
  assumes "before + length (concat ls) \<le> u64_max" "[] \<notin> set ls"
  shows "set_lines name path identity at before (map (\<lambda>l. (take (Suc MAX_CIDR_LINE_BYTES) l, MAX_CIDR_LINE_BYTES < length l, length l)) ls) =
    set_records name path identity at before ls"
  using assms by (induction ls arbitrary: before) (auto simp: sat_add64_exact add.assoc Let_def)

lemma set_records_append:
  "set_records name path identity at before (xs @ ys) =
   set_records name path identity at before xs @ set_records name path identity at (before + length (concat xs)) ys"
  by (induction xs arbitrary: before) (simp_all add: add.assoc)

lemma length_set_records [simp]: "length (set_records name path identity at before ls) = length ls"
  by (induction ls arbitrary: before) simp_all

lemma nth_set_records:
  "i < length ls \<Longrightarrow> sr_checkpoint (set_records name path (device, inode, modified, len) at before ls ! i) =
     AddressSetCheckpoint device inode modified len (before + length (concat (take (Suc i) ls)))"
  by (induction ls arbitrary: i before) (auto simp: nth_Cons' take_Cons' set_record_def add.assoc)

lemma all_lines_nonempty: "[] \<notin> set (all_lines bs)"
proof (induction bs rule: all_lines.induct)
  case (1 bs)
  then show ?case using line_length_pos [of bs] by (subst all_lines.simps) auto
qed

text \<open>Every version of a list of networks is read once. Starting without a checkpoint, or from
  the checkpoint of any record of the same version, a pass sends exactly the records still missing, one
  for each line; and as long as the metadata stay the same, no later pass sends anything.\<close>

theorem address_set_once:
  assumes m: "sm_identity m = Some (device, inode)" "sm_content m = Some content" "sm_len m = length content"
      "sm_receiver m" "\<not> sm_cancelled m" "length content \<le> u64_max" "content \<noteq> []"
    and records: "records = set_records name path (device, inode, modified_nanos m, length content) (sm_now m) 0 (all_lines content)"
    and k: "k \<le> length records" "c = (if k = 0 then None else Some (sr_checkpoint (records ! (k - 1))))"
  shows "\<exists>st. set_step name path m (set_start c) = Inr st \<and> sst_sent st = drop k records \<and>
     (\<forall>m'. sm_identity m' = sm_identity m \<and> sm_modified m' = sm_modified m \<and> sm_len m' = sm_len m \<longrightarrow>
        set_step name path m' st = Inr (st\<lparr> sst_stopped := sm_cancelled m' \<rparr>))"
proof -
  let ?L = "all_lines content"
  define identity where "identity = (device, inode, modified_nanos m, length content)"
  define off where "off = length (concat (take k ?L))"
  have kL: "k \<le> length ?L" using k(1) by (simp add: records)
  have off_le: "off \<le> length content"
    using arg_cong [OF concat_all_lines [of content], of length] append_take_drop_id [of k ?L]
    by (metis concat_append le_add1 length_append off_def)
  have resume: "sst_resume (set_start c) = (if k = 0 then None else Some (identity, off))"
    using k kL by (cases k) (simp_all add: set_start_def records nth_set_records identity_def off_def)
  have rest: "all_lines (drop off content) = drop k ?L" using all_lines_skip [OF kL] by (simp add: off_def)
  have size: "off + length (concat (drop k ?L)) = length content"
    by (metis append_take_drop_id concat_all_lines concat_append length_append off_def)
  have "bounded_lines content MAX_CIDR_LINE_BYTES (seek_start off) =
      map (\<lambda>l. (take (Suc MAX_CIDR_LINE_BYTES) l, MAX_CIDR_LINE_BYTES < length l, length l)) (drop k ?L)"
    using bounded_lines_at [OF _ m(6) reader_at_seek [OF off_le]] by (simp add: rest MAX_CIDR_LINE_BYTES_def width_simps)
  then have found: "set_lines name path identity (sm_now m) off (bounded_lines content MAX_CIDR_LINE_BYTES (seek_start off)) =
      drop k records"
    using set_lines_records [of off "drop k ?L" name path identity "sm_now m"] size m(6) all_lines_nonempty [of content]
      set_records_append [of name path identity "sm_now m" 0 "take k ?L" "drop k ?L"] kL
    by (simp add: records identity_def off_def [symmetric]) (metis in_set_dropD)
  have start: "\<not> sst_stopped (set_start c)" "sst_sent (set_start c) = []" by (simp_all add: set_start_def)
  define st where "st = (set_start c)\<lparr> sst_ready := True, sst_resume := Some (identity, length content), sst_stopped := False, sst_sent := drop k records \<rparr>"
  have "set_step name path m (set_start c) = Inr st"
  proof (cases "off < length content \<or> k = 0")
    case True
    have zero: "k = 0 \<Longrightarrow> off = 0" by (simp add: off_def)
    have "drop k ?L \<noteq> []" using True rest m(7) by (metis all_lines_Nil drop_0 drop_eq_Nil not_le)
    then have "drop k records \<noteq> []" using kL by (simp add: records)
    then show ?thesis using True found m start zero off_le
      by (cases "k = 0") (auto simp: set_step_def resume st_def identity_def [symmetric] Let_def min_def)
  next
    case False
    then have "drop k ?L = []" using off_le rest by (metis all_lines_Nil drop_eq_Nil not_less)
    then have "drop k records = []" using kL by (simp add: records)
    then show ?thesis using False m start off_le
      by (simp add: set_step_def resume st_def identity_def [symmetric] Let_def min_def)
  qed
  moreover have "set_step name path m' st = Inr (st\<lparr> sst_stopped := sm_cancelled m' \<rparr>)"
    if "sm_identity m' = sm_identity m" "sm_modified m' = sm_modified m" "sm_len m' = sm_len m" for m'
    using that m by (simp add: set_step_def st_def identity_def Let_def modified_nanos_def)
  ultimately show ?thesis by (auto simp: st_def)
qed

definition ex_set_moment :: set_moment where
  "ex_set_moment = \<lparr> sm_identity = Some (1, 2), sm_modified = 5, sm_len = 4, sm_content = Some [49, 10, 50, 51],
     sm_now = 9, sm_receiver = True, sm_cancelled = False \<rparr>"

theorem address_set_once_witness:
  "\<exists>st. set_step ''nets'' ''/n'' ex_set_moment (set_start (Some (AddressSetCheckpoint 1 2 5 4 2))) = Inr st \<and>
     sst_sent st = [set_record ''nets'' ''/n'' (1, 2, 5, 4) 9 ''4:4'' 4 (set_payload [50, 51]) False]"
proof -
  have lines: "all_lines [49, 10, 50, 51] = [[49, 10], [50, 51]]" by (simp add: all_lines.simps)
  have digit: "show_nat 4 = ''4''" "Suc (Suc (Suc (Suc 0))) = 4" by code_simp+
  show ?thesis
    using address_set_once [of ex_set_moment 1 2 "[49, 10, 50, 51]"
        "set_records ''nets'' ''/n'' (1, 2, 5, 4) 9 0 [[49, 10], [50, 51]]" "''nets''" "''/n''" 1 "Some (AddressSetCheckpoint 1 2 5 4 2)"]
    by (auto simp: ex_set_moment_def modified_nanos_def width_simps lines set_record_def MAX_CIDR_LINE_BYTES_def digit)
qed

section \<open>The journal in order\<close>

text \<open>An entry that is read becomes at most one record, and the source reports them in the order of
  the pipe; it ends with an error unless it was told to stop.\<close>

lemma journal_loop_sends:
  "list_all (\<lambda>f. \<exists>r. journal_entry J get name at f = Inr r) found \<Longrightarrow>
   journal_loop J get name (\<lambda>_. at) (\<lambda>_. True) None found sent =
     (sent @ List.map_filter (\<lambda>f. case journal_entry J get name at f of Inr r \<Rightarrow> r | Inl _ \<Rightarrow> None) found,
      Inl (Io ''journalctl source exited''))"
  by (induction found arbitrary: sent) (auto simp: List.map_filter_def Let_def split: option.splits)

lemma journal_loop_error: "snd (journal_loop J get name clock listening None found sent) \<noteq> Inr ()"
  by (induction found arbitrary: sent) (auto simp: Let_def split: sum.splits option.splits)

end
