(* ===== verification/Forwarding.thy ===== *)
theory Forwarding
  imports Backend_Pool Rule_Pipeline
begin

text \<open>
  Sending a request on and finishing the answer: bagel-web/src/proxy/mod.rs, \<open>strip_bagel_cookies\<close> of
  server/pipeline_evaluate.rs, and \<open>finalize_response\<close> with its helpers in server/pipeline.rs. What the
  http crate accepts as header text and names, and what happens on the wire, are arguments.
\<close>

section \<open>Header maps\<close>

definition unwrap_or :: "'a \<Rightarrow> 'a option \<Rightarrow> 'a" where
  "unwrap_or d x = (case x of None \<Rightarrow> d | Some y \<Rightarrow> y)"

definition header_values :: "string \<Rightarrow> header_map \<Rightarrow> string list" where
  "header_values name hs = map snd (filter (\<lambda>(n, _). n = name) hs)"

definition header_first :: "string \<Rightarrow> header_map \<Rightarrow> string option" where
  "header_first name hs = (case header_values name hs of [] \<Rightarrow> None | v # _ \<Rightarrow> Some v)"

definition header_remove :: "string \<Rightarrow> header_map \<Rightarrow> header_map" where
  "header_remove name hs = filter (\<lambda>(n, _). n \<noteq> name) hs"

definition header_append :: "string \<Rightarrow> string \<Rightarrow> header_map \<Rightarrow> header_map" where
  "header_append name v hs = hs @ [(name, v)]"

text \<open>\<open>HeaderValue::to_str\<close> and \<open>from_str\<close> succeed on visible text; a name parses to its lower-case form.\<close>

record forward_libs =
  fl_to_str :: "string \<Rightarrow> bool"
  fl_from_str :: "string \<Rightarrow> bool"
  fl_header_name :: "string \<Rightarrow> string option"
  fl_path_query :: "string \<Rightarrow> bool"
  fl_uri :: "string \<Rightarrow> string \<Rightarrow> string \<Rightarrow> bool"
  fl_v6_text :: v6_text
  fl_local :: "(ip_addr \<times> u16) option"
  fl_remote :: "(ip_addr \<times> u16) option"

definition header_str :: "forward_libs \<Rightarrow> string \<Rightarrow> header_map \<Rightarrow> string option" where
  "header_str L name hs = (case header_first name hs of None \<Rightarrow> None | Some v \<Rightarrow> if fl_to_str L v then Some v else None)"

section \<open>Hop-by-hop headers\<close>

definition connection_names :: "forward_libs \<Rightarrow> header_map \<Rightarrow> string list" where
  "connection_names L hs =
     List.map_filter (\<lambda>name. fl_header_name L (trim name))
       (concat (map (\<lambda>v. split_on CHR '','' (if fl_to_str L v then v else [])) (header_values ''connection'' hs)))"

definition HOP_BY_HOP :: "string list" where
  "HOP_BY_HOP = [''keep-alive'', ''proxy-connection'', ''proxy-authenticate'', ''proxy-authorization'', ''te'', ''trailer'', ''transfer-encoding'']"

definition strip_hop_by_hop_headers :: "forward_libs \<Rightarrow> bool \<Rightarrow> header_map \<Rightarrow> header_map" where
  "strip_hop_by_hop_headers L preserve_upgrade hs =
     (let listed = connection_names L hs;
          hs1 = fold (\<lambda>name hs. if preserve_upgrade \<and> (name = ''connection'' \<or> name = ''upgrade'') then hs else header_remove name hs) listed hs;
          hs2 = fold header_remove HOP_BY_HOP hs1
      in if preserve_upgrade then hs2 else header_remove ''upgrade'' (header_remove ''connection'' hs2))"

definition requested_upgrade :: "forward_libs \<Rightarrow> header_map \<Rightarrow> string option" where
  "requested_upgrade L hs =
     (case header_str L ''connection'' hs of None \<Rightarrow> None
      | Some connection \<Rightarrow>
          if list_ex (\<lambda>token. eq_ignore_case (trim token) ''upgrade'') (split_on CHR '','' connection)
          then header_first ''upgrade'' hs else None)"

section \<open>Sending a request on\<close>

text \<open>A request as it is forwarded: the authority and the path with query of its URI, the address of
  the client and the JA4 of a hello that was captured whole.\<close>

record fwd_request =
  fr_method :: string
  fr_authority :: "string option"
  fr_target :: "(string \<times> string option) option"
  fr_headers :: header_map
  fr_client :: "(ip_addr \<times> u16) option"
  fr_ja4 :: "string option"
  fr_body :: string

datatype out_uri = OriginForm string | AbsoluteForm string string string

record upstream =
  up_method :: string
  up_uri :: out_uri
  up_headers :: header_map
  up_body :: string

text \<open>What happens on the way to a backend: each awaited operation succeeds, fails or times out. A
  connection is made to an address, the preamble is written and the handshake made on a connection of
  its own, and a request is answered, there or through the pooled client.\<close>

datatype stage = Done | Broken | TimedOut

datatype exchange = NoAnswer stage | Answered response

record wire =
  wr_connect :: "string \<Rightarrow> stage"
  wr_write :: "byte list \<Rightarrow> stage"
  wr_handshake :: stage
  wr_answer :: "upstream \<Rightarrow> exchange"
  wr_pooled :: "upstream \<Rightarrow> exchange"

definition path_and_query :: "fwd_request \<Rightarrow> string" where
  "path_and_query req =
     (case fr_target req of None \<Rightarrow> ''/''
      | Some (path, query) \<Rightarrow> path @ (case query of None \<Rightarrow> [] | Some q \<Rightarrow> ''?'' @ q))"

definition bad_gateway :: response where
  "bad_gateway = body_text 502 ''bad gateway''"

definition backend_address :: "backend \<Rightarrow> string" where
  "backend_address b =
     unwrap_or [] (tu_host (bk_target b)) @ '':'' @ show_nat (unwrap_or 80 (tu_port (bk_target b)))"

definition unspecified :: "ip_addr \<times> u16" where
  "unspecified = (V4 0, 0)"

definition write_proxy_header :: "forward_libs \<Rightarrow> (ip_addr \<times> u16) option \<Rightarrow> proxy_protocol_version \<Rightarrow> byte list" where
  "write_proxy_header L client version =
     (let local = unwrap_or unspecified (fl_local L); client_addr = unwrap_or local client;
          dst = unwrap_or unspecified (fl_remote L)
      in case version of
           PPV1 \<Rightarrow> as_bytes (build_v1 (fl_v6_text L) client_addr dst)
         | PPV2 \<Rightarrow> build_v2 client_addr dst)"

text \<open>The headers in the order in which the code changes them.\<close>

definition host_header :: "forward_libs \<Rightarrow> backend \<Rightarrow> fwd_request \<Rightarrow> header_map" where
  "host_header L b req =
     (case bk_host b of
        Some host_override \<Rightarrow> header_insert ''host'' host_override (fr_headers req)
      | None \<Rightarrow>
          (case fr_authority req of
             Some authority \<Rightarrow>
               if header_values ''host'' (fr_headers req) = [] \<and> fl_from_str L authority
               then header_insert ''host'' authority (fr_headers req) else fr_headers req
           | None \<Rightarrow> fr_headers req))"

definition client_header :: "forward_libs \<Rightarrow> backend \<Rightarrow> fwd_request \<Rightarrow> header_map \<Rightarrow> header_map" where
  "client_header L b req hs =
     (case (bk_ip_header b, fr_client req) of
        (Some name, Some (ip, _)) \<Rightarrow> header_insert name (show_ip (fl_v6_text L) ip) hs
      | _ \<Rightarrow> hs)"

definition bagel_headers :: "forward_libs \<Rightarrow> byte list \<Rightarrow> fwd_request \<Rightarrow> header_map \<Rightarrow> header_map" where
  "bagel_headers L draw req hs =
     (let hs1 = (if fl_from_str L (hex_encode draw) then header_insert ''x-bagel-id'' (hex_encode draw) hs else hs);
          hs2 = header_remove ''x-bagel-ja4'' hs1
      in case fr_ja4 req of
           Some ja4 \<Rightarrow> if fl_from_str L ja4 then header_insert ''x-bagel-ja4'' ja4 hs2 else hs2
         | None \<Rightarrow> hs2)"

definition forwarded_headers :: "forward_libs \<Rightarrow> backend \<Rightarrow> byte list \<Rightarrow> fwd_request \<Rightarrow> header_map" where
  "forwarded_headers L b draw req =
     bagel_headers L draw req
       (strip_hop_by_hop_headers L (requested_upgrade L (fr_headers req) \<noteq> None) (client_header L b req (host_header L b req)))"

definition finish_response :: "forward_libs \<Rightarrow> response \<Rightarrow> response" where
  "finish_response L resp =
     resp\<lparr> rp_headers := header_insert ''via'' ''bagel/0.1'' (strip_hop_by_hop_headers L False (rp_headers resp)) \<rparr>"

definition await :: "stage \<Rightarrow> response + unit" where
  "await s = (if s = Done then Inr () else Inl bad_gateway)"

definition await_answer :: "exchange \<Rightarrow> response + response" where
  "await_answer e = (case e of NoAnswer _ \<Rightarrow> Inl bad_gateway | Answered resp \<Rightarrow> Inr resp)"

definition connect_backend :: "wire \<Rightarrow> string \<Rightarrow> response + unit" where
  "connect_backend W address = await (wr_connect W address)"

definition proxy_upgrade ::
  "forward_libs \<Rightarrow> wire \<Rightarrow> backend \<Rightarrow> (ip_addr \<times> u16) option \<Rightarrow> upstream \<Rightarrow> response + response" where
  "proxy_upgrade L W b client up =
     rbind (connect_backend W (backend_address b)) (\<lambda>_.
     rbind (case bc_proxy_protocol_out (bk_config b) of
              None \<Rightarrow> Inr () | Some version \<Rightarrow> await (wr_write W (write_proxy_header L client version))) (\<lambda>_.
     rbind (await (wr_handshake W)) (\<lambda>_.
     rbind (await_answer (wr_answer W up)) (\<lambda>resp.
       if rp_status resp \<noteq> 101 then Inr (finish_response L resp) else Inr (resp\<lparr> rp_body := [] \<rparr>)))))"

definition proxy_with_proxy_protocol ::
  "forward_libs \<Rightarrow> wire \<Rightarrow> backend \<Rightarrow> (ip_addr \<times> u16) option \<Rightarrow> proxy_protocol_version \<Rightarrow> upstream \<Rightarrow> response + response" where
  "proxy_with_proxy_protocol L W b client version up =
     rbind (connect_backend W (backend_address b)) (\<lambda>_.
     rbind (await (wr_write W (write_proxy_header L client version))) (\<lambda>_.
     rbind (await (wr_handshake W)) (\<lambda>_.
     rbind (await_answer (wr_answer W up)) (\<lambda>resp. Inr (finish_response L resp)))))"

definition proxy_request :: "forward_libs \<Rightarrow> wire \<Rightarrow> byte list \<Rightarrow> backend \<Rightarrow> fwd_request \<Rightarrow> response + response" where
  "proxy_request L W draw b req =
     (let pq = path_and_query req; scheme = unwrap_or [] (tu_scheme (bk_target b));
          authority = unwrap_or [] (tu_authority (bk_target b));
          upgrade = (requested_upgrade L (fr_headers req) \<noteq> None); out = bc_proxy_protocol_out (bk_config b);
          up = (\<lambda>uri. \<lparr> up_method = fr_method req, up_uri = uri, up_headers = forwarded_headers L b draw req, up_body = fr_body req \<rparr>)
      in rbind (if upgrade \<or> out \<noteq> None then Inr (OriginForm pq)
                else if fl_uri L scheme authority pq then Inr (AbsoluteForm scheme authority pq) else Inl bad_gateway) (\<lambda>uri.
         if upgrade then proxy_upgrade L W b (fr_client req) (up uri)
         else case out of
                Some version \<Rightarrow> proxy_with_proxy_protocol L W b (fr_client req) version (up uri)
              | None \<Rightarrow> rbind (await_answer (wr_pooled W (up uri))) (\<lambda>resp. Inr (finish_response L resp))))"

text \<open>\<open>Ok(resp) | Err(resp) => resp\<close>.\<close>

definition either_response :: "response + response \<Rightarrow> response" where
  "either_response r = (case r of Inl resp \<Rightarrow> resp | Inr resp \<Rightarrow> resp)"

definition proxy_to_named ::
  "forward_libs \<Rightarrow> wire \<Rightarrow> byte list \<Rightarrow> backend_pool \<Rightarrow> proxy_marker \<Rightarrow> fwd_request \<Rightarrow> response" where
  "proxy_to_named L W draw pool marker req =
     (case pool_by_name pool (pm_backend marker) of
        None \<Rightarrow> bad_gateway
      | Some b \<Rightarrow>
          (case pm_rewritten_path marker of
             None \<Rightarrow> either_response (proxy_request L W draw b req)
           | Some path \<Rightarrow>
               let query = Option.bind (fr_target req) snd;
                   pq = (if CHR ''?'' \<in> set path then path else case query of Some q \<Rightarrow> path @ ''?'' @ q | None \<Rightarrow> path)
               in if \<not> fl_path_query L pq then bad_gateway
                  else either_response (proxy_request L W draw b (req\<lparr> fr_target := Some
                    (case split_once CHR ''?'' pq of None \<Rightarrow> (pq, None) | Some (p, q) \<Rightarrow> (p, Some q)) \<rparr>))))"

section \<open>Finishing the answer\<close>

definition strip_bagel_cookies :: "(byte list \<Rightarrow> byte list) \<Rightarrow> forward_libs \<Rightarrow> string \<Rightarrow> header_map \<Rightarrow> header_map" where
  "strip_bagel_cookies sha256 L host hs =
     (case header_str L ''cookie'' hs of None \<Rightarrow> hs
      | Some text \<Rightarrow>
          let cleaned = filter (\<lambda>cookie. case split_once CHR ''='' cookie of
                            Some (name, _) \<Rightarrow> trim name \<noteq> cookie_name sha256 host | None \<Rightarrow> True)
                          (map trim (split_on CHR '';'' text))
          in if cleaned = [] then header_remove ''cookie'' hs
             else if fl_from_str L (join_with ''; '' cleaned) then header_insert ''cookie'' (join_with ''; '' cleaned) hs else hs)"

definition VARY_FIELDS :: "string list" where
  "VARY_FIELDS = [''Cookie'', ''Accept'', ''Accept-Encoding'', ''Accept-Language'', ''User-Agent'']"

definition vary_fields :: "forward_libs \<Rightarrow> header_map \<Rightarrow> string list" where
  "vary_fields L hs =
     filter (\<lambda>field. field \<noteq> []) (map trim (concat (map (split_on CHR '','') (filter (fl_to_str L) (header_values ''vary'' hs)))))"

definition merge_vary :: "forward_libs \<Rightarrow> header_map \<Rightarrow> header_map" where
  "merge_vary L hs =
     (let existing = vary_fields L hs in
      if ''*'' \<in> set existing then hs
      else let merged = existing @ filter (\<lambda>field. \<not> list_ex (\<lambda>have. eq_ignore_case have field) existing) VARY_FIELDS in
        if fl_from_str L (join_with '', '' merged) then header_insert ''vary'' (join_with '', '' merged) hs else hs)"

definition inject_fragments :: "forward_libs \<Rightarrow> string list \<Rightarrow> response \<Rightarrow> response" where
  "inject_fragments L fragments resp =
     (let is_html = (case header_str L ''content-type'' (rp_headers resp) of None \<Rightarrow> False | Some ct \<Rightarrow> starts_with ''text/html'' ct);
          encoded = (header_values ''content-encoding'' (rp_headers resp) \<noteq> [])
      in if rp_status resp \<noteq> 200 \<or> \<not> is_html \<or> encoded then resp
         else let tail_text = concat fragments;
                  headers = (case Option.bind (header_str L ''content-length'' (rp_headers resp)) (parse_unsigned u64_max) of
                       None \<Rightarrow> rp_headers resp
                     | Some len \<Rightarrow>
                         if len + length tail_text \<le> u64_max
                         then header_insert ''content-length'' (show_nat (len + length tail_text)) (rp_headers resp)
                         else header_remove ''content-length'' (rp_headers resp))
              in resp\<lparr> rp_headers := headers, rp_body := rp_body resp @ tail_text \<rparr>)"

definition NO_STORE :: string where "NO_STORE = ''private, no-store''"

text \<open>The connection is cut for a dropped request, when there is a handle to cut it with.\<close>

datatype final = Cut | Replied response

record finalize_context =
  fz_pool :: backend_pool
  fz_backend :: backend
  fz_host :: string
  fz_host_is_ip :: bool
  fz_client :: "ip_addr option"
  fz_drop_handle :: bool
  fz_sha256 :: "byte list \<Rightarrow> byte list"
  fz_sealing :: sealing
  fz_nonce :: "byte list option"
  fz_server_key :: "byte list"
  fz_draw :: "byte list"

definition clean_request :: "forward_libs \<Rightarrow> finalize_context \<Rightarrow> request_challenge_state \<Rightarrow> fwd_request \<Rightarrow> fwd_request" where
  "clean_request L F cs req =
     (let headers = strip_bagel_cookies (fz_sha256 F) L (fz_host F) (fr_headers req) in
      req\<lparr> fr_target := map_option (\<lambda>(path, query). (path, strip_bagel_query query)) (fr_target req),
           fr_headers := (if rc_injections cs = [] then headers else header_remove ''accept-encoding'' headers) \<rparr>)"

definition materialize :: "forward_libs \<Rightarrow> wire \<Rightarrow> finalize_context \<Rightarrow> response option \<Rightarrow> fwd_request \<Rightarrow> response" where
  "materialize L W F rule_resp req =
     (case rule_resp of
        None \<Rightarrow> either_response (proxy_request L W (fz_draw F) (fz_backend F) req)
      | Some r \<Rightarrow>
          let req1 = (case rp_pending_request r of None \<Rightarrow> req | Some pending \<Rightarrow> req\<lparr> fr_headers := insert_all pending (fr_headers req) \<rparr>);
              resp = (case rp_proxy r of
                        Some marker \<Rightarrow> proxy_to_named L W (fz_draw F) (fz_pool F) marker req1
                      | None \<Rightarrow> if rp_pass r then either_response (proxy_request L W (fz_draw F) (fz_backend F) req1) else r)
          in (case rp_pending_response r of None \<Rightarrow> resp | Some pending \<Rightarrow> resp\<lparr> rp_headers := insert_all pending (rp_headers resp) \<rparr>))"

definition finish_headers :: "forward_libs \<Rightarrow> request_challenge_state \<Rightarrow> response \<Rightarrow> response" where
  "finish_headers L cs resp =
     (let resp1 = (if rc_injections cs = [] then resp
                   else let injected = inject_fragments L (rc_injections cs) resp in
                     injected\<lparr> rp_headers := header_insert ''cache-control'' NO_STORE (rp_headers injected) \<rparr>)
      in resp1\<lparr> rp_headers := merge_vary L (rp_headers resp1) \<rparr>)"

definition finalize_response ::
  "forward_libs \<Rightarrow> wire \<Rightarrow> finalize_context \<Rightarrow> terminal \<Rightarrow> request_challenge_state \<Rightarrow> fwd_request \<Rightarrow> final" where
  "finalize_response L W F t cs req =
     (let answer = (\<lambda>rule_resp.
            let resp = finish_headers L cs (materialize L W F rule_resp (clean_request L F cs req)) in
            case seal_cookie (fz_sha256 F) (fz_sealing F) (fz_nonce F) (fz_host F) (fz_host_is_ip F) (fz_server_key F) (fz_client F) cs of
              Inl _ \<Rightarrow> Replied (body_status 500)
            | Inr None \<Rightarrow> Replied resp
            | Inr (Some cookie) \<Rightarrow> Replied (resp\<lparr> rp_headers :=
                header_insert ''cache-control'' NO_STORE (header_append ''set-cookie'' cookie (rp_headers resp)) \<rparr>))
      in case t of
           TNone \<Rightarrow> answer None
         | THandled resp \<Rightarrow> answer (Some resp)
         | TDropped _ \<Rightarrow> if fz_drop_handle F then Cut else Replied (body_status 500))"

end
