(* ===== verification/Forward_Theorems.thy ===== *)
theory Forward_Theorems
  imports Forwarding
begin

text \<open>
  What reaches a backend and what reaches the client: which headers survive forwarding, what becomes
  of cookies, and how an answer is finished.
\<close>

section \<open>Header maps\<close>

named_theorems header_simps "the values a header map holds after an operation"

lemma header_values_remove [header_simps]:
  "header_values n (header_remove m hs) = (if n = m then [] else header_values n hs)"
  by (induction hs) (auto simp: header_values_def header_remove_def)

lemma header_values_insert [header_simps]:
  "header_values n (header_insert m v hs) = (if n = m then [v] else header_values n hs)"
  by (induction hs) (auto simp: header_values_def header_insert_def)

lemma header_values_append [header_simps]:
  "header_values n (header_append m v hs) = header_values n hs @ (if n = m then [v] else [])"
  by (simp add: header_values_def header_append_def)

lemma header_values_removes [header_simps]:
  "header_values n (fold header_remove names hs) = (if n \<in> set names then [] else header_values n hs)"
  by (induction names arbitrary: hs) (auto simp: header_simps)

lemma header_values_listed:
  "header_values n (fold (\<lambda>name hs. if keep name then hs else header_remove name hs) names hs) =
     (if n \<in> set names \<and> \<not> keep n then [] else header_values n hs)"
  by (induction names arbitrary: hs) (auto simp: header_simps)

lemma connection_names_cong:
  "header_values ''connection'' hs = header_values ''connection'' hs' \<Longrightarrow> connection_names L hs = connection_names L hs'"
  by (simp add: connection_names_def)

section \<open>What reaches the backend\<close>

text \<open>The names that end at this hop: those \<open>Connection\<close> lists, the fixed ones, and \<open>Connection\<close> and
  \<open>Upgrade\<close> themselves unless the request switches protocols.\<close>

definition hop_name :: "forward_libs \<Rightarrow> header_map \<Rightarrow> bool \<Rightarrow> string \<Rightarrow> bool" where
  "hop_name L hs upgrade n \<longleftrightarrow>
     (if n = ''connection'' \<or> n = ''upgrade'' then \<not> upgrade else n \<in> set (connection_names L hs) \<or> n \<in> set HOP_BY_HOP)"

lemma header_values_strip [header_simps]:
  "header_values n (strip_hop_by_hop_headers L upgrade hs) = (if hop_name L hs upgrade n then [] else header_values n hs)"
proof -
  have "n = ''connection'' \<or> n = ''upgrade'' \<Longrightarrow> n \<notin> set HOP_BY_HOP" by (auto simp: HOP_BY_HOP_def)
  then show ?thesis
    by (auto simp: strip_hop_by_hop_headers_def hop_name_def header_simps header_values_listed Let_def)
qed

lemma host_header_other [header_simps]: "n \<noteq> ''host'' \<Longrightarrow> header_values n (host_header L b req) = header_values n (fr_headers req)"
  by (auto simp: host_header_def header_simps split: option.splits)

lemma client_header_other [header_simps]:
  "bk_ip_header b \<noteq> Some n \<Longrightarrow> header_values n (client_header L b req hs) = header_values n hs"
  by (auto simp: client_header_def header_simps split: option.splits)

lemma bagel_headers_other [header_simps]:
  "n \<noteq> ''x-bagel-id'' \<Longrightarrow> n \<noteq> ''x-bagel-ja4'' \<Longrightarrow> header_values n (bagel_headers L draw req hs) = header_values n hs"
  by (auto simp: bagel_headers_def header_simps Let_def split: option.splits)

lemma hop_name_forwarded:
  assumes "bk_ip_header b \<noteq> Some ''connection''"
  shows "hop_name L (client_header L b req (host_header L b req)) = hop_name L (fr_headers req)"
proof -
  have "connection_names L (client_header L b req (host_header L b req)) = connection_names L (fr_headers req)"
    using assms by (intro connection_names_cong) (simp add: header_simps)
  then show ?thesis by (simp add: fun_eq_iff hop_name_def)
qed


text \<open>C5. A client can keep its address from the backend. The header that carries the client address
  is set before the hop-by-hop headers are removed, so the backend receives it, with exactly the
  client's address, only if the client did not name it in its Connection header.\<close>

theorem client_address_strippable:
  assumes "bk_ip_header b = Some n" "fr_client req = Some (ip, port)"
    and "n \<notin> {''connection'', ''upgrade'', ''host'', ''x-bagel-id'', ''x-bagel-ja4''}" "n \<notin> set HOP_BY_HOP"
  shows "header_values n (forwarded_headers L b draw req) =
    (if n \<in> set (connection_names L (fr_headers req)) then [] else [show_ip (fl_v6_text L) ip])"
proof -
  have "header_values n (client_header L b req (host_header L b req)) = [show_ip (fl_v6_text L) ip]"
    using assms(1,2) by (simp add: client_header_def header_simps)
  then show ?thesis
    using assms by (auto simp: forwarded_headers_def header_simps hop_name_forwarded hop_name_def)
qed

section \<open>Cookies\<close>

text \<open>Only the first Cookie field survives. Removing bagel's own cookie reads the first field and
  replaces all of them with it, so the cookies of further fields, into which HTTP/2 clients may split
  the header, do not reach the backend.\<close>

theorem later_cookies_lost:
  assumes "header_values ''cookie'' hs = first # others" "fl_to_str L first" "\<forall>s. fl_from_str L s"
    and "cleaned = filter (\<lambda>cookie. case split_once CHR ''='' cookie of
           Some (name, _) \<Rightarrow> trim name \<noteq> cookie_name sha256 host | None \<Rightarrow> True) (map trim (split_on CHR '';'' first))"
  shows "header_values ''cookie'' (strip_bagel_cookies sha256 L host hs) = (if cleaned = [] then [] else [join_with ''; '' cleaned])"
  using assms by (simp add: strip_bagel_cookies_def header_str_def header_first_def header_simps Let_def)

section \<open>What reaches the client\<close>

lemma header_str_insert: "header_str L n (header_insert n v hs) = (if fl_to_str L v then Some v else None)"
  by (simp add: header_str_def header_first_def header_simps)

text \<open>Injection keeps the length right. When the declared length is the length of the body, the
  declared length of an answer with fragments appended is the length of the new body.\<close>

theorem injected_length_exact:
  assumes "Option.bind (header_str L ''content-length'' (rp_headers resp)) (parse_unsigned u64_max) = Some (length (rp_body resp))"
    and "length (rp_body resp) + length (concat fragments) \<le> u64_max" "\<forall>n. fl_to_str L (show_nat n)"
  shows "Option.bind (header_str L ''content-length'' (rp_headers (inject_fragments L fragments resp))) (parse_unsigned u64_max) =
    Some (length (rp_body (inject_fragments L fragments resp)))"
  using assms parse_show_nat
  by (simp add: inject_fragments_def Let_def header_str_insert)

lemma merge_vary_other: "n \<noteq> ''vary'' \<Longrightarrow> header_values n (merge_vary L hs) = header_values n hs"
  by (simp add: merge_vary_def header_simps Let_def)

text \<open>Personal answers are not cached. An answer that carries a sealed session cookie or injected
  fragments is marked private and not to be stored, whatever the backend or the rules declared, and the
  cookie is the last one set.\<close>

theorem personal_answers_private:
  assumes "seal_cookie (fz_sha256 F) (fz_sealing F) (fz_nonce F) (fz_host F) (fz_host_is_ip F) (fz_server_key F) (fz_client F) cs = Inr c"
    and "c \<noteq> None \<or> rc_injections cs \<noteq> []" "\<forall>rule. t \<noteq> TDropped rule"
  shows "\<exists>r. finalize_response L W F t cs req = Replied r \<and>
     header_values ''cache-control'' (rp_headers r) = [''private, no-store''] \<and>
     (\<forall>cookie. c = Some cookie \<longrightarrow> last (header_values ''set-cookie'' (rp_headers r)) = cookie)"
proof -
  define answer where "answer rule_resp = finish_headers L cs (materialize L W F rule_resp (clean_request L F cs req))" for rule_resp
  have injected: "header_values ''cache-control'' (rp_headers (answer rule_resp)) = [NO_STORE]" if "rc_injections cs \<noteq> []" for rule_resp
    using that by (simp add: answer_def finish_headers_def merge_vary_other header_simps Let_def)
  define rule_resp where "rule_resp = (case t of THandled resp \<Rightarrow> Some resp | _ \<Rightarrow> None)"
  have "finalize_response L W F t cs req =
      (case c of None \<Rightarrow> Replied (answer rule_resp)
       | Some cookie \<Rightarrow> Replied ((answer rule_resp)\<lparr> rp_headers :=
           header_insert ''cache-control'' NO_STORE (header_append ''set-cookie'' cookie (rp_headers (answer rule_resp))) \<rparr>))"
    using assms(1,3) by (cases t; cases c) (simp_all add: finalize_response_def answer_def rule_resp_def Let_def)
  then show ?thesis using assms(2) injected [of rule_resp]
    by (cases c) (simp_all add: header_simps NO_STORE_def)
qed

section \<open>Concrete requests\<close>

definition ex_forward :: forward_libs where
  "ex_forward = \<lparr> fl_to_str = (\<lambda>_. True), fl_from_str = (\<lambda>_. True), fl_header_name = (\<lambda>s. if s = [] then None else Some (to_lowercase s)),
     fl_path_query = (\<lambda>_. True), fl_uri = (\<lambda>_ _ _. True), fl_v6_text = \<lparr> v6_parse = (\<lambda>_. None), v6_show = (\<lambda>_. []) \<rparr>,
     fl_local = None, fl_remote = None \<rparr>"

definition ex_backend :: backend where
  "ex_backend = \<lparr> bk_config = example_config ''app.example'',
     bk_target = \<lparr> tu_scheme = Some ''http'', tu_host = Some ''h'', tu_authority = Some ''h'', tu_port = None, tu_path = ''/'', tu_query = None \<rparr>,
     bk_host = None, bk_ip_header = Some ''x-real-ip'', bk_theme = example_theme \<rparr>"

definition ex_fwd :: "header_map \<Rightarrow> fwd_request" where
  "ex_fwd hs = \<lparr> fr_method = ''GET'', fr_authority = None, fr_target = Some (''/'', None), fr_headers = hs,
     fr_client = Some (V4 0x01020304, 9), fr_ja4 = None, fr_body = [] \<rparr>"

lemma ex_names:
  "connection_names ex_forward [(''connection'', ''X-Real-IP, close''), (''accept'', ''text/html'')] = [''x-real-ip'', ''close'']"
  by code_simp


theorem client_address_strippable_witness:
  "header_values ''x-real-ip'' (forwarded_headers ex_forward ex_backend [1]
      (ex_fwd [(''connection'', ''X-Real-IP, close''), (''accept'', ''text/html'')])) = []"
  using client_address_strippable [of ex_backend "''x-real-ip''" "ex_fwd [(''connection'', ''X-Real-IP, close''), (''accept'', ''text/html'')]"
      "V4 0x01020304" 9 ex_forward "[1]"] ex_names
  by (simp add: ex_backend_def ex_fwd_def HOP_BY_HOP_def)

theorem later_cookies_lost_witness:
  "header_values ''cookie'' (strip_bagel_cookies (\<lambda>_. []) ex_forward ''h'' [(''cookie'', ''a=1''), (''cookie'', ''b=2'')]) = [''a=1'']"
proof -
  have two: "header_values ''cookie'' [(''cookie'', ''a=1''), (''cookie'', ''b=2'')] = [''a=1'', ''b=2'']"
    by (simp add: header_values_def)
  have cleaned: "filter (\<lambda>cookie. case split_once CHR ''='' cookie of
           Some (name, _) \<Rightarrow> trim name \<noteq> cookie_name (\<lambda>_. []) ''h'' | None \<Rightarrow> True) (map trim (split_on CHR '';'' ''a=1'')) = [''a=1'']"
    by code_simp
  show ?thesis
    using later_cookies_lost [OF two, of ex_forward "[''a=1'']" "\<lambda>_. []" "''h''"] cleaned by (simp add: ex_forward_def)
qed

theorem injected_length_exact_witness:
  "Option.bind (header_str ex_forward ''content-length'' (rp_headers (inject_fragments ex_forward [''x'', ''y'']
      (body_response 200 [(''content-type'', ''text/html''), (''content-length'', ''3'')] ''abc'')))) (parse_unsigned u64_max) = Some 5"
proof -
  have three: "show_nat 3 = ''3''" by code_simp
  have given: "Option.bind (header_str ex_forward ''content-length'' (rp_headers (body_response 200 [(''content-type'', ''text/html''), (''content-length'', ''3'')] ''abc'')))
      (parse_unsigned u64_max) = Some 3"
    using parse_show_nat [of 3 u64_max] three by (simp add: header_str_def header_first_def header_values_def body_response_def ex_forward_def width_simps)
  have len: "length (rp_body (inject_fragments ex_forward [''x'', ''y''] (body_response 200 [(''content-type'', ''text/html''), (''content-length'', ''3'')] ''abc''))) = 5"
    by (simp add: inject_fragments_def header_str_def header_first_def header_values_def body_response_def ex_forward_def starts_with_def Let_def)
  have body: "length (rp_body (body_response 200 [(''content-type'', ''text/html''), (''content-length'', ''3'')] ''abc'')) = 3" by (simp add: body_response_def)
  show ?thesis
    using injected_length_exact [of ex_forward "body_response 200 [(''content-type'', ''text/html''), (''content-length'', ''3'')] ''abc''" "[''x'', ''y'']"]
    unfolding given len body by (simp add: ex_forward_def width_simps)
qed

definition ex_finalize :: finalize_context where
  "ex_finalize = \<lparr> fz_pool = \<lparr> bp_exact = [], bp_wildcard = [], bp_fallback = None \<rparr>, fz_backend = ex_backend, fz_host = ''h'', fz_host_is_ip = False,
     fz_client = None, fz_drop_handle = True, fz_sha256 = (\<lambda>_. []),
     fz_sealing = toy_sealing example_token, fz_nonce = None, fz_server_key = [], fz_draw = [1] \<rparr>"

definition ex_wire :: wire where
  "ex_wire = \<lparr> wr_connect = (\<lambda>_. Done), wr_write = (\<lambda>_. Done), wr_handshake = Done, wr_answer = (\<lambda>_. NoAnswer Broken),
     wr_pooled = (\<lambda>_. Answered (body_html 200 ''page'')) \<rparr>"

theorem personal_answers_private_witness:
  "\<exists>r. finalize_response ex_forward ex_wire ex_finalize TNone (rc_empty\<lparr> rc_injections := [''x''] \<rparr>) (ex_fwd []) = Replied r \<and>
     header_values ''cache-control'' (rp_headers r) = [''private, no-store'']"
proof -
  have "seal_cookie (fz_sha256 ex_finalize) (fz_sealing ex_finalize) (fz_nonce ex_finalize) (fz_host ex_finalize) (fz_host_is_ip ex_finalize)
      (fz_server_key ex_finalize) (fz_client ex_finalize) (rc_empty\<lparr> rc_injections := [''x''] \<rparr>) = Inr None"
    by (simp add: seal_cookie_def rc_empty_def)
  from personal_answers_private [OF this, of TNone ex_forward ex_wire "ex_fwd []"]
  show ?thesis by auto
qed

end
