(* ===== verification/Trap_Listener.thy ===== *)
theory Trap_Listener
  imports Defense_Model Web_Text "HOL-Library.Sublist"
begin

text \<open>
  Traps and tarpits. bagel-traps/src/classify.rs and category.rs: which requests are trapped. The
  tarpits of bagel-runtime: pacing and the SSH banner (tarpit.rs), admission per source (state.rs) and
  the endpoints with their connection slots and counters (server.rs) as a step relation, one step for
  each thing that can happen to a connection. bagel-web/src/smear.rs pays out a page at that pace. A
  regex set is a list of compiled patterns; random draws and the clock are arguments. Metrics and log
  lines are left out.
\<close>

section \<open>Classification\<close>

definition decode_path :: "string \<Rightarrow> string" where
  "decode_path path = (if CHR ''%'' \<in> set path then utf8_lossy (percent_bytes path) else path)"

datatype trap_reason = TrapPath nat | TrapUserAgent nat | TrapRate | TrapImpersonator nat

datatype trap_outcome = ProxyOn | Tarpit trap_reason

record ('net, 're) known_crawler =
  kc_ua :: 're
  kc_networks :: "'net list"

record ('net, 're) classifier =
  cl_traps :: "'re list"
  cl_ua_traps :: "'re list"
  cl_whitelist :: "'net list"
  cl_verified :: "('net, 're) known_crawler list"

definition trap_network :: "'net ipnet \<Rightarrow> string \<Rightarrow> 'net result" where
  "trap_network N s = ok_or (Network s) (net_parse N s)"

definition trap_regex :: "'re regex_lib \<Rightarrow> string \<Rightarrow> 're result" where
  "trap_regex X s = ok_or (Pattern s) (rx_new X s)"

definition new_classifier ::
  "'net ipnet \<Rightarrow> 're regex_lib \<Rightarrow> string list \<Rightarrow> string list \<Rightarrow> string list \<Rightarrow> ('net, 're) classifier result" where
  "new_classifier N X patterns ua_patterns whitelist =
     rbind (collect_results (trap_regex X) patterns) (\<lambda>traps.
     rbind (collect_results (trap_regex X) ua_patterns) (\<lambda>ua_traps.
     rbind (collect_results (trap_network N) whitelist) (\<lambda>networks.
       Inr \<lparr> cl_traps = traps, cl_ua_traps = ua_traps, cl_whitelist = networks, cl_verified = [] \<rparr>)))"

definition with_crawler_policy ::
  "'net ipnet \<Rightarrow> 're regex_lib \<Rightarrow> (string \<times> string \<times> string list) list \<Rightarrow> string list \<Rightarrow> ('net, 're) classifier \<Rightarrow>
   ('net, 're) classifier result" where
  "with_crawler_policy N X verified_crawlers no_block_networks c =
     rbind (collect_results (\<lambda>(_, ua, cidrs).
         rbind (trap_regex X ua) (\<lambda>re.
         rbind (collect_results (trap_network N) cidrs) (\<lambda>networks. Inr \<lparr> kc_ua = re, kc_networks = networks \<rparr>)))
       verified_crawlers) (\<lambda>verified. Inr (c\<lparr> cl_verified := verified \<rparr>))"

definition is_whitelisted :: "'net ipnet \<Rightarrow> ('net, 're) classifier \<Rightarrow> ip_addr \<Rightarrow> bool" where
  "is_whitelisted N c ip \<longleftrightarrow> list_ex (\<lambda>net. net_contains N net ip) (cl_whitelist c)"

text \<open>The first pattern of a set that matches.\<close>

definition first_match :: "'re regex_lib \<Rightarrow> 're list \<Rightarrow> string \<Rightarrow> nat option" where
  "first_match X res text = List.find (\<lambda>i. rx_is_match X (res ! i) text) [0..<length res]"

fun crawler_check ::
  "'net ipnet \<Rightarrow> 're regex_lib \<Rightarrow> string \<Rightarrow> ip_addr \<Rightarrow> nat \<Rightarrow> ('net, 're) known_crawler list \<Rightarrow> trap_outcome option" where
  "crawler_check N X ua ip i [] = None"
| "crawler_check N X ua ip i (crawler # rest) =
     (if rx_is_match X (kc_ua crawler) ua
      then Some (if list_ex (\<lambda>net. net_contains N net ip) (kc_networks crawler) then ProxyOn else Tarpit (TrapImpersonator i))
      else crawler_check N X ua ip (Suc i) rest)"

definition classify ::
  "'net ipnet \<Rightarrow> 're regex_lib \<Rightarrow> ('net, 're) classifier \<Rightarrow> string \<Rightarrow> string option \<Rightarrow> ip_addr \<Rightarrow> trap_outcome" where
  "classify N X c path user_agent ip =
     (if is_whitelisted N c ip then ProxyOn
      else case (case user_agent of None \<Rightarrow> None | Some ua \<Rightarrow> crawler_check N X ua ip 0 (cl_verified c)) of
        Some outcome \<Rightarrow> outcome
      | None \<Rightarrow>
          (case first_match X (cl_traps c) (decode_path path) of
             Some i \<Rightarrow> Tarpit (TrapPath i)
           | None \<Rightarrow>
               (case (case user_agent of None \<Rightarrow> None | Some ua \<Rightarrow> first_match X (cl_ua_traps c) ua) of
                  Some i \<Rightarrow> Tarpit (TrapUserAgent i)
                | None \<Rightarrow> ProxyOn)))"

datatype category = PathTraversal | CgiRce | VcsLeak | ContainerInfra | Wordpress | EnvSecrets | AdminPanel | Php | OtherCategory | Ssh | Scraper

definition ALL_CATEGORIES :: "category list" where
  "ALL_CATEGORIES = [PathTraversal, CgiRce, VcsLeak, ContainerInfra, Wordpress, EnvSecrets, AdminPanel, Php, OtherCategory, Ssh, Scraper]"

fun category_label :: "category \<Rightarrow> string" where
  "category_label PathTraversal = ''path_traversal''"
| "category_label CgiRce = ''cgi_rce''"
| "category_label VcsLeak = ''vcs_leak''"
| "category_label ContainerInfra = ''container_infra''"
| "category_label Wordpress = ''wordpress''"
| "category_label EnvSecrets = ''env_secrets''"
| "category_label AdminPanel = ''admin_panel''"
| "category_label Php = ''php''"
| "category_label OtherCategory = ''other''"
| "category_label Ssh = ''ssh''"
| "category_label Scraper = ''scraper''"

fun category_index :: "category \<Rightarrow> nat" where
  "category_index PathTraversal = 0"
| "category_index CgiRce = 1"
| "category_index VcsLeak = 2"
| "category_index ContainerInfra = 3"
| "category_index Wordpress = 4"
| "category_index EnvSecrets = 5"
| "category_index AdminPanel = 6"
| "category_index Php = 7"
| "category_index OtherCategory = 8"
| "category_index Ssh = 9"
| "category_index Scraper = 10"

definition category_from_index :: "nat \<Rightarrow> category" where
  "category_from_index i = (if i < length ALL_CATEGORIES then ALL_CATEGORIES ! i else OtherCategory)"

definition categorize :: "'re regex_lib \<Rightarrow> 're list \<Rightarrow> string \<Rightarrow> category" where
  "categorize X patterns path = (case first_match X patterns path of None \<Rightarrow> OtherCategory | Some i \<Rightarrow> ALL_CATEGORIES ! i)"

section \<open>Pacing\<close>

record dribble =
  db_min_delay_ms :: u64
  db_max_delay_ms :: u64
  db_chunk_min :: usize
  db_chunk_max :: usize

text \<open>\<open>random_range(lo..=hi)\<close> on a raw draw.\<close>

definition in_range :: "nat \<Rightarrow> nat \<Rightarrow> nat \<Rightarrow> nat" where
  "in_range lo hi draw = lo + draw mod (hi - lo + 1)"

definition dribble_next :: "dribble \<Rightarrow> nat \<times> nat \<Rightarrow> usize \<Rightarrow> usize \<times> u64" where
  "dribble_next d draws remain =
     (let lo = max (db_chunk_min d) 1; hi = max (db_chunk_max d) lo;
          chunk = min (in_range lo hi (fst draws)) remain;
          delay = in_range (db_min_delay_ms d) (max (db_max_delay_ms d) (db_min_delay_ms d)) (snd draws)
      in (chunk, delay))"

text \<open>\<open>DribbleBody::poll_frame\<close>. The state is what is left of the page, the deadline, and when the
  pause after the last chunk is over; a poll is given the time and two draws.\<close>

record dribble_body =
  dbd_data :: "byte list"
  dbd_pos :: usize
  dbd_schedule :: dribble
  dbd_deadline :: nat
  dbd_sleep :: "nat option"

datatype body_frame = EndOfBody | Waiting | Chunk "byte list"

definition poll_frame :: "nat \<Rightarrow> nat \<times> nat \<Rightarrow> dribble_body \<Rightarrow> body_frame \<times> dribble_body" where
  "poll_frame now draws b =
     (if length (dbd_data b) \<le> dbd_pos b \<or> dbd_deadline b \<le> now then (EndOfBody, b)
      else if (case dbd_sleep b of Some wake \<Rightarrow> now < wake | None \<Rightarrow> False) then (Waiting, b)
      else let (len, delay) = dribble_next (dbd_schedule b) draws (length (dbd_data b) - dbd_pos b);
               chunk = take len (drop (dbd_pos b) (dbd_data b))
        in (Chunk chunk, b\<lparr> dbd_pos := dbd_pos b + len,
                            dbd_sleep := Some (now + min delay (dbd_deadline b - now)) \<rparr>))"

fun poll_all :: "(nat \<times> nat \<times> nat) list \<Rightarrow> dribble_body \<Rightarrow> byte list \<times> dribble_body" where
  "poll_all [] b = ([], b)"
| "poll_all ((now, draws) # polls) b =
     (case poll_frame now draws b of
        (EndOfBody, b1) \<Rightarrow> ([], b1)
      | (Waiting, b1) \<Rightarrow> poll_all polls b1
      | (Chunk c, b1) \<Rightarrow> (let (rest, b2) = poll_all polls b1 in (c @ rest, b2)))"

text \<open>One line of the SSH tarpit: printable characters, never the prefix that ends the banner.\<close>

definition ssh_line :: "usize \<Rightarrow> nat \<Rightarrow> nat list \<Rightarrow> byte list" where
  "ssh_line line_length length_draw draws =
     (let len = in_range 1 line_length length_draw;
          line = map (\<lambda>i. of_nat (in_range 0x20 0x7E (draws ! i))) [0..<len];
          line = (if take 4 line = [0x53, 0x53, 0x48, 0x2D] then line[0 := 0x78] else line)
      in line @ [10])"

text \<open>The loop around it. A turn is the time it starts, its draws, and whether the write and the pause
  came through.\<close>

record ssh_turn =
  stn_now :: u64
  stn_length :: nat
  stn_draws :: "nat list"
  stn_written :: bool
  stn_slept :: bool

fun ssh_loop :: "u64 \<Rightarrow> usize \<Rightarrow> ssh_turn list \<Rightarrow> u64 \<Rightarrow> byte list \<Rightarrow> u64 \<times> byte list" where
  "ssh_loop deadline line_length [] sent out = (sent, out)"
| "ssh_loop deadline line_length (turn # turns) sent out =
     (if deadline \<le> stn_now turn then (sent, out)
      else let line = ssh_line line_length (stn_length turn) (stn_draws turn) in
        if \<not> stn_written turn then (sent, out)
        else if \<not> stn_slept turn then (sent, out @ line)
        else ssh_loop deadline line_length turns (sent + length line) (out @ line))"

section \<open>Admission\<close>

record admission =
  ad_active :: usize
  ad_by_ip :: "(ip_addr \<times> usize) list"

definition no_admissions :: admission where
  "no_admissions = \<lparr> ad_active = 0, ad_by_ip = [] \<rparr>"

definition by_ip :: "admission \<Rightarrow> ip_addr \<Rightarrow> usize" where
  "by_ip a ip = (case map_of (ad_by_ip a) ip of None \<Rightarrow> 0 | Some n \<Rightarrow> n)"

definition put_ip :: "ip_addr \<Rightarrow> usize \<Rightarrow> (ip_addr \<times> usize) list \<Rightarrow> (ip_addr \<times> usize) list" where
  "put_ip ip n m = (ip, n) # filter (\<lambda>(k, _). k \<noteq> ip) m"

text \<open>\<open>or_insert(0)\<close> leaves its entry behind when the source is refused.\<close>

definition try_enter_tarpit :: "ip_addr \<Rightarrow> usize \<Rightarrow> admission \<Rightarrow> bool \<times> admission" where
  "try_enter_tarpit ip cap a =
     (let n = by_ip a ip in
      if cap \<le> n then (False, a\<lparr> ad_by_ip := put_ip ip n (ad_by_ip a) \<rparr>)
      else (True, a\<lparr> ad_by_ip := put_ip ip (n + 1) (ad_by_ip a), ad_active := ad_active a + 1 \<rparr>))"

definition drop_guard :: "ip_addr \<Rightarrow> admission \<Rightarrow> admission" where
  "drop_guard ip a =
     a\<lparr> ad_by_ip := (case map_of (ad_by_ip a) ip of
           None \<Rightarrow> ad_by_ip a
         | Some n \<Rightarrow> if n = 1 then filter (\<lambda>(k, _). k \<noteq> ip) (ad_by_ip a) else put_ip ip (n - 1) (ad_by_ip a)),
        ad_active := ad_active a - 1 \<rparr>"

section \<open>Endpoints\<close>

text \<open>The statistics of an endpoint, whose 64-bit counters are taken as unbounded, with the free slots of
  its semaphore.\<close>

record endpoint =
  ep_name :: string
  ep_listen_addr :: string
  ep_ready :: bool
  ep_policy :: "string option"
  ep_capacity :: usize
  ep_slots :: usize
  ep_accepted :: u64
  ep_active :: usize
  ep_rejected :: u64
  ep_closed :: u64
  ep_bytes_sent :: u64
  ep_trapped_seconds :: u64

definition new_endpoint :: "config \<Rightarrow> listener \<Rightarrow> endpoint" where
  "new_endpoint cfg l =
     (let capacity = max_tarpit_conns l (cfg_max_tarpit_conns cfg) in
      \<lparr> ep_name = listener_name l, ep_listen_addr = listen_addr l, ep_ready = False, ep_policy = listener_policy l,
        ep_capacity = capacity, ep_slots = capacity, ep_accepted = 0, ep_active = 0,
        ep_rejected = 0, ep_closed = 0, ep_bytes_sent = 0, ep_trapped_seconds = 0 \<rparr>)"

record endpoint_status =
  est_name :: string
  est_listen_addr :: string
  est_ready :: bool
  est_accepted :: u64
  est_active :: usize
  est_rejected :: u64
  est_closed :: u64
  est_bytes_sent :: u64
  est_trapped_seconds :: u64
  est_tarpit_capacity :: usize
  est_available_tarpit_capacity :: usize

definition snapshot :: "endpoint \<Rightarrow> endpoint_status" where
  "snapshot e =
     \<lparr> est_name = ep_name e, est_listen_addr = ep_listen_addr e, est_ready = ep_ready e, est_accepted = ep_accepted e,
       est_active = ep_active e, est_rejected = ep_rejected e, est_closed = ep_closed e, est_bytes_sent = ep_bytes_sent e,
       est_trapped_seconds = ep_trapped_seconds e, est_tarpit_capacity = ep_capacity e,
       est_available_tarpit_capacity = ep_capacity e - ep_active e \<rparr>"

definition SSH_LINE_LENGTH :: usize where "SSH_LINE_LENGTH = 32"

record ssh_pacing =
  sp_min_delay_ms :: u64
  sp_max_delay_ms :: u64
  sp_max_tarpit_secs :: u64
  sp_line_length :: usize

definition resolve_pacing :: "listener \<Rightarrow> config \<Rightarrow> ssh_pacing" where
  "resolve_pacing l cfg =
     \<lparr> sp_min_delay_ms = (case listener_min_delay_ms l of None \<Rightarrow> cfg_min_delay_ms cfg | Some n \<Rightarrow> n),
       sp_max_delay_ms = (case listener_max_delay_ms l of None \<Rightarrow> cfg_max_delay_ms cfg | Some n \<Rightarrow> n),
       sp_max_tarpit_secs = (case listener_max_tarpit_secs l of None \<Rightarrow> cfg_max_tarpit_secs cfg | Some n \<Rightarrow> n),
       sp_line_length = (case listener_line_length l of None \<Rightarrow> SSH_LINE_LENGTH | Some n \<Rightarrow> n) \<rparr>"

text \<open>All connections: free permits, connections accepted and not yet decided (endpoint and peer),
  connections held, the shared admission state, and the hits handed to \<open>record_listener\<close>.\<close>

record tarpits =
  tp_permits :: usize
  tp_endpoints :: "endpoint list"
  tp_opening :: "(nat \<times> ip_addr) list"
  tp_held :: "(nat \<times> ip_addr) list"
  tp_admission :: admission
  tp_hits :: "(string \<times> ip_addr) list"

text \<open>Every endpoint is bound and ready before the first connection is accepted.\<close>

definition tarpits_start :: "config \<Rightarrow> tarpits" where
  "tarpits_start cfg =
     \<lparr> tp_permits = cfg_max_connections cfg, tp_endpoints = map (\<lambda>l. (new_endpoint cfg l)\<lparr> ep_ready := True \<rparr>) (cfg_listeners cfg),
       tp_opening = [], tp_held = [], tp_admission = no_admissions, tp_hits = [] \<rparr>"

definition accept :: "nat \<Rightarrow> ip_addr \<Rightarrow> tarpits \<Rightarrow> tarpits" where
  "accept i peer s =
     (let e = tp_endpoints s ! i in
      s\<lparr> tp_permits := tp_permits s - 1, tp_endpoints := (tp_endpoints s)[i := e\<lparr> ep_accepted := ep_accepted e + 1 \<rparr>],
         tp_opening := tp_opening s @ [(i, peer)] \<rparr>)"

definition remove_at :: "nat \<Rightarrow> 'a list \<Rightarrow> 'a list" where
  "remove_at k xs = take k xs @ drop (Suc k) xs"

text \<open>The k-th opening connection is closed without more.\<close>

definition hang_up :: "nat \<Rightarrow> tarpits \<Rightarrow> tarpits" where
  "hang_up k s = s\<lparr> tp_permits := tp_permits s + 1, tp_opening := remove_at k (tp_opening s) \<rparr>"

definition record_hit :: "nat \<Rightarrow> ip_addr \<Rightarrow> tarpits \<Rightarrow> tarpits" where
  "record_hit i ip s =
     (case ep_policy (tp_endpoints s ! i) of None \<Rightarrow> s | Some policy \<Rightarrow> s\<lparr> tp_hits := tp_hits s @ [(policy, ip)] \<rparr>)"

definition reject :: "nat \<Rightarrow> tarpits \<Rightarrow> tarpits" where
  "reject i s =
     (let e = tp_endpoints s ! i in s\<lparr> tp_endpoints := (tp_endpoints s)[i := e\<lparr> ep_rejected := ep_rejected e + 1 \<rparr>] \<rparr>)"

text \<open>\<open>trap_ssh\<close> up to the tarpit itself, for the k-th opening connection with its address resolved.\<close>

definition trap_ssh :: "(ip_addr \<Rightarrow> bool) \<Rightarrow> usize \<Rightarrow> nat \<Rightarrow> ip_addr \<Rightarrow> tarpits \<Rightarrow> tarpits" where
  "trap_ssh whitelisted cap k ip s =
     (let i = fst (tp_opening s ! k) in
      if whitelisted ip then hang_up k s
      else let s1 = record_hit i ip s; e = tp_endpoints s1 ! i in
        if ep_slots e = 0 then hang_up k (reject i s1)
        else let (entered, a) = try_enter_tarpit ip cap (tp_admission s1) in
          if \<not> entered then hang_up k (reject i (s1\<lparr> tp_admission := a \<rparr>))
          else s1\<lparr> tp_admission := a, tp_opening := remove_at k (tp_opening s1), tp_held := tp_held s1 @ [(i, ip)],
                   tp_endpoints := (tp_endpoints s1)[i := e\<lparr> ep_slots := ep_slots e - 1, ep_active := ep_active e + 1 \<rparr>] \<rparr>)"

text \<open>\<open>handle\<close>: a trusted peer's PROXY header names the client, or ends the connection when it cannot be
  read.\<close>

definition handle_connection ::
  "(ip_addr \<Rightarrow> bool) \<Rightarrow> (ip_addr \<Rightarrow> bool) \<Rightarrow> config \<Rightarrow> ip_addr option result \<Rightarrow> nat \<Rightarrow> tarpits \<Rightarrow> tarpits" where
  "handle_connection trusted whitelisted cfg header k s =
     (let peer = snd (tp_opening s ! k) in
      if cfg_proxy_protocol cfg \<and> trusted peer
      then case header of
             Inl _ \<Rightarrow> hang_up k s
           | Inr proxied \<Rightarrow>
               trap_ssh whitelisted (cfg_max_tarpit_conns_per_ip cfg) k (case proxied of None \<Rightarrow> peer | Some ip \<Rightarrow> ip) s
      else trap_ssh whitelisted (cfg_max_tarpit_conns_per_ip cfg) k peer s)"

text \<open>The end of a held connection: counters, slot, guards and permit.\<close>

definition finish_held :: "u64 \<Rightarrow> u64 \<Rightarrow> nat \<Rightarrow> tarpits \<Rightarrow> tarpits" where
  "finish_held secs sent k s =
     (let (i, ip) = tp_held s ! k; e = tp_endpoints s ! i in
      s\<lparr> tp_permits := tp_permits s + 1, tp_held := remove_at k (tp_held s), tp_admission := drop_guard ip (tp_admission s),
         tp_endpoints := (tp_endpoints s)[i := e\<lparr> ep_closed := ep_closed e + 1, ep_bytes_sent := ep_bytes_sent e + sent,
            ep_trapped_seconds := ep_trapped_seconds e + secs, ep_slots := ep_slots e + 1, ep_active := ep_active e - 1 \<rparr>] \<rparr>)"

inductive tarpit_step :: "(ip_addr \<Rightarrow> bool) \<Rightarrow> (ip_addr \<Rightarrow> bool) \<Rightarrow> config \<Rightarrow> tarpits \<Rightarrow> tarpits \<Rightarrow> bool"
  for trusted whitelisted cfg where
  accepts: "0 < tp_permits s \<Longrightarrow> i < length (tp_endpoints s) \<Longrightarrow> tarpit_step trusted whitelisted cfg s (accept i peer s)"
| handles: "k < length (tp_opening s) \<Longrightarrow>
    tarpit_step trusted whitelisted cfg s (handle_connection trusted whitelisted cfg header k s)"
| finishes: "k < length (tp_held s) \<Longrightarrow> tarpit_step trusted whitelisted cfg s (finish_held secs sent k s)"

inductive tarpit_reachable :: "(ip_addr \<Rightarrow> bool) \<Rightarrow> (ip_addr \<Rightarrow> bool) \<Rightarrow> config \<Rightarrow> tarpits \<Rightarrow> bool"
  for trusted whitelisted cfg where
  starts: "tarpit_reachable trusted whitelisted cfg (tarpits_start cfg)"
| steps: "tarpit_reachable trusted whitelisted cfg s \<Longrightarrow> tarpit_step trusted whitelisted cfg s s' \<Longrightarrow>
    tarpit_reachable trusted whitelisted cfg s'"

section \<open>Accounting\<close>

lemma map_of_drop_key: "map_of (filter (\<lambda>(k, _). k \<noteq> key) m) x = (if x = key then None else map_of m x)"
  by (induction m) auto

lemma map_of_put_ip: "map_of (put_ip ip n m) x = (if x = ip then Some n else map_of m x)"
  by (simp add: put_ip_def map_of_drop_key)

lemma by_ip_enter:
  "by_ip (snd (try_enter_tarpit ip cap a)) x = (if x = ip \<and> by_ip a ip < cap then by_ip a ip + 1 else by_ip a x)"
  by (simp add: try_enter_tarpit_def by_ip_def map_of_put_ip Let_def)

lemma by_ip_drop: "by_ip (drop_guard ip a) x = (if x = ip then by_ip a ip - 1 else by_ip a x)"
  by (simp add: drop_guard_def by_ip_def map_of_put_ip map_of_drop_key split: option.splits)

definition held_at :: "nat \<Rightarrow> tarpits \<Rightarrow> nat" where
  "held_at i s = length (filter (\<lambda>(j, _). j = i) (tp_held s))"

definition held_ip :: "ip_addr \<Rightarrow> tarpits \<Rightarrow> nat" where
  "held_ip ip s = length (filter (\<lambda>(_, x). x = ip) (tp_held s))"

lemma filter_remove_at:
  assumes "k < length xs"
  shows "length (filter P (remove_at k xs)) = length (filter P xs) - (if P (xs ! k) then 1 else 0)"
proof -
  have "filter P xs = filter P (take k xs) @ filter P (xs ! k # drop (Suc k) xs)"
    using assms by (metis filter_append id_take_nth_drop)
  then show ?thesis by (simp add: remove_at_def)
qed

lemma length_remove_at: "k < length xs \<Longrightarrow> length (remove_at k xs) = length xs - 1"
  by (simp add: remove_at_def)

lemma set_remove_at: "set (remove_at k xs) \<subseteq> set xs"
  by (auto simp: remove_at_def dest: in_set_takeD in_set_dropD)

lemma filter_nth_pos: "k < length xs \<Longrightarrow> P (xs ! k) \<Longrightarrow> 0 < length (filter P xs)"
  by (metis filter_empty_conv length_greater_0_conv nth_mem)

text \<open>Every permit is free or belongs to a connection, every slot is free or held, the counters of
  admission are the connections held, and nobody exceeds the cap or is held against the whitelist.\<close>

definition endpoint_ok :: "tarpits \<Rightarrow> nat \<Rightarrow> bool" where
  "endpoint_ok s i \<longleftrightarrow>
     (let e = tp_endpoints s ! i in
      ep_slots e + held_at i s = ep_capacity e \<and> ep_active e = held_at i s \<and>
      length (filter (\<lambda>(j, _). j = i) (tp_opening s)) + ep_rejected e + ep_closed e + held_at i s \<le> ep_accepted e)"

definition tarpits_ok :: "(ip_addr \<Rightarrow> bool) \<Rightarrow> config \<Rightarrow> tarpits \<Rightarrow> bool" where
  "tarpits_ok whitelisted cfg s \<longleftrightarrow>
     tp_permits s + length (tp_opening s) + length (tp_held s) = cfg_max_connections cfg \<and>
     (\<forall>i < length (tp_endpoints s). endpoint_ok s i) \<and>
     (\<forall>p \<in> set (tp_opening s) \<union> set (tp_held s). fst p < length (tp_endpoints s)) \<and>
     ad_active (tp_admission s) = length (tp_held s) \<and>
     (\<forall>ip. by_ip (tp_admission s) ip = held_ip ip s \<and> held_ip ip s \<le> cfg_max_tarpit_conns_per_ip cfg) \<and>
     (\<forall>p \<in> set (tp_held s). \<not> whitelisted (snd p)) \<and> (\<forall>p \<in> set (tp_hits s). \<not> whitelisted (snd p))"

lemma tarpits_start_ok: "tarpits_ok whitelisted cfg (tarpits_start cfg)"
  by (auto simp: tarpits_ok_def tarpits_start_def endpoint_ok_def held_at_def held_ip_def new_endpoint_def by_ip_def
        no_admissions_def Let_def)

lemma accept_ok:
  assumes "tarpits_ok whitelisted cfg s" "0 < tp_permits s" "i < length (tp_endpoints s)"
  shows "tarpits_ok whitelisted cfg (accept i peer s)"
  using assms by (auto simp: tarpits_ok_def accept_def endpoint_ok_def held_at_def held_ip_def nth_list_update Let_def)

lemma hang_up_ok:
  assumes "tarpits_ok whitelisted cfg s" "k < length (tp_opening s)"
  shows "tarpits_ok whitelisted cfg (hang_up k s)"
proof -
  have "length (filter P (remove_at k (tp_opening s))) \<le> length (filter P (tp_opening s))" for P
    using filter_remove_at [OF assms(2), of P] by simp
  then have "endpoint_ok (hang_up k s) i" if "endpoint_ok s i" for i
    using that by (auto simp: endpoint_ok_def hang_up_def held_at_def Let_def intro: le_trans [rotated])
  then show ?thesis using assms set_remove_at [of k "tp_opening s"]
    by (auto simp: tarpits_ok_def hang_up_def held_ip_def length_remove_at)
qed

lemma record_hit_ok:
  assumes "tarpits_ok whitelisted cfg s" "\<not> whitelisted ip"
  shows "tarpits_ok whitelisted cfg (record_hit i ip s)"
  using assms by (auto simp: tarpits_ok_def record_hit_def endpoint_ok_def held_at_def held_ip_def Let_def split: option.splits)

lemma record_hit_same [simp]:
  "tp_opening (record_hit i ip s) = tp_opening s" "tp_endpoints (record_hit i ip s) = tp_endpoints s"
  by (simp_all add: record_hit_def split: option.splits)

text \<open>A refusal ends the connection and counts it in one go.\<close>

lemma reject_ok:
  assumes s: "tarpits_ok whitelisted cfg s" and k: "k < length (tp_opening s)" "fst (tp_opening s ! k) = i"
    and a: "ad_active a = ad_active (tp_admission s)" "\<And>x. by_ip a x = by_ip (tp_admission s) x"
  shows "tarpits_ok whitelisted cfg (hang_up k (reject i (s\<lparr> tp_admission := a \<rparr>)))"
proof -
  let ?s = "hang_up k (reject i (s\<lparr> tp_admission := a \<rparr>))"
  have i: "i < length (tp_endpoints s)" using s k by (auto simp: tarpits_ok_def)
  obtain n where pos: "length (filter (\<lambda>(j, _). j = i) (tp_opening s)) = Suc n"
    using filter_nth_pos [OF k(1), of "\<lambda>(j, _). j = i"] k(2) gr0_implies_Suc by (auto simp: case_prod_beta)
  have "endpoint_ok ?s j" if "j < length (tp_endpoints s)" for j
  proof -
    have "endpoint_ok s j" using s that by (simp add: tarpits_ok_def)
    then show ?thesis using that i pos k filter_remove_at [OF k(1), of "\<lambda>(j', _). j' = j"]
      by (auto simp: endpoint_ok_def hang_up_def reject_def held_at_def nth_list_update Let_def case_prod_beta split: if_splits)
  qed
  then show ?thesis using s k a set_remove_at [of k "tp_opening s"]
    by (auto simp: tarpits_ok_def hang_up_def reject_def held_ip_def length_remove_at Let_def)
qed

lemma hold_ok:
  assumes s: "tarpits_ok whitelisted cfg s" and k: "k < length (tp_opening s)" "fst (tp_opening s ! k) = i"
    and slot: "e = tp_endpoints s ! i" "0 < ep_slots e" and ip: "\<not> whitelisted ip"
    and a: "try_enter_tarpit ip (cfg_max_tarpit_conns_per_ip cfg) (tp_admission s) = (True, a)"
  shows "tarpits_ok whitelisted cfg (s\<lparr> tp_admission := a, tp_opening := remove_at k (tp_opening s), tp_held := tp_held s @ [(i, ip)],
     tp_endpoints := (tp_endpoints s)[i := e\<lparr> ep_slots := ep_slots e - 1, ep_active := ep_active e + 1 \<rparr>] \<rparr>)"
    (is "tarpits_ok _ _ ?s")
proof -
  have i: "i < length (tp_endpoints s)" using s k by (auto simp: tarpits_ok_def)
  obtain n where pos: "length (filter (\<lambda>(j, _). j = i) (tp_opening s)) = Suc n"
    using filter_nth_pos [OF k(1), of "\<lambda>(j, _). j = i"] k(2) gr0_implies_Suc by (auto simp: case_prod_beta)
  have room: "by_ip (tp_admission s) ip < cfg_max_tarpit_conns_per_ip cfg" "ad_active a = ad_active (tp_admission s) + 1"
    using a by (auto simp: try_enter_tarpit_def Let_def split: if_splits)
  have counts: "by_ip a x = (if x = ip then by_ip (tp_admission s) ip + 1 else by_ip (tp_admission s) x)" for x
    using by_ip_enter [of ip "cfg_max_tarpit_conns_per_ip cfg" "tp_admission s" x] a room by simp
  have "endpoint_ok ?s j" if "j < length (tp_endpoints s)" for j
  proof -
    have "endpoint_ok s j" using s that by (simp add: tarpits_ok_def)
    then show ?thesis using that i pos k slot filter_remove_at [OF k(1), of "\<lambda>(j', _). j' = j"]
      by (auto simp: endpoint_ok_def held_at_def nth_list_update Let_def case_prod_beta split: if_splits)
  qed
  moreover have "by_ip a x = held_ip x ?s \<and> held_ip x ?s \<le> cfg_max_tarpit_conns_per_ip cfg" for x
    using s counts [of x] room by (auto simp: tarpits_ok_def held_ip_def)
  moreover have "held_ip x ?s = held_ip x (?s\<lparr> tp_permits := tp_permits s \<rparr>)" for x by (simp add: held_ip_def)
  ultimately show ?thesis using s k ip i room set_remove_at [of k "tp_opening s"]
    by (auto simp: tarpits_ok_def length_remove_at)
qed

lemma finish_ok:
  assumes s: "tarpits_ok whitelisted cfg s" and k: "k < length (tp_held s)"
  shows "tarpits_ok whitelisted cfg (finish_held secs sent k s)"
proof -
  obtain i ip where held: "tp_held s ! k = (i, ip)" by fastforce
  let ?s = "finish_held secs sent k s"
  have "(i, ip) \<in> set (tp_held s)" using k held nth_mem by metis
  then have i: "i < length (tp_endpoints s)" using s by (auto simp: tarpits_ok_def dest: bspec [where x = "(i, ip)"])
  obtain n where pos: "length (filter (\<lambda>(j, _). j = i) (tp_held s)) = Suc n"
    using filter_nth_pos [OF k, of "\<lambda>(j, _). j = i"] held gr0_implies_Suc by auto
  have "endpoint_ok ?s j" if "j < length (tp_endpoints s)" for j
  proof -
    have "endpoint_ok s j" using s that by (simp add: tarpits_ok_def)
    then show ?thesis using that i pos held filter_remove_at [OF k, of "\<lambda>(j', _). j' = j"]
      by (auto simp: endpoint_ok_def finish_held_def held_at_def nth_list_update Let_def split: if_splits)
  qed
  moreover have "by_ip (tp_admission ?s) x = held_ip x ?s \<and> held_ip x ?s \<le> cfg_max_tarpit_conns_per_ip cfg" for x
  proof -
    have "by_ip (tp_admission s) x = held_ip x s" "held_ip x s \<le> cfg_max_tarpit_conns_per_ip cfg" "by_ip (tp_admission s) ip = held_ip ip s"
      using s by (simp_all add: tarpits_ok_def)
    then show ?thesis using held filter_remove_at [OF k, of "\<lambda>(_, y). y = x"]
      by (auto simp: finish_held_def held_ip_def by_ip_drop Let_def)
  qed
  moreover have "held_ip x (finish_held secs sent k s) = length (filter (\<lambda>(_, y). y = x) (remove_at k (tp_held s)))" for x
    using held by (simp add: finish_held_def held_ip_def Let_def)
  ultimately show ?thesis using s k held i set_remove_at [of k "tp_held s"]
    by (auto simp: tarpits_ok_def finish_held_def length_remove_at Let_def drop_guard_def)
qed

lemma trap_ssh_ok:
  assumes s: "tarpits_ok whitelisted cfg s" and k: "k < length (tp_opening s)"
  shows "tarpits_ok whitelisted cfg (trap_ssh whitelisted (cfg_max_tarpit_conns_per_ip cfg) k ip s)"
proof (cases "whitelisted ip")
  case True
  then show ?thesis using hang_up_ok [OF s k] by (simp add: trap_ssh_def)
next
  case False
  define i where "i = fst (tp_opening s ! k)"
  define s1 where "s1 = record_hit i ip s"
  obtain entered a where a: "try_enter_tarpit ip (cfg_max_tarpit_conns_per_ip cfg) (tp_admission s1) = (entered, a)" by fastforce
  have same: "tp_opening s1 = tp_opening s" "tp_endpoints s1 = tp_endpoints s" by (simp_all add: s1_def)
  have s1: "tarpits_ok whitelisted cfg s1" "k < length (tp_opening s1)" "fst (tp_opening s1 ! k) = i"
    using record_hit_ok [OF s False] k by (simp_all add: s1_def i_def)
  show ?thesis
  proof (cases "ep_slots (tp_endpoints s1 ! i) = 0 \<or> \<not> entered")
    case True
    have "tarpits_ok whitelisted cfg (hang_up k (reject i (s1\<lparr> tp_admission := tp_admission s1 \<rparr>)))"
      by (rule reject_ok [OF s1]) simp_all
    moreover have "tarpits_ok whitelisted cfg (hang_up k (reject i (s1\<lparr> tp_admission := a \<rparr>)))" if "\<not> entered"
    proof (rule reject_ok [OF s1])
      show "ad_active a = ad_active (tp_admission s1)" using a that by (auto simp: try_enter_tarpit_def Let_def split: if_splits)
      show "by_ip a x = by_ip (tp_admission s1) x" for x
        using a that by (auto simp: try_enter_tarpit_def by_ip_def map_of_put_ip Let_def split: if_splits)
    qed
    ultimately show ?thesis using True False a
      by (auto simp: trap_ssh_def Let_def i_def [symmetric] s1_def [symmetric] same)
  next
    case enters: False
    then have "tarpits_ok whitelisted cfg (s1\<lparr> tp_admission := a, tp_opening := remove_at k (tp_opening s1), tp_held := tp_held s1 @ [(i, ip)],
       tp_endpoints := (tp_endpoints s1)[i := (tp_endpoints s1 ! i)\<lparr> ep_slots := ep_slots (tp_endpoints s1 ! i) - 1,
          ep_active := ep_active (tp_endpoints s1 ! i) + 1 \<rparr>] \<rparr>)"
      using hold_ok [OF s1 refl _ False] a by simp
    then show ?thesis using enters False a
      by (simp add: trap_ssh_def Let_def i_def [symmetric] s1_def [symmetric] same)
  qed
qed


section \<open>Classification decides in order\<close>

lemma crawler_check_other: "list_all (\<lambda>k. \<not> rx_is_match X (kc_ua k) ua) cs \<Longrightarrow> crawler_check N X ua ip i cs = None"
  by (induction cs arbitrary: i) auto

lemma crawler_check_named:
  assumes "list_all (\<lambda>k. \<not> rx_is_match X (kc_ua k) ua) before" "rx_is_match X (kc_ua k) ua"
  shows "crawler_check N X ua ip i (before @ k # rest) =
    Some (if list_ex (\<lambda>net. net_contains N net ip) (kc_networks k) then ProxyOn else Tarpit (TrapImpersonator (i + length before)))"
  using assms by (induction before arbitrary: i) auto

lemma crawler_decides:
  assumes "cl_verified c = before @ k # rest" "list_all (\<lambda>k. \<not> rx_is_match X (kc_ua k) ua) before" "rx_is_match X (kc_ua k) ua"
  shows "classify N X c path (Some ua) ip =
    (if is_whitelisted N c ip \<or> list_ex (\<lambda>net. net_contains N net ip) (kc_networks k) then ProxyOn
     else Tarpit (TrapImpersonator (length before)))"
  using crawler_check_named [OF assms(2,3), of N ip 0 rest] assms(1) by (simp add: classify_def)

lemma encoded_path_trapped_alike:
  assumes "decode_path path = decode_path path'"
  shows "classify N X c path ua ip = classify N X c path' ua ip"
  unfolding classify_def assms ..

lemma category_index_roundtrip: "category_from_index (category_index c) = c"
proof -
  have "list_all (\<lambda>c. category_from_index (category_index c) = c) ALL_CATEGORIES" by code_simp
  moreover have "c \<in> set ALL_CATEGORIES" by (cases c) (simp_all add: ALL_CATEGORIES_def)
  ultimately show ?thesis by (simp add: list_all_iff)
qed

section \<open>Paced bodies\<close>

lemma in_range_bounds: "lo \<le> hi \<Longrightarrow> lo \<le> in_range lo hi d \<and> in_range lo hi d \<le> hi"
  using mod_less_divisor [of "hi - lo + 1" d] unfolding in_range_def by linarith

lemma dribble_next_bounds:
  assumes "dribble_next d draws remain = (len, delay)" "0 < remain"
  shows "0 < len" "len \<le> remain" "delay \<le> max (db_max_delay_ms d) (db_min_delay_ms d)"
proof -
  define lo where "lo = max (db_chunk_min d) 1"
  define hi where "hi = max (db_chunk_max d) lo"
  define top where "top = max (db_max_delay_ms d) (db_min_delay_ms d)"
  have "lo \<le> in_range lo hi (fst draws)" using in_range_bounds [of lo hi "fst draws"] by (simp add: hi_def)
  moreover have "0 < lo" by (simp add: lo_def)
  moreover have "in_range (db_min_delay_ms d) top (snd draws) \<le> top"
    using in_range_bounds [of "db_min_delay_ms d" top "snd draws"] by (simp add: top_def)
  moreover have "len = min (in_range lo hi (fst draws)) remain" "delay = in_range (db_min_delay_ms d) top (snd draws)"
    using assms(1) by (simp_all add: dribble_next_def Let_def lo_def hi_def top_def)
  ultimately show "0 < len" "len \<le> remain" "delay \<le> max (db_max_delay_ms d) (db_min_delay_ms d)"
    using assms(2) by (simp_all add: top_def)
qed

text \<open>Polls that come no faster than the longest pause, all before the deadline.\<close>

fun spaced :: "nat \<Rightarrow> nat \<Rightarrow> nat \<Rightarrow> (nat \<times> nat \<times> nat) list \<Rightarrow> bool" where
  "spaced pause deadline earliest [] \<longleftrightarrow> True"
| "spaced pause deadline earliest ((now, _) # polls) \<longleftrightarrow>
     earliest \<le> now \<and> now < deadline \<and> spaced pause deadline (now + pause) polls"

lemma poll_all_prefix:
  assumes "poll_all polls b = (out, b')" "dbd_pos b \<le> length (dbd_data b)"
  shows "dbd_data b' = dbd_data b \<and> dbd_pos b' \<le> length (dbd_data b) \<and> dbd_pos b' = dbd_pos b + length out \<and>
    out = take (length out) (drop (dbd_pos b) (dbd_data b))"
  using assms
proof (induction polls b arbitrary: out b' rule: poll_all.induct)
  case (2 now draws polls b)
  show ?case
  proof (cases "poll_frame now draws b")
    case (Pair f b1)
    show ?thesis
    proof (cases f)
      case (Chunk c)
      obtain len delay where next': "dribble_next (dbd_schedule b) draws (length (dbd_data b) - dbd_pos b) = (len, delay)" by fastforce
      then have c: "c = take len (drop (dbd_pos b) (dbd_data b))" "dbd_data b1 = dbd_data b" "dbd_pos b1 = dbd_pos b + len"
          "dbd_pos b < length (dbd_data b)"
        using Pair Chunk by (auto simp: poll_frame_def Let_def split: if_splits option.splits)
      have len: "dbd_pos b + len \<le> length (dbd_data b)" using dribble_next_bounds(2) [OF next'] c(4) by simp
      obtain rest b2 where rest: "poll_all polls b1 = (rest, b2)" by fastforce
      have "dbd_data b2 = dbd_data b1 \<and> dbd_pos b2 \<le> length (dbd_data b1) \<and> dbd_pos b2 = dbd_pos b1 + length rest \<and>
          rest = take (length rest) (drop (dbd_pos b1) (dbd_data b1))"
        using "2.IH"(2) [OF Pair [symmetric] Chunk rest] c len by simp
      then show ?thesis using "2.prems" Pair Chunk rest c len by (auto simp: take_add add.commute add.left_commute)
    next
      case Waiting
      then have "b1 = b" using Pair by (auto simp: poll_frame_def Let_def split: if_splits prod.splits)
      moreover have "poll_all polls b1 = (out, b')" using "2.prems"(1) Pair Waiting by simp
      ultimately show ?thesis using "2.IH"(1) [OF Pair [symmetric] Waiting, of out b'] "2.prems"(2) by blast
    next
      case EndOfBody
      then have "b1 = b" using Pair by (auto simp: poll_frame_def Let_def split: if_splits prod.splits)
      then show ?thesis using "2.prems" Pair EndOfBody by simp
    qed
  qed
qed auto

lemma poll_all_complete:
  assumes "length (dbd_data b) - dbd_pos b \<le> length polls" "dbd_pos b \<le> length (dbd_data b)"
    and "spaced (max (db_max_delay_ms (dbd_schedule b)) (db_min_delay_ms (dbd_schedule b))) (dbd_deadline b) earliest polls"
    and "case dbd_sleep b of None \<Rightarrow> True | Some wake \<Rightarrow> wake \<le> earliest"
  shows "fst (poll_all polls b) = drop (dbd_pos b) (dbd_data b)"
  using assms
proof (induction polls arbitrary: b earliest)
  case (Cons poll polls)
  obtain now draws where poll: "poll = (now, draws)" by (cases poll) blast
  show ?case
  proof (cases "dbd_pos b < length (dbd_data b)")
    case False
    then show ?thesis using Cons.prems by (simp add: poll poll_frame_def)
  next
    case True
    obtain len delay where next': "dribble_next (dbd_schedule b) draws (length (dbd_data b) - dbd_pos b) = (len, delay)" by fastforce
    have len: "0 < len" "dbd_pos b + len \<le> length (dbd_data b)"
      and delay: "delay \<le> max (db_max_delay_ms (dbd_schedule b)) (db_min_delay_ms (dbd_schedule b))"
      using dribble_next_bounds [OF next'] True by simp_all
    define b1 where "b1 = b\<lparr> dbd_pos := dbd_pos b + len, dbd_sleep := Some (now + min delay (dbd_deadline b - now)) \<rparr>"
    have frame: "poll_frame now draws b = (Chunk (take len (drop (dbd_pos b) (dbd_data b))), b1)"
      using Cons.prems(3,4) True next' by (auto simp: poll poll_frame_def b1_def split: option.splits)
    have "fst (poll_all polls b1) = drop (dbd_pos b1) (dbd_data b1)"
    proof (rule Cons.IH)
      show "length (dbd_data b1) - dbd_pos b1 \<le> length polls" "dbd_pos b1 \<le> length (dbd_data b1)"
        using Cons.prems(1) len by (simp_all add: b1_def)
      show "spaced (max (db_max_delay_ms (dbd_schedule b1)) (db_min_delay_ms (dbd_schedule b1))) (dbd_deadline b1)
          (now + max (db_max_delay_ms (dbd_schedule b)) (db_min_delay_ms (dbd_schedule b))) polls"
        using Cons.prems(3) by (simp add: b1_def poll)
      show "case dbd_sleep b1 of None \<Rightarrow> True
          | Some wake \<Rightarrow> wake \<le> now + max (db_max_delay_ms (dbd_schedule b)) (db_min_delay_ms (dbd_schedule b))"
        using delay by (simp add: b1_def)
    qed
    then show ?thesis using len frame
      by (simp add: poll b1_def case_prod_beta) (metis add.commute append_take_drop_id drop_drop)
  qed
qed simp

text \<open>A paced page is paid out whole. A smeared page leaves in order and unchanged: what has been
  sent is always a prefix of it, and when the consumer polls no faster than the longest pause and the
  deadline does not pass, as many polls as the page has bytes are enough to send all of it.\<close>

theorem page_paid_out:
  assumes "dbd_pos b = 0" "dbd_sleep b = None"
  shows "prefix (fst (poll_all polls b)) (dbd_data b) \<and>
    (length (dbd_data b) \<le> length polls \<and>
       spaced (max (db_max_delay_ms (dbd_schedule b)) (db_min_delay_ms (dbd_schedule b))) (dbd_deadline b) earliest polls \<longrightarrow>
     fst (poll_all polls b) = dbd_data b)"
proof -
  have "fst (poll_all polls b) = take (length (fst (poll_all polls b))) (dbd_data b)"
    using poll_all_prefix [of polls b "fst (poll_all polls b)" "snd (poll_all polls b)"] assms by simp
  then have "prefix (fst (poll_all polls b)) (dbd_data b)" by (metis take_is_prefix)
  then show ?thesis using poll_all_complete [of b polls earliest] assms by simp
qed

section \<open>Concrete runs\<close>

theorem page_paid_out_witness:
  "fst (poll_all [(0, 0, 0), (5, 0, 0)] \<lparr> dbd_data = [1, 2], dbd_pos = 0,
      dbd_schedule = \<lparr> db_min_delay_ms = 5, db_max_delay_ms = 3, db_chunk_min = 0, db_chunk_max = 1 \<rparr>,
      dbd_deadline = 9, dbd_sleep = None \<rparr>) = [1, 2]"
  using page_paid_out [of "\<lparr> dbd_data = [1, 2], dbd_pos = 0,
      dbd_schedule = \<lparr> db_min_delay_ms = 5, db_max_delay_ms = 3, db_chunk_min = 0, db_chunk_max = 1 \<rparr>,
      dbd_deadline = 9, dbd_sleep = None \<rparr>" "[(0, 0, 0), (5, 0, 0)]" 0] by simp

end
