(* ===== verification/Admin_Control.thy ===== *)
theory Admin_Control
  imports Trap_Listener File_Theorems Defense_Examples
begin

text \<open>
  The control socket: reading a request and dispatching it on the defense plane
  (bagel-runtime/src/admin.rs), how bans and uptimes are printed (bagel-admin/src/lib.rs), and the
  numbered source through which the web plane reports offenses (bagel-runtime/src/offense.rs). JSON and
  the texts of errors are arguments.
\<close>

section \<open>The protocol\<close>

datatype admin_request =
    StatusRequest
  | BlockRequest string "u64 option"
  | UnblockRequest string
  | ListBans
  | ListPolicies
  | ReconcileRequest

record policy_status =
  ps_name :: string
  ps_source :: string
  ps_action :: string

record status =
  stt_version :: string
  stt_uptime_secs :: u64
  stt_blocked_ips :: usize
  stt_active_connections :: usize
  stt_firewall_ready :: bool
  stt_active_bans :: usize
  stt_policy_count :: usize
  stt_source_count :: usize
  stt_endpoints :: "endpoint_status list"

datatype admin_response =
    StatusReply status
  | BansReply "ban list"
  | PoliciesReply "policy_status list"
  | OkReply string
  | ErrorReply string

definition MAX_REQUEST :: usize where "MAX_REQUEST = 65536"

text \<open>The loop that reads one line. Every element is what one \<open>fill_buf\<close> yields, the empty one being the
  end of the stream.\<close>

fun admin_read :: "byte list \<Rightarrow> byte list list \<Rightarrow> byte list option" where
  "admin_read bs [] = None"
| "admin_read bs (chunk # chunks) =
     (if chunk = [] then None
      else let len = line_length chunk in
        if MAX_REQUEST < length bs + len then None
        else let bs1 = bs @ take len chunk in
          if ends_line bs1 then Some bs1 else admin_read bs1 chunks)"

definition policies :: "('net, 're) defense \<Rightarrow> policy_status list" where
  "policies st =
     map (\<lambda>(name, c). \<lparr> ps_name = name, ps_source = policy_source (cpol_policy c), ps_action = action_show (policy_action (cpol_policy c)) \<rparr>)
       (df_policies st)"

definition blocked_ips :: "ban list \<Rightarrow> usize" where
  "blocked_ips bs = length (remdups (map ban_network (filter (\<lambda>b. ban_apply_state b = ''applied'' \<and> ban_blocking b) bs)))"

record admin_ctx =
  ac_version :: string
  ac_uptime :: u64
  ac_tarpits :: tarpits
  ac_show_error :: "error \<Rightarrow> string"

definition admin_dispatch ::
  "('net::linorder, 're, 'j) defense_env \<Rightarrow> world \<Rightarrow> admin_ctx \<Rightarrow> admin_request \<Rightarrow> ('net, 're) defense \<Rightarrow>
   admin_response \<times> ('net, 're) defense" where
  "admin_dispatch V w ctx request st =
     (case request of
        StatusRequest \<Rightarrow>
          (case bans V w st of
             Inl e \<Rightarrow> (ErrorReply (ac_show_error ctx e), st)
           | Inr bs \<Rightarrow>
               (StatusReply \<lparr> stt_version = ac_version ctx, stt_uptime_secs = ac_uptime ctx, stt_blocked_ips = blocked_ips bs,
                  stt_active_connections = ad_active (tp_admission (ac_tarpits ctx)), stt_firewall_ready = fw_ready (df_firewall st),
                  stt_active_bans = length bs, stt_policy_count = length (df_policies st),
                  stt_source_count = length (cfg_sources (df_config st)), stt_endpoints = map snapshot (tp_endpoints (ac_tarpits ctx)) \<rparr>, st))
      | BlockRequest network duration \<Rightarrow>
          (case defense_manual_block V w network duration st of
             (Inr _, st1) \<Rightarrow> (OkReply (''blocked '' @ network), st1)
           | (Inl e, st1) \<Rightarrow> (ErrorReply (ac_show_error ctx e), st1))
      | UnblockRequest network \<Rightarrow>
          (case defense_unblock V w network st of
             (Inr n, st1) \<Rightarrow> (OkReply (if n = 0 then network @ '' was not blocked'' else ''unblocked '' @ network), st1)
           | (Inl e, st1) \<Rightarrow> (ErrorReply (ac_show_error ctx e), st1))
      | ListBans \<Rightarrow>
          (case bans V w st of
             Inr bs \<Rightarrow> (BansReply bs, st) | Inl e \<Rightarrow> (ErrorReply (ac_show_error ctx e), st))
      | ListPolicies \<Rightarrow> (PoliciesReply (policies st), st)
      | ReconcileRequest \<Rightarrow>
          (case reconcile V w st of
             (Inr _, st1) \<Rightarrow> (OkReply ''reconciled nftables state'', st1)
           | (Inl e, st1) \<Rightarrow> (ErrorReply (ac_show_error ctx e), st1)))"

text \<open>\<open>handle\<close>: nothing is answered to a line that is too long, unfinished, not text or blank.\<close>

definition admin_handle ::
  "('net::linorder, 're, 'j) defense_env \<Rightarrow> world \<Rightarrow> admin_ctx \<Rightarrow> (string \<Rightarrow> bool) \<Rightarrow> (string \<Rightarrow> string + admin_request) \<Rightarrow>
   byte list list \<Rightarrow> ('net, 're) defense \<Rightarrow> admin_response option \<times> ('net, 're) defense" where
  "admin_handle V w ctx valid parse chunks st =
     (case admin_read [] chunks of
        None \<Rightarrow> (None, st)
      | Some bs \<Rightarrow>
          let line = byte_text bs in
          if \<not> valid line \<or> trim line = [] then (None, st)
          else case parse (rev (dropWhile is_whitespace (rev line))) of
                 Inl e \<Rightarrow> (Some (ErrorReply (''malformed request: '' @ e)), st)
               | Inr request \<Rightarrow> (let (reply, st1) = admin_dispatch V w ctx request st in (Some reply, st1)))"

section \<open>Printing\<close>

definition rel :: "u64 \<Rightarrow> u64 \<Rightarrow> string" where
  "rel now ts =
     (let secs = now - ts in
      if secs \<le> 59 then show_nat secs @ ''s ago''
      else if secs \<le> 3599 then show_nat (secs div 60) @ ''m ago''
      else if secs \<le> 86399 then show_nat (secs div 3600) @ ''h ago''
      else show_nat (secs div 86400) @ ''d ago'')"

definition format_uptime :: "u64 \<Rightarrow> string" where
  "format_uptime secs =
     (let d = secs div 86400; h = secs mod 86400 div 3600; m = secs mod 3600 div 60; s = secs mod 60 in
      if d = 0 \<and> h = 0 then show_nat m @ ''m '' @ show_nat s @ ''s''
      else if d = 0 then show_nat h @ ''h '' @ show_nat m @ ''m''
      else show_nat d @ ''d '' @ show_nat h @ ''h '' @ show_nat m @ ''m'')"

definition pad_right :: "nat \<Rightarrow> string \<Rightarrow> string" where
  "pad_right n s = s @ replicate (n - length s) CHR '' ''"

definition show_ban :: "u64 \<Rightarrow> ban \<Rightarrow> string" where
  "show_ban now b =
     pad_right 43 (ban_network b) @ '' '' @ pad_right 20 (ban_policy b) @ '' '' @ pad_right 16 (ban_action b) @ '' '' @
     (case ban_expires_at b of None \<Rightarrow> ''permanent'' | Some ts \<Rightarrow> rel now ts) @ '' ['' @ ban_apply_state b @ '']'' @
     (case ban_last_error b of None \<Rightarrow> [] | Some e \<Rightarrow> CHR 0x0A # ''  error: '' @ e)"

definition show_policy_status :: "policy_status \<Rightarrow> string" where
  "show_policy_status p = pad_right 24 (ps_name p) @ '' '' @ pad_right 24 (ps_source p) @ '' '' @ ps_action p"

section \<open>Numbered offenses\<close>

datatype offense_kind = KindDrop | KindSmear | KindTarpit | KindPoisonReturn | KindScore u32 | KindReport string

fun offense_label :: "offense_kind \<Rightarrow> string" where
  "offense_label KindDrop = ''drop''"
| "offense_label KindSmear = ''smear''"
| "offense_label KindTarpit = ''tarpit''"
| "offense_label KindPoisonReturn = ''poison_return''"
| "offense_label (KindScore _) = ''score''"
| "offense_label (KindReport kind) = kind"

record web_offense_source =
  wos_name :: string
  wos_sequence :: u64

text \<open>\<open>emit\<close> for a payload that is already JSON: the record and the source behind it. The counter wraps,
  the number written does not.\<close>

definition web_offense_record :: "string \<Rightarrow> u64 \<Rightarrow> u64 \<Rightarrow> string \<Rightarrow> source_record" where
  "web_offense_record name sequence at payload =
     \<lparr> sr_source = name, sr_id = ''listener:'' @ name @ '':'' @ show_nat sequence, sr_payload = payload, sr_correlation = None,
       sr_observed_at = at, sr_checkpoint = ListenerCheckpoint sequence, sr_oversized = False \<rparr>"

definition emit :: "u64 \<Rightarrow> string \<Rightarrow> bool \<Rightarrow> web_offense_source \<Rightarrow> bool \<times> source_record option \<times> web_offense_source" where
  "emit at payload room src =
     (let sequence = sat_add64 (wos_sequence src) 1;
          r = web_offense_record (wos_name src) sequence at payload
      in (room, if room then Some r else None, src\<lparr> wos_sequence := (wos_sequence src + 1) mod 2 ^ 64 \<rparr>))"

section \<open>A request is one line, however it arrives\<close>

lemma admin_read_line:
  assumes "newline \<notin> set bs" "admin_read bs chunks = Some line"
  shows "line = take (line_length (bs @ concat chunks)) (bs @ concat chunks) \<and> ends_line line \<and> length line \<le> MAX_REQUEST"
  using assms
proof (induction chunks arbitrary: bs)
  case (Cons chunk chunks)
  let ?len = "line_length chunk"
  have nonempty: "chunk \<noteq> []" and fits: "length bs + ?len \<le> MAX_REQUEST"
    using Cons.prems(2) by (auto simp: Let_def split: if_splits)
  have le: "?len \<le> length chunk" by (rule line_length_le)
  have ends: "ends_line (bs @ take ?len chunk) \<longleftrightarrow> newline \<in> set chunk"
    using ends_line_take [of ?len chunk] nonempty line_length_pos [OF nonempty] by (auto simp: ends_line_def)
  show ?case
  proof (cases "newline \<in> set chunk")
    case True
    then have "line = bs @ take ?len chunk" using Cons.prems(2) nonempty fits ends by (simp add: Let_def)
    then show ?thesis using True Cons.prems(1) fits le ends by (simp add: line_length_append)
  next
    case False
    then have all: "take ?len chunk = chunk" by (simp add: line_length_no_newline)
    have "admin_read (bs @ chunk) chunks = Some line"
      using Cons.prems(2) nonempty fits ends False all by (simp add: Let_def)
    from Cons.IH [OF _ this] have "line = take (line_length ((bs @ chunk) @ concat chunks)) ((bs @ chunk) @ concat chunks) \<and>
        ends_line line \<and> length line \<le> MAX_REQUEST"
      using Cons.prems(1) False by (auto simp only: set_append Un_iff)
    then show ?thesis unfolding concat.simps append_assoc .
  qed
qed simp

lemma admin_read_some:
  assumes "newline \<notin> set bs" "newline \<in> set (concat chunks)" "[] \<notin> set chunks" "line_length (bs @ concat chunks) \<le> MAX_REQUEST"
  shows "\<exists>line. admin_read bs chunks = Some line"
  using assms
proof (induction chunks arbitrary: bs)
  case (Cons chunk chunks)
  have nonempty: "chunk \<noteq> []" using Cons.prems(3) by auto
  have ends: "ends_line (bs @ take (line_length chunk) chunk) \<longleftrightarrow> newline \<in> set chunk"
    using ends_line_take [of "line_length chunk" chunk] nonempty line_length_pos [OF nonempty] by (auto simp: ends_line_def)
  have len: "length bs + line_length chunk \<le> line_length (bs @ concat (chunk # chunks))"
    using Cons.prems(1) line_length_no_newline [of chunk] by (simp add: line_length_append)
  show ?case
  proof (cases "newline \<in> set chunk")
    case True
    then show ?thesis using Cons.prems(4) nonempty ends len by (simp add: Let_def)
  next
    case False
    then have "\<exists>line. admin_read (bs @ chunk) chunks = Some line" using Cons by simp
    then show ?thesis using Cons.prems(4) nonempty ends len False by (simp add: Let_def line_length_no_newline)
  qed
qed simp

text \<open>A control request is exactly the first line that was sent. However the bytes arrive, the
  line that is parsed is the text up to the first newline and at most 64 KiB; and every line that ends
  within that limit is read.\<close>

theorem admin_request_framed:
  assumes "[] \<notin> set chunks"
  shows "admin_read [] chunks =
    (if newline \<in> set (concat chunks) \<and> line_length (concat chunks) \<le> MAX_REQUEST
     then Some (take (line_length (concat chunks)) (concat chunks)) else None)"
proof (cases "newline \<in> set (concat chunks) \<and> line_length (concat chunks) \<le> MAX_REQUEST")
  case True
  then obtain line where "admin_read [] chunks = Some line" using admin_read_some [of "[]" chunks] assms by auto
  moreover from this have "line = take (line_length ([] @ concat chunks)) ([] @ concat chunks)"
    by (intro admin_read_line [THEN conjunct1]) simp_all
  ultimately show ?thesis using True by (simp only: append_Nil if_True simp_thms)
next
  case False
  have "admin_read [] chunks \<noteq> Some line" for line
  proof
    assume "admin_read [] chunks = Some line"
    then have line: "line = take (line_length (concat chunks)) (concat chunks)" "ends_line line" "length line \<le> MAX_REQUEST"
      using admin_read_line [of "[]" chunks line, unfolded append_Nil] by auto
    then have "newline \<in> set (concat chunks)" using ends_line_take [of "line_length (concat chunks)" "concat chunks"] by simp
    moreover have "length line = line_length (concat chunks)" using line(1) line_length_le [of "concat chunks"] by simp
    ultimately show False using False line(3) by simp
  qed
  then show ?thesis using False by (cases "admin_read [] chunks") auto
qed

theorem admin_request_framed_witness:
  "admin_read [] [[97], [98, 10, 99]] = Some [97, 98, 10]"
  using admin_request_framed [of "[[97], [98, 10, 99]]"] by (simp add: MAX_REQUEST_def)

section \<open>When a ban expires\<close>

lemma active_lease_ahead:
  assumes "active_leases E now d = Inr ls" "l \<in> set ls" "lease_expires_at l = Some ts"
  shows "now < ts"
proof -
  obtain r where r: "lease_live (int now) r" "decode_lease E r = Inr l"
    using assms(1,2) by (auto simp: active_leases_def sql_time_def result_simps collect_results_Inr_iff
        dest!: list_all2_set2 split: if_splits)
  then have "transpose_option (map_option rust_time (lr_expires_at r)) = Inr (Some ts)"
    using assms(3) by (auto simp: decode_lease_def result_simps)
  then obtain e where "lr_expires_at r = Some e" "0 \<le> e" "ts = nat e"
    by (cases "lr_expires_at r") (auto simp: rust_time_def result_simps split: if_splits)
  then show ?thesis using r(1) by (auto simp: lease_live_def)
qed

lemma rel_ahead: "now \<le> ts \<Longrightarrow> rel now ts = ''0s ago''"
  by (simp add: rel_def) code_simp

text \<open>Every timed ban in force is listed as having ended just now. The expiry of an active lease
  lies ahead, and printing how long ago it was yields zero seconds for all of them.\<close>

theorem ban_expiry_misprinted:
  assumes "bans V w st = Inr bs" "b \<in> set bs" "ban_expires_at b = Some ts"
  shows "w_now w < ts \<and> rel (w_now w) ts = ''0s ago''"
proof -
  obtain ls l where "active_leases (de_store V) (w_now w) (df_store st) = Inr ls" "l \<in> set ls" "lease_expires_at l = Some ts"
    using assms by (auto simp: bans_def result_simps ban_of_def)
  then have "w_now w < ts" by (rule active_lease_ahead)
  then show ?thesis by (simp add: rel_ahead)
qed

lemma ex_active: "active_leases ex_env 1100 ex_db = Inr [ex_lease]"
  by (simp add: active_leases_def sql_time_def width_simps ex_db_leases ex_row_def lease_live_def decode_lease_def
      rust_time_def ex_lease_def ok_or_def ex_env_def cidr_parse_show)

lemma ex_bans: "bans ex_denv ex_world (ex_defense ex_db) = Inr [ban_of cidr ex_lease]"
  by (simp add: bans_def ex_active)

theorem ban_expiry_misprinted_witness: "rel 1100 1600 = ''0s ago''"
  using ban_expiry_misprinted [OF ex_bans, of "ban_of cidr ex_lease" 1600] by (simp add: ban_of_def ex_lease_def)

section \<open>A trapped connection\<close>

definition ex_tarpit_config :: config where
  "ex_tarpit_config = ex_config\<lparr> cfg_listeners := [\<lparr> listener_name = ''ssh'', listen_addr = ''0.0.0.0:22'',
     listener_policy = Some ''ssh'', listener_max_tarpit_conns = None, listener_min_delay_ms = None,
     listener_max_delay_ms = None, listener_max_tarpit_secs = None, listener_line_length = None \<rparr>] \<rparr>"

definition ex_trapped :: tarpits where
  "ex_trapped = handle_connection (\<lambda>_. False) (\<lambda>_. False) ex_tarpit_config (Inr None) 0
     (accept 0 (V4 7) (tarpits_start ex_tarpit_config))"

lemma ex_trapped_reachable: "tarpit_reachable (\<lambda>_. False) (\<lambda>_. False) ex_tarpit_config ex_trapped"
  unfolding ex_trapped_def
proof (rule tarpit_reachable.steps [OF tarpit_reachable.steps [OF tarpit_reachable.starts tarpit_step.accepts] tarpit_step.handles])
qed (simp_all add: tarpits_start_def ex_tarpit_config_def ex_config_def accept_def Let_def)


end
