(* ===== verification/Network_Lists.thy ===== *)
theory Network_Lists
  imports Ip_Network Config_Model Web_Text Byte_Codec
begin

text \<open>
  The named networks of a policy: the sources they are read from, filtering (a line per prefix, a regular
  expression, or a path into JSON), the cache of fetched lists, and the lookup table built from them
  (bagel-web/src/net/loader.rs, net/mod.rs, net/radb.rs and cache.rs). The HTTP client, files, the WHOIS
  connection, the JSON parser and the trie are arguments.
\<close>

section \<open>Configuration\<close>

datatype network_filter = JqFilter string | RegexFilter string | NoFilter

datatype network_source =
    UrlSource string network_filter
  | FileSource string network_filter
  | AsnSource u32
  | InlineSource "string list"

record network_config =
  nc_name :: string
  nc_sources :: "network_source list"

section \<open>The lookup table\<close>

text \<open>The trie library, and what a lookup in it means.\<close>

record ('net, 't) net_table =
  tb_new :: 't
  tb_insert :: "'net \<Rightarrow> 't \<Rightarrow> 't"
  tb_match :: "'t \<Rightarrow> ip_addr \<Rightarrow> bool"

definition table_semantics :: "'net ipnet \<Rightarrow> ('net, 't) net_table \<Rightarrow> bool" where
  "table_semantics N B \<longleftrightarrow>
     (\<forall>ip. \<not> tb_match B (tb_new B) ip) \<and>
     (\<forall>n t ip. tb_match B (tb_insert B n t) ip \<longleftrightarrow> net_contains N n ip \<or> tb_match B t ip)"

record 't ip_net_trie =
  trie_table :: 't
  trie_len :: usize

text \<open>A prefix is a network or an address, which stands for its host network; \<open>Some None\<close> is neither, and
  \<open>None\<close> a panic of the constructor.\<close>

definition prefix_network :: "'net ipnet \<Rightarrow> string \<Rightarrow> 'net option option" where
  "prefix_network N p =
     (case net_parse N p of
        Some n \<Rightarrow> Some (Some n)
      | None \<Rightarrow>
          (case addr_parse N p of
             Some ip \<Rightarrow> map_option Some (net_new N ip (if is_ipv4 ip then 32 else 128))
           | None \<Rightarrow> Some None))"

fun from_prefixes_loop :: "'net ipnet \<Rightarrow> ('net, 't) net_table \<Rightarrow> string list \<Rightarrow> 't ip_net_trie \<Rightarrow> 't ip_net_trie option" where
  "from_prefixes_loop N B [] trie = Some trie"
| "from_prefixes_loop N B (p # ps) trie =
     (case prefix_network N p of
        None \<Rightarrow> None
      | Some None \<Rightarrow> from_prefixes_loop N B ps trie
      | Some (Some n) \<Rightarrow>
          from_prefixes_loop N B ps \<lparr> trie_table = tb_insert B n (trie_table trie), trie_len = trie_len trie + 1 \<rparr>)"

definition from_prefixes :: "'net ipnet \<Rightarrow> ('net, 't) net_table \<Rightarrow> string list \<Rightarrow> 't ip_net_trie option" where
  "from_prefixes N B ps = from_prefixes_loop N B ps \<lparr> trie_table = tb_new B, trie_len = 0 \<rparr>"

definition trie_contains :: "('net, 't) net_table \<Rightarrow> 't ip_net_trie \<Rightarrow> ip_addr \<Rightarrow> bool" where
  "trie_contains B trie ip = tb_match B (trie_table trie) ip"

section \<open>Filters\<close>

text \<open>\<open>str::lines\<close>: a carriage return belongs to the end of a line only before a newline.\<close>

definition drop_cr :: "string \<Rightarrow> string" where
  "drop_cr s = (if s \<noteq> [] \<and> last s = CHR 0x0D then butlast s else s)"

definition str_lines :: "string \<Rightarrow> string list" where
  "str_lines s =
     (let parts = split_on CHR 0x0A s in
      map drop_cr (butlast parts) @ (if last parts = [] then [] else [last parts]))"

datatype json =
    JNull
  | JBool bool
  | JNumber string
  | JString string
  | JArray "json list"
  | JObject "(string \<times> json) list"

fun json_get :: "json \<Rightarrow> string \<Rightarrow> json option" where
  "json_get (JObject fs) key = map_of fs key"
| "json_get _ key = None"

text \<open>\<open>split_jq_segments\<close>, by its two indices into the path.\<close>

function jq_loop :: "string \<Rightarrow> nat \<Rightarrow> nat \<Rightarrow> string list \<Rightarrow> string list" where
  "jq_loop path start idx segments =
     (if length path \<le> idx then (if start < length path then segments @ [drop start path] else segments)
      else if path ! idx = CHR ''.'' \<and> start < idx
        then jq_loop path (idx + 1) (idx + 1) (segments @ [take (idx - start) (drop start path)])
      else if path ! idx = CHR ''.'' \<and> idx = start then jq_loop path (idx + 1) (idx + 1) segments
      else jq_loop path start (idx + 1) segments)"
  by pat_completeness auto
termination by (relation "measure (\<lambda>(path, start, idx, segments). length path - idx)") auto

declare jq_loop.simps [simp del]

definition split_jq_segments :: "string \<Rightarrow> string list" where
  "split_jq_segments path = jq_loop path 0 0 []"

definition jq_step :: "string \<Rightarrow> json \<Rightarrow> json list" where
  "jq_step segment val =
     (case strip_suffix ''[]'' segment of
        Some field \<Rightarrow>
          (let target = (if field = [] then val else (case json_get val field of Some v \<Rightarrow> v | None \<Rightarrow> JNull))
           in case target of JArray vs \<Rightarrow> vs | _ \<Rightarrow> [])
      | None \<Rightarrow> (case json_get val segment of Some sub \<Rightarrow> [sub] | None \<Rightarrow> []))"

fun json_string :: "json \<Rightarrow> string option" where
  "json_string (JString s) = Some s"
| "json_string _ = None"

definition extract_jq_path :: "json \<Rightarrow> string \<Rightarrow> string list" where
  "extract_jq_path val path =
     List.map_filter json_string
       (fold (\<lambda>segment vals. concat (map (jq_step segment) vals)) (split_jq_segments (dropWhile (\<lambda>c. c = CHR ''.'') path)) [val])"

text \<open>The parsers: every match of a regular expression with its named and numbered groups, and JSON.\<close>

record 're list_lib =
  ll_regex :: "string \<Rightarrow> string + 're"
  ll_captures_iter :: "'re \<Rightarrow> string \<Rightarrow> ((string \<Rightarrow> string option) \<times> (nat \<Rightarrow> string option)) list"
  ll_json :: "string \<Rightarrow> string + json"

fun apply_filter :: "'re list_lib \<Rightarrow> string \<Rightarrow> network_filter \<Rightarrow> string list result" where
  "apply_filter L body NoFilter =
     Inr (filter (\<lambda>line. line \<noteq> [] \<and> hd line \<noteq> CHR ''#'') (map trim (str_lines body)))"
| "apply_filter L body (RegexFilter pattern) =
     (case ll_regex L pattern of
        Inl e \<Rightarrow> Inl (Config (''invalid network filter regex: '' @ e))
      | Inr re \<Rightarrow>
          Inr (List.map_filter (\<lambda>(named, group). case named ''prefix'' of Some m \<Rightarrow> Some m | None \<Rightarrow> group 1)
                 (ll_captures_iter L re body)))"
| "apply_filter L body (JqFilter path) =
     (case ll_json L body of
        Inl e \<Rightarrow> Inl (Config (''network source body is not valid JSON: '' @ e))
      | Inr val \<Rightarrow> Inr (extract_jq_path val path))"

section \<open>The cache of fetched lists\<close>

text \<open>The directory: a file per key with its text and the time it was written.\<close>

record file_cache =
  fc_files :: "(string \<times> (string \<times> nat)) list"
  fc_ttl :: nat

definition cache_path :: "(byte list \<Rightarrow> byte list) \<Rightarrow> string \<Rightarrow> string" where
  "cache_path sha256 key = hex_encode (take 8 (sha256 (as_bytes key)))"

definition cache_get :: "(byte list \<Rightarrow> byte list) \<Rightarrow> nat \<Rightarrow> string \<Rightarrow> file_cache \<Rightarrow> string option" where
  "cache_get sha256 now key c =
     (case map_of (fc_files c) (cache_path sha256 key) of
        None \<Rightarrow> None
      | Some (data, modified) \<Rightarrow>
          if now < modified then None else if fc_ttl c < now - modified then None else Some data)"

definition cache_set :: "(byte list \<Rightarrow> byte list) \<Rightarrow> nat \<Rightarrow> string \<Rightarrow> string \<Rightarrow> file_cache \<Rightarrow> file_cache" where
  "cache_set sha256 now key data c = c\<lparr> fc_files := (cache_path sha256 key, (data, now)) # fc_files c \<rparr>"

section \<open>Loading\<close>

text \<open>The WHOIS answer for the routes of an autonomous system, line by line.\<close>

definition asn_query :: "u32 \<Rightarrow> string" where
  "asn_query asn = ''-i origin AS'' @ show_nat asn @ [CHR 0x0D, CHR 0x0A]"

definition route_line :: "string \<Rightarrow> string option" where
  "route_line line =
     (case strip_prefix ''route:'' line of
        Some p \<Rightarrow> Some (trim p)
      | None \<Rightarrow> map_option trim (strip_prefix ''route6:'' line))"

definition query_asn_routes :: "string result list result \<Rightarrow> string list result" where
  "query_asn_routes connection =
     rbind connection (\<lambda>lines. rbind (collect_results (\<lambda>x. x) lines) (\<lambda>ls. Inr (List.map_filter route_line ls)))"

definition MAX_NETWORK_SOURCE_BODY :: usize where "MAX_NETWORK_SOURCE_BODY = 16 * 1024 * 1024"

record http_reply =
  hr_status :: nat
  hr_body :: string

text \<open>The world a load meets: replies within the timeout, files, WHOIS connections, and the time. A cache
  that cannot be written keeps what it has.\<close>

record network_world =
  nw_request :: "string \<Rightarrow> http_reply result"
  nw_file :: "string \<Rightarrow> string result"
  nw_whois :: "string \<Rightarrow> string result list result"
  nw_now :: nat
  nw_writable :: bool

definition fetch_body :: "network_world \<Rightarrow> string \<Rightarrow> string result" where
  "fetch_body W url =
     rbind (nw_request W url) (\<lambda>reply.
     rbind (fail_if (hr_status reply < 200 \<or> 300 \<le> hr_status reply)
              (Other (''network source returned HTTP '' @ show_nat (hr_status reply)))) (\<lambda>_.
     rbind (fail_if (MAX_NETWORK_SOURCE_BODY < length (hr_body reply)) (Other ''body: length limit exceeded'')) (\<lambda>_.
       Inr (utf8_lossy (hr_body reply)))))"

definition remember :: "(byte list \<Rightarrow> byte list) \<Rightarrow> network_world \<Rightarrow> string \<Rightarrow> string \<Rightarrow> file_cache option \<Rightarrow> file_cache option" where
  "remember sha256 W key data c =
     (case c of Some cache \<Rightarrow> Some (if nw_writable W then cache_set sha256 (nw_now W) key data cache else cache) | None \<Rightarrow> None)"

definition recall :: "(byte list \<Rightarrow> byte list) \<Rightarrow> network_world \<Rightarrow> string \<Rightarrow> file_cache option \<Rightarrow> string option" where
  "recall sha256 W key c = (case c of Some cache \<Rightarrow> cache_get sha256 (nw_now W) key cache | None \<Rightarrow> None)"

definition asn_key :: "u32 \<Rightarrow> string" where
  "asn_key asn = ''asn:'' @ show_nat asn"

fun load_source ::
  "'re list_lib \<Rightarrow> (byte list \<Rightarrow> byte list) \<Rightarrow> network_world \<Rightarrow> network_source \<Rightarrow> file_cache option \<Rightarrow>
   string list result \<times> file_cache option" where
  "load_source L sha256 W (UrlSource url flt) c =
     (case recall sha256 W url c of
        Some cached \<Rightarrow> (apply_filter L cached flt, c)
      | None \<Rightarrow>
          (case fetch_body W url of
             Inl e \<Rightarrow> (Inl e, c)
           | Inr body \<Rightarrow> (apply_filter L body flt, remember sha256 W url body c)))"
| "load_source L sha256 W (FileSource path flt) c = (rbind (nw_file W path) (\<lambda>body. apply_filter L body flt), c)"
| "load_source L sha256 W (AsnSource asn) c =
     (case recall sha256 W (asn_key asn) c of
        Some cached \<Rightarrow> (Inr (str_lines cached), c)
      | None \<Rightarrow>
          (case query_asn_routes (nw_whois W (asn_query asn)) of
             Inl e \<Rightarrow> (Inl e, c)
           | Inr ps \<Rightarrow> (Inr ps, remember sha256 W (asn_key asn) (join_with [CHR 0x0A] ps) c)))"
| "load_source L sha256 W (InlineSource ps) c = (Inr ps, c)"

fun load_sources ::
  "(error \<Rightarrow> string) \<Rightarrow> 're list_lib \<Rightarrow> (byte list \<Rightarrow> byte list) \<Rightarrow> network_world \<Rightarrow> string \<Rightarrow> network_source list \<Rightarrow> file_cache option \<Rightarrow>
   string list result \<times> file_cache option" where
  "load_sources show L sha256 W name [] c = (Inr [], c)"
| "load_sources show L sha256 W name (src # srcs) c =
     (case load_source L sha256 W src c of
        (Inl e, c1) \<Rightarrow> (Inl (Config (''network '' @ name @ '': failed to load source: '' @ show e)), c1)
      | (Inr ps, c1) \<Rightarrow>
          (case load_sources show L sha256 W name srcs c1 of
             (Inl e, c2) \<Rightarrow> (Inl e, c2)
           | (Inr qs, c2) \<Rightarrow> (Inr (ps @ qs), c2)))"

definition invalid_prefix :: "'net ipnet \<Rightarrow> string \<Rightarrow> bool" where
  "invalid_prefix N p \<longleftrightarrow> net_parse N p = None \<and> addr_parse N p = None"

text \<open>\<open>load_networks\<close>. The table is entered under its name, in place of an earlier one.\<close>

fun load_networks ::
  "'net ipnet \<Rightarrow> ('net, 't) net_table \<Rightarrow> (error \<Rightarrow> string) \<Rightarrow> 're list_lib \<Rightarrow> (byte list \<Rightarrow> byte list) \<Rightarrow> network_world \<Rightarrow>
   network_config list \<Rightarrow> (string \<times> 't ip_net_trie) list \<Rightarrow> file_cache option \<Rightarrow>
   (string \<times> 't ip_net_trie) list result \<times> file_cache option" where
  "load_networks N B show L sha256 W [] nets c = (Inr nets, c)"
| "load_networks N B show L sha256 W (cfg # cfgs) nets c =
     (case load_sources show L sha256 W (nc_name cfg) (nc_sources cfg) c of
        (Inl e, c1) \<Rightarrow> (Inl e, c1)
      | (Inr ps, c1) \<Rightarrow>
          (case List.find (invalid_prefix N) ps of
             Some p \<Rightarrow> (Inl (Config (''network '' @ nc_name cfg @ '': invalid IP prefix '' @ p)), c1)
           | None \<Rightarrow>
               (case from_prefixes N B ps of
                  None \<Rightarrow> (Inl (Other ''panic''), c1)
                | Some trie \<Rightarrow> load_networks N B show L sha256 W cfgs ((nc_name cfg, trie) # filter (\<lambda>(k, _). k \<noteq> nc_name cfg) nets) c1)))"

section \<open>Paths into JSON\<close>

lemma jq_loop_split:
  assumes "start \<le> idx" "idx \<le> length path" "CHR ''.'' \<notin> set (take (idx - start) (drop start path))"
  shows "jq_loop path start idx segments = segments @ filter (\<lambda>w. w \<noteq> []) (split_on CHR ''.'' (drop start path))"
  using assms
proof (induction path start idx segments rule: jq_loop.induct)
  case (1 path start idx segments)
  let ?word = "take (idx - start) (drop start path)"
  show ?case
  proof (cases "length path \<le> idx")
    case True
    then have "CHR ''.'' \<notin> set (drop start path)" using "1.prems" by simp
    then show ?thesis using True by (auto simp: jq_loop.simps [of path start idx] split_on_none)
  next
    case False
    have rest: "drop start path = ?word @ path ! idx # drop (idx + 1) path"
      using False "1.prems"(1) by (metis Suc_eq_plus1 append_take_drop_id drop_drop id_take_nth_drop le_add_diff_inverse2 not_le_imp_less add.commute Cons_nth_drop_Suc)
    show ?thesis
    proof (cases "path ! idx = CHR ''.''")
      case True
      have split: "split_on CHR ''.'' (drop start path) = ?word # split_on CHR ''.'' (drop (idx + 1) path)"
      proof -
        have "split_on CHR ''.'' (drop start path) = split_on CHR ''.'' (?word @ path ! idx # drop (idx + 1) path)"
          by (rule arg_cong [OF rest])
        also have "\<dots> = ?word # split_on CHR ''.'' (drop (idx + 1) path)"
          unfolding True by (rule split_on_plain [OF "1.prems"(3)])
        finally show ?thesis .
      qed
      show ?thesis
      proof (cases "start < idx")
        case True
        then show ?thesis using False \<open>path ! idx = CHR ''.''\<close> "1.IH"(1) "1.prems"
          by (simp add: jq_loop.simps [of path start idx] split)
      next
        case False
        then have "start = idx" using "1.prems"(1) by simp
        moreover from this have "jq_loop path start idx segments = jq_loop path (idx + 1) (idx + 1) segments"
          using \<open>\<not> length path \<le> idx\<close> \<open>path ! idx = CHR ''.''\<close> by (subst jq_loop.simps) simp
        moreover have "jq_loop path (idx + 1) (idx + 1) segments =
            segments @ filter (\<lambda>w. w \<noteq> []) (split_on CHR ''.'' (drop (idx + 1) path))"
          using \<open>\<not> length path \<le> idx\<close> \<open>path ! idx = CHR ''.''\<close> \<open>start = idx\<close> by (intro "1.IH"(2)) simp_all
        moreover have "filter (\<lambda>w. w \<noteq> []) (split_on CHR ''.'' (drop start path)) =
            filter (\<lambda>w. w \<noteq> []) (split_on CHR ''.'' (drop (idx + 1) path))"
          using split \<open>start = idx\<close> by simp
        ultimately show ?thesis by metis
      qed
    next
      case notdot: False
      have "take (idx + 1 - start) (drop start path) = ?word @ [path ! idx]"
        using rest "1.prems"(1,2) False by (simp add: Suc_diff_le take_Suc_conv_app_nth)
      then show ?thesis using False notdot "1.IH"(3) "1.prems" by (simp add: jq_loop.simps [of path start idx])
    qed
  qed
qed

text \<open>The segments of a path are the non-empty parts between its dots.\<close>

lemma jq_segments: "split_jq_segments path = filter (\<lambda>w. w \<noteq> []) (split_on CHR ''.'' path)"
  by (simp add: split_jq_segments_def jq_loop_split)

section \<open>A list is loaded exactly\<close>

text \<open>The addresses a prefix stands for.\<close>

definition prefix_covers :: "'net ipnet \<Rightarrow> string \<Rightarrow> ip_addr \<Rightarrow> bool" where
  "prefix_covers N p ip \<longleftrightarrow>
     (case net_parse N p of Some n \<Rightarrow> net_contains N n ip | None \<Rightarrow> addr_parse N p = Some ip)"

lemma prefix_network_covers:
  assumes "net_semantics N" "net_hosts N" "\<not> invalid_prefix N p"
  shows "\<exists>n. prefix_network N p = Some (Some n) \<and> (\<forall>ip. net_contains N n ip \<longleftrightarrow> prefix_covers N p ip)"
proof (cases "net_parse N p")
  case None
  then obtain a where a: "addr_parse N p = Some a" using assms(3) by (auto simp: invalid_prefix_def)
  obtain n where "net_new N a (addr_bits a) = Some n" using assms(2) by (auto simp: net_hosts_def)
  then have n: "net_new N a (if is_ipv4 a then 32 else 128) = Some n" by (cases a) auto
  then have "host_network N a = Inr n" by (simp add: host_network_def)
  then have "net_contains N n ip \<longleftrightarrow> ip = a" for ip using host_network_contains [OF assms(1) _ assms(2)] by blast
  then show ?thesis using None a n by (auto simp: prefix_network_def prefix_covers_def)
qed (simp add: prefix_network_def prefix_covers_def)

lemma from_prefixes_loop_covers:
  assumes "net_semantics N" "net_hosts N" "table_semantics N B" "\<forall>p \<in> set ps. \<not> invalid_prefix N p"
  shows "\<exists>trie'. from_prefixes_loop N B ps trie = Some trie' \<and> trie_len trie' = trie_len trie + length ps \<and>
    (\<forall>ip. trie_contains B trie' ip \<longleftrightarrow> trie_contains B trie ip \<or> (\<exists>p \<in> set ps. prefix_covers N p ip))"
  using assms(4)
proof (induction ps arbitrary: trie)
  case (Cons p ps)
  obtain n where n: "prefix_network N p = Some (Some n)" "\<forall>ip. net_contains N n ip \<longleftrightarrow> prefix_covers N p ip"
    using prefix_network_covers [OF assms(1,2), of p] Cons.prems by auto
  let ?trie = "\<lparr> trie_table = tb_insert B n (trie_table trie), trie_len = trie_len trie + 1 \<rparr>"
  have step: "trie_contains B ?trie ip \<longleftrightarrow> prefix_covers N p ip \<or> trie_contains B trie ip" for ip
    using n(2) assms(3) by (simp add: trie_contains_def table_semantics_def)
  obtain trie' where "from_prefixes_loop N B ps ?trie = Some trie'" "trie_len trie' = trie_len ?trie + length ps"
    "\<forall>ip. trie_contains B trie' ip \<longleftrightarrow> trie_contains B ?trie ip \<or> (\<exists>p \<in> set ps. prefix_covers N p ip)"
    using Cons.IH [of ?trie] Cons.prems by auto
  then show ?case using n(1) step by auto
qed simp

lemma from_prefixes_covers:
  assumes "net_semantics N" "net_hosts N" "table_semantics N B" "\<forall>p \<in> set ps. \<not> invalid_prefix N p"
  shows "\<exists>trie. from_prefixes N B ps = Some trie \<and> (\<forall>ip. trie_contains B trie ip \<longleftrightarrow> (\<exists>p \<in> set ps. prefix_covers N p ip))"
  using from_prefixes_loop_covers [OF assms, of "\<lparr> trie_table = tb_new B, trie_len = 0 \<rparr>"] assms(3)
  by (auto simp: from_prefixes_def trie_contains_def table_semantics_def)

text \<open>What is entered for one configured network: the prefixes its sources gave at some state of the
  cache, all of them valid, and exactly the addresses they cover.\<close>

definition loaded_from ::
  "'net ipnet \<Rightarrow> ('net, 't) net_table \<Rightarrow> (error \<Rightarrow> string) \<Rightarrow> 're list_lib \<Rightarrow> (byte list \<Rightarrow> byte list) \<Rightarrow> network_world \<Rightarrow>
   network_config \<Rightarrow> 't ip_net_trie \<Rightarrow> bool" where
  "loaded_from N B show L sha256 W cfg trie \<longleftrightarrow>
     (\<exists>ps c c'. load_sources show L sha256 W (nc_name cfg) (nc_sources cfg) c = (Inr ps, c') \<and>
        (\<forall>p \<in> set ps. \<not> invalid_prefix N p) \<and> (\<forall>ip. trie_contains B trie ip \<longleftrightarrow> (\<exists>p \<in> set ps. prefix_covers N p ip)))"

lemma load_networks_step:
  assumes "net_semantics N" "net_hosts N" "table_semantics N B"
    "load_networks N B show L sha256 W (cfg # cfgs) nets c = (Inr nets', c')"
  obtains trie c1 where "loaded_from N B show L sha256 W cfg trie"
    "load_networks N B show L sha256 W cfgs ((nc_name cfg, trie) # filter (\<lambda>(k, _). k \<noteq> nc_name cfg) nets) c1 = (Inr nets', c')"
proof -
  obtain ps c1 where ps: "load_sources show L sha256 W (nc_name cfg) (nc_sources cfg) c = (Inr ps, c1)"
    and found: "List.find (invalid_prefix N) ps = None"
    using assms(4) by (auto split: prod.splits sum.splits option.splits)
  then have valid: "\<forall>p \<in> set ps. \<not> invalid_prefix N p" by (simp add: find_None_iff)
  then obtain trie where trie: "from_prefixes N B ps = Some trie" "\<forall>ip. trie_contains B trie ip \<longleftrightarrow> (\<exists>p \<in> set ps. prefix_covers N p ip)"
    using from_prefixes_covers [OF assms(1-3)] by blast
  show ?thesis
  proof (rule that)
    show "loaded_from N B show L sha256 W cfg trie" using ps valid trie(2) by (auto simp: loaded_from_def)
    show "load_networks N B show L sha256 W cfgs ((nc_name cfg, trie) # filter (\<lambda>(k, _). k \<noteq> nc_name cfg) nets) c1 = (Inr nets', c')"
      using assms(4) by (simp add: ps found trie(1))
  qed
qed

lemma load_networks_entries:
  assumes "net_semantics N" "net_hosts N" "table_semantics N B"
    "load_networks N B show L sha256 W cfgs nets c = (Inr nets', c')"
  shows "(name \<notin> nc_name ` set cfgs \<longrightarrow> map_of nets' name = map_of nets name) \<and>
    (name \<in> nc_name ` set cfgs \<longrightarrow> (\<exists>cfg \<in> set cfgs. nc_name cfg = name \<and>
       (\<exists>trie. map_of nets' name = Some trie \<and> loaded_from N B show L sha256 W cfg trie)))"
  using assms(4)
proof (induction cfgs arbitrary: nets c)
  case (Cons cfg cfgs)
  obtain trie c1 where step: "loaded_from N B show L sha256 W cfg trie"
    "load_networks N B show L sha256 W cfgs ((nc_name cfg, trie) # filter (\<lambda>(k, _). k \<noteq> nc_name cfg) nets) c1 = (Inr nets', c')"
    using load_networks_step [OF assms(1-3) Cons.prems] .
  have other: "map_of (filter (\<lambda>(k, _). k \<noteq> nc_name cfg) nets) name = map_of nets name" if "name \<noteq> nc_name cfg"
    using that by (induction nets) auto
  show ?case
  proof (cases "name \<in> nc_name ` set cfgs")
    case True
    then show ?thesis using Cons.IH [OF step(2)] by (metis (no_types, lifting) image_iff list.set_intros(2))
  next
    case False
    then have "map_of nets' name = (if name = nc_name cfg then Some trie else map_of nets name)"
      using Cons.IH [OF step(2)] other by simp
    then show ?thesis using False step(1) by auto
  qed
qed simp


section \<open>A cached list is the list that was fetched\<close>

lemma str_lines_joined:
  assumes "\<forall>p \<in> set ps. p \<noteq> [] \<and> CHR 0x0A \<notin> set p \<and> last p \<noteq> CHR 0x0D"
  shows "str_lines (join_with [CHR 0x0A] ps) = ps"
proof (cases "ps = []")
  case False
  then have "split_on CHR 0x0A (join_with [CHR 0x0A] ps) = ps" using assms by (intro split_join) (auto simp: list_all_iff)
  moreover have "map drop_cr (butlast ps) = butlast ps" using assms by (intro map_idI) (auto simp: drop_cr_def dest: in_set_butlastD)
  moreover have "last ps \<noteq> []" using assms False by simp
  ultimately show ?thesis using False by (simp add: str_lines_def Let_def)
qed (simp add: str_lines_def)

lemma trim_last: "trim s \<noteq> [] \<Longrightarrow> \<not> is_whitespace (last (trim s))"
  by (metis hd_dropWhile last_rev rev_is_Nil_conv trim_def rev_rev_ident hd_rev)

lemma trim_subset: "set (trim s) \<subseteq> set s"
  by (auto simp: trim_def dest!: set_dropWhileD)

lemma route_line_clean:
  assumes "route_line line = Some p" "CHR 0x0A \<notin> set line" "p \<noteq> []"
  shows "CHR 0x0A \<notin> set p \<and> last p \<noteq> CHR 0x0D"
proof -
  obtain q where q: "p = trim q" "set q \<subseteq> set line"
  proof (cases "strip_prefix ''route:'' line")
    case None
    then obtain q where "strip_prefix ''route6:'' line = Some q" "p = trim q" using assms(1) by (auto simp: route_line_def)
    then show ?thesis using that [of q] strip_prefix_iff [of "''route6:''" line q] set_append [of "''route6:''" q] by auto
  next
    case (Some q)
    then have "p = trim q" using assms(1) by (simp add: route_line_def)
    then show ?thesis using that [of q] Some strip_prefix_iff [of "''route:''" line q] set_append [of "''route:''" q] by auto
  qed
  then have "\<not> is_whitespace (last p)" using trim_last assms(3) by blast
  then have "last p \<noteq> CHR 0x0D" by (auto simp: is_whitespace_def code_of_def)
  then show ?thesis using q trim_subset assms(2) by blast
qed

lemma query_asn_routes_clean:
  assumes "query_asn_routes conn = Inr ps" "\<forall>lines. conn = Inr lines \<longrightarrow> (\<forall>l. Inr l \<in> set lines \<longrightarrow> CHR 0x0A \<notin> set l)" "p \<in> set ps" "p \<noteq> []"
  shows "CHR 0x0A \<notin> set p \<and> last p \<noteq> CHR 0x0D"
proof -
  obtain lines ls where ls: "conn = Inr lines" "list_all2 (\<lambda>x y. x = Inr y) lines ls" "ps = List.map_filter route_line ls"
    using assms(1) by (auto simp: query_asn_routes_def result_simps collect_results_Inr_iff)
  then obtain l where l: "l \<in> set ls" "route_line l = Some p" using assms(3) by (auto simp: List.map_filter_def)
  moreover have "Inr l \<in> set lines" using list_all2_set2 [OF ls(2) l(1)] by auto
  ultimately show ?thesis using route_line_clean assms(2,4) ls(1) by blast
qed

lemma recall_remembered:
  assumes "nw_writable W" "nw_now W \<le> nw_now W'" "nw_now W' \<le> nw_now W + fc_ttl c"
  shows "recall sha256 W' key (remember sha256 W key data (Some c)) = Some data"
  using assms by (auto simp: recall_def remember_def cache_get_def cache_set_def)

text \<open>The key under which a source is cached.\<close>

fun source_key :: "network_source \<Rightarrow> string option" where
  "source_key (UrlSource url flt) = Some url"
| "source_key (AsnSource asn) = Some (asn_key asn)"
| "source_key _ = None"

text \<open>A list that was fetched is served from the cache for its lifetime as it was: the same source
  gives the same prefixes, whatever the network answers meanwhile.\<close>

theorem cached_list_unchanged:
  assumes "load_source L sha256 W src (Some c) = (Inr ps, c')" "[] \<notin> set ps"
    and "\<forall>q lines. nw_whois W q = Inr lines \<longrightarrow> (\<forall>l. Inr l \<in> set lines \<longrightarrow> CHR 0x0A \<notin> set l)"
    and "nw_writable W" "nw_now W \<le> nw_now W'" "nw_now W' \<le> nw_now W + fc_ttl c"
    and "source_key src = Some key" "recall sha256 W key (Some c) = None"
  shows "load_source L sha256 W' src c' = (Inr ps, c')"
proof (cases src)
  case (UrlSource url flt)
  then obtain body where "fetch_body W url = Inr body" "apply_filter L body flt = Inr ps" "c' = remember sha256 W url body (Some c)"
    using assms(1,7,8) by (auto split: sum.splits)
  then show ?thesis using recall_remembered [OF assms(4-6)] UrlSource by simp
next
  case (AsnSource asn)
  then have query: "query_asn_routes (nw_whois W (asn_query asn)) = Inr ps"
    and c': "c' = remember sha256 W (asn_key asn) (join_with [CHR 0x0A] ps) (Some c)"
    using assms(1,7,8) by (auto split: sum.splits)
  have "str_lines (join_with [CHR 0x0A] ps) = ps"
    using query_asn_routes_clean [OF query] assms(2,3) by (intro str_lines_joined) blast
  then show ?thesis using recall_remembered [OF assms(4-6)] AsnSource c' by simp
qed (use assms(7) in simp_all)

section \<open>Examples\<close>

definition ex_table :: "(cidr, cidr list) net_table" where
  "ex_table = \<lparr> tb_new = [], tb_insert = (#), tb_match = (\<lambda>t ip. list_ex (\<lambda>n. net_contains cidr n ip) t) \<rparr>"

definition ex_lists :: "string list_lib" where
  "ex_lists = \<lparr> ll_regex = Inr, ll_captures_iter = (\<lambda>_ _. []), ll_json = (\<lambda>_. Inl []) \<rparr>"

definition ex_online :: network_world where
  "ex_online = \<lparr> nw_request = (\<lambda>_. Inr \<lparr> hr_status = 200, hr_body = ''1.2.3.0/24'' \<rparr>), nw_file = (\<lambda>_. Inl (Io [])),
     nw_whois = (\<lambda>_. Inr [Inr ''route: 1.2.3.0/24'', Inr ''origin: AS7'']), nw_now = 5, nw_writable = True \<rparr>"

definition ex_offline :: network_world where
  "ex_offline = ex_online\<lparr> nw_request := (\<lambda>_. Inl (Other [])), nw_whois := (\<lambda>_. Inl (Io [])), nw_now := 9 \<rparr>"


theorem cached_list_unchanged_witness:
  "load_source ex_lists (\<lambda>_. []) ex_offline (AsnSource 7) (remember (\<lambda>_. []) ex_online (asn_key 7) ''1.2.3.0/24'' (Some \<lparr> fc_files = [], fc_ttl = 60 \<rparr>)) =
     (Inr [''1.2.3.0/24''], remember (\<lambda>_. []) ex_online (asn_key 7) ''1.2.3.0/24'' (Some \<lparr> fc_files = [], fc_ttl = 60 \<rparr>))"
proof (rule cached_list_unchanged [of _ _ ex_online _ "\<lparr> fc_files = [], fc_ttl = 60 \<rparr>"])
  have "route_line ''route: 1.2.3.0/24'' = Some ''1.2.3.0/24''" "route_line ''origin: AS7'' = None" by code_simp+
  then show "load_source ex_lists (\<lambda>_. []) ex_online (AsnSource 7) (Some \<lparr> fc_files = [], fc_ttl = 60 \<rparr>) =
      (Inr [''1.2.3.0/24''], remember (\<lambda>_. []) ex_online (asn_key 7) ''1.2.3.0/24'' (Some \<lparr> fc_files = [], fc_ttl = 60 \<rparr>))"
    by (simp add: recall_def cache_get_def query_asn_routes_def ex_online_def List.map_filter_def)
qed (auto simp: ex_online_def ex_offline_def recall_def cache_get_def)

end
