(* ===== verification/Crawler_Check.thy ===== *)
theory Crawler_Check
  imports Client_Address Net_Tables Rule_Engine
begin

text \<open>
  Which crawlers are who they say they are: the normalisation of the configured providers
  (bagel-web/src/state_validation.rs) and the verification of an address by forward-confirmed reverse
  DNS with its cache, its limit on lookups and its wait budget (bagel-web/src/crawler.rs). The resolver
  is an argument; lookups and requests interleave as steps. Time is in nanoseconds.
\<close>

section \<open>Providers\<close>

record crawler_config =
  pv_name :: string
  pv_suffixes :: "string list"

definition normalize_suffix :: "v6_text \<Rightarrow> string \<Rightarrow> string \<Rightarrow> string result" where
  "normalize_suffix T name s =
     (case canonical_parse T (dropWhile (\<lambda>c. c = CHR ''.'') s) of
        Inl e \<Rightarrow> Inl (Config (''crawler '' @ name @ '': invalid suffix '' @ s @ '': '' @ e))
      | Inr host \<Rightarrow>
          rbind (fail_if (is_host_ip host) (Config (''crawler '' @ name @ '': suffix '' @ s @ '' must be a DNS name'')))
            (\<lambda>_. Inr (CHR ''.'' # ch_text host)))"

fun normalize_loop :: "v6_text \<Rightarrow> string list \<Rightarrow> crawler_config list \<Rightarrow> crawler_config list result" where
  "normalize_loop T names [] = Inr []"
| "normalize_loop T names (crawler # crawlers) =
     rbind (fail_if (\<not> is_valid_maze_name (pv_name crawler)) (Config (''invalid crawler name '' @ pv_name crawler))) (\<lambda>_.
     rbind (fail_if (pv_name crawler \<in> set names) (Config (''duplicate crawler '' @ pv_name crawler))) (\<lambda>_.
     rbind (fail_if (pv_suffixes crawler = []) (Config (''crawler '' @ pv_name crawler @ '' requires at least one DNS suffix''))) (\<lambda>_.
     rbind (collect_results (normalize_suffix T (pv_name crawler)) (pv_suffixes crawler)) (\<lambda>suffixes.
     rbind (normalize_loop T (pv_name crawler # names) crawlers) (\<lambda>providers.
       Inr (\<lparr> pv_name = pv_name crawler, pv_suffixes = suffixes \<rparr> # providers))))))"

definition normalize_crawler_providers :: "v6_text \<Rightarrow> crawler_config list \<Rightarrow> crawler_config list result" where
  "normalize_crawler_providers T crawlers = normalize_loop T [] crawlers"

section \<open>Forward-confirmed reverse DNS\<close>

definition POSITIVE_TTL :: nat where "POSITIVE_TTL = 3600 * 10 ^ 9"
definition NEGATIVE_TTL :: nat where "NEGATIVE_TTL = 300 * 10 ^ 9"
definition MAX_CONCURRENT_LOOKUPS :: usize where "MAX_CONCURRENT_LOOKUPS = 64"

text \<open>The answers of the resolver at one time; a failure is an empty answer.\<close>

record reverse_dns =
  dns_reverse :: "ip_addr \<Rightarrow> string list"
  dns_forward :: "string \<Rightarrow> ip_addr list"

definition suffix_matches :: "string \<Rightarrow> string \<Rightarrow> bool" where
  "suffix_matches name s \<longleftrightarrow> strip_suffix s name \<noteq> None \<or> name = drop 1 s"

definition canonical_ptr :: "string \<Rightarrow> string" where
  "canonical_ptr name = to_lowercase (rev (dropWhile (\<lambda>c. c = CHR ''.'') (rev name)))"

fun ptr_loop :: "crawler_config list \<Rightarrow> reverse_dns \<Rightarrow> ip_addr \<Rightarrow> string list \<Rightarrow> bool" where
  "ptr_loop providers dns ip [] = False"
| "ptr_loop providers dns ip (ptr # ptrs) =
     (let name = canonical_ptr ptr;
          matches = list_ex (\<lambda>provider. list_ex (suffix_matches name) (pv_suffixes provider)) providers
      in if matches \<and> ip \<in> set (dns_forward dns name) then True else ptr_loop providers dns ip ptrs)"

definition fcrdns_check :: "crawler_config list \<Rightarrow> reverse_dns \<Rightarrow> ip_addr \<Rightarrow> bool" where
  "fcrdns_check providers dns ip = ptr_loop providers dns ip (dns_reverse dns ip)"

section \<open>The verifier\<close>

record verifier =
  vf_providers :: "crawler_config list"
  vf_cache :: "(ip_addr, bool) decay_map"
  vf_permits :: usize
  vf_pending :: "ip_addr list"

definition verifier_new :: "crawler_config list \<Rightarrow> verifier" where
  "verifier_new providers =
     \<lparr> vf_providers = providers, vf_cache = decay_new POSITIVE_TTL, vf_permits = MAX_CONCURRENT_LOOKUPS, vf_pending = [] \<rparr>"

text \<open>\<open>verify\<close> up to the spawning of its task: an answer at once, or a lookup under way.\<close>

datatype begun = Answered bool | Spawned

definition verify_begin :: "nat \<Rightarrow> ip_addr \<Rightarrow> verifier \<Rightarrow> begun \<times> verifier" where
  "verify_begin now ip s =
     (case decay_get ip now (vf_cache s) of
        Some cached \<Rightarrow> (Answered cached, s)
      | None \<Rightarrow>
          if ip \<in> set (vf_pending s) then (Answered False, s)
          else let s1 = s\<lparr> vf_pending := ip # vf_pending s \<rparr> in
            if vf_permits s1 = 0 then (Answered False, s1\<lparr> vf_pending := removeAll ip (vf_pending s1) \<rparr>)
            else (Spawned, s1\<lparr> vf_permits := vf_permits s1 - 1 \<rparr>))"

text \<open>The task, with whether the resolver answered in time. When the clock cannot be dated back by the
  difference of the two lifetimes it panics, which frees the permit but leaves the address pending.\<close>

definition verify_task :: "reverse_dns \<Rightarrow> bool \<Rightarrow> nat \<Rightarrow> ip_addr \<Rightarrow> verifier \<Rightarrow> bool option \<times> verifier" where
  "verify_task dns in_time now ip s =
     (let verified = in_time \<and> fcrdns_check (vf_providers s) dns ip;
          cached = (if verified then Some (decay_set ip True now (vf_cache s))
                    else decay_set_with_ttl ip False NEGATIVE_TTL now (vf_cache s))
      in case cached of
           None \<Rightarrow> (None, s\<lparr> vf_permits := vf_permits s + 1 \<rparr>)
         | Some cache \<Rightarrow>
             (Some verified, s\<lparr> vf_cache := cache, vf_pending := removeAll ip (vf_pending s), vf_permits := vf_permits s + 1 \<rparr>))"

text \<open>What the request is told: the task's verdict when it comes within the wait budget.\<close>

definition task_answer :: "bool \<Rightarrow> bool option \<Rightarrow> bool" where
  "task_answer in_budget outcome = (if in_budget then (case outcome of Some verified \<Rightarrow> verified | None \<Rightarrow> False) else False)"

section \<open>Requests and lookups interleaved\<close>

text \<open>The verifier with the time, the lookups under way, the confirmations with the answers of the
  resolver they rest on, and the answers given to requests.\<close>

record lookups =
  lk_now :: nat
  lk_verifier :: verifier
  lk_tasks :: "ip_addr list"
  lk_confirmed :: "(ip_addr \<times> nat \<times> reverse_dns) list"
  lk_answers :: "(ip_addr \<times> nat \<times> bool) list"

definition ask :: "ip_addr \<Rightarrow> lookups \<Rightarrow> lookups" where
  "ask ip l =
     (case verify_begin (lk_now l) ip (lk_verifier l) of
        (Answered b, s) \<Rightarrow> l\<lparr> lk_verifier := s, lk_answers := (ip, lk_now l, b) # lk_answers l \<rparr>
      | (Spawned, s) \<Rightarrow> l\<lparr> lk_verifier := s, lk_tasks := ip # lk_tasks l \<rparr>)"

definition settle :: "reverse_dns \<Rightarrow> bool \<Rightarrow> bool \<Rightarrow> ip_addr \<Rightarrow> lookups \<Rightarrow> lookups" where
  "settle dns in_time in_budget ip l =
     (let (outcome, s) = verify_task dns in_time (lk_now l) ip (lk_verifier l) in
      l\<lparr> lk_verifier := s, lk_tasks := removeAll ip (lk_tasks l),
         lk_confirmed := (if outcome = Some True then (ip, lk_now l, dns) # lk_confirmed l else lk_confirmed l),
         lk_answers := (ip, lk_now l, task_answer in_budget outcome) # lk_answers l \<rparr>)"

inductive lookup_reachable :: "crawler_config list \<Rightarrow> lookups \<Rightarrow> bool" for providers where
  opened: "lookup_reachable providers
    \<lparr> lk_now = start, lk_verifier = verifier_new providers, lk_tasks = [], lk_confirmed = [], lk_answers = [] \<rparr>"
| ticked: "lookup_reachable providers l \<Longrightarrow> lk_now l \<le> now \<Longrightarrow> lookup_reachable providers (l\<lparr> lk_now := now \<rparr>)"
| asked: "lookup_reachable providers l \<Longrightarrow> lookup_reachable providers (ask ip l)"
| settled: "lookup_reachable providers l \<Longrightarrow> ip \<in> set (lk_tasks l) \<Longrightarrow>
    lookup_reachable providers (settle dns in_time in_budget ip l)"

section \<open>Label boundaries\<close>

text \<open>The name is the host or a name below it.\<close>

definition below :: "string \<Rightarrow> string \<Rightarrow> bool" where
  "below host name \<longleftrightarrow> name = host \<or> (\<exists>front. name = front @ CHR ''.'' # host)"

lemma suffix_matches_below: "suffix_matches name (CHR ''.'' # host) \<longleftrightarrow> below host name"
  by (auto simp: suffix_matches_def below_def strip_suffix_iff not_None_eq)

lemma ptr_loop_iff:
  "ptr_loop providers dns ip ptrs \<longleftrightarrow>
     (\<exists>ptr \<in> set ptrs. ip \<in> set (dns_forward dns (canonical_ptr ptr)) \<and>
        (\<exists>provider \<in> set providers. \<exists>s \<in> set (pv_suffixes provider). suffix_matches (canonical_ptr ptr) s))"
  by (induction ptrs) (auto simp: Let_def list_ex_iff)

lemma normalize_suffix_dot: "normalize_suffix T name s = Inr s' \<Longrightarrow> \<exists>host. s' = CHR ''.'' # host"
  by (auto simp: normalize_suffix_def result_simps split: sum.splits)

lemma normalize_loop_dots:
  "normalize_loop T names crawlers = Inr providers \<Longrightarrow>
     \<forall>provider \<in> set providers. \<forall>s \<in> set (pv_suffixes provider). \<exists>host. s = CHR ''.'' # host"
proof (induction crawlers arbitrary: names providers)
  case (Cons crawler crawlers)
  then obtain suffixes rest where
      s: "collect_results (normalize_suffix T (pv_name crawler)) (pv_suffixes crawler) = Inr suffixes"
    and rest: "normalize_loop T (pv_name crawler # names) crawlers = Inr rest"
    and providers: "providers = \<lparr> pv_name = pv_name crawler, pv_suffixes = suffixes \<rparr> # rest"
    by (auto simp: result_simps)
  have "\<exists>host. x = CHR ''.'' # host" if "x \<in> set suffixes" for x
    using that s normalize_suffix_dot unfolding collect_results_Inr_iff by (meson list_all2_set2)
  then show ?case using Cons.IH [OF rest] providers by auto
qed simp

text \<open>What a confirmation rests on: a PTR name of the address at or below a configured host, which
  resolves back to the address.\<close>

definition confirmed_by :: "string list \<Rightarrow> reverse_dns \<Rightarrow> ip_addr \<Rightarrow> bool" where
  "confirmed_by hosts dns ip \<longleftrightarrow>
     (\<exists>ptr \<in> set (dns_reverse dns ip). ip \<in> set (dns_forward dns (canonical_ptr ptr)) \<and>
        (\<exists>host \<in> set hosts. below host (canonical_ptr ptr)))"

definition provider_hosts :: "crawler_config list \<Rightarrow> string list" where
  "provider_hosts providers = concat (map (map (drop 1) \<circ> pv_suffixes) providers)"

lemma fcrdns_confirmed:
  assumes "normalize_crawler_providers T crawlers = Inr providers"
  shows "fcrdns_check providers dns ip \<longleftrightarrow> confirmed_by (provider_hosts providers) dns ip"
proof -
  have dots: "\<exists>host. s = CHR ''.'' # host" if "provider \<in> set providers" "s \<in> set (pv_suffixes provider)" for provider s
    using normalize_loop_dots [OF assms [unfolded normalize_crawler_providers_def]] that by blast
  have "suffix_matches name s \<longleftrightarrow> below (drop 1 s) name" if "provider \<in> set providers" "s \<in> set (pv_suffixes provider)" for provider s name
    using dots [OF that] by (auto simp: suffix_matches_below)
  then have "(\<exists>provider \<in> set providers. \<exists>s \<in> set (pv_suffixes provider). suffix_matches name s) \<longleftrightarrow>
      (\<exists>host \<in> set (provider_hosts providers). below host name)" for name
    by (auto simp: provider_hosts_def)
  then show ?thesis by (simp add: fcrdns_check_def ptr_loop_iff confirmed_by_def)
qed

section \<open>Invariant\<close>

text \<open>Permits and lookups under way add up, every lookup under way is pending, and whatever the cache
  holds as verified was confirmed when it was entered.\<close>

definition backed :: "lookups \<Rightarrow> ip_addr \<Rightarrow> nat \<Rightarrow> bool" where
  "backed l ip t \<longleftrightarrow> (\<exists>dns. (ip, t, dns) \<in> set (lk_confirmed l))"

definition lookups_ok :: "crawler_config list \<Rightarrow> lookups \<Rightarrow> bool" where
  "lookups_ok providers l \<longleftrightarrow>
     vf_providers (lk_verifier l) = providers \<and>
     vf_permits (lk_verifier l) + length (lk_tasks l) = MAX_CONCURRENT_LOOKUPS \<and>
     distinct (lk_tasks l) \<and> set (lk_tasks l) \<subseteq> set (vf_pending (lk_verifier l)) \<and>
     dm_ttl (vf_cache (lk_verifier l)) = POSITIVE_TTL \<and>
     (\<forall>ip ins. (ip, True, ins) \<in> set (dm_entries (vf_cache (lk_verifier l))) \<longrightarrow> backed l ip ins) \<and>
     (\<forall>ip t dns. (ip, t, dns) \<in> set (lk_confirmed l) \<longrightarrow> t \<le> lk_now l \<and> fcrdns_check providers dns ip) \<and>
     (\<forall>ip t. (ip, t, True) \<in> set (lk_answers l) \<longrightarrow> (\<exists>t0. backed l ip t0 \<and> t0 \<le> t \<and> t \<le> t0 + POSITIVE_TTL))"

lemma put_entry_sub: "set (put_entry k v m) \<subseteq> insert (k, v) (set m)"
  by (auto simp: put_entry_def split: if_splits)

lemma decay_insert_entries: "set (dm_entries (decay_insert k v ins now m)) \<subseteq> insert (k, v, ins) (set (dm_entries m))"
  using put_entry_sub [of k "(v, ins)" "decay_retain now m"]
  by (auto simp: decay_insert_def Let_def decay_retain_def split: if_splits)

lemma decay_get_entry: "decay_get ip now m = Some v \<Longrightarrow> \<exists>ins. (ip, v, ins) \<in> set (dm_entries m) \<and> now - ins \<le> dm_ttl m"
  by (auto simp: decay_get_def dest!: map_of_SomeD split: option.splits if_splits)

lemma backed_more: "backed l ip t \<Longrightarrow> set (lk_confirmed l) \<subseteq> set (lk_confirmed l') \<Longrightarrow> backed l' ip t"
  by (auto simp: backed_def)

lemma lookups_ok_cached:
  "lookups_ok providers l \<Longrightarrow> (ip, True, ins) \<in> set (dm_entries (vf_cache (lk_verifier l))) \<Longrightarrow> backed l ip ins"
  by (simp add: lookups_ok_def)

lemma lookups_ok_answered:
  "lookups_ok providers l \<Longrightarrow> (ip, t, True) \<in> set (lk_answers l) \<Longrightarrow> \<exists>t0. backed l ip t0 \<and> t0 \<le> t \<and> t \<le> t0 + POSITIVE_TTL"
  by (simp add: lookups_ok_def)

lemma lookups_ok_answer:
  assumes "lookups_ok providers l" "b \<Longrightarrow> \<exists>t0. backed l ip t0 \<and> t0 \<le> lk_now l \<and> lk_now l \<le> t0 + POSITIVE_TTL"
  shows "lookups_ok providers (l\<lparr> lk_answers := (ip, lk_now l, b) # lk_answers l \<rparr>)"
  using assms by (auto simp: lookups_ok_def backed_def)

lemma cached_backed:
  assumes "lookups_ok providers l" "decay_get ip (lk_now l) (vf_cache (lk_verifier l)) = Some True"
  shows "\<exists>t0. backed l ip t0 \<and> t0 \<le> lk_now l \<and> lk_now l \<le> t0 + POSITIVE_TTL"
proof -
  obtain ins where ins: "(ip, True, ins) \<in> set (dm_entries (vf_cache (lk_verifier l)))" "lk_now l - ins \<le> POSITIVE_TTL"
    using decay_get_entry [OF assms(2)] assms(1) by (auto simp: lookups_ok_def)
  then have "backed l ip ins" using assms(1) by (simp add: lookups_ok_def)
  moreover from this have "ins \<le> lk_now l" using assms(1) by (auto simp: lookups_ok_def backed_def)
  ultimately show ?thesis using ins(2) by (intro exI [of _ ins]) simp
qed

lemma ask_ok:
  assumes "lookups_ok providers l"
  shows "lookups_ok providers (ask ip l)"
proof (cases "decay_get ip (lk_now l) (vf_cache (lk_verifier l))")
  case (Some b)
  then have "ask ip l = l\<lparr> lk_answers := (ip, lk_now l, b) # lk_answers l \<rparr>" by (simp add: ask_def verify_begin_def)
  then show ?thesis using lookups_ok_answer [OF assms] cached_backed [OF assms] Some by auto
next
  case None
  let ?s = "lk_verifier l"
  show ?thesis
  proof (cases "ip \<in> set (vf_pending ?s) \<or> vf_permits ?s = 0")
    case True
    have "removeAll ip (vf_pending ?s) = vf_pending ?s" if "ip \<notin> set (vf_pending ?s)" using that by simp
    then have "ask ip l = l\<lparr> lk_answers := (ip, lk_now l, False) # lk_answers l \<rparr>"
      using None True by (auto simp: ask_def verify_begin_def Let_def)
    then show ?thesis using lookups_ok_answer [OF assms, of False ip] by simp
  next
    case False
    then show ?thesis using None assms by (auto simp: ask_def verify_begin_def lookups_ok_def backed_def Let_def)
  qed
qed

lemma tasks_count: "distinct xs \<Longrightarrow> x \<in> set xs \<Longrightarrow> Suc (length (removeAll x xs)) = length xs"
  by (metis One_nat_def Suc_pred distinct_remove1_removeAll length_pos_if_in_set length_remove1)

lemma settle_confirmed:
  assumes "lookups_ok providers l" "ip \<in> set (lk_tasks l)" "in_time" "fcrdns_check providers dns ip"
  shows "lookups_ok providers (settle dns in_time in_budget ip l)"
proof -
  let ?s = "lk_verifier l"
  define l1 where "l1 = l\<lparr> lk_verifier := ?s\<lparr> vf_cache := decay_set ip True (lk_now l) (vf_cache ?s),
       vf_pending := removeAll ip (vf_pending ?s), vf_permits := vf_permits ?s + 1 \<rparr>,
     lk_tasks := removeAll ip (lk_tasks l), lk_confirmed := (ip, lk_now l, dns) # lk_confirmed l \<rparr>"
  have "vf_providers ?s = providers" using assms(1) by (simp add: lookups_ok_def)
  then have settle: "settle dns in_time in_budget ip l = l1\<lparr> lk_answers := (ip, lk_now l1, in_budget) # lk_answers l1 \<rparr>"
    using assms(3,4) by (simp add: settle_def verify_task_def l1_def task_answer_def)
  have entries: "set (dm_entries (decay_set ip True (lk_now l) (vf_cache ?s))) \<subseteq>
      insert (ip, True, lk_now l) (set (dm_entries (vf_cache ?s)))"
    unfolding decay_set_def by (rule decay_insert_entries)
  have count: "vf_permits ?s + 1 + length (removeAll ip (lk_tasks l)) = MAX_CONCURRENT_LOOKUPS"
    using assms(1) tasks_count [OF _ assms(2)] by (simp add: lookups_ok_def)
  have more: "backed l x t \<Longrightarrow> backed l1 x t" for x t by (auto simp: backed_def l1_def)
  have new: "backed l1 ip (lk_now l)" by (auto simp: backed_def l1_def)
  have cache: "backed l1 x ins" if "(x, True, ins) \<in> set (dm_entries (vf_cache (lk_verifier l1)))" for x ins
  proof -
    have "(x, True, ins) \<in> insert (ip, True, lk_now l) (set (dm_entries (vf_cache ?s)))"
      using that entries by (auto simp: l1_def)
    then show ?thesis using new more lookups_ok_cached [OF assms(1)] by auto
  qed
  have answers: "\<exists>t0. backed l1 x t0 \<and> t0 \<le> t \<and> t \<le> t0 + POSITIVE_TTL" if "(x, t, True) \<in> set (lk_answers l1)" for x t
    using lookups_ok_answered [OF assms(1), of x t] that more by (auto simp: l1_def)
  have log: "\<forall>x t dns. (x, t, dns) \<in> set (lk_confirmed l1) \<longrightarrow> t \<le> lk_now l1 \<and> fcrdns_check providers dns x"
    using assms(1,4) by (auto simp: lookups_ok_def l1_def)
  have rest: "vf_providers (lk_verifier l1) = providers" "dm_ttl (vf_cache (lk_verifier l1)) = POSITIVE_TTL" "distinct (lk_tasks l1)"
    "vf_permits (lk_verifier l1) + length (lk_tasks l1) = MAX_CONCURRENT_LOOKUPS" "set (lk_tasks l1) \<subseteq> set (vf_pending (lk_verifier l1))"
    using assms(1) count by (auto simp: lookups_ok_def l1_def decay_set_def distinct_removeAll)
  have "lookups_ok providers l1" unfolding lookups_ok_def using cache answers log rest by blast
  then show ?thesis unfolding settle
    by (rule lookups_ok_answer) (auto simp: backed_def l1_def)
qed

lemma settle_refused:
  assumes "lookups_ok providers l" "ip \<in> set (lk_tasks l)" "\<not> (in_time \<and> fcrdns_check providers dns ip)"
  shows "lookups_ok providers (settle dns in_time in_budget ip l)"
proof -
  let ?s = "lk_verifier l" and ?cached = "decay_set_with_ttl ip False NEGATIVE_TTL (lk_now l) (vf_cache (lk_verifier l))"
  define s1 where "s1 = (case ?cached of None \<Rightarrow> ?s\<lparr> vf_permits := vf_permits ?s + 1 \<rparr>
    | Some cache \<Rightarrow> ?s\<lparr> vf_cache := cache, vf_pending := removeAll ip (vf_pending ?s), vf_permits := vf_permits ?s + 1 \<rparr>)"
  define l1 where "l1 = l\<lparr> lk_verifier := s1, lk_tasks := removeAll ip (lk_tasks l) \<rparr>"
  have "vf_providers ?s = providers" using assms(1) by (simp add: lookups_ok_def)
  then have settle: "settle dns in_time in_budget ip l = l1\<lparr> lk_answers := (ip, lk_now l1, False) # lk_answers l1 \<rparr>"
    using assms(3) by (auto simp: settle_def verify_task_def l1_def s1_def task_answer_def split: option.splits)
  have entries: "(x, True, ins) \<in> set (dm_entries (vf_cache s1)) \<Longrightarrow> (x, True, ins) \<in> set (dm_entries (vf_cache ?s))" for x ins
    using decay_insert_entries [of ip False _ "lk_now l" "vf_cache ?s"]
    by (auto simp: s1_def decay_set_with_ttl_def split: option.splits if_splits)
  have rest: "vf_providers s1 = vf_providers ?s" "vf_permits s1 = vf_permits ?s + 1" "dm_ttl (vf_cache s1) = dm_ttl (vf_cache ?s)"
    "set (vf_pending ?s) - {ip} \<subseteq> set (vf_pending s1)"
    by (auto simp: s1_def decay_set_with_ttl_def split: option.splits if_splits)
  have count: "vf_permits ?s + 1 + length (removeAll ip (lk_tasks l)) = MAX_CONCURRENT_LOOKUPS"
    using assms(1) tasks_count [OF _ assms(2)] by (simp add: lookups_ok_def)
  have "lookups_ok providers l1"
    using assms(1) rest entries count
    by (auto simp: lookups_ok_def l1_def backed_def distinct_removeAll)
  then show ?thesis unfolding settle by (rule lookups_ok_answer) simp
qed

lemma lookup_reachable_ok: "lookup_reachable providers l \<Longrightarrow> lookups_ok providers l"
proof (induction rule: lookup_reachable.induct)
  case (opened start)
  show ?case by (simp add: lookups_ok_def verifier_new_def decay_new_def)
next
  case (ticked l now)
  then show ?case by (fastforce simp: lookups_ok_def backed_def)
next
  case (asked l ip)
  then show ?case by (simp add: ask_ok)
next
  case (settled l ip dns in_time in_budget)
  then show ?case using settle_confirmed settle_refused by blast
qed

text \<open>C16. A request is told that an address is a verified crawler only on the strength of DNS: within
  the hour before, a PTR name of the address lay at or below a configured host, at a label boundary,
  and resolved back to that address. However requests and lookups interleave, at most 64 lookups run and
  no address is looked up twice at a time.\<close>

theorem crawlers_confirmed:
  assumes "normalize_crawler_providers T crawlers = Inr providers" "lookup_reachable providers l"
  shows "((ip, t, True) \<in> set (lk_answers l) \<longrightarrow>
       (\<exists>t0 dns. confirmed_by (provider_hosts providers) dns ip \<and> (ip, t0, dns) \<in> set (lk_confirmed l) \<and> t0 \<le> t \<and> t \<le> t0 + POSITIVE_TTL)) \<and>
     length (lk_tasks l) \<le> MAX_CONCURRENT_LOOKUPS \<and> distinct (lk_tasks l)"
proof -
  have ok: "lookups_ok providers l" by (rule lookup_reachable_ok [OF assms(2)])
  then have "length (lk_tasks l) \<le> MAX_CONCURRENT_LOOKUPS" "distinct (lk_tasks l)" by (auto simp: lookups_ok_def)
  moreover have "\<exists>t0 dns. confirmed_by (provider_hosts providers) dns ip \<and> (ip, t0, dns) \<in> set (lk_confirmed l) \<and> t0 \<le> t \<and> t \<le> t0 + POSITIVE_TTL"
    if "(ip, t, True) \<in> set (lk_answers l)"
    using ok that unfolding lookups_ok_def backed_def fcrdns_confirmed [OF assms(1)] by metis
  ultimately show ?thesis by blast
qed

definition ex_dns :: reverse_dns where
  "ex_dns = \<lparr> dns_reverse = (\<lambda>_. [''Crawl.b.org.'']), dns_forward = (\<lambda>_. [V4 7]) \<rparr>"

definition ex_providers :: "crawler_config list" where
  "ex_providers = [\<lparr> pv_name = ''b'', pv_suffixes = [''.b.org''] \<rparr>]"

definition ex_lookups :: lookups where
  "ex_lookups = settle ex_dns True True (V4 7) (ask (V4 7)
     \<lparr> lk_now = 5, lk_verifier = verifier_new ex_providers, lk_tasks = [], lk_confirmed = [], lk_answers = [] \<rparr>)"

lemma ex_providers_normalized:
  "normalize_crawler_providers \<lparr> v6_parse = (\<lambda>_. None), v6_show = (\<lambda>_. []) \<rparr> [\<lparr> pv_name = ''b'', pv_suffixes = [''..b.ORG''] \<rparr>] = Inr ex_providers"
  by code_simp

lemma ex_lookups_reachable: "lookup_reachable ex_providers ex_lookups"
  unfolding ex_lookups_def
  by (intro lookup_reachable.settled lookup_reachable.asked lookup_reachable.opened)
    (simp add: ask_def verify_begin_def verifier_new_def decay_new_def decay_get_def MAX_CONCURRENT_LOOKUPS_def)

lemma ex_lookups_answer: "lk_answers ex_lookups = [(V4 7, 5, True)]"
proof -
  have "fcrdns_check ex_providers ex_dns (V4 7)" by code_simp
  then show ?thesis
    by (simp add: ex_lookups_def settle_def ask_def verify_begin_def verify_task_def verifier_new_def decay_new_def decay_get_def
        MAX_CONCURRENT_LOOKUPS_def task_answer_def)
qed

theorem crawlers_confirmed_witness:
  "\<exists>t0 dns. confirmed_by (provider_hosts ex_providers) dns (V4 7) \<and> (V4 7, t0, dns) \<in> set (lk_confirmed ex_lookups) \<and>
     t0 \<le> 5 \<and> 5 \<le> t0 + POSITIVE_TTL"
  using crawlers_confirmed [OF ex_providers_normalized ex_lookups_reachable, of "V4 7" 5] ex_lookups_answer by simp

end
