(* ===== verification/Policy_Files.thy ===== *)
theory Policy_Files
  imports Rule_Engine Network_Lists Crawler_Check "HOL-Library.Multiset"
begin

text \<open>
  How a web policy is put together from its files: places in the text, durations, the conversion of
  decoded sections into the configuration, the merging of sections, and the directory of snippets
  (bagel-config/src/web/policy/mod.rs, policy/decision.rs, and \<open>locate\<close> of bagel-config/src/lib.rs).
  Parsing KDL and the decoding that is derived from the types are arguments.
\<close>

section \<open>Places\<close>

text \<open>Every character that starts before the offset counts; the bytes inside a character do not.\<close>

fun locate_loop :: "nat \<Rightarrow> string \<Rightarrow> nat \<times> nat \<Rightarrow> nat \<times> nat" where
  "locate_loop offset [] at = at"
| "locate_loop 0 cs at = at"
| "locate_loop (Suc offset) (c # cs) (line, column) =
     locate_loop offset cs
       (if continuation (code_of c) then (line, column)
        else if c = CHR 0x0A then (line + 1, 1) else (line, column + 1))"

definition locate :: "string \<Rightarrow> nat \<Rightarrow> nat \<times> nat" where
  "locate text_of offset = locate_loop offset text_of (1, 1)"

fun relocate :: "string \<Rightarrow> string \<Rightarrow> error \<Rightarrow> error" where
  "relocate text_of path (ConfigAt offset message) =
     (let (line, column) = locate text_of offset
      in Config (path @ '':'' @ show_nat line @ '':'' @ show_nat column @ '': '' @ message))"
| "relocate text_of path err = err"

definition relocated :: "string \<Rightarrow> string \<Rightarrow> 'a result \<Rightarrow> 'a result" where
  "relocated text_of path r = (case r of Inl e \<Rightarrow> Inl (relocate text_of path e) | Inr x \<Rightarrow> Inr x)"

section \<open>Durations\<close>

definition checked_mul64 :: "nat \<Rightarrow> nat \<Rightarrow> nat option" where
  "checked_mul64 a b = (if a * b \<le> u64_max then Some (a * b) else None)"

definition parse_duration :: "string \<Rightarrow> nat option" where
  "parse_duration s =
     (let digits = takeWhile is_digit s; unit_text = dropWhile is_digit s in
      if unit_text = [] then None
      else case parse_unsigned u64_max digits of
        None \<Rightarrow> None
      | Some n \<Rightarrow>
          if unit_text = ''s'' then Some n
          else if unit_text = ''m'' then checked_mul64 n 60
          else if unit_text = ''h'' then checked_mul64 n 3600
          else if unit_text = ''d'' then checked_mul64 n 86400
          else None)"

section \<open>Decoded sections\<close>

datatype network_source_input =
    UrlInput string "string option" "string option" "string option"
  | FileInput string "string option" "string option" "string option"
  | AsnInput u32
  | PrefixesInput "string list"

record network_input =
  ni_name :: string
  ni_sources :: "network_source_input list"

record decision_props =
  dp_http_code :: "u16 option"
  dp_pass_action :: "string option"
  dp_fail_action :: "string option"
  dp_match_re :: "string option"
  dp_rewrite :: "string option"
  dp_backend :: "string option"
  dp_maze :: "string option"
  dp_kind :: "string option"
  dp_difficulty :: "u32 option"

datatype rule_input =
  RuleInput (ri_name: string) (ri_condition: "string option") (ri_action: string) (ri_props: decision_props) (ri_children: "rule_child list")
and rule_child =
    ChildCondition string
  | ChildAction string
  | ChildChallenges "string list"
  | ChildHttpCode u16
  | ChildPassAction string
  | ChildFailAction string
  | ChildBackend string
  | ChildMatch string
  | ChildRewrite string
  | ChildKind string
  | ChildDifficulty u32
  | ChildRequestHeaders "(string \<times> string) list"
  | ChildResponseHeaders "(string \<times> string) list"
  | ChildRule rule_input

datatype threshold_child =
    ThChallenges "string list"
  | ThHttpCode u16
  | ThPassAction string
  | ThFailAction string
  | ThDifficulty u32

record threshold_input =
  ti_value :: u32
  ti_action :: string
  ti_props :: decision_props
  ti_children :: "threshold_child list"

datatype scorecard_child = SignalChild signal_config | ThresholdChild threshold_input

record scorecard_input =
  si_name :: string
  si_condition :: "string option"
  si_mode :: "string option"
  si_entries :: "scorecard_child list"

record challenge_input =
  ci_name :: string
  ci_runtime :: string
  ci_duration :: u64
  ci_parameters :: "(string \<times> string) list"

record renderer_config =
  rd_name :: string
  rd_kind :: string
  rd_endpoint :: string
  rd_timeout :: nat
  rd_max_body :: usize
  rd_max_concurrency :: usize
  rd_rate :: u32
  rd_burst :: u32
  rd_decoy_rate :: u32
  rd_decoy_burst :: u32
  rd_cooldown :: nat

record policy_config =
  plc_networks :: "network_config list"
  plc_prelude :: "string list"
  plc_challenges :: "challenge_config list"
  plc_rules :: "rule_config list"
  plc_scoring :: "scoring_config option"
  plc_mazes :: "maze_config list"
  plc_renderers :: "renderer_config list"
  plc_crawlers :: "crawler_config list"

definition default_policy :: policy_config where
  "default_policy = \<lparr> plc_networks = [], plc_prelude = [], plc_challenges = [], plc_rules = [], plc_scoring = None,
     plc_mazes = [], plc_renderers = [], plc_crawlers = [] \<rparr>"

text \<open>The parser and the derived decoders: a node's name, place and children, and what it decodes to as
  each kind of section. Maze, renderer and crawler inputs have the fields of their configuration.\<close>

record 'n kdl_lib =
  kl_name :: "'n \<Rightarrow> string"
  kl_offset :: "'n \<Rightarrow> nat"
  kl_children :: "'n \<Rightarrow> 'n list"
  kl_networks :: "'n \<Rightarrow> network_input list result"
  kl_prelude :: "'n \<Rightarrow> string result"
  kl_challenges :: "'n \<Rightarrow> challenge_input list result"
  kl_rules :: "'n \<Rightarrow> rule_input list result"
  kl_scoring :: "'n \<Rightarrow> (usize option \<times> scorecard_input list) result"
  kl_mazes :: "'n \<Rightarrow> maze_config list result"
  kl_renderers :: "'n \<Rightarrow> renderer_config list result"
  kl_crawlers :: "'n \<Rightarrow> crawler_config list result"

section \<open>Conversion\<close>

definition decision_settings :: "decision_props \<Rightarrow> rule_settings" where
  "decision_settings p =
     \<lparr> st_http_code = dp_http_code p, st_pass_action = dp_pass_action p, st_fail_action = dp_fail_action p,
       st_response_headers = [], st_request_headers = [], st_match_re = dp_match_re p, st_rewrite = dp_rewrite p,
       st_backend = dp_backend p, st_maze = dp_maze p, st_kind = dp_kind p, st_difficulty = dp_difficulty p \<rparr>"

text \<open>The children of a rule are applied in order over its properties.\<close>

fun rule_of_input :: "rule_input \<Rightarrow> rule_config"
  and apply_rule_child :: "rule_child \<Rightarrow> rule_config \<Rightarrow> rule_config"
  and apply_rule_children :: "rule_child list \<Rightarrow> rule_config \<Rightarrow> rule_config" where
  "rule_of_input (RuleInput name condition rule_action props children) =
     apply_rule_children children (RuleConfig name condition rule_action [] (decision_settings props) [])"
| "apply_rule_child (ChildCondition c) (RuleConfig n co a ch s k) = RuleConfig n (Some c) a ch s k"
| "apply_rule_child (ChildAction x) (RuleConfig n co a ch s k) = RuleConfig n co x ch s k"
| "apply_rule_child (ChildChallenges cs) (RuleConfig n co a ch s k) = RuleConfig n co a (ch @ cs) s k"
| "apply_rule_child (ChildHttpCode x) (RuleConfig n co a ch s k) = RuleConfig n co a ch (s\<lparr> st_http_code := Some x \<rparr>) k"
| "apply_rule_child (ChildPassAction x) (RuleConfig n co a ch s k) = RuleConfig n co a ch (s\<lparr> st_pass_action := Some x \<rparr>) k"
| "apply_rule_child (ChildFailAction x) (RuleConfig n co a ch s k) = RuleConfig n co a ch (s\<lparr> st_fail_action := Some x \<rparr>) k"
| "apply_rule_child (ChildBackend x) (RuleConfig n co a ch s k) = RuleConfig n co a ch (s\<lparr> st_backend := Some x \<rparr>) k"
| "apply_rule_child (ChildMatch x) (RuleConfig n co a ch s k) = RuleConfig n co a ch (s\<lparr> st_match_re := Some x \<rparr>) k"
| "apply_rule_child (ChildRewrite x) (RuleConfig n co a ch s k) = RuleConfig n co a ch (s\<lparr> st_rewrite := Some x \<rparr>) k"
| "apply_rule_child (ChildKind x) (RuleConfig n co a ch s k) = RuleConfig n co a ch (s\<lparr> st_kind := Some x \<rparr>) k"
| "apply_rule_child (ChildDifficulty x) (RuleConfig n co a ch s k) = RuleConfig n co a ch (s\<lparr> st_difficulty := Some x \<rparr>) k"
| "apply_rule_child (ChildRequestHeaders hs) (RuleConfig n co a ch s k) = RuleConfig n co a ch (s\<lparr> st_request_headers := hs \<rparr>) k"
| "apply_rule_child (ChildResponseHeaders hs) (RuleConfig n co a ch s k) = RuleConfig n co a ch (s\<lparr> st_response_headers := hs \<rparr>) k"
| "apply_rule_child (ChildRule r) (RuleConfig n co a ch s k) = RuleConfig n co a ch s (k @ [rule_of_input r])"
| "apply_rule_children [] rule = rule"
| "apply_rule_children (c # cs) rule = apply_rule_children cs (apply_rule_child c rule)"

fun apply_threshold_child :: "threshold_child \<Rightarrow> threshold_config \<Rightarrow> threshold_config" where
  "apply_threshold_child (ThChallenges cs) t = t\<lparr> thc_challenges := thc_challenges t @ cs \<rparr>"
| "apply_threshold_child (ThHttpCode x) t = t\<lparr> thc_settings := (thc_settings t)\<lparr> st_http_code := Some x \<rparr> \<rparr>"
| "apply_threshold_child (ThPassAction x) t = t\<lparr> thc_settings := (thc_settings t)\<lparr> st_pass_action := Some x \<rparr> \<rparr>"
| "apply_threshold_child (ThFailAction x) t = t\<lparr> thc_settings := (thc_settings t)\<lparr> st_fail_action := Some x \<rparr> \<rparr>"
| "apply_threshold_child (ThDifficulty x) t = t\<lparr> thc_settings := (thc_settings t)\<lparr> st_difficulty := Some x \<rparr> \<rparr>"

definition threshold_of_input :: "threshold_input \<Rightarrow> threshold_config" where
  "threshold_of_input i =
     fold apply_threshold_child (ti_children i)
       \<lparr> thc_value = ti_value i, thc_action = ti_action i, thc_challenges = [], thc_settings = decision_settings (ti_props i) \<rparr>"

definition challenge_of_input :: "challenge_input \<Rightarrow> challenge_config" where
  "challenge_of_input i =
     \<lparr> cc_name = ci_name i, cc_runtime = ci_runtime i, cc_duration_secs = ci_duration i, cc_parameters = ci_parameters i \<rparr>"

text \<open>\<open>unique\<close>: the first repeated name is reported.\<close>

fun unique_loop :: "nat \<Rightarrow> string \<Rightarrow> ('a \<Rightarrow> string) \<Rightarrow> string list \<Rightarrow> 'a list \<Rightarrow> unit result" where
  "unique_loop offset what name seen [] = Inr ()"
| "unique_loop offset what name seen (x # xs) =
     (if name x \<in> set seen then Inl (ConfigAt offset (''duplicate '' @ what @ '' '' @ name x))
      else unique_loop offset what name (name x # seen) xs)"

definition unique :: "nat \<Rightarrow> string \<Rightarrow> ('a \<Rightarrow> string) \<Rightarrow> 'a list \<Rightarrow> 'a list result" where
  "unique offset what name xs = rbind (unique_loop offset what name [] xs) (\<lambda>_. Inr xs)"

definition convert_network_filter :: "nat \<Rightarrow> string \<Rightarrow> string option \<Rightarrow> string option \<Rightarrow> string option \<Rightarrow> network_filter result" where
  "convert_network_filter offset name flt jq regex =
     (case (flt, jq, regex) of
        (None, None, None) \<Rightarrow> Inr NoFilter
      | (Some f, Some path, None) \<Rightarrow>
          if f = ''jq'' then Inr (JqFilter path)
          else Inl (ConfigAt offset (''policy: networks: network '' @ name @ '': filter must be jq with a jq property or regex with a regex property''))
      | (Some f, None, Some pattern) \<Rightarrow>
          if f = ''regex'' then Inr (RegexFilter pattern)
          else Inl (ConfigAt offset (''policy: networks: network '' @ name @ '': filter must be jq with a jq property or regex with a regex property''))
      | _ \<Rightarrow> Inl (ConfigAt offset (''policy: networks: network '' @ name @ '': filter must be jq with a jq property or regex with a regex property'')))"

fun network_source_of :: "nat \<Rightarrow> string \<Rightarrow> network_source_input \<Rightarrow> network_source result" where
  "network_source_of offset name (UrlInput url flt jq regex) =
     rbind (convert_network_filter offset name flt jq regex) (\<lambda>f. Inr (UrlSource url f))"
| "network_source_of offset name (FileInput path flt jq regex) =
     rbind (convert_network_filter offset name flt jq regex) (\<lambda>f. Inr (FileSource path f))"
| "network_source_of offset name (AsnInput n) = Inr (AsnSource n)"
| "network_source_of offset name (PrefixesInput ps) =
     (if ps = [] then Inl (ConfigAt offset (''policy: networks: network '' @ name @ '': prefixes: expected at least one prefix''))
      else Inr (InlineSource ps))"

definition network_of_input :: "nat \<Rightarrow> network_input \<Rightarrow> network_config result" where
  "network_of_input offset i =
     rbind (collect_results (network_source_of offset (ni_name i)) (ni_sources i)) (\<lambda>srcs.
       Inr \<lparr> nc_name = ni_name i, nc_sources = srcs \<rparr>)"

definition scorecard_of_input :: "nat \<Rightarrow> scorecard_input \<Rightarrow> scorecard_config result" where
  "scorecard_of_input offset i =
     (let signals = List.map_filter (\<lambda>e. case e of SignalChild s \<Rightarrow> Some s | ThresholdChild _ \<Rightarrow> None) (si_entries i);
          thresholds = List.map_filter (\<lambda>e. case e of ThresholdChild t \<Rightarrow> Some (threshold_of_input t) | SignalChild _ \<Rightarrow> None) (si_entries i)
      in rbind (unique offset ''signal'' sgc_name signals) (\<lambda>signals.
           Inr \<lparr> scc_name = si_name i, scc_condition = si_condition i, scc_mode = si_mode i, scc_signals = signals, scc_thresholds = thresholds \<rparr>))"

section \<open>Merging\<close>

definition merge_scoring :: "scoring_config option \<Rightarrow> scoring_config option \<Rightarrow> scoring_config option" where
  "merge_scoring mine other =
     (case other of
        None \<Rightarrow> mine
      | Some o' \<Rightarrow>
          (case mine of
             None \<Rightarrow> Some o'
           | Some m \<Rightarrow>
               Some \<lparr> scf_rate_capacity = (if scf_rate_capacity o' \<noteq> None then scf_rate_capacity o' else scf_rate_capacity m),
                      scf_scorecards = scf_scorecards m @ scf_scorecards o' \<rparr>))"

definition merge_policy :: "policy_config \<Rightarrow> policy_config \<Rightarrow> policy_config" where
  "merge_policy p q =
     \<lparr> plc_networks = plc_networks p @ plc_networks q, plc_prelude = plc_prelude p @ plc_prelude q,
       plc_challenges = plc_challenges p @ plc_challenges q, plc_rules = plc_rules p @ plc_rules q,
       plc_scoring = merge_scoring (plc_scoring p) (plc_scoring q), plc_mazes = plc_mazes p @ plc_mazes q,
       plc_renderers = plc_renderers p @ plc_renderers q, plc_crawlers = plc_crawlers p @ plc_crawlers q \<rparr>"

definition from_section :: "'n kdl_lib \<Rightarrow> 'n \<Rightarrow> policy_config result" where
  "from_section K node =
     (let offset = kl_offset K node; name = kl_name K node in
      if name = ''networks'' then
        rbind (kl_networks K node) (\<lambda>input. rbind (unique offset ''network'' ni_name input) (\<lambda>input.
        rbind (collect_results (network_of_input offset) input) (\<lambda>xs. Inr (default_policy\<lparr> plc_networks := xs \<rparr>))))
      else if name = ''prelude'' then
        rbind (kl_prelude K node) (\<lambda>script. Inr (default_policy\<lparr> plc_prelude := [script] \<rparr>))
      else if name = ''challenges'' then
        rbind (kl_challenges K node) (\<lambda>input. rbind (unique offset ''challenge'' ci_name input) (\<lambda>input.
          Inr (default_policy\<lparr> plc_challenges := map challenge_of_input input \<rparr>)))
      else if name = ''rules'' then
        rbind (kl_rules K node) (\<lambda>input. rbind (unique offset ''rule'' ri_name input) (\<lambda>input.
          Inr (default_policy\<lparr> plc_rules := map rule_of_input input \<rparr>)))
      else if name = ''scoring'' then
        rbind (kl_scoring K node) (\<lambda>(capacity, input). rbind (unique offset ''scorecard'' si_name input) (\<lambda>input.
        rbind (collect_results (scorecard_of_input offset) input) (\<lambda>cards.
          Inr (default_policy\<lparr> plc_scoring := Some \<lparr> scf_rate_capacity = capacity, scf_scorecards = cards \<rparr> \<rparr>))))
      else if name = ''mazes'' then
        rbind (kl_mazes K node) (\<lambda>input. rbind (unique offset ''maze'' mz_name input) (\<lambda>input.
          Inr (default_policy\<lparr> plc_mazes := input \<rparr>)))
      else if name = ''renderers'' then
        rbind (kl_renderers K node) (\<lambda>input. rbind (unique offset ''renderer'' rd_name input) (\<lambda>input.
          Inr (default_policy\<lparr> plc_renderers := input \<rparr>)))
      else if name = ''crawlers'' then
        rbind (kl_crawlers K node) (\<lambda>input. rbind (unique offset ''crawler'' pv_name input) (\<lambda>input.
          Inr (default_policy\<lparr> plc_crawlers := input \<rparr>)))
      else Inl (ConfigAt offset (''unknown policy section '' @ name)))"

fun from_kdl_loop :: "'n kdl_lib \<Rightarrow> string list \<Rightarrow> policy_config \<Rightarrow> 'n list \<Rightarrow> policy_config result" where
  "from_kdl_loop K seen policy [] = Inr policy"
| "from_kdl_loop K seen policy (child # children) =
     (if kl_name K child \<in> set seen then Inl (ConfigAt (kl_offset K child) (''duplicate policy section '' @ kl_name K child))
      else rbind (from_section K child) (\<lambda>section. from_kdl_loop K (kl_name K child # seen) (merge_policy policy section) children))"

definition from_kdl :: "'n kdl_lib \<Rightarrow> 'n \<Rightarrow> policy_config result" where
  "from_kdl K node = from_kdl_loop K [] default_policy (kl_children K node)"

section \<open>A directory of snippets\<close>

text \<open>\<open>Path::extension\<close> of a file name: what follows the last dot, unless the name starts with it.\<close>

definition extension :: "string \<Rightarrow> string option" where
  "extension name =
     (if CHR ''.'' \<in> set (drop 1 name) then Some (last (split_on CHR ''.'' name)) else None)"

text \<open>A directory as it is read: file names with their text or the reason it cannot be read, in any
  order. \<open>parse\<close> is the KDL parser, whose error is tagged with the file.\<close>

type_synonym dir_entry = "string \<times> string result"

definition snippet :: "'n kdl_lib \<Rightarrow> string \<Rightarrow> string \<Rightarrow> 'n \<Rightarrow> policy_config result" where
  "snippet K text_of path node =
     relocated text_of path (if kl_name K node = ''policy'' then from_kdl K node else from_section K node)"

definition load_file :: "'n kdl_lib \<Rightarrow> (string \<Rightarrow> string + 'n list) \<Rightarrow> dir_entry \<Rightarrow> policy_config list result" where
  "load_file K parse entry =
     (case snd entry of
        Inl e \<Rightarrow> Inl (Config (''failed to read policy file '' @ fst entry))
      | Inr text_of \<Rightarrow>
          (case parse text_of of
             Inl e \<Rightarrow> Inl (ConfigParse (fst entry) e)
           | Inr nodes \<Rightarrow> collect_results (snippet K text_of (fst entry)) nodes))"

fun load_files :: "'n kdl_lib \<Rightarrow> (string \<Rightarrow> string + 'n list) \<Rightarrow> policy_config \<Rightarrow> dir_entry list \<Rightarrow> policy_config result" where
  "load_files K parse merged [] = Inr merged"
| "load_files K parse merged (entry # rest) =
     rbind (load_file K parse entry) (\<lambda>snippets. load_files K parse (foldl merge_policy merged snippets) rest)"

definition load_dir :: "'n kdl_lib \<Rightarrow> (string \<Rightarrow> string + 'n list) \<Rightarrow> dir_entry list result \<Rightarrow> policy_config result" where
  "load_dir K parse dir =
     (case dir of
        Inl e \<Rightarrow> Inl (Config ''failed to read policy dir'')
      | Inr entries \<Rightarrow>
          load_files K parse default_policy (sort_key fst (filter (\<lambda>entry. extension (fst entry) = Some ''kdl'') entries)))"

section \<open>Places in the text\<close>

lemma locate_loop_append:
  "locate_loop (length xs + n) (xs @ ys) at = locate_loop n ys (locate_loop (length xs) xs at)"
  by (induction xs arbitrary: at) auto

text \<open>A place in plain text is its line and the characters since the last newline.\<close>

lemma locate_column:
  assumes "\<forall>c \<in> set xs. \<not> continuation (code_of c) \<and> c \<noteq> CHR 0x0A"
  shows "locate_loop (length xs) xs (line, column) = (line, column + length xs)"
  using assms by (induction xs arbitrary: column) auto

lemma locate_line:
  assumes "\<forall>c \<in> set xs. \<not> continuation (code_of c) \<and> c \<noteq> CHR 0x0A"
  shows "locate_loop (Suc (length xs)) (xs @ [CHR 0x0A]) (line, column) = (line + 1, 1)"
  using locate_loop_append [of xs 1 "[CHR 0x0A]" "(line, column)"] locate_column [OF assms, of line column]
  by (simp add: continuation_def code_of_def)

section \<open>Durations read back\<close>

lemma takeWhile_digits: "takeWhile is_digit (show_nat n @ c # cs) = show_nat n" "dropWhile is_digit (show_nat n @ c # cs) = c # cs"
  if "\<not> is_digit c"
  using that show_nat_digits [of n] by (simp_all add: takeWhile_append2 dropWhile_append2 list_all_iff)

lemma parse_duration_secs: "n \<le> u64_max \<Longrightarrow> parse_duration (show_nat n @ ''s'') = Some n"
  using takeWhile_digits [of "CHR ''s''" n "[]"] by (simp add: parse_duration_def Let_def parse_show_nat is_digit_def)

lemma parse_duration_bounded: "parse_duration s = Some n \<Longrightarrow> n \<le> u64_max"
  by (auto simp: parse_duration_def checked_mul64_def Let_def parse_unsigned_def split: option.splits if_splits)

section \<open>Merging\<close>

lemma merge_scoring_assoc: "merge_scoring (merge_scoring a b) c = merge_scoring a (merge_scoring b c)"
  by (auto simp: merge_scoring_def split: option.splits)

lemma merge_policy_assoc: "merge_policy (merge_policy p q) r = merge_policy p (merge_policy q r)"
  by (simp add: merge_policy_def merge_scoring_assoc)

lemma merge_policy_default [simp]: "merge_policy default_policy p = p" "merge_policy p default_policy = p"
  by (simp_all add: merge_policy_def default_policy_def merge_scoring_def split: option.splits)

lemma load_files_snippets:
  "load_files K parse merged entries =
     rbind (collect_results (load_file K parse) entries) (\<lambda>sss. Inr (foldl merge_policy merged (concat sss)))"
proof (induction entries arbitrary: merged)
  case (Cons entry entries)
  then show ?case by (cases "load_file K parse entry"; cases "collect_results (load_file K parse) entries") auto
qed simp

lemma foldl_merge: "foldl merge_policy p ps = merge_policy p (foldl merge_policy default_policy ps)"
proof (induction ps arbitrary: p)
  case (Cons q ps)
  show ?case using Cons [of "merge_policy p q"] Cons [of q] by (simp add: merge_policy_assoc)
qed simp

lemma foldl_merge_rules: "plc_rules (foldl merge_policy p ps) = plc_rules p @ concat (map plc_rules ps)"
  by (induction ps arbitrary: p) (simp_all add: merge_policy_def)

text \<open>C18. A policy directory means the same however the file system lists it: the result depends only on
  the files, and it is the merge of their sections in the order of the file names, so that the rules of
  the snippets come one after the other.\<close>

theorem policy_dir_in_order:
  assumes "mset entries = mset entries'" "distinct (map fst entries)"
  shows "load_dir K parse (Inr entries) = load_dir K parse (Inr entries') \<and>
    (\<forall>p. load_dir K parse (Inr entries) = Inr p \<longrightarrow>
       (\<exists>snippets. list_all2 (\<lambda>entry ss. load_file K parse entry = Inr ss)
            (sort_key fst (filter (\<lambda>entry. extension (fst entry) = Some ''kdl'') entries)) snippets \<and>
          p = foldl merge_policy default_policy (concat snippets) \<and>
          plc_rules p = concat (map plc_rules (concat snippets))))"
proof
  let ?keep = "\<lambda>entry :: dir_entry. extension (fst entry) = Some ''kdl''"
  have "mset (filter ?keep entries) = mset (filter ?keep entries')" using assms(1) by (metis mset_filter)
  moreover have "inj_on fst (set (filter ?keep entries))"
    using assms(2) by (auto simp: distinct_map intro: inj_on_subset)
  moreover have "sorted (map fst (sort_key fst (filter ?keep entries')))" by simp
  ultimately have "sort_key fst (filter ?keep entries) = sort_key fst (filter ?keep entries')"
    by (metis mset_sort sort_key_inj_key_eq)
  then show "load_dir K parse (Inr entries) = load_dir K parse (Inr entries')" by (simp add: load_dir_def)
  show "\<forall>p. load_dir K parse (Inr entries) = Inr p \<longrightarrow>
       (\<exists>snippets. list_all2 (\<lambda>entry ss. load_file K parse entry = Inr ss)
            (sort_key fst (filter ?keep entries)) snippets \<and>
          p = foldl merge_policy default_policy (concat snippets) \<and>
          plc_rules p = concat (map plc_rules (concat snippets)))"
    by (auto simp: load_dir_def load_files_snippets result_simps collect_results_Inr_iff foldl_merge_rules default_policy_def)
qed

section \<open>Names repeated across files\<close>

lemma unique_loop_distinct:
  "unique_loop offset what name seen xs = Inr () \<longleftrightarrow> distinct (map name xs) \<and> set (map name xs) \<inter> set seen = {}"
  by (induction xs arbitrary: seen) auto

lemma unique_iff: "unique offset what name xs = Inr ys \<longleftrightarrow> ys = xs \<and> distinct (map name xs)"
  by (auto simp: unique_def result_simps unique_loop_distinct)

lemma rbind_assoc: "rbind (rbind r f) g = rbind r (\<lambda>x. rbind (f x) g)"
  by (cases r) auto

lemma build_rules_append:
  "build_rules L code parent (rs @ rs') =
     rbind (build_rules L code parent rs) (\<lambda>ss. rbind (build_rules L code parent rs') (\<lambda>ss'. Inr (ss @ ss')))"
proof (induction rs)
  case Nil
  show ?case by (cases "build_rules L code parent rs'") auto
next
  case (Cons r rs)
  obtain n co a ch s k where r: "r = RuleConfig n co a ch s k" by (cases r)
  show ?case unfolding r append_Cons build_rules.simps Let_def Cons
    by (simp add: rbind_assoc)
qed

lemma apply_rule_child_name: "rcf_name (apply_rule_child c rule) = rcf_name rule"
  by (cases rule; cases c) auto

lemma apply_rule_children_name: "rcf_name (apply_rule_children cs rule) = rcf_name rule"
  by (induction cs arbitrary: rule) (simp_all add: apply_rule_child_name)

lemma rule_of_input_name: "rcf_name (rule_of_input r) = ri_name r"
  by (cases r) (simp add: apply_rule_children_name)

lemma from_section_rules:
  assumes "kl_name K node = ''rules''" "kl_rules K node = Inr rs" "distinct (map ri_name rs)"
  shows "from_section K node = Inr (default_policy\<lparr> plc_rules := map rule_of_input rs \<rparr>)"
proof -
  have "unique (kl_offset K node) ''rule'' ri_name rs = Inr rs" using assms(3) by (simp add: unique_iff)
  then show ?thesis using assms(1,2) by (simp add: from_section_def Let_def)
qed

lemma load_file_rules:
  assumes "parse text_of = Inr [node]" "kl_name K node = ''rules''" "kl_rules K node = Inr rs" "distinct (map ri_name rs)"
  shows "load_file K parse (name, Inr text_of) = Inr [default_policy\<lparr> plc_rules := map rule_of_input rs \<rparr>]"
  using assms(1,2) from_section_rules [OF assms(2-4)] by (simp add: load_file_def snippet_def relocated_def)

text \<open>C19. A rule name repeated in another file of the policy directory is not an error. Two snippets
  that each define a rule of the same name load, both rules are kept in file order, and they compile to
  two rules of that name whenever the files compile on their own; the documentation says that duplicate
  rule identifiers are errors.\<close>

theorem duplicate_rules_accepted:
  assumes "a < b" "extension a = Some ''kdl''" "extension b = Some ''kdl''"
    and "parse ta = Inr [na]" "kl_name K na = ''rules''" "kl_rules K na = Inr rs" "distinct (map ri_name rs)"
    and "parse tb = Inr [nb]" "kl_name K nb = ''rules''" "kl_rules K nb = Inr rs'" "distinct (map ri_name rs')"
    and "r \<in> set rs" "r' \<in> set rs'" "ri_name r = ri_name r'"
  shows "\<exists>p. load_dir K parse (Inr [(a, Inr ta), (b, Inr tb)]) = Inr p \<and>
     plc_rules p = map rule_of_input (rs @ rs') \<and> \<not> distinct (map rcf_name (plc_rules p)) \<and>
     (\<forall>ss ss'. build_rules L code [] (map rule_of_input rs) = Inr ss \<and> build_rules L code [] (map rule_of_input rs') = Inr ss' \<longrightarrow>
        build_rules L code [] (plc_rules p) = Inr (ss @ ss'))"
proof -
  let ?p = "merge_policy (default_policy\<lparr> plc_rules := map rule_of_input rs \<rparr>) (default_policy\<lparr> plc_rules := map rule_of_input rs' \<rparr>)"
  have order: "sort_key fst [(a, Inr ta :: string result), (b, Inr tb)] = [(a, Inr ta), (b, Inr tb)]"
    using less_imp_le [OF assms(1)] by simp
  have load: "load_dir K parse (Inr [(a, Inr ta), (b, Inr tb)]) = Inr ?p"
    using assms(2,3) load_file_rules [of parse ta na K rs a, OF assms(4-7)] load_file_rules [of parse tb nb K rs' b, OF assms(8-11)] order
    by (simp add: load_dir_def load_files_snippets)
  have rules: "plc_rules ?p = map rule_of_input (rs @ rs')" by (simp add: merge_policy_def)
  have names: "map rcf_name (plc_rules ?p) = map ri_name rs @ map ri_name rs'" by (simp add: rules rule_of_input_name o_def)
  have "ri_name r \<in> set (map ri_name rs) \<inter> set (map ri_name rs')" using assms(12-14) by (simp add: image_iff) metis
  then have "\<not> distinct (map rcf_name (plc_rules ?p))" unfolding names by auto
  then show ?thesis using load rules by (intro exI [of _ ?p]) (simp add: build_rules_append)
qed

section \<open>Examples\<close>

definition ex_props :: decision_props where
  "ex_props = \<lparr> dp_http_code = None, dp_pass_action = None, dp_fail_action = None, dp_match_re = None, dp_rewrite = None,
     dp_backend = None, dp_maze = None, dp_kind = None, dp_difficulty = None \<rparr>"

definition ex_rule_input :: rule_input where
  "ex_rule_input = RuleInput ''r'' None ''none'' ex_props [ChildAction ''block'']"

definition ex_kdl :: "unit kdl_lib" where
  "ex_kdl = \<lparr> kl_name = (\<lambda>_. ''rules''), kl_offset = (\<lambda>_. 0), kl_children = (\<lambda>_. []), kl_networks = (\<lambda>_. Inr []),
     kl_prelude = (\<lambda>_. Inr []), kl_challenges = (\<lambda>_. Inr []), kl_rules = (\<lambda>_. Inr [ex_rule_input]),
     kl_scoring = (\<lambda>_. Inr (None, [])), kl_mazes = (\<lambda>_. Inr []), kl_renderers = (\<lambda>_. Inr []), kl_crawlers = (\<lambda>_. Inr []) \<rparr>"

lemma ex_extensions: "extension ''a.kdl'' = Some ''kdl''" "extension ''b.kdl'' = Some ''kdl''" "''a.kdl'' < ''b.kdl''"
  by (code_simp, code_simp) (simp add: less_char_def)

lemma ex_rule_file: "load_file ex_kdl (\<lambda>_. Inr [()]) (name, Inr t) = Inr [default_policy\<lparr> plc_rules := [rule_of_input ex_rule_input] \<rparr>]"
  using load_file_rules [of "\<lambda>_. Inr [()]" t "()" ex_kdl "[ex_rule_input]" name] by (simp add: ex_kdl_def)

theorem policy_dir_in_order_witness:
  "load_dir ex_kdl (\<lambda>_. Inr [()]) (Inr [(''b.kdl'', Inr ''x''), (''a.kdl'', Inr ''y'')]) =
     load_dir ex_kdl (\<lambda>_. Inr [()]) (Inr [(''a.kdl'', Inr ''y''), (''b.kdl'', Inr ''x'')])"
  using policy_dir_in_order [of "[(''b.kdl'', Inr ''x''), (''a.kdl'', Inr ''y'')]" "[(''a.kdl'', Inr ''y''), (''b.kdl'', Inr ''x'')]"
      ex_kdl "\<lambda>_. Inr [()]"] by simp

theorem duplicate_rules_accepted_witness:
  "\<exists>p. load_dir ex_kdl (\<lambda>_. Inr [()]) (Inr [(''a.kdl'', Inr ''x''), (''b.kdl'', Inr ''y'')]) = Inr p \<and>
     plc_rules p = map rule_of_input [ex_rule_input, ex_rule_input] \<and> \<not> distinct (map rcf_name (plc_rules p))"
  using duplicate_rules_accepted [OF ex_extensions(3,1,2), of "\<lambda>_. Inr [()]" "''x''" "()" ex_kdl "[ex_rule_input]" "''y''" "()"
      "[ex_rule_input]" ex_rule_input ex_rule_input]
  by (fastforce simp: ex_kdl_def)

end
