(* ===== verification/Config_Files.thy ===== *)
theory Config_Files
  imports Policy_Files Backend_Pool Edge_Fingerprint Defense_Examples
begin

text \<open>
  From a configuration file and a command line to the configuration of both planes: the values a theme
  may have, the checks on single settings, the top-level nodes in the order they are written, the layers
  of defaults, file and command line, and the settings the planes share (bagel-config/src/web/mod.rs,
  web/bind.rs, kdl.rs and lib.rs). Parsing, the derived decoders, the file system and the defaults that
  depend on the machine are arguments.
\<close>

section \<open>Themes\<close>

definition is_hex_color :: "string \<Rightarrow> bool" where
  "is_hex_color value =
     (let digits = (case strip_prefix ''#'' value of Some d \<Rightarrow> d | None \<Rightarrow> [])
      in length digits \<in> {3, 4, 6, 8} \<and> list_all is_hexdigit digits)"

definition css_number :: "string \<Rightarrow> string" where
  "css_number value =
     (case strip_suffix ''px'' value of Some n \<Rightarrow> n
      | None \<Rightarrow> (case strip_suffix ''rem'' value of Some n \<Rightarrow> n
      | None \<Rightarrow> (case strip_suffix ''em'' value of Some n \<Rightarrow> n
      | None \<Rightarrow> (case strip_suffix ''%'' value of Some n \<Rightarrow> n | None \<Rightarrow> []))))"

definition is_css_length :: "string \<Rightarrow> bool" where
  "is_css_length value =
     (if value = ''0'' then True
      else let number = css_number value in
        if number = [] then False
        else case split_on CHR ''.'' number of
               [whole] \<Rightarrow> whole \<noteq> [] \<and> list_all is_digit whole
             | [whole, fraction] \<Rightarrow> whole \<noteq> [] \<and> list_all is_digit whole \<and> fraction \<noteq> [] \<and> list_all is_digit fraction
             | _ \<Rightarrow> False)"

definition font_char :: "char \<Rightarrow> bool" where
  "font_char c \<longleftrightarrow> is_alphanumeric c \<or> c \<in> {CHR '' '', CHR '','', CHR 0x27, CHR 0x22, CHR ''-'', CHR ''_''}"

definition COLOR_NAMES :: "string list" where
  "COLOR_NAMES = [''fg'', ''bg'', ''accent'', ''card-bg'', ''border'', ''error'', ''title-color'', ''link-color'']"

definition theme_validate :: "string \<Rightarrow> string \<Rightarrow> unit result" where
  "theme_validate name value =
     (let check = (\<lambda>ok. if ok then Inr () else Inl (Config (''challenge-template: invalid value '' @ value @ '' for property '' @ name))) in
      if name \<in> set COLOR_NAMES then check (is_hex_color value)
      else if name = ''radius'' then check (is_css_length value)
      else if name = ''font'' then check (value \<noteq> [] \<and> list_all font_char value)
      else if name = ''color-scheme'' then check (value \<in> {''light'', ''dark'', ''light dark''})
      else Inl (Config (''challenge-template: unknown property '' @ name)))"

definition decode_vars :: "(string \<times> string) list \<Rightarrow> theme_var list result" where
  "decode_vars entries =
     collect_results (\<lambda>(key, value). rbind (theme_validate key value) (\<lambda>_. Inr \<lparr> thv_name = key, thv_value = value \<rparr>)) entries"

definition decode_theme ::
  "(string \<times> string) list option \<Rightarrow> (string \<times> string) list option \<Rightarrow> (string \<times> string) list \<Rightarrow> custom_theme result" where
  "decode_theme light dark vars =
     rbind (case light of None \<Rightarrow> Inr [] | Some es \<Rightarrow> decode_vars es) (\<lambda>ls.
     rbind (case dark of None \<Rightarrow> Inr [] | Some es \<Rightarrow> decode_vars es) (\<lambda>ds.
     rbind (decode_vars vars) (\<lambda>vs. Inr \<lparr> cth_vars = vs, cth_light = ls, cth_dark = ds \<rparr>)))"

definition find_var :: "string \<Rightarrow> theme_var list \<Rightarrow> string option" where
  "find_var name vars = map_option thv_value (List.find (\<lambda>v. thv_name v = name) (rev vars))"

definition theme_get :: "string \<Rightarrow> custom_theme \<Rightarrow> string option" where
  "theme_get name t = find_var name (cth_vars t)"

definition theme_get_for_scheme :: "string \<Rightarrow> string \<Rightarrow> custom_theme \<Rightarrow> string option" where
  "theme_get_for_scheme name scheme t =
     (let chosen = (case theme_get ''color-scheme'' t of None \<Rightarrow> scheme | Some s \<Rightarrow> s);
          selected = (if chosen = ''light'' then cth_light t else if chosen = ''dark'' then cth_dark t
                      else if scheme = ''light'' then cth_light t else cth_dark t)
      in case find_var name selected of Some v \<Rightarrow> Some v | None \<Rightarrow> theme_get name t)"

section \<open>Single settings\<close>

record deception_config =
  dcc_corpora :: "string option"
  dcc_scripts :: "string option"
  dcc_server :: string
  dcc_not_found_pct :: nat
  dcc_forbidden_pct :: nat

definition default_deception :: deception_config where
  "default_deception = \<lparr> dcc_corpora = None, dcc_scripts = None, dcc_server = ''nginx/1.24.0'', dcc_not_found_pct = 20, dcc_forbidden_pct = 8 \<rparr>"

definition deception_validate :: "deception_config \<Rightarrow> unit result" where
  "deception_validate d =
     fail_if (100 < dcc_not_found_pct d + dcc_forbidden_pct d) (Config ''deception: not-found-pct plus forbidden-pct exceeds 100'')"

record smear_config =
  smc_min_delay_ms :: u64
  smc_max_delay_ms :: u64
  smc_max_secs :: u64
  smc_chunk_min :: usize
  smc_chunk_max :: usize
  smc_max_concurrent :: usize

definition default_smear :: smear_config where
  "default_smear = \<lparr> smc_min_delay_ms = 1000, smc_max_delay_ms = 15000, smc_max_secs = 600, smc_chunk_min = 64, smc_chunk_max = 1400,
     smc_max_concurrent = 4096 \<rparr>"

definition smear_validate :: "smear_config \<Rightarrow> unit result" where
  "smear_validate s =
     rbind (validate_dribble ''smear'' (smc_min_delay_ms s) (smc_max_delay_ms s) (smc_chunk_min s) (smc_chunk_max s)) (\<lambda>_.
     rbind (fail_if (smc_max_concurrent s = 0) (Config ''smear: max-concurrent must not be zero'')) (\<lambda>_.
       fail_if (\<not> (1 \<le> smc_max_secs s \<and> smc_max_secs s \<le> 24 * 60 * 60)) (Config ''smear: max-secs must be between 1 second and 24 hours'')))"

definition header_name_char :: "char \<Rightarrow> bool" where
  "header_name_char c \<longleftrightarrow> is_alphanumeric c \<or> c \<in> set ''!#$%&*+-.^_`|~'' \<or> c = CHR 0x27"

definition client_tls_of_input :: "string \<Rightarrow> string option \<Rightarrow> client_tls_header result" where
  "client_tls_of_input name token =
     rbind (fail_if (name = [] \<or> eq_ignore_case name ''x-bagel-origin-token'' \<or> \<not> list_all header_name_char name)
              (Config ''invalid client TLS header name'')) (\<lambda>_.
     rbind (transpose_option (map_option (\<lambda>encoded.
              if length encoded \<noteq> 64 \<or> \<not> list_all is_hexdigit encoded
              then Inl (Config ''cloudflare-token-sha256 requires a 32-byte hexadecimal SHA-256 digest'')
              else ok_or (Config ''hexadecimal token digest was validated'') (hex_decode encoded)) token)) (\<lambda>key.
       Inr \<lparr> th_name = name, th_cloudflare_token_sha256 = key \<rparr>))"

datatype tls_config =
    NoTls
  | Acme string "string list" "string list"
  | Manual string string

datatype bind_network = BindTcp | BindUnix

record bind_config =
  bnd_network :: bind_network
  bnd_address :: string
  bnd_socket_mode :: "u32 option"
  bnd_tls :: tls_config
  bnd_proxy_protocol :: bool
  bnd_passthrough :: bool

definition default_bind :: bind_config where
  "default_bind = \<lparr> bnd_network = BindTcp, bnd_address = '':8080'', bnd_socket_mode = None, bnd_tls = NoTls,
     bnd_proxy_protocol = False, bnd_passthrough = False \<rparr>"

text \<open>\<open>u32::from_str_radix\<close> in base eight, with its optional sign.\<close>

definition is_octal :: "char \<Rightarrow> bool" where
  "is_octal c \<longleftrightarrow> is_digit c \<and> digit_value c < 8"

definition octal_value :: "string \<Rightarrow> nat" where
  "octal_value s = foldl (\<lambda>n c. 8 * n + digit_value c) 0 s"

definition parse_octal :: "string \<Rightarrow> nat option" where
  "parse_octal s =
     (let digits = (case s of c # rest \<Rightarrow> if c = CHR ''+'' \<and> rest \<noteq> [] then rest else s | [] \<Rightarrow> [])
      in if digits \<noteq> [] \<and> list_all is_octal digits \<and> octal_value digits \<le> u32_max then Some (octal_value digits) else None)"

definition socket_mode_of :: "string \<Rightarrow> u32 result" where
  "socket_mode_of value =
     rbind (ok_or (Config ''socket-mode must be an octal string'') (parse_octal value)) (\<lambda>mode.
     rbind (fail_if (4095 < mode) (Config ''socket-mode must be between 0000 and 7777'')) (\<lambda>_. Inr mode))"

definition check_bind :: "bind_config \<Rightarrow> bind_config result" where
  "check_bind b =
     rbind (fail_if (bnd_socket_mode b \<noteq> None \<and> bnd_network b \<noteq> BindUnix) (Config ''socket-mode requires a Unix listener'')) (\<lambda>_. Inr b)"

definition socket_addr :: "bind_config \<Rightarrow> string" where
  "socket_addr b =
     (case bnd_network b of
        BindUnix \<Rightarrow> bnd_address b
      | BindTcp \<Rightarrow> if starts_with '':'' (bnd_address b) then ''0.0.0.0'' @ bnd_address b else bnd_address b)"

section \<open>The web plane's configuration\<close>

record link_config =
  lnk_name :: string
  lnk_url :: string

record site_config =
  site_bind :: bind_config
  site_challenge_http_code :: u16
  site_cache_dir :: "string option"
  site_client_ip_header :: "string option"
  site_client_tls_header :: "client_tls_header option"
  site_trusted_proxies :: "string list option"
  site_backends :: "backend_config list"
  site_policy :: policy_config
  site_strings :: "(string \<times> string) list"
  site_links :: "link_config list"
  site_challenge_template_logo :: "string option"
  site_challenge_template_theme :: "string option"
  site_challenge_template :: custom_theme
  site_deception :: deception_config
  site_smear :: smear_config

definition default_site :: site_config where
  "default_site = \<lparr> site_bind = default_bind, site_challenge_http_code = 418, site_cache_dir = None, site_client_ip_header = None,
     site_client_tls_header = None, site_trusted_proxies = None, site_backends = [], site_policy = default_policy,
     site_strings = [], site_links = [], site_challenge_template_logo = None, site_challenge_template_theme = None,
     site_challenge_template = \<lparr> cth_vars = [], cth_light = [], cth_dark = [] \<rparr>, site_deception = default_deception,
     site_smear = default_smear \<rparr>"

text \<open>What a node decodes to, by what is asked of it, and the directories it may name.\<close>

record 'n site_lib =
  sl_kdl :: "'n kdl_lib"
  sl_bind :: "'n \<Rightarrow> bind_config result"
  sl_number :: "'n \<Rightarrow> u16 result"
  sl_string :: "'n \<Rightarrow> string result"
  sl_strings :: "'n \<Rightarrow> string list result"
  sl_client_tls :: "'n \<Rightarrow> (string \<times> string option) result"
  sl_backends :: "'n \<Rightarrow> backend_config list result"
  sl_entries :: "'n \<Rightarrow> (string \<times> string) list result"
  sl_links :: "'n \<Rightarrow> link_config list result"
  sl_theme :: "'n \<Rightarrow> custom_theme result"
  sl_deception :: "'n \<Rightarrow> deception_config result"
  sl_smear :: "'n \<Rightarrow> smear_config result"
  sl_dir :: "string \<Rightarrow> dir_entry list result"
  sl_parse :: "string \<Rightarrow> string + 'n list"

definition policy_dir :: "'n site_lib \<Rightarrow> 'n \<Rightarrow> policy_config result" where
  "policy_dir S node = rbind (sl_string S node) (\<lambda>directory. load_dir (sl_kdl S) (sl_parse S) (sl_dir S directory))"

text \<open>\<open>apply_node\<close>: \<open>None\<close> is a node that is not of the web plane.\<close>

definition apply_node :: "'n site_lib \<Rightarrow> 'n \<Rightarrow> site_config \<Rightarrow> site_config option result" where
  "apply_node S node c =
     (let K = sl_kdl S; offset = kl_offset K node; name = kl_name K node in
      if name = ''bind'' then rbind (sl_bind S node) (\<lambda>b. Inr (Some (c\<lparr> site_bind := b \<rparr>)))
      else if name = ''challenge-http-code'' then
        rbind (sl_number S node) (\<lambda>code.
        rbind (fail_if (\<not> (100 \<le> code \<and> code \<le> 999)) (ConfigAt offset (''challenge-http-code: '' @ show_nat code @ '' is out of range''))) (\<lambda>_.
          Inr (Some (c\<lparr> site_challenge_http_code := code \<rparr>))))
      else if name = ''client-ip-header'' then rbind (sl_string S node) (\<lambda>h. Inr (Some (c\<lparr> site_client_ip_header := Some h \<rparr>)))
      else if name = ''client-tls-header'' then
        rbind (sl_client_tls S node) (\<lambda>(h, token). rbind (client_tls_of_input h token) (\<lambda>t. Inr (Some (c\<lparr> site_client_tls_header := Some t \<rparr>))))
      else if name = ''trusted-proxies'' then
        rbind (sl_strings S node) (\<lambda>ps.
        rbind (fail_if (ps = []) (ConfigAt offset ''trusted-proxies: list at least one network or omit the node'')) (\<lambda>_.
          Inr (Some (c\<lparr> site_trusted_proxies := Some ps \<rparr>))))
      else if name = ''cache'' then rbind (sl_string S node) (\<lambda>d. Inr (Some (c\<lparr> site_cache_dir := Some d \<rparr>)))
      else if name = ''backends'' then rbind (sl_backends S node) (\<lambda>bs. Inr (Some (c\<lparr> site_backends := bs \<rparr>)))
      else if name = ''policy'' then rbind (from_kdl K node) (\<lambda>p. Inr (Some (c\<lparr> site_policy := p \<rparr>)))
      else if name = ''policy-dir'' then
        rbind (policy_dir S node) (\<lambda>p. Inr (Some (c\<lparr> site_policy := merge_policy (site_policy c) p \<rparr>)))
      else if name = ''strings'' then rbind (sl_entries S node) (\<lambda>es. Inr (Some (c\<lparr> site_strings := site_strings c @ es \<rparr>)))
      else if name = ''links'' then
        rbind (sl_links S node) (\<lambda>ls.
        rbind (fail_if (list_ex (\<lambda>l. lnk_name l = [] \<or> lnk_url l = []) ls) (ConfigAt offset ''links: link: name and URL must not be empty'')) (\<lambda>_.
          Inr (Some (c\<lparr> site_links := site_links c @ ls \<rparr>))))
      else if name = ''challenge-template-theme'' then
        rbind (sl_string S node) (\<lambda>t.
        rbind (fail_if (t \<notin> {''gruvbox'', ''minimal''}) (ConfigAt offset (''challenge-template-theme: unknown theme '' @ t))) (\<lambda>_.
          Inr (Some (c\<lparr> site_challenge_template_theme := Some t \<rparr>))))
      else if name = ''challenge-template'' then rbind (sl_theme S node) (\<lambda>t. Inr (Some (c\<lparr> site_challenge_template := t \<rparr>)))
      else if name = ''challenge-template-logo'' then rbind (sl_string S node) (\<lambda>l. Inr (Some (c\<lparr> site_challenge_template_logo := Some l \<rparr>)))
      else if name = ''deception'' then rbind (sl_deception S node) (\<lambda>d. Inr (Some (c\<lparr> site_deception := d \<rparr>)))
      else if name = ''smear'' then rbind (sl_smear S node) (\<lambda>s. Inr (Some (c\<lparr> site_smear := s \<rparr>)))
      else Inr None)"

definition reject_repeated :: "'n kdl_lib \<Rightarrow> 'n \<Rightarrow> string list \<Rightarrow> string list result" where
  "reject_repeated K node seen =
     (let name = kl_name K node in
      if name = ''policy-dir'' then Inr seen
      else if name \<in> set seen then Inl (ConfigAt (kl_offset K node) (name @ '' may appear only once''))
      else Inr (name # seen))"

section \<open>Both planes\<close>

text \<open>The configuration of the defense plane with what only the daemon reads.\<close>

record daemon_config =
  dmn_config :: config
  dmn_metrics_addr :: string
  dmn_disable_metrics :: bool
  dmn_admin_socket :: string
  dmn_disable_admin :: bool
  dmn_drain_timeout_secs :: u64
  dmn_enable_firewall :: bool
  dmn_corpora_dir :: string
  dmn_scripts_dir :: string
  dmn_data_dir :: string
  dmn_cache_dir :: string

text \<open>A decoded \<open>defense\<close> node: its settings over the defaults, and its named sources and policies in the
  order they are written.\<close>

record defense_input =
  din_settings :: daemon_config
  din_sources :: "(string \<times> source) list"
  din_policies :: "(string \<times> policy) list"
  din_verified_crawlers :: "verified_crawler list option"

fun insert_named :: "nat \<Rightarrow> string \<Rightarrow> (string \<times> 'a) list \<Rightarrow> (string, 'a) btree \<Rightarrow> (string, 'a) btree result" where
  "insert_named offset what [] m = Inr m"
| "insert_named offset what ((name, v) # rest) m =
     (if map_of m name \<noteq> None then Inl (ConfigAt offset (''duplicate '' @ what @ '' '' @ name))
      else insert_named offset what rest (bt_insert name v m))"

definition parse_defense :: "daemon_config \<Rightarrow> 'n kdl_lib \<Rightarrow> ('n \<Rightarrow> defense_input result) \<Rightarrow> 'n \<Rightarrow> daemon_config result" where
  "parse_defense defaults K decode node =
     rbind (fail_if (kl_name K node \<noteq> ''defense'') (ConfigAt (kl_offset K node) (''expected defense node, found '' @ kl_name K node))) (\<lambda>_.
     rbind (decode node) (\<lambda>input.
     rbind (insert_named (kl_offset K node) ''source'' (din_sources input) []) (\<lambda>sources.
     rbind (insert_named (kl_offset K node) ''policy'' (din_policies input) []) (\<lambda>pols.
       let s = din_settings input; c = dmn_config s in
       Inr (s\<lparr> dmn_config := c\<lparr> cfg_sources := sources, cfg_policies := pols,
                  cfg_verified_crawlers := (case din_verified_crawlers input of None \<Rightarrow> cfg_verified_crawlers (dmn_config defaults) | Some l \<Rightarrow> l),
                  cfg_trusted_proxies := cfg_trusted_proxies (dmn_config defaults) \<rparr>,
               dmn_corpora_dir := dmn_corpora_dir defaults, dmn_scripts_dir := dmn_scripts_dir defaults \<rparr>)))))"

record bagel_config =
  bg_web :: site_config
  bg_defense :: daemon_config

fun parse_nodes ::
  "daemon_config \<Rightarrow> ('n \<Rightarrow> defense_input result) \<Rightarrow> 'n site_lib \<Rightarrow> string \<Rightarrow> string \<Rightarrow> string list \<Rightarrow> bagel_config \<Rightarrow> 'n list \<Rightarrow> bagel_config result" where
  "parse_nodes defaults decode S text_of path seen b [] = Inr b"
| "parse_nodes defaults decode S text_of path seen b (node # nodes) =
     rbind (relocated text_of path (reject_repeated (sl_kdl S) node seen)) (\<lambda>seen.
       if kl_name (sl_kdl S) node = ''defense'' then
         rbind (relocated text_of path (parse_defense defaults (sl_kdl S) decode node)) (\<lambda>d.
           parse_nodes defaults decode S text_of path seen (b\<lparr> bg_defense := d \<rparr>) nodes)
       else
         rbind (relocated text_of path (apply_node S node (bg_web b))) (\<lambda>applied.
           case applied of
             None \<Rightarrow> Inl (relocate text_of path (ConfigAt (kl_offset (sl_kdl S) node) (''unknown top-level config key '' @ kl_name (sl_kdl S) node)))
           | Some web \<Rightarrow> parse_nodes defaults decode S text_of path seen (b\<lparr> bg_web := web \<rparr>) nodes))"

definition parse_bagel ::
  "daemon_config \<Rightarrow> ('n \<Rightarrow> defense_input result) \<Rightarrow> 'n site_lib \<Rightarrow> string \<Rightarrow> string \<Rightarrow> bagel_config result" where
  "parse_bagel defaults decode S text_of path =
     (case sl_parse S text_of of
        Inl e \<Rightarrow> Inl (ConfigParse path e)
      | Inr nodes \<Rightarrow> parse_nodes defaults decode S text_of path [] \<lparr> bg_web = default_site, bg_defense = defaults \<rparr> nodes)"

record args =
  arg_metrics_addr :: "string option"
  arg_disable_metrics :: bool
  arg_admin_socket :: "string option"
  arg_disable_admin :: bool
  arg_min_delay_ms :: "u64 option"
  arg_max_delay_ms :: "u64 option"
  arg_max_tarpit_secs :: "u64 option"
  arg_max_tarpit_conns :: "usize option"
  arg_max_connections :: "usize option"
  arg_proxy_protocol :: bool
  arg_trusted_proxy :: "string list"
  arg_disable_firewall :: bool
  arg_base_dir :: "string option"

text \<open>\<open>Path::join\<close> with a relative name.\<close>

definition path_join :: "string \<Rightarrow> string \<Rightarrow> string" where
  "path_join dir name = (if dir = [] then name else if last dir = CHR ''/'' then dir @ name else dir @ ''/'' @ name)"

definition apply_base :: "string \<Rightarrow> daemon_config \<Rightarrow> daemon_config" where
  "apply_base base d =
     (let data = path_join base ''data'' in
      d\<lparr> dmn_data_dir := data, dmn_cache_dir := path_join base ''cache'', dmn_corpora_dir := path_join data ''corpora'',
         dmn_scripts_dir := path_join data ''scripts'',
         dmn_config := (dmn_config d)\<lparr> cfg_database_path := path_join data ''bagel.sqlite3'' \<rparr> \<rparr>)"

definition or_else :: "'a option \<Rightarrow> 'a \<Rightarrow> 'a" where
  "or_else x dflt = (case x of Some v \<Rightarrow> v | None \<Rightarrow> dflt)"

definition apply_args :: "args \<Rightarrow> daemon_config \<Rightarrow> daemon_config" where
  "apply_args a d0 =
     (let d = (case arg_base_dir a of None \<Rightarrow> d0 | Some base \<Rightarrow> apply_base base d0); c = dmn_config d in
      d\<lparr> dmn_metrics_addr := or_else (arg_metrics_addr a) (dmn_metrics_addr d),
         dmn_admin_socket := or_else (arg_admin_socket a) (dmn_admin_socket d),
         dmn_disable_metrics := dmn_disable_metrics d \<or> arg_disable_metrics a,
         dmn_disable_admin := dmn_disable_admin d \<or> arg_disable_admin a,
         dmn_enable_firewall := dmn_enable_firewall d \<and> \<not> arg_disable_firewall a,
         dmn_config := c\<lparr> cfg_min_delay_ms := or_else (arg_min_delay_ms a) (cfg_min_delay_ms c),
            cfg_max_delay_ms := or_else (arg_max_delay_ms a) (cfg_max_delay_ms c),
            cfg_max_tarpit_secs := or_else (arg_max_tarpit_secs a) (cfg_max_tarpit_secs c),
            cfg_max_tarpit_conns := or_else (arg_max_tarpit_conns a) (cfg_max_tarpit_conns c),
            cfg_max_connections := or_else (arg_max_connections a) (cfg_max_connections c),
            cfg_proxy_protocol := cfg_proxy_protocol c \<or> arg_proxy_protocol a,
            cfg_enforcement := (if arg_disable_firewall a then (cfg_enforcement c)\<lparr> enforcement_mode := ObserveMode \<rparr>
                                else cfg_enforcement c) \<rparr> \<rparr>)"

definition share_plane_settings :: "bagel_config \<Rightarrow> bagel_config" where
  "share_plane_settings b =
     (let w = bg_web b; d = bg_defense b; dec = site_deception w in
      b\<lparr> bg_web := w\<lparr> site_deception := dec\<lparr>
             dcc_corpora := (case dcc_corpora dec of None \<Rightarrow> Some (dmn_corpora_dir d) | x \<Rightarrow> x),
             dcc_scripts := (case dcc_scripts dec of None \<Rightarrow> Some (dmn_scripts_dir d) | x \<Rightarrow> x) \<rparr> \<rparr>,
         bg_defense := d\<lparr> dmn_config := (dmn_config d)\<lparr> cfg_trusted_proxies := or_else (site_trusted_proxies w) [] \<rparr> \<rparr> \<rparr>)"

definition validate_web_trust :: "site_config \<Rightarrow> unit result" where
  "validate_web_trust w =
     (if site_trusted_proxies w = None then
        rbind (fail_if (site_client_ip_header w \<noteq> None) (Config ''client-ip-header requires trusted-proxies'')) (\<lambda>_.
        rbind (fail_if (site_client_tls_header w \<noteq> None) (Config ''client-tls-header requires trusted-proxies'')) (\<lambda>_.
          fail_if (bnd_proxy_protocol (site_bind w)) (Config ''bind proxy-protocol requires trusted-proxies'')))
      else Inr ())"

definition validate_planes :: "bagel_config \<Rightarrow> unit result" where
  "validate_planes b =
     rbind (validate_web_trust (bg_web b)) (\<lambda>_.
       fail_if (1 < length (filter (\<lambda>(_, src). src = Web) (cfg_sources (dmn_config (bg_defense b)))))
         (Config ''only one web source may be configured''))"

text \<open>\<open>resolve\<close>, with the file already read: \<open>None\<close> when no file is named.\<close>

definition resolve ::
  "'net ipnet \<Rightarrow> 're regex_lib \<Rightarrow> (string \<Rightarrow> u16 option) \<Rightarrow> daemon_config \<Rightarrow> ('n \<Rightarrow> defense_input result) \<Rightarrow> 'n site_lib \<Rightarrow>
   (string \<times> string result) option \<Rightarrow> args \<Rightarrow> bagel_config result" where
  "resolve N X socket_port defaults decode S file a =
     rbind (case file of
              None \<Rightarrow> Inr \<lparr> bg_web = default_site, bg_defense = defaults \<rparr>
            | Some (path, contents) \<Rightarrow>
                (case contents of
                   Inl e \<Rightarrow> Inl (Config (''failed to read config file '' @ path))
                 | Inr text_of \<Rightarrow> parse_bagel defaults decode S text_of path)) (\<lambda>b.
       let web = (if arg_trusted_proxy a = [] then bg_web b else (bg_web b)\<lparr> site_trusted_proxies := Some (arg_trusted_proxy a) \<rparr>);
           b' = share_plane_settings \<lparr> bg_web = web, bg_defense = apply_args a (bg_defense b) \<rparr>
       in rbind (validate_config N X socket_port (dmn_config (bg_defense b'))) (\<lambda>_.
          rbind (validate_planes b') (\<lambda>_. Inr b')))"

section \<open>A theme cannot smuggle anything\<close>

text \<open>The characters with which a value could leave its declaration, its block or the style element.\<close>

definition BREAKING :: "char list" where
  "BREAKING = '';:{}<>()/@!*=&'' @ [CHR 0x5C, CHR 0x0A, CHR 0x0D]"

lemma hexdigit_alnum: "is_hexdigit c \<Longrightarrow> is_alphanumeric c"
  by (auto simp: is_hexdigit_def hex_nibble_def is_alphanumeric_def is_digit_def is_lower_def is_upper_def code_of_def split: if_splits)

lemma alnum_harmless: "is_alphanumeric c \<Longrightarrow> c \<notin> set BREAKING"
  by (auto simp: BREAKING_def is_alphanumeric_def is_lower_def is_upper_def is_digit_def)

lemma marks_harmless:
  "\<forall>c \<in> {CHR '' '', CHR '','', CHR 0x27, CHR 0x22, CHR ''-'', CHR ''_'', CHR ''.'', CHR ''%''}. c \<notin> set BREAKING"
  by (simp add: BREAKING_def)

lemma split_on_letters: "x \<in> set s \<Longrightarrow> x = d \<or> (\<exists>w \<in> set (split_on d s). x \<in> set w)"
  by (induction s) (auto split: list.splits)

lemma css_number_chars:
  assumes "css_number value \<noteq> []"
  shows "\<exists>unit_text \<in> {''px'', ''rem'', ''em'', ''%''}. value = css_number value @ unit_text"
proof -
  have "\<exists>unit_text \<in> {''px'', ''rem'', ''em'', ''%''}. strip_suffix unit_text value = Some (css_number value)"
    using assms by (simp add: css_number_def split: option.splits)
  then show ?thesis unfolding strip_suffix_iff .
qed

lemma css_length_chars:
  assumes "is_css_length value" "c \<in> set value"
  shows "is_alphanumeric c \<or> c \<in> {CHR ''.'', CHR ''%''}"
proof (cases "value = ''0''")
  case True
  then show ?thesis using assms(2) by (simp add: is_alphanumeric_def is_digit_def)
next
  case False
  let ?n = "css_number value"
  have n: "?n \<noteq> []" using assms(1) False by (auto simp: is_css_length_def Let_def)
  have "\<forall>w \<in> set (split_on CHR ''.'' ?n). list_all is_digit w"
    using assms(1) False by (auto simp: is_css_length_def Let_def split: list.splits if_splits)
  then have number: "c \<in> set ?n \<Longrightarrow> is_digit c \<or> c = CHR ''.''" using split_on_letters [of c ?n "CHR ''.''"] by (auto simp: list_all_iff)
  obtain u where u: "u \<in> {''px'', ''rem'', ''em'', ''%''}" "value = ?n @ u" using css_number_chars [OF n] by blast
  have "c \<in> set ?n \<or> c \<in> set u" using assms(2) arg_cong [OF u(2), of set] by auto
  moreover have "is_alphanumeric c \<or> c = CHR ''%''" if "c \<in> set u"
    using that u(1) by (auto simp: is_alphanumeric_def is_lower_def)
  ultimately show ?thesis using number by (auto simp: is_alphanumeric_def)
qed

lemma theme_validate_cases:
  "theme_validate name value = Inr () \<Longrightarrow>
     is_hex_color value \<or> is_css_length value \<or> list_all font_char value \<or> value \<in> {''light'', ''dark'', ''light dark''}"
  unfolding theme_validate_def Let_def by (simp split: if_split_asm)



section \<open>Policies of a document\<close>

text \<open>What one node does to the policy.\<close>

lemma apply_node_policy:
  assumes "apply_node S node c = Inr (Some c')"
  shows "(kl_name (sl_kdl S) node = ''policy'' \<longrightarrow> (\<exists>p. from_kdl (sl_kdl S) node = Inr p \<and> site_policy c' = p)) \<and>
    (kl_name (sl_kdl S) node = ''policy-dir'' \<longrightarrow> (\<exists>q. policy_dir S node = Inr q \<and> site_policy c' = merge_policy (site_policy c) q)) \<and>
    (kl_name (sl_kdl S) node \<notin> {''policy'', ''policy-dir''} \<longrightarrow> site_policy c' = site_policy c)"
  using assms unfolding apply_node_def Let_def
  by (simp split: if_split_asm; clarsimp simp: result_simps)

lemma relocated_Inr [result_simps]: "relocated text_of path r = Inr x \<longleftrightarrow> r = Inr x"
  by (cases r) (auto simp: relocated_def)

lemma parse_nodes_step:
  assumes "parse_nodes defaults decode S text_of path seen b (node # nodes) = Inr b'"
  obtains seen1 b1 where "reject_repeated (sl_kdl S) node seen = Inr seen1"
    "parse_nodes defaults decode S text_of path seen1 b1 nodes = Inr b'"
    "if kl_name (sl_kdl S) node = ''defense'' then bg_web b1 = bg_web b else apply_node S node (bg_web b) = Inr (Some (bg_web b1))"
proof -
  obtain seen1 where seen1: "reject_repeated (sl_kdl S) node seen = Inr seen1" using assms by (auto simp: result_simps)
  show ?thesis
  proof (cases "kl_name (sl_kdl S) node = ''defense''")
    case True
    then show ?thesis using assms seen1 that by (auto simp: result_simps)
  next
    case False
    then obtain web where "apply_node S node (bg_web b) = Inr (Some web)"
      "parse_nodes defaults decode S text_of path seen1 (b\<lparr> bg_web := web \<rparr>) nodes = Inr b'"
      using assms seen1 by (auto simp: result_simps split: option.splits)
    then show ?thesis using that [of seen1 "b\<lparr> bg_web := web \<rparr>"] seen1 False by simp
  qed
qed

lemma reject_repeated_seen:
  "reject_repeated K node seen = Inr seen1 \<Longrightarrow> set seen \<subseteq> set seen1 \<and> (kl_name K node \<noteq> ''policy-dir'' \<longrightarrow> kl_name K node \<in> set seen1 - set seen)"
  by (auto simp: reject_repeated_def Let_def split: if_splits)

lemma parse_nodes_after_policy:
  assumes "parse_nodes defaults decode S text_of path seen b nodes = Inr b'" "''policy'' \<in> set seen"
  shows "\<exists>dirs. list_all2 (\<lambda>n q. policy_dir S n = Inr q) (filter (\<lambda>n. kl_name (sl_kdl S) n = ''policy-dir'') nodes) dirs \<and>
    site_policy (bg_web b') = foldl merge_policy (site_policy (bg_web b)) dirs"
  using assms
proof (induction nodes arbitrary: seen b)
  case (Cons node nodes)
  let ?K = "sl_kdl S"
  obtain seen1 b1 where step: "reject_repeated ?K node seen = Inr seen1" "parse_nodes defaults decode S text_of path seen1 b1 nodes = Inr b'"
    "if kl_name ?K node = ''defense'' then bg_web b1 = bg_web b else apply_node S node (bg_web b) = Inr (Some (bg_web b1))"
    using parse_nodes_step [OF Cons.prems(1)] by blast
  have seen: "''policy'' \<in> set seen1" "kl_name ?K node \<noteq> ''policy''"
    using reject_repeated_seen [OF step(1)] Cons.prems(2) by auto
  obtain dirs where dirs: "list_all2 (\<lambda>n q. policy_dir S n = Inr q) (filter (\<lambda>n. kl_name ?K n = ''policy-dir'') nodes) dirs"
    "site_policy (bg_web b') = foldl merge_policy (site_policy (bg_web b1)) dirs"
    using Cons.IH [OF step(2) seen(1)] by blast
  show ?case
  proof (cases "kl_name ?K node = ''policy-dir''")
    case True
    then obtain q where "policy_dir S node = Inr q" "site_policy (bg_web b1) = merge_policy (site_policy (bg_web b)) q"
      using step(3) apply_node_policy by fastforce
    then show ?thesis using dirs True by (intro exI [of _ "q # dirs"]) simp
  next
    case False
    have "site_policy (bg_web b1) = site_policy (bg_web b)"
      using step(3) apply_node_policy [of S node "bg_web b" "bg_web b1"] seen(2) False by (auto split: if_splits)
    then show ?thesis using dirs False by auto
  qed
qed simp

lemma parse_nodes_append:
  assumes "parse_nodes defaults decode S text_of path seen b (pre @ post) = Inr b'"
  obtains seen1 b1 where "parse_nodes defaults decode S text_of path seen1 b1 post = Inr b'"
  using assms
proof (induction pre arbitrary: seen b thesis)
  case (Cons node pre)
  then show ?case using parse_nodes_step [of defaults decode S text_of path seen b node "pre @ post" b'] by (metis append_Cons)
qed simp

text \<open>C20. A policy node throws away the policy directories named before it. The policy of a document that
  parses is that of its \<open>policy\<close> node followed by the directories named after the node; those named
  earlier have been loaded and contribute nothing.\<close>

theorem earlier_policy_dirs_discarded:
  assumes "parse_bagel defaults decode S text_of path = Inr b" "sl_parse S text_of = Inr (pre @ node # post)"
    and "kl_name (sl_kdl S) node = ''policy''"
  shows "\<exists>p dirs. from_kdl (sl_kdl S) node = Inr p \<and>
    list_all2 (\<lambda>n q. policy_dir S n = Inr q) (filter (\<lambda>n. kl_name (sl_kdl S) n = ''policy-dir'') post) dirs \<and>
    site_policy (bg_web b) = foldl merge_policy p dirs"
proof -
  have "parse_nodes defaults decode S text_of path [] \<lparr> bg_web = default_site, bg_defense = defaults \<rparr> (pre @ node # post) = Inr b"
    using assms(1,2) by (simp add: parse_bagel_def)
  then obtain seen1 b1 where rest: "parse_nodes defaults decode S text_of path seen1 b1 (node # post) = Inr b" by (rule parse_nodes_append)
  obtain seen2 b2 where step: "reject_repeated (sl_kdl S) node seen1 = Inr seen2"
    "parse_nodes defaults decode S text_of path seen2 b2 post = Inr b"
    and node: "if kl_name (sl_kdl S) node = ''defense'' then bg_web b2 = bg_web b1 else apply_node S node (bg_web b1) = Inr (Some (bg_web b2))"
    by (rule parse_nodes_step [OF rest])
  have applied: "apply_node S node (bg_web b1) = Inr (Some (bg_web b2))" using node assms(3) by simp
  have "''policy'' \<in> set seen2" using reject_repeated_seen [OF step(1)] assms(3) by simp
  from parse_nodes_after_policy [OF step(2) this] apply_node_policy [OF applied] assms(3) show ?thesis by auto
qed

text \<open>A document that names a directory with one rule and then has an empty policy.\<close>

definition ex_names :: "string kdl_lib" where
  "ex_names = \<lparr> kl_name = (\<lambda>n. n), kl_offset = (\<lambda>_. 0), kl_children = (\<lambda>_. []), kl_networks = (\<lambda>_. Inr []),
     kl_prelude = (\<lambda>_. Inr []), kl_challenges = (\<lambda>_. Inr []), kl_rules = (\<lambda>_. Inr [ex_rule_input]),
     kl_scoring = (\<lambda>_. Inr (None, [])), kl_mazes = (\<lambda>_. Inr []), kl_renderers = (\<lambda>_. Inr []), kl_crawlers = (\<lambda>_. Inr []) \<rparr>"

definition ex_site :: "string site_lib" where
  "ex_site = \<lparr> sl_kdl = ex_names, sl_bind = (\<lambda>_. Inr default_bind), sl_number = (\<lambda>_. Inr 418), sl_string = (\<lambda>_. Inr ''d''),
     sl_strings = (\<lambda>_. Inr []), sl_client_tls = (\<lambda>_. Inr ([], None)), sl_backends = (\<lambda>_. Inr []), sl_entries = (\<lambda>_. Inr []),
     sl_links = (\<lambda>_. Inr []), sl_theme = (\<lambda>_. Inr \<lparr> cth_vars = [], cth_light = [], cth_dark = [] \<rparr>),
     sl_deception = (\<lambda>_. Inr default_deception), sl_smear = (\<lambda>_. Inr default_smear),
     sl_dir = (\<lambda>_. Inr [(''a.kdl'', Inr ''x'')]),
     sl_parse = (\<lambda>s. if s = ''doc'' then Inr [''policy-dir'', ''policy''] else Inr [''rules'']) \<rparr>"

lemma ex_dir_policy: "policy_dir ex_site ''policy-dir'' = Inr (default_policy\<lparr> plc_rules := [rule_of_input ex_rule_input] \<rparr>)"
proof -
  have "load_file ex_names (sl_parse ex_site) (''a.kdl'', Inr ''x'') = Inr [default_policy\<lparr> plc_rules := [rule_of_input ex_rule_input] \<rparr>]"
    using load_file_rules [of "sl_parse ex_site" "''x''" "''rules''" ex_names "[ex_rule_input]" "''a.kdl''"] by (simp add: ex_site_def ex_names_def)
  then show ?thesis by (simp add: policy_dir_def load_dir_def load_files_snippets ex_site_def ex_extensions)
qed

lemma ex_parsed:
  "parse_bagel defaults decode ex_site ''doc'' ''f'' = Inr \<lparr> bg_web = default_site, bg_defense = defaults \<rparr>"
proof -
  have "from_kdl ex_names ''policy'' = Inr default_policy" by (simp add: from_kdl_def ex_names_def)
  moreover have "apply_node ex_site ''policy-dir'' default_site =
      Inr (Some (default_site\<lparr> site_policy := default_policy\<lparr> plc_rules := [rule_of_input ex_rule_input] \<rparr> \<rparr>))"
    using ex_dir_policy by (simp add: apply_node_def ex_site_def ex_names_def default_site_def)
  ultimately show ?thesis
    by (simp add: parse_bagel_def ex_site_def ex_names_def reject_repeated_def relocated_def apply_node_def default_site_def)
qed

theorem earlier_policy_dirs_discarded_witness:
  "\<forall>defaults decode. \<exists>b p. parse_bagel defaults decode ex_site ''doc'' ''f'' = Inr b \<and> from_kdl ex_names ''policy'' = Inr p \<and>
     site_policy (bg_web b) = p \<and> policy_dir ex_site ''policy-dir'' = Inr (default_policy\<lparr> plc_rules := [rule_of_input ex_rule_input] \<rparr>)"
proof (intro allI)
  fix defaults decode
  have "sl_parse ex_site ''doc'' = Inr ([''policy-dir''] @ ''policy'' # [])" "sl_kdl ex_site = ex_names" "kl_name ex_names ''policy'' = ''policy''"
    by (simp_all add: ex_site_def ex_names_def)
  then show "\<exists>b p. parse_bagel defaults decode ex_site ''doc'' ''f'' = Inr b \<and> from_kdl ex_names ''policy'' = Inr p \<and>
     site_policy (bg_web b) = p \<and> policy_dir ex_site ''policy-dir'' = Inr (default_policy\<lparr> plc_rules := [rule_of_input ex_rule_input] \<rparr>)"
    using earlier_policy_dirs_discarded [OF ex_parsed [of defaults decode], of "[''policy-dir'']" "''policy''" "[]"] ex_dir_policy
    by (simp add: ex_parsed)
qed

section \<open>Forwarded identity needs trusted proxies\<close>

lemma apply_node_trust:
  assumes "apply_node S node c = Inr (Some c')" "site_trusted_proxies c \<noteq> Some []"
  shows "site_trusted_proxies c' \<noteq> Some []"
  using assms unfolding apply_node_def Let_def
  by (simp split: if_split_asm; auto simp: result_simps fail_if_def split: if_splits)

lemma parse_nodes_trust:
  "parse_nodes defaults decode S text_of path seen b nodes = Inr b' \<Longrightarrow> site_trusted_proxies (bg_web b) \<noteq> Some [] \<Longrightarrow>
     site_trusted_proxies (bg_web b') \<noteq> Some []"
proof (induction nodes arbitrary: seen b)
  case (Cons node nodes)
  obtain seen1 b1 where step: "parse_nodes defaults decode S text_of path seen1 b1 nodes = Inr b'"
    "if kl_name (sl_kdl S) node = ''defense'' then bg_web b1 = bg_web b else apply_node S node (bg_web b) = Inr (Some (bg_web b1))"
    using parse_nodes_step [OF Cons.prems(1)] by blast
  then show ?case using Cons.IH [OF step(1)] Cons.prems(2) apply_node_trust [of S node "bg_web b" "bg_web b1"] by (auto split: if_splits)
qed simp

lemma share_keeps:
  "site_trusted_proxies (bg_web (share_plane_settings b)) = site_trusted_proxies (bg_web b)"
  "cfg_trusted_proxies (dmn_config (bg_defense (share_plane_settings b))) = or_else (site_trusted_proxies (bg_web b)) []"
  by (simp_all add: share_plane_settings_def Let_def)

text \<open>C22. A configuration that resolves takes a client's identity from nobody but named proxies: when a
  forwarding header, a relayed fingerprint or the PROXY protocol is enabled for the web plane, a
  non-empty list of trusted proxies is configured, and the defense plane uses the same list.\<close>

theorem forwarded_identity_needs_trust:
  assumes "resolve N X socket_port defaults decode S file a = Inr b"
  shows "(site_client_ip_header (bg_web b) \<noteq> None \<or> site_client_tls_header (bg_web b) \<noteq> None \<or> bnd_proxy_protocol (site_bind (bg_web b)) \<longrightarrow>
      (\<exists>p ps. site_trusted_proxies (bg_web b) = Some (p # ps))) \<and>
    cfg_trusted_proxies (dmn_config (bg_defense b)) = or_else (site_trusted_proxies (bg_web b)) [] \<and>
    validate_config N X socket_port (dmn_config (bg_defense b)) = Inr ()"
proof -
  obtain b0 where b0: "(case file of None \<Rightarrow> Inr \<lparr> bg_web = default_site, bg_defense = defaults \<rparr>
      | Some (path, contents) \<Rightarrow> (case contents of Inl e \<Rightarrow> Inl (Config (''failed to read config file '' @ path))
          | Inr text_of \<Rightarrow> parse_bagel defaults decode S text_of path)) = Inr b0"
    using assms by (auto simp: resolve_def rbind_Inr_iff)
  define b1 where "b1 = \<lparr> bg_web = (if arg_trusted_proxy a = [] then bg_web b0 else (bg_web b0)\<lparr> site_trusted_proxies := Some (arg_trusted_proxy a) \<rparr>),
     bg_defense = apply_args a (bg_defense b0) \<rparr>"
  have b: "b = share_plane_settings b1" "validate_config N X socket_port (dmn_config (bg_defense b)) = Inr ()" "validate_planes b = Inr ()"
    using assms b0 by (auto simp: resolve_def b1_def Let_def rbind_Inr_iff)
  have "site_trusted_proxies default_site \<noteq> Some []" by (simp add: default_site_def)
  then have "site_trusted_proxies (bg_web b0) \<noteq> Some []"
    using b0 parse_nodes_trust by (fastforce simp: parse_bagel_def split: option.splits sum.splits)
  then have "site_trusted_proxies (bg_web b) \<noteq> Some []" unfolding b(1) share_keeps by (auto simp: b1_def)
  moreover have "site_trusted_proxies (bg_web b) \<noteq> None"
    if "site_client_ip_header (bg_web b) \<noteq> None \<or> site_client_tls_header (bg_web b) \<noteq> None \<or> bnd_proxy_protocol (site_bind (bg_web b))"
    using that b(3) by (auto simp: validate_planes_def validate_web_trust_def rbind_Inr_iff fail_if_def split: if_splits)
  moreover have "cfg_trusted_proxies (dmn_config (bg_defense b)) = or_else (site_trusted_proxies (bg_web b)) []"
    unfolding b(1) share_keeps by (rule refl)
  ultimately show ?thesis using b(2) by (metis neq_Nil_conv not_None_eq)
qed

definition ex_daemon :: daemon_config where
  "ex_daemon = \<lparr> dmn_config = ex_config, dmn_metrics_addr = ''127.0.0.1:9100'', dmn_disable_metrics = False, dmn_admin_socket = ''/s'',
     dmn_disable_admin = False, dmn_drain_timeout_secs = 10, dmn_enable_firewall = True, dmn_corpora_dir = ''/c'', dmn_scripts_dir = ''/s'',
     dmn_data_dir = ''/d'', dmn_cache_dir = ''/k'' \<rparr>"

definition ex_args :: args where
  "ex_args = \<lparr> arg_metrics_addr = None, arg_disable_metrics = True, arg_admin_socket = None, arg_disable_admin = False, arg_min_delay_ms = None,
     arg_max_delay_ms = None, arg_max_tarpit_secs = None, arg_max_tarpit_conns = None, arg_max_connections = None,
     arg_proxy_protocol = False, arg_trusted_proxy = [], arg_disable_firewall = False, arg_base_dir = None \<rparr>"

definition ex_resolved :: bagel_config where
  "ex_resolved = share_plane_settings \<lparr> bg_web = default_site, bg_defense = apply_args ex_args ex_daemon \<rparr>"

lemma ex_resolve:
  "resolve cidr ex_regex (\<lambda>_. Some 22) ex_daemon (\<lambda>_. Inl (Other [])) ex_site None ex_args = Inr ex_resolved"
proof -
  have "dmn_config (bg_defense ex_resolved) = ex_config"
    by (simp add: ex_resolved_def share_plane_settings_def apply_args_def ex_args_def ex_daemon_def or_else_def default_site_def ex_config_def Let_def)
  moreover have "validate_planes ex_resolved = Inr ()"
    by (simp add: validate_planes_def validate_web_trust_def calculation)
      (simp add: ex_resolved_def share_plane_settings_def default_site_def default_bind_def fail_if_def ex_config_def Let_def)
  ultimately show ?thesis using ex_config_valid by (simp add: resolve_def ex_resolved_def ex_args_def Let_def)
qed

theorem forwarded_identity_needs_trust_witness:
  "cfg_trusted_proxies (dmn_config (bg_defense ex_resolved)) = or_else (site_trusted_proxies (bg_web ex_resolved)) []"
  using forwarded_identity_needs_trust [OF ex_resolve] by simp

end
